(* ===== verification/Mojo_Prelude.thy ===== *)
theory Mojo_Prelude
  imports Main "HOL-Library.Monad_Syntax" "HOL-Library.Sublist" "HOL-Library.Char_ord"
begin

text \<open>
  Shared vocabulary of the development: the rounding function \<open>alignTo\<close> of LLVM's
  \<^verbatim>\<open>MathExtras.h\<close>, the string operations of \<^verbatim>\<open>llvm::StringRef\<close> that the sources use,
  results with an error message, and the generic facts on lists that the component theories share.
\<close>

named_theorems align_laws \<open>facts about rounding up to an alignment\<close>
named_theorems str_laws \<open>facts about the string operations\<close>

section \<open>Results\<close>

text \<open>\<^verbatim>\<open>ErrorOr<T>\<close>: a message on the left, a value on the right.\<close>

type_synonym 'a error_or = "string + 'a"

definition bind_err :: "'a error_or \<Rightarrow> ('a \<Rightarrow> 'b error_or) \<Rightarrow> 'b error_or" where
  "bind_err r f = (case r of Inl e \<Rightarrow> Inl e | Inr x \<Rightarrow> f x)"

lemma bind_err_simps [simp]:
  "bind_err (Inl e) f = Inl e"
  "bind_err (Inr x) f = f x"
  by (simp_all add: bind_err_def)

lemma bind_err_eq_Inr_iff:
  "bind_err r f = Inr y \<longleftrightarrow> (\<exists>x. r = Inr x \<and> f x = Inr y)"
  by (cases r) auto

section \<open>Rounding up\<close>

text \<open>\<^verbatim>\<open>llvm::alignTo(Value, Align)\<close>: the next multiple of the alignment.\<close>

definition alignTo :: "nat \<Rightarrow> nat \<Rightarrow> nat" where
  "alignTo x a = (x + a - 1) div a * a"

lemma alignTo_dvd [align_laws, simp]: "a dvd alignTo x a"
  by (simp add: alignTo_def)

lemma alignTo_ge [align_laws]: "0 < a \<Longrightarrow> x \<le> alignTo x a"
proof -
  assume a: "0 < a"
  have "x + a - 1 = (x + a - 1) div a * a + (x + a - 1) mod a" by simp
  moreover have "(x + a - 1) mod a \<le> a - 1" using a by (simp add: less_Suc_eq_le [symmetric])
  ultimately have "x + a - 1 \<le> (x + a - 1) div a * a + (a - 1)" by linarith
  then have "x + a - 1 \<le> alignTo x a + (a - 1)" by (simp only: alignTo_def)
  with a show ?thesis by linarith
qed

lemma alignTo_less [align_laws]: "0 < a \<Longrightarrow> alignTo x a < x + a"
proof -
  assume a: "0 < a"
  have "(x + a - 1) div a * a \<le> x + a - 1" by (rule div_times_less_eq_dividend)
  then have "alignTo x a \<le> x + a - 1" by (simp only: alignTo_def)
  with a show ?thesis by linarith
qed

lemma alignTo_least: "0 < a \<Longrightarrow> x \<le> y \<Longrightarrow> a dvd y \<Longrightarrow> alignTo x a \<le> y"
proof -
  assume a: "0 < a" and xy: "x \<le> y" and d: "a dvd y"
  show ?thesis
  proof (rule ccontr)
    assume "\<not> ?thesis"
    then have lt: "y < alignTo x a" by simp
    have "a dvd alignTo x a - y" using d by (simp add: dvd_diff_nat)
    with lt have "a \<le> alignTo x a - y" by (simp add: dvd_imp_le)
    moreover have "alignTo x a < x + a" using a by (rule alignTo_less)
    ultimately show False using xy lt by linarith
  qed
qed

lemma alignTo_id [align_laws, simp]: "0 < a \<Longrightarrow> a dvd x \<Longrightarrow> alignTo x a = x"
  by (rule antisym) (simp_all add: alignTo_least alignTo_ge)

lemma alignTo_1 [align_laws, simp]: "alignTo x 1 = x" "alignTo x (Suc 0) = x"
  by (simp_all add: alignTo_def)

lemma alignTo_mono: "0 < a \<Longrightarrow> x \<le> y \<Longrightarrow> alignTo x a \<le> alignTo y a"
  by (meson alignTo_dvd alignTo_ge alignTo_least le_trans)

lemma alignTo_coarser: "0 < b \<Longrightarrow> a dvd b \<Longrightarrow> alignTo x a \<le> alignTo x b"
  by (meson alignTo_dvd alignTo_ge alignTo_least dvd_pos_nat dvd_trans)

lemma alignTo_shift: "0 < a \<Longrightarrow> a dvd k \<Longrightarrow> alignTo (k + x) a = k + alignTo x a"
proof (rule antisym)
  assume a: "0 < a" and k: "a dvd k"
  show "alignTo (k + x) a \<le> k + alignTo x a"
    using a k by (simp add: alignTo_least alignTo_ge)
  have "k \<le> alignTo (k + x) a" using alignTo_ge [OF a, of "k + x"] by linarith
  moreover have "alignTo x a \<le> alignTo (k + x) a - k"
    using a k alignTo_ge [OF a, of "k + x"] by (intro alignTo_least) (simp_all add: dvd_diff_nat)
  ultimately show "k + alignTo x a \<le> alignTo (k + x) a" by linarith
qed

text \<open>\<^verbatim>\<open>llvm::isPowerOf2_64\<close>: exactly one bit set.\<close>

definition isPowerOf2 :: "nat \<Rightarrow> bool" where
  "isPowerOf2 n \<longleftrightarrow> n \<noteq> 0 \<and> and n (n - 1) = 0"

text \<open>Alignments are powers of two; of two of them the smaller divides the larger.\<close>

definition pow2_align :: "nat \<Rightarrow> bool" where
  "pow2_align a \<longleftrightarrow> (\<exists>k. a = 2 ^ k)"

lemma pow2_align_pos: "pow2_align a \<Longrightarrow> 0 < a"
  by (auto simp: pow2_align_def)

lemma pow2_align_1: "pow2_align 1" "pow2_align (Suc 0)"
  by (auto simp: pow2_align_def intro: exI [of _ 0])

lemma pow2_align_max: "pow2_align a \<Longrightarrow> pow2_align b \<Longrightarrow> pow2_align (max a b)"
  by (simp add: max_def)

lemma pow2_align_dvd: "pow2_align a \<Longrightarrow> pow2_align b \<Longrightarrow> a \<le> b \<Longrightarrow> a dvd b"
  by (auto simp: pow2_align_def le_imp_power_dvd)

section \<open>Strings\<close>

definition starts_with :: "string \<Rightarrow> string \<Rightarrow> bool" where
  "starts_with p s \<longleftrightarrow> take (length p) s = p"

definition ends_with :: "string \<Rightarrow> string \<Rightarrow> bool" where
  "ends_with p s \<longleftrightarrow> length p \<le> length s \<and> drop (length s - length p) s = p"

text \<open>\<^verbatim>\<open>StringRef::consume_front\<close>: drop the prefix if it is there.\<close>

definition consume_front :: "string \<Rightarrow> string \<Rightarrow> string option" where
  "consume_front p s = (if starts_with p s then Some (drop (length p) s) else None)"

definition to_lower_char :: "char \<Rightarrow> char" where
  "to_lower_char c = (if CHR ''A'' \<le> c \<and> c \<le> CHR ''Z'' then char_of (of_char c + 32 :: nat) else c)"

lemma starts_with_iff [str_laws]: "starts_with p s \<longleftrightarrow> (\<exists>r. s = p @ r)"
  unfolding starts_with_def by (metis append_eq_conv_conj append_take_drop_id)

lemma ends_with_iff [str_laws]: "ends_with p s \<longleftrightarrow> (\<exists>r. s = r @ p)"
proof
  assume "ends_with p s"
  then have "s = take (length s - length p) s @ p"
    unfolding ends_with_def by (metis append_take_drop_id)
  then show "\<exists>r. s = r @ p" by blast
qed (auto simp: ends_with_def)

lemma consume_front_Some_iff [str_laws]: "consume_front p s = Some r \<longleftrightarrow> s = p @ r"
  by (auto simp: consume_front_def starts_with_iff)

lemma consume_front_None_iff [str_laws]: "consume_front p s = None \<longleftrightarrow> \<not> starts_with p s"
  by (simp add: consume_front_def)

section \<open>Data types\<close>

text \<open>\<^verbatim>\<open>KGENDType\<close>: the scalar types of a vector; an integer has a width and is signed or not.\<close>

datatype kgen_dtype = DBool | DAddress | DIndex | DUIndex | DInt nat bool | DFloat string | DInvalid

end
