(* ===== verification/LLVM_Layout.thy ===== *)
theory LLVM_Layout
  imports Mojo_Prelude
begin

text \<open>
  Types of the LLVM dialect and the size and alignment queries of \<^verbatim>\<open>LLVMDataLayout\<close>
  (\<^verbatim>\<open>Mojo/lib/KGENToLLVM/LLVMLoweringUtils.cpp\<close>, lines 50 to 115).  The target's data layout and
  the two accessors that the header \<^verbatim>\<open>LLVMLoweringUtils.h\<close> derives from these queries are not part
  of the repository: they are the fields of the record \<open>target_layout\<close>, and the locale
  \<open>data_layout\<close> names what LLVM documents about them.
\<close>

section \<open>Types\<close>

text \<open>
  A floating point type carries its name and its width, because types of equal width are still
  different types (\<^verbatim>\<open>f16\<close> and \<^verbatim>\<open>bf16\<close>).  \<open>LVoid\<close> stands for the dialect types that have no size.
\<close>

datatype ll_type =
    LInt nat
  | LFloat string nat
  | LPtr nat
  | LVec nat ll_type
  | LArr nat ll_type
  | LStruct "ll_type list"
  | LVoid

abbreviation i8 :: ll_type where "i8 \<equiv> LInt 8"

fun isIntOrFloat :: "ll_type \<Rightarrow> bool" where
  "isIntOrFloat (LInt _) = True"
| "isIntOrFloat (LFloat _ _) = True"
| "isIntOrFloat _ = False"

text \<open>The types the two queries accept; the others reach \<^verbatim>\<open>report_fatal_error\<close>.\<close>

fun sized :: "ll_type \<Rightarrow> bool" where
  "sized (LVec _ t) = sized t"
| "sized (LArr _ t) = sized t"
| "sized (LStruct ts) = list_all sized ts"
| "sized LVoid = False"
| "sized _ = True"

section \<open>Queries\<close>

record target_layout =
  pointerBitWidth :: "nat \<Rightarrow> nat"
  vectorBitWidth :: "nat \<Rightarrow> nat \<Rightarrow> nat"
  integerABIAlign :: "nat \<Rightarrow> nat"
  floatABIAlign :: "nat \<Rightarrow> nat"
  pointerABIAlign :: nat
  structABIAlign :: nat
  storeBytes :: "nat \<Rightarrow> nat"
  allocBytes :: "nat \<Rightarrow> nat \<Rightarrow> nat"

type_synonym align_and_type = "nat \<times> ll_type option"

fun getTypeABIAlignAndType :: "target_layout \<Rightarrow> ll_type \<Rightarrow> align_and_type option"
  and strictestMember ::
    "target_layout \<Rightarrow> ll_type list \<Rightarrow> align_and_type \<Rightarrow> align_and_type option" where
  "getTypeABIAlignAndType dl (LInt w) = Some (integerABIAlign dl w, Some (LInt w))"
| "getTypeABIAlignAndType dl (LFloat n w) = Some (floatABIAlign dl w, Some (LFloat n w))"
| "getTypeABIAlignAndType dl (LPtr a) = Some (pointerABIAlign dl, Some (LPtr a))"
| "getTypeABIAlignAndType dl (LVec n t) = getTypeABIAlignAndType dl t"
| "getTypeABIAlignAndType dl (LArr n t) = getTypeABIAlignAndType dl t"
| "getTypeABIAlignAndType dl (LStruct ts) =
     do {
       (a, t) \<leftarrow> strictestMember dl ts (1, None);
       Some (max a (structABIAlign dl), t)
     }"
| "getTypeABIAlignAndType dl LVoid = None"
| "strictestMember dl [] best = Some best"
| "strictestMember dl (t # ts) best =
     do {
       cur \<leftarrow> getTypeABIAlignAndType dl t;
       strictestMember dl ts (if fst best \<le> fst cur then cur else best)
     }"

definition getTypeABIAlign :: "target_layout \<Rightarrow> ll_type \<Rightarrow> nat option" where
  "getTypeABIAlign dl t = map_option fst (getTypeABIAlignAndType dl t)"

text \<open>
  The struct case walks the members with the running size and the strictest alignment, as the loop
  does; \<open>structExtent\<close> is that loop.
\<close>

fun getTypeSizeInBits :: "target_layout \<Rightarrow> ll_type \<Rightarrow> nat option"
  and structExtent :: "target_layout \<Rightarrow> ll_type list \<Rightarrow> nat \<times> nat \<Rightarrow> (nat \<times> nat) option" where
  "getTypeSizeInBits dl (LInt w) = Some w"
| "getTypeSizeInBits dl (LFloat n w) = Some w"
| "getTypeSizeInBits dl (LPtr a) = Some (pointerBitWidth dl a)"
| "getTypeSizeInBits dl (LVec n t) = map_option (vectorBitWidth dl n) (getTypeSizeInBits dl t)"
| "getTypeSizeInBits dl (LArr n t) =
     map_option (\<lambda>b. n * storeBytes dl b * 8) (getTypeSizeInBits dl t)"
| "getTypeSizeInBits dl (LStruct ts) =
     map_option (\<lambda>(sz, strictest). alignTo sz strictest * 8) (structExtent dl ts (0, 1))"
| "getTypeSizeInBits dl LVoid = None"
| "structExtent dl [] acc = Some acc"
| "structExtent dl (t # ts) (sz, strictest) =
     do {
       a \<leftarrow> getTypeABIAlign dl t;
       b \<leftarrow> getTypeSizeInBits dl t;
       structExtent dl ts
         (alignTo sz a + allocBytes dl (storeBytes dl b) a, max strictest a)
     }"

definition getTypeStoreSize :: "target_layout \<Rightarrow> ll_type \<Rightarrow> nat option" where
  "getTypeStoreSize dl t = map_option (storeBytes dl) (getTypeSizeInBits dl t)"

definition getTypeAllocSize :: "target_layout \<Rightarrow> ll_type \<Rightarrow> nat option" where
  "getTypeAllocSize dl t =
     do { s \<leftarrow> getTypeStoreSize dl t; a \<leftarrow> getTypeABIAlign dl t; Some (allocBytes dl s a) }"

section \<open>Every sized type has a size and an alignment\<close>

lemma sized_align_total:
  "sized t \<Longrightarrow> \<exists>p. getTypeABIAlignAndType dl t = Some p"
  "list_all sized ts \<Longrightarrow> \<exists>p. strictestMember dl ts best = Some p"
  by (induction dl t and dl ts best rule: getTypeABIAlignAndType_strictestMember.induct)
    (auto split: if_splits)

lemma sized_align: "sized t \<Longrightarrow> \<exists>a. getTypeABIAlign dl t = Some a"
  using sized_align_total(1) [of t dl] by (auto simp: getTypeABIAlign_def)

lemma sized_size_total:
  "sized t \<Longrightarrow> \<exists>b. getTypeSizeInBits dl t = Some b"
  "list_all sized ts \<Longrightarrow> \<exists>p. structExtent dl ts acc = Some p"
proof (induction dl t and dl ts acc rule: getTypeSizeInBits_structExtent.induct)
  case (9 dl t ts sz strictest)
  then obtain a b where "getTypeABIAlign dl t = Some a" "getTypeSizeInBits dl t = Some b"
    using sized_align [of t dl] by auto
  with 9 show ?case by simp
qed auto

lemma unsized_size_None:
  "\<not> sized t \<Longrightarrow> getTypeSizeInBits dl t = None"
  "\<not> list_all sized ts \<Longrightarrow> structExtent dl ts acc = None"
proof (induction dl t and dl ts acc rule: getTypeSizeInBits_structExtent.induct)
  case (9 dl t ts sz strictest)
  show ?case
  proof (cases "getTypeABIAlign dl t")
    case (Some a)
    with 9 show ?thesis by (cases "getTypeSizeInBits dl t") auto
  qed simp
qed auto

lemma getTypeAllocSize_Some_iff:
  "getTypeAllocSize dl t = Some n \<longleftrightarrow>
     (\<exists>b a. getTypeSizeInBits dl t = Some b \<and> getTypeABIAlign dl t = Some a \<and>
            n = allocBytes dl (storeBytes dl b) a)"
  by (auto simp: getTypeAllocSize_def getTypeStoreSize_def split: option.splits bind_splits)

lemma sized_alloc: "sized t \<Longrightarrow> \<exists>n. getTypeAllocSize dl t = Some n"
  using sized_size_total(1) [of t dl] sized_align [of t dl] by (auto simp: getTypeAllocSize_Some_iff)

lemma sized_store: "sized t \<Longrightarrow> \<exists>n. getTypeStoreSize dl t = Some n"
  using sized_size_total(1) [of t dl] by (auto simp: getTypeStoreSize_def)

text \<open>
  Where LLVM places the members of a struct: each at the next multiple of its alignment after the
  allocation of the one before.
\<close>

fun fieldOffsets :: "target_layout \<Rightarrow> ll_type list \<Rightarrow> nat \<Rightarrow> nat list option" where
  "fieldOffsets dl [] off = Some []"
| "fieldOffsets dl (t # ts) off =
     do {
       a \<leftarrow> getTypeABIAlign dl t;
       n \<leftarrow> getTypeAllocSize dl t;
       os \<leftarrow> fieldOffsets dl ts (alignTo off a + n);
       Some (alignTo off a # os)
     }"

section \<open>What LLVM documents about a data layout\<close>

text \<open>
  A byte holds eight bits, an allocation rounds the store size up to the alignment, every ABI
  alignment is a power of two, and a vector is at least as wide as one of its elements.
\<close>

locale data_layout =
  fixes dl :: target_layout
  assumes store_law: "storeBytes dl b = (b + 7) div 8"
    and alloc_law: "allocBytes dl s a = alignTo s a"
    and int_align_law: "\<exists>k. integerABIAlign dl w = 2 ^ k"
    and float_align_law: "\<exists>k. floatABIAlign dl w = 2 ^ k"
    and pointer_align_law: "\<exists>k. pointerABIAlign dl = 2 ^ k"
    and struct_align_law: "\<exists>k. structABIAlign dl = 2 ^ k"
    and vector_law: "0 < n \<Longrightarrow> b \<le> vectorBitWidth dl n b"
begin

lemma align_pow2_aux:
  "getTypeABIAlignAndType d t = Some p \<Longrightarrow> d = dl \<Longrightarrow> pow2_align (fst p)"
  "strictestMember d ts best = Some q \<Longrightarrow> d = dl \<Longrightarrow> pow2_align (fst best) \<Longrightarrow>
     pow2_align (fst q) \<and> fst best \<le> fst q"
proof (induction d t and d ts best arbitrary: p and q
    rule: getTypeABIAlignAndType_strictestMember.induct)
  case (6 d ts)
  then obtain a u where "strictestMember dl ts (1, None) = Some (a, u)"
      and p: "p = (max a (structABIAlign dl), u)"
    by (auto split: bind_splits)
  with 6 have "pow2_align a" using pow2_align_1 by auto
  moreover have "pow2_align (structABIAlign dl)" using struct_align_law by (simp add: pow2_align_def)
  ultimately show ?case using p by (simp add: pow2_align_max)
next
  case (9 d t ts best)
  then obtain cur where cur: "getTypeABIAlignAndType dl t = Some cur"
      and q: "strictestMember dl ts (if fst best \<le> fst cur then cur else best) = Some q"
    by (auto split: bind_splits)
  let ?b = "if fst best \<le> fst cur then cur else best"
  from 9 cur have "pow2_align (fst cur)" by simp
  with 9(5) have "pow2_align (fst ?b)" by simp
  from 9(2) [OF cur [folded \<open>d = dl\<close>] q [folded \<open>d = dl\<close>] \<open>d = dl\<close> this]
  show ?case by (auto split: if_splits)
qed (use int_align_law float_align_law pointer_align_law in \<open>auto simp: pow2_align_def\<close>)

lemma align_pow2: "getTypeABIAlign dl t = Some a \<Longrightarrow> pow2_align a"
  using align_pow2_aux(1) by (auto simp: getTypeABIAlign_def)

lemmas align_pos = align_pow2 [THEN pow2_align_pos]

text \<open>The member loop returns the largest member alignment, or 1.\<close>

lemma strictestMember_ge:
  "strictestMember dl ts best = Some q \<Longrightarrow> t \<in> set ts \<Longrightarrow> getTypeABIAlign dl t = Some a \<Longrightarrow>
     a \<le> fst q"
proof (induction ts arbitrary: best)
  case (Cons u us)
  from Cons.prems obtain cur where cur: "getTypeABIAlignAndType dl u = Some cur"
      and q: "strictestMember dl us (if fst best \<le> fst cur then cur else best) = Some q"
    by (auto split: bind_splits)
  have mono: "strictestMember dl vs b = Some q \<Longrightarrow> fst b \<le> fst q" for vs b
  proof (induction vs arbitrary: b)
    case (Cons v vs)
    from Cons.prems obtain c where
      "strictestMember dl vs (if fst b \<le> fst c then c else b) = Some q"
      by (auto split: bind_splits)
    from Cons.IH [OF this] show ?case by (auto split: if_splits)
  qed simp
  show ?case
  proof (cases "t = u")
    case True
    with Cons.prems(3) cur have "a = fst cur" by (simp add: getTypeABIAlign_def)
    with mono [OF q] show ?thesis by (auto split: if_splits)
  next
    case False
    with Cons.prems(2,3) Cons.IH [OF q] show ?thesis by simp
  qed
qed simp

lemma struct_align_ge_member:
  "getTypeABIAlign dl (LStruct ts) = Some A \<Longrightarrow> t \<in> set ts \<Longrightarrow> getTypeABIAlign dl t = Some a \<Longrightarrow>
     a \<le> A"
  by (auto simp: getTypeABIAlign_def split: bind_splits
      dest!: strictestMember_ge [of ts "(Suc 0, None)" _ t a])

lemma struct_align_dvd_member:
  assumes "getTypeABIAlign dl (LStruct ts) = Some A" "t \<in> set ts" "getTypeABIAlign dl t = Some a"
  shows "a dvd A"
  using assms struct_align_ge_member align_pow2 pow2_align_dvd by blast

lemma structExtent_strictest:
  "structExtent dl ts (sz, st) = Some (sz', st') \<Longrightarrow> pow2_align st \<Longrightarrow>
     pow2_align st' \<and> st \<le> st' \<and>
     (\<forall>t \<in> set ts. \<forall>a. getTypeABIAlign dl t = Some a \<longrightarrow> a \<le> st')"
proof (induction ts arbitrary: sz st)
  case (Cons t ts)
  from Cons.prems(1) obtain a b where ab: "getTypeABIAlign dl t = Some a"
      "structExtent dl ts (alignTo sz a + allocBytes dl (storeBytes dl b) a, max st a)
        = Some (sz', st')"
    by (auto split: bind_splits)
  from Cons.IH [OF ab(2)] Cons.prems(2) align_pow2 [OF ab(1)] ab(1) show ?case
    by (auto simp: pow2_align_max)
qed simp


text \<open>The extent of a member list is where the last member ends.\<close>

lemma fieldOffsets_bounds:
  "fieldOffsets dl ts off = Some os \<Longrightarrow> structExtent dl ts (off, st) = Some (sz, st') \<Longrightarrow>
     length os = length ts \<and> off \<le> sz \<and> (\<forall>o' \<in> set os. off \<le> o') \<and>
     (\<forall>i < length ts. \<exists>a n. getTypeABIAlign dl (ts ! i) = Some a \<and>
        getTypeAllocSize dl (ts ! i) = Some n \<and> a dvd os ! i \<and> os ! i + n \<le> sz \<and>
        (\<forall>j. i < j \<and> j < length ts \<longrightarrow> os ! i + n \<le> os ! j))"
proof (induction ts arbitrary: off os st)
  case (Cons t ts)
  from Cons.prems(1) obtain a n os' where a: "getTypeABIAlign dl t = Some a"
      and n: "getTypeAllocSize dl t = Some n"
      and os': "fieldOffsets dl ts (alignTo off a + n) = Some os'"
      and os: "os = alignTo off a # os'"
    by (auto split: bind_splits)
  from n a obtain b where b: "getTypeSizeInBits dl t = Some b"
      and nb: "n = allocBytes dl (storeBytes dl b) a"
    by (auto simp: getTypeAllocSize_Some_iff)
  from Cons.prems(2) a b nb have "structExtent dl ts (alignTo off a + n, max st a) = Some (sz, st')"
    by simp
  note IH = Cons.IH [OF os' this]
  have le: "off \<le> alignTo off a" using align_pos [OF a] by (rule alignTo_ge)
  have head: "\<forall>j. 0 < j \<and> j < length (t # ts) \<longrightarrow> os ! 0 + n \<le> os ! j"
  proof (intro allI impI)
    fix j assume j: "0 < j \<and> j < length (t # ts)"
    then obtain k where k: "j = Suc k" "k < length os'" using IH by (cases j) auto
    then have "os' ! k \<in> set os'" by simp
    with IH k os show "os ! 0 + n \<le> os ! j" by auto
  qed
  show ?case
  proof (intro conjI allI impI)
    show "length os = length (t # ts)" using IH os by simp
    show "off \<le> sz" using IH le by linarith
    show "\<forall>o' \<in> set os. off \<le> o'" using IH le os by auto
    fix i assume i: "i < length (t # ts)"
    show "\<exists>a n. getTypeABIAlign dl ((t # ts) ! i) = Some a \<and>
        getTypeAllocSize dl ((t # ts) ! i) = Some n \<and> a dvd os ! i \<and> os ! i + n \<le> sz \<and>
        (\<forall>j. i < j \<and> j < length (t # ts) \<longrightarrow> os ! i + n \<le> os ! j)"
    proof (cases i)
      case 0
      with a n os head IH show ?thesis by auto
    next
      case (Suc k)
      with i IH obtain a' n' where "getTypeABIAlign dl (ts ! k) = Some a'"
          "getTypeAllocSize dl (ts ! k) = Some n'" "a' dvd os' ! k" "os' ! k + n' \<le> sz"
          "\<forall>j. k < j \<and> j < length ts \<longrightarrow> os' ! k + n' \<le> os' ! j"
        by auto
      with Suc os show ?thesis by (auto simp: nth_Cons split: nat.splits)
    qed
  qed
qed simp

lemma struct_size_multiple:
  assumes "getTypeSizeInBits dl (LStruct ts) = Some b" "t \<in> set ts" "getTypeABIAlign dl t = Some a"
  shows "a dvd b div 8"
proof -
  from assms(1) obtain sz st where e: "structExtent dl ts (0, 1) = Some (sz, st)"
      and b: "b = alignTo sz st * 8"
    by auto
  from structExtent_strictest [OF e] pow2_align_1 assms(2,3) have "pow2_align st" "a \<le> st" by auto
  then have "a dvd st" using align_pow2 [OF assms(3)] by (simp add: pow2_align_dvd)
  with b show ?thesis by (simp add: dvd_trans [OF _ alignTo_dvd])
qed

lemma struct_members_placed:
  assumes sz: "getTypeSizeInBits dl (LStruct ts) = Some b" and os: "fieldOffsets dl ts 0 = Some os"
    and i: "i < length ts"
  shows "\<exists>a n. getTypeABIAlign dl (ts ! i) = Some a \<and> getTypeAllocSize dl (ts ! i) = Some n \<and>
           a dvd os ! i \<and> os ! i + n \<le> b div 8 \<and>
           (\<forall>j. i < j \<and> j < length ts \<longrightarrow> os ! i + n \<le> os ! j)"
proof -
  from sz obtain e st where e: "structExtent dl ts (0, 1) = Some (e, st)"
      and b: "b = alignTo e st * 8"
    by auto
  have "0 < st" using structExtent_strictest [OF e] pow2_align_1 by (auto dest: pow2_align_pos)
  then have "e \<le> b div 8" using b by (simp add: alignTo_ge)
  with fieldOffsets_bounds [OF os e] i show ?thesis by fastforce
qed

end

section \<open>The layout of the Windows target\<close>

text \<open>
  The data layout string \<^verbatim>\<open>e-m:w-p270:32:32-p271:32:32-p272:64:64-i64:64-i128:128-f80:128-...\<close> that
  \<^verbatim>\<open>Mojo/test/kgen/pop-to-llvm/extern-c-abi-win64.mlir\<close> gives \<^verbatim>\<open>x86_64-pc-windows-msvc\<close>, with
  LLVM's defaults for what it leaves out.
\<close>

definition win64_layout :: target_layout where
  "win64_layout =
     \<lparr>pointerBitWidth = (\<lambda>a. if a = 270 \<or> a = 271 then 32 else 64),
      vectorBitWidth = (\<lambda>n b. n * b),
      integerABIAlign = (\<lambda>w. if w \<le> 8 then 1 else if w \<le> 16 then 2 else if w \<le> 32 then 4
                             else if w \<le> 64 then 8 else 16),
      floatABIAlign = (\<lambda>w. if w \<le> 16 then 2 else if w \<le> 32 then 4 else if w \<le> 64 then 8 else 16),
      pointerABIAlign = 8,
      structABIAlign = 1,
      storeBytes = (\<lambda>b. (b + 7) div 8),
      allocBytes = alignTo\<rparr>"

lemma pow2_literals: "\<exists>k. 2 ^ k = (2::nat)" "\<exists>k. 2 ^ k = (4::nat)"
  "\<exists>k. 2 ^ k = (8::nat)" "\<exists>k. 2 ^ k = (16::nat)"
  by (auto intro: exI [of _ 1] exI [of _ 2] exI [of _ 3] exI [of _ 4])

interpretation win64: data_layout win64_layout
  by unfold_locales (auto simp: win64_layout_def pow2_literals intro: exI [of _ 0])

text \<open>Evaluation of layout queries on the Windows layout.\<close>

lemmas eval_win64 = win64_layout_def getTypeABIAlign_def getTypeAllocSize_def getTypeStoreSize_def
  alignTo_def


section \<open>Properties\<close>

text \<open>
  The size the query computes for a struct is the size of LLVM's placement of its members:
  every member sits at a multiple of its alignment, ends before the next one starts and within the
  struct, and the struct's size is a multiple of the member's alignment.
\<close>

theorem struct_layout_sound:
  assumes "data_layout dl" "getTypeSizeInBits dl (LStruct ts) = Some b"
    and "fieldOffsets dl ts 0 = Some os" "i < length ts"
  shows "\<exists>a n. getTypeABIAlign dl (ts ! i) = Some a \<and> getTypeAllocSize dl (ts ! i) = Some n \<and>
           a dvd os ! i \<and> os ! i + n \<le> b div 8 \<and> a dvd b div 8 \<and>
           (\<forall>j. i < j \<and> j < length ts \<longrightarrow> os ! i + n \<le> os ! j)"
  using data_layout.struct_members_placed [OF assms]
    data_layout.struct_size_multiple [OF assms(1,2) nth_mem [OF assms(4)]] by blast

lemma struct_layout_sound_witness:
  "\<exists>a n. getTypeABIAlign win64_layout (LInt 32) = Some a \<and>
     getTypeAllocSize win64_layout (LInt 32) = Some n \<and> a dvd 4 \<and> 4 + n \<le> 16 \<and> a dvd 16"
proof -
  let ?ts = "[i8, LInt 32, LFloat ''f64'' 64]"
  have b: "getTypeSizeInBits win64_layout (LStruct ?ts) = Some 128"
    by (simp add: win64_layout_def getTypeABIAlign_def alignTo_def)
  have os: "fieldOffsets win64_layout ?ts 0 = Some [0, 4, 8]"
    by (simp add: win64_layout_def getTypeABIAlign_def getTypeAllocSize_def getTypeStoreSize_def
        alignTo_def)
  from struct_layout_sound [OF win64.data_layout_axioms b os, of 1] show ?thesis by auto
qed

text \<open>
  The size of an array counts its elements by their store size.  It is LLVM's size, the element
  count times the allocation size, exactly for the empty array and for elements whose store size is
  a multiple of their alignment; for \<^verbatim>\<open>i24\<close> or \<^verbatim>\<open>f80\<close> elements it is smaller.
\<close>

theorem array_size_store_not_alloc:
  assumes "data_layout dl" "getTypeStoreSize dl t = Some s" "getTypeABIAlign dl t = Some a"
    and "getTypeAllocSize dl t = Some n"
  shows "getTypeSizeInBits dl (LArr k t) = Some (k * n * 8) \<longleftrightarrow> k = 0 \<or> a dvd s"
proof -
  from assms(2) obtain b where b: "getTypeSizeInBits dl t = Some b" "s = storeBytes dl b"
    by (auto simp: getTypeStoreSize_def)
  have n: "n = alignTo s a"
    using assms b by (auto simp: getTypeAllocSize_Some_iff data_layout.alloc_law [OF assms(1)])
  have a: "0 < a" using data_layout.align_pos [OF assms(1,3)] .
  have "s = n \<longleftrightarrow> a dvd s" using n a by (metis alignTo_dvd alignTo_id)
  then show ?thesis using b by auto
qed

lemma array_size_store_not_alloc_witness:
  "getTypeSizeInBits win64_layout (LArr 2 (LInt 24)) \<noteq> Some (2 * 4 * 8)"
proof -
  have s: "getTypeStoreSize win64_layout (LInt 24) = Some 3"
    and a: "getTypeABIAlign win64_layout (LInt 24) = Some 4"
    and n: "getTypeAllocSize win64_layout (LInt 24) = Some 4"
    by (simp_all add: win64_layout_def getTypeABIAlign_def getTypeAllocSize_def
        getTypeStoreSize_def alignTo_def)
  from array_size_store_not_alloc [OF win64.data_layout_axioms s a n, of 2] show ?thesis by auto
qed

end
