(* ===== verification/Type_Conversion.thy ===== *)
theory Type_Conversion
  imports LLVM_Layout
begin

text \<open>
  The type converter \<^verbatim>\<open>POPToLLVMTypeConverter\<close> of
  \<^verbatim>\<open>Mojo/lib/KGENToLLVM/LLVMLoweringUtils.cpp\<close>: the lowering of data types, of unions (payload
  size and representative type) and of structs (padding fields and the cache of field indices).
  The KGEN dialect's own layout interface, the float type of a data type and MLIR's base converter
  are not in the repository; they are the fields of \<open>conv_env\<close>.
\<close>

section \<open>KGEN types\<close>

datatype kg_type =
    KNone
  | KNever
  | KString
  | KFunc bool kg_type
  | KFuncGenerator kg_type
  | KPtr nat
  | KArray "nat option" kg_type
  | KStruct "kg_type list option"
  | KSimd "kgen_dtype option" "nat option"
  | KDType
  | KUnion "kg_type list"
  | KCoroutine
  | KBuiltin string

record conv_env =
  ce_layout :: target_layout
  ce_indexBits :: nat
  ce_baseConvert :: "string \<Rightarrow> ll_type option"
  ce_floatType :: "string \<Rightarrow> (string \<times> nat) option"
  ce_kgAlign :: "kg_type \<Rightarrow> nat option"
  ce_kgAlloc :: "kg_type \<Rightarrow> nat option"
  ce_unionAlign :: "kg_type list \<Rightarrow> nat option"

section \<open>Data types\<close>

definition isFP8 :: "string \<Rightarrow> bool" where
  "isFP8 n \<longleftrightarrow> n \<in> set [''Float8E5M2'', ''Float8E5M2FNUZ'', ''Float8E4M3FN'', ''Float8E3M4'',
                        ''Float8E4M3FNUZ'', ''Float8E8M0FNU'']"

definition isFP6 :: "string \<Rightarrow> bool" where
  "isFP6 n \<longleftrightarrow> n \<in> set [''Float6E2M3FN'', ''Float6E3M2FN'']"

definition isFP4 :: "string \<Rightarrow> bool" where
  "isFP4 n \<longleftrightarrow> n = ''Float4E2M1FN''"

definition isFPTyLoweredAsInt :: "string \<Rightarrow> nat option" where
  "isFPTyLoweredAsInt n =
     (if isFP4 n then Some 4 else if isFP6 n then Some 6 else if isFP8 n then Some 8 else None)"

fun getMLIRTypeForDType :: "conv_env \<Rightarrow> kgen_dtype \<Rightarrow> ll_type option" where
  "getMLIRTypeForDType e DBool = Some (LInt 1)"
| "getMLIRTypeForDType e DAddress = Some (LPtr 0)"
| "getMLIRTypeForDType e DIndex = Some (LInt (ce_indexBits e))"
| "getMLIRTypeForDType e DUIndex = Some (LInt (ce_indexBits e))"
| "getMLIRTypeForDType e (DInt w _) = Some (LInt w)"
| "getMLIRTypeForDType e (DFloat f) =
     (case ce_floatType e f of
        None \<Rightarrow> None
      | Some (n, w) \<Rightarrow>
          (case isFPTyLoweredAsInt n of
             Some iw \<Rightarrow> Some (LInt iw)
           | None \<Rightarrow> Some (LFloat n w)))"
| "getMLIRTypeForDType e DInvalid = None"

definition getLLVMTypeForKGENStringType :: "conv_env \<Rightarrow> ll_type" where
  "getLLVMTypeForKGENStringType e = LStruct [LPtr 0, LInt (ce_indexBits e)]"

section \<open>Unions\<close>

text \<open>A member is the KGEN type with the LLVM type it converts to (\<^verbatim>\<open>struct UnionMember\<close>).\<close>

type_synonym union_member = "kg_type \<times> ll_type"

definition isSafeUnionReprType :: "target_layout \<Rightarrow> ll_type \<Rightarrow> bool option" where
  "isSafeUnionReprType dl t =
     do { b \<leftarrow> getTypeSizeInBits dl t; s \<leftarrow> getTypeStoreSize dl t; Some (b = 8 * s) }"

fun payloadLoop :: "conv_env \<Rightarrow> union_member list \<Rightarrow> nat \<Rightarrow> nat option" where
  "payloadLoop e [] payloadSize = Some payloadSize"
| "payloadLoop e ((k, t) # ms) payloadSize =
     do {
       llvmSize \<leftarrow> getTypeAllocSize (ce_layout e) t;
       let memberSize = (case ce_kgAlloc e k of Some s \<Rightarrow> max llvmSize s | None \<Rightarrow> llvmSize);
       payloadLoop e ms (max payloadSize memberSize)
     }"

definition getUnionPayloadSize :: "conv_env \<Rightarrow> union_member list \<Rightarrow> nat option" where
  "getUnionPayloadSize e ms = payloadLoop e ms 0"

fun reprLoop :: "target_layout \<Rightarrow> union_member list \<Rightarrow> align_and_type \<Rightarrow> align_and_type option" where
  "reprLoop dl [] best = Some best"
| "reprLoop dl ((k, t) # ms) best =
     do {
       cur \<leftarrow> getTypeABIAlignAndType dl t;
       case snd cur of
         None \<Rightarrow> reprLoop dl ms best
       | Some u \<Rightarrow>
           do {
             safe \<leftarrow> isSafeUnionReprType dl u;
             reprLoop dl ms (if safe \<and> fst best \<le> fst cur then cur else best)
           }
     }"

definition getUnionReprType :: "conv_env \<Rightarrow> kg_type list \<Rightarrow> union_member list \<Rightarrow> ll_type option" where
  "getUnionReprType e ts ms =
     do {
       best \<leftarrow> reprLoop (ce_layout e) ms (1, None);
       let reprType = (case snd best of Some t \<Rightarrow> t | None \<Rightarrow> i8);
       reprAlign \<leftarrow> getTypeABIAlign (ce_layout e) reprType;
       case ce_unionAlign e ts of
         None \<Rightarrow> Some reprType
       | Some trueAlign \<Rightarrow>
           if reprAlign < trueAlign
           then do {
             let widened = LInt (8 * trueAlign);
             widenedAlign \<leftarrow> getTypeABIAlign (ce_layout e) widened;
             Some (if trueAlign \<le> widenedAlign then widened else reprType)
           }
           else Some reprType
     }"

text \<open>
  The struct a union becomes.  The length of the trailing array is a difference of two signed sizes
  that MLIR takes as an unsigned 64-bit count.  What the code asserts of the result before it returns it is
  \<open>unionAssertion\<close> below; a union that is not resolved, which the code asserts not to get, has no value in
  this model.
\<close>

definition unionStruct :: "conv_env \<Rightarrow> kg_type list \<Rightarrow> union_member list \<Rightarrow> ll_type option" where
  "unionStruct e ts ms =
     do {
       payloadSize \<leftarrow> getUnionPayloadSize e ms;
       if payloadSize = 0 then Some (LStruct [])
       else do {
         reprType \<leftarrow> getUnionReprType e ts ms;
         reprSize \<leftarrow> getTypeAllocSize (ce_layout e) reprType;
         let tailLen = int payloadSize - int reprSize;
         Some (LStruct (reprType #
           (if tailLen \<noteq> 0 then [LArr (nat (tailLen mod 2 ^ 64)) i8] else [])))
       }
     }"

text \<open>The assertion: the struct is as large as the biggest member.\<close>

definition unionAssertion :: "conv_env \<Rightarrow> union_member list \<Rightarrow> ll_type \<Rightarrow> bool" where
  "unionAssertion e ms ret \<longleftrightarrow>
     (case getUnionPayloadSize e ms of
        None \<Rightarrow> True
      | Some payloadSize \<Rightarrow> payloadSize = 0 \<or> getTypeAllocSize (ce_layout e) ret = Some payloadSize)"

section \<open>The conversion\<close>

text \<open>
  \<open>layoutFields\<close> is the loop over the elements of a struct: the LLVM fields emitted so far, the
  LLVM index of each logical field (the entries of \<^verbatim>\<open>structFieldIndexCache\<close>), and the running
  offset in KGEN's layout.
\<close>

fun convertType :: "conv_env \<Rightarrow> kg_type \<Rightarrow> ll_type option"
  and convertMembers :: "conv_env \<Rightarrow> kg_type list \<Rightarrow> union_member list option"
  and layoutFields :: "conv_env \<Rightarrow> kg_type list \<Rightarrow> ll_type list \<Rightarrow> nat list \<Rightarrow> nat \<Rightarrow>
        (ll_type list \<times> nat list \<times> nat) option" where
  "convertType e KNone = Some (LStruct [])"
| "convertType e KNever = Some (LStruct [])"
| "convertType e KString = Some (getLLVMTypeForKGENStringType e)"
| "convertType e (KFunc capturing vals) =
     (if capturing then Some (LStruct [LPtr 0, LPtr 0]) else convertType e vals)"
| "convertType e (KFuncGenerator body) = convertType e body"
| "convertType e (KPtr addressSpace) = Some (LPtr addressSpace)"
| "convertType e (KArray n elt) =
     (case n of
        None \<Rightarrow> None
      | Some k \<Rightarrow> map_option (LArr k) (convertType e elt))"
| "convertType e (KStruct None) = None"
| "convertType e (KStruct (Some elts)) =
     do {
       (llvmTypes, _, offset) \<leftarrow> layoutFields e elts [] [] 0;
       kgenTotalAlign \<leftarrow> ce_kgAlign e (KStruct (Some elts));
       structAlign \<leftarrow> getTypeABIAlign (ce_layout e) (LStruct llvmTypes);
       let llvmOffset = alignTo offset structAlign;
       let kgenOffset = alignTo offset kgenTotalAlign;
       Some (LStruct (if llvmOffset < kgenOffset
                      then llvmTypes @ [LArr (kgenOffset - offset) i8] else llvmTypes))
     }"
| "convertType e (KSimd dtype n) =
     do {
       d \<leftarrow> dtype;
       k \<leftarrow> n;
       t \<leftarrow> getMLIRTypeForDType e d;
       Some (if k = 1 then t else LVec k t)
     }"
| "convertType e KDType = Some i8"
| "convertType e (KUnion ts) = do { ms \<leftarrow> convertMembers e ts; unionStruct e ts ms }"
| "convertType e KCoroutine = Some (LPtr 0)"
| "convertType e (KBuiltin s) = ce_baseConvert e s"
| "convertMembers e [] = Some []"
| "convertMembers e (k # ks) =
     do { t \<leftarrow> convertType e k; ms \<leftarrow> convertMembers e ks; Some ((k, t) # ms) }"
| "layoutFields e [] llvmTypes idxs offset = Some (llvmTypes, idxs, offset)"
| "layoutFields e (k # ks) llvmTypes idxs offset =
     do {
       llvmType \<leftarrow> convertType e k;
       kgenAlign \<leftarrow> ce_kgAlign e k;
       kgenAllocSize \<leftarrow> ce_kgAlloc e k;
       llvmNaturalAlign \<leftarrow> getTypeABIAlign (ce_layout e) llvmType;
       let llvmOffset = alignTo offset llvmNaturalAlign;
       let kgenOffset = alignTo offset kgenAlign;
       let padded = (if llvmOffset < kgenOffset
                     then llvmTypes @ [LArr (kgenOffset - offset) i8] else llvmTypes);
       layoutFields e ks (padded @ [llvmType]) (idxs @ [length padded]) (kgenOffset + kgenAllocSize)
     }"

text \<open>
  The entries the conversion of a struct leaves in the cache, one for every element in its order, and the
  lookup: \<open>None\<close> where the code reaches \<^verbatim>\<open>llvm_unreachable\<close>.
\<close>

type_synonym field_cache = "kg_type \<times> nat \<rightharpoonup> nat"

definition structFieldIndexCache :: "conv_env \<Rightarrow> kg_type list \<Rightarrow> field_cache" where
  "structFieldIndexCache e elts =
     (case layoutFields e elts [] [] 0 of
        None \<Rightarrow> Map.empty
      | Some (_, idxs, _) \<Rightarrow>
          map_of (map (\<lambda>i. ((KStruct (Some elts), i), idxs ! i)) [0..<length idxs]))"

definition getRemappedFieldIndex :: "field_cache \<Rightarrow> kg_type list \<Rightarrow> nat \<Rightarrow> nat option" where
  "getRemappedFieldIndex cache elts logicalIndex = cache (KStruct (Some elts), logicalIndex)"

lemma remapped_converted:
  "getRemappedFieldIndex (structFieldIndexCache e elts) elts i =
     (case layoutFields e elts [] [] 0 of
        None \<Rightarrow> None
      | Some (_, idxs, _) \<Rightarrow> if i < length idxs then Some (idxs ! i) else None)"
proof -
  have "map_of (map (\<lambda>i. ((KStruct (Some elts), i), idxs ! i)) [0..<n]) (KStruct (Some elts), i) =
      (if i < n then Some (idxs ! i) else None)" for idxs :: "nat list" and n
    by (induction n) (auto simp: less_Suc_eq map_of_append map_add_def split: option.splits)
  then show ?thesis by (simp add: getRemappedFieldIndex_def structFieldIndexCache_def split: option.splits)
qed

text \<open>
  A concrete environment for the Windows target: KGEN aligns a vector to its size and agrees with
  LLVM on bytes, integers and pointers.
\<close>

definition win64_env :: conv_env where
  "win64_env =
     \<lparr>ce_layout = win64_layout, ce_indexBits = 64, ce_baseConvert = (\<lambda>_. None),
      ce_floatType = (\<lambda>f. if f = ''f32'' then Some (f, 32) else if f = ''f64'' then Some (f, 64)
                          else if f = ''f80'' then Some (f, 80) else None),
      ce_kgAlign = (\<lambda>k. case k of
          KDType \<Rightarrow> Some 1
        | KPtr _ \<Rightarrow> Some 8
        | KSimd (Some (DInt w _)) (Some n) \<Rightarrow> Some (n * w div 8)
        | KStruct _ \<Rightarrow> Some 16
        | _ \<Rightarrow> None),
      ce_kgAlloc = (\<lambda>k. case k of
          KDType \<Rightarrow> Some 1
        | KPtr _ \<Rightarrow> Some 8
        | KSimd (Some (DInt w _)) (Some n) \<Rightarrow> Some (n * w div 8)
        | _ \<Rightarrow> None),
      ce_unionAlign = (\<lambda>_. None)\<rparr>"

lemmas eval_layout = win64_env_def eval_win64

end
