(* ===== verification/Struct_Lowering.thy ===== *)
theory Struct_Lowering
  imports Type_Conversion
begin

text \<open>
  The struct case of the type converter is correct: LLVM places every converted field exactly where
  KGEN's layout wants it, as long as the two give an element the same size, and the lowered struct
  occupies as many bytes as KGEN says.
\<close>

section \<open>KGEN's own placement\<close>

text \<open>Where KGEN's layout places the elements of a struct, from its alignments and sizes alone.\<close>

fun kgenOffsets :: "conv_env \<Rightarrow> kg_type list \<Rightarrow> nat \<Rightarrow> nat list option" where
  "kgenOffsets e [] off = Some []"
| "kgenOffsets e (k # ks) off =
     do {
       a \<leftarrow> ce_kgAlign e k;
       n \<leftarrow> ce_kgAlloc e k;
       os \<leftarrow> kgenOffsets e ks (alignTo off a + n);
       Some (alignTo off a # os)
     }"

text \<open>
  The layouts agree on an element when KGEN's alignment is a multiple of LLVM's (an
  \<^verbatim>\<open>@align\<close> decorator only raises it) and the allocation sizes are equal.
\<close>

definition layouts_agree :: "conv_env \<Rightarrow> kg_type \<Rightarrow> bool" where
  "layouts_agree e k \<longleftrightarrow>
     (case (convertType e k, ce_kgAlign e k, ce_kgAlloc e k) of
        (Some t, Some a, Some n) \<Rightarrow>
          (case getTypeABIAlign (ce_layout e) t of
             Some la \<Rightarrow> 0 < a \<and> la dvd a \<and> getTypeAllocSize (ce_layout e) t = Some n
           | None \<Rightarrow> False)
      | _ \<Rightarrow> False)"

lemma layouts_agreeD:
  assumes "layouts_agree e k"
  obtains t a n la where "convertType e k = Some t" "ce_kgAlign e k = Some a"
    "ce_kgAlloc e k = Some n" "getTypeABIAlign (ce_layout e) t = Some la" "0 < a" "la dvd a"
    "getTypeAllocSize (ce_layout e) t = Some n"
  using assms by (auto simp: layouts_agree_def split: option.splits)

section \<open>Member lists, one field at a time\<close>

lemma structExtent_append:
  "structExtent dl (xs @ ys) acc = Option.bind (structExtent dl xs acc) (structExtent dl ys)"
proof (induction xs arbitrary: acc)
  case (Cons t ts)
  then show ?case
    by (cases acc; cases "getTypeABIAlign dl t"; cases "getTypeSizeInBits dl t") auto
qed simp

lemma fieldOffsets_append:
  "fieldOffsets dl xs off = Some os \<Longrightarrow> structExtent dl xs (off, st) = Some (end, st') \<Longrightarrow>
   fieldOffsets dl ys end = Some os' \<Longrightarrow> fieldOffsets dl (xs @ ys) off = Some (os @ os')"
proof (induction xs arbitrary: off os st)
  case (Cons t ts)
  from Cons.prems(1) obtain a n r where a: "getTypeABIAlign dl t = Some a"
      and n: "getTypeAllocSize dl t = Some n"
      and r: "fieldOffsets dl ts (alignTo off a + n) = Some r" "os = alignTo off a # r"
    by (auto split: bind_splits)
  from Cons.prems(2) a n have "structExtent dl ts (alignTo off a + n, max st a) = Some (end, st')"
    by (auto simp: getTypeAllocSize_Some_iff split: bind_splits)
  from Cons.IH [OF r(1) this Cons.prems(3)] a n r(2) show ?case by simp
qed simp

text \<open>Appending one field whose alignment divides its target offset.\<close>

lemma append_field:
  assumes "fieldOffsets dl tys 0 = Some os" "structExtent dl tys (0, 1) = Some (off, st)"
    and "getTypeABIAlign dl t = Some a" "getTypeAllocSize dl t = Some n"
  shows "fieldOffsets dl (tys @ [t]) 0 = Some (os @ [alignTo off a])"
    and "structExtent dl (tys @ [t]) (0, 1) = Some (alignTo off a + n, max st a)"
proof -
  show "fieldOffsets dl (tys @ [t]) 0 = Some (os @ [alignTo off a])"
    using assms by (intro fieldOffsets_append [OF assms(1,2)]) simp
  show "structExtent dl (tys @ [t]) (0, 1) = Some (alignTo off a + n, max st a)"
    using assms by (auto simp: structExtent_append getTypeAllocSize_Some_iff)
qed

locale byte_layout = data_layout +
  assumes byte_align_law: "integerABIAlign dl 8 = 1"
begin

lemma byte_array:
  "getTypeABIAlign dl (LArr p i8) = Some 1" "getTypeAllocSize dl (LArr p i8) = Some p"
  by (simp_all add: getTypeABIAlign_def getTypeAllocSize_def getTypeStoreSize_def store_law
      alloc_law byte_align_law)

lemma padded_field:
  assumes os: "fieldOffsets dl tys 0 = Some os" and ext: "structExtent dl tys (0, 1) = Some (off, st)"
    and t: "getTypeABIAlign dl t = Some la" "getTypeAllocSize dl t = Some n"
    and ka: "0 < ka" "la dvd ka"
    and pad: "pad = (if alignTo off la < alignTo off ka
                     then tys @ [LArr (alignTo off ka - off) i8] else tys)"
  shows "\<exists>os' st'. fieldOffsets dl (pad @ [t]) 0 = Some (os @ os') \<and>
           structExtent dl (pad @ [t]) (0, 1) = Some (alignTo off ka + n, st') \<and>
           length os + length os' = Suc (length pad) \<and> (os @ os') ! length pad = alignTo off ka"
proof -
  have len: "length os = length tys"
    using fieldOffsets_bounds [OF os ext] by simp
  have la: "0 < la" using align_pos [OF t(1)] .
  have ge: "off \<le> alignTo off ka" using ka(1) by (rule alignTo_ge)
  show ?thesis
  proof (cases "alignTo off la < alignTo off ka")
    case True
    let ?p = "LArr (alignTo off ka - off) i8"
    have "fieldOffsets dl (tys @ [?p]) 0 = Some (os @ [off])"
      "structExtent dl (tys @ [?p]) (0, 1) = Some (alignTo off ka, max st 1)"
      using append_field [OF os ext byte_array, of "alignTo off ka - off"] ge by simp_all
    from append_field [OF this t] la ka len True pad show ?thesis
      by (auto simp: dvd_trans [OF ka(2) alignTo_dvd] nth_append)
  next
    case False
    then have "alignTo off la = alignTo off ka"
      using alignTo_coarser [OF ka(1) ka(2), of off] by simp
    with append_field [OF os ext t] False pad len show ?thesis by (auto simp: nth_append)
  qed
qed

lemma layoutFields_invariant:
  assumes "\<forall>k \<in> set elts. layouts_agree e k" "ce_layout e = dl"
    and "layoutFields e elts tys idxs off = Some (tys', idxs', off')"
    and "fieldOffsets dl tys 0 = Some os" "structExtent dl tys (0, 1) = Some (off, st)"
  shows "\<exists>ko os' st' js. kgenOffsets e elts off = Some ko \<and>
           fieldOffsets dl tys' 0 = Some (os @ os') \<and> structExtent dl tys' (0, 1) = Some (off', st') \<and>
           idxs' = idxs @ js \<and> length js = length elts \<and> length ko = length elts \<and>
           (\<exists>tail. tys' = tys @ tail) \<and>
           (\<forall>i < length elts. js ! i < length tys' \<and> (os @ os') ! (js ! i) = ko ! i \<and>
              Some (tys' ! (js ! i)) = convertType e (elts ! i))"
  using assms
proof (induction elts arbitrary: tys idxs off os st)
  case (Cons k ks)
  from Cons.prems(1) have "layouts_agree e k" by simp
  then obtain t ka n la where k: "convertType e k = Some t" "ce_kgAlign e k = Some ka"
      "ce_kgAlloc e k = Some n" "getTypeABIAlign dl t = Some la" "0 < ka" "la dvd ka"
      "getTypeAllocSize dl t = Some n"
    using Cons.prems(2) by (auto elim: layouts_agreeD)
  define pad where "pad = (if alignTo off la < alignTo off ka
                     then tys @ [LArr (alignTo off ka - off) i8] else tys)"
  from Cons.prems(2,3) k have step: "layoutFields e ks (pad @ [t]) (idxs @ [length pad])
      (alignTo off ka + n) = Some (tys', idxs', off')"
    by (simp add: pad_def Let_def)
  from padded_field [OF Cons.prems(4,5) k(4,7,5,6) pad_def] obtain os1 st1 where
      os1: "fieldOffsets dl (pad @ [t]) 0 = Some (os @ os1)"
      and st1: "structExtent dl (pad @ [t]) (0, 1) = Some (alignTo off ka + n, st1)"
      and len1: "length os + length os1 = Suc (length pad)"
      and at1: "(os @ os1) ! length pad = alignTo off ka"
    by blast
  from Cons.IH [OF _ Cons.prems(2) step os1 st1] Cons.prems(1) obtain ko os2 st2 js tail where
      IH: "kgenOffsets e ks (alignTo off ka + n) = Some ko"
      "fieldOffsets dl tys' 0 = Some ((os @ os1) @ os2)"
      "structExtent dl tys' (0, 1) = Some (off', st2)"
      "idxs' = (idxs @ [length pad]) @ js" "length js = length ks" "length ko = length ks"
      "tys' = (pad @ [t]) @ tail"
      "\<forall>i < length ks. js ! i < length tys' \<and> ((os @ os1) @ os2) ! (js ! i) = ko ! i \<and>
         Some (tys' ! (js ! i)) = convertType e (ks ! i)"
    by auto
  have "length pad < length (os @ os1)" using len1 by simp
  then have "((os @ os1) @ os2) ! length pad = alignTo off ka"
    using at1 by (simp only: nth_append if_True)
  moreover have "tys' ! length pad = t" "length pad < length tys'"
    using IH(7) by (simp_all add: nth_append)
  ultimately have all: "\<forall>i < length (k # ks). (length pad # js) ! i < length tys' \<and>
      (os @ os1 @ os2) ! ((length pad # js) ! i) = (alignTo off ka # ko) ! i \<and>
      Some (tys' ! ((length pad # js) ! i)) = convertType e ((k # ks) ! i)"
    using IH(8) k(1) by (auto simp: less_Suc_eq_0_disj)
  have "kgenOffsets e (k # ks) off = Some (alignTo off ka # ko)" using k IH(1) by simp
  moreover have "fieldOffsets dl tys' 0 = Some (os @ os1 @ os2)" using IH(2) by simp
  moreover have "idxs' = idxs @ length pad # js" using IH(4) by simp
  moreover have "\<exists>tail. tys' = tys @ tail" using IH(7) by (simp add: pad_def)
  moreover have "length (length pad # js) = length (k # ks)"
    "length (alignTo off ka # ko) = length (k # ks)"
    using IH(5,6) by simp_all
  ultimately show ?case using IH(3) all by blast
qed simp

end

interpretation win64_bytes: byte_layout win64_layout
  by unfold_locales (simp add: win64_layout_def)

section \<open>LLVM's own placement\<close>

text \<open>
  Where LLVM places the members of a literal struct: each at the next multiple of its ABI alignment after
  the allocation of the one before.  The alignments \<open>al\<close> and allocation sizes \<open>sz\<close> of types are LLVM's own and
  are parameters: the queries of the code under verification may give other answers, and for vectors their
  alignment is meant to be smaller.
\<close>

fun placed :: "(ll_type \<Rightarrow> nat) \<Rightarrow> (ll_type \<Rightarrow> nat) \<Rightarrow> ll_type list \<Rightarrow> nat \<Rightarrow> nat list" where
  "placed al sz [] off = []"
| "placed al sz (t # ts) off = alignTo off (al t) # placed al sz ts (alignTo off (al t) + sz t)"

fun placed_end :: "(ll_type \<Rightarrow> nat) \<Rightarrow> (ll_type \<Rightarrow> nat) \<Rightarrow> ll_type list \<Rightarrow> nat \<Rightarrow> nat" where
  "placed_end al sz [] off = off"
| "placed_end al sz (t # ts) off = placed_end al sz ts (alignTo off (al t) + sz t)"

lemma placed_append: "placed al sz (xs @ ys) off = placed al sz xs off @ placed al sz ys (placed_end al sz xs off)"
  by (induction xs arbitrary: off) simp_all

lemma placed_end_append: "placed_end al sz (xs @ ys) off = placed_end al sz ys (placed_end al sz xs off)"
  by (induction xs arbitrary: off) simp_all

lemma length_placed [simp]: "length (placed al sz xs off) = length xs"
  by (induction xs arbitrary: off) simp_all

text \<open>
  An element both layouts give one size, whose alignment in KGEN, with any decorator, is a multiple of
  LLVM's, and that one a multiple of the alignment the converter reckons with.
\<close>

definition same_size_element :: "(ll_type \<Rightarrow> nat) \<Rightarrow> (ll_type \<Rightarrow> nat) \<Rightarrow> conv_env \<Rightarrow> kg_type \<Rightarrow> bool" where
  "same_size_element al sz e k \<longleftrightarrow>
     (case (convertType e k, ce_kgAlign e k) of
        (Some t, Some a) \<Rightarrow>
          ce_kgAlloc e k = Some (sz t) \<and> 0 < a \<and> al t dvd a \<and>
          (case getTypeABIAlign (ce_layout e) t of Some la \<Rightarrow> la dvd al t | None \<Rightarrow> False)
      | _ \<Rightarrow> False)"

definition byte_arrays :: "(ll_type \<Rightarrow> nat) \<Rightarrow> (ll_type \<Rightarrow> nat) \<Rightarrow> bool" where
  "byte_arrays al sz \<longleftrightarrow> (\<forall>p. al (LArr p i8) = 1 \<and> sz (LArr p i8) = p)"

lemma alignTo_between:
  assumes "0 < a" "m dvd a" "l dvd m" "alignTo off a \<le> alignTo off l"
  shows "alignTo off m = alignTo off a"
proof -
  have "0 < m" using assms(1,2) by (auto intro: dvd_pos_nat)
  then have "alignTo off m \<le> alignTo off a" "alignTo off l \<le> alignTo off m"
    using alignTo_coarser assms(1-3) by blast+
  then show ?thesis using assms(4) by simp
qed

lemma placed_field:
  assumes bytes: "byte_arrays al sz" and cur: "placed_end al sz tys 0 = off"
    and a: "0 < a" "al t dvd a" "la dvd al t"
    and pad: "pad = (if alignTo off la < alignTo off a then tys @ [LArr (alignTo off a - off) i8] else tys)"
  shows "placed al sz (pad @ [t]) 0 ! length pad = alignTo off a"
    and "placed_end al sz (pad @ [t]) 0 = alignTo off a + sz t"
proof -
  have "alignTo (placed_end al sz pad 0) (al t) = alignTo off a"
  proof (cases "alignTo off la < alignTo off a")
    case True
    have "off \<le> alignTo off a" using a(1) by (rule alignTo_ge)
    then have "placed_end al sz pad 0 = alignTo off a"
      using True bytes cur pad by (simp add: placed_end_append byte_arrays_def)
    moreover have "0 < al t" using a(1,2) by (auto intro: dvd_pos_nat)
    ultimately show ?thesis using a(2) by (simp add: dvd_trans [OF a(2) alignTo_dvd])
  next
    case False
    then show ?thesis using alignTo_between [OF a, of off] pad cur by simp
  qed
  then show "placed al sz (pad @ [t]) 0 ! length pad = alignTo off a"
    and "placed_end al sz (pad @ [t]) 0 = alignTo off a + sz t"
    by (simp_all add: placed_append placed_end_append nth_append)
qed

lemma layoutFields_placed:
  assumes "\<forall>k \<in> set elts. same_size_element al sz e k" "byte_arrays al sz"
    and "layoutFields e elts tys idxs off = Some (tys', idxs', off')" "placed_end al sz tys 0 = off"
  shows "\<exists>ko js tail. kgenOffsets e elts off = Some ko \<and> tys' = tys @ tail \<and> placed_end al sz tys' 0 = off' \<and>
           idxs' = idxs @ js \<and> length js = length elts \<and> length ko = length elts \<and>
           (\<forall>i < length elts. js ! i < length tys' \<and> placed al sz tys' 0 ! (js ! i) = ko ! i \<and>
              Some (tys' ! (js ! i)) = convertType e (elts ! i))"
  using assms
proof (induction elts arbitrary: tys idxs off)
  case (Cons k ks)
  from Cons.prems(1) have "same_size_element al sz e k" by simp
  then obtain t a la where k: "convertType e k = Some t" "ce_kgAlign e k = Some a" "ce_kgAlloc e k = Some (sz t)"
      "getTypeABIAlign (ce_layout e) t = Some la" "0 < a" "al t dvd a" "la dvd al t"
    by (auto simp: same_size_element_def split: option.splits)
  define pad where "pad = (if alignTo off la < alignTo off a then tys @ [LArr (alignTo off a - off) i8] else tys)"
  from Cons.prems(3) k have step: "layoutFields e ks (pad @ [t]) (idxs @ [length pad]) (alignTo off a + sz t) =
      Some (tys', idxs', off')"
    by (simp add: pad_def Let_def)
  note field = placed_field [OF Cons.prems(2,4) k(5-7) pad_def]
  from Cons.IH [OF _ Cons.prems(2) step field(2)] Cons.prems(1) obtain ko js tail where
      IH: "kgenOffsets e ks (alignTo off a + sz t) = Some ko" "tys' = (pad @ [t]) @ tail" "placed_end al sz tys' 0 = off'"
      "idxs' = (idxs @ [length pad]) @ js" "length js = length ks" "length ko = length ks"
      "\<forall>i < length ks. js ! i < length tys' \<and> placed al sz tys' 0 ! (js ! i) = ko ! i \<and>
         Some (tys' ! (js ! i)) = convertType e (ks ! i)"
    by auto
  have "placed al sz tys' 0 ! length pad = alignTo off a"
    using field(1) unfolding IH(2) by (simp add: placed_append nth_append)
  moreover have "tys' ! length pad = t" "length pad < length tys'" by (simp_all add: IH(2) nth_append)
  ultimately have all: "\<forall>i < length (k # ks). (length pad # js) ! i < length tys' \<and>
      placed al sz tys' 0 ! ((length pad # js) ! i) = (alignTo off a # ko) ! i \<and>
      Some (tys' ! ((length pad # js) ! i)) = convertType e ((k # ks) ! i)"
    using IH(7) k(1) by (auto simp: less_Suc_eq_0_disj)
  moreover have "kgenOffsets e (k # ks) off = Some (alignTo off a # ko)" using k IH(1) by simp
  moreover have "\<exists>tail. tys' = tys @ tail" using IH(2) by (simp add: pad_def)
  ultimately show ?case using IH(3-6) by (intro exI [of _ "alignTo off a # ko"] exI [of _ "length pad # js"]) auto
qed simp

section \<open>The lowered struct matches KGEN's layout\<close>

text \<open>
  C1. LLVM, with its own alignments and sizes, places the field that the index cache names for a logical
  element at the very offset KGEN's layout gives that element, and that field has the element's
  converted type: for structs whose elements have one size in both layouts, each aligned in KGEN to a
  multiple of LLVM's alignment and that one a multiple of the alignment the converter reckons with, which
  may be smaller.  A vector of booleans is such an element in no layout that spends a byte on each; what
  happens with one is shown after this.
\<close>

theorem struct_field_offsets_agree:
  assumes "byte_arrays al sz" "list_all (same_size_element al sz e) elts"
    and "layoutFields e elts [] [] 0 = Some (llvmTypes, idxs, off)" "i < length elts"
  shows "\<exists>ko j. kgenOffsets e elts 0 = Some ko \<and>
           getRemappedFieldIndex (structFieldIndexCache e elts) elts i = Some j \<and>
           j < length llvmTypes \<and> placed al sz llvmTypes 0 ! j = ko ! i \<and>
           Some (llvmTypes ! j) = convertType e (elts ! i)"
proof -
  have agree: "\<forall>k \<in> set elts. same_size_element al sz e k" using assms(2) by (simp add: list_all_iff)
  from layoutFields_placed [OF agree assms(1,3)] obtain ko js where
    "kgenOffsets e elts 0 = Some ko" "idxs = js" "length js = length elts"
    "\<forall>i < length elts. js ! i < length llvmTypes \<and> placed al sz llvmTypes 0 ! (js ! i) = ko ! i \<and>
       Some (llvmTypes ! (js ! i)) = convertType e (elts ! i)"
    by auto
  with assms(3,4) show ?thesis by (auto simp: remapped_converted)
qed

text \<open>LLVM for x86-64: a vector of four 32-bit integers is aligned to 16 bytes, a pointer to 8, bytes to one.\<close>

definition x86_align :: "ll_type \<Rightarrow> nat" where
  "x86_align t = (case t of LVec _ _ \<Rightarrow> 16 | LPtr _ \<Rightarrow> 8 | _ \<Rightarrow> 1)"

definition x86_alloc :: "ll_type \<Rightarrow> nat" where
  "x86_alloc t = (case t of LVec n (LInt w) \<Rightarrow> n * w div 8 | LPtr _ \<Rightarrow> 8 | LArr n _ \<Rightarrow> n | _ \<Rightarrow> 1)"

lemma struct_field_offsets_agree_witness:
  "\<exists>ko j. kgenOffsets win64_env [KDType, KSimd (Some (DInt 32 True)) (Some 4)] 0 = Some ko \<and>
     getRemappedFieldIndex (structFieldIndexCache win64_env [KDType, KSimd (Some (DInt 32 True)) (Some 4)])
       [KDType, KSimd (Some (DInt 32 True)) (Some 4)] 1 = Some j \<and>
     j < 3 \<and> placed x86_align x86_alloc [i8, LArr 15 i8, LVec 4 (LInt 32)] 0 ! j = ko ! 1"
proof -
  let ?elts = "[KDType, KSimd (Some (DInt 32 True)) (Some 4)]"
  have a: "byte_arrays x86_align x86_alloc" by (simp add: byte_arrays_def x86_align_def x86_alloc_def)
  have b: "list_all (same_size_element x86_align x86_alloc win64_env) ?elts"
    by (simp add: same_size_element_def eval_layout x86_align_def x86_alloc_def)
  have c: "layoutFields win64_env ?elts [] [] 0 =
      Some ([i8, LArr 15 i8, LVec 4 (LInt 32)], [0, 2], 32)"
    by (simp add: eval_layout)
  from struct_field_offsets_agree [OF a b c, of 1] show ?thesis by auto
qed

text \<open>
  A vector of four booleans has four bytes in KGEN and becomes a vector of bits, which LLVM allocates in one
  byte.  The converter goes on from KGEN's size, adds no padding, and LLVM places the byte that follows
  at offset one, where KGEN's layout has it at four.
\<close>

lemma bool_vector_shifts_fields:
  assumes "ce_kgAlign e (KSimd (Some DBool) (Some 4)) = Some a" "0 < a"
    and "ce_kgAlloc e (KSimd (Some DBool) (Some 4)) = Some 4"
    and "ce_kgAlign e KDType = Some 1" "ce_kgAlloc e KDType = Some 1"
    and "integerABIAlign (ce_layout e) 1 = 1" "integerABIAlign (ce_layout e) 8 = 1"
    and "al (LVec 4 (LInt 1)) = 1" "sz (LVec 4 (LInt 1)) = 1" "al i8 = 1"
  shows "\<exists>off. layoutFields e [KSimd (Some DBool) (Some 4), KDType] [] [] 0 = Some ([LVec 4 (LInt 1), i8], [0, 1], off)"
    and "kgenOffsets e [KSimd (Some DBool) (Some 4), KDType] 0 = Some [0, 4]"
    and "placed al sz [LVec 4 (LInt 1), i8] 0 = [0, 1]"
  using assms by (simp_all add: getTypeABIAlign_def alignTo_def)

lemma strictest_dvd_struct_align:
  assumes "data_layout dl" "structExtent dl ts (0, 1) = Some (sz, st)"
    and "getTypeABIAlign dl (LStruct ts) = Some A"
  shows "st dvd A"
proof -
  have "structExtent dl us (o1, s1) = Some (sz, st) \<Longrightarrow> s1 \<le> A \<Longrightarrow>
      (\<forall>t \<in> set us. \<forall>a. getTypeABIAlign dl t = Some a \<longrightarrow> a \<le> A) \<Longrightarrow> st \<le> A" for us o1 s1
  proof (induction us arbitrary: o1 s1)
    case (Cons u us)
    then obtain a b where a: "getTypeABIAlign dl u = Some a" and
      "structExtent dl us (alignTo o1 a + allocBytes dl (storeBytes dl b) a, max s1 a) = Some (sz, st)"
      by (auto split: bind_splits)
    from Cons.IH [OF this(2)] Cons.prems a show ?case by simp
  qed simp
  moreover have A: "pow2_align A" using data_layout.align_pow2 [OF assms(1,3)] .
  moreover have "\<forall>t \<in> set ts. \<forall>a. getTypeABIAlign dl t = Some a \<longrightarrow> a \<le> A"
    using data_layout.struct_align_ge_member [OF assms(1,3)] by blast
  ultimately have "st \<le> A" using assms(2) pow2_align_pos [OF A] by fastforce
  moreover have "pow2_align st"
    using data_layout.structExtent_strictest [OF assms(1,2)] pow2_align_1 by simp
  ultimately show ?thesis using A by (simp add: pow2_align_dvd)
qed

text \<open>A trailing byte array does not change the alignment of a struct.\<close>

lemma strictestMember_append:
  "strictestMember dl (xs @ ys) best = Option.bind (strictestMember dl xs best) (strictestMember dl ys)"
  by (induction xs arbitrary: best) (auto split: bind_splits)

lemma append_byte_align:
  assumes "byte_layout dl" "getTypeABIAlign dl (LStruct ts) = Some A"
  shows "getTypeABIAlign dl (LStruct (ts @ [LArr p i8])) = Some A"
proof -
  have dl: "data_layout dl" using assms(1) by (rule byte_layout.axioms(1))
  from assms(2) obtain a u where au: "strictestMember dl ts (1, None) = Some (a, u)"
      and A: "A = max a (structABIAlign dl)"
    by (auto simp: getTypeABIAlign_def split: bind_splits)
  from data_layout.align_pow2_aux(2) [OF dl au] pow2_align_1 have "1 \<le> a" by auto
  with au A show ?thesis
    by (auto simp: getTypeABIAlign_def strictestMember_append byte_layout.byte_align_law [OF assms(1)])
qed

lemma alloc_of_struct:
  assumes "data_layout dl" "structExtent dl ts (0, 1) = Some (sz, st)"
    and "getTypeABIAlign dl (LStruct ts) = Some A"
  shows "getTypeAllocSize dl (LStruct ts) = Some (alignTo sz A)"
proof -
  have d: "st dvd A" using strictest_dvd_struct_align [OF assms] .
  have A: "0 < A" using data_layout.align_pos [OF assms(1,3)] .
  then have st: "0 < st" using d by (auto intro: dvd_pos_nat)
  have "alignTo (alignTo sz st) A = alignTo sz A"
  proof (rule antisym)
    show "alignTo (alignTo sz st) A \<le> alignTo sz A"
      using A d by (simp add: alignTo_least alignTo_coarser)
    show "alignTo sz A \<le> alignTo (alignTo sz st) A"
      using A st by (intro alignTo_mono) (simp_all add: alignTo_ge)
  qed
  with assms(2,3) show ?thesis
    by (simp add: getTypeAllocSize_def getTypeStoreSize_def data_layout.store_law [OF assms(1)]
        data_layout.alloc_law [OF assms(1)])
qed

text \<open>
  Where the converter's own queries agree with KGEN on the elements, the lowered struct, with the padding field the converter may append, has the allocation size
  of KGEN's layout: the end of the last element rounded up to the struct's KGEN alignment.
\<close>

theorem struct_size_agrees:
  assumes bl: "byte_layout (ce_layout e)" and agree: "list_all (layouts_agree e) elts"
    and lf: "layoutFields e elts [] [] 0 = Some (llvmTypes, idxs, off)"
    and ka: "ce_kgAlign e (KStruct (Some elts)) = Some ka" "0 < ka"
    and sa: "getTypeABIAlign (ce_layout e) (LStruct llvmTypes) = Some A" "A dvd ka"
  shows "\<exists>t. convertType e (KStruct (Some elts)) = Some t \<and>
           getTypeAllocSize (ce_layout e) t = Some (alignTo off ka)"
proof -
  have dl: "data_layout (ce_layout e)" using bl by (rule byte_layout.axioms(1))
  have "\<forall>k \<in> set elts. layouts_agree e k" using agree by (simp add: list_all_iff)
  from byte_layout.layoutFields_invariant [OF bl this refl lf, of "[]" 1] obtain os st where
      os: "fieldOffsets (ce_layout e) llvmTypes 0 = Some os"
      and ext: "structExtent (ce_layout e) llvmTypes (0, 1) = Some (off, st)"
    by auto
  have ge: "off \<le> alignTo off ka" using ka(2) by (rule alignTo_ge)
  show ?thesis
  proof (cases "alignTo off A < alignTo off ka")
    case True
    let ?p = "LArr (alignTo off ka - off) i8"
    note pad = byte_layout.byte_array [OF bl, of "alignTo off ka - off"]
    have ext': "structExtent (ce_layout e) (llvmTypes @ [?p]) (0, 1) = Some (alignTo off ka, max st 1)"
      using append_field(2) [OF os ext pad] ge by simp
    have sa': "getTypeABIAlign (ce_layout e) (LStruct (llvmTypes @ [?p])) = Some A"
      using append_byte_align [OF bl sa(1)] by simp
    from alloc_of_struct [OF dl ext' sa'] have
      "getTypeAllocSize (ce_layout e) (LStruct (llvmTypes @ [?p])) = Some (alignTo off ka)"
      using data_layout.align_pos [OF dl sa(1)] sa(2) by (simp add: dvd_trans [OF sa(2) alignTo_dvd])
    with True lf ka(1) sa(1) show ?thesis by (simp add: Let_def)
  next
    case False
    then have "alignTo off A = alignTo off ka"
      using alignTo_coarser [OF ka(2) sa(2), of off] by simp
    with False lf ka(1) sa(1) alloc_of_struct [OF dl ext sa(1)] show ?thesis by (simp add: Let_def)
  qed
qed

lemma struct_size_agrees_witness:
  "\<exists>t. convertType win64_env (KStruct (Some [KDType, KSimd (Some (DInt 32 True)) (Some 4), KDType]))
         = Some t \<and> getTypeAllocSize win64_layout t = Some 48"
proof -
  let ?elts = "[KDType, KSimd (Some (DInt 32 True)) (Some 4), KDType]"
  have env: "ce_layout win64_env = win64_layout" by (simp add: win64_env_def)
  have a: "byte_layout (ce_layout win64_env)"
    using win64_bytes.byte_layout_axioms by (simp add: win64_env_def)
  have b: "list_all (layouts_agree win64_env) ?elts"
    by (simp add: layouts_agree_def eval_layout)
  have c: "layoutFields win64_env ?elts [] [] 0 =
      Some ([i8, LArr 15 i8, LVec 4 (LInt 32), i8], [0, 2, 3], 33)"
    by (simp add: eval_layout)
  have d: "ce_kgAlign win64_env (KStruct (Some ?elts)) = Some 16" by (simp add: win64_env_def)
  have f: "getTypeABIAlign (ce_layout win64_env) (LStruct [i8, LArr 15 i8, LVec 4 (LInt 32), i8])
      = Some 4"
    by (simp add: eval_layout)
  have g: "0 < (16::nat)" "4 dvd (16::nat)" "alignTo 33 16 = 48" by (simp_all add: alignTo_def)
  show ?thesis using struct_size_agrees [OF a b c d g(1) f g(2)] unfolding env g(3) .
qed

end
