(* ===== verification/Union_Lowering.thy ===== *)
theory Union_Lowering
  imports Struct_Lowering
begin

text \<open>
  The union case of the type converter: the payload spans the widest member, the lowered struct is
  exactly the payload rounded up to its alignment, and every member fits in it.  Two corner cases in
  which the code does not do what its comments say are stated at the end.
\<close>

section \<open>The payload\<close>

definition memberSize :: "conv_env \<Rightarrow> union_member \<Rightarrow> nat option" where
  "memberSize e m =
     do {
       n \<leftarrow> getTypeAllocSize (ce_layout e) (snd m);
       Some (case ce_kgAlloc e (fst m) of Some s \<Rightarrow> max n s | None \<Rightarrow> n)
     }"

lemma payloadLoop_memberSize:
  "payloadLoop e (m # ms) p = do { n \<leftarrow> memberSize e m; payloadLoop e ms (max p n) }"
  by (cases m) (simp add: memberSize_def)

lemma payloadLoop_upper:
  "payloadLoop e ms p0 = Some p \<Longrightarrow>
     p0 \<le> p \<and> (\<forall>m \<in> set ms. \<exists>n. memberSize e m = Some n \<and> n \<le> p)"
proof (induction ms arbitrary: p0)
  case (Cons m ms)
  from Cons.prems obtain n where n: "memberSize e m = Some n"
      and "payloadLoop e ms (max p0 n) = Some p"
    by (auto simp: payloadLoop_memberSize simp del: payloadLoop.simps split: bind_splits)
  from Cons.IH [OF this(2)] n show ?case by auto
qed simp

lemma payloadLoop_attained:
  "payloadLoop e ms p0 = Some p \<Longrightarrow> p = p0 \<or> (\<exists>m \<in> set ms. memberSize e m = Some p)"
proof (induction ms arbitrary: p0)
  case (Cons m ms)
  from Cons.prems obtain n where n: "memberSize e m = Some n"
      and "payloadLoop e ms (max p0 n) = Some p"
    by (auto simp: payloadLoop_memberSize simp del: payloadLoop.simps split: bind_splits)
  from Cons.IH [OF this(2)] n show ?case by (auto simp: max_def split: if_splits)
qed simp

lemma payload_member:
  assumes "getUnionPayloadSize e ms = Some p" "(k, u) \<in> set ms"
  shows "\<exists>n. getTypeAllocSize (ce_layout e) u = Some n \<and> n \<le> p"
    and "ce_kgAlloc e k = Some s \<Longrightarrow> s \<le> p"
  using payloadLoop_upper [of e ms 0 p] assms
  by (fastforce simp: getUnionPayloadSize_def memberSize_def split: bind_splits option.splits)+

section \<open>The representative type\<close>

text \<open>Types without empty arrays or vectors: their representative leaf is really stored.\<close>

fun inhabited :: "ll_type \<Rightarrow> bool" where
  "inhabited (LVec n t) \<longleftrightarrow> 0 < n \<and> inhabited t"
| "inhabited (LArr n t) \<longleftrightarrow> 0 < n \<and> inhabited t"
| "inhabited (LStruct ts) \<longleftrightarrow> list_all inhabited ts"
| "inhabited _ = True"

context data_layout
begin

lemma store_mono: "b \<le> c \<Longrightarrow> storeBytes dl b \<le> storeBytes dl c"
  by (simp add: store_law div_le_mono)

lemma store_bytes [simp]: "storeBytes dl (8 * n) = n" "storeBytes dl (n * 8) = n"
  by (simp_all add: store_law)

lemma alloc_in_struct:
  assumes "structExtent dl ts (0, 1) = Some (sz, st)" "getTypeABIAlign dl (LStruct ts) = Some A"
    and "t \<in> set ts" "getTypeAllocSize dl t = Some n"
  shows "n \<le> alignTo sz A"
proof -
  have "structExtent dl us (o1, s1) = Some (sz, st) \<Longrightarrow> t \<in> set us \<Longrightarrow> n \<le> sz" for us o1 s1
  proof (induction us arbitrary: o1 s1)
    case (Cons u us)
    then obtain a b where ab: "getTypeABIAlign dl u = Some a" "getTypeSizeInBits dl u = Some b"
      "structExtent dl us (alignTo o1 a + allocBytes dl (storeBytes dl b) a, max s1 a) = Some (sz, st)"
      by (auto split: bind_splits)
    have grows: "structExtent dl vs (o2, s2) = Some (sz, st) \<Longrightarrow> o2 \<le> sz" for vs o2 s2
    proof (induction vs arbitrary: o2 s2)
      case (Cons v vs)
      then obtain a' b' where "getTypeABIAlign dl v = Some a'"
        "structExtent dl vs (alignTo o2 a' + allocBytes dl (storeBytes dl b') a', max s2 a')
           = Some (sz, st)"
        by (auto split: bind_splits)
      with Cons.IH [OF this(2)] alignTo_ge [OF align_pos [OF this(1)], of o2] show ?case by linarith
    qed simp
    show ?case
    proof (cases "t = u")
      case True
      with ab assms(4) have "n = allocBytes dl (storeBytes dl b) a"
        by (auto simp: getTypeAllocSize_Some_iff)
      with grows [OF ab(3)] show ?thesis by linarith
    next
      case False
      with Cons ab show ?thesis by auto
    qed
  qed simp
  with assms(1,3) have "n \<le> sz" by blast
  with alignTo_ge [OF align_pos [OF assms(2)], of sz] show ?thesis by linarith
qed

lemma strictestMember_source:
  "strictestMember dl ts best = Some q \<Longrightarrow>
     q = best \<or> (\<exists>t \<in> set ts. getTypeABIAlignAndType dl t = Some q)"
proof (induction ts arbitrary: best)
  case (Cons t ts)
  from Cons.prems obtain cur where "getTypeABIAlignAndType dl t = Some cur"
      "strictestMember dl ts (if fst best \<le> fst cur then cur else best) = Some q"
    by (auto split: bind_splits)
  with Cons.IH [OF this(2)] show ?case by (auto split: if_splits)
qed simp

text \<open>The representative leaf of an inhabited type is no larger than the type.\<close>

lemma leaf_fits:
  "getTypeABIAlignAndType dl t = Some (a, Some u) \<Longrightarrow> sized t \<Longrightarrow> inhabited t \<Longrightarrow>
     \<exists>n m. getTypeAllocSize dl u = Some n \<and> getTypeAllocSize dl t = Some m \<and> n \<le> m"
proof (induction t arbitrary: a u)
  case (LVec n t)
  then obtain x y where xy: "getTypeAllocSize dl u = Some x" "getTypeAllocSize dl t = Some y" "x \<le> y"
    by auto
  from xy(2) obtain b c where b: "getTypeSizeInBits dl t = Some b" "getTypeABIAlign dl t = Some c"
      "y = alignTo (storeBytes dl b) c"
    by (auto simp: getTypeAllocSize_Some_iff alloc_law)
  have "storeBytes dl b \<le> storeBytes dl (vectorBitWidth dl n b)"
    using LVec.prems(3) vector_law [of n b] by (simp add: store_mono)
  then have "y \<le> alignTo (storeBytes dl (vectorBitWidth dl n b)) c"
    using b(3) align_pos [OF b(2)] by (simp add: alignTo_mono)
  moreover have "getTypeABIAlign dl (LVec n t) = Some c" using b(2) by (simp add: getTypeABIAlign_def)
  ultimately show ?case using xy(1,3) b(1)
    by (auto simp: getTypeAllocSize_def getTypeStoreSize_def alloc_law intro: le_trans)
next
  case (LArr n t)
  then obtain x y where xy: "getTypeAllocSize dl u = Some x" "getTypeAllocSize dl t = Some y" "x \<le> y"
    by auto
  from xy(2) obtain b c where b: "getTypeSizeInBits dl t = Some b" "getTypeABIAlign dl t = Some c"
      "y = alignTo (storeBytes dl b) c"
    by (auto simp: getTypeAllocSize_Some_iff alloc_law)
  have "storeBytes dl b \<le> n * storeBytes dl b" using LArr.prems(3) by simp
  then have "y \<le> alignTo (n * storeBytes dl b) c"
    using b(3) align_pos [OF b(2)] by (simp add: alignTo_mono)
  moreover have "getTypeABIAlign dl (LArr n t) = Some c" using b(2) by (simp add: getTypeABIAlign_def)
  ultimately show ?case using xy(1,3) b(1)
    by (auto simp: getTypeAllocSize_def getTypeStoreSize_def alloc_law intro: le_trans)
next
  case (LStruct ts)
  from LStruct.prems(1) obtain a' where q: "strictestMember dl ts (1, None) = Some (a', Some u)"
    by (auto split: bind_splits)
  then obtain t where t: "t \<in> set ts" "getTypeABIAlignAndType dl t = Some (a', Some u)"
    using strictestMember_source by blast
  with LStruct obtain x y where xy: "getTypeAllocSize dl u = Some x" "getTypeAllocSize dl t = Some y"
      "x \<le> y"
    by (metis inhabited.simps(3) list.pred_set sized.simps(3))
  obtain sz st where ext: "structExtent dl ts (0, 1) = Some (sz, st)"
    using sized_size_total(2) [of ts dl "(0, 1)"] LStruct.prems(2) by auto
  obtain A where A: "getTypeABIAlign dl (LStruct ts) = Some A"
    using sized_align LStruct.prems(2) by blast
  have "getTypeAllocSize dl (LStruct ts) = Some (alignTo sz A)"
    using alloc_of_struct [OF _ ext A] data_layout_axioms by blast
  with alloc_in_struct [OF ext A t(1) xy(2)] xy show ?case by auto
qed (auto simp: getTypeAllocSize_def getTypeStoreSize_def getTypeABIAlign_def)

end

text \<open>The candidate loop returns its start value or the representative of a member.\<close>

lemma reprLoop_source:
  "reprLoop dl ms best = Some q \<Longrightarrow>
     q = best \<or> (\<exists>k t. (k, t) \<in> set ms \<and> getTypeABIAlignAndType dl t = Some q)"
proof (induction ms arbitrary: best)
  case (Cons m ms)
  obtain k t where m: "m = (k, t)" by (cases m)
  with Cons.prems obtain cur where cur: "getTypeABIAlignAndType dl t = Some cur"
    by (auto split: bind_splits)
  show ?case
  proof (cases "snd cur")
    case None
    with Cons.prems m cur have "reprLoop dl ms best = Some q" by simp
    from Cons.IH [OF this] show ?thesis by auto
  next
    case (Some u)
    with Cons.prems m cur obtain b where b: "reprLoop dl ms (if b then cur else best) = Some q"
      by (fastforce split: bind_splits)
    from Cons.IH [OF b] m cur show ?thesis by (auto split: if_splits)
  qed
qed simp

section \<open>The lowered union\<close>

text \<open>
  What keeps the representative within the payload: no member hides its leaf in an empty array or
  vector, and an integer synthesized for the union's own alignment is no wider than the payload.
\<close>

definition repr_covered :: "conv_env \<Rightarrow> kg_type list \<Rightarrow> union_member list \<Rightarrow> nat \<Rightarrow> bool" where
  "repr_covered e ts ms payload \<longleftrightarrow>
     list_all (\<lambda>(k, t). sized t \<and> inhabited t) ms \<and>
     (case ce_unionAlign e ts of
        None \<Rightarrow> True
      | Some a \<Rightarrow> alignTo a (integerABIAlign (ce_layout e) (8 * a)) \<le> payload)"

lemma repr_within_payload:
  assumes bl: "byte_layout (ce_layout e)" and rc: "repr_covered e ts ms p"
    and p: "getUnionPayloadSize e ms = Some p" "p \<noteq> 0"
    and r: "getUnionReprType e ts ms = Some r"
  shows "\<exists>n. getTypeAllocSize (ce_layout e) r = Some n \<and> n \<le> p"
proof -
  let ?dl = "ce_layout e"
  have dl: "data_layout ?dl" using bl by (rule byte_layout.axioms(1))
  from r obtain best where best: "reprLoop ?dl ms (1, None) = Some best"
    by (auto simp: getUnionReprType_def split: bind_splits)
  define cand where "cand = (case snd best of Some t \<Rightarrow> t | None \<Rightarrow> i8)"
  have cand: "\<exists>n. getTypeAllocSize ?dl cand = Some n \<and> n \<le> p"
  proof (cases "snd best")
    case None
    then show ?thesis using p(2) byte_layout.byte_array(2) [OF bl, of 1]
      by (simp add: cand_def getTypeAllocSize_def getTypeStoreSize_def getTypeABIAlign_def
          data_layout.store_law [OF dl] data_layout.alloc_law [OF dl]
          byte_layout.byte_align_law [OF bl])
  next
    case (Some u)
    with reprLoop_source [OF best] obtain k t where kt: "(k, t) \<in> set ms"
        "getTypeABIAlignAndType ?dl t = Some (fst best, Some u)"
      by (cases best) auto
    with rc have "sized t" "inhabited t" by (auto simp: repr_covered_def list_all_iff)
    from data_layout.leaf_fits [OF dl kt(2) this] payload_member(1) [OF p(1) kt(1)] Some
    show ?thesis by (auto simp: cand_def intro: le_trans)
  qed
  have "r = cand \<or> (\<exists>a. ce_unionAlign e ts = Some a \<and> r = LInt (8 * a))"
    using r best by (auto simp: getUnionReprType_def cand_def Let_def split: bind_splits
        option.splits if_splits)
  then show ?thesis
  proof
    assume "\<exists>a. ce_unionAlign e ts = Some a \<and> r = LInt (8 * a)"
    then obtain a where a: "ce_unionAlign e ts = Some a" "r = LInt (8 * a)" by blast
    with rc show ?thesis
      by (simp add: repr_covered_def getTypeAllocSize_def getTypeStoreSize_def getTypeABIAlign_def
          data_layout.store_law [OF dl] data_layout.alloc_law [OF dl])
  qed (simp add: cand)
qed

text \<open>
  C22. A lowered union occupies its payload rounded up to its alignment, and the allocation of every member, as
  LLVM and as KGEN count it, fits in it; so the assertion of the code, that it is as large as the biggest
  member, holds exactly when the payload is a multiple of the alignment, and fails for a union such as that of a
  32-bit integer and five bytes.  The members have sizes and no empty arrays or vectors, and an integer
  synthesized for the alignment of the union is no larger than the payload.
\<close>

theorem union_struct_exact:
  assumes bl: "byte_layout (ce_layout e)" and rc: "repr_covered e ts ms p"
    and p: "getUnionPayloadSize e ms = Some p" "0 < p" "p < 2 ^ 63"
    and u: "unionStruct e ts ms = Some u" and m: "(k, t) \<in> set ms"
  shows "\<exists>A n. getTypeABIAlign (ce_layout e) u = Some A \<and>
           getTypeAllocSize (ce_layout e) u = Some (alignTo p A) \<and>
           getTypeAllocSize (ce_layout e) t = Some n \<and> n \<le> alignTo p A \<and>
           (\<forall>s. ce_kgAlloc e k = Some s \<longrightarrow> s \<le> alignTo p A) \<and>
           (unionAssertion e ms u \<longleftrightarrow> A dvd p)"
proof -
  let ?dl = "ce_layout e"
  have dl: "data_layout ?dl" using bl by (rule byte_layout.axioms(1))
  from u p obtain r n where r: "getUnionReprType e ts ms = Some r"
      and n: "getTypeAllocSize ?dl r = Some n"
      and u': "u = LStruct (r # (if int p - int n \<noteq> 0
                 then [LArr (nat ((int p - int n) mod 2 ^ 64)) i8] else []))"
    by (auto simp: unionStruct_def Let_def split: bind_splits if_splits)
  have np: "n \<le> p" using repr_within_payload [OF bl rc p(1) _ r] p(2) n by auto
  have tail: "nat ((int p - int n) mod 2 ^ 64) = p - n" using np p(3) by (simp add: nat_diff_distrib)
  note u' = u' [unfolded tail]
  obtain a where a: "getTypeABIAlign ?dl r = Some a"
    using n by (auto simp: getTypeAllocSize_Some_iff)
  have "fieldOffsets ?dl [r] 0 = Some [0]" "structExtent ?dl [r] (0, 1) = Some (n, max 1 a)"
    using append_field [of ?dl "[]" "[]" 0 1 r a n] a n data_layout.align_pos [OF dl a] by simp_all
  with append_field(2) [OF this byte_layout.byte_array [OF bl, of "p - n"]]
  obtain st where ext: "structExtent ?dl (r # (if int p - int n \<noteq> 0 then [LArr (p - n) i8] else []))
      (0, 1) = Some (p, st)"
    using np by (cases "p = n") auto
  have "\<exists>A. getTypeABIAlign ?dl (LStruct [r]) = Some A"
    using a by (auto simp: getTypeABIAlign_def)
  then obtain A where "getTypeABIAlign ?dl (LStruct [r]) = Some A" by blast
  with append_byte_align [OF bl this, of "p - n"] u'
  have A: "getTypeABIAlign ?dl u = Some A" by auto
  then have "getTypeAllocSize ?dl u = Some (alignTo p A)"
    using alloc_of_struct [OF dl ext] unfolding u' by blast
  moreover have "p \<le> alignTo p A" using alignTo_ge [OF data_layout.align_pos [OF dl A]] .
  moreover have "alignTo p A = p \<longleftrightarrow> A dvd p"
    using alignTo_dvd [of A p] alignTo_id [OF data_layout.align_pos [OF dl A]] by metis
  ultimately show ?thesis using A payload_member [OF p(1) m] p(1,2) by (auto simp: unionAssertion_def intro: le_trans)
qed

lemma union_struct_exact_witness:
  "\<exists>A n. getTypeABIAlign win64_layout (LStruct [LInt 32, LArr 1 i8]) = Some A \<and>
     getTypeAllocSize win64_layout (LStruct [LInt 32, LArr 1 i8]) = Some (alignTo 5 A) \<and>
     getTypeAllocSize win64_layout (LInt 32) = Some n \<and> n \<le> alignTo 5 A"
proof -
  let ?i32 = "KSimd (Some (DInt 32 True)) (Some 1)"
  let ?ts = "[?i32, KArray (Some 5) KDType]"
  let ?ms = "[(?i32, LInt 32), (KArray (Some 5) KDType, LArr 5 i8)]"
  have env: "ce_layout win64_env = win64_layout" by (simp add: win64_env_def)
  have a: "byte_layout (ce_layout win64_env)"
    using win64_bytes.byte_layout_axioms by (simp add: win64_env_def)
  have b: "repr_covered win64_env ?ts ?ms 5" by (simp add: repr_covered_def win64_env_def)
  have c: "getUnionPayloadSize win64_env ?ms = Some 5"
    by (simp add: getUnionPayloadSize_def eval_layout)
  have d: "unionStruct win64_env ?ts ?ms = Some (LStruct [LInt 32, LArr 1 i8])"
    unfolding unionStruct_def c
    by (simp add: getUnionReprType_def isSafeUnionReprType_def eval_layout)
  show ?thesis using union_struct_exact [OF a b c _ _ d, of ?i32 "LInt 32"] unfolding env by auto
qed

section \<open>Corner cases\<close>

text \<open>
  A zero length array lends a union its alignment but not its size: the representative is then
  wider than the payload, the tail length is negative, and the array that should cover the rest of
  the payload gets almost \<open>2^64\<close> elements.
\<close>

theorem union_tail_underflow:
  "convertType win64_env
     (KUnion [KArray (Some 0) (KSimd (Some (DInt 64 True)) (Some 1)), KDType])
   = Some (LStruct [LInt 64, LArr (2 ^ 64 - 7) i8])"
proof -
  let ?a = "KArray (Some 0) (KSimd (Some (DInt 64 True)) (Some 1))"
  have ms: "convertMembers win64_env [?a, KDType] = Some [(?a, LArr 0 (LInt 64)), (KDType, i8)]"
    by simp
  have c: "getUnionPayloadSize win64_env [(?a, LArr 0 (LInt 64)), (KDType, i8)] = Some 1"
    by (simp add: getUnionPayloadSize_def eval_layout)
  have "unionStruct win64_env [?a, KDType] [(?a, LArr 0 (LInt 64)), (KDType, i8)] =
      Some (LStruct [LInt 64, LArr (2 ^ 64 - 7) i8])"
    unfolding unionStruct_def c
    by (simp add: getUnionReprType_def isSafeUnionReprType_def eval_layout)
  then show ?thesis by (simp only: convertType.simps ms Option.bind.simps)
qed

text \<open>
  The assertion that a lowered union has the size of its payload does not hold in general: a
  32-bit integer and five bytes have a payload of five bytes and a lowered struct of eight.
\<close>

theorem union_assert_fails:
  "\<exists>ts ms u. convertMembers win64_env ts = Some ms \<and> unionStruct win64_env ts ms = Some u \<and>
     list_all (\<lambda>(k, t). inhabited t) ms \<and>
     getUnionPayloadSize win64_env ms = Some 5 \<and> getTypeAllocSize win64_layout u = Some 8"
proof -
  let ?i32 = "KSimd (Some (DInt 32 True)) (Some 1)"
  let ?ts = "[?i32, KArray (Some 5) KDType]"
  let ?ms = "[(?i32, LInt 32), (KArray (Some 5) KDType, LArr 5 i8)]"
  have a: "convertMembers win64_env ?ts = Some ?ms" by simp
  have c: "getUnionPayloadSize win64_env ?ms = Some 5"
    by (simp add: getUnionPayloadSize_def eval_layout)
  have d: "unionStruct win64_env ?ts ?ms = Some (LStruct [LInt 32, LArr 1 i8])"
    unfolding unionStruct_def c
    by (simp add: getUnionReprType_def isSafeUnionReprType_def eval_layout)
  have f: "getTypeAllocSize win64_layout (LStruct [LInt 32, LArr 1 i8]) = Some 8"
    by (simp add: eval_layout)
  have g: "list_all (\<lambda>(k, t). inhabited t) ?ms" by simp
  from a c d f g show ?thesis by blast
qed

end
