(* ===== verification/Variant_Packing.thy ===== *)
theory Variant_Packing
  imports LLVM_Layout
begin

text \<open>
  The constant lowering of union values, \<^verbatim>\<open>VariantHelper\<close> of
  \<^verbatim>\<open>Mojo/lib/KGENToLLVM/LLVMLoweringUtils.cpp\<close> (lines 507 to 699).  A value is flattened to its
  leaves, and the bits of the leaves are written into a row of integer storage cells by shifts and
  ors.  The builder calls are evaluated: a cell is its width with its bits.
\<close>

unbundle bit_operations_syntax

section \<open>Values and storage\<close>

text \<open>A leaf is an integer, a float or a pointer with its bits; aggregates know their type.\<close>

datatype ll_val =
    VLeaf ll_type nat
  | VArr ll_type "ll_val list"
  | VStruct "ll_val list"
  | VVec ll_type "ll_val list"

fun val_type :: "ll_val \<Rightarrow> ll_type" where
  "val_type (VLeaf t _) = t"
| "val_type (VArr t vs) = LArr (length vs) t"
| "val_type (VStruct vs) = LStruct (map val_type vs)"
| "val_type (VVec t vs) = LVec (length vs) t"

type_synonym cell = "nat \<times> nat"

text \<open>The iterator is an index; dereferencing it past the end is undefined, so \<open>None\<close>.\<close>

record storage =
  cells :: "cell list"
  valueIt :: nat
  storageOffset :: nat
  offset :: nat

definition advanceStoragePtr :: "storage \<Rightarrow> nat \<Rightarrow> (nat \<times> storage) option" where
  "advanceStoragePtr st amt =
     (if valueIt st < length (cells st) then
        let curStorageSize = fst (cells st ! valueIt st);
            advanceBy = min amt (curStorageSize - storageOffset st);
            so = storageOffset st + advanceBy
        in Some (advanceBy,
             if so = curStorageSize then st\<lparr>valueIt := valueIt st + 1, storageOffset := 0\<rparr>
             else st\<lparr>storageOffset := so\<rparr>)
      else None)"

text \<open>A loop that makes no progress would not end; \<open>None\<close> stands for that as well.\<close>

function padLoop :: "storage \<Rightarrow> nat \<Rightarrow> storage option" where
  "padLoop st remaining =
     (if remaining = 0 then Some st
      else case advanceStoragePtr st remaining of
             None \<Rightarrow> None
           | Some (n, st') \<Rightarrow>
               if n = 0 \<and> valueIt st' = valueIt st then None else padLoop st' (remaining - n))"
  by pat_completeness auto
termination
  by (relation "measures [\<lambda>(st, r). r, \<lambda>(st, r). length (cells st) - valueIt st]")
    (auto simp: advanceStoragePtr_def Let_def min_def split: if_splits)

declare padLoop.simps [simp del]

definition addStoragePadding :: "storage \<Rightarrow> nat \<Rightarrow> storage option" where
  "addStoragePadding st alignment =
     (let padding = alignTo (offset st) (alignment * 8) - offset st
      in do { st' \<leftarrow> padLoop st padding; Some (st'\<lparr>offset := offset st + padding\<rparr>) })"

text \<open>
  The loop that stores one leaf: shift out the bits already stored, fit the rest to the cell, shift
  to the place in the cell, or it in, and advance.
\<close>

definition storeInCell :: "storage \<Rightarrow> nat \<Rightarrow> nat \<Rightarrow> storage" where
  "storeInCell st v curValueOffset =
     (let (w, x) = cells st ! valueIt st;
          valueToStore = take_bit w (push_bit (storageOffset st) (take_bit w (drop_bit curValueOffset v)))
      in st\<lparr>cells := (cells st)[valueIt st := (w, x OR valueToStore)]\<rparr>)"

function storeLoop :: "storage \<Rightarrow> nat \<Rightarrow> nat \<Rightarrow> nat \<Rightarrow> storage option" where
  "storeLoop st v curValueSize curValueOffset =
     (if curValueSize \<le> curValueOffset then Some st
      else if length (cells st) \<le> valueIt st then None
      else case advanceStoragePtr (storeInCell st v curValueOffset) (curValueSize - curValueOffset) of
             None \<Rightarrow> None
           | Some (n, st') \<Rightarrow>
               if n = 0 \<and> valueIt st' = valueIt st then None
               else storeLoop st' v curValueSize (curValueOffset + n))"
  by pat_completeness auto
termination
  by (relation "measures [\<lambda>(st, v, s, c). s - c, \<lambda>(st, v, s, c). length (cells st) - valueIt st]")
    (auto simp: advanceStoragePtr_def storeInCell_def Let_def min_def split: if_splits prod.splits)

declare storeLoop.simps [simp del]

definition isLeafType :: "ll_type \<Rightarrow> bool" where
  "isLeafType t \<longleftrightarrow> (case t of LInt _ \<Rightarrow> True | LFloat _ _ \<Rightarrow> True | LPtr _ \<Rightarrow> True | _ \<Rightarrow> False)"

fun walkAndCreateVariant :: "target_layout \<Rightarrow> storage \<Rightarrow> ll_val \<Rightarrow> storage option"
  and walkElements :: "target_layout \<Rightarrow> storage \<Rightarrow> ll_val list \<Rightarrow> storage option" where
  "walkAndCreateVariant dl st (VLeaf t v) =
     do {
       a \<leftarrow> getTypeABIAlign dl t;
       st1 \<leftarrow> addStoragePadding st a;
       curValueSize \<leftarrow> (if isLeafType t then getTypeSizeInBits dl t else None);
       storeLoop (st1\<lparr>offset := offset st1 + curValueSize\<rparr>) v curValueSize 0
     }"
| "walkAndCreateVariant dl st (VArr t vs) =
     do {
       a \<leftarrow> getTypeABIAlign dl (LArr (length vs) t);
       st1 \<leftarrow> addStoragePadding st a;
       walkElements dl st1 vs
     }"
| "walkAndCreateVariant dl st (VStruct vs) =
     do {
       a \<leftarrow> getTypeABIAlign dl (LStruct (map val_type vs));
       st1 \<leftarrow> addStoragePadding st a;
       walkElements dl st1 vs
     }"
| "walkAndCreateVariant dl st (VVec t vs) =
     do {
       a \<leftarrow> getTypeABIAlign dl (LVec (length vs) t);
       st1 \<leftarrow> addStoragePadding st a;
       walkElements dl st1 vs
     }"
| "walkElements dl st [] = Some st"
| "walkElements dl st (v # vs) =
     do { st1 \<leftarrow> walkAndCreateVariant dl st v; walkElements dl st1 vs }"

text \<open>
  The cells a lowered union offers: the representative type as one integer, or one per element of a
  vector, and the bytes of the trailing array.  The result pairs the cells of the representative
  with those of the tail; \<open>None\<close> is \<^verbatim>\<open>llvm_unreachable\<close> or a failed cast.
\<close>

definition headCells :: "target_layout \<Rightarrow> ll_type \<Rightarrow> cell list option" where
  "headCells dl t =
     (case t of
        LVec n elt \<Rightarrow> map_option (\<lambda>w. replicate n (w, 0)) (getTypeSizeInBits dl elt)
      | _ \<Rightarrow> if isLeafType t then map_option (\<lambda>w. [(w, 0)]) (getTypeSizeInBits dl t) else None)"

definition tailCells :: "ll_type list \<Rightarrow> cell list option" where
  "tailCells body =
     (case body of
        [_, LArr n (LInt w)] \<Rightarrow> Some (replicate n (w, 0))
      | [_, _] \<Rightarrow> None
      | _ \<Rightarrow> Some [])"

definition materializeLLVMUnion ::
  "target_layout \<Rightarrow> ll_type list \<Rightarrow> ll_val \<Rightarrow> (cell list \<times> cell list) option" where
  "materializeLLVMUnion dl body v =
     (case body of
        [] \<Rightarrow> Some ([], [])
      | maxAlignTp # _ \<Rightarrow>
          do {
            hd_cells \<leftarrow> headCells dl maxAlignTp;
            tl_cells \<leftarrow> tailCells body;
            st \<leftarrow> walkAndCreateVariant dl
                    \<lparr>cells = hd_cells @ tl_cells, valueIt = 0, storageOffset = 0, offset = 0\<rparr> v;
            Some (take (length hd_cells) (cells st), drop (length hd_cells) (cells st))
          })"

section \<open>The storage as one row of bits\<close>

fun storageBit :: "cell list \<Rightarrow> nat \<Rightarrow> bool" where
  "storageBit [] i = False"
| "storageBit ((w, x) # cs) i = (if i < w then bit x i else storageBit cs (i - w))"

definition widthBefore :: "cell list \<Rightarrow> nat \<Rightarrow> nat" where
  "widthBefore cs k = sum_list (map fst (take k cs))"

definition totalWidth :: "cell list \<Rightarrow> nat" where
  "totalWidth cs = sum_list (map fst cs)"

definition position :: "storage \<Rightarrow> nat" where
  "position st = widthBefore (cells st) (valueIt st) + storageOffset st"

text \<open>The iterator points into a cell with room, or to the end.\<close>

definition storage_ok :: "storage \<Rightarrow> bool" where
  "storage_ok st \<longleftrightarrow>
     valueIt st \<le> length (cells st) \<and> (\<forall>c \<in> set (cells st). 0 < fst c) \<and>
     (if valueIt st < length (cells st) then storageOffset st < fst (cells st ! valueIt st)
      else storageOffset st = 0)"

lemma widthBefore_0 [simp]: "widthBefore cs 0 = 0"
  by (simp add: widthBefore_def)

lemma widthBefore_Cons_Suc [simp]: "widthBefore (c # cs) (Suc k) = fst c + widthBefore cs k"
  by (simp add: widthBefore_def)

lemma widthBefore_Suc: "k < length cs \<Longrightarrow> widthBefore cs (Suc k) = widthBefore cs k + fst (cs ! k)"
  by (simp add: widthBefore_def take_Suc_conv_app_nth)

lemma widthBefore_all: "length cs \<le> k \<Longrightarrow> widthBefore cs k = totalWidth cs"
  by (simp add: widthBefore_def totalWidth_def)

lemma widthBefore_update:
  "k < length cs \<Longrightarrow> widthBefore (cs[k := (fst (cs ! k), x)]) j = widthBefore cs j"
  by (induction cs arbitrary: k j) (auto simp: widthBefore_def nth_Cons take_Cons split: nat.splits)

lemma totalWidth_update: "k < length cs \<Longrightarrow> totalWidth (cs[k := (fst (cs ! k), x)]) = totalWidth cs"
  using widthBefore_update [of k cs x "length cs"] by (simp add: widthBefore_all)

lemma widthBefore_le: "k < length cs \<Longrightarrow> widthBefore cs k + fst (cs ! k) \<le> totalWidth cs"
  by (induction cs arbitrary: k) (auto simp: totalWidth_def nth_Cons split: nat.splits)

lemma storageBit_update:
  "k < length cs \<Longrightarrow>
     storageBit (cs[k := (fst (cs ! k), x)]) i =
       (if widthBefore cs k \<le> i \<and> i < widthBefore cs k + fst (cs ! k)
        then bit x (i - widthBefore cs k) else storageBit cs i)"
proof (induction cs arbitrary: k i)
  case (Cons c cs)
  show ?case
  proof (cases k)
    case 0
    then show ?thesis by (cases c) simp
  next
    case (Suc j)
    with Cons.prems have "j < length cs" by simp
    from Cons.IH [OF this, of "i - fst c"] Suc show ?thesis by (cases c) auto
  qed
qed simp

lemma storageBit_nth:
  "k < length cs \<Longrightarrow> widthBefore cs k \<le> i \<Longrightarrow> i < widthBefore cs k + fst (cs ! k) \<Longrightarrow>
     storageBit cs i = bit (snd (cs ! k)) (i - widthBefore cs k)"
  using storageBit_update [of k cs "snd (cs ! k)" i] by simp

lemma storageBit_outside: "totalWidth cs \<le> i \<Longrightarrow> \<not> storageBit cs i"
  by (induction cs i rule: storageBit.induct) (auto simp: totalWidth_def)

lemma advance_ok:
  assumes ok: "storage_ok st" and k: "valueIt st < length (cells st)" and amt: "0 < amt"
  shows "\<exists>n st'. advanceStoragePtr st amt = Some (n, st') \<and> 0 < n \<and> n \<le> amt \<and>
           n = min amt (fst (cells st ! valueIt st) - storageOffset st) \<and>
           cells st' = cells st \<and> offset st' = offset st \<and> storage_ok st' \<and>
           position st' = position st + n"
proof -
  let ?w = "fst (cells st ! valueIt st)" and ?so = "storageOffset st"
  define n where "n = min amt (?w - ?so)"
  have so: "?so < ?w" using ok k by (simp add: storage_ok_def)
  then have n: "0 < n" "n \<le> amt" "?so + n \<le> ?w" using amt by (auto simp: n_def)
  show ?thesis
  proof (cases "?so + n = ?w")
    case True
    have "advanceStoragePtr st amt = Some (n, st\<lparr>valueIt := valueIt st + 1, storageOffset := 0\<rparr>)"
      using True k by (simp add: advanceStoragePtr_def n_def Let_def)
    moreover have "storage_ok (st\<lparr>valueIt := valueIt st + 1, storageOffset := 0\<rparr>)"
      using ok k by (auto simp: storage_ok_def)
    moreover have "position (st\<lparr>valueIt := valueIt st + 1, storageOffset := 0\<rparr>) = position st + n"
      using True k by (simp add: position_def widthBefore_Suc)
    ultimately show ?thesis using n by (simp add: n_def)
  next
    case False
    have "advanceStoragePtr st amt = Some (n, st\<lparr>storageOffset := ?so + n\<rparr>)"
      using False k by (simp add: advanceStoragePtr_def n_def Let_def)
    moreover have "storage_ok (st\<lparr>storageOffset := ?so + n\<rparr>)"
      using ok k False n(3) by (auto simp: storage_ok_def)
    moreover have "position (st\<lparr>storageOffset := ?so + n\<rparr>) = position st + n"
      by (simp add: position_def)
    ultimately show ?thesis using n by (simp add: n_def)
  qed
qed

lemma room_in_bounds:
  "storage_ok st \<Longrightarrow> position st < totalWidth (cells st) \<Longrightarrow> valueIt st < length (cells st)"
  by (rule ccontr) (auto simp: storage_ok_def position_def widthBefore_all)

lemma padLoop_0 [simp]: "padLoop st 0 = Some st"
  by (simp add: padLoop.simps)

lemma padLoop_ok:
  "storage_ok st \<Longrightarrow> position st + r \<le> totalWidth (cells st) \<Longrightarrow>
     \<exists>st'. padLoop st r = Some st' \<and> cells st' = cells st \<and> offset st' = offset st \<and>
           storage_ok st' \<and> position st' = position st + r"
proof (induction st r rule: padLoop.induct)
  case (1 st r)
  show ?case
  proof (cases "r = 0")
    case True
    then show ?thesis using "1.prems" by simp
  next
    case False
    with "1.prems" have "valueIt st < length (cells st)" by (intro room_in_bounds) auto
    moreover have "0 < r" using False by simp
    ultimately obtain n st' where
        adv: "advanceStoragePtr st r = Some (n, st')" and n: "0 < n" "n \<le> r"
        and st': "cells st' = cells st" "offset st' = offset st" "storage_ok st'"
          "position st' = position st + n"
      using advance_ok [OF "1.prems"(1)] by meson
    have "\<exists>st''. padLoop st' (r - n) = Some st'' \<and> cells st'' = cells st' \<and>
        offset st'' = offset st' \<and> storage_ok st'' \<and> position st'' = position st' + (r - n)"
      using False adv n st' "1.prems"(2) by (intro "1.IH" [OF _ adv refl]) simp_all
    with False adv n st' show ?thesis by (simp add: padLoop.simps [of st r])
  qed
qed

text \<open>Storing into the current cell adds the next bits of the value from the current position on.\<close>

lemma storeInCell_ok:
  assumes ok: "storage_ok st" and k: "valueIt st < length (cells st)"
  shows "storage_ok (storeInCell st v c)" "position (storeInCell st v c) = position st"
    "valueIt (storeInCell st v c) = valueIt st" "offset (storeInCell st v c) = offset st"
    "totalWidth (cells (storeInCell st v c)) = totalWidth (cells st)"
    "map fst (cells (storeInCell st v c)) = map fst (cells st)"
    "storageOffset (storeInCell st v c) = storageOffset st"
    "storageBit (cells (storeInCell st v c)) i \<longleftrightarrow>
       storageBit (cells st) i \<or>
       (position st \<le> i \<and> i < position st + (fst (cells st ! valueIt st) - storageOffset st) \<and>
        bit v (c + (i - position st)))"
proof -
  let ?cs = "cells st" and ?k = "valueIt st"
  obtain w x where wx: "?cs ! ?k = (w, x)" by (cases "?cs ! ?k")
  define y where "y = x OR take_bit w (push_bit (storageOffset st) (take_bit w (drop_bit c v)))"
  have eq: "storeInCell st v c = st\<lparr>cells := ?cs[?k := (fst (?cs ! ?k), y)]\<rparr>"
    by (simp add: storeInCell_def wx y_def)
  show "position (storeInCell st v c) = position st" "valueIt (storeInCell st v c) = valueIt st"
    "offset (storeInCell st v c) = offset st" "storageOffset (storeInCell st v c) = storageOffset st"
    "totalWidth (cells (storeInCell st v c)) = totalWidth ?cs"
    using k by (simp_all add: eq position_def widthBefore_update totalWidth_update)
  show m: "map fst (cells (storeInCell st v c)) = map fst ?cs"
    by (simp add: eq map_update list_update_same_conv k)
  have "(\<forall>c \<in> set (cells (storeInCell st v c)). 0 < fst c) \<longleftrightarrow> (\<forall>c \<in> set ?cs. 0 < fst c)"
    using arg_cong [OF m, of "\<lambda>l. \<forall>n \<in> set l. 0 < n"] by simp
  then show "storage_ok (storeInCell st v c)"
    using ok k by (simp add: storage_ok_def eq)
  have so: "storageOffset st < w" using ok k wx by (simp add: storage_ok_def)
  show "storageBit (cells (storeInCell st v c)) i \<longleftrightarrow>
       storageBit ?cs i \<or>
       (position st \<le> i \<and> i < position st + (fst (?cs ! ?k) - storageOffset st) \<and>
        bit v (c + (i - position st)))"
  proof (cases "widthBefore ?cs ?k \<le> i \<and> i < widthBefore ?cs ?k + w")
    case True
    then have "storageBit ?cs i = bit x (i - widthBefore ?cs ?k)"
      using storageBit_nth [OF k, of i] wx by simp
    moreover have "storageBit (cells (storeInCell st v c)) i = bit y (i - widthBefore ?cs ?k)"
      using True storageBit_update [OF k, of y i] wx by (simp add: eq)
    ultimately show ?thesis using True so wx
      by (auto simp: y_def position_def bit_simps ac_simps)
  next
    case False
    then have "storageBit (cells (storeInCell st v c)) i = storageBit ?cs i"
      using storageBit_update [OF k, of y i] wx by (auto simp: eq)
    with False so wx show ?thesis by (auto simp: position_def)
  qed
qed

lemma storeLoop_done: "n \<le> c \<Longrightarrow> storeLoop st v n c = Some st"
  by (simp add: storeLoop.simps)

lemma storeLoop_ok:
  "storage_ok st \<Longrightarrow> position st + (n - c) \<le> totalWidth (cells st) \<Longrightarrow> c \<le> n \<Longrightarrow> v < 2 ^ n \<Longrightarrow>
     \<exists>st'. storeLoop st v n c = Some st' \<and> map fst (cells st') = map fst (cells st) \<and>
       offset st' = offset st \<and> storage_ok st' \<and> position st' = position st + (n - c) \<and>
       (\<forall>i. storageBit (cells st') i \<longleftrightarrow>
          storageBit (cells st) i \<or> (position st \<le> i \<and> bit v (c + (i - position st))))"
proof (induction st v n c rule: storeLoop.induct)
  case (1 st v n c)
  have high: "\<not> bit v j" if "n \<le> j" for j
    using that "1.prems"(4) by (metis bit_take_bit_iff leD take_bit_nat_eq_self)
  show ?case
  proof (cases "n \<le> c")
    case True
    then show ?thesis using "1.prems" high by (auto simp: storeLoop_done)
  next
    case False
    with "1.prems" have k: "valueIt st < length (cells st)" by (intro room_in_bounds) auto
    note cell = storeInCell_ok [OF "1.prems"(1) k, of v c]
    have len: "length (cells (storeInCell st v c)) = length (cells st)"
      using arg_cong [OF cell(6), of length] by simp
    have w: "fst (cells (storeInCell st v c) ! valueIt st) = fst (cells st ! valueIt st)"
      using arg_cong [OF cell(6), of "\<lambda>l. l ! valueIt st"] k len by simp
    have "valueIt (storeInCell st v c) < length (cells (storeInCell st v c))"
      using k len cell(3) by simp
    moreover have "0 < n - c" using False by simp
    ultimately obtain d st' where
        adv: "advanceStoragePtr (storeInCell st v c) (n - c) = Some (d, st')"
        and d: "0 < d" "d \<le> n - c"
          "d = min (n - c) (fst (cells st ! valueIt st) - storageOffset st)"
        and st': "cells st' = cells (storeInCell st v c)" "offset st' = offset st" "storage_ok st'"
          "position st' = position st + d"
      using advance_ok [OF cell(1)] unfolding cell(2,3,4,7) w by metis
    have "\<exists>st''. storeLoop st' v n (c + d) = Some st'' \<and> map fst (cells st'') = map fst (cells st') \<and>
        offset st'' = offset st' \<and> storage_ok st'' \<and> position st'' = position st' + (n - (c + d)) \<and>
        (\<forall>i. storageBit (cells st'') i \<longleftrightarrow> storageBit (cells st') i \<or>
           (position st' \<le> i \<and> bit v (c + d + (i - position st'))))"
      using False k adv d(1,2) st' "1.prems" cell(5) by (intro "1.IH" [OF _ _ adv refl]) simp_all
    then obtain st'' where st'': "storeLoop st' v n (c + d) = Some st''"
        "map fst (cells st'') = map fst (cells st')" "offset st'' = offset st'" "storage_ok st''"
        "position st'' = position st' + (n - (c + d))"
        and bits: "\<And>i. storageBit (cells st'') i \<longleftrightarrow> storageBit (cells st') i \<or>
           (position st' \<le> i \<and> bit v (c + d + (i - position st')))"
      by blast
    have "storageBit (cells st'') i \<longleftrightarrow> storageBit (cells st) i \<or>
        (position st \<le> i \<and> bit v (c + (i - position st)))" for i
    proof (cases "position st + d \<le> i")
      case True
      then have "c + d + (i - position st') = c + (i - position st)" using st'(4) by simp
      with True bits [of i] cell(8) [of i] st'(1,4) show ?thesis by auto
    next
      case False
      then have "i < position st + (fst (cells st ! valueIt st) - storageOffset st)"
        using d(3) by linarith
      with False bits [of i] cell(8) [of i] st'(1,4) show ?thesis by auto
    qed
    with False k adv d(1,2) st' st'' cell(6) show ?thesis
      by (simp add: storeLoop.simps [of st v n c])
  qed
qed

section \<open>Where the leaves go\<close>

text \<open>
  The abstract placement of a value: a list of leaves with bit position, width and bits, and the
  position after the last.  Every value starts at a multiple of its alignment.
\<close>

type_synonym placed_leaf = "nat \<times> nat \<times> nat"

fun placeVal :: "target_layout \<Rightarrow> nat \<Rightarrow> ll_val \<Rightarrow> (placed_leaf list \<times> nat) option"
  and placeVals :: "target_layout \<Rightarrow> nat \<Rightarrow> ll_val list \<Rightarrow> (placed_leaf list \<times> nat) option" where
  "placeVal dl off (VLeaf t v) =
     do {
       a \<leftarrow> getTypeABIAlign dl t;
       n \<leftarrow> (if isLeafType t then getTypeSizeInBits dl t else None);
       Some ([(alignTo off (a * 8), n, v)], alignTo off (a * 8) + n)
     }"
| "placeVal dl off (VArr t vs) =
     do { a \<leftarrow> getTypeABIAlign dl (LArr (length vs) t); placeVals dl (alignTo off (a * 8)) vs }"
| "placeVal dl off (VStruct vs) =
     do { a \<leftarrow> getTypeABIAlign dl (LStruct (map val_type vs)); placeVals dl (alignTo off (a * 8)) vs }"
| "placeVal dl off (VVec t vs) =
     do { a \<leftarrow> getTypeABIAlign dl (LVec (length vs) t); placeVals dl (alignTo off (a * 8)) vs }"
| "placeVals dl off [] = Some ([], off)"
| "placeVals dl off (v # vs) =
     do {
       (ps, o1) \<leftarrow> placeVal dl off v;
       (qs, o2) \<leftarrow> placeVals dl o1 vs;
       Some (ps @ qs, o2)
     }"

definition leaf_bits :: "placed_leaf list \<Rightarrow> nat \<Rightarrow> bool" where
  "leaf_bits ps i \<longleftrightarrow> (\<exists>(p, n, v) \<in> set ps. p \<le> i \<and> bit v (i - p))"

definition leaves_fit :: "placed_leaf list \<Rightarrow> bool" where
  "leaves_fit ps \<longleftrightarrow> list_all (\<lambda>(p, n, v). v < 2 ^ n) ps"

text \<open>Leaves in order, disjoint, between two positions.\<close>

definition placement :: "nat \<Rightarrow> placed_leaf list \<Rightarrow> nat \<Rightarrow> bool" where
  "placement off ps end \<longleftrightarrow>
     off \<le> end \<and> (\<forall>(p, n, v) \<in> set ps. off \<le> p \<and> p + n \<le> end) \<and>
     sorted_wrt (\<lambda>(p, n, v) (q, m, w). p + n \<le> q) ps"

lemma placement_Nil [simp]: "placement off [] off"
  by (simp add: placement_def)

lemma placement_le: "placement off ps end \<Longrightarrow> off \<le> end"
  by (simp add: placement_def)

lemma placement_mono: "placement off ps end \<Longrightarrow> off' \<le> off \<Longrightarrow> placement off' ps end"
  by (fastforce simp: placement_def)

lemma placement_append:
  assumes "placement off ps o1" "placement o1 qs end"
  shows "placement off (ps @ qs) end"
proof -
  have "\<forall>x \<in> set ps. \<forall>y \<in> set qs. (\<lambda>(p, n, v) (q, m, w). p + n \<le> q) x y"
  proof (intro ballI)
    fix x y assume "x \<in> set ps" "y \<in> set qs"
    with assms show "(\<lambda>(p, n, v) (q, m, w). p + n \<le> q) x y"
      by (cases x; cases y) (fastforce simp: placement_def)
  qed
  with assms show ?thesis by (fastforce simp: placement_def sorted_wrt_append)
qed

lemma leaf_bits_append: "leaf_bits (ps @ qs) i \<longleftrightarrow> leaf_bits ps i \<or> leaf_bits qs i"
  by (auto simp: leaf_bits_def)

text \<open>A state that packing a value leads to: the bits of the leaves are added, nothing else.\<close>

definition packed :: "storage \<Rightarrow> placed_leaf list \<Rightarrow> nat \<Rightarrow> storage \<Rightarrow> bool" where
  "packed st ps end st' \<longleftrightarrow>
     map fst (cells st') = map fst (cells st) \<and> storage_ok st' \<and> position st' = end \<and>
     offset st' = end \<and>
     (\<forall>i. storageBit (cells st') i \<longleftrightarrow> storageBit (cells st) i \<or> leaf_bits ps i)"

lemma packed_trans:
  "packed st ps o1 st1 \<Longrightarrow> packed st1 qs o2 st2 \<Longrightarrow> packed st (ps @ qs) o2 st2"
  by (simp add: packed_def leaf_bits_append)

lemma totalWidth_cong: "map fst cs = map fst cs' \<Longrightarrow> totalWidth cs = totalWidth cs'"
  by (simp add: totalWidth_def)

context data_layout
begin

lemma placement_aligned:
  "getTypeABIAlign dl t = Some a \<Longrightarrow> placement (alignTo off (a * 8)) ps end \<Longrightarrow> placement off ps end"
  using align_pos [of t a] alignTo_ge [of "a * 8" off] by (auto intro: placement_mono)

lemma placeVal_grows_aux:
  "placeVal d off x = Some (ps, end) \<Longrightarrow> d = dl \<Longrightarrow> placement off ps end"
  "placeVals d off xs = Some (ps', end') \<Longrightarrow> d = dl \<Longrightarrow> placement off ps' end'"
proof (induction d off x and d off xs arbitrary: ps "end" and ps' end'
    rule: placeVal_placeVals.induct)
  case (1 d off t v)
  then obtain a n where "getTypeABIAlign dl t = Some a"
    "ps = [(alignTo off (a * 8), n, v)]" "end = alignTo off (a * 8) + n"
    by (auto split: bind_splits if_splits)
  then show ?case
    using placement_aligned [of t a off ps "end"] by (simp add: placement_def)
next
  case (6 d off v vs)
  then obtain qs o1 rs where h: "placeVal dl off v = Some (qs, o1)"
    and t: "placeVals dl o1 vs = Some (rs, end')" and ps': "ps' = qs @ rs"
    by (auto split: bind_splits)
  have "placement off qs o1" using 6(1) h 6(4) by simp
  moreover have "placement o1 rs end'" using 6(2) h t 6(4) by simp
  ultimately show ?case using ps' by (simp add: placement_append)
qed (auto split: bind_splits intro: placement_aligned)

lemmas placeVal_grows = placeVal_grows_aux(1) [OF _ refl]
lemmas placeVals_grows = placeVal_grows_aux(2) [OF _ refl]

text \<open>Packing refines the abstract placement.\<close>

lemma offset_irrelevant [simp]:
  "storage_ok (st\<lparr>offset := x\<rparr>) = storage_ok st" "position (st\<lparr>offset := x\<rparr>) = position st"
  by (simp_all add: storage_ok_def position_def)

lemma padding_ok:
  assumes "storage_ok st" "position st = offset st" "getTypeABIAlign dl t = Some a"
    and "alignTo (offset st) (a * 8) \<le> totalWidth (cells st)"
  shows "\<exists>st'. addStoragePadding st a = Some st' \<and> packed st [] (alignTo (offset st) (a * 8)) st'"
proof -
  have ge: "offset st \<le> alignTo (offset st) (a * 8)"
    using align_pos [OF assms(3)] by (simp add: alignTo_ge)
  then have "position st + (alignTo (offset st) (a * 8) - offset st) \<le> totalWidth (cells st)"
    using assms(2,4) by simp
  from padLoop_ok [OF assms(1) this] ge assms(2) show ?thesis
    by (auto simp: addStoragePadding_def packed_def leaf_bits_def Let_def)
qed

lemma store_leaf_ok:
  assumes "storage_ok st" "position st = offset st" "position st + n \<le> totalWidth (cells st)"
    and "v < 2 ^ n"
  shows "\<exists>st'. storeLoop (st\<lparr>offset := offset st + n\<rparr>) v n 0 = Some st' \<and>
           packed st [(offset st, n, v)] (offset st + n) st'"
proof -
  show ?thesis
    using storeLoop_ok [of "st\<lparr>offset := offset st + n\<rparr>" n 0 v] assms
    by (auto simp: packed_def leaf_bits_def)
qed

lemma packed_width: "packed st ps end st' \<Longrightarrow> totalWidth (cells st') = totalWidth (cells st)"
  by (auto simp: packed_def intro: totalWidth_cong)

lemma packed_ok: "packed st ps end st' \<Longrightarrow> storage_ok st' \<and> position st' = end \<and> offset st' = end"
  by (simp add: packed_def)

lemma aggregate_ok:
  assumes st: "storage_ok st" "position st = offset st" and a: "getTypeABIAlign dl t = Some a"
    and pl: "placeVals dl (alignTo (offset st) (a * 8)) vs = Some (ps, end)"
    and fit: "end \<le> totalWidth (cells st)"
    and IH: "\<And>st1. storage_ok st1 \<Longrightarrow> position st1 = offset st1 \<Longrightarrow>
        offset st1 = alignTo (offset st) (a * 8) \<Longrightarrow> totalWidth (cells st1) = totalWidth (cells st) \<Longrightarrow>
        \<exists>st'. walkElements dl st1 vs = Some st' \<and> packed st1 ps end st'"
  shows "\<exists>st'. do { st1 \<leftarrow> addStoragePadding st a; walkElements dl st1 vs } = Some st' \<and>
           packed st ps end st'"
proof -
  have "alignTo (offset st) (a * 8) \<le> totalWidth (cells st)"
    using placement_le [OF placeVals_grows [OF pl]] fit by simp
  from padding_ok [OF st a this] obtain st1 where st1: "addStoragePadding st a = Some st1"
      "packed st [] (alignTo (offset st) (a * 8)) st1"
    by blast
  with IH [of st1] obtain st' where "walkElements dl st1 vs = Some st'" "packed st1 ps end st'"
    using packed_ok [OF st1(2)] packed_width [OF st1(2)] by auto
  with st1 packed_trans [OF st1(2)] show ?thesis by fastforce
qed

lemma walk_refines_aux:
  "placeVal d off x = Some (ps, end) \<Longrightarrow> d = dl \<Longrightarrow> leaves_fit ps \<Longrightarrow>
     end \<le> totalWidth (cells st) \<Longrightarrow> storage_ok st \<Longrightarrow> position st = offset st \<Longrightarrow> offset st = off \<Longrightarrow>
     \<exists>st'. walkAndCreateVariant dl st x = Some st' \<and> packed st ps end st'"
  "placeVals d off xs = Some (ps', end') \<Longrightarrow> d = dl \<Longrightarrow> leaves_fit ps' \<Longrightarrow>
     end' \<le> totalWidth (cells st) \<Longrightarrow> storage_ok st \<Longrightarrow> position st = offset st \<Longrightarrow> offset st = off \<Longrightarrow>
     \<exists>st'. walkElements dl st xs = Some st' \<and> packed st ps' end' st'"
proof (induction d off x and d off xs arbitrary: ps "end" st and ps' end' st
    rule: placeVal_placeVals.induct)
  case (1 d off t v)
  then obtain a n where a: "getTypeABIAlign dl t = Some a" and leaf: "isLeafType t"
    and n: "getTypeSizeInBits dl t = Some n" and ps: "ps = [(alignTo off (a * 8), n, v)]"
    and e: "end = alignTo off (a * 8) + n"
    by (auto split: bind_splits if_splits)
  have "alignTo (offset st) (a * 8) \<le> totalWidth (cells st)" using 1 e by simp
  from padding_ok [OF 1(5,6) a this] 1(7) obtain st1 where
    st1: "addStoragePadding st a = Some st1" "packed st [] (alignTo off (a * 8)) st1"
    by auto
  note ok1 = packed_ok [OF st1(2)] packed_width [OF st1(2)]
  from store_leaf_ok [of st1 n v] ok1 1(3,4) ps e obtain st' where
    "storeLoop (st1\<lparr>offset := offset st1 + n\<rparr>) v n 0 = Some st'"
    "packed st1 ps end st'"
    by (auto simp: leaves_fit_def)
  with st1 a leaf n packed_trans [OF st1(2)] show ?case by fastforce
next
  case (2 d off t vs)
  then obtain a where a: "getTypeABIAlign dl (LArr (length vs) t) = Some a"
    "placeVals dl (alignTo (offset st) (a * 8)) vs = Some (ps, end)" by (auto split: bind_splits)
  with aggregate_ok [OF 2(6,7) a 2(5)] 2 show ?case by fastforce
next
  case (3 d off vs)
  then obtain a where a: "getTypeABIAlign dl (LStruct (map val_type vs)) = Some a"
    "placeVals dl (alignTo (offset st) (a * 8)) vs = Some (ps, end)" by (auto split: bind_splits)
  with aggregate_ok [OF 3(6,7) a 3(5)] 3 show ?case by fastforce
next
  case (4 d off t vs)
  then obtain a where a: "getTypeABIAlign dl (LVec (length vs) t) = Some a"
    "placeVals dl (alignTo (offset st) (a * 8)) vs = Some (ps, end)" by (auto split: bind_splits)
  with aggregate_ok [OF 4(6,7) a 4(5)] 4 show ?case by fastforce
next
  case (5 d off)
  then show ?case by (simp add: packed_def leaf_bits_def)
next
  case (6 d off v vs)
  then obtain qs o1 rs where h: "placeVal dl off v = Some (qs, o1)"
    and t: "placeVals dl o1 vs = Some (rs, end')" and ps': "ps' = qs @ rs"
    by (auto split: bind_splits)
  have fit: "leaves_fit qs" "leaves_fit rs" using 6(5) ps' by (simp_all add: leaves_fit_def)
  have "o1 \<le> totalWidth (cells st)" using placement_le [OF placeVals_grows [OF t]] 6(6) by simp
  from 6(1) [OF _ 6(4) fit(1) this 6(7-9)] h 6(4) obtain st1 where
    st1: "walkAndCreateVariant dl st v = Some st1" "packed st qs o1 st1" by auto
  note ok1 = packed_ok [OF st1(2)] packed_width [OF st1(2)]
  have "\<exists>st'. walkElements dl st1 vs = Some st' \<and> packed st1 rs end' st'"
    using h t 6(4,6) ok1 fit(2) by (intro 6(2) [OF _ refl]) simp_all
  then obtain st2 where "walkElements dl st1 vs = Some st2" "packed st1 rs end' st2" by blast
  with st1 packed_trans [OF st1(2)] ps' show ?case by auto
qed

lemmas walk_refines = walk_refines_aux(1) [OF _ refl]

end

lemma sorted_wrt_two:
  "sorted_wrt R xs \<Longrightarrow> x \<in> set xs \<Longrightarrow> y \<in> set xs \<Longrightarrow> x = y \<or> R x y \<or> R y x"
  by (induction xs) auto

lemma leaf_bits_own:
  assumes "placement off ps end" "leaves_fit ps" "(p, n, v) \<in> set ps" "j < n"
  shows "leaf_bits ps (p + j) \<longleftrightarrow> bit v j"
proof
  assume "leaf_bits ps (p + j)"
  then obtain q m w where q: "(q, m, w) \<in> set ps" "q \<le> p + j" "bit w (p + j - q)"
    by (auto simp: leaf_bits_def)
  have "w < 2 ^ m" using assms(2) q(1) by (auto simp: leaves_fit_def list_all_iff)
  then have "p + j - q < m"
    using q(3) by (metis bit_take_bit_iff take_bit_nat_eq_self)
  with q(1,2) assms sorted_wrt_two [of "\<lambda>(p, n, v) (q, m, w). p + n \<le> q" ps "(p, n, v)" "(q, m, w)"]
  have "(p, n, v) = (q, m, w)" by (auto simp: placement_def)
  with q(3) show "bit v j" by simp
next
  assume "bit v j"
  with assms(3) show "leaf_bits ps (p + j)"
    unfolding leaf_bits_def by (intro bexI [of _ "(p, n, v)"]) simp_all
qed

lemma storageBit_zero: "\<forall>c \<in> set cs. snd c = 0 \<Longrightarrow> \<not> storageBit cs i"
  by (induction cs i rule: storageBit.induct) auto

lemma headCells_zero: "headCells dl t = Some cs \<Longrightarrow> \<forall>c \<in> set cs. snd c = 0"
  by (cases t) (auto simp: headCells_def isLeafType_def split: if_splits)

lemma tailCells_zero: "tailCells b = Some cs \<Longrightarrow> \<forall>c \<in> set cs. snd c = 0"
  by (auto simp: tailCells_def split: list.splits ll_type.splits)

section \<open>Properties\<close>

text \<open>
  C6. A union constant can be read back: when the placement of the value fits the cells the lowered
  union offers, materialization succeeds, and at the position of every leaf the cells hold exactly
  the bits of that leaf.
\<close>

theorem variant_readback:
  assumes dl: "data_layout dl" and hc: "headCells dl t = Some hc"
    and tc: "tailCells (t # rest) = Some tc" and pos: "list_all (\<lambda>c. 0 < fst c) (hc @ tc)"
    and pl: "placeVal dl 0 x = Some (ps, end)" and fit: "leaves_fit ps" "end \<le> totalWidth (hc @ tc)"
  shows "\<exists>h tl. materializeLLVMUnion dl (t # rest) x = Some (h, tl) \<and>
           length h = length hc \<and> length tl = length tc \<and>
           list_all (\<lambda>(p, n, v). list_all (\<lambda>j. storageBit (h @ tl) (p + j) = bit v j) [0..<n]) ps"
proof -
  define st where "st = \<lparr>cells = hc @ tc, valueIt = 0, storageOffset = 0, offset = 0\<rparr>"
  have ok: "storage_ok st" "position st = offset st" "offset st = 0" "cells st = hc @ tc"
    using pos by (cases "hc @ tc"; auto simp: storage_ok_def st_def position_def list_all_iff)+
  from data_layout.walk_refines [OF dl pl fit(1) _ ok(1-3)] fit(2) ok(4) obtain st' where
    st': "walkAndCreateVariant dl st x = Some st'" "packed st ps end st'" by auto
  have zero: "\<not> storageBit (cells st) i" for i
    using storageBit_zero [of "hc @ tc" i] headCells_zero [OF hc] tailCells_zero [OF tc] ok(4) by auto
  have len: "length (cells st') = length hc + length tc"
    using st'(2) ok(4) by (metis length_append length_map packed_def)
  have bits: "storageBit (cells st') (p + j) = bit v j" if "(p, n, v) \<in> set ps" "j < n" for p n v j
    using leaf_bits_own [OF data_layout.placeVal_grows [OF dl pl] fit(1) that] st'(2) zero
    by (simp add: packed_def)
  have "materializeLLVMUnion dl (t # rest) x =
      Some (take (length hc) (cells st'), drop (length hc) (cells st'))"
    using hc tc st'(1) by (simp add: materializeLLVMUnion_def st_def)
  with len bits show ?thesis by (auto simp: list_all_iff)
qed

lemma variant_readback_witness:
  "\<exists>h tl. materializeLLVMUnion win64_layout [LInt 32, LArr 4 i8]
       (VStruct [VLeaf (LInt 16) 513, VLeaf (LInt 32) 67305985]) = Some (h, tl) \<and>
     length h = 1 \<and> length tl = 4 \<and>
     list_all (\<lambda>(p, n, v). list_all (\<lambda>j. storageBit (h @ tl) (p + j) = bit v j) [0..<n])
       [(0, 16, 513 :: nat), (32, 32, 67305985)]"
proof -
  let ?x = "VStruct [VLeaf (LInt 16) 513, VLeaf (LInt 32) 67305985]"
  have a: "headCells win64_layout (LInt 32) = Some [(32, 0)]"
    by (simp add: headCells_def isLeafType_def)
  have b: "tailCells [LInt 32, LArr 4 i8] = Some (replicate 4 (8, 0))" by (simp add: tailCells_def)
  have c: "list_all (\<lambda>c. 0 < fst c) ([(32, 0 :: nat)] @ replicate 4 (8 :: nat, 0))" by (simp add: list_all_iff)
  have d: "placeVal win64_layout 0 ?x = Some ([(0, 16, 513), (32, 32, 67305985)], 64)"
    by (simp add: win64_layout_def getTypeABIAlign_def isLeafType_def alignTo_def)
  have e: "leaves_fit [(0, 16, 513), (32, 32, 67305985)]" by (simp add: leaves_fit_def)
  have f: "64 \<le> totalWidth ([(32, 0)] @ replicate 4 (8, 0))"
    by (simp add: totalWidth_def numeral_eq_Suc)
  from variant_readback [OF win64.data_layout_axioms a b c d e f] show ?thesis by auto
qed

text \<open>
  For a struct of leaves whose bits fill their allocation, the position of every leaf is the
  offset LLVM gives the member, so a load of the member type finds the leaf.
\<close>

definition fills_alloc :: "target_layout \<Rightarrow> ll_val \<Rightarrow> bool" where
  "fills_alloc dl x \<longleftrightarrow>
     (case x of
        VLeaf t _ \<Rightarrow> isLeafType t \<and> getTypeSizeInBits dl t = map_option ((*) 8) (getTypeAllocSize dl t)
      | _ \<Rightarrow> False)"

lemma alignTo_bits: "0 < a \<Longrightarrow> alignTo (8 * off) (a * 8) = 8 * alignTo off a"
proof (rule antisym)
  assume a: "0 < a"
  show "alignTo (8 * off) (a * 8) \<le> 8 * alignTo off a"
    using a by (intro alignTo_least) (simp_all add: alignTo_ge mult.commute)
  have d: "a * 8 dvd alignTo (8 * off) (a * 8)" by simp
  then obtain q where q: "alignTo (8 * off) (a * 8) = a * 8 * q" by (elim dvdE)
  have "8 * off \<le> a * 8 * q" using alignTo_ge [of "a * 8" "8 * off"] a q by simp
  then have "alignTo off a \<le> a * q" using a by (intro alignTo_least) simp_all
  then show "8 * alignTo off a \<le> alignTo (8 * off) (a * 8)" using q by simp
qed

lemma flat_members_placed:
  assumes "data_layout dl"
  shows "list_all (fills_alloc dl) vs \<Longrightarrow> placeVals dl (8 * off) vs = Some (ps, end) \<Longrightarrow>
     \<exists>os. fieldOffsets dl (map val_type vs) off = Some os \<and> map fst ps = map ((*) 8) os"
proof (induction vs arbitrary: off ps)
  case (Cons x vs)
  then obtain t v where x: "x = VLeaf t v" "isLeafType t"
    "getTypeSizeInBits dl t = map_option ((*) 8) (getTypeAllocSize dl t)"
    by (auto simp: fills_alloc_def split: ll_val.splits)
  from Cons.prems(2) x obtain a n qs where a: "getTypeABIAlign dl t = Some a"
    and n: "getTypeAllocSize dl t = Some n"
    and qs: "placeVals dl (alignTo (8 * off) (a * 8) + 8 * n) vs = Some (qs, end)"
    and ps: "ps = (alignTo (8 * off) (a * 8), 8 * n, v) # qs"
    by (auto split: bind_splits)
  have al: "alignTo (8 * off) (a * 8) = 8 * alignTo off a"
    using data_layout.align_pos [OF assms a] by (rule alignTo_bits)
  then have "placeVals dl (8 * (alignTo off a + n)) vs = Some (qs, end)" using qs by simp
  from Cons.IH [OF _ this] Cons.prems(1) x(1) a n ps al show ?case by auto
qed simp

theorem variant_flat_struct_layout:
  assumes "data_layout dl" "list_all (fills_alloc dl) vs"
    and "placeVal dl 0 (VStruct vs) = Some (ps, end)"
  shows "\<exists>os. fieldOffsets dl (map val_type vs) 0 = Some os \<and> map fst ps = map ((*) 8) os"
proof -
  from assms(3) obtain a where a: "getTypeABIAlign dl (LStruct (map val_type vs)) = Some a"
    "placeVals dl (alignTo 0 (a * 8)) vs = Some (ps, end)" by (auto split: bind_splits)
  have "alignTo 0 (a * 8) = 8 * 0"
    using data_layout.align_pos [OF assms(1) a(1)] by simp
  with a(2) flat_members_placed [OF assms(1,2), of 0] show ?thesis by simp
qed

lemma variant_flat_struct_layout_witness:
  "\<exists>os. fieldOffsets win64_layout [LInt 16, LInt 32] 0 = Some os \<and> [0, 32] = map ((*) 8) os"
proof -
  let ?vs = "[VLeaf (LInt 16) 513, VLeaf (LInt 32) 67305985]"
  have a: "list_all (fills_alloc win64_layout) ?vs"
    by (simp add: fills_alloc_def win64_layout_def getTypeABIAlign_def getTypeAllocSize_def
        getTypeStoreSize_def isLeafType_def alignTo_def)
  have b: "placeVal win64_layout 0 (VStruct ?vs) = Some ([(0, 16, 513), (32, 32, 67305985)], 64)"
    by (simp add: win64_layout_def getTypeABIAlign_def isLeafType_def alignTo_def)
  from variant_flat_struct_layout [OF win64.data_layout_axioms a b] show ?thesis by simp
qed

text \<open>
  The padding at the end of a nested struct is not accounted for: in a struct of a
  \<^verbatim>\<open>{i32, i8}\<close> struct and a byte, LLVM places the byte at offset 8, the packing stores it in the
  cell of offset 5, and the cell of offset 8 stays zero.
\<close>

theorem variant_misses_tail_padding:
  "fieldOffsets win64_layout [LStruct [LInt 32, i8], i8] 0 = Some [0, 8] \<and>
   materializeLLVMUnion win64_layout [LInt 32, LArr 8 i8]
     (VStruct [VStruct [VLeaf (LInt 32) 1, VLeaf i8 2], VLeaf i8 3]) =
   Some ([(32, 1)], [(8, 2), (8, 3), (8, 0), (8, 0), (8, 0), (8, 0), (8, 0), (8, 0)])"
proof
  show "fieldOffsets win64_layout [LStruct [LInt 32, i8], i8] 0 = Some [0, 8]"
    by (simp add: win64_layout_def getTypeABIAlign_def getTypeAllocSize_def getTypeStoreSize_def
        alignTo_def)
  show "materializeLLVMUnion win64_layout [LInt 32, LArr 8 i8]
     (VStruct [VStruct [VLeaf (LInt 32) 1, VLeaf i8 2], VLeaf i8 3]) =
   Some ([(32, 1)], [(8, 2), (8, 3), (8, 0), (8, 0), (8, 0), (8, 0), (8, 0), (8, 0)])"
  proof -
    have rep: "replicate 8 (8 :: nat, 0 :: nat) =
        [(8, 0), (8, 0), (8, 0), (8, 0), (8, 0), (8, 0), (8, 0), (8, 0)]"
      by (simp add: numeral_eq_Suc)
    show ?thesis
      by (simp add: materializeLLVMUnion_def headCells_def tailCells_def isLeafType_def rep
          win64_layout_def getTypeABIAlign_def alignTo_def addStoragePadding_def padLoop.simps
          storeLoop.simps advanceStoragePtr_def storeInCell_def Let_def)
  qed
qed

end
