(* ===== verification/Cabi_Lowering.thy ===== *)
theory Cabi_Lowering
  imports LLVM_Layout
begin

text \<open>
  The C ABI classifiers: \<^verbatim>\<open>CABILowering.h\<close>, \<^verbatim>\<open>CABILowering.cpp\<close> and the Microsoft x64 convention
  of \<^verbatim>\<open>CABIWin64.cpp\<close>, all under \<^verbatim>\<open>Mojo/lib/KGENToLLVM\<close>.  The System V and AAPCS classifiers
  are upstream files that the repository does not hold; they are the fields of \<open>upstream_abis\<close>.
\<close>

section \<open>Coercions\<close>

datatype abi_arg_class = ClsInteger | ClsSSE | ClsIntegerPair | ClsSSEPair | ClsMixed | ClsMemory | ClsNoClass

record coercion_info =
  argClass :: abi_arg_class
  coercedType :: "ll_type option"
  coercedSecondType :: "ll_type option"
  useIndirect :: bool
  useByval :: bool
  useSRet :: bool

definition defaultCoercion :: coercion_info where
  "defaultCoercion =
     \<lparr>argClass = ClsNoClass, coercedType = None, coercedSecondType = None,
      useIndirect = False, useByval = False, useSRet = False\<rparr>"

definition indirectArgument :: "bool \<Rightarrow> coercion_info" where
  "indirectArgument byval =
     defaultCoercion\<lparr>argClass := ClsMemory, useIndirect := True, useByval := byval, useSRet := False\<rparr>"

definition sretReturn :: coercion_info where
  "sretReturn = defaultCoercion\<lparr>argClass := ClsMemory, useIndirect := False, useSRet := True\<rparr>"

definition isIdentity :: "coercion_info \<Rightarrow> bool" where
  "isIdentity ci \<longleftrightarrow> argClass ci = ClsNoClass"

definition isTwoRegister :: "coercion_info \<Rightarrow> bool" where
  "isTwoRegister ci \<longleftrightarrow>
     argClass ci = ClsIntegerPair \<or> argClass ci = ClsSSEPair \<or> argClass ci = ClsMixed"

record signature_classification =
  sigArgs :: "coercion_info list"
  sigRet :: coercion_info

section \<open>Helpers\<close>

fun isStructType :: "ll_type \<Rightarrow> bool" where
  "isStructType (LStruct _) = True"
| "isStructType _ = False"

fun isArrayType :: "ll_type \<Rightarrow> bool" where
  "isArrayType (LArr _ _) = True"
| "isArrayType _ = False"

definition getStructSize :: "target_layout \<Rightarrow> ll_type \<Rightarrow> nat option" where
  "getStructSize dl t = getTypeStoreSize dl t"

text \<open>The leaf float width of a struct; the loop carries the canonical width seen so far.\<close>

fun getLeafFloatBitWidth :: "ll_type list \<Rightarrow> nat"
  and leafFloatLoop :: "nat option \<Rightarrow> ll_type list \<Rightarrow> nat"
  and fieldFloatBitWidth :: "ll_type \<Rightarrow> nat option" where
  "getLeafFloatBitWidth body = leafFloatLoop None body"
| "leafFloatLoop canonical [] = (case canonical of None \<Rightarrow> 0 | Some w \<Rightarrow> w)"
| "leafFloatLoop canonical (t # ts) =
     (case fieldFloatBitWidth t of
        None \<Rightarrow> 0
      | Some w \<Rightarrow>
          (case canonical of
             None \<Rightarrow> leafFloatLoop (Some w) ts
           | Some c \<Rightarrow> if c \<noteq> w then 0 else leafFloatLoop canonical ts))"
| "fieldFloatBitWidth (LFloat n w) = Some w"
| "fieldFloatBitWidth (LVec k (LFloat n w)) = Some w"
| "fieldFloatBitWidth (LStruct ts) =
     (let w = leafFloatLoop None ts in if w = 0 then None else Some w)"
| "fieldFloatBitWidth _ = None"

definition isAllFloatStruct :: "ll_type list \<Rightarrow> bool" where
  "isAllFloatStruct body \<longleftrightarrow>
     (if body = [] then False
      else if length body > 4 then False
      else getLeafFloatBitWidth body \<noteq> 0)"

text \<open>\<open>None\<close> is \<^verbatim>\<open>llvm_unreachable\<close>.\<close>

definition getIntegerTypeForSize :: "nat \<Rightarrow> ll_type option" where
  "getIntegerTypeForSize n =
     (if n = 1 then Some (LInt 8)
      else if n = 2 then Some (LInt 16)
      else if n \<le> 4 then Some (LInt 32)
      else if n \<le> 8 then Some (LInt 64)
      else None)"

definition classifySmallIntegerStruct :: "nat \<Rightarrow> coercion_info option" where
  "classifySmallIntegerStruct n =
     map_option (\<lambda>t. defaultCoercion\<lparr>argClass := ClsInteger, coercedType := Some t\<rparr>)
       (getIntegerTypeForSize n)"

section \<open>The Microsoft x64 convention\<close>

definition classifyAggregate :: "target_layout \<Rightarrow> ll_type \<Rightarrow> bool \<Rightarrow> coercion_info option" where
  "classifyAggregate dl t wantSRet =
     (if \<not> isStructType t then Some defaultCoercion
      else do {
        n \<leftarrow> getStructSize dl t;
        if n > 8 \<or> \<not> isPowerOf2 n
        then Some (if wantSRet then sretReturn else indirectArgument False)
        else classifySmallIntegerStruct n
      })"

definition win64ClassifyArgument :: "target_layout \<Rightarrow> ll_type \<Rightarrow> bool \<Rightarrow> coercion_info option" where
  "win64ClassifyArgument dl t isVariadicArg =
     (if isArrayType t then Some (indirectArgument False) else classifyAggregate dl t False)"

definition win64ClassifyReturn :: "target_layout \<Rightarrow> ll_type \<Rightarrow> coercion_info option" where
  "win64ClassifyReturn dl t = classifyAggregate dl t True"

section \<open>Choice of the convention and whole signatures\<close>

datatype arch = X86_64 | AArch64 | AArch64_be | AArch64_32 | X86 | OtherArch

record triple =
  tripleArch :: arch
  isOSWindows :: bool
  isOSDarwin :: bool

datatype cabi = DefaultCABI | Win64CABI | SystemVCABI | AAPCSCABI bool

definition isCABIEnabled :: "bool \<Rightarrow> bool" where
  "isCABIEnabled skipCoercion \<longleftrightarrow> \<not> skipCoercion"

definition createCABIInfo :: "bool \<Rightarrow> triple \<Rightarrow> cabi" where
  "createCABIInfo skipCoercion tr =
     (if \<not> isCABIEnabled skipCoercion then DefaultCABI
      else case tripleArch tr of
        X86_64 \<Rightarrow> if isOSWindows tr then Win64CABI else SystemVCABI
      | AArch64 \<Rightarrow> AAPCSCABI (isOSDarwin tr)
      | AArch64_be \<Rightarrow> AAPCSCABI (isOSDarwin tr)
      | AArch64_32 \<Rightarrow> AAPCSCABI (isOSDarwin tr)
      | X86 \<Rightarrow> DefaultCABI
      | OtherArch \<Rightarrow> DefaultCABI)"

text \<open>
  The base class classifies the return value and then each argument on its own; an argument at or
  past \<open>numFixedArgs\<close> is variadic.  A classification that cannot be made ends the loop.
\<close>

fun classifyArgs ::
  "(ll_type \<Rightarrow> bool \<Rightarrow> coercion_info option) \<Rightarrow> nat \<Rightarrow> nat \<Rightarrow> ll_type list \<Rightarrow> coercion_info list option" where
  "classifyArgs classify numFixedArgs idx [] = Some []"
| "classifyArgs classify numFixedArgs idx (t # ts) =
     do {
       ci \<leftarrow> classify t (numFixedArgs \<le> idx);
       cis \<leftarrow> classifyArgs classify numFixedArgs (idx + 1) ts;
       Some (ci # cis)
     }"

definition baseSignatureInfo ::
  "(ll_type \<Rightarrow> bool \<Rightarrow> coercion_info option) \<Rightarrow> (ll_type \<Rightarrow> coercion_info option) \<Rightarrow>
   ll_type list \<Rightarrow> ll_type option \<Rightarrow> nat \<Rightarrow> signature_classification option" where
  "baseSignatureInfo classifyArg classifyRet argTypes retType numFixedArgs =
     do {
       ret \<leftarrow> (case retType of None \<Rightarrow> Some defaultCoercion | Some t \<Rightarrow> classifyRet t);
       args \<leftarrow> classifyArgs classifyArg numFixedArgs 0 argTypes;
       Some \<lparr>sigArgs = args, sigRet = ret\<rparr>
     }"

type_synonym signature_query =
  "target_layout \<Rightarrow> ll_type list \<Rightarrow> ll_type option \<Rightarrow> nat \<Rightarrow> signature_classification option"

record upstream_abis =
  systemVSignature :: signature_query
  aapcsSignature :: "bool \<Rightarrow> signature_query"

definition computeSignatureInfo :: "upstream_abis \<Rightarrow> cabi \<Rightarrow> signature_query" where
  "computeSignatureInfo up abi dl argTypes retType numFixedArgs =
     (case abi of
        DefaultCABI \<Rightarrow>
          baseSignatureInfo (\<lambda>_ _. Some defaultCoercion) (\<lambda>_. Some defaultCoercion)
            argTypes retType numFixedArgs
      | Win64CABI \<Rightarrow>
          baseSignatureInfo (win64ClassifyArgument dl) (win64ClassifyReturn dl)
            argTypes retType numFixedArgs
      | SystemVCABI \<Rightarrow> systemVSignature up dl argTypes retType numFixedArgs
      | AAPCSCABI darwin \<Rightarrow> aapcsSignature up darwin dl argTypes retType numFixedArgs)"

section \<open>The one rule\<close>

lemma small_power_of_2: "n \<le> 8 \<Longrightarrow> isPowerOf2 n \<longleftrightarrow> n \<in> {1, 2, 4, 8}"
proof -
  assume "n \<le> 8"
  then have "n \<in> {0, 1, 2, 3, 4, 5, 6, 7, 8}" by auto
  then show ?thesis by (auto simp: isPowerOf2_def)
qed

text \<open>What Microsoft documents, on the total size of an aggregate alone.\<close>

definition microsoft_rule :: "nat \<Rightarrow> bool \<Rightarrow> coercion_info" where
  "microsoft_rule n ret =
     (if n \<in> {1, 2, 4, 8}
      then defaultCoercion\<lparr>argClass := ClsInteger, coercedType := Some (LInt (8 * n))\<rparr>
      else if ret then sretReturn else indirectArgument False)"

lemma classifyAggregate_rule:
  assumes "getTypeStoreSize dl (LStruct ts) = Some n"
  shows "classifyAggregate dl (LStruct ts) ret = Some (microsoft_rule n ret)"
proof (cases "n \<le> 8")
  case True
  with assms show ?thesis
    by (auto simp: classifyAggregate_def getStructSize_def small_power_of_2 microsoft_rule_def
        classifySmallIntegerStruct_def getIntegerTypeForSize_def)
next
  case False
  with assms show ?thesis
    by (auto simp: classifyAggregate_def getStructSize_def microsoft_rule_def)
qed

lemma classifyAggregate_scalar: "\<not> isStructType t \<Longrightarrow> classifyAggregate dl t ret = Some defaultCoercion"
  by (simp add: classifyAggregate_def)

text \<open>What the Win64 classifier says about one type, on every branch.\<close>

definition win64_spec :: "target_layout \<Rightarrow> bool \<Rightarrow> ll_type \<Rightarrow> coercion_info option" where
  "win64_spec dl ret t =
     (case t of
        LStruct ts \<Rightarrow> map_option (\<lambda>n. microsoft_rule n ret) (getTypeStoreSize dl t)
      | LArr _ _ \<Rightarrow> Some (if ret then defaultCoercion else indirectArgument False)
      | _ \<Rightarrow> Some defaultCoercion)"

lemma win64_argument_spec: "win64ClassifyArgument dl t v = win64_spec dl False t"
proof (cases t)
  case (LStruct ts)
  then show ?thesis
    using classifyAggregate_rule [of dl ts _ False]
    by (cases "getTypeStoreSize dl (LStruct ts)")
      (simp_all add: win64ClassifyArgument_def win64_spec_def classifyAggregate_def getStructSize_def)
qed (simp_all add: win64ClassifyArgument_def win64_spec_def classifyAggregate_scalar)

lemma win64_return_spec: "win64ClassifyReturn dl t = win64_spec dl True t"
proof (cases t)
  case (LStruct ts)
  then show ?thesis
    using classifyAggregate_rule [of dl ts _ True]
    by (cases "getTypeStoreSize dl (LStruct ts)")
      (simp_all add: win64ClassifyReturn_def win64_spec_def classifyAggregate_def getStructSize_def)
qed (simp_all add: win64ClassifyReturn_def win64_spec_def classifyAggregate_scalar)


section \<open>Whole Win64 signatures\<close>

text \<open>Classification of a list fails when one classification does, and is otherwise pointwise.\<close>

fun classify_all :: "(ll_type \<Rightarrow> coercion_info option) \<Rightarrow> ll_type list \<Rightarrow> coercion_info list option" where
  "classify_all f [] = Some []"
| "classify_all f (t # ts) =
     (case (f t, classify_all f ts) of (Some c, Some cs) \<Rightarrow> Some (c # cs) | _ \<Rightarrow> None)"

lemma classifyArgs_pointwise:
  assumes "\<And>t v. classify t v = f t"
  shows "classifyArgs classify n i ts = classify_all f ts"
  by (induction ts arbitrary: i) (auto simp: assms bind_eq_None_conv split: option.splits)

lemma classify_all_length: "classify_all f ts = Some cs \<Longrightarrow> length cs = length ts"
  by (induction ts arbitrary: cs) (auto split: option.splits)

lemma classify_all_nth: "classify_all f ts = Some cs \<Longrightarrow> i < length ts \<Longrightarrow> f (ts ! i) = Some (cs ! i)"
  by (induction ts arbitrary: cs i) (auto split: option.splits simp: nth_Cons split: nat.splits)

lemma classify_all_list_all2: "classify_all f ts = Some cs \<Longrightarrow> list_all2 (\<lambda>t c. f t = Some c) ts cs"
  by (simp add: list_all2_conv_all_nth classify_all_length classify_all_nth)

lemma createCABIInfo_win64:
  "createCABIInfo skip tr = Win64CABI \<longleftrightarrow> \<not> skip \<and> tripleArch tr = X86_64 \<and> isOSWindows tr"
  by (auto simp: createCABIInfo_def isCABIEnabled_def split: arch.splits)

text \<open>
  C4. On an x86-64 Windows triple, unless coercion is switched off, a whole signature is classified
  by the size rule Microsoft documents, argument by argument: a struct of 1, 2, 4 or 8 bytes is the
  integer of that width whatever it holds, any other struct is a pointer to a caller-owned copy
  (without byval) or the hidden result pointer, an array argument is a pointer, and every other type
  is untouched.  Neither the position of an argument nor its being variadic matters.
\<close>
theorem win64_signature_exact:
  assumes "tripleArch tr = X86_64" and "isOSWindows tr"
  shows "computeSignatureInfo up (createCABIInfo False tr) dl argTypes (Some retType) numFixedArgs =
     do {
       ret \<leftarrow> win64_spec dl True retType;
       args \<leftarrow> classify_all (win64_spec dl False) argTypes;
       Some \<lparr>sigArgs = args, sigRet = ret\<rparr>
     }"
proof -
  have "createCABIInfo False tr = Win64CABI"
    using assms by (simp add: createCABIInfo_win64)
  moreover have "classifyArgs (win64ClassifyArgument dl) numFixedArgs 0 argTypes =
      classify_all (win64_spec dl False) argTypes"
    by (rule classifyArgs_pointwise) (rule win64_argument_spec)
  ultimately show ?thesis
    by (simp add: computeSignatureInfo_def baseSignatureInfo_def win64_return_spec)
qed

definition windows_triple :: triple where
  "windows_triple = \<lparr>tripleArch = X86_64, isOSWindows = True, isOSDarwin = False\<rparr>"

definition no_upstream :: upstream_abis where
  "no_upstream = \<lparr>systemVSignature = (\<lambda>_ _ _ _. None), aapcsSignature = (\<lambda>_ _ _ _ _. None)\<rparr>"

theorem win64_signature_exact_witness:
  "computeSignatureInfo no_upstream (createCABIInfo False windows_triple) win64_layout
     [LStruct [LFloat ''f32'' 32], LStruct [LFloat ''f64'' 64, LFloat ''f64'' 64], LStruct [LInt 8, LInt 8, LInt 8],
      LFloat ''f64'' 64]
     (Some (LStruct [LInt 32, LInt 32])) 2 =
   Some \<lparr>sigArgs =
       [defaultCoercion\<lparr>argClass := ClsInteger, coercedType := Some (LInt 32)\<rparr>,
        indirectArgument False, indirectArgument False, defaultCoercion],
      sigRet = defaultCoercion\<lparr>argClass := ClsInteger, coercedType := Some (LInt 64)\<rparr>\<rparr>"
  by (subst win64_signature_exact)
    (simp_all add: windows_triple_def win64_spec_def microsoft_rule_def eval_win64)

section \<open>Homogeneous float aggregates\<close>

text \<open>The leaves the float test looks at; an empty struct has none and spoils its parent.\<close>

fun float_leaf :: "nat \<Rightarrow> ll_type \<Rightarrow> bool" where
  "float_leaf w (LFloat n v) = (v = w)"
| "float_leaf w (LVec k (LFloat n v)) = (v = w)"
| "float_leaf w (LStruct ts) = (ts \<noteq> [] \<and> (\<forall>t \<in> set ts. float_leaf w t))"
| "float_leaf w _ = False"

lemma float_loop_spec:
  assumes "0 < w"
  shows "(getLeafFloatBitWidth body = w \<longleftrightarrow> body \<noteq> [] \<and> (\<forall>t \<in> set body. float_leaf w t))"
    and "leafFloatLoop canonical ts = w \<longleftrightarrow>
      (canonical = Some w \<or> canonical = None \<and> ts \<noteq> []) \<and> (\<forall>t \<in> set ts. float_leaf w t)"
    and "fieldFloatBitWidth t = Some w \<longleftrightarrow> float_leaf w t"
  using assms
  by (induction body and canonical ts and t
      rule: getLeafFloatBitWidth_leafFloatLoop_fieldFloatBitWidth.induct)
    (auto simp: Let_def split: option.splits if_splits)

text \<open>
  The struct test for a homogeneous float aggregate accepts a struct exactly when it has one to
  four members and one positive width that every leaf float, through vectors and non-empty nested
  structs, has.
\<close>
theorem isAllFloatStruct_exact:
  "isAllFloatStruct body \<longleftrightarrow>
     body \<noteq> [] \<and> length body \<le> 4 \<and> (\<exists>w. 0 < w \<and> list_all (float_leaf w) body)"
  using float_loop_spec(1) [of "getLeafFloatBitWidth body" body] float_loop_spec(1) [of _ body]
  by (auto simp del: getLeafFloatBitWidth.simps simp: isAllFloatStruct_def list_all_iff)

text \<open>
  The test compares widths and not types: a struct of one half and one bfloat16 is accepted as
  homogeneous, although the comment on the helper asks for the same float type in every leaf.
\<close>
theorem isAllFloatStruct_mixed_halves:
  "isAllFloatStruct [LFloat ''f16'' 16, LFloat ''bf16'' 16]"
  by (simp add: isAllFloatStruct_def)

end
