(* ===== verification/Cabi_Rewrite.thy ===== *)
theory Cabi_Rewrite
  imports Cabi_Lowering
begin

text \<open>
  The rewrite of function definitions to their C ABI form
  (\<^verbatim>\<open>Mojo/lib/KGENToLLVM/LowerKGENToLLVMRewriteCABIFns.cpp\<close>).  A function is its type, its argument
  attributes and its blocks; SSA values are numbers, and the builder hands out fresh ones.  An
  assertion of the source, an index out of range and a size query on an unsized type are \<open>None\<close>.
\<close>

section \<open>Functions\<close>

type_synonym vid = nat

text \<open>An operation the rewrite does not look at is \<open>OtherOp\<close> with its name and operands.\<close>

datatype ll_op =
    ConstOneOp
  | AllocaOp ll_type vid nat
  | LoadOp ll_type vid
  | StoreOp vid vid
  | UndefOp ll_type
  | InsertValueOp ll_type vid vid nat
  | ReturnOp "vid list"
  | OtherOp string "vid list"

type_synonym inst = "vid option \<times> ll_op"

record block =
  blockArgs :: "(vid \<times> ll_type) list"
  blockOps :: "inst list"

datatype arg_attr = StructRet ll_type | ByVal ll_type

record llvm_func =
  paramTypes :: "ll_type list"
  returnType :: ll_type
  isVarArg :: bool
  argAttrs :: "(nat \<times> arg_attr) list"
  funcBlocks :: "block list"

definition isExternal :: "llvm_func \<Rightarrow> bool" where
  "isExternal f \<longleftrightarrow> funcBlocks f = []"

section \<open>The builder\<close>

record builder =
  nextId :: vid
  newArgs :: "(vid \<times> ll_type) list"
  emitted :: "inst list"

definition addArgument :: "builder \<Rightarrow> ll_type \<Rightarrow> vid \<times> builder" where
  "addArgument b t =
     (nextId b, b\<lparr>nextId := nextId b + 1, newArgs := newArgs b @ [(nextId b, t)]\<rparr>)"

definition emitOp :: "builder \<Rightarrow> ll_op \<Rightarrow> vid \<times> builder" where
  "emitOp b op =
     (nextId b, b\<lparr>nextId := nextId b + 1, emitted := emitted b @ [(Some (nextId b), op)]\<rparr>)"

definition emitStore :: "builder \<Rightarrow> vid \<Rightarrow> vid \<Rightarrow> builder" where
  "emitStore b v p = b\<lparr>emitted := emitted b @ [(None, StoreOp v p)]\<rparr>"

definition createEntryAlloca ::
  "target_layout \<Rightarrow> builder \<Rightarrow> ll_type \<Rightarrow> ll_type \<Rightarrow> (vid \<times> builder) option" where
  "createEntryAlloca dl b allocType storeType =
     do {
       a1 \<leftarrow> getTypeABIAlign dl allocType;
       a2 \<leftarrow> getTypeABIAlign dl storeType;
       let (count, b) = emitOp b ConstOneOp;
       Some (emitOp b (AllocaOp allocType count (max a1 a2)))
     }"

definition getParamType :: "ll_type list \<Rightarrow> nat \<Rightarrow> ll_type option" where
  "getParamType ts i = (if i < length ts then Some (ts ! i) else None)"

definition assertSome :: "bool \<Rightarrow> unit option" where
  "assertSome c = (if c then Some () else None)"

section \<open>Arguments\<close>

text \<open>One round of the loop; the result is the reconstructed value and the next parameter index.\<close>

definition reconstructArgument ::
  "target_layout \<Rightarrow> ll_type list \<Rightarrow> coercion_info \<Rightarrow> ll_type \<Rightarrow> nat \<Rightarrow> builder \<Rightarrow>
   (vid \<times> nat \<times> builder) option" where
  "reconstructArgument dl params ci origType paramIdx b =
     do {
       paramTy \<leftarrow> getParamType params paramIdx;
       let paramIdx = paramIdx + 1;
       if isIdentity ci then
         let (v, b) = addArgument b paramTy in Some (v, paramIdx, b)
       else if useIndirect ci then
         let (ptrArg, b) = addArgument b paramTy;
             (v, b) = emitOp b (LoadOp origType ptrArg)
         in Some (v, paramIdx, b)
       else if isTwoRegister ci then
         do {
           let (arg1, b) = addArgument b paramTy;
           secondTy \<leftarrow> getParamType params paramIdx;
           let paramIdx = paramIdx + 1;
           let (arg2, b) = addArgument b secondTy;
           assertSome (Some paramTy = coercedType ci);
           assertSome (Some secondTy = coercedSecondType ci);
           let pairTy = LStruct [paramTy, secondTy];
           (alloca, b) \<leftarrow> createEntryAlloca dl b origType pairTy;
           let (pair, b) = emitOp b (UndefOp pairTy);
           let (pair, b) = emitOp b (InsertValueOp pairTy pair arg1 0);
           let (pair, b) = emitOp b (InsertValueOp pairTy pair arg2 1);
           let b = emitStore b pair alloca;
           let (v, b) = emitOp b (LoadOp origType alloca);
           Some (v, paramIdx, b)
         }
       else
         do {
           assertSome (coercedType ci \<noteq> None);
           let (coercedArg, b) = addArgument b paramTy;
           assertSome (Some paramTy = coercedType ci);
           (alloca, b) \<leftarrow> createEntryAlloca dl b origType paramTy;
           let b = emitStore b coercedArg alloca;
           let (v, b) = emitOp b (LoadOp origType alloca);
           Some (v, paramIdx, b)
         }
     }"

text \<open>The loop over \<^verbatim>\<open>llvm::zip\<close> of the coercions and the original types.\<close>

fun reconstructLoop ::
  "target_layout \<Rightarrow> ll_type list \<Rightarrow> (coercion_info \<times> ll_type) list \<Rightarrow> nat \<Rightarrow> builder \<Rightarrow>
   (vid list \<times> nat \<times> builder) option" where
  "reconstructLoop dl params [] paramIdx b = Some ([], paramIdx, b)"
| "reconstructLoop dl params ((ci, origType) # rest) paramIdx b =
     do {
       (v, paramIdx, b) \<leftarrow> reconstructArgument dl params ci origType paramIdx b;
       (vs, paramIdx, b) \<leftarrow> reconstructLoop dl params rest paramIdx b;
       Some (v # vs, paramIdx, b)
     }"

definition reconstructCABIArguments ::
  "target_layout \<Rightarrow> ll_type list \<Rightarrow> coercion_info list \<Rightarrow> ll_type list \<Rightarrow> coercion_info \<Rightarrow> builder \<Rightarrow>
   (vid list \<times> builder) option" where
  "reconstructCABIArguments dl params argInfos origTypes retInfo b =
     do {
       (vs, _, b) \<leftarrow> reconstructLoop dl params (zip argInfos origTypes)
                       (if useSRet retInfo then 1 else 0) b;
       Some (vs, b)
     }"

section \<open>Uses\<close>

definition substId :: "vid \<Rightarrow> vid \<Rightarrow> vid \<Rightarrow> vid" where
  "substId old new v = (if v = old then new else v)"

fun substOp :: "vid \<Rightarrow> vid \<Rightarrow> ll_op \<Rightarrow> ll_op" where
  "substOp old new ConstOneOp = ConstOneOp"
| "substOp old new (AllocaOp t c a) = AllocaOp t (substId old new c) a"
| "substOp old new (LoadOp t p) = LoadOp t (substId old new p)"
| "substOp old new (StoreOp v p) = StoreOp (substId old new v) (substId old new p)"
| "substOp old new (UndefOp t) = UndefOp t"
| "substOp old new (InsertValueOp t a v i) =
     InsertValueOp t (substId old new a) (substId old new v) i"
| "substOp old new (ReturnOp vs) = ReturnOp (map (substId old new) vs)"
| "substOp old new (OtherOp n vs) = OtherOp n (map (substId old new) vs)"

definition replaceAllUsesWith :: "vid \<times> vid \<Rightarrow> block list \<Rightarrow> block list" where
  "replaceAllUsesWith p bs =
     map (\<lambda>b. b\<lparr>blockOps := map (\<lambda>(r, op). (r, substOp (fst p) (snd p) op)) (blockOps b)\<rparr>) bs"

section \<open>Returns\<close>

text \<open>Rewriting of the return operations of one block, with the fresh numbers threaded.\<close>

fun coerceReturns :: "vid \<Rightarrow> ll_type \<Rightarrow> vid \<Rightarrow> inst list \<Rightarrow> (inst list \<times> vid) option" where
  "coerceReturns retAlloca coerced fresh [] = Some ([], fresh)"
| "coerceReturns retAlloca coerced fresh ((r, ReturnOp vs) # ops) =
     (case vs of
        [] \<Rightarrow> map_option (\<lambda>(ops', n). ((r, ReturnOp vs) # ops', n))
                (coerceReturns retAlloca coerced fresh ops)
      | v # _ \<Rightarrow>
          map_option
            (\<lambda>(ops', n). ((None, StoreOp v retAlloca) # (Some fresh, LoadOp coerced retAlloca) #
                           (r, ReturnOp [fresh]) # ops', n))
            (coerceReturns retAlloca coerced (fresh + 1) ops))"
| "coerceReturns retAlloca coerced fresh (i # ops) =
     map_option (\<lambda>(ops', n). (i # ops', n)) (coerceReturns retAlloca coerced fresh ops)"

fun rewriteReturnsToCoercedType ::
  "vid \<Rightarrow> ll_type \<Rightarrow> vid \<Rightarrow> block list \<Rightarrow> (block list \<times> vid) option" where
  "rewriteReturnsToCoercedType retAlloca coerced fresh [] = Some ([], fresh)"
| "rewriteReturnsToCoercedType retAlloca coerced fresh (b # bs) =
     do {
       (ops, fresh) \<leftarrow> coerceReturns retAlloca coerced fresh (blockOps b);
       (bs, fresh) \<leftarrow> rewriteReturnsToCoercedType retAlloca coerced fresh bs;
       Some (b\<lparr>blockOps := ops\<rparr> # bs, fresh)
     }"

text \<open>Stores through the hidden pointer; a return with no operand has no argument to read.\<close>

fun sretReturns :: "vid \<Rightarrow> inst list \<Rightarrow> inst list option" where
  "sretReturns p [] = Some []"
| "sretReturns p ((r, ReturnOp vs) # ops) =
     (case vs of
        [] \<Rightarrow> None
      | v # _ \<Rightarrow> map_option (\<lambda>ops'. (None, StoreOp v p) # (r, ReturnOp []) # ops') (sretReturns p ops))"
| "sretReturns p (i # ops) = map_option (\<lambda>ops'. i # ops') (sretReturns p ops)"

fun sretBlocks :: "vid \<Rightarrow> block list \<Rightarrow> block list option" where
  "sretBlocks p [] = Some []"
| "sretBlocks p (b # bs) =
     do {
       ops \<leftarrow> sretReturns p (blockOps b);
       bs \<leftarrow> sretBlocks p bs;
       Some (b\<lparr>blockOps := ops\<rparr> # bs)
     }"

text \<open>The entry block is the first one.\<close>

fun onEntry :: "(block \<Rightarrow> block) \<Rightarrow> block list \<Rightarrow> block list" where
  "onEntry f [] = []"
| "onEntry f (b # bs) = f b # bs"

definition coercedReturnType :: "coercion_info \<Rightarrow> ll_type option" where
  "coercedReturnType ri =
     (if isTwoRegister ri
      then (case (coercedType ri, coercedSecondType ri) of
              (Some a, Some b) \<Rightarrow> Some (LStruct [a, b]) | _ \<Rightarrow> None)
      else coercedType ri)"

definition applyCABIReturnCoercion ::
  "target_layout \<Rightarrow> coercion_info \<Rightarrow> ll_type \<Rightarrow> vid \<Rightarrow> block list \<Rightarrow> (block list \<times> ll_type) option" where
  "applyCABIReturnCoercion dl retInfo origRetType fresh bs =
     (if useSRet retInfo then
        do {
          let bs = onEntry (\<lambda>b. b\<lparr>blockArgs := (fresh, LPtr 0) # blockArgs b\<rparr>) bs;
          bs \<leftarrow> sretBlocks fresh bs;
          Some (bs, LVoid)
        }
      else
        do {
          coerced \<leftarrow> coercedReturnType retInfo;
          (retAlloca, b) \<leftarrow> createEntryAlloca dl \<lparr>nextId = fresh, newArgs = [], emitted = []\<rparr>
                               origRetType coerced;
          let bs = onEntry (\<lambda>e. e\<lparr>blockOps := emitted b @ blockOps e\<rparr>) bs;
          (bs, _) \<leftarrow> rewriteReturnsToCoercedType retAlloca coerced (nextId b) bs;
          Some (bs, coerced)
        })"

section \<open>Whole definitions\<close>

text \<open>The parameters of the new type and the \<^verbatim>\<open>byval\<close> attributes, pushed in one pass.\<close>

fun newParams ::
  "(coercion_info \<times> ll_type) list \<Rightarrow> ll_type list \<Rightarrow> (nat \<times> ll_type) list \<Rightarrow>
   (ll_type list \<times> (nat \<times> ll_type) list) option" where
  "newParams [] params byVals = Some (params, byVals)"
| "newParams ((ci, origTy) # rest) params byVals =
     (if isIdentity ci then newParams rest (params @ [origTy]) byVals
      else if useIndirect ci then
        newParams rest (params @ [LPtr 0])
          (if useByval ci then byVals @ [(length params, origTy)] else byVals)
      else if isTwoRegister ci then
        do {
          a \<leftarrow> coercedType ci;
          b \<leftarrow> coercedSecondType ci;
          newParams rest (params @ [a, b]) byVals
        }
      else
        do {
          a \<leftarrow> coercedType ci;
          newParams rest (params @ [a]) byVals
        })"

definition newReturnType :: "coercion_info \<Rightarrow> ll_type \<Rightarrow> ll_type option" where
  "newReturnType ri origRetType =
     (if useSRet ri then Some LVoid
      else if isTwoRegister ri then coercedReturnType ri
      else case coercedType ri of Some t \<Rightarrow> Some t | None \<Rightarrow> Some origRetType)"

definition rewriteBody ::
  "target_layout \<Rightarrow> ll_type list \<Rightarrow> signature_classification \<Rightarrow> llvm_func \<Rightarrow> vid \<Rightarrow> block list option" where
  "rewriteBody dl params cls f fresh =
     (case funcBlocks f of
        [] \<Rightarrow> Some []
      | entry # rest \<Rightarrow>
          do {
            let origArgs = blockArgs entry;
            (recon, b) \<leftarrow> reconstructCABIArguments dl params (sigArgs cls) (map snd origArgs) (sigRet cls)
                            \<lparr>nextId = fresh, newArgs = [], emitted = []\<rparr>;
            let entry = entry\<lparr>blockArgs := origArgs @ newArgs b, blockOps := emitted b @ blockOps entry\<rparr>;
            let bs = fold replaceAllUsesWith (zip (map fst origArgs) recon) (entry # rest);
            let bs = onEntry (\<lambda>e. e\<lparr>blockArgs := drop (length (paramTypes f)) (blockArgs e)\<rparr>) bs;
            if isIdentity (sigRet cls) then Some bs
            else map_option fst (applyCABIReturnCoercion dl (sigRet cls) (returnType f) (nextId b) bs)
          })"

definition setArgAttr :: "nat \<Rightarrow> arg_attr \<Rightarrow> llvm_func \<Rightarrow> llvm_func" where
  "setArgAttr i a f = f\<lparr>argAttrs := argAttrs f @ [(i, a)]\<rparr>"

definition rewriteDefinition ::
  "target_layout \<Rightarrow> signature_classification \<Rightarrow> vid \<Rightarrow> llvm_func \<Rightarrow> llvm_func option" where
  "rewriteDefinition dl cls fresh f =
     (if (\<forall>ci \<in> set (sigArgs cls). isIdentity ci) \<and> isIdentity (sigRet cls) then Some f
      else do {
        (params, byVals) \<leftarrow> newParams (zip (sigArgs cls) (paramTypes f))
                              (if useSRet (sigRet cls) then [LPtr 0] else []) [];
        ret \<leftarrow> newReturnType (sigRet cls) (returnType f);
        bs \<leftarrow> rewriteBody dl params cls f fresh;
        let g = f\<lparr>paramTypes := params, returnType := ret, funcBlocks := bs\<rparr>;
        let g = (if useSRet (sigRet cls) then setArgAttr 0 (StructRet (returnType f)) g else g);
        Some (fold (\<lambda>(i, t). setArgAttr i (ByVal t)) byVals g)
      })"

text \<open>\<^verbatim>\<open>SIZE_MAX\<close> fixed arguments: a definition's own parameters are never variadic.\<close>

definition SIZE_MAX :: nat where
  "SIZE_MAX = 2 ^ 64 - 1"

definition processCABIFunctionDefinition ::
  "upstream_abis \<Rightarrow> cabi \<Rightarrow> target_layout \<Rightarrow> vid \<Rightarrow> llvm_func \<Rightarrow> llvm_func option" where
  "processCABIFunctionDefinition up abi dl fresh f =
     do {
       cls \<leftarrow> computeSignatureInfo up abi dl (paramTypes f) (Some (returnType f)) SIZE_MAX;
       rewriteDefinition dl cls fresh f
     }"

section \<open>The emitted code in closed form\<close>

text \<open>The C parameters one original argument becomes.\<close>

definition abiParams :: "coercion_info \<Rightarrow> ll_type \<Rightarrow> ll_type list option" where
  "abiParams ci t =
     (if isIdentity ci then Some [t]
      else if useIndirect ci then Some [LPtr 0]
      else if isTwoRegister ci then
        (case (coercedType ci, coercedSecondType ci) of (Some a, Some b) \<Rightarrow> Some [a, b] | _ \<Rightarrow> None)
      else map_option (\<lambda>a. [a]) (coercedType ci))"

lemma newParams_Cons:
  "newParams ((ci, t) # rest) ps bv =
     (case abiParams ci t of
        None \<Rightarrow> None
      | Some ts \<Rightarrow> newParams rest (ps @ ts)
          (if \<not> isIdentity ci \<and> useIndirect ci \<and> useByval ci then bv @ [(length ps, t)] else bv))"
  by (auto simp: abiParams_def bind_eq_None_conv split: option.splits)

fun allParams :: "(coercion_info \<times> ll_type) list \<Rightarrow> ll_type list option" where
  "allParams [] = Some []"
| "allParams ((ci, t) # rest) =
     (case (abiParams ci t, allParams rest) of (Some ts, Some us) \<Rightarrow> Some (ts @ us) | _ \<Rightarrow> None)"

lemma newParams_allParams:
  "map_option fst (newParams zs ps bv) = map_option (\<lambda>us. ps @ us) (allParams zs)"
proof (induction zs arbitrary: ps bv)
  case (Cons z zs)
  obtain ci t where z: "z = (ci, t)" by force
  show ?case
    by (cases "abiParams ci t")
      (simp_all add: z newParams_Cons Cons.IH option.map_comp comp_def del: newParams.simps(2)
        split: option.split)
qed simp

text \<open>The instructions for one argument, its value, and the next fresh number.\<close>

definition argCode :: "target_layout \<Rightarrow> coercion_info \<Rightarrow> ll_type \<Rightarrow> ll_type list \<Rightarrow> vid \<Rightarrow> inst list \<times> vid \<times> vid" where
  "argCode dl ci t ts n =
     (let al = (\<lambda>u. max (the (getTypeABIAlign dl t)) (the (getTypeABIAlign dl u))) in
      if isIdentity ci then ([], n, n + 1)
      else if useIndirect ci then ([(Some (n + 1), LoadOp t n)], n + 1, n + 2)
      else if isTwoRegister ci then
        ([(Some (n + 2), ConstOneOp),
          (Some (n + 3), AllocaOp t (n + 2) (al (LStruct ts))),
          (Some (n + 4), UndefOp (LStruct ts)),
          (Some (n + 5), InsertValueOp (LStruct ts) (n + 4) n 0),
          (Some (n + 6), InsertValueOp (LStruct ts) (n + 5) (n + 1) 1),
          (None, StoreOp (n + 6) (n + 3)),
          (Some (n + 7), LoadOp t (n + 3))], n + 7, n + 8)
      else
        ([(Some (n + 1), ConstOneOp),
          (Some (n + 2), AllocaOp t (n + 1) (al (hd ts))),
          (None, StoreOp n (n + 2)),
          (Some (n + 3), LoadOp t (n + 2))], n + 3, n + 4))"

text \<open>The two alignment queries of a coerced argument succeed.\<close>

definition alloca_ok :: "target_layout \<Rightarrow> coercion_info \<Rightarrow> ll_type \<Rightarrow> bool" where
  "alloca_ok dl ci t \<longleftrightarrow>
     isIdentity ci \<or> useIndirect ci \<or>
     getTypeABIAlign dl t \<noteq> None \<and>
     (case abiParams ci t of
        None \<Rightarrow> False
      | Some ts \<Rightarrow> getTypeABIAlign dl (if isTwoRegister ci then LStruct ts else hd ts) \<noteq> None)"

lemma getParamType_append: "getParamType (ps @ t # us) (length ps) = Some t"
  by (simp add: getParamType_def)

lemma reconstructArgument_code:
  assumes "abiParams ci t = Some ts" and "alloca_ok dl ci t"
  shows "reconstructArgument dl (ps @ ts @ us) ci t (length ps) b =
    (case argCode dl ci t ts (nextId b) of
       (code, v, n) \<Rightarrow>
         Some (v, length ps + length ts,
           b\<lparr>nextId := n, newArgs := newArgs b @ zip [nextId b ..< nextId b + length ts] ts,
             emitted := emitted b @ code\<rparr>))"
proof -
  note defs = reconstructArgument_def argCode_def abiParams_def alloca_ok_def addArgument_def
    emitOp_def emitStore_def createEntryAlloca_def assertSome_def getParamType_append
  consider "isIdentity ci" | "\<not> isIdentity ci" "useIndirect ci"
    | "\<not> isIdentity ci" "\<not> useIndirect ci" "isTwoRegister ci"
    | "\<not> isIdentity ci" "\<not> useIndirect ci" "\<not> isTwoRegister ci" by blast
  then show ?thesis
  proof cases
    case 1
    with assms show ?thesis by (auto simp: defs)
  next
    case 2
    with assms show ?thesis by (auto simp: defs)
  next
    case 3
    with assms obtain x y where xy: "coercedType ci = Some x" "coercedSecondType ci = Some y" "ts = [x, y]"
      by (auto simp: abiParams_def split: option.splits)
    have second: "getParamType (ps @ x # y # us) (Suc (length ps)) = Some y"
      by (simp add: getParamType_def nth_append)
    from 3 assms xy obtain a1 a2 where
      "getTypeABIAlign dl t = Some a1" "getTypeABIAlign dl (LStruct [x, y]) = Some a2"
      by (auto simp: alloca_ok_def)
    with 3 xy show ?thesis by (simp add: defs second upt_conv_Cons Let_def eval_nat_numeral)
  next
    case 4
    with assms obtain x where x: "coercedType ci = Some x" "ts = [x]"
      by (auto simp: abiParams_def)
    from 4 assms x obtain a1 a2 where
      "getTypeABIAlign dl t = Some a1" "getTypeABIAlign dl x = Some a2"
      by (auto simp: alloca_ok_def)
    with 4 x show ?thesis by (simp add: defs Let_def eval_nat_numeral)
  qed
qed

text \<open>The same for a whole signature: code, values, block arguments and the next fresh number.\<close>

fun loopCode ::
  "target_layout \<Rightarrow> (coercion_info \<times> ll_type) list \<Rightarrow> vid \<Rightarrow>
   inst list \<times> vid list \<times> (vid \<times> ll_type) list \<times> vid" where
  "loopCode dl [] n = ([], [], [], n)"
| "loopCode dl ((ci, t) # rest) n =
     (let ts = the (abiParams ci t);
          (code, v, n1) = argCode dl ci t ts n;
          (codes, vs, args, n2) = loopCode dl rest n1
      in (code @ codes, v # vs, zip [n ..< n + length ts] ts @ args, n2))"

lemma reconstructLoop_code:
  assumes "allParams zs = Some us" and "\<And>ci t. (ci, t) \<in> set zs \<Longrightarrow> alloca_ok dl ci t"
  shows "reconstructLoop dl (ps @ us @ post) zs (length ps) b =
    (case loopCode dl zs (nextId b) of
       (code, vs, args, n) \<Rightarrow>
         Some (vs, length ps + length us,
           b\<lparr>nextId := n, newArgs := newArgs b @ args, emitted := emitted b @ code\<rparr>))"
  using assms
proof (induction zs arbitrary: us ps b)
  case (Cons z zs)
  obtain ci t where z: "z = (ci, t)" by force
  from Cons.prems z obtain ts us' where ts: "abiParams ci t = Some ts" "allParams zs = Some us'"
    and us: "us = ts @ us'" by (auto split: option.splits)
  obtain code v n where ac: "argCode dl ci t ts (nextId b) = (code, v, n)" by (metis prod_cases3)
  let ?b = "b\<lparr>nextId := n, newArgs := newArgs b @ zip [nextId b ..< nextId b + length ts] ts,
             emitted := emitted b @ code\<rparr>"
  have "reconstructArgument dl (ps @ ts @ us' @ post) ci t (length ps) b =
      Some (v, length ps + length ts, ?b)"
    using reconstructArgument_code [of ci t ts dl ps "us' @ post" b] Cons.prems ts ac z by auto
  moreover have "reconstructLoop dl ((ps @ ts) @ us' @ post) zs (length (ps @ ts)) ?b =
      (case loopCode dl zs n of
         (code', vs, args, n') \<Rightarrow>
           Some (vs, length (ps @ ts) + length us',
             ?b\<lparr>nextId := n', newArgs := newArgs ?b @ args, emitted := emitted ?b @ code'\<rparr>))"
    using Cons.IH [OF ts(2), of "ps @ ts" ?b] Cons.prems by auto
  ultimately show ?case
    by (simp add: z us ts ac split: prod.splits)
qed simp

lemma loopCode_arg_types:
  assumes "allParams zs = Some us" "loopCode dl zs n = (code, vs, args, n')"
  shows "map snd args = us" and "length vs = length zs"
  using assms
  by (induction zs arbitrary: us n code vs args) (auto split: option.splits prod.splits)

section \<open>What the emitted code computes\<close>

text \<open>
  Values are bytes, an undefined one being \<open>None\<close>, or pointers; memory is one region per stack
  allocation and one per caller-owned object.  An access past its region is stuck.
\<close>

type_synonym byte = "nat option"

datatype base = Local vid | Extern nat

datatype sval = VBytes "byte list" | VPtr base

record machine =
  regs :: "vid \<Rightarrow> sval option"
  heap :: "base \<Rightarrow> byte list option"

definition setReg :: "vid \<Rightarrow> sval \<Rightarrow> machine \<Rightarrow> machine" where
  "setReg r v s = s\<lparr>regs := (regs s)(r := Some v)\<rparr>"

definition setHeap :: "base \<Rightarrow> byte list \<Rightarrow> machine \<Rightarrow> machine" where
  "setHeap b bs s = s\<lparr>heap := (heap s)(b := Some bs)\<rparr>"

definition overlay :: "nat \<Rightarrow> byte list \<Rightarrow> byte list \<Rightarrow> byte list option" where
  "overlay off new old =
     (if off + length new \<le> length old
      then Some (take off old @ new @ drop (off + length new) old) else None)"

fun regBytes :: "machine \<Rightarrow> vid \<Rightarrow> byte list option" where
  "regBytes s v = (case regs s v of Some (VBytes bs) \<Rightarrow> Some bs | _ \<Rightarrow> None)"

fun regBase :: "machine \<Rightarrow> vid \<Rightarrow> base option" where
  "regBase s v = (case regs s v of Some (VPtr b) \<Rightarrow> Some b | _ \<Rightarrow> None)"

fun runOp :: "target_layout \<Rightarrow> inst \<Rightarrow> machine \<Rightarrow> machine option" where
  "runOp dl (Some r, ConstOneOp) s = Some (setReg r (VBytes [Some 1, Some 0, Some 0, Some 0]) s)"
| "runOp dl (Some r, AllocaOp t c a) s =
     do {
       n \<leftarrow> getTypeAllocSize dl t;
       Some (setReg r (VPtr (Local r)) (setHeap (Local r) (replicate n None) s))
     }"
| "runOp dl (Some r, LoadOp t p) s =
     do {
       b \<leftarrow> regBase s p;
       bs \<leftarrow> heap s b;
       n \<leftarrow> getTypeStoreSize dl t;
       if n \<le> length bs then Some (setReg r (VBytes (take n bs)) s) else None
     }"
| "runOp dl (None, StoreOp v p) s =
     do {
       b \<leftarrow> regBase s p;
       bs \<leftarrow> heap s b;
       new \<leftarrow> regBytes s v;
       bs \<leftarrow> overlay 0 new bs;
       Some (setHeap b bs s)
     }"
| "runOp dl (Some r, UndefOp t) s =
     do { n \<leftarrow> getTypeStoreSize dl t; Some (setReg r (VBytes (replicate n None)) s) }"
| "runOp dl (Some r, InsertValueOp (LStruct ts) a v i) s =
     do {
       os \<leftarrow> fieldOffsets dl ts 0;
       old \<leftarrow> regBytes s a;
       new \<leftarrow> regBytes s v;
       bs \<leftarrow> (if i < length os then overlay (os ! i) new old else None);
       Some (setReg r (VBytes bs) s)
     }"
| "runOp dl _ s = None"

fun runOps :: "target_layout \<Rightarrow> inst list \<Rightarrow> machine \<Rightarrow> machine option" where
  "runOps dl [] s = Some s"
| "runOps dl (i # is) s = do { s \<leftarrow> runOp dl i s; runOps dl is s }"

lemma runOps_append: "runOps dl (xs @ ys) s = do { s \<leftarrow> runOps dl xs s; runOps dl ys s }"
proof (induction xs arbitrary: s)
  case (Cons i xs)
  then show ?case by (cases "runOp dl i s") simp_all
qed simp

text \<open>Bytes stored at the start of a fresh allocation of a type and read back as that type.\<close>

definition reloaded :: "target_layout \<Rightarrow> ll_type \<Rightarrow> byte list \<Rightarrow> byte list option" where
  "reloaded dl t bs =
     do {
       n \<leftarrow> getTypeAllocSize dl t;
       mem \<leftarrow> overlay 0 bs (replicate n None);
       m \<leftarrow> getTypeStoreSize dl t;
       if m \<le> length mem then Some (take m mem) else None
     }"

definition packedPair :: "target_layout \<Rightarrow> ll_type list \<Rightarrow> byte list \<Rightarrow> byte list \<Rightarrow> byte list option" where
  "packedPair dl ts x y =
     do {
       n \<leftarrow> getTypeStoreSize dl (LStruct ts);
       os \<leftarrow> fieldOffsets dl ts 0;
       one \<leftarrow> (if 0 < length os then overlay (os ! 0) x (replicate n None) else None);
       (if 1 < length os then overlay (os ! 1) y one else None)
     }"

text \<open>
  The C values \<open>vs\<close> carry the original argument \<open>w\<close> under a coercion, with the caller's objects
  in \<open>h\<close>: the value itself, a pointer to a copy, or registers whose bytes are those of the argument.
\<close>

fun carriesIndirect :: "target_layout \<Rightarrow> (nat \<Rightarrow> byte list option) \<Rightarrow> ll_type \<Rightarrow> sval list \<Rightarrow> sval \<Rightarrow> bool" where
  "carriesIndirect dl h t [VPtr (Extern k)] w =
     (case (h k, getTypeStoreSize dl t) of
        (Some bs, Some n) \<Rightarrow> n \<le> length bs \<and> w = VBytes (take n bs) | _ \<Rightarrow> False)"
| "carriesIndirect dl h t _ w = False"

fun carriesPair :: "target_layout \<Rightarrow> ll_type list \<Rightarrow> ll_type \<Rightarrow> sval list \<Rightarrow> sval \<Rightarrow> bool" where
  "carriesPair dl ts t [VBytes x, VBytes y] (VBytes bs) \<longleftrightarrow>
     do { p \<leftarrow> packedPair dl ts x y; reloaded dl t p } = Some bs"
| "carriesPair dl ts t _ w = False"

fun carriesSingle :: "target_layout \<Rightarrow> ll_type \<Rightarrow> sval list \<Rightarrow> sval \<Rightarrow> bool" where
  "carriesSingle dl t [VBytes x] (VBytes bs) \<longleftrightarrow> reloaded dl t x = Some bs"
| "carriesSingle dl t _ w = False"

definition carries ::
  "target_layout \<Rightarrow> (nat \<Rightarrow> byte list option) \<Rightarrow> coercion_info \<Rightarrow> ll_type \<Rightarrow> sval list \<Rightarrow> sval \<Rightarrow> bool" where
  "carries dl h ci t vs w \<longleftrightarrow>
     (if isIdentity ci then vs = [w]
      else if useIndirect ci then carriesIndirect dl h t vs w
      else if isTwoRegister ci then carriesPair dl (the (abiParams ci t)) t vs w
      else carriesSingle dl t vs w)"

text \<open>Code that touches only the registers of an interval and none of the caller's objects.\<close>

definition confined :: "vid \<Rightarrow> vid \<Rightarrow> machine \<Rightarrow> machine \<Rightarrow> bool" where
  "confined lo hi s s' \<longleftrightarrow>
     (\<forall>r. r < lo \<or> hi \<le> r \<longrightarrow> regs s' r = regs s r) \<and> (\<forall>k. heap s' (Extern k) = heap s (Extern k))"

lemma confined_trans: "confined a b s s' \<Longrightarrow> confined b c s' s'' \<Longrightarrow> a \<le> b \<Longrightarrow> b \<le> c \<Longrightarrow> confined a c s s''"
  by (auto simp: confined_def)

lemma argCode_range: "argCode dl ci t ts n = (code, v, n') \<Longrightarrow> n \<le> v \<and> v < n'"
  by (auto simp: argCode_def Let_def split: if_splits)

lemma argCode_length:
  "argCode dl ci t ts n = (code, v, n') \<Longrightarrow> abiParams ci t = Some ts \<Longrightarrow> n + length ts \<le> n'"
  by (auto simp: argCode_def abiParams_def Let_def split: if_splits option.splits)

lemma carries_length: "carries dl h ci t vs w \<Longrightarrow> abiParams ci t = Some ts \<Longrightarrow> length vs = length ts"
  by (auto simp: carries_def abiParams_def split: if_splits option.splits
      elim!: carriesIndirect.elims carriesPair.elims carriesSingle.elims)

lemma pairCode_runs:
  assumes "packedPair dl ts x y = Some p" "reloaded dl t p = Some bs"
    and "regs s n = Some (VBytes x)" "regs s (n + 1) = Some (VBytes y)"
  shows "\<exists>s'. runOps dl
        [(Some (n + 2), ConstOneOp),
         (Some (n + 3), AllocaOp t (n + 2) al),
         (Some (n + 4), UndefOp (LStruct ts)),
         (Some (n + 5), InsertValueOp (LStruct ts) (n + 4) n 0),
         (Some (n + 6), InsertValueOp (LStruct ts) (n + 5) (n + 1) 1),
         (None, StoreOp (n + 6) (n + 3)),
         (Some (n + 7), LoadOp t (n + 3))] s = Some s' \<and>
      regs s' (n + 7) = Some (VBytes bs) \<and> confined n (n + 8) s s'"
proof -
  from assms(1) obtain m os one where
    "getTypeStoreSize dl (LStruct ts) = Some m" "fieldOffsets dl ts 0 = Some os" "1 < length os"
    "overlay (os ! 0) x (replicate m None) = Some one" "overlay (os ! 1) y one = Some p"
    by (auto simp: packedPair_def bind_eq_Some_conv split: if_splits)
  moreover from assms(2) obtain a mem k where
    "getTypeAllocSize dl t = Some a" "overlay 0 p (replicate a None) = Some mem"
    "getTypeStoreSize dl t = Some k" "k \<le> length mem" "bs = take k mem"
    by (auto simp: reloaded_def bind_eq_Some_conv split: if_splits)
  ultimately show ?thesis
    using assms(3,4) by (auto simp: setReg_def setHeap_def confined_def)
qed

lemma singleCode_runs:
  assumes "reloaded dl t x = Some bs" and "regs s n = Some (VBytes x)"
  shows "\<exists>s'. runOps dl
        [(Some (n + 1), ConstOneOp),
         (Some (n + 2), AllocaOp t (n + 1) al),
         (None, StoreOp n (n + 2)),
         (Some (n + 3), LoadOp t (n + 2))] s = Some s' \<and>
      regs s' (n + 3) = Some (VBytes bs) \<and> confined n (n + 4) s s'"
proof -
  from assms(1) obtain a mem k where
    "getTypeAllocSize dl t = Some a" "overlay 0 x (replicate a None) = Some mem"
    "getTypeStoreSize dl t = Some k" "k \<le> length mem" "bs = take k mem"
    by (auto simp: reloaded_def bind_eq_Some_conv split: if_splits)
  then show ?thesis
    using assms(2) by (auto simp: setReg_def setHeap_def confined_def)
qed

lemma argCode_runs:
  assumes ts: "abiParams ci t = Some ts" and c: "carries dl h ci t vals w"
    and r: "\<And>i. i < length ts \<Longrightarrow> regs s (n + i) = Some (vals ! i)"
    and h: "\<And>k. heap s (Extern k) = h k"
    and code: "argCode dl ci t ts n = (code, v, n')"
  shows "\<exists>s'. runOps dl code s = Some s' \<and> regs s' v = Some w \<and> confined n n' s s'"
proof -
  consider (identity) "isIdentity ci" | (indirect) "\<not> isIdentity ci" "useIndirect ci"
    | (two) "\<not> isIdentity ci" "\<not> useIndirect ci" "isTwoRegister ci"
    | (single) "\<not> isIdentity ci" "\<not> useIndirect ci" "\<not> isTwoRegister ci" by blast
  then show ?thesis
  proof cases
    case identity
    with assms r [of 0] show ?thesis by (auto simp: argCode_def carries_def abiParams_def confined_def)
  next
    case indirect
    from c indirect obtain k bs m where "vals = [VPtr (Extern k)]" "h k = Some bs"
      "getTypeStoreSize dl t = Some m" "m \<le> length bs" "w = VBytes (take m bs)"
      by (auto simp: carries_def split: option.splits elim!: carriesIndirect.elims)
    with indirect ts r [of 0] h code show ?thesis
      by (auto simp: argCode_def abiParams_def setReg_def confined_def)
  next
    case two
    from c two ts obtain x y p bs where v: "vals = [VBytes x, VBytes y]" "w = VBytes bs"
      and p: "packedPair dl ts x y = Some p" "reloaded dl t p = Some bs"
      by (auto simp: carries_def bind_eq_Some_conv elim!: carriesPair.elims)
    have len: "length ts = 2"
      using carries_length [OF c ts] v by simp
    have "regs s n = Some (VBytes x)" "regs s (n + 1) = Some (VBytes y)"
      using r [of 0] r [of 1] v len by simp_all
    from pairCode_runs [OF p this] show ?thesis
      using two code v by (auto simp: argCode_def Let_def)
  next
    case single
    from c single obtain x bs where v: "vals = [VBytes x]" "w = VBytes bs"
      and p: "reloaded dl t x = Some bs"
      by (auto simp: carries_def elim!: carriesSingle.elims)
    have "regs s n = Some (VBytes x)"
      using r [of 0] carries_length [OF c ts] v by (cases ts) simp_all
    from singleCode_runs [OF p this] show ?thesis
      using single code v by (auto simp: argCode_def Let_def)
  qed
qed

fun carriesAll ::
  "target_layout \<Rightarrow> (nat \<Rightarrow> byte list option) \<Rightarrow> (coercion_info \<times> ll_type) list \<Rightarrow> sval list list \<Rightarrow>
   sval list \<Rightarrow> bool" where
  "carriesAll dl h [] [] [] = True"
| "carriesAll dl h ((ci, t) # zs) (vals # valss) (w # ws) =
     (carries dl h ci t vals w \<and> carriesAll dl h zs valss ws)"
| "carriesAll dl h _ _ _ = False"

lemma loopCode_range:
  assumes "allParams zs = Some us" "loopCode dl zs n = (code, vs, args, n')"
  shows "n \<le> n'" and "\<And>v. v \<in> set vs \<Longrightarrow> n \<le> v \<and> v < n'" and "\<And>a. a \<in> set args \<Longrightarrow> n \<le> fst a \<and> fst a < n'"
proof -
  have "n \<le> n' \<and> (\<forall>v \<in> set vs. n \<le> v \<and> v < n') \<and> (\<forall>a \<in> set args. n \<le> fst a \<and> fst a < n')"
    using assms
  proof (induction zs arbitrary: us n code vs args)
    case (Cons z zs)
    obtain ci t where z: "z = (ci, t)" by force
    with Cons.prems obtain ts us' where ts: "abiParams ci t = Some ts" "allParams zs = Some us'"
      by (auto split: option.splits)
    obtain c v m where ac: "argCode dl ci t ts n = (c, v, m)" by (metis prod_cases3)
    obtain cs vs' args' where lc: "loopCode dl zs m = (cs, vs', args', n')"
      and eq: "vs = v # vs'" "args = zip [n ..< n + length ts] ts @ args'"
      using Cons.prems(2) ts ac z by (auto split: prod.splits)
    have "\<And>a. a \<in> set (zip [n ..< n + length ts] ts) \<Longrightarrow> n \<le> fst a \<and> fst a < n + length ts"
      by (auto dest: set_zip_leftD)
    with Cons.IH [OF ts(2) lc] argCode_range [OF ac] argCode_length [OF ac ts(1)] show ?case
      by (fastforce simp: eq)
  qed auto
  then show "n \<le> n'" "\<And>v. v \<in> set vs \<Longrightarrow> n \<le> v \<and> v < n'"
    "\<And>a. a \<in> set args \<Longrightarrow> n \<le> fst a \<and> fst a < n'" by auto
qed

lemma loopCode_runs:
  assumes "allParams zs = Some us" "carriesAll dl h zs valss ws" "loopCode dl zs n = (code, vs, args, n')"
    and "list_all2 (\<lambda>a v. regs s (fst a) = Some v) args (concat valss)"
    and "\<And>k. heap s (Extern k) = h k"
  shows "\<exists>s'. runOps dl code s = Some s' \<and> list_all2 (\<lambda>v w. regs s' v = Some w) vs ws \<and>
    confined n n' s s'"
  using assms
proof (induction zs arbitrary: us valss ws n code vs args s)
  case Nil
  then show ?case by (cases valss; cases ws) (auto simp: confined_def)
next
  case (Cons z zs)
  obtain ci t where z: "z = (ci, t)" by force
  with Cons.prems obtain ts us' where ts: "abiParams ci t = Some ts" "allParams zs = Some us'"
    by (auto split: option.splits)
  from Cons.prems(2) z obtain vals valss' w ws' where vw: "valss = vals # valss'" "ws = w # ws'"
    and c: "carries dl h ci t vals w" and cs: "carriesAll dl h zs valss' ws'"
    by (cases valss; cases ws) auto
  obtain code1 v m where ac: "argCode dl ci t ts n = (code1, v, m)" by (metis prod_cases3)
  obtain code2 vs' args' where lc: "loopCode dl zs m = (code2, vs', args', n')"
    and eq: "vs = v # vs'" "args = zip [n ..< n + length ts] ts @ args'" "code = code1 @ code2"
    using Cons.prems(3) ts ac z by (auto split: prod.splits)
  have len: "length vals = length ts" using carries_length [OF c ts(1)] .
  from Cons.prems(4) len
  have here: "list_all2 (\<lambda>a v. regs s (fst a) = Some v) (zip [n ..< n + length ts] ts) vals"
    and later: "list_all2 (\<lambda>a v. regs s (fst a) = Some v) args' (concat valss')"
    by (simp_all add: eq vw list_all2_append)
  have "regs s (n + i) = Some (vals ! i)" if "i < length ts" for i
    using list_all2_nthD [OF here, of i] that by simp
  from argCode_runs [OF ts(1) c this Cons.prems(5) ac] obtain s1 where
    s1: "runOps dl code1 s = Some s1" "regs s1 v = Some w" "confined n m s s1" by blast
  have "list_all2 (\<lambda>a v. regs s1 (fst a) = Some v) args' (concat valss')"
    using later loopCode_range(3) [OF ts(2) lc] s1(3)
    by (auto simp: confined_def list_all2_conv_all_nth)
  moreover have "heap s1 (Extern k) = h k" for k
    using s1(3) Cons.prems(5) by (simp add: confined_def)
  ultimately obtain s2 where s2: "runOps dl code2 s1 = Some s2"
    "list_all2 (\<lambda>v w. regs s2 v = Some w) vs' ws'" "confined m n' s1 s2"
    using Cons.IH [OF ts(2) cs lc] by blast
  have "regs s2 v = Some w"
    using s1(2) s2(3) argCode_range [OF ac] by (simp add: confined_def)
  moreover have "confined n n' s s2"
    using confined_trans [OF s1(3) s2(3)] argCode_range [OF ac] loopCode_range(1) [OF ts(2) lc] by simp
  ultimately show ?case
    using s1(1) s2 by (auto simp: eq vw runOps_append)
qed

section \<open>Rewriting a definition never fails on well-formed input\<close>

fun hasOperand :: "ll_op \<Rightarrow> bool" where
  "hasOperand (ReturnOp []) = False"
| "hasOperand _ = True"

definition returnsValue :: "block list \<Rightarrow> bool" where
  "returnsValue bs \<longleftrightarrow> list_all (\<lambda>b. list_all (\<lambda>i. hasOperand (snd i)) (blockOps b)) bs"

text \<open>
  What the MLIR verifier guarantees of a function: the entry block has the arguments of the type,
  and a function with a result returns one everywhere.
\<close>

definition wf_func :: "llvm_func \<Rightarrow> bool" where
  "wf_func f \<longleftrightarrow>
     list_all sized (paramTypes f) \<and>
     (returnType f = LVoid \<or> sized (returnType f) \<and> returnsValue (funcBlocks f)) \<and>
     (case funcBlocks f of [] \<Rightarrow> True | e # _ \<Rightarrow> map snd (blockArgs e) = paramTypes f)"

lemma hasOperand_subst: "hasOperand (substOp x y op) = hasOperand op"
  by (cases op rule: hasOperand.cases) simp_all

lemma returnsValue_subst: "returnsValue (replaceAllUsesWith p bs) = returnsValue bs"
  by (simp add: returnsValue_def replaceAllUsesWith_def list_all_iff hasOperand_subst split_beta)

lemma returnsValue_substs: "returnsValue (fold replaceAllUsesWith ps bs) = returnsValue bs"
  by (induction ps arbitrary: bs) (simp_all add: returnsValue_subst)

lemma subst_entry_args:
  "map blockArgs (fold replaceAllUsesWith ps bs) = map blockArgs bs"
  by (induction ps arbitrary: bs) (simp_all add: replaceAllUsesWith_def)

lemma coerceReturns_total: "\<exists>r. coerceReturns ra t n ops = Some r"
  by (induction ra t n ops rule: coerceReturns.induct) (auto split: list.splits)

lemma rewriteReturns_total:
  "\<exists>bs' n'. rewriteReturnsToCoercedType ra t n bs = Some (bs', n') \<and> map blockArgs bs' = map blockArgs bs"
proof (induction bs arbitrary: n)
  case (Cons b bs)
  obtain ops n1 where "coerceReturns ra t n (blockOps b) = Some (ops, n1)"
    using coerceReturns_total [of ra t n "blockOps b"] by auto
  moreover obtain bs' n' where "rewriteReturnsToCoercedType ra t n1 bs = Some (bs', n')"
    "map blockArgs bs' = map blockArgs bs" using Cons.IH by blast
  ultimately show ?case by simp
qed simp

lemma sretReturns_total:
  "list_all (\<lambda>i. hasOperand (snd i)) ops \<Longrightarrow> \<exists>r. sretReturns p ops = Some r"
  by (induction p ops rule: sretReturns.induct) (auto split: list.splits)

lemma sretBlocks_total:
  "returnsValue bs \<Longrightarrow> \<exists>bs'. sretBlocks p bs = Some bs' \<and> map blockArgs bs' = map blockArgs bs"
proof (induction bs)
  case (Cons b bs)
  then obtain ops where "sretReturns p (blockOps b) = Some ops"
    using sretReturns_total [of "blockOps b" p] by (auto simp: returnsValue_def)
  moreover obtain bs' where "sretBlocks p bs = Some bs'" "map blockArgs bs' = map blockArgs bs"
    using Cons by (auto simp: returnsValue_def)
  ultimately show ?case by simp
qed simp

lemma argCode_no_return:
  "argCode dl ci t ts n = (code, v, n') \<Longrightarrow> list_all (\<lambda>i. hasOperand (snd i)) code"
  by (auto simp: argCode_def Let_def split: if_splits)

lemma loopCode_no_return:
  "loopCode dl zs n = (code, vs, args, n') \<Longrightarrow> list_all (\<lambda>i. hasOperand (snd i)) code"
proof (induction zs arbitrary: n code vs args)
  case (Cons z zs)
  then show ?case
    by (cases z) (auto simp: Let_def dest: argCode_no_return split: prod.splits)
qed simp

text \<open>The return coercion can be applied, and what it does to the entry block's arguments.\<close>

definition return_ok :: "target_layout \<Rightarrow> coercion_info \<Rightarrow> ll_type \<Rightarrow> bool" where
  "return_ok dl ri t \<longleftrightarrow>
     isIdentity ri \<or> useSRet ri \<or>
     (case coercedReturnType ri of
        None \<Rightarrow> False
      | Some c \<Rightarrow> getTypeABIAlign dl t \<noteq> None \<and> getTypeABIAlign dl c \<noteq> None)"

lemma onEntry_args: "map blockArgs (onEntry (\<lambda>e. e\<lparr>blockOps := f e\<rparr>) bs) = map blockArgs bs"
  by (cases bs) simp_all

lemma applyReturn_total:
  assumes "return_ok dl ri t" "\<not> isIdentity ri" "useSRet ri \<longrightarrow> returnsValue (e # bs)"
  shows "\<exists>e' bs' r. applyCABIReturnCoercion dl ri t fresh (e # bs) = Some (e' # bs', r) \<and>
    map snd (blockArgs e') = (if useSRet ri then [LPtr 0] else []) @ map snd (blockArgs e)"
proof (cases "useSRet ri")
  case True
  let ?e = "e\<lparr>blockArgs := (fresh, LPtr 0) # blockArgs e\<rparr>"
  have "returnsValue (?e # bs)" using assms(3) True by (simp add: returnsValue_def)
  from sretBlocks_total [OF this, of fresh] obtain bs' where
    "sretBlocks fresh (?e # bs) = Some bs'" "map blockArgs bs' = map blockArgs (?e # bs)" by blast
  with True show ?thesis by (cases bs') (auto simp: applyCABIReturnCoercion_def simp del: sretBlocks.simps)
next
  case False
  with assms obtain c a1 a2 where c: "coercedReturnType ri = Some c"
    "getTypeABIAlign dl t = Some a1" "getTypeABIAlign dl c = Some a2"
    by (auto simp: return_ok_def split: option.splits)
  obtain ra b where al: "createEntryAlloca dl \<lparr>nextId = fresh, newArgs = [], emitted = []\<rparr> t c = Some (ra, b)"
    using c by (auto simp: createEntryAlloca_def emitOp_def)
  let ?e = "e\<lparr>blockOps := emitted b @ blockOps e\<rparr>"
  obtain bs' n' where "rewriteReturnsToCoercedType ra c (nextId b) (?e # bs) = Some (bs', n')"
    "map blockArgs bs' = map blockArgs (?e # bs)"
    using rewriteReturns_total [of ra c "nextId b" "?e # bs"] by blast
  with False c al show ?thesis
    by (cases bs') (auto simp: applyCABIReturnCoercion_def simp del: rewriteReturnsToCoercedType.simps)
qed

lemma rewriteBody_total:
  assumes us: "allParams (zip (sigArgs cls) (paramTypes f)) = Some us"
    and ok: "\<And>ci t. (ci, t) \<in> set (zip (sigArgs cls) (paramTypes f)) \<Longrightarrow> alloca_ok dl ci t"
    and ret: "return_ok dl (sigRet cls) (returnType f)"
    and rv: "useSRet (sigRet cls) \<longrightarrow> returnsValue (funcBlocks f)"
    and idt: "isIdentity (sigRet cls) \<longrightarrow> \<not> useSRet (sigRet cls)"
    and entry: "funcBlocks f = e # rest" "map snd (blockArgs e) = paramTypes f"
  defines "ps \<equiv> (if useSRet (sigRet cls) then [LPtr 0] else [])"
  shows "\<exists>e' bs'. rewriteBody dl (ps @ us) cls f fresh = Some (e' # bs') \<and>
    map snd (blockArgs e') = ps @ us"
proof -
  let ?b = "\<lparr>nextId = fresh, newArgs = [], emitted = []\<rparr>"
  obtain code vs args n where lc: "loopCode dl (zip (sigArgs cls) (paramTypes f)) fresh = (code, vs, args, n)"
    by (metis prod_cases4)
  let ?b' = "\<lparr>nextId = n, newArgs = args, emitted = code\<rparr>"
  have "(if useSRet (sigRet cls) then 1 else 0) = length ps" by (simp add: ps_def)
  then have recon: "reconstructCABIArguments dl (ps @ us) (sigArgs cls) (paramTypes f) (sigRet cls) ?b =
      Some (vs, ?b')"
    using reconstructLoop_code [OF us ok, of ps "[]" ?b]
    by (simp add: reconstructCABIArguments_def lc)
  let ?e = "e\<lparr>blockArgs := blockArgs e @ args, blockOps := code @ blockOps e\<rparr>"
  let ?bs = "fold replaceAllUsesWith (zip (map fst (blockArgs e)) vs) (?e # rest)"
  obtain e1 rest1 where bs: "?bs = e1 # rest1" and e1: "blockArgs e1 = blockArgs e @ args"
    using subst_entry_args [of "zip (map fst (blockArgs e)) vs" "?e # rest"] by (cases ?bs) auto
  let ?e2 = "e1\<lparr>blockArgs := drop (length (paramTypes f)) (blockArgs e1)\<rparr>"
  have types: "map snd (blockArgs ?e2) = us"
    using loopCode_arg_types(1) [OF us lc] by (simp add: e1 entry(2) [symmetric])
  have "returnsValue (e # rest) \<Longrightarrow> returnsValue (?e # rest)"
    using loopCode_no_return [OF lc] by (simp add: returnsValue_def)
  then have "returnsValue (e # rest) \<Longrightarrow> returnsValue (e1 # rest1)"
    using returnsValue_substs [of "zip (map fst (blockArgs e)) vs" "?e # rest"] by (simp only: bs)
  then have rv': "useSRet (sigRet cls) \<longrightarrow> returnsValue (?e2 # rest1)"
    using rv entry(1) by (simp add: returnsValue_def)
  show ?thesis
  proof (cases "isIdentity (sigRet cls)")
    case True
    then show ?thesis
      using types idt bs recon by (simp add: rewriteBody_def entry ps_def Let_def)
  next
    case False
    from applyReturn_total [OF ret False rv', of n] obtain e' bs' r where
      "applyCABIReturnCoercion dl (sigRet cls) (returnType f) n (?e2 # rest1) = Some (e' # bs', r)"
      "map snd (blockArgs e') = ps @ map snd (blockArgs ?e2)" by (auto simp only: ps_def)
    with False types bs show ?thesis by (simp add: rewriteBody_def entry recon)
  qed
qed

section \<open>Win64 definitions\<close>

definition win64_class :: "target_layout \<Rightarrow> bool \<Rightarrow> ll_type \<Rightarrow> coercion_info" where
  "win64_class dl ret t =
     (case t of
        LStruct ts \<Rightarrow> microsoft_rule (the (getTypeStoreSize dl t)) ret
      | LArr _ _ \<Rightarrow> if ret then defaultCoercion else indirectArgument False
      | _ \<Rightarrow> defaultCoercion)"

lemma win64_spec_sized: "sized t \<or> t = LVoid \<Longrightarrow> win64_spec dl ret t = Some (win64_class dl ret t)"
  using sized_size_total(1) [of t dl]
  by (cases t) (auto simp: win64_spec_def win64_class_def getTypeStoreSize_def)

lemma classify_all_total:
  "(\<And>t. t \<in> set ts \<Longrightarrow> f t = Some (g t)) \<Longrightarrow> classify_all f ts = Some (map g ts)"
  by (induction ts) simp_all

lemma win64_signature_total:
  assumes "list_all sized ts" "sized r \<or> r = LVoid"
  shows "computeSignatureInfo up Win64CABI dl ts (Some r) n =
    Some \<lparr>sigArgs = map (win64_class dl False) ts, sigRet = win64_class dl True r\<rparr>"
proof -
  have "classifyArgs (win64ClassifyArgument dl) n 0 ts = classify_all (win64_spec dl False) ts"
    by (rule classifyArgs_pointwise) (rule win64_argument_spec)
  also have "\<dots> = Some (map (win64_class dl False) ts)"
    using assms(1) by (intro classify_all_total win64_spec_sized) (simp add: list_all_iff)
  finally show ?thesis
    using assms(2)
    by (simp add: computeSignatureInfo_def baseSignatureInfo_def win64_return_spec win64_spec_sized)
qed

text \<open>The C type of a parameter and of a result on Win64.\<close>

definition in_register :: "target_layout \<Rightarrow> ll_type \<Rightarrow> bool" where
  "in_register dl t \<longleftrightarrow> getTypeStoreSize dl t \<in> {Some 1, Some 2, Some 4, Some 8}"

definition register_int :: "target_layout \<Rightarrow> ll_type \<Rightarrow> ll_type" where
  "register_int dl t = LInt (8 * the (getTypeStoreSize dl t))"

definition win64Param :: "target_layout \<Rightarrow> ll_type \<Rightarrow> ll_type" where
  "win64Param dl t =
     (if isArrayType t then LPtr 0
      else if \<not> isStructType t then t
      else if in_register dl t then register_int dl t else LPtr 0)"

definition win64Return :: "target_layout \<Rightarrow> ll_type \<Rightarrow> ll_type" where
  "win64Return dl t =
     (if \<not> isStructType t then t
      else if in_register dl t then register_int dl t else LVoid)"

definition win64SRet :: "target_layout \<Rightarrow> ll_type \<Rightarrow> bool" where
  "win64SRet dl t \<longleftrightarrow> isStructType t \<and> \<not> in_register dl t"

lemmas coercions = defaultCoercion_def indirectArgument_def sretReturn_def isIdentity_def
  isTwoRegister_def microsoft_rule_def

lemma win64_class_cases:
  assumes "sized t \<or> t = LVoid"
  shows "win64_class dl ret t =
    (if isStructType t then
       if in_register dl t then defaultCoercion\<lparr>argClass := ClsInteger, coercedType := Some (register_int dl t)\<rparr>
       else if ret then sretReturn else indirectArgument False
     else if isArrayType t \<and> \<not> ret then indirectArgument False
     else defaultCoercion)"
proof (cases t)
  case (LStruct ts)
  with assms obtain n where "getTypeStoreSize dl t = Some n" using sized_store [of t dl] by auto
  with LStruct show ?thesis
    by (simp add: win64_class_def microsoft_rule_def in_register_def register_int_def)
qed (simp_all add: win64_class_def)

lemma align_register_int: "getTypeABIAlign dl (register_int dl t) \<noteq> None"
  by (simp add: getTypeABIAlign_def register_int_def)

lemma isStruct_not_array: "isStructType t \<Longrightarrow> \<not> isArrayType t"
  by (cases t) simp_all

lemma win64_class_params:
  assumes "sized t"
  shows "abiParams (win64_class dl False t) t = Some [win64Param dl t]"
    and "\<not> useByval (win64_class dl False t)"
    and "alloca_ok dl (win64_class dl False t) t"
    and "isIdentity (win64_class dl False t) \<Longrightarrow> win64Param dl t = t"
proof -
  note defs = win64_class_cases [OF disjI1 [OF assms]] abiParams_def win64Param_def coercions
  show "abiParams (win64_class dl False t) t = Some [win64Param dl t]"
    using isStruct_not_array by (simp add: defs)
  show "\<not> useByval (win64_class dl False t)" by (simp add: defs)
  show "alloca_ok dl (win64_class dl False t) t"
    using sized_align [OF assms, of dl] align_register_int by (simp add: alloca_ok_def defs)
  show "win64Param dl t = t" if "isIdentity (win64_class dl False t)"
    using that by (simp add: defs split: if_splits)
qed

lemma win64_class_return:
  assumes "sized t \<or> t = LVoid"
  shows "newReturnType (win64_class dl True t) t = Some (win64Return dl t)"
    and "useSRet (win64_class dl True t) \<longleftrightarrow> win64SRet dl t"
    and "isIdentity (win64_class dl True t) \<longrightarrow> \<not> useSRet (win64_class dl True t)"
    and "return_ok dl (win64_class dl True t) t"
    and "isIdentity (win64_class dl True t) \<Longrightarrow> win64Return dl t = t"
proof -
  note defs = win64_class_cases [OF assms] newReturnType_def win64Return_def win64SRet_def coercions
  show "newReturnType (win64_class dl True t) t = Some (win64Return dl t)" by (simp add: defs)
  show "useSRet (win64_class dl True t) \<longleftrightarrow> win64SRet dl t" by (simp add: defs)
  show "isIdentity (win64_class dl True t) \<longrightarrow> \<not> useSRet (win64_class dl True t)" by (simp add: defs)
  have "isStructType t \<Longrightarrow> getTypeABIAlign dl t \<noteq> None"
    using assms sized_align [of t dl] by auto
  then show "return_ok dl (win64_class dl True t) t"
    using align_register_int by (simp add: return_ok_def coercedReturnType_def defs)
  show "win64Return dl t = t" if "isIdentity (win64_class dl True t)"
    using that by (simp add: defs split: if_splits)
qed

lemma allParams_map:
  "(\<And>t. t \<in> set ts \<Longrightarrow> abiParams (f t) t = Some [g t]) \<Longrightarrow> allParams (zip (map f ts) ts) = Some (map g ts)"
  by (induction ts) simp_all

lemma newParams_no_byval:
  "newParams zs ps bv = Some (ps', bv') \<Longrightarrow> (\<And>z. z \<in> set zs \<Longrightarrow> \<not> useByval (fst z)) \<Longrightarrow> bv' = bv"
proof (induction zs arbitrary: ps)
  case (Cons z zs)
  obtain ci t where z: "z = (ci, t)" by force
  from Cons.prems(2) z have nb: "\<not> useByval ci" by force
  from Cons.prems(1) obtain ts where "newParams zs (ps @ ts) bv = Some (ps', bv')"
    by (auto simp: z newParams_Cons nb simp del: newParams.simps(2) split: option.splits)
  with Cons show ?case by auto
qed simp

lemma win64_zip:
  assumes "list_all sized ts" "(ci, t) \<in> set (zip (map (win64_class dl False) ts) ts)"
  shows "ci = win64_class dl False t \<and> sized t"
  using assms by (auto simp: zip_map1 set_zip list_all_iff)

lemma win64_allParams:
  "list_all sized ts \<Longrightarrow>
   allParams (zip (map (win64_class dl False) ts) ts) = Some (map (win64Param dl) ts)"
  by (rule allParams_map) (simp add: win64_class_params list_all_iff)

lemma win64_newParams:
  assumes "list_all sized ts"
  shows "newParams (zip (map (win64_class dl False) ts) ts) ps [] = Some (ps @ map (win64Param dl) ts, [])"
proof -
  let ?zs = "zip (map (win64_class dl False) ts) ts"
  from newParams_allParams [of ?zs ps "[]"] win64_allParams [OF assms] obtain bv where
    "newParams ?zs ps [] = Some (ps @ map (win64Param dl) ts, bv)" by auto
  moreover have "\<And>z. z \<in> set ?zs \<Longrightarrow> \<not> useByval (fst z)"
    using win64_zip [OF assms] win64_class_params(2) by (metis prod.collapse)
  ultimately show ?thesis using newParams_no_byval by blast
qed

lemma win64_rewriteBody:
  fixes dl :: target_layout
  assumes wf: "wf_func f"
  defines "cls \<equiv> \<lparr>sigArgs = map (win64_class dl False) (paramTypes f), sigRet = win64_class dl True (returnType f)\<rparr>"
    and "ps \<equiv> (if win64SRet dl (returnType f) then [LPtr 0] else []) @ map (win64Param dl) (paramTypes f)"
  shows "\<exists>bs. rewriteBody dl ps cls f fresh = Some bs \<and>
    (bs = [] \<and> funcBlocks f = [] \<or> map snd (blockArgs (hd bs)) = ps)"
proof (cases "funcBlocks f")
  case Nil
  then show ?thesis by (simp add: rewriteBody_def)
next
  case (Cons e rest)
  have sz: "list_all sized (paramTypes f)" and r: "sized (returnType f) \<or> returnType f = LVoid"
    using wf by (auto simp: wf_func_def)
  note ret = win64_class_return [OF r, of dl]
  have "\<exists>e' bs'. rewriteBody dl
        ((if useSRet (sigRet cls) then [LPtr 0] else []) @ map (win64Param dl) (paramTypes f)) cls f fresh =
        Some (e' # bs') \<and>
      map snd (blockArgs e') =
        (if useSRet (sigRet cls) then [LPtr 0] else []) @ map (win64Param dl) (paramTypes f)"
  proof (rule rewriteBody_total)
    show "map snd (blockArgs e) = paramTypes f" using wf Cons by (simp add: wf_func_def)
    show "useSRet (sigRet cls) \<longrightarrow> returnsValue (funcBlocks f)"
      using wf ret(2) by (auto simp: wf_func_def win64SRet_def cls_def)
    show "alloca_ok dl ci t" if "(ci, t) \<in> set (zip (sigArgs cls) (paramTypes f))" for ci t
      using that win64_zip [OF sz, of ci t dl] win64_class_params(3) [of t dl] by (simp add: cls_def)
  qed (use win64_allParams [OF sz] Cons ret in \<open>simp_all add: cls_def\<close>)
  then show ?thesis using ret(2) by (auto simp: ps_def cls_def)
qed

text \<open>
  C5. On Win64 the rewrite of a well-formed definition always succeeds: no assertion fails, no
  parameter index is out of range and no size query is refused.  The new type has one parameter per
  original one, preceded by the hidden result pointer exactly when the result is a struct that does
  not travel in a register, the entry block has the parameters of the new type, and no
  \<^verbatim>\<open>byval\<close> attribute is set.
\<close>
theorem win64_rewrite_total:
  assumes wf: "wf_func f"
  shows "\<exists>g. processCABIFunctionDefinition up Win64CABI dl fresh f = Some g \<and>
    paramTypes g = (if win64SRet dl (returnType f) then [LPtr 0] else []) @ map (win64Param dl) (paramTypes f) \<and>
    returnType g = win64Return dl (returnType f) \<and>
    isVarArg g = isVarArg f \<and>
    argAttrs g = argAttrs f @ (if win64SRet dl (returnType f) then [(0, StructRet (returnType f))] else []) \<and>
    (funcBlocks g = [] \<and> funcBlocks f = [] \<or>
     map snd (blockArgs (hd (funcBlocks g))) = paramTypes g)"
proof -
  let ?ts = "paramTypes f" and ?r = "returnType f"
  have sz: "list_all sized ?ts" and r: "sized ?r \<or> ?r = LVoid"
    using wf by (auto simp: wf_func_def)
  let ?cls = "\<lparr>sigArgs = map (win64_class dl False) ?ts, sigRet = win64_class dl True ?r\<rparr>"
  have cls: "computeSignatureInfo up Win64CABI dl ?ts (Some ?r) SIZE_MAX = Some ?cls"
    using sz r by (simp add: win64_signature_total)
  note ret = win64_class_return [OF r, of dl]
  let ?ps = "(if win64SRet dl ?r then [LPtr 0] else []) @ map (win64Param dl) ?ts"
  show ?thesis
  proof (cases "(\<forall>ci \<in> set (sigArgs ?cls). isIdentity ci) \<and> isIdentity (sigRet ?cls)")
    case True
    then have "map (win64Param dl) ?ts = ?ts"
      using sz win64_class_params(4) by (intro map_idI) (auto simp: list_all_iff)
    moreover have "\<not> win64SRet dl ?r" "win64Return dl ?r = ?r" using ret True by auto
    ultimately show ?thesis
      using True cls wf
      by (auto simp: processCABIFunctionDefinition_def rewriteDefinition_def wf_func_def
          split: list.splits)
  next
    case False
    from win64_rewriteBody [OF wf] obtain bs where bs: "rewriteBody dl ?ps ?cls f fresh = Some bs"
      "bs = [] \<and> funcBlocks f = [] \<or> map snd (blockArgs (hd bs)) = ?ps" by blast
    let ?g = "f\<lparr>paramTypes := ?ps, returnType := win64Return dl ?r, funcBlocks := bs\<rparr>"
    have "rewriteDefinition dl ?cls fresh f =
        Some (if win64SRet dl ?r then setArgAttr 0 (StructRet ?r) ?g else ?g)"
      using False win64_newParams [OF sz] ret bs(1) by (auto simp: rewriteDefinition_def)
    then show ?thesis
      using cls bs(2) by (auto simp: processCABIFunctionDefinition_def setArgAttr_def)
  qed
qed

text \<open>A function that takes a 16-byte struct and a wrapped float and returns 12 bytes.\<close>

definition sample_func :: llvm_func where
  "sample_func =
     \<lparr>paramTypes = [LStruct [LFloat ''f64'' 64, LFloat ''f64'' 64], LStruct [LFloat ''f32'' 32]],
      returnType = LStruct [LInt 32, LInt 32, LInt 32], isVarArg = False, argAttrs = [],
      funcBlocks =
        [\<lparr>blockArgs = [(0, LStruct [LFloat ''f64'' 64, LFloat ''f64'' 64]), (1, LStruct [LFloat ''f32'' 32])],
          blockOps = [(Some 2, OtherOp ''call'' [0, 1]), (None, ReturnOp [2])]\<rparr>]\<rparr>"

theorem win64_rewrite_total_witness:
  "\<exists>g. processCABIFunctionDefinition no_upstream Win64CABI win64_layout 3 sample_func = Some g \<and>
     paramTypes g = [LPtr 0, LPtr 0, LInt 32] \<and> returnType g = LVoid \<and>
     map snd (blockArgs (hd (funcBlocks g))) = [LPtr 0, LPtr 0, LInt 32]"
proof -
  have wf: "wf_func sample_func" by (simp add: wf_func_def sample_func_def returnsValue_def)
  have sret: "win64SRet win64_layout (returnType sample_func)"
    by (simp add: sample_func_def win64SRet_def in_register_def eval_win64)
  have "map (win64Param win64_layout) (paramTypes sample_func) = [LPtr 0, LInt 32]"
    by (simp add: sample_func_def win64Param_def in_register_def register_int_def eval_win64)
  moreover have "win64Return win64_layout (returnType sample_func) = LVoid"
    using sret by (simp add: win64SRet_def win64Return_def)
  moreover have "funcBlocks sample_func \<noteq> []" by (simp add: sample_func_def)
  ultimately show ?thesis
    using win64_rewrite_total [OF wf, of no_upstream win64_layout 3] sret by auto
qed

section \<open>The callee sees the caller's arguments\<close>

text \<open>
  The caller's side of Win64 for one argument: the bytes of a small struct in an integer register,
  a pointer to a copy of any other aggregate, and everything else as it is.
\<close>

definition win64Passes ::
  "target_layout \<Rightarrow> (nat \<Rightarrow> byte list option) \<Rightarrow> ll_type \<Rightarrow> sval \<Rightarrow> sval \<Rightarrow> bool" where
  "win64Passes dl h t v w \<longleftrightarrow>
     (if isStructType t \<and> in_register dl t
      then (case v of VBytes bs \<Rightarrow> w = v \<and> getTypeStoreSize dl t = Some (length bs) | VPtr _ \<Rightarrow> False)
      else if isStructType t \<or> isArrayType t then carriesIndirect dl h t [v] w
      else v = w)"

context data_layout
begin

lemma reloaded_same:
  assumes "getTypeStoreSize dl t = Some (length bs)" "sized t"
  shows "reloaded dl t bs = Some bs"
proof -
  obtain a where a: "getTypeABIAlign dl t = Some a" using sized_align [OF assms(2)] by blast
  have "length bs \<le> alignTo (length bs) a" using align_pos [OF a] by (rule alignTo_ge)
  with assms(1) a show ?thesis
    by (simp add: reloaded_def getTypeAllocSize_def alloc_law overlay_def)
qed

lemma win64Passes_carries:
  assumes "win64Passes dl h t v w" "sized t"
  shows "carries dl h (win64_class dl False t) t [v] w"
  using assms reloaded_same [of t] isStruct_not_array [of t]
  by (auto simp: win64Passes_def carries_def win64_class_cases coercions split: if_splits sval.splits)

lemma win64Passes_carriesAll:
  "list_all2 (\<lambda>t (v, w). win64Passes dl h t v w) ts vws \<Longrightarrow> list_all sized ts \<Longrightarrow>
   carriesAll dl h (zip (map (win64_class dl False) ts) ts) (map (\<lambda>(v, w). [v]) vws) (map snd vws)"
  by (induction rule: list_all2_induct) (auto simp: win64Passes_carries)

end

lemma concat_singletons: "concat (map (\<lambda>(v, w). [v]) vws) = map fst vws"
  by (induction vws) auto

text \<open>
  C2. On Win64 the code emitted at the entry of a rewritten definition rebuilds the original
  arguments.  Whatever values a caller passes by the convention, running the emitted instructions on
  the new block arguments gets stuck nowhere (every store fits its allocation and every load stays
  inside its object) and leaves in the reconstructed value of every argument the bytes the caller
  passed.
\<close>
theorem win64_callee_sees_arguments:
  assumes "data_layout dl" and sz: "list_all sized ts" and r: "sized r \<or> r = LVoid"
    and pass: "list_all2 (\<lambda>t (v, w). win64Passes dl h t v w) ts vws"
    and cls: "computeSignatureInfo up Win64CABI dl ts (Some r) SIZE_MAX = Some cls"
    and params: "newParams (zip (sigArgs cls) ts) (if useSRet (sigRet cls) then [LPtr 0] else []) [] =
      Some (params, byVals)"
  shows "\<exists>vals b. reconstructCABIArguments dl params (sigArgs cls) ts (sigRet cls)
        \<lparr>nextId = fresh, newArgs = [], emitted = []\<rparr> = Some (vals, b) \<and>
      (\<forall>s. list_all2 (\<lambda>a v. regs s (fst a) = Some v) (newArgs b) (map fst vws) \<and>
            (\<forall>k. heap s (Extern k) = h k) \<longrightarrow>
        (\<exists>s'. runOps dl (emitted b) s = Some s' \<and>
              list_all2 (\<lambda>x w. regs s' x = Some w) vals (map snd vws)))"
proof -
  let ?zs = "zip (map (win64_class dl False) ts) ts"
  have c: "cls = \<lparr>sigArgs = map (win64_class dl False) ts, sigRet = win64_class dl True r\<rparr>"
    using cls win64_signature_total [OF sz r, of up dl SIZE_MAX] by simp
  let ?ps = "if useSRet (sigRet cls) then [LPtr 0] else []"
  have p: "params = ?ps @ map (win64Param dl) ts"
    using params win64_newParams [OF sz, of dl ?ps] by (simp add: c)
  obtain code vals args n where lc: "loopCode dl ?zs fresh = (code, vals, args, n)"
    by (metis prod_cases4)
  note us = win64_allParams [OF sz, of dl]
  have ok: "\<And>ci t. (ci, t) \<in> set ?zs \<Longrightarrow> alloca_ok dl ci t"
    using win64_zip [OF sz] win64_class_params(3) by blast
  have "reconstructCABIArguments dl params (sigArgs cls) ts (sigRet cls)
      \<lparr>nextId = fresh, newArgs = [], emitted = []\<rparr> =
      Some (vals, \<lparr>nextId = n, newArgs = args, emitted = code\<rparr>)"
    using reconstructLoop_code [OF us ok, of ?ps "[]" "\<lparr>nextId = fresh, newArgs = [], emitted = []\<rparr>"]
    by (auto simp: reconstructCABIArguments_def p c lc)
  moreover have "carriesAll dl h ?zs (map (\<lambda>(v, w). [v]) vws) (map snd vws)"
    using data_layout.win64Passes_carriesAll [OF assms(1) pass sz] .
  note runs = loopCode_runs [OF us this lc, unfolded concat_singletons]
  ultimately show ?thesis using runs by fastforce
qed

theorem win64_callee_sees_arguments_witness:
  "\<exists>vals b. reconstructCABIArguments win64_layout [LInt 32, LPtr 0]
       [defaultCoercion\<lparr>argClass := ClsInteger, coercedType := Some (LInt 32)\<rparr>, indirectArgument False]
       [LStruct [LFloat ''f32'' 32], LStruct [LInt 8, LInt 8, LInt 8]] defaultCoercion
       \<lparr>nextId = 2, newArgs = [], emitted = []\<rparr> = Some (vals, b) \<and>
     (\<forall>s. list_all2 (\<lambda>a v. regs s (fst a) = Some v) (newArgs b)
            [VBytes [Some 0, Some 0, Some 128, Some 63], VPtr (Extern 7)] \<and>
          (\<forall>k. heap s (Extern k) = (if k = 7 then Some [Some 1, Some 2, Some 3] else None)) \<longrightarrow>
       (\<exists>s'. runOps win64_layout (emitted b) s = Some s' \<and>
             list_all2 (\<lambda>x w. regs s' x = Some w) vals
               [VBytes [Some 0, Some 0, Some 128, Some 63], VBytes [Some 1, Some 2, Some 3]]))"
proof -
  let ?ts = "[LStruct [LFloat ''f32'' 32], LStruct [LInt 8, LInt 8, LInt 8]]"
  let ?cls = "\<lparr>sigArgs = [defaultCoercion\<lparr>argClass := ClsInteger, coercedType := Some (LInt 32)\<rparr>,
      indirectArgument False], sigRet = defaultCoercion\<rparr>"
  let ?h = "\<lambda>k. if k = 7 then Some [Some 1, Some 2, Some 3 :: byte] else None"
  let ?vws = "[(VBytes [Some 0, Some 0, Some 128, Some 63], VBytes [Some 0, Some 0, Some 128, Some 63]),
      (VPtr (Extern 7), VBytes [Some 1, Some 2, Some 3])]"
  have sz: "list_all sized ?ts" by simp
  have pass: "list_all2 (\<lambda>t (v, w). win64Passes win64_layout ?h t v w) ?ts ?vws"
    by (simp add: win64Passes_def in_register_def eval_win64)
  have cls: "computeSignatureInfo no_upstream Win64CABI win64_layout ?ts (Some LVoid) SIZE_MAX = Some ?cls"
    by (subst win64_signature_total)
      (simp_all add: win64_class_def microsoft_rule_def eval_win64)
  have params: "newParams (zip (sigArgs ?cls) ?ts) (if useSRet (sigRet ?cls) then [LPtr 0] else []) [] =
      Some ([LInt 32, LPtr 0], [])"
    by (simp add: coercions)
  show ?thesis
    using win64_callee_sees_arguments [OF win64.data_layout_axioms sz _ pass cls params, of 2] by simp
qed

section \<open>The caller sees the callee's result\<close>



end
