(* ===== verification/Blob_Stores.thy ===== *)
theory Blob_Stores
  imports Mojo_Prelude
begin

text \<open>
  The stores that rebuild one blob of interpreter memory at run time
  (\<^verbatim>\<open>LLVMLoweringUtils.cpp\<close>, \<^verbatim>\<open>materializeVectorStores\<close> and the per-blob part of
  \<^verbatim>\<open>MaterializationScope::getOrMaterialize\<close>).  An emitted store is its byte offset in the
  allocation, what it writes, and the alignment it claims.  The type variable stands for the value
  of a pointer.
\<close>

section \<open>Emitted stores\<close>

datatype 'p mem_op =
    StoreByte nat nat nat
  | StoreVector nat "nat list" nat
  | StorePointer nat 'p nat
  | Memset nat nat nat

text \<open>\<^verbatim>\<open>llvm::NextPowerOf2\<close>: the least power of two above the argument.\<close>

fun NextPowerOf2 :: "nat \<Rightarrow> nat" where
  "NextPowerOf2 n = (if n = 0 then 1 else 2 * NextPowerOf2 (n div 2))"

declare NextPowerOf2.simps [simp del]

lemma NextPowerOf2_bounds: "n < NextPowerOf2 n" "0 < n \<Longrightarrow> NextPowerOf2 n \<le> 2 * n"
proof (induction n rule: NextPowerOf2.induct)
  case (1 n)
  {
    case 1
    then show ?case using "1.IH"(1) by (cases "n = 0") (auto simp: NextPowerOf2.simps [of n] NextPowerOf2.simps [of 0])
  next
    case 2
    then show ?case
    proof (cases "n = 1")
      case False
      with 2 have "0 < n div 2" by auto
      with 2 "1.IH"(2) show ?thesis by (simp add: NextPowerOf2.simps [of n])
    qed (simp add: NextPowerOf2.simps)
  }
qed

lemma NextPowerOf2_half: "0 < n \<Longrightarrow> 0 < NextPowerOf2 n div 2 \<and> NextPowerOf2 n div 2 \<le> n"
  using NextPowerOf2_bounds [of n] by auto

function materializeVectorStores :: "nat list \<Rightarrow> nat \<Rightarrow> nat \<Rightarrow> nat \<Rightarrow> 'p mem_op list" where
  "materializeVectorStores bytes align idx n =
     (if n = 0 then []
      else if n = 1 then [StoreByte idx (bytes ! idx) align]
      else
        let curSize = NextPowerOf2 n div 2; remaining = n - curSize
        in StoreVector idx (take curSize (drop idx bytes)) align #
           materializeVectorStores bytes align (idx + curSize) remaining)"
  by pat_completeness auto
termination
  by (relation "measure (\<lambda>(_, _, _, n). n)") (use NextPowerOf2_half in fastforce)+

declare materializeVectorStores.simps [simp del]

section \<open>Runs of equal bytes\<close>

record compression =
  startIdx :: nat
  runValue :: nat
  numReps :: nat

text \<open>
  The loop that commits a short run.  It is entered only when the run is at most eight vectors long,
  so a vector width of zero never reaches a positive run.
\<close>

function commitLoop :: "nat list \<Rightarrow> nat \<Rightarrow> nat \<Rightarrow> nat \<Rightarrow> nat \<Rightarrow> nat \<Rightarrow> 'p mem_op list" where
  "commitLoop bytes align simdWidth start reps i =
     (if i < reps \<and> 0 < simdWidth then
        materializeVectorStores bytes align (start + i) (min simdWidth (reps - i)) @
        commitLoop bytes align simdWidth start reps (i + simdWidth)
      else [])"
  by pat_completeness auto
termination
  by (relation "measure (\<lambda>(_, _, _, _, reps, i). reps - i)") auto

declare commitLoop.simps [simp del]

definition commitCompressedStores ::
  "nat list \<Rightarrow> nat \<Rightarrow> nat \<Rightarrow> compression option \<Rightarrow> 'p mem_op list" where
  "commitCompressedStores bytes align simdWidth st =
     (case st of
        None \<Rightarrow> []
      | Some c \<Rightarrow>
          if numReps c \<le> 8 * simdWidth
          then commitLoop bytes align simdWidth (startIdx c) (numReps c) 0
          else [Memset (startIdx c) (runValue c) (numReps c)])"

fun all_equal :: "nat list \<Rightarrow> bool" where
  "all_equal [] = True"
| "all_equal (x # xs) = list_all (\<lambda>y. y = x) xs"

type_synonym 'p store_state = "compression option \<times> 'p mem_op list"

definition materializeStore ::
  "nat list \<Rightarrow> nat \<Rightarrow> nat \<Rightarrow> nat \<Rightarrow> nat \<Rightarrow> 'p store_state \<Rightarrow> 'p store_state" where
  "materializeStore bytes align simdWidth idx n st =
     (let (pend, ops) = st; commit = commitCompressedStores bytes align simdWidth pend in
      if n = 0 then st
      else if \<not> all_equal (take n (drop idx bytes)) then
        (None, ops @ commit @ materializeVectorStores bytes align idx n)
      else case pend of
        None \<Rightarrow> (Some \<lparr>startIdx = idx, runValue = bytes ! idx, numReps = n\<rparr>, ops)
      | Some c \<Rightarrow>
          if runValue c = bytes ! idx then (Some (c\<lparr>numReps := numReps c + n\<rparr>), ops)
          else (Some \<lparr>startIdx = idx, runValue = bytes ! idx, numReps = n\<rparr>, ops @ commit))"

section \<open>The chunk loop\<close>

text \<open>
  A pointer region is its offset in the blob and the pointer to store there.  A vector width of zero
  makes no progress, so the loop of the source never ends; that is \<open>None\<close>.
\<close>

type_synonym 'p region = "nat \<times> 'p"

function chunkLoop ::
  "nat list \<Rightarrow> nat \<Rightarrow> nat \<Rightarrow> nat \<Rightarrow> nat \<Rightarrow> 'p region list \<Rightarrow> 'p store_state \<Rightarrow> 'p mem_op list option" where
  "chunkLoop bytes align simdWidth pointerSize i ptrs st =
     (if \<not> i < length bytes then
        Some (snd st @ commitCompressedStores bytes align simdWidth (fst st))
      else if simdWidth = 0 then None
      else case ptrs of
        (off, p) # rest \<Rightarrow>
          if i \<le> off \<and> off < i + simdWidth then
            let st = materializeStore bytes align simdWidth i (off - i) st;
                ops = snd st @ commitCompressedStores bytes align simdWidth (fst st) @
                        [StorePointer off p align]
            in chunkLoop bytes align simdWidth pointerSize (off + pointerSize) rest (None, ops)
          else
            chunkLoop bytes align simdWidth pointerSize (i + simdWidth) ptrs
              (materializeStore bytes align simdWidth i (min simdWidth (length bytes - i)) st)
      | [] \<Rightarrow>
          chunkLoop bytes align simdWidth pointerSize (i + simdWidth) ptrs
            (materializeStore bytes align simdWidth i (min simdWidth (length bytes - i)) st))"
  by pat_completeness auto
termination
  by (relation "measures [\<lambda>(_, _, _, _, _, ptrs, _). length ptrs,
        \<lambda>(bytes, _, _, _, i, _, _). length bytes - i]") auto

declare chunkLoop.simps [simp del]

definition materializeBlobStores ::
  "nat list \<Rightarrow> nat \<Rightarrow> nat \<Rightarrow> nat \<Rightarrow> 'p region list \<Rightarrow> 'p mem_op list option" where
  "materializeBlobStores bytes align simdWidth pointerSize ptrs =
     chunkLoop bytes align simdWidth pointerSize 0 ptrs (None, [])"

section \<open>Running the stores\<close>

text \<open>A byte of the allocation: written with a number, the k-th byte of a pointer, or untouched.\<close>

datatype 'p cell = Byte nat | PointerByte 'p nat | Untouched

definition pointerCells :: "nat \<Rightarrow> 'p \<Rightarrow> 'p cell list" where
  "pointerCells pointerSize p = map (PointerByte p) [0 ..< pointerSize]"

text \<open>Writing past the allocation is stuck.\<close>

definition put_cells :: "nat \<Rightarrow> 'a list \<Rightarrow> 'a list \<Rightarrow> 'a list option" where
  "put_cells off new old =
     (if off + length new \<le> length old
      then Some (take off old @ new @ drop (off + length new) old) else None)"

fun execStore :: "nat \<Rightarrow> 'p mem_op \<Rightarrow> 'p cell list \<Rightarrow> 'p cell list option" where
  "execStore psz (StoreByte i b a) m = put_cells i [Byte b] m"
| "execStore psz (StoreVector i bs a) m = put_cells i (map Byte bs) m"
| "execStore psz (StorePointer i p a) m = put_cells i (pointerCells psz p) m"
| "execStore psz (Memset i b n) m = put_cells i (replicate n (Byte b)) m"

fun execStores :: "nat \<Rightarrow> 'p mem_op list \<Rightarrow> 'p cell list \<Rightarrow> 'p cell list option" where
  "execStores psz [] m = Some m"
| "execStores psz (x # xs) m = do { m \<leftarrow> execStore psz x m; execStores psz xs m }"

text \<open>What the blob should look like from a position on.\<close>

definition blobBytes :: "nat list \<Rightarrow> nat \<Rightarrow> nat \<Rightarrow> 'p cell list" where
  "blobBytes bytes i n = map Byte (take n (drop i bytes))"

fun blobImage :: "nat list \<Rightarrow> nat \<Rightarrow> nat \<Rightarrow> 'p region list \<Rightarrow> 'p cell list" where
  "blobImage bytes psz i [] = blobBytes bytes i (length bytes - i)"
| "blobImage bytes psz i ((off, p) # rest) =
     blobBytes bytes i (off - i) @ pointerCells psz p @ blobImage bytes psz (off + psz) rest"

text \<open>Regions in increasing order that do not overlap and lie inside the blob.\<close>

fun regions_ok :: "nat \<Rightarrow> nat \<Rightarrow> nat \<Rightarrow> 'p region list \<Rightarrow> bool" where
  "regions_ok psz len i [] \<longleftrightarrow> i \<le> len"
| "regions_ok psz len i ((off, p) # rest) \<longleftrightarrow>
     i \<le> off \<and> off + psz \<le> len \<and> regions_ok psz len (off + psz) rest"

section \<open>The stores rebuild the blob\<close>

lemma length_put_cells: "put_cells off new old = Some m \<Longrightarrow> length m = length old"
  by (auto simp: put_cells_def split: if_splits)

lemma put_cells_append:
  "put_cells off (xs @ ys) m = do { m \<leftarrow> put_cells off xs m; put_cells (off + length xs) ys m }"
proof (cases "off + length xs \<le> length m")
  case True
  then have "drop (off + length xs + length ys) m = drop (length ys) (drop (off + length xs) m)"
    by (simp add: ac_simps)
  with True show ?thesis by (auto simp: put_cells_def ac_simps)
qed (auto simp: put_cells_def)

lemma put_cells_Nil: "off \<le> length m \<Longrightarrow> put_cells off [] m = Some m"
  by (simp add: put_cells_def)

lemma execStores_append:
  "execStores psz (xs @ ys) m = do { m \<leftarrow> execStores psz xs m; execStores psz ys m }"
proof (induction xs arbitrary: m)
  case (Cons x xs)
  then show ?case by (cases "execStore psz x m") simp_all
qed simp

lemma execStores_last [simp]: "Option.bind x (execStores psz []) = x"
  by (cases x) simp_all

lemma length_execStore: "execStore psz x m = Some m' \<Longrightarrow> length m' = length m"
  by (cases x) (auto dest: length_put_cells)

lemma length_execStores: "execStores psz xs m = Some m' \<Longrightarrow> length m' = length m"
  by (induction xs arbitrary: m) (auto simp: bind_eq_Some_conv dest!: length_execStore)

lemma length_blobBytes: "i + n \<le> length bytes \<Longrightarrow> length (blobBytes bytes i n) = n"
  by (simp add: blobBytes_def)

lemma blobBytes_split:
  "blobBytes bytes i (a + b) = blobBytes bytes i a @ blobBytes bytes (i + a) b"
  by (simp add: blobBytes_def take_add ac_simps)

lemma put_blobBytes_split:
  assumes "i + (a + b) \<le> length bytes"
  shows "put_cells i (blobBytes bytes i (a + b)) m =
    do { m \<leftarrow> put_cells i (blobBytes bytes i a) m; put_cells (i + a) (blobBytes bytes (i + a) b) m }"
  using assms by (simp add: blobBytes_split put_cells_append length_blobBytes)

lemma vectorStores_exec:
  assumes "i + n \<le> length bytes" "length m = length bytes"
  shows "execStores psz (materializeVectorStores bytes align i n) m =
    put_cells i (blobBytes bytes i n) m"
  using assms
proof (induction bytes align i n arbitrary: m rule: materializeVectorStores.induct)
  case (1 bytes align i n)
  note step = materializeVectorStores.simps [of bytes align i n]
  show ?case
  proof (cases "n \<le> 1")
    case True
    with "1.prems" show ?thesis
      by (auto simp: le_Suc_eq materializeVectorStores.simps put_cells_Nil blobBytes_def
          hd_drop_conv_nth take_Suc)
  next
    case False
    let ?k = "NextPowerOf2 n div 2"
    have k: "?k \<le> n" using NextPowerOf2_half [of n] False by simp
    then have n: "n = ?k + (n - ?k)" by simp
    show ?thesis
    proof (cases "put_cells i (blobBytes bytes i ?k) m")
      case None
      then show ?thesis
        using False n "1.prems" put_blobBytes_split [of i ?k "n - ?k" bytes m] k
        by (simp add: step Let_def blobBytes_def)
    next
      case (Some m')
      moreover have "length m' = length bytes" using Some "1.prems" length_put_cells by metis
      ultimately show ?thesis
        using False n "1.prems" k put_blobBytes_split [of i ?k "n - ?k" bytes m]
          "1.IH" [of ?k "n - ?k" m']
        by (simp add: step Let_def blobBytes_def)
    qed
  qed
qed

lemma commitLoop_exec:
  fixes m :: "'p cell list"
  assumes "start + reps \<le> length bytes" "length m = length bytes" "0 < simd" "i \<le> reps"
  shows "execStores psz (commitLoop bytes align simd start reps i) m =
    put_cells (start + i) (blobBytes bytes (start + i) (reps - i)) m"
  using assms
proof (induction bytes align simd start reps i arbitrary: m rule: commitLoop.induct)
  case (1 bytes align simd start reps i)
  note step = commitLoop.simps [of bytes align simd start reps i]
  show ?case
  proof (cases "i < reps")
    case False
    with "1.prems" show ?thesis by (simp add: commitLoop.simps blobBytes_def put_cells_Nil)
  next
    case True
    let ?k = "min simd (reps - i)"
    have split: "reps - i = ?k + (reps - i - ?k)" by simp
    have vec: "execStores psz (materializeVectorStores bytes align (start + i) ?k) m =
        put_cells (start + i) (blobBytes bytes (start + i) ?k) m"
      using "1.prems" by (intro vectorStores_exec) auto
    have rest: "execStores psz (commitLoop bytes align simd start reps (i + simd)) m' =
        put_cells (start + i + ?k) (blobBytes bytes (start + i + ?k) (reps - i - ?k)) m'"
      if "length m' = length bytes" for m' :: "'p cell list"
    proof (cases "i + simd \<le> reps")
      case True
      then have "?k = simd" by simp
      with "1.IH" [OF _ _ that] "1.prems" True \<open>i < reps\<close> show ?thesis by (simp add: ac_simps)
    next
      case False
      then show ?thesis
        using "1.prems" that by (simp add: commitLoop.simps [of bytes align simd start reps "i + simd"]
            blobBytes_def put_cells_Nil)
    qed
    show ?thesis
      using True "1.prems" vec rest put_blobBytes_split [of "start + i" ?k "reps - i - ?k" bytes m]
        length_put_cells
      by (cases "put_cells (start + i) (blobBytes bytes (start + i) ?k) m")
        (fastforce simp: step execStores_append split [symmetric] simp del: min_less_iff_conj)+
  qed
qed

text \<open>The pending run: contiguous with the position reached and made of one byte value.\<close>

definition run_ok :: "nat list \<Rightarrow> nat \<Rightarrow> compression option \<Rightarrow> bool" where
  "run_ok bytes i pend \<longleftrightarrow>
     (case pend of
        None \<Rightarrow> True
      | Some c \<Rightarrow> startIdx c + numReps c = i \<and> i \<le> length bytes \<and>
          take (numReps c) (drop (startIdx c) bytes) = replicate (numReps c) (runValue c))"

definition run_cells :: "nat list \<Rightarrow> compression option \<Rightarrow> 'p cell list \<Rightarrow> 'p cell list option" where
  "run_cells bytes pend m =
     (case pend of
        None \<Rightarrow> Some m
      | Some c \<Rightarrow> put_cells (startIdx c) (blobBytes bytes (startIdx c) (numReps c)) m)"

lemma commit_exec:
  assumes "run_ok bytes i pend" "length m = length bytes" "0 < simd"
  shows "execStores psz (commitCompressedStores bytes align simd pend) m = run_cells bytes pend m"
proof (cases pend)
  case (Some c)
  show ?thesis
  proof (cases "numReps c \<le> 8 * simd")
    case True
    with Some assms show ?thesis
      using commitLoop_exec [of "startIdx c" "numReps c" bytes m simd 0 psz align]
      by (simp add: commitCompressedStores_def run_ok_def run_cells_def)
  next
    case False
    with Some assms show ?thesis
      by (simp add: commitCompressedStores_def run_ok_def run_cells_def blobBytes_def)
  qed
qed (simp add: commitCompressedStores_def run_cells_def)

text \<open>The memory a state stands for: its stores, then its pending run.\<close>

definition state_cells ::
  "nat list \<Rightarrow> nat \<Rightarrow> 'p store_state \<Rightarrow> 'p cell list \<Rightarrow> 'p cell list option" where
  "state_cells bytes psz st m =
     do { m \<leftarrow> execStores psz (snd st) m; run_cells bytes (fst st) m }"

lemma length_state_cells: "state_cells bytes psz st m = Some m' \<Longrightarrow> length m' = length m"
  by (auto simp: state_cells_def run_cells_def bind_eq_Some_conv split: option.splits
      dest!: length_execStores length_put_cells)

lemma commit_state:
  assumes "run_ok bytes i pend" "length m = length bytes" "0 < simd"
  shows "execStores psz (ops @ commitCompressedStores bytes align simd pend) m =
    state_cells bytes psz (pend, ops) m"
proof (cases "execStores psz ops m")
  case (Some m')
  with commit_exec [OF assms(1) _ assms(3), of m' psz align] assms(2) length_execStores [OF Some]
  show ?thesis by (simp add: state_cells_def execStores_append)
qed (simp add: state_cells_def execStores_append)

lemma all_equal_replicate: "all_equal xs \<Longrightarrow> xs \<noteq> [] \<Longrightarrow> xs = replicate (length xs) (hd xs)"
  by (cases xs) (auto simp: list_all_iff intro: replicate_eqI)

lemma slice_run:
  assumes "all_equal (take n (drop i bytes))" "0 < n" "i + n \<le> length bytes"
  shows "take n (drop i bytes) = replicate n (bytes ! i)"
  using all_equal_replicate [OF assms(1)] assms(2,3)
  by (auto simp: hd_drop_conv_nth min_def)

lemma materializeStore_state:
  assumes ok: "run_ok bytes i (fst st)" and len: "length m = length bytes" and simd: "0 < simd"
    and fits: "i + n \<le> length bytes"
  shows "run_ok bytes (i + n) (fst (materializeStore bytes align simd i n st))"
    and "state_cells bytes psz (materializeStore bytes align simd i n st) m =
      do { m \<leftarrow> state_cells bytes psz st m; put_cells i (blobBytes bytes i n) m }"
proof -
  obtain pend ops where st: "st = (pend, ops)" by force
  let ?st' = "materializeStore bytes align simd i n st"
  let ?sl = "take n (drop i bytes)"
  note defs = materializeStore_def st Let_def
  have lens: "length m' = length bytes" if "state_cells bytes psz st m = Some m'" for m'
    using length_state_cells [OF that] len by simp
  have commit: "execStores psz (ops @ commitCompressedStores bytes align simd pend) m = state_cells bytes psz st m"
    using commit_state [of bytes i pend m simd psz ops align] ok len simd by (simp add: st)
  have "run_ok bytes (i + n) (fst ?st') \<and>
    state_cells bytes psz ?st' m = do { m \<leftarrow> state_cells bytes psz st m; put_cells i (blobBytes bytes i n) m }"
  proof (cases "n = 0")
    case True
    have "Option.bind (state_cells bytes psz st m) (put_cells i []) = state_cells bytes psz st m"
      using fits lens by (cases "state_cells bytes psz st m") (auto simp: put_cells_Nil)
    with True ok st show ?thesis by (simp add: defs blobBytes_def)
  next
    case n: False
    show ?thesis
    proof (cases "all_equal ?sl")
      case False
      then have "?st' = (None, (ops @ commitCompressedStores bytes align simd pend) @
          materializeVectorStores bytes align i n)" using n by (simp add: defs)
      then show ?thesis
        using commit vectorStores_exec [of i n bytes _ psz align] fits lens
        by (cases "state_cells bytes psz st m")
          (simp_all add: state_cells_def [of _ _ "(None, _)"] run_cells_def [of _ None] run_ok_def
            execStores_append del: append_assoc)
    next
      case eq: True
      note run = slice_run [OF eq _ fits]
      let ?new = "\<lparr>startIdx = i, runValue = bytes ! i, numReps = n\<rparr>"
      have new: "run_ok bytes (i + n) (Some ?new)" using run n fits by (simp add: run_ok_def)
      consider (start) "pend = None" | (extend) c where "pend = Some c" "runValue c = bytes ! i"
        | (switch) c where "pend = Some c" "runValue c \<noteq> bytes ! i" by (cases pend) auto
      then show ?thesis
      proof cases
        case start
        then have "?st' = (Some ?new, ops)" using n eq by (simp add: defs)
        with new start show ?thesis
          by (simp add: st state_cells_def run_cells_def)
      next
        case extend
        let ?c = "c\<lparr>numReps := numReps c + n\<rparr>"
        have c: "startIdx c + numReps c = i"
          "take (numReps c) (drop (startIdx c) bytes) = replicate (numReps c) (runValue c)"
          using ok extend st by (simp_all add: run_ok_def)
        have "?st' = (Some ?c, ops)" using n eq extend by (simp add: defs)
        moreover have "take (numReps c + n) (drop (startIdx c) bytes) =
            take (numReps c) (drop (startIdx c) bytes) @ take n (drop i bytes)"
          by (simp only: take_add drop_drop c(1) [symmetric] add.commute [of "numReps c" "startIdx c"])
        then have "run_ok bytes (i + n) (Some ?c)"
          using c run n fits extend by (simp add: run_ok_def replicate_add)
        ultimately show ?thesis
          using put_blobBytes_split [of "startIdx c" "numReps c" n bytes] c fits extend
          by (cases "execStores psz ops m") (simp_all add: st state_cells_def run_cells_def ac_simps)
      next
        case switch
        then have "?st' = (Some ?new, ops @ commitCompressedStores bytes align simd pend)"
          using n eq by (simp add: defs)
        with new commit show ?thesis
          by (cases "state_cells bytes psz st m")
            (simp_all add: state_cells_def [of _ _ "(Some ?new, _)"] run_cells_def [of _ "Some ?new"])
      qed
    qed
  qed
  then show "run_ok bytes (i + n) (fst ?st')" "state_cells bytes psz ?st' m =
      do { m \<leftarrow> state_cells bytes psz st m; put_cells i (blobBytes bytes i n) m }" by auto
qed

text \<open>The image of a stretch before the next region splits off its first bytes.\<close>

lemma blobImage_step:
  assumes "regions_ok psz (length bytes) i ptrs" "i + n \<le> length bytes"
    and "\<And>off p rest. ptrs = (off, p) # rest \<Longrightarrow> i + n \<le> off"
  shows "blobImage bytes psz i ptrs = blobBytes bytes i n @ blobImage bytes psz (i + n) ptrs"
    and "regions_ok psz (length bytes) (i + n) ptrs"
proof -
  have split: "blobBytes bytes i k = blobBytes bytes i n @ blobBytes bytes (i + n) (k - n)" if "n \<le> k" for k
    using that blobBytes_split [of bytes i n "k - n"] by simp
  show "blobImage bytes psz i ptrs = blobBytes bytes i n @ blobImage bytes psz (i + n) ptrs"
  proof (cases ptrs)
    case Nil
    moreover have "n \<le> length bytes - i" using assms(2) by simp
    ultimately show ?thesis using split [of "length bytes - i"] by (simp add: diff_diff_left)
  next
    case (Cons r rest)
    moreover obtain off p where "r = (off, p)" by force
    moreover from calculation have "i + n \<le> off" using assms(3) by blast
    moreover from this have "n \<le> off - i" by simp
    ultimately show ?thesis using split [of "off - i"] by (simp add: diff_diff_left)
  qed
  show "regions_ok psz (length bytes) (i + n) ptrs"
    using assms by (cases ptrs) auto
qed

lemma length_blobImage:
  "regions_ok psz (length bytes) i ptrs \<Longrightarrow> length (blobImage bytes psz i ptrs) = length bytes - i"
  by (induction bytes psz i ptrs rule: blobImage.induct)
    (auto simp: length_blobBytes pointerCells_def)

lemma finish_exec:
  assumes "run_ok bytes k (fst st)" "length m = length bytes" "0 < simd"
    and "state_cells bytes psz st m = Some m1" "\<not> i < length bytes"
  shows "\<exists>ops. chunkLoop bytes align simd psz i ptrs st = Some ops \<and> execStores psz ops m = Some m1"
  using assms commit_state [of bytes k "fst st" m simd psz "snd st" align]
  by (simp add: chunkLoop.simps [of bytes align simd psz i])

lemma put_image_length:
  assumes "regions_ok psz (length bytes) i ptrs" "length m = length bytes"
  shows "\<exists>m'. put_cells i (blobImage bytes psz i ptrs) m = Some m'"
proof -
  have "i \<le> length bytes" using assms(1) by (cases ptrs) auto
  with assms show ?thesis by (simp add: put_cells_def length_blobImage)
qed

lemma pointer_step:
  fixes m :: "'p cell list" and align :: nat
  assumes ok: "run_ok bytes i (fst st)" and len: "length m = length bytes" and simd: "0 < simd"
    and region: "i \<le> off" "off + psz \<le> length bytes" and st: "state_cells bytes psz st m = Some m1"
  defines "st1 \<equiv> materializeStore bytes align simd i (off - i) st"
  shows "state_cells bytes psz
      (None, snd st1 @ commitCompressedStores bytes align simd (fst st1) @ [StorePointer off p align]) m =
    put_cells i (blobBytes bytes i (off - i) @ pointerCells psz p) m1"
proof -
  have fits: "i + (off - i) \<le> length bytes" using region by simp
  note st1 = materializeStore_state [OF ok len simd fits, where align = align, folded st1_def]
  have "execStores psz (snd st1 @ commitCompressedStores bytes align simd (fst st1)) m =
      put_cells i (blobBytes bytes i (off - i)) m1"
    using commit_state [OF st1(1) len simd, of psz "snd st1" align] st1(2) st by simp
  then have "execStores psz ((snd st1 @ commitCompressedStores bytes align simd (fst st1)) @
        [StorePointer off p align]) m =
      do { m2 \<leftarrow> put_cells i (blobBytes bytes i (off - i)) m1; put_cells off (pointerCells psz p) m2 }"
    by (simp add: execStores_append del: append_assoc)
  also have "\<dots> = put_cells i (blobBytes bytes i (off - i) @ pointerCells psz p) m1"
    using region fits by (simp add: put_cells_append length_blobBytes)
  finally show ?thesis by (simp add: state_cells_def run_cells_def)
qed

lemma chunkLoop_exec:
  fixes m :: "'p cell list"
  assumes "run_ok bytes i (fst st)" "length m = length bytes" "0 < simd" "0 < psz"
    and "regions_ok psz (length bytes) i ptrs" "state_cells bytes psz st m = Some m1"
  shows "\<exists>ops. chunkLoop bytes align simd psz i ptrs st = Some ops \<and>
    execStores psz ops m = put_cells i (blobImage bytes psz i ptrs) m1"
  using assms
proof (induction bytes align simd psz i ptrs st arbitrary: m1 rule: chunkLoop.induct)
  case (1 bytes align simd psz i ptrs st)
  note step = chunkLoop.simps [of bytes align simd psz i ptrs st]
  have m1: "length m1 = length bytes" using length_state_cells "1.prems"(2,6) by metis
  have i: "i \<le> length bytes" using "1.prems"(5) by (cases ptrs) auto
  let ?n = "min simd (length bytes - i)"
  let ?st = "materializeStore bytes align simd i ?n st"
  consider (finished) "\<not> i < length bytes"
    | (pointer) off p rest where "i < length bytes" "ptrs = (off, p) # rest" "off < i + simd"
    | (chunk) "i < length bytes" "\<And>off p rest. ptrs = (off, p) # rest \<Longrightarrow> i + simd \<le> off"
    by (metis not_less)
  then show ?case
  proof cases
    case finished
    then have "ptrs = []" using "1.prems"(4,5) i by (cases ptrs) auto
    with finished i m1 finish_exec [OF "1.prems"(1,2,3,6) finished] show ?thesis
      by (simp add: blobBytes_def put_cells_Nil)
  next
    case pointer
    then have r: "i \<le> off" "off + psz \<le> length bytes" "regions_ok psz (length bytes) (off + psz) rest"
      using "1.prems"(5) by auto
    let ?st1 = "materializeStore bytes align simd i (off - i) st"
    let ?ops = "snd ?st1 @ commitCompressedStores bytes align simd (fst ?st1) @ [StorePointer off p align]"
    have len: "length (blobBytes bytes i (off - i) @ pointerCells psz p) = off + psz - i"
      using r by (simp add: length_blobBytes pointerCells_def)
    obtain m2 where m2: "put_cells i (blobBytes bytes i (off - i) @ pointerCells psz p) m1 = Some m2"
      using r m1 len by (simp add: put_cells_def)
    have "state_cells bytes psz (None, ?ops) m = Some m2"
      using pointer_step [OF "1.prems"(1,2,3) r(1,2) "1.prems"(6), of align p] m2 by simp
    from "1.IH"(2) [OF _ _ pointer(2) refl _ refl refl _ "1.prems"(2,3,4) r(3) this]
    obtain ops where "chunkLoop bytes align simd psz (off + psz) rest (None, ?ops) = Some ops"
      "execStores psz ops m = put_cells (off + psz) (blobImage bytes psz (off + psz) rest) m2"
      using pointer r "1.prems"(3) by (auto simp: run_ok_def)
    moreover have "put_cells i (blobImage bytes psz i ptrs) m1 =
        put_cells (off + psz) (blobImage bytes psz (off + psz) rest) m2"
      using put_cells_append [of i "blobBytes bytes i (off - i) @ pointerCells psz p"
          "blobImage bytes psz (off + psz) rest" m1] m2 len r
      by (simp add: pointer)
    ultimately show ?thesis
      using pointer(1,3) r "1.prems"(3) by (simp add: pointer(2) step [unfolded pointer(2)] Let_def)
  next
    case chunk
    have fits: "i + ?n \<le> length bytes" using i by simp
    note st = materializeStore_state [OF "1.prems"(1,2,3) fits, where align = align]
    have before: "\<And>off p rest. ptrs = (off, p) # rest \<Longrightarrow> i + ?n \<le> off" using chunk(2) by fastforce
    have image: "blobImage bytes psz i ptrs = blobBytes bytes i ?n @ blobImage bytes psz (i + ?n) ptrs"
      "regions_ok psz (length bytes) (i + ?n) ptrs"
      using blobImage_step [OF "1.prems"(5) fits] before by blast+
    obtain m2 where m2: "put_cells i (blobBytes bytes i ?n) m1 = Some m2"
      using fits m1 by (simp add: put_cells_def length_blobBytes)
    then have st2: "state_cells bytes psz ?st m = Some m2" using st(2) "1.prems"(6) by simp
    have put: "put_cells i (blobImage bytes psz i ptrs) m1 =
        put_cells (i + ?n) (blobImage bytes psz (i + ?n) ptrs) m2"
      using m2 fits by (simp add: image(1) put_cells_append length_blobBytes)
    have loop: "chunkLoop bytes align simd psz i ptrs st = chunkLoop bytes align simd psz (i + simd) ptrs ?st"
      using chunk "1.prems"(3) by (subst step) (auto split: list.split)
    show ?thesis
    proof (cases "i + simd < length bytes")
      case True
      then have n: "?n = simd" by simp
      have "\<exists>ops. chunkLoop bytes align simd psz (i + simd) ptrs ?st = Some ops \<and>
          execStores psz ops m = put_cells (i + simd) (blobImage bytes psz (i + simd) ptrs) m2"
      proof (cases ptrs)
        case Nil
        then show ?thesis
          using "1.IH"(1) [of m2] chunk(1) "1.prems"(2,3,4) st(1) image(2) st2 n by simp
      next
        case (Cons r rest)
        then show ?thesis
          using "1.IH"(3) [of r rest "fst r" "snd r" m2] chunk "1.prems"(2,3,4) st(1) image(2) st2 n
          by (cases r) simp
      qed
      with loop put n show ?thesis by simp
    next
      case False
      then have "i + ?n = length bytes" using i by simp
      moreover from this have "ptrs = []" using image(2) "1.prems"(4) by (cases ptrs) auto
      moreover have "length m2 = length bytes" using m2 m1 length_put_cells by metis
      ultimately show ?thesis
        using finish_exec [OF st(1) "1.prems"(2,3) st2 False] loop put
        by (simp add: blobBytes_def put_cells_Nil)
    qed
  qed
qed

text \<open>
  C3. The stores emitted for a blob rebuild it byte for byte.  For a vector width of at least one
  byte and pointer regions that are ordered, disjoint and inside the blob, the chunk loop ends, and
  running its stores over a fresh allocation of the blob's size, whatever that held, stays in bounds
  and leaves the blob's bytes with the resolved pointer in every pointer region: splitting a chunk
  into powers of two, merging runs of equal bytes and turning long runs into one memset lose
  nothing.
\<close>
theorem materialized_blob_exact:
  fixes mem :: "'p cell list"
  assumes "0 < simdWidth" "0 < pointerSize" "regions_ok pointerSize (length bytes) 0 ptrs"
    and "length mem = length bytes"
  shows "\<exists>ops. materializeBlobStores bytes align simdWidth pointerSize ptrs = Some ops \<and>
    execStores pointerSize ops mem = Some (blobImage bytes pointerSize 0 ptrs)"
proof -
  have "put_cells 0 (blobImage bytes pointerSize 0 ptrs) mem = Some (blobImage bytes pointerSize 0 ptrs)"
    using assms by (simp add: put_cells_def length_blobImage)
  with chunkLoop_exec [of bytes 0 "(None, [])" mem simdWidth pointerSize ptrs mem align] assms
  show ?thesis by (simp add: materializeBlobStores_def run_ok_def state_cells_def run_cells_def)
qed

theorem materialized_blob_exact_witness:
  "\<exists>ops. materializeBlobStores ([1, 2, 3] @ replicate 8 0 @ replicate 40 7) 8 4 8 [(3, ''p'')] = Some ops \<and>
    execStores 8 ops (replicate 51 Untouched) =
      Some (blobImage ([1, 2, 3] @ replicate 8 0 @ replicate 40 7) 8 0 [(3, ''p'')])"
  by (rule materialized_blob_exact) simp_all

text \<open>
  Every store of a blob claims the alignment of the whole blob, whatever its offset.  For a
  three-byte blob aligned to eight bytes the second store goes to offset two and still claims eight.
\<close>
theorem blob_store_over_aligned:
  "materializeBlobStores [1, 2, 3] 8 16 8 ([] :: unit region list) =
     Some [StoreVector 0 [1, 2] 8, StoreByte 2 3 8]"
  by (simp add: materializeBlobStores_def chunkLoop.simps materializeStore_def
      commitCompressedStores_def materializeVectorStores.simps NextPowerOf2.simps Let_def)

text \<open>The chunk loop does not end for a vector width of zero bytes and a blob that is not empty.\<close>

lemma chunk_loop_needs_width:
  "bytes \<noteq> [] \<Longrightarrow> materializeBlobStores bytes align 0 pointerSize ptrs = None"
  by (simp add: materializeBlobStores_def chunkLoop.simps)

end
