(* ===== verification/Interp_Memory.thy ===== *)
theory Interp_Memory
  imports Blob_Stores
begin

text \<open>
  Materialization of interpreter memory (\<^verbatim>\<open>InterpreterMemoryConverter\<close> in
  \<^verbatim>\<open>LLVMLoweringUtils.cpp\<close>): which blobs of a memory space get an allocation or a global, how
  pointers between blobs are resolved, and the two caches.  \<open>None\<close> is a crash or a loop that does not
  end, \<open>Inl\<close> the error message of the source.
\<close>

section \<open>Memory spaces\<close>

datatype memory_kind = MKStack | MKPersistent | MKConstGlobal | MKOther nat

record blob =
  blobKind :: memory_kind
  blobIsString :: bool
  blobData :: "nat list"
  blobAlign :: nat
  blobRegions :: "(nat \<times> nat \<times> nat) list"
  blobAddressSpace :: nat

type_synonym space = "blob list"

text \<open>A materialized blob is a global or the result of an allocation; a pointer adds an offset.\<close>

datatype handle = HGlobal nat | HAlloc nat

type_synonym pointer = "handle \<times> nat"

record global_op =
  globalName :: string
  globalBytes :: "nat list"
  globalIsString :: bool
  globalConst :: bool
  globalAlign :: nat
  globalAddressSpace :: nat

datatype emit =
    StackAllocation nat nat nat
  | AlignedAlloc nat nat nat
  | OnAlloc nat "pointer mem_op"

record converter =
  globalTable :: "(blob \<times> nat) list"
  globalOps :: "global_op list"
  emits :: "emit list"
  allocCount :: nat
  spaceCache :: "(space \<times> (nat \<times> handle) list) list"

text \<open>What the target and the headers supply.\<close>

record interp_env =
  isGlobalBlob :: "blob \<Rightarrow> bool"
  contentHash :: "nat list \<Rightarrow> string"
  pointerBytes :: nat
  simdBytes :: nat
  literalIsString :: bool
  literalAlign :: nat

section \<open>Globals\<close>

definition getBlobPointer :: "handle \<Rightarrow> nat \<Rightarrow> pointer" where
  "getBlobPointer h offset = (h, offset)"

definition getOrCreateGlobal :: "interp_env \<Rightarrow> blob \<Rightarrow> converter \<Rightarrow> nat \<times> converter" where
  "getOrCreateGlobal env b st =
     (case map_of (globalTable st) b of
        Some g \<Rightarrow> (g, st)
      | None \<Rightarrow>
          let g = length (globalOps st);
              key = (if blobIsString b then ''static_string_'' else ''memory_blob_'') @
                      contentHash env (blobData b);
              op = \<lparr>globalName = key, globalBytes = blobData b, globalIsString = blobIsString b,
                    globalConst = (blobKind b = MKConstGlobal), globalAlign = blobAlign b,
                    globalAddressSpace = blobAddressSpace b\<rparr>
          in (g, st\<lparr>globalOps := globalOps st @ [op], globalTable := (b, g) # globalTable st\<rparr>))"

section \<open>Allocation of the reachable blobs\<close>

type_synonym blob_map = "(nat \<times> handle) list"

definition materializeBlob ::
  "interp_env \<Rightarrow> blob \<Rightarrow> nat \<Rightarrow> blob_map \<times> converter \<Rightarrow> blob_map \<times> converter" where
  "materializeBlob env b idx ms =
     (let (mat, st) = ms in
      if idx \<in> fst ` set mat then ms
      else if isGlobalBlob env b then
        let (g, st) = getOrCreateGlobal env b st in ((idx, HGlobal g) # mat, st)
      else
        let a = allocCount st;
            alloc = (if blobKind b = MKStack \<or> blobKind b = MKPersistent
                     then StackAllocation a (length (blobData b)) (blobAlign b)
                     else AlignedAlloc a (blobAlign b) (length (blobData b)))
        in ((idx, HAlloc a) # mat, st\<lparr>allocCount := a + 1, emits := emits st @ [alloc]\<rparr>))"

lemma materializeBlob_dom: "fst ` set (fst (materializeBlob env b idx ms)) = insert idx (fst ` set (fst ms))"
  by (cases ms) (auto simp: materializeBlob_def Let_def split: prod.splits)

definition missing :: "space \<Rightarrow> blob_map \<Rightarrow> nat set" where
  "missing sp mat = {i. i < length sp \<and> i \<notin> fst ` set mat}"

lemma missing_shrinks:
  assumes "idx < length sp" "idx \<notin> fst ` set (fst ms)"
  shows "card (missing sp (fst (materializeBlob env b idx ms))) < card (missing sp (fst ms))"
proof (rule psubset_card_mono)
  show "finite (missing sp (fst ms))" by (simp add: missing_def)
  show "missing sp (fst (materializeBlob env b idx ms)) \<subset> missing sp (fst ms)"
    using assms by (auto simp: missing_def materializeBlob_dom)
qed

text \<open>
  The recursive walk over pointer regions.  A blob's regions are finished before the ones that
  follow it, so the regions still to do are one list.
\<close>

function materializePtrRegionBlobs ::
  "interp_env \<Rightarrow> space \<Rightarrow> (nat \<times> nat \<times> nat) list \<Rightarrow> blob_map \<times> converter \<Rightarrow>
   (blob_map \<times> converter) error_or option" where
  "materializePtrRegionBlobs env sp [] ms = Some (Inr ms)"
| "materializePtrRegionBlobs env sp ((off, idx, po) # todo) ms =
     (if idx \<in> fst ` set (fst ms) then materializePtrRegionBlobs env sp todo ms
      else if \<not> idx < length sp then None
      else if blobKind (sp ! idx) = MKStack then
        Some (Inl ''indirect access to interpreter stack memory'')
      else materializePtrRegionBlobs env sp (blobRegions (sp ! idx) @ todo)
             (materializeBlob env (sp ! idx) idx ms))"
  by pat_completeness auto

termination
  by (relation "measures [\<lambda>(env, sp, todo, ms). card (missing sp (fst ms)),
        \<lambda>(env, sp, todo, ms). length todo]") (auto simp: missing_shrinks)

declare materializePtrRegionBlobs.simps [simp del]

section \<open>Whole spaces\<close>

fun resolveRegions :: "blob_map \<Rightarrow> (nat \<times> nat \<times> nat) list \<Rightarrow> pointer region list option" where
  "resolveRegions mat [] = Some []"
| "resolveRegions mat ((off, idx, po) # rest) =
     do {
       h \<leftarrow> map_of mat idx;
       rs \<leftarrow> resolveRegions mat rest;
       Some ((off, getBlobPointer h po) # rs)
     }"

text \<open>The copy loop over the space, in index order; globals and blobs not materialized are skipped.\<close>

fun copyBlobs :: "interp_env \<Rightarrow> blob_map \<Rightarrow> nat \<Rightarrow> space \<Rightarrow> converter \<Rightarrow> converter option" where
  "copyBlobs env mat idx [] st = Some st"
| "copyBlobs env mat idx (b # bs) st =
     (if isGlobalBlob env b then copyBlobs env mat (idx + 1) bs st
      else case map_of mat idx of
        Some (HAlloc a) \<Rightarrow>
          do {
            ptrs \<leftarrow> resolveRegions mat (blobRegions b);
            ops \<leftarrow> materializeBlobStores (blobData b) (blobAlign b) (simdBytes env) (pointerBytes env) ptrs;
            copyBlobs env mat (idx + 1) bs (st\<lparr>emits := emits st @ map (OnAlloc a) ops\<rparr>)
          }
      | Some (HGlobal g) \<Rightarrow> None
      | None \<Rightarrow> copyBlobs env mat (idx + 1) bs st)"

text \<open>Insertion into an existing map keeps the entries it has.\<close>

definition insertNew :: "blob_map \<Rightarrow> blob_map \<Rightarrow> blob_map" where
  "insertNew old new = old @ filter (\<lambda>p. fst p \<notin> fst ` set old) new"

lemma insertNew_keys: "fst ` set (insertNew old new) = fst ` set old \<union> fst ` set new"
  by (auto simp: insertNew_def image_iff)

definition getOrMaterialize ::
  "interp_env \<Rightarrow> space \<Rightarrow> nat \<Rightarrow> converter \<Rightarrow> (handle \<times> converter) error_or option" where
  "getOrMaterialize env sp refIndex st =
     (case Option.bind (map_of (spaceCache st) sp) (\<lambda>m. map_of m refIndex) of
        Some h \<Rightarrow> Some (Inr (h, st))
      | None \<Rightarrow>
          if \<not> refIndex < length sp then None
          else
            (case materializePtrRegionBlobs env sp (blobRegions (sp ! refIndex))
                    (materializeBlob env (sp ! refIndex) refIndex ([], st)) of
               None \<Rightarrow> None
             | Some (Inl e) \<Rightarrow> Some (Inl e)
             | Some (Inr (mat, st)) \<Rightarrow>
                 do {
                   st \<leftarrow> copyBlobs env mat 0 sp st;
                   let m = (case map_of (spaceCache st) sp of None \<Rightarrow> mat | Some old \<Rightarrow> insertNew old mat);
                   h \<leftarrow> map_of m refIndex;
                   Some (Inr (h, st\<lparr>spaceCache := (sp, m) # spaceCache st\<rparr>))
                 }))"

definition convertMemRef ::
  "interp_env \<Rightarrow> space \<Rightarrow> nat \<Rightarrow> nat \<Rightarrow> converter \<Rightarrow> (pointer \<times> converter) error_or option" where
  "convertMemRef env sp refIndex offset st =
     map_option (\<lambda>r. bind_err r (\<lambda>(h, st). Inr (getBlobPointer h offset, st)))
       (getOrMaterialize env sp refIndex st)"

section \<open>Exactly the reachable blobs are materialized\<close>

inductive reach :: "space \<Rightarrow> nat \<Rightarrow> nat \<Rightarrow> bool" for sp :: space and ref :: nat where
  reach_ref: "reach sp ref ref"
| reach_region: "reach sp ref i \<Longrightarrow> (off, j, po) \<in> set (blobRegions (sp ! i)) \<Longrightarrow> reach sp ref j"

text \<open>Every region of a space points into the space.\<close>

definition space_ok :: "space \<Rightarrow> bool" where
  "space_ok sp \<longleftrightarrow> list_all (\<lambda>b. list_all (\<lambda>(off, j, po). j < length sp) (blobRegions b)) sp"

lemma space_okD:
  "space_ok sp \<Longrightarrow> i < length sp \<Longrightarrow> (off, j, po) \<in> set (blobRegions (sp ! i)) \<Longrightarrow> j < length sp"
  using nth_mem [of i sp] by (fastforce simp: space_ok_def list_all_iff)

lemma reach_in_space: "reach sp ref i \<Longrightarrow> space_ok sp \<Longrightarrow> ref < length sp \<Longrightarrow> i < length sp"
  by (induction rule: reach.induct) (auto intro: space_okD)

definition targets :: "(nat \<times> nat \<times> nat) list \<Rightarrow> nat set" where
  "targets rs = (fst \<circ> snd) ` set rs"

text \<open>The invariant of the walk.\<close>

definition walk_inv :: "space \<Rightarrow> nat \<Rightarrow> (nat \<times> nat \<times> nat) list \<Rightarrow> nat set \<Rightarrow> bool" where
  "walk_inv sp ref todo D \<longleftrightarrow>
     ref \<in> D \<and> D \<subseteq> {i. reach sp ref i} \<and> targets todo \<subseteq> {i. reach sp ref i} \<and>
     (\<forall>i \<in> D. targets (blobRegions (sp ! i)) \<subseteq> D \<union> targets todo) \<and>
     (\<forall>i \<in> D. i \<noteq> ref \<longrightarrow> blobKind (sp ! i) \<noteq> MKStack)"

definition walk_result :: "space \<Rightarrow> nat \<Rightarrow> (blob_map \<times> converter) error_or \<Rightarrow> bool" where
  "walk_result sp ref r \<longleftrightarrow>
     (case r of
        Inr (mat, _) \<Rightarrow> fst ` set mat = {i. reach sp ref i} \<and>
          (\<forall>i. reach sp ref i \<and> i \<noteq> ref \<longrightarrow> blobKind (sp ! i) \<noteq> MKStack)
      | Inl e \<Rightarrow> e = ''indirect access to interpreter stack memory'' \<and>
          (\<exists>i. reach sp ref i \<and> i \<noteq> ref \<and> blobKind (sp ! i) = MKStack))"

lemma targets_simps [simp]:
  "targets [] = {}" "targets ((off, j, po) # rs) = insert j (targets rs)"
  "targets (xs @ ys) = targets xs \<union> targets ys"
  by (auto simp: targets_def)

lemma reach_targets: "reach sp ref i \<Longrightarrow> targets (blobRegions (sp ! i)) \<subseteq> {j. reach sp ref j}"
  by (auto simp: targets_def intro: reach_region)

lemma walk_inv_final: "walk_inv sp ref [] D \<Longrightarrow> D = {i. reach sp ref i}"
proof -
  assume inv: "walk_inv sp ref [] D"
  have "reach sp ref i \<Longrightarrow> i \<in> D" for i
  proof (induction rule: reach.induct)
    case (reach_region i off j po)
    then have "j \<in> targets (blobRegions (sp ! i))" by (force simp: targets_def)
    with reach_region inv show ?case by (auto simp: walk_inv_def)
  qed (use inv in \<open>simp add: walk_inv_def\<close>)
  with inv show ?thesis by (auto simp: walk_inv_def)
qed

lemma walk_inv_skip: "walk_inv sp ref ((off, j, po) # todo) D \<Longrightarrow> j \<in> D \<Longrightarrow> walk_inv sp ref todo D"
  by (auto simp: walk_inv_def)

lemma walk_inv_step:
  assumes "walk_inv sp ref ((off, j, po) # todo) D" "j \<notin> D" "blobKind (sp ! j) \<noteq> MKStack"
  shows "walk_inv sp ref (blobRegions (sp ! j) @ todo) (insert j D)"
proof -
  have "reach sp ref j" using assms(1) by (simp add: walk_inv_def)
  with reach_targets [OF this] assms show ?thesis by (auto simp: walk_inv_def)
qed

lemma walk_exact:
  assumes "walk_inv sp ref todo (fst ` set (fst ms))" "space_ok sp" "ref < length sp"
  shows "\<exists>r. materializePtrRegionBlobs env sp todo ms = Some r \<and> walk_result sp ref r"
  using assms
proof (induction env sp todo ms rule: materializePtrRegionBlobs.induct)
  case (1 env sp ms)
  then show ?case
    using walk_inv_final [OF "1.prems"(1)]
    by (cases ms) (auto simp: materializePtrRegionBlobs.simps walk_result_def walk_inv_def)
next
  case (2 env sp off j po todo ms)
  let ?D = "fst ` set (fst ms)"
  note step = materializePtrRegionBlobs.simps(2) [of env sp off j po todo ms]
  have r: "reach sp ref j" using "2.prems"(1) by (simp add: walk_inv_def)
  have j: "j < length sp" using reach_in_space [OF r "2.prems"(2,3)] .
  show ?case
  proof (cases "j \<in> ?D")
    case True
    with walk_inv_skip [OF "2.prems"(1)] have "walk_inv sp ref todo ?D" .
    with True "2.IH"(1) "2.prems"(2,3) show ?thesis by (simp add: step)
  next
    case new: False
    show ?thesis
    proof (cases "blobKind (sp ! j) = MKStack")
      case True
      moreover have "j \<noteq> ref" using new "2.prems"(1) by (auto simp: walk_inv_def)
      ultimately show ?thesis using new j r by (auto simp: step walk_result_def)
    next
      case False
      then have "walk_inv sp ref (blobRegions (sp ! j) @ todo)
          (fst ` set (fst (materializeBlob env (sp ! j) j ms)))"
        using walk_inv_step [OF "2.prems"(1) new] by (simp add: materializeBlob_dom)
      with "2.IH"(2) [OF new _ False] j new False "2.prems"(2,3) show ?thesis by (simp add: step)
    qed
  qed
qed

lemma walk_inv_start:
  "walk_inv sp ref (blobRegions (sp ! ref)) {ref}"
  using reach_targets [OF reach_ref, of sp ref] by (auto simp: walk_inv_def intro: reach_ref)

text \<open>
  C8. Materializing a reference terminates, and it gives a handle to exactly the blobs that can be
  reached from it through pointer regions.  It fails with its one error message exactly when a stack
  blob other than the referenced one is reachable.
\<close>
theorem materializes_reachable:
  assumes "space_ok sp" "ref < length sp"
  shows "\<exists>r. materializePtrRegionBlobs env sp (blobRegions (sp ! ref))
        (materializeBlob env (sp ! ref) ref ([], st)) = Some r \<and>
      (case r of
         Inr (mat, _) \<Rightarrow> fst ` set mat = {i. reach sp ref i} \<and>
           \<not> (\<exists>i. reach sp ref i \<and> i \<noteq> ref \<and> blobKind (sp ! i) = MKStack)
       | Inl e \<Rightarrow> e = ''indirect access to interpreter stack memory'' \<and>
           (\<exists>i. reach sp ref i \<and> i \<noteq> ref \<and> blobKind (sp ! i) = MKStack))"
proof -
  have "walk_inv sp ref (blobRegions (sp ! ref)) (fst ` set (fst (materializeBlob env (sp ! ref) ref ([], st))))"
    by (simp add: materializeBlob_dom walk_inv_start)
  from walk_exact [OF this assms] obtain r where
    r: "materializePtrRegionBlobs env sp (blobRegions (sp ! ref))
        (materializeBlob env (sp ! ref) ref ([], st)) = Some r" and "walk_result sp ref r" by blast
  then show ?thesis by (cases r) (auto simp: walk_result_def)
qed

text \<open>Two blobs that point to a third one.\<close>

definition pointing_blob :: blob where
  "pointing_blob = \<lparr>blobKind = MKOther 0, blobIsString = False, blobData = replicate 8 0, blobAlign = 8,
     blobRegions = [(0, 2, 0)], blobAddressSpace = 0\<rparr>"

definition plain_blob :: blob where
  "plain_blob = \<lparr>blobKind = MKOther 0, blobIsString = False, blobData = [5], blobAlign = 1,
     blobRegions = [], blobAddressSpace = 0\<rparr>"

definition sample_space :: space where
  "sample_space = [pointing_blob, pointing_blob, plain_blob]"

definition sample_env :: interp_env where
  "sample_env = \<lparr>isGlobalBlob = (\<lambda>b. blobKind b = MKConstGlobal), contentHash = (\<lambda>_. ''0''),
     pointerBytes = 8, simdBytes = 16, literalIsString = True, literalAlign = 1\<rparr>"

definition empty_converter :: converter where
  "empty_converter = \<lparr>globalTable = [], globalOps = [], emits = [], allocCount = 0, spaceCache = []\<rparr>"

lemmas eval_space = sample_space_def pointing_blob_def plain_blob_def

theorem materializes_reachable_witness:
  "\<exists>r. materializePtrRegionBlobs sample_env sample_space (blobRegions (sample_space ! 0))
        (materializeBlob sample_env (sample_space ! 0) 0 ([], empty_converter)) = Some r \<and>
      (case r of
         Inr (mat, _) \<Rightarrow> fst ` set mat = {i. reach sample_space 0 i} \<and>
           \<not> (\<exists>i. reach sample_space 0 i \<and> i \<noteq> 0 \<and> blobKind (sample_space ! i) = MKStack)
       | Inl e \<Rightarrow> e = ''indirect access to interpreter stack memory'' \<and>
           (\<exists>i. reach sample_space 0 i \<and> i \<noteq> 0 \<and> blobKind (sample_space ! i) = MKStack))"
  by (rule materializes_reachable) (simp_all add: space_ok_def eval_space)

section \<open>Nothing is left unresolved\<close>

lemma chunkLoop_total: "0 < simd \<Longrightarrow> \<exists>ops. chunkLoop bytes align simd psz i ptrs st = Some ops"
proof (induction bytes align simd psz i ptrs st rule: chunkLoop.induct)
  case (1 bytes align simd psz i ptrs st)
  then show ?case
    by (subst chunkLoop.simps) (auto simp: Let_def split: list.splits)
qed

lemma blobStores_total: "0 < simd \<Longrightarrow> \<exists>ops. materializeBlobStores bytes align simd psz ptrs = Some ops"
  by (simp add: materializeBlobStores_def chunkLoop_total)

text \<open>A blob that is not a global has an allocation for its handle.\<close>

definition handles_ok :: "interp_env \<Rightarrow> space \<Rightarrow> blob_map \<Rightarrow> bool" where
  "handles_ok env sp mat \<longleftrightarrow>
     (\<forall>i h. map_of mat i = Some h \<longrightarrow> isGlobalBlob env (sp ! i) \<or> (\<exists>a. h = HAlloc a))"

lemma materializeBlob_handles:
  "handles_ok env sp (fst ms) \<Longrightarrow> handles_ok env sp (fst (materializeBlob env (sp ! i) i ms))"
  by (cases ms) (auto simp: handles_ok_def materializeBlob_def Let_def split: prod.splits)

lemma walk_handles:
  "materializePtrRegionBlobs env sp todo ms = Some (Inr (mat, st)) \<Longrightarrow> handles_ok env sp (fst ms) \<Longrightarrow>
   handles_ok env sp mat"
  by (induction env sp todo ms rule: materializePtrRegionBlobs.induct)
    (auto simp: materializePtrRegionBlobs.simps materializeBlob_handles split: if_splits)

lemma resolveRegions_total:
  "targets rs \<subseteq> fst ` set mat \<Longrightarrow> \<exists>ps. resolveRegions mat rs = Some ps"
proof (induction rs)
  case (Cons r rs)
  obtain off j po where r: "r = (off, j, po)" by (metis prod_cases3)
  with Cons obtain ps where "resolveRegions mat rs = Some ps" by auto
  moreover have "j \<in> fst ` set mat" using Cons.prems r by simp
  then obtain h where "map_of mat j = Some h" by (metis map_of_eq_None_iff option.exhaust)
  ultimately show ?case by (simp add: r)
qed simp

lemma copyBlobs_total:
  assumes "handles_ok env sp mat" "0 < simdBytes env"
    and "\<And>i. i \<in> fst ` set mat \<Longrightarrow> targets (blobRegions (sp ! i)) \<subseteq> fst ` set mat"
  shows "idx \<le> length sp \<Longrightarrow> bs = drop idx sp \<Longrightarrow> \<exists>st'. copyBlobs env mat idx bs st = Some st'"
proof (induction bs arbitrary: idx st)
  case (Cons b bs)
  have lt: "idx < length sp" using Cons.prems(2) by (cases "idx < length sp") auto
  have idx: "idx < length sp" "b = sp ! idx" "bs = drop (idx + 1) sp"
    using lt Cons.prems(2) [folded Cons_nth_drop_Suc [OF lt]] by auto
  note IH = Cons.IH [OF _ idx(3)]
  show ?case
  proof (cases "isGlobalBlob env b \<or> map_of mat idx = None")
    case True
    with IH idx(1) show ?thesis by auto
  next
    case False
    then obtain h where h: "map_of mat idx = Some h" by auto
    with False assms(1) idx(2) obtain a where a: "h = HAlloc a" by (auto simp: handles_ok_def)
    have "idx \<in> fst ` set mat" using h by (metis map_of_eq_None_iff option.distinct(1))
    then obtain ps where "resolveRegions mat (blobRegions b) = Some ps"
      using resolveRegions_total assms(3) idx(2) by blast
    moreover obtain ops where
      "materializeBlobStores (blobData b) (blobAlign b) (simdBytes env) (pointerBytes env) ps = Some ops"
      using blobStores_total [OF assms(2)] by blast
    ultimately show ?thesis using False h a IH idx(1) by simp
  qed
qed simp

text \<open>
  C24. Converting a reference to interpreter memory always returns: either the one error message, and
  then a stack blob is reachable indirectly, or a handle, and then asking for the same reference
  again returns the same handle and emits nothing.
\<close>
theorem getOrMaterialize_returns:
  assumes "space_ok sp" "ref < length sp" "0 < simdBytes env"
  shows "\<exists>r. getOrMaterialize env sp ref st = Some r \<and>
    (case r of
       Inl e \<Rightarrow> \<exists>i. reach sp ref i \<and> i \<noteq> ref \<and> blobKind (sp ! i) = MKStack
     | Inr (h, st') \<Rightarrow> getOrMaterialize env sp ref st' = Some (Inr (h, st')))"
proof (cases "Option.bind (map_of (spaceCache st) sp) (\<lambda>m. map_of m ref)")
  case (Some h)
  then show ?thesis by (simp add: getOrMaterialize_def)
next
  case None
  let ?ms = "materializeBlob env (sp ! ref) ref ([], st)"
  have inv: "walk_inv sp ref (blobRegions (sp ! ref)) (fst ` set (fst ?ms))"
    by (simp add: materializeBlob_dom walk_inv_start)
  from walk_exact [OF inv assms(1,2)] obtain r where
    r: "materializePtrRegionBlobs env sp (blobRegions (sp ! ref)) ?ms = Some r" "walk_result sp ref r"
    by blast
  show ?thesis
  proof (cases r)
    case (Inl e)
    with r None assms(2) show ?thesis by (auto simp: getOrMaterialize_def walk_result_def)
  next
    case (Inr p)
    obtain mat st1 where p: "p = (mat, st1)" by force
    have D: "fst ` set mat = {i. reach sp ref i}" using r Inr p by (simp add: walk_result_def)
    have "handles_ok env sp (fst ?ms)" by (rule materializeBlob_handles) (simp add: handles_ok_def)
    then have "handles_ok env sp mat" using walk_handles r Inr p by blast
    moreover have "\<And>i. i \<in> fst ` set mat \<Longrightarrow> targets (blobRegions (sp ! i)) \<subseteq> fst ` set mat"
      using D reach_targets by simp
    ultimately have "\<exists>st2. copyBlobs env mat 0 sp st1 = Some st2"
      by (intro copyBlobs_total) (use assms(3) in auto)
    then obtain st2 where st2: "copyBlobs env mat 0 sp st1 = Some st2" by blast
    let ?m = "case map_of (spaceCache st2) sp of None \<Rightarrow> mat | Some old \<Rightarrow> insertNew old mat"
    have "ref \<in> fst ` set mat" using D reach_ref [of sp ref] by simp
    then have "ref \<in> fst ` set ?m"
      by (auto simp: insertNew_keys split: option.split)
    then obtain h where h: "map_of ?m ref = Some h" by (metis map_of_eq_None_iff option.exhaust)
    have "getOrMaterialize env sp ref st = Some (Inr (h, st2\<lparr>spaceCache := (sp, ?m) # spaceCache st2\<rparr>))"
      using None assms(2) r(1) Inr p st2 h by (simp add: getOrMaterialize_def)
    moreover have "getOrMaterialize env sp ref (st2\<lparr>spaceCache := (sp, ?m) # spaceCache st2\<rparr>) =
        Some (Inr (h, st2\<lparr>spaceCache := (sp, ?m) # spaceCache st2\<rparr>))"
      using h by (simp add: getOrMaterialize_def)
    ultimately show ?thesis by simp
  qed
qed

theorem getOrMaterialize_returns_witness:
  "\<exists>r. getOrMaterialize sample_env sample_space 0 empty_converter = Some r \<and>
    (case r of
       Inl e \<Rightarrow> \<exists>i. reach sample_space 0 i \<and> i \<noteq> 0 \<and> blobKind (sample_space ! i) = MKStack
     | Inr (h, st') \<Rightarrow> getOrMaterialize sample_env sample_space 0 st' = Some (Inr (h, st')))"
  by (rule getOrMaterialize_returns) (simp_all add: space_ok_def eval_space sample_env_def)

text \<open>
  References into one space do not share what they reach.  Blobs 0 and 1 of the sample space hold
  a pointer to the same blob 2; materializing the one and then the other allocates blob 2 twice, and
  the two stored pointers differ.
\<close>
theorem shared_blob_materialized_twice:
  "\<exists>st1 st2. getOrMaterialize sample_env sample_space 0 empty_converter = Some (Inr (HAlloc 0, st1)) \<and>
     getOrMaterialize sample_env sample_space 1 st1 = Some (Inr (HAlloc 2, st2)) \<and>
     OnAlloc 0 (StorePointer 0 (HAlloc 1, 0) 8) \<in> set (emits st2) \<and>
     OnAlloc 2 (StorePointer 0 (HAlloc 3, 0) 8) \<in> set (emits st2)"
  by (simp add: getOrMaterialize_def eval_space sample_env_def empty_converter_def
      materializePtrRegionBlobs.simps materializeBlob_def Let_def materializeBlobStores_def
      chunkLoop.simps materializeStore_def commitCompressedStores_def commitLoop.simps
      materializeVectorStores.simps getBlobPointer_def insertNew_def)

section \<open>One global per blob\<close>

definition globals_ok :: "converter \<Rightarrow> bool" where
  "globals_ok st \<longleftrightarrow>
     distinct (map snd (globalTable st)) \<and>
     (\<forall>(b, g) \<in> set (globalTable st). g < length (globalOps st) \<and> globalBytes (globalOps st ! g) = blobData b)"

lemma getOrCreateGlobal_entry:
  assumes "globals_ok st" "getOrCreateGlobal env b st = (g, st')"
  shows "globals_ok st'" and "map_of (globalTable st') b = Some g"
proof -
  have "globals_ok st' \<and> map_of (globalTable st') b = Some g"
  proof (cases "map_of (globalTable st) b")
    case None
    with assms show ?thesis
      by (fastforce simp: getOrCreateGlobal_def globals_ok_def Let_def nth_append)
  next
    case (Some g')
    with assms show ?thesis by (simp add: getOrCreateGlobal_def)
  qed
  then show "globals_ok st'" "map_of (globalTable st') b = Some g" by simp_all
qed

lemma global_lookup:
  assumes "globals_ok st" "getOrCreateGlobal env b st = (g, st')"
  shows "globals_ok st' \<and> globalBytes (globalOps st' ! g) = blobData b"
  using getOrCreateGlobal_entry [OF assms] by (auto simp: globals_ok_def dest!: map_of_SomeD)

text \<open>
  As long as the table keeps its invariant, as it does from the empty one on, it hands out one global per blob: the number returned names a global with the
  blob's bytes, a second request returns the same number and adds nothing, different blobs get
  different globals, and the table's invariant is kept.
\<close>
theorem getOrCreateGlobal_unique:
  assumes "globals_ok st" "getOrCreateGlobal env b st = (g, st')"
  shows "globals_ok st' \<and> globalBytes (globalOps st' ! g) = blobData b \<and>
    getOrCreateGlobal env b st' = (g, st') \<and>
    (b' \<noteq> b \<longrightarrow> fst (getOrCreateGlobal env b' st') \<noteq> g)"
proof -
  have ok': "globals_ok st' \<and> map_of (globalTable st') b = Some g"
    using getOrCreateGlobal_entry [OF assms] by simp
  then have mem: "(b, g) \<in> set (globalTable st')" by (simp add: map_of_SomeD)
  have "fst (getOrCreateGlobal env b' st') \<noteq> g" if "b' \<noteq> b"
  proof (cases "map_of (globalTable st') b'")
    case None
    moreover have "g < length (globalOps st')" using ok' mem by (auto simp: globals_ok_def)
    ultimately show ?thesis by (simp add: getOrCreateGlobal_def Let_def)
  next
    case (Some g')
    then have "(b', g') \<in> set (globalTable st')" by (simp add: map_of_SomeD)
    moreover have "inj_on snd (set (globalTable st'))"
      using ok' by (simp add: globals_ok_def distinct_map)
    ultimately have "g' \<noteq> g" using inj_onD [of snd _ "(b', g')" "(b, g)"] mem that by auto
    with Some show ?thesis by (simp add: getOrCreateGlobal_def)
  qed
  moreover have "globalBytes (globalOps st' ! g) = blobData b" using global_lookup [OF assms] by simp
  ultimately show ?thesis using ok' by (simp add: getOrCreateGlobal_def)
qed

theorem getOrCreateGlobal_unique_witness:
  "globals_ok (snd (getOrCreateGlobal sample_env plain_blob empty_converter)) \<and>
   fst (getOrCreateGlobal sample_env pointing_blob
     (snd (getOrCreateGlobal sample_env plain_blob empty_converter))) \<noteq> 0"
proof -
  obtain st' where st': "getOrCreateGlobal sample_env plain_blob empty_converter = (0, st')"
    by (auto simp: getOrCreateGlobal_def empty_converter_def Let_def)
  have "globals_ok empty_converter" by (simp add: globals_ok_def empty_converter_def)
  moreover have "pointing_blob \<noteq> plain_blob" by (simp add: pointing_blob_def plain_blob_def)
  ultimately show ?thesis
    using getOrCreateGlobal_unique [OF _ st', of pointing_blob] by (simp add: st')
qed

end
