(* ===== verification/Param_Conversion.thy ===== *)
theory Param_Conversion
  imports Type_Conversion Interp_Memory
begin

text \<open>
  Constants: \<^verbatim>\<open>convertParameterToLLVM\<close> and its helpers
  (\<^verbatim>\<open>LLVMLoweringUtils.cpp\<close>, from \<^verbatim>\<open>convertSIMDAttr\<close> to the end of the file).  The operations the
  builder creates are the constructors of \<open>llv\<close>, a value being the tree of its defining operations.
\<close>

section \<open>Values and attributes\<close>

datatype llv =
    UndefV ll_type
  | IntV nat int
  | FloatV string nat int
  | IntVecV nat "int list"
  | FloatVecV string nat "int list"
  | IntToPtrV ll_type llv
  | InsertV llv llv nat
  | AllocaV ll_type llv nat
  | AddressOfV ll_type string
  | BlobV ll_type pointer
  | UnionV "ll_type list" llv
  | ResultV nat ll_type
  | ExtractV llv nat

fun llv_type :: "llv \<Rightarrow> ll_type" where
  "llv_type (UndefV t) = t"
| "llv_type (IntV w _) = LInt w"
| "llv_type (FloatV n w _) = LFloat n w"
| "llv_type (IntVecV w vs) = LVec (length vs) (LInt w)"
| "llv_type (FloatVecV n w vs) = LVec (length vs) (LFloat n w)"
| "llv_type (IntToPtrV t _) = t"
| "llv_type (InsertV a _ _) = llv_type a"
| "llv_type (AllocaV t _ _) = t"
| "llv_type (AddressOfV t _) = t"
| "llv_type (BlobV t _) = t"
| "llv_type (UnionV body _) = LStruct body"
| "llv_type (ResultV _ t) = t"
| "llv_type (ExtractV a i) =
     (case llv_type a of LStruct ts \<Rightarrow> if i < length ts then ts ! i else LVoid | LArr _ t \<Rightarrow> t | _ \<Rightarrow> LVoid)"

text \<open>
  The attributes the function tells apart.  A data type's value is its bit pattern; \<open>AOther\<close> carries
  the message a parameter attribute may have about itself and its printed form.
\<close>

datatype attr =
    AUninit kg_type
  | AInteger nat int
  | AIndex int
  | AFloat string int
  | ADType int
  | ANone
  | APointer nat int
  | AStoreToMem nat attr
  | AMemRef "string option" string nat space nat nat
  | AString "nat list"
  | ACallable bool string kg_type
  | ASimd kgen_dtype "int list"
  | AArray kg_type "attr list"
  | AStruct "kg_type list" "attr list"
  | AUnion "kg_type list" attr
  | AOther "string option" string

section \<open>Vectors\<close>

definition floatConst :: "conv_env \<Rightarrow> string \<Rightarrow> int list \<Rightarrow> bool \<Rightarrow> llv option" where
  "floatConst e f vals scalar =
     do {
       (n, w) \<leftarrow> ce_floatType e f;
       Some (case isFPTyLoweredAsInt n of
               Some iw \<Rightarrow> if scalar then IntV iw (hd vals) else IntVecV iw vals
             | None \<Rightarrow> if scalar then FloatV n w (hd vals) else FloatVecV n w vals)
     }"

definition convertSIMDAttr :: "conv_env \<Rightarrow> kgen_dtype \<Rightarrow> int list \<Rightarrow> llv option" where
  "convertSIMDAttr e dtype vals =
     (if length vals = 1 then
        (case dtype of
           DBool \<Rightarrow> Some (IntV 1 (hd vals))
         | DInt w _ \<Rightarrow> Some (IntV w (hd vals))
         | DIndex \<Rightarrow> Some (IntV (ce_indexBits e) (hd vals))
         | DUIndex \<Rightarrow> Some (IntV (ce_indexBits e) (hd vals))
         | DAddress \<Rightarrow> Some (IntToPtrV (LPtr 0) (IntV (ce_indexBits e) (hd vals)))
         | DFloat f \<Rightarrow> floatConst e f vals True
         | DInvalid \<Rightarrow> None)
      else
        (case dtype of
           DBool \<Rightarrow> Some (IntVecV 1 vals)
         | DInt w _ \<Rightarrow> Some (IntVecV w vals)
         | DIndex \<Rightarrow> Some (IntVecV (ce_indexBits e) vals)
         | DUIndex \<Rightarrow> Some (IntVecV (ce_indexBits e) vals)
         | DAddress \<Rightarrow> Some (IntToPtrV (LVec (length vals) (LPtr 0)) (IntVecV (ce_indexBits e) vals))
         | DFloat f \<Rightarrow> floatConst e f vals False
         | DInvalid \<Rightarrow> None))"

section \<open>Strings and calls\<close>

text \<open>A string literal is stored with its terminator; the size in the struct leaves it out.\<close>

definition stringBlob :: "interp_env \<Rightarrow> nat list \<Rightarrow> blob" where
  "stringBlob ie s = \<lparr>blobKind = MKConstGlobal, blobIsString = literalIsString ie, blobData = s @ [0],
     blobAlign = literalAlign ie,
     blobRegions = [], blobAddressSpace = 0\<rparr>"

definition lowerStringToGlobalConstant ::
  "interp_env \<Rightarrow> conv_env \<Rightarrow> nat list \<Rightarrow> converter \<Rightarrow> llv \<times> converter" where
  "lowerStringToGlobalConstant ie e s st =
     (let (g, st) = getOrCreateGlobal ie (stringBlob ie s) st;
          sizeVal = IntV (ce_indexBits e) (int (length s));
          undefOp = UndefV (getLLVMTypeForKGENStringType e);
          llvmString = BlobV (LPtr 0) (HGlobal g, 0)
      in (InsertV (InsertV undefOp llvmString 0) sizeVal 1, st))"

fun insertElements :: "llv \<Rightarrow> nat \<Rightarrow> llv list \<Rightarrow> llv" where
  "insertElements container index [] = container"
| "insertElements container index (v # vs) = insertElements (InsertV container v index) (index + 1) vs"

definition materializeLLVMStruct :: "ll_type \<Rightarrow> llv list \<Rightarrow> llv" where
  "materializeLLVMStruct t elements = insertElements (UndefV t) 0 elements"

text \<open>The values that replace the results of a call, from those of the LLVM call.\<close>

definition replaceCallWithLLVMCall :: "nat \<Rightarrow> llv list \<Rightarrow> llv list option" where
  "replaceCallWithLLVMCall numResults callResults =
     (if numResults \<le> 1 then Some callResults
      else case callResults of
        [] \<Rightarrow> None
      | r # _ \<Rightarrow> Some (map (ExtractV r) [0 ..< numResults]))"

section \<open>Attributes\<close>

type_synonym conv_result = "((llv \<times> converter) error_or) option"

definition returnV :: "llv \<Rightarrow> converter \<Rightarrow> conv_result" where
  "returnV v st = Some (Inr (v, st))"

definition liftNull :: "llv option \<Rightarrow> converter \<Rightarrow> conv_result" where
  "liftNull v st = map_option (\<lambda>v. Inr (v, st)) v"

definition unknownAttr :: "string option \<Rightarrow> string \<Rightarrow> string" where
  "unknownAttr msg printed =
     (case msg of Some m \<Rightarrow> m | None \<Rightarrow> ''cannot lower unknown attribute to LLVM: '' @ printed)"

text \<open>
  The flags say whether a memory converter and a materialization scope were passed.  The two loops
  insert into the aggregate, at the element's own index or at the remapped field index.
\<close>

fun convertParameterToLLVM ::
    "interp_env \<Rightarrow> conv_env \<Rightarrow> bool \<Rightarrow> bool \<Rightarrow> attr \<Rightarrow> converter \<Rightarrow> conv_result"
  and convertArrayElements ::
    "interp_env \<Rightarrow> conv_env \<Rightarrow> bool \<Rightarrow> bool \<Rightarrow> attr list \<Rightarrow> nat \<Rightarrow> llv \<Rightarrow> converter \<Rightarrow> conv_result"
  and convertStructElements ::
    "interp_env \<Rightarrow> conv_env \<Rightarrow> bool \<Rightarrow> bool \<Rightarrow> kg_type list \<Rightarrow> attr list \<Rightarrow> nat \<Rightarrow> llv \<Rightarrow> converter \<Rightarrow> conv_result" where
  "convertParameterToLLVM ie e imc scope (AUninit t) st =
     (case convertType e t of
        None \<Rightarrow> Some (Inl ''unknown type lowering uninitialized memory'')
      | Some u \<Rightarrow> returnV (UndefV u) st)"
| "convertParameterToLLVM ie e imc scope (AInteger w x) st = returnV (IntV w x) st"
| "convertParameterToLLVM ie e imc scope (AIndex x) st =
     returnV (IntV (ce_indexBits e) (x mod 2 ^ ce_indexBits e)) st"
| "convertParameterToLLVM ie e imc scope (AFloat f x) st = liftNull (floatConst e f [x] True) st"
| "convertParameterToLLVM ie e imc scope (ADType x) st = returnV (IntV 8 x) st"
| "convertParameterToLLVM ie e imc scope ANone st = returnV (UndefV (LStruct [])) st"
| "convertParameterToLLVM ie e imc scope (APointer as addr) st =
     returnV (IntToPtrV (LPtr as) (IntV (ce_indexBits e) addr)) st"
| "convertParameterToLLVM ie e imc scope (AStoreToMem as a) st =
     (case convertParameterToLLVM ie e imc scope a st of
        Some (Inr (v, st)) \<Rightarrow>
          liftNull (map_option (AllocaV (LPtr as) v) (getTypeABIAlign (ce_layout e) (llv_type v))) st
      | r \<Rightarrow> r)"
| "convertParameterToLLVM ie e imc scope (AMemRef msg printed as sp idx off) st =
     (if scope then
        map_option (\<lambda>r. bind_err r (\<lambda>(p, st). Inr (BlobV (LPtr as) p, st))) (convertMemRef ie sp idx off st)
      else Some (Inl (unknownAttr msg printed)))"
| "convertParameterToLLVM ie e imc scope (AString s) st =
     (if \<not> imc then Some (Inl ''cannot lower string constant without target memory model'')
      else case lowerStringToGlobalConstant ie e s st of (v, st) \<Rightarrow> returnV v st)"
| "convertParameterToLLVM ie e imc scope (ACallable capturing symbol t) st =
     (if capturing
      then Some (Inl ''TODO: capturing closures cannot be materialized as runtime values'')
      else liftNull (map_option (\<lambda>u. AddressOfV u symbol) (convertType e t)) st)"
| "convertParameterToLLVM ie e imc scope (ASimd d vals) st = liftNull (convertSIMDAttr e d vals) st"
| "convertParameterToLLVM ie e imc scope (AArray elt as) st =
     (case convertType e (KArray (Some (length as)) elt) of
        None \<Rightarrow> Some (Inl ''cannot lower array constant with unknown type'')
      | Some u \<Rightarrow> convertArrayElements ie e imc scope as 0 (UndefV u) st)"
| "convertParameterToLLVM ie e imc scope (AStruct elts as) st =
     (case convertType e (KStruct (Some elts)) of
        None \<Rightarrow> Some (Inl ''cannot lower struct constant with unknown type'')
      | Some u \<Rightarrow> convertStructElements ie e imc scope elts as 0 (UndefV u) st)"
| "convertParameterToLLVM ie e imc scope (AUnion ts a) st =
     (case convertParameterToLLVM ie e imc scope a st of
        Some (Inr (v, st)) \<Rightarrow>
          (case convertType e (KUnion ts) of
             Some (LStruct body) \<Rightarrow> returnV (UnionV body v) st
           | Some _ \<Rightarrow> None
           | None \<Rightarrow> Some (Inl ''cannot lower union constant with unknown type''))
      | r \<Rightarrow> r)"
| "convertParameterToLLVM ie e imc scope (AOther msg printed) st =
     Some (Inl (unknownAttr msg printed))"
| "convertArrayElements ie e imc scope [] idx aggregate st = returnV aggregate st"
| "convertArrayElements ie e imc scope (a # as) idx aggregate st =
     (case convertParameterToLLVM ie e imc scope a st of
        Some (Inr (v, st)) \<Rightarrow>
          convertArrayElements ie e imc scope as (idx + 1) (InsertV aggregate v idx) st
      | r \<Rightarrow> r)"
| "convertStructElements ie e imc scope elts [] idx aggregate st = returnV aggregate st"
| "convertStructElements ie e imc scope elts (a # as) idx aggregate st =
     (case convertParameterToLLVM ie e imc scope a st of
        Some (Inr (v, st)) \<Rightarrow>
          (case getRemappedFieldIndex (structFieldIndexCache e elts) elts idx of
             None \<Rightarrow> None
           | Some llvmIdx \<Rightarrow>
               convertStructElements ie e imc scope elts as (idx + 1) (InsertV aggregate v llvmIdx) st)
      | r \<Rightarrow> r)"

section \<open>Constants have the type of their attribute\<close>

fun elementType :: "ll_type \<Rightarrow> nat \<Rightarrow> ll_type option" where
  "elementType (LStruct ts) i = (if i < length ts then Some (ts ! i) else None)"
| "elementType (LArr n t) i = (if i < n then Some t else None)"
| "elementType _ i = None"

text \<open>What the LLVM dialect's verifier asks of the two operations on aggregates.\<close>

fun wellTyped :: "llv \<Rightarrow> bool" where
  "wellTyped (InsertV a v i) \<longleftrightarrow>
     wellTyped a \<and> wellTyped v \<and> elementType (llv_type a) i = Some (llv_type v)"
| "wellTyped (ExtractV a i) \<longleftrightarrow> wellTyped a \<and> elementType (llv_type a) i \<noteq> None"
| "wellTyped (IntToPtrV t v) \<longleftrightarrow> wellTyped v"
| "wellTyped (AllocaV t v a) \<longleftrightarrow> wellTyped v"
| "wellTyped (UnionV body v) \<longleftrightarrow> wellTyped v"
| "wellTyped _ \<longleftrightarrow> True"

fun attrType :: "conv_env \<Rightarrow> attr \<Rightarrow> ll_type option" where
  "attrType e (AUninit t) = convertType e t"
| "attrType e (AInteger w _) = Some (LInt w)"
| "attrType e (AIndex _) = Some (LInt (ce_indexBits e))"
| "attrType e (AFloat f _) = getMLIRTypeForDType e (DFloat f)"
| "attrType e (ADType _) = convertType e KDType"
| "attrType e ANone = convertType e KNone"
| "attrType e (APointer as _) = convertType e (KPtr as)"
| "attrType e (AStoreToMem as _) = convertType e (KPtr as)"
| "attrType e (AMemRef _ _ as _ _ _) = convertType e (KPtr as)"
| "attrType e (AString _) = convertType e KString"
| "attrType e (ACallable _ _ t) = convertType e t"
| "attrType e (ASimd d vals) = convertType e (KSimd (Some d) (Some (length vals)))"
| "attrType e (AArray elt as) = convertType e (KArray (Some (length as)) elt)"
| "attrType e (AStruct elts _) = convertType e (KStruct (Some elts))"
| "attrType e (AUnion ts _) = convertType e (KUnion ts)"
| "attrType e (AOther _ _) = None"

text \<open>What the attribute verifiers guarantee: elements have the element types.\<close>

fun attr_ok :: "conv_env \<Rightarrow> attr \<Rightarrow> bool" where
  "attr_ok e (AStoreToMem _ a) \<longleftrightarrow> attr_ok e a"
| "attr_ok e (AArray elt as) \<longleftrightarrow> (\<forall>a \<in> set as. attr_ok e a \<and> attrType e a = convertType e elt)"
| "attr_ok e (AStruct elts as) \<longleftrightarrow>
     length as = length elts \<and> (\<forall>a \<in> set as. attr_ok e a) \<and> map (attrType e) as = map (convertType e) elts"
| "attr_ok e (AUnion ts a) \<longleftrightarrow> attr_ok e a"
| "attr_ok e _ \<longleftrightarrow> True"

lemma layoutFields_Cons:
  assumes "layoutFields e (k # ks) tys idxs off = Some r"
  shows "\<exists>t padded off2. convertType e k = Some t \<and> (padded = tys \<or> (\<exists>p. padded = tys @ [p])) \<and>
    layoutFields e ks (padded @ [t]) (idxs @ [length padded]) off2 = Some r"
proof -
  let ?pad = "\<lambda>a b. if alignTo off b < alignTo off a then tys @ [LArr (alignTo off a - off) i8] else tys"
  from assms obtain t a n b where t: "convertType e k = Some t"
    and "ce_kgAlign e k = Some a" "ce_kgAlloc e k = Some n" "getTypeABIAlign (ce_layout e) t = Some b"
    by (auto simp: bind_eq_Some_conv)
  with assms have "layoutFields e ks (?pad a b @ [t]) (idxs @ [length (?pad a b)]) (alignTo off a + n) = Some r"
    by (simp only: layoutFields.simps Let_def bind.bind_lunit)
  moreover have "?pad a b = tys \<or> (\<exists>p. ?pad a b = tys @ [p])" by simp
  ultimately show ?thesis using t by blast
qed

lemma layoutFields_index:
  "layoutFields e ks tys idxs off = Some (tys', idxs', off') \<Longrightarrow>
   (\<exists>ts. tys' = tys @ ts) \<and>
   (\<exists>js. idxs' = idxs @ js \<and> length js = length ks \<and>
      (\<forall>i < length ks. js ! i < length tys' \<and> convertType e (ks ! i) = Some (tys' ! (js ! i))))"
proof (induction ks arbitrary: tys idxs off)
  case (Cons k ks)
  from Cons.prems obtain t padded off2 where t: "convertType e k = Some t"
    and padded: "padded = tys \<or> (\<exists>p. padded = tys @ [p])"
    and rest': "layoutFields e ks (padded @ [t]) (idxs @ [length padded]) off2 = Some (tys', idxs', off')"
    using layoutFields_Cons by blast
  from padded obtain pad where "padded = tys @ pad" by auto
  with rest' have rest: "layoutFields e ks ((tys @ pad) @ [t]) (idxs @ [length (tys @ pad)]) off2 =
      Some (tys', idxs', off')" by simp
  from Cons.IH [OF rest] obtain ts js where
    ts: "tys' = tys @ pad @ t # ts" and js: "idxs' = idxs @ length (tys @ pad) # js" "length js = length ks"
    and nth: "\<forall>i < length ks. js ! i < length tys' \<and> convertType e (ks ! i) = Some (tys' ! (js ! i))"
    by auto
  have "\<forall>i < length (k # ks). (length (tys @ pad) # js) ! i < length tys' \<and>
      convertType e ((k # ks) ! i) = Some (tys' ! ((length (tys @ pad) # js) ! i))"
    using nth t ts by (auto simp: nth_Cons nth_append split: nat.splits)
  with ts js show ?case by (intro conjI exI [of _ "pad @ t # ts"] exI [of _ "length (tys @ pad) # js"]) auto
qed simp

lemma remapped_field_type:
  assumes "convertType e (KStruct (Some elts)) = Some u" "getRemappedFieldIndex (structFieldIndexCache e elts) elts i = Some j"
    and "i < length elts"
  shows "elementType u j = convertType e (elts ! i)"
proof -
  from assms(1) obtain tys idxs off trail where l: "layoutFields e elts [] [] 0 = Some (tys, idxs, off)"
    and u: "u = LStruct (tys @ trail)"
    by (auto simp: bind_eq_Some_conv Let_def split: if_splits)
  from layoutFields_index [OF l] assms(3) have "idxs ! i < length tys"
    "convertType e (elts ! i) = Some (tys ! (idxs ! i))" by auto
  moreover have "j = idxs ! i" using assms(2) l by (auto simp: remapped_converted split: if_splits)
  ultimately show ?thesis by (simp add: u nth_append)
qed

lemma floatConst_type:
  "floatConst e f vals scalar = Some v \<Longrightarrow>
   \<exists>t. getMLIRTypeForDType e (DFloat f) = Some t \<and> wellTyped v \<and>
     llv_type v = (if scalar then t else LVec (length vals) t)"
  by (auto simp: floatConst_def bind_eq_Some_conv split: option.splits)

lemma convertSIMDAttr_type:
  "convertSIMDAttr e d vals = Some v \<Longrightarrow>
   wellTyped v \<and> Some (llv_type v) = convertType e (KSimd (Some d) (Some (length vals)))"
  by (cases d)
    (auto simp: convertSIMDAttr_def simp del: getMLIRTypeForDType.simps(6) dest!: floatConst_type split: if_splits)

lemma string_type:
  "lowerStringToGlobalConstant ie e s st = (v, st') \<Longrightarrow>
   wellTyped v \<and> Some (llv_type v) = convertType e KString"
  by (auto simp: lowerStringToGlobalConstant_def getLLVMTypeForKGENStringType_def Let_def split: prod.splits)

text \<open>The statement for the three mutually recursive functions.\<close>

definition typed_as :: "conv_result \<Rightarrow> ll_type option \<Rightarrow> bool" where
  "typed_as r t \<longleftrightarrow> (\<forall>v st'. r = Some (Inr (v, st')) \<longrightarrow> wellTyped v \<and> Some (llv_type v) = t)"

lemma typed_as_simps [simp]:
  "typed_as None t" "typed_as (Some (Inl m)) t"
  "typed_as (returnV v st) t \<longleftrightarrow> wellTyped v \<and> Some (llv_type v) = t"
  "typed_as (liftNull x st) t \<longleftrightarrow> (\<forall>v. x = Some v \<longrightarrow> wellTyped v \<and> Some (llv_type v) = t)"
  by (auto simp: typed_as_def returnV_def liftNull_def)

lemma typed_as_case:
  assumes "typed_as r t"
    and "\<And>v st. r = Some (Inr (v, st)) \<Longrightarrow> wellTyped v \<Longrightarrow> Some (llv_type v) = t \<Longrightarrow> typed_as (f v st) t'"
  shows "typed_as (case r of Some (Inr (v, st)) \<Rightarrow> f v st | r \<Rightarrow> r) t'"
proof (cases r)
  case (Some x)
  then show ?thesis
  proof (cases x)
    case (Inr p)
    with Some assms show ?thesis by (cases p) (auto simp: typed_as_def)
  qed (simp add: typed_as_def)
qed simp

lemma constants_typed:
  "attr_ok e a \<Longrightarrow> typed_as (convertParameterToLLVM ie e imc scope a st) (attrType e a)"
  "\<forall>a \<in> set as. attr_ok e a \<Longrightarrow> wellTyped agg \<Longrightarrow>
   \<exists>n t. llv_type agg = LArr n t \<and> idx + length as \<le> n \<and> (\<forall>a \<in> set as. attrType e a = Some t) \<Longrightarrow>
   typed_as (convertArrayElements ie e imc scope as idx agg st) (Some (llv_type agg))"
  "(\<forall>a \<in> set as'. attr_ok e a) \<Longrightarrow> wellTyped agg' \<Longrightarrow> convertType e (KStruct (Some elts)) = Some (llv_type agg') \<Longrightarrow>
   idx' + length as' = length elts \<Longrightarrow> map (attrType e) as' = map (convertType e) (drop idx' elts) \<Longrightarrow>
   typed_as (convertStructElements ie e imc scope elts as' idx' agg' st) (Some (llv_type agg'))"
proof (induction ie e imc scope a st and ie e imc scope as idx agg st and ie e imc scope elts as' idx' agg' st
    rule: convertParameterToLLVM_convertArrayElements_convertStructElements.induct)
  case (4 ie e imc scope f x st)
  then show ?case
    by (auto simp del: getMLIRTypeForDType.simps(6) dest: floatConst_type)
next
  case (9 ie e imc scope msg printed as sp idx off st)
  then show ?case
    by (auto simp: typed_as_def bind_err_eq_Inr_iff)
next
  case (8 ie e imc scope as a st)
  then show ?case
    unfolding convertParameterToLLVM.simps by (intro typed_as_case) auto
next
  case (13 ie e imc scope elt as st)
  then show ?case
    by (auto split: option.splits simp: list_all_iff)
next
  case (14 ie e imc scope elts as st)
  then show ?case
    by (auto split: option.splits simp del: convertType.simps)
next
  case (15 ie e imc scope ts a st)
  then show ?case
    unfolding convertParameterToLLVM.simps
    by (intro typed_as_case) (auto split: option.splits ll_type.splits simp del: convertType.simps)
next
  case (18 ie e imc scope a as idx agg st)
  then show ?case
    unfolding convertArrayElements.simps by (intro typed_as_case) auto
next
  case (20 ie e imc scope elts a as idx agg st)
  have i: "idx < length elts" using 20 by simp
  have d: "drop idx elts = elts ! idx # drop (idx + 1) elts" using i by (simp add: Cons_nth_drop_Suc)
  from 20 d show ?case
    unfolding convertStructElements.simps
    by (intro typed_as_case) (auto split: option.splits simp del: convertType.simps simp: remapped_field_type [OF _ _ i])
qed (auto split: option.splits prod.splits sum.splits simp: typed_as_def returnV_def liftNull_def bind_err_def
    dest: floatConst_type convertSIMDAttr_type string_type)

text \<open>
  C7. Lowering a constant gives a value of the LLVM type of its attribute, whatever the attribute:
  scalars, vectors (with the small floats that are lowered as integers), strings, pointers, blobs and
  unions, and arrays and structs of them, where every element is inserted at a field of its own type
  (for structs through the field index cache, past the padding fields).
\<close>
theorem constants_have_attribute_type:
  assumes "attr_ok e a" "convertParameterToLLVM ie e imc scope a st = Some (Inr (v, st'))"
  shows "wellTyped v \<and> Some (llv_type v) = attrType e a"
  using constants_typed(1) [OF assms(1), of ie imc scope st] assms(2) by (auto simp: typed_as_def)

text \<open>A struct of a byte and an eight-byte-aligned vector has a padding field between the two.\<close>

theorem constants_have_attribute_type_witness:
  "\<exists>v. convertParameterToLLVM sample_env win64_env False False
      (AStruct [KDType, KSimd (Some (DInt 16 True)) (Some 4)] [ADType 3, ASimd (DInt 16 True) [1, 2, 3, 4]])
      empty_converter = Some (Inr (v, empty_converter)) \<and>
     wellTyped v \<and> Some (llv_type v) = Some (LStruct [i8, LArr 7 i8, LVec 4 (LInt 16)])"
proof -
  let ?a = "AStruct [KDType, KSimd (Some (DInt 16 True)) (Some 4)] [ADType 3, ASimd (DInt 16 True) [1, 2, 3, 4]]"
  have ok: "attr_ok win64_env ?a" by simp
  have ty: "attrType win64_env ?a = Some (LStruct [i8, LArr 7 i8, LVec 4 (LInt 16)])"
    by (simp add: eval_layout) presburger
  have "convertParameterToLLVM sample_env win64_env False False ?a empty_converter =
      Some (Inr (InsertV (InsertV (UndefV (LStruct [i8, LArr 7 i8, LVec 4 (LInt 16)])) (IntV 8 3) 0)
        (IntVecV 16 [1, 2, 3, 4]) 2, empty_converter))"
    by (simp add: eval_layout returnV_def liftNull_def convertSIMDAttr_def remapped_converted) presburger
  from constants_have_attribute_type [OF ok this] this show ?thesis unfolding ty by blast
qed

section \<open>Strings\<close>

text \<open>
  A string constant, the empty one included, is a struct of a pointer and its length without the
  terminator, and the global behind the pointer holds the string followed by a zero byte.
\<close>
theorem string_constant_terminated:
  assumes "globals_ok st" "lowerStringToGlobalConstant ie e s st = (v, st')"
  shows "\<exists>g. v = InsertV (InsertV (UndefV (getLLVMTypeForKGENStringType e)) (BlobV (LPtr 0) (HGlobal g, 0)) 0)
        (IntV (ce_indexBits e) (int (length s))) 1 \<and>
      globalBytes (globalOps st' ! g) = s @ [0] \<and> globals_ok st'"
proof -
  obtain g st1 where g: "getOrCreateGlobal ie (stringBlob ie s) st = (g, st1)" by force
  have "globals_ok st1 \<and> globalBytes (globalOps st1 ! g) = blobData (stringBlob ie s)"
    by (rule global_lookup [OF assms(1) g])
  with assms(2) g show ?thesis
    by (auto simp: lowerStringToGlobalConstant_def stringBlob_def)
qed

theorem string_constant_terminated_witness:
  "\<exists>v st'. lowerStringToGlobalConstant sample_env win64_env [] empty_converter = (v, st') \<and>
     (\<exists>g. globalBytes (globalOps st' ! g) = [0])"
proof -
  obtain v st' where l: "lowerStringToGlobalConstant sample_env win64_env [] empty_converter = (v, st')"
    by force
  have "globals_ok empty_converter" by (simp add: globals_ok_def empty_converter_def)
  from string_constant_terminated [OF this l] l show ?thesis by auto
qed

section \<open>Work group sizes\<close>

text \<open>The attribute: an array of integers, an integer, or something else.\<close>

datatype wgs_attr = WgsArray "int list" | WgsInteger int | WgsOther

definition getWorkGroupSizeRangeHelper :: "int list \<Rightarrow> (int \<times> int) option" where
  "getWorkGroupSizeRangeHelper values =
     (let values = (if length values = 1 then 1 # values else values)
      in if 2 \<le> length values then Some (values ! 0, values ! 1) else None)"

fun getWorkGroupSizeRange :: "wgs_attr \<Rightarrow> (int \<times> int) error_or option" where
  "getWorkGroupSizeRange (WgsArray xs) =
     (if length xs \<noteq> 1 \<and> length xs \<noteq> 2
      then Some (Inl ''ArrayAttr must contain exactly one or two values'')
      else map_option Inr (getWorkGroupSizeRangeHelper xs))"
| "getWorkGroupSizeRange (WgsInteger x) = map_option Inr (getWorkGroupSizeRangeHelper [x])"
| "getWorkGroupSizeRange WgsOther =
     Some (Inl ''attribute type must be either an ArrayAttr of 1 or 2 elements or an IntegerAttr'')"

text \<open>
  The work group size range never reads past its values: one value is the upper bound with a
  lower bound of one, two values are the range, and everything else is an error.
\<close>
theorem work_group_range_exact:
  "getWorkGroupSizeRange a \<noteq> None \<and>
   (getWorkGroupSizeRange a = Some (Inr (lo, hi)) \<longleftrightarrow>
      a = WgsInteger hi \<and> lo = 1 \<or> a = WgsArray [hi] \<and> lo = 1 \<or> a = WgsArray [lo, hi])"
proof (cases a)
  case (WgsArray xs)
  consider "length xs \<noteq> 1" "length xs \<noteq> 2" | x where "xs = [x]" | x y where "xs = [x, y]"
    by (metis One_nat_def length_0_conv length_Suc_conv numeral_2_eq_2)
  then show ?thesis
    by cases (auto simp: WgsArray getWorkGroupSizeRangeHelper_def)
qed (auto simp: getWorkGroupSizeRangeHelper_def)

section \<open>Pointless casts\<close>

text \<open>
  A value is a block argument or other opaque value with its type, or a result of a conversion cast
  with its operands, result types and result number.
\<close>

datatype castv = Opaque nat ll_type | CastResult "castv list" "ll_type list" nat

fun castv_type :: "castv \<Rightarrow> ll_type" where
  "castv_type (Opaque _ t) = t"
| "castv_type (CastResult _ ts k) = ts ! k"

text \<open>The second guard of the source tests the outer cast again; a cast without operands is \<open>None\<close>.\<close>

function squashPointlessCasts :: "castv \<Rightarrow> castv option" where
  "squashPointlessCasts v =
     (case v of
        CastResult [CastResult ops2 res2 k2] [t] k \<Rightarrow>
          (case ops2 of
             [] \<Rightarrow> None
           | inner # _ \<Rightarrow>
               if castv_type inner \<noteq> castv_type v then Some v else squashPointlessCasts inner)
      | _ \<Rightarrow> Some v)"
  by pat_completeness auto
termination
  by (relation "measure size") (auto simp: size_list_conv_sum_list)

declare squashPointlessCasts.simps [simp del]

text \<open>Squashing casts keeps the type of the value.\<close>

lemma squash_keeps_type:
  assumes "squashPointlessCasts v = Some w"
  shows "castv_type w = castv_type v"
  using assms
proof (induction v rule: squashPointlessCasts.induct)
  case (1 v)
  show ?case
    using "1.prems" [unfolded squashPointlessCasts.simps [of v]] "1.IH"
    by (fastforce split: castv.splits list.splits if_splits)
qed

text \<open>
  The inner cast is not checked for having one operand: a cast that combines two values is
  squashed to the first of them, and one without operands is dereferenced.
\<close>
theorem squash_drops_operand:
  "squashPointlessCasts (CastResult [CastResult [Opaque 0 (LInt 32), Opaque 1 (LInt 32)] [LInt 64] 0] [LInt 32] 0) =
     Some (Opaque 0 (LInt 32)) \<and>
   squashPointlessCasts (CastResult [CastResult [] [LInt 64] 0] [LInt 32] 0) = None"
  by (simp add: squashPointlessCasts.simps)

end
