(* ===== verification/Windows_Manifest.thy ===== *)
theory Windows_Manifest
  imports Mojo_Prelude
begin

text \<open>
  The resource file with the application manifest that \<^verbatim>\<open>mojo build\<close> links into Windows executables
  (\<^verbatim>\<open>buildWindowsManifestResource\<close> in \<^verbatim>\<open>Mojo/tools/mojo/Build/mojo-build.cpp\<close>), as a list of bytes,
  and a reader of the format to state what is in it.
\<close>

section \<open>Writing\<close>

definition res_u16 :: "nat \<Rightarrow> nat list" where
  "res_u16 v = [v mod 256, v div 256 mod 256]"

definition res_u32 :: "nat \<Rightarrow> nat list" where
  "res_u32 v = res_u16 (v mod 65536) @ res_u16 (v div 65536 mod 65536)"

definition res_header :: "nat \<Rightarrow> nat \<Rightarrow> nat \<Rightarrow> nat \<Rightarrow> nat \<Rightarrow> nat list" where
  "res_header dataSize type name memoryFlags language =
     res_u32 dataSize @ res_u32 32 @ res_u16 65535 @ res_u16 type @ res_u16 65535 @ res_u16 name @
     res_u32 0 @ res_u16 memoryFlags @ res_u16 language @ res_u32 0 @ res_u32 0"

definition kResourceTypeManifest :: nat where "kResourceTypeManifest = 24"
definition kProcessManifestId :: nat where "kProcessManifestId = 1"
definition kLangEnglishUS :: nat where "kLangEnglishUS = 1033"
definition kMemoryFlags :: nat where "kMemoryFlags = 4144"

text \<open>The data size is a 32-bit field, the size of the manifest is not.\<close>

definition buildWindowsManifestResource :: "nat list \<Rightarrow> nat list" where
  "buildWindowsManifestResource manifest =
     res_header 0 0 0 0 0 @
     res_header (length manifest mod 2 ^ 32) kResourceTypeManifest kProcessManifestId kMemoryFlags kLangEnglishUS @
     manifest @
     replicate ((4 - length manifest mod 4) mod 4) 0"

section \<open>Reading\<close>

record resource =
  resType :: nat
  resId :: nat
  resFlags :: nat
  resLanguage :: nat
  resData :: "nat list"

fun read_u16 :: "nat list \<Rightarrow> (nat \<times> nat list) option" where
  "read_u16 (a # b # bs) = Some (a + 256 * b, bs)"
| "read_u16 _ = None"

definition read_u32 :: "nat list \<Rightarrow> (nat \<times> nat list) option" where
  "read_u32 bs = do { (lo, bs) \<leftarrow> read_u16 bs; (hi, bs) \<leftarrow> read_u16 bs; Some (lo + 65536 * hi, bs) }"

text \<open>One record: the header with ordinal type and name, the data, and padding to four bytes.\<close>

definition read_resource :: "nat list \<Rightarrow> (resource \<times> nat list) option" where
  "read_resource bs =
     do {
       (dataSize, bs) \<leftarrow> read_u32 bs;
       (headerSize, bs) \<leftarrow> read_u32 bs;
       (typeMark, bs) \<leftarrow> read_u16 bs;
       (type, bs) \<leftarrow> read_u16 bs;
       (nameMark, bs) \<leftarrow> read_u16 bs;
       (name, bs) \<leftarrow> read_u16 bs;
       (dataVersion, bs) \<leftarrow> read_u32 bs;
       (flags, bs) \<leftarrow> read_u16 bs;
       (language, bs) \<leftarrow> read_u16 bs;
       (version, bs) \<leftarrow> read_u32 bs;
       (characteristics, bs) \<leftarrow> read_u32 bs;
       (if headerSize = 32 \<and> typeMark = 65535 \<and> nameMark = 65535 \<and> alignTo dataSize 4 \<le> length bs
        then Some (\<lparr>resType = type, resId = name, resFlags = flags, resLanguage = language,
                    resData = take dataSize bs\<rparr>, drop (alignTo dataSize 4) bs)
        else None)
     }"

fun read_resources :: "nat \<Rightarrow> nat list \<Rightarrow> resource list option" where
  "read_resources fuel [] = Some []"
| "read_resources 0 (b # bs) = None"
| "read_resources (Suc fuel) (b # bs) =
     do {
       (r, rest) \<leftarrow> read_resource (b # bs);
       rs \<leftarrow> read_resources fuel rest;
       Some (r # rs)
     }"

section \<open>What is read is what was written\<close>

lemma read_res_u16: "v < 65536 \<Longrightarrow> read_u16 (res_u16 v @ bs) = Some (v, bs)"
  by (simp add: res_u16_def)

lemma read_res_u32: "v < 2 ^ 32 \<Longrightarrow> read_u32 (res_u32 v @ bs) = Some (v, bs)"
proof -
  assume v: "v < 2 ^ 32"
  then have hi: "v div 65536 < 65536" by (simp add: less_mult_imp_div_less)
  show ?thesis by (simp add: read_u32_def res_u32_def read_res_u16 hi)
qed

lemma length_res: "length (res_u16 v) = 2" "length (res_u32 v) = 4" "length (res_header s t i m l) = 32"
  by (simp_all add: res_u16_def res_u32_def res_header_def)

lemma read_resource_header:
  assumes "s < 2 ^ 32" "t < 65536" "i < 65536" "m < 65536" "l < 65536" "alignTo s 4 \<le> length bs"
  shows "read_resource (res_header s t i m l @ bs) =
    Some (\<lparr>resType = t, resId = i, resFlags = m, resLanguage = l, resData = take s bs\<rparr>,
      drop (alignTo s 4) bs)"
  using assms by (simp add: read_resource_def res_header_def read_res_u16 read_res_u32)

lemma read_resources_step:
  "read_resource bs = Some (r, rest) \<Longrightarrow> 0 < length bs \<Longrightarrow>
   read_resources (Suc n) bs = map_option (\<lambda>rs. r # rs) (read_resources n rest)"
  by (cases bs; cases "read_resources n rest") simp_all

lemma padding_aligns: "n + (4 - n mod 4) mod 4 = alignTo n (4::nat)"
proof -
  obtain q r where n: "n = 4 * q + r" "r < 4" by (metis mod_less_divisor mult_div_mod_eq zero_less_numeral)
  then have "r \<in> {0, 1, 2, 3}" by auto
  moreover have "alignTo n 4 = 4 * q + alignTo r 4" using alignTo_shift [of 4 "4 * q" r] n by simp
  moreover have "n mod 4 = r" using n by simp
  ultimately show ?thesis using n by (auto simp: alignTo_def)
qed

text \<open>
  C25. The resource file is read back as an empty record followed by one manifest resource for the
  process, with the US English language and exactly the bytes of the manifest, for every manifest
  whose size fits the 32-bit size field; nothing follows, and the file is a multiple of four bytes.
\<close>
theorem manifest_resource_roundtrip:
  assumes "length manifest < 2 ^ 32"
  shows "read_resources 2 (buildWindowsManifestResource manifest) =
      Some [\<lparr>resType = 0, resId = 0, resFlags = 0, resLanguage = 0, resData = []\<rparr>,
            \<lparr>resType = 24, resId = 1, resFlags = 4144, resLanguage = 1033, resData = manifest\<rparr>] \<and>
    4 dvd length (buildWindowsManifestResource manifest)"
proof -
  let ?pad = "replicate ((4 - length manifest mod 4) mod 4) (0 :: nat)"
  let ?tail = "manifest @ ?pad"
  have len: "length ?tail = alignTo (length manifest) 4" by (simp add: padding_aligns)
  have second: "read_resource (res_header (length manifest) 24 1 4144 1033 @ ?tail) =
      Some (\<lparr>resType = 24, resId = 1, resFlags = 4144, resLanguage = 1033, resData = manifest\<rparr>, [])"
    by (subst read_resource_header) (use assms len in simp_all)
  have first: "read_resource (res_header 0 0 0 0 0 @ bs) =
      Some (\<lparr>resType = 0, resId = 0, resFlags = 0, resLanguage = 0, resData = []\<rparr>, bs)" for bs
    by (subst read_resource_header) (simp_all add: alignTo_def)
  have whole: "buildWindowsManifestResource manifest =
      res_header 0 0 0 0 0 @ res_header (length manifest) 24 1 4144 1033 @ ?tail"
    using assms by (simp add: buildWindowsManifestResource_def kResourceTypeManifest_def
        kProcessManifestId_def kMemoryFlags_def kLangEnglishUS_def)
  have "4 dvd length (buildWindowsManifestResource manifest)"
    unfolding whole using len by (simp add: length_res)
  moreover have "read_resources (Suc (Suc 0)) (buildWindowsManifestResource manifest) =
      map_option (\<lambda>rs. \<lparr>resType = 0, resId = 0, resFlags = 0, resLanguage = 0, resData = []\<rparr> # rs)
        (read_resources (Suc 0) (res_header (length manifest) 24 1 4144 1033 @ ?tail))"
    unfolding whole by (rule read_resources_step [OF first]) (simp add: length_res)
  ultimately show ?thesis
    using read_resources_step [OF second, of 0] by (simp add: length_res numeral_2_eq_2)
qed

theorem manifest_resource_roundtrip_witness:
  "read_resources 2 (buildWindowsManifestResource [60, 63, 120, 109, 108]) =
      Some [\<lparr>resType = 0, resId = 0, resFlags = 0, resLanguage = 0, resData = []\<rparr>,
            \<lparr>resType = 24, resId = 1, resFlags = 4144, resLanguage = 1033, resData = [60, 63, 120, 109, 108]\<rparr>] \<and>
   4 dvd length (buildWindowsManifestResource [60, 63, 120, 109, 108])"
  by (rule manifest_resource_roundtrip) simp

end
