(* ===== verification/Mojo_Build.thy ===== *)
theory Mojo_Build
  imports Windows_Manifest Cabi_Lowering "HOL-Library.List_Lexorder" "HOL-Library.Product_Lexorder"
begin

text \<open>
  The \<^verbatim>\<open>mojo build\<close> driver (\<^verbatim>\<open>Mojo/tools/mojo/Build/mojo-build.cpp\<close>): the print options, argument
  dispatch, output names, the compile step and the link step with the linker command it assembles.
  The compiler, the option parser, the configuration file and the operating system are records of
  functions; an error reported to the user is \<open>Inl\<close> with its message.
\<close>

section \<open>Strings and paths\<close>

text \<open>\<^verbatim>\<open>StringRef::rsplit(c).first\<close>: what precedes the last occurrence, or everything.\<close>

definition rsplit_first :: "char \<Rightarrow> string \<Rightarrow> string" where
  "rsplit_first c s = (if c \<in> set s then rev (tl (dropWhile (\<lambda>x. x \<noteq> c) (rev s))) else s)"

definition path_filename :: "(char \<Rightarrow> bool) \<Rightarrow> string \<Rightarrow> string" where
  "path_filename isSep s = rev (takeWhile (\<lambda>c. \<not> isSep c) (rev s))"

text \<open>\<^verbatim>\<open>path::stem\<close>: a leading dot does not start an extension.\<close>

definition path_stem :: "(char \<Rightarrow> bool) \<Rightarrow> string \<Rightarrow> string" where
  "path_stem isSep s =
     (let f = path_filename isSep s in
      if f = ''.'' \<or> f = ''..'' \<or> rsplit_first CHR ''.'' f = [] then f else rsplit_first CHR ''.'' f)"

text \<open>\<^verbatim>\<open>path::replace_extension\<close> with an empty extension.\<close>

definition path_drop_extension :: "(char \<Rightarrow> bool) \<Rightarrow> string \<Rightarrow> string" where
  "path_drop_extension isSep s =
     (if CHR ''.'' \<in> set (path_filename isSep s) then rsplit_first CHR ''.'' s else s)"

text \<open>\<^verbatim>\<open>sys::path::remove_filename\<close>: the parent directory, without a trailing separator unless it is the root.\<close>

definition path_parent :: "(char \<Rightarrow> bool) \<Rightarrow> string \<Rightarrow> string" where
  "path_parent isSep s =
     (let d = take (length s - length (path_filename isSep s)) s;
          stripped = rev (dropWhile isSep (rev d))
      in if stripped = [] then d else stripped)"

definition path_append :: "(char \<Rightarrow> bool) \<Rightarrow> char \<Rightarrow> string \<Rightarrow> string \<Rightarrow> string" where
  "path_append isSep preferred dir f =
     (if dir = [] \<or> isSep (last dir) then dir @ f else dir @ [preferred] @ f)"

definition equals_insensitive :: "string \<Rightarrow> string \<Rightarrow> bool" where
  "equals_insensitive a b \<longleftrightarrow> map to_lower_char a = map to_lower_char b"

text \<open>The quotation mark of the messages.\<close>

definition quote :: string where
  "quote = [CHR 0x27]"

section \<open>Printing target information\<close>

record triple_parts =
  archPart :: string
  vendorPart :: string
  osPart :: string
  envPart :: string

definition normalizeTriple :: "(string \<Rightarrow> triple_parts) \<Rightarrow> string \<Rightarrow> string" where
  "normalizeTriple llvmNormalize tripleStr =
     (let t = llvmNormalize tripleStr in
      archPart t @ ''-'' @
      (if vendorPart t = [] then ''unknown'' else vendorPart t) @ ''-'' @
      (if osPart t = [] then ''unknown'' else osPart t) @
      (if envPart t = [] then [] else ''-'' @ envPart t))"

text \<open>Exit code, lines on standard output, lines on standard error.\<close>

record printed =
  exitCode :: int
  outLines :: "string list"
  errLines :: "string list"

definition EXIT_SUCCESS :: int where "EXIT_SUCCESS = 0"
definition EXIT_FAILURE :: int where "EXIT_FAILURE = 1"

text \<open>A registered LLVM target: its name, its description and whether it has a backend.\<close>

definition printSupportedTargets :: "(string \<times> string \<times> bool) list \<Rightarrow> printed" where
  "printSupportedTargets registry =
     (let targets = sort (map (\<lambda>(n, d, _). (n, d)) (filter (\<lambda>(_, _, ok). ok) registry)) in
      \<lparr>exitCode = EXIT_SUCCESS,
       outLines = ''Registered Targets:'' #
         (if targets = [] then [''  No targets found.'']
          else map (\<lambda>(n, d). ''  '' @ n @ '' - '' @ d) targets),
       errLines = []\<rparr>)"

definition printSupportedCpus ::
  "(string \<Rightarrow> triple_parts) \<Rightarrow> (string \<Rightarrow> string list) \<Rightarrow> string \<Rightarrow> printed" where
  "printSupportedCpus llvmNormalize validCpus userTriple =
     (if userTriple = [] then
        \<lparr>exitCode = EXIT_FAILURE, outLines = [],
         errLines = [''error: --print-supported-cpus requires --target-triple to be specified'',
                     ''Use --print-supported-targets to see available architectures.'']\<rparr>
      else
        let normalized = normalizeTriple llvmNormalize userTriple; cpus = validCpus normalized in
        if cpus = [] then
          \<lparr>exitCode = EXIT_FAILURE, outLines = [],
           errLines = [''Use --print-supported-targets to see available architectures.'']\<rparr>
        else
          \<lparr>exitCode = EXIT_SUCCESS,
           outLines = (''Available CPUs for target '' @ normalized @ '':'') # map (\<lambda>c. ''  '' @ c) cpus,
           errLines = []\<rparr>)"

record traits =
  traitsName :: string
  sectionTitle :: string
  accelerators :: "(string \<times> string) list"

definition left_justify :: "string \<Rightarrow> nat \<Rightarrow> string" where
  "left_justify s w = s @ replicate (w - length s) CHR '' ''"

definition acceleratorSection :: "traits \<Rightarrow> string list" where
  "acceleratorSection t =
     (let width = fold (\<lambda>(a, _) w. max w (length a + 2)) (accelerators t) 12 in
      sectionTitle t # map (\<lambda>(a, d). ''  '' @ left_justify a width @ ''- '' @ d) (accelerators t))"

definition printSupportedAccelerators :: "traits list \<Rightarrow> printed" where
  "printSupportedAccelerators registry =
     (let targets = sort_key traitsName (filter (\<lambda>t. sectionTitle t \<noteq> []) registry);
          sections = map acceleratorSection targets in
      \<lparr>exitCode = EXIT_SUCCESS,
       outLines = [''Supported Accelerator Architectures:'', [], ''#''] @
         (case sections of [] \<Rightarrow> [] | s # ss \<Rightarrow> s @ concat (map (\<lambda>x. [] # x) ss)) @
         [''#'', [], ''Usage: mojo build --target-accelerator <arch> file.mojo''],
       errLines = []\<rparr>)"

record target_info =
  tiTriple :: string
  tiArch :: string
  tiFeatures :: string
  tiAbi :: string
  tiAccelerator :: string

definition printEffectiveTarget :: "(string \<Rightarrow> triple_parts) \<Rightarrow> target_info \<Rightarrow> printed" where
  "printEffectiveTarget llvmNormalize t =
     \<lparr>exitCode = EXIT_SUCCESS,
      outLines =
        [''Effective target configuration:'',
         ''  --target-triple '' @ normalizeTriple llvmNormalize (tiTriple t),
         ''  --target-cpu '' @ tiArch t] @
        (if tiFeatures t = [] then [] else [''  --target-features '' @ tiFeatures t]) @
        (if tiAbi t = [] then [] else [''  --target-abi '' @ tiAbi t]) @
        (if tiAccelerator t = [] then [] else [''  --target-accelerator '' @ tiAccelerator t]),
      errLines = []\<rparr>"

section \<open>Arguments\<close>

record build_flags =
  flagHelp :: bool
  flagHelpHidden :: bool
  flagPrintEffectiveTarget :: bool
  flagPrintSupportedTargets :: bool
  flagPrintSupportedCpus :: bool
  flagPrintSupportedAccelerators :: bool
  flagTargetTriple :: string

record common_result =
  commonExit :: "int option"
  commonTarget :: target_info

text \<open>What the headers and libraries supply to the argument step.\<close>

record parse_env =
  llvmNormalize :: "string \<Rightarrow> triple_parts"
  validCpus :: "string \<Rightarrow> string list"
  llvmTargets :: "(string \<times> string \<times> bool) list"
  allTraits :: "traits list"
  parseCommon :: "bool \<Rightarrow> common_result error_or"

datatype stop =
    HelpPrinted
  | HiddenHelpPrinted
  | Printed printed
  | Reported string
  | ExitWith int

definition printOptionCount :: "build_flags \<Rightarrow> nat" where
  "printOptionCount a =
     length (filter (\<lambda>b. b) [flagPrintEffectiveTarget a, flagPrintSupportedTargets a,
       flagPrintSupportedCpus a, flagPrintSupportedAccelerators a])"

text \<open>\<open>Inl\<close> is an exit of the driver, \<open>Inr\<close> goes on with the parsed target.\<close>

definition parseArgs :: "parse_env \<Rightarrow> build_flags \<Rightarrow> stop + target_info" where
  "parseArgs env a =
     (if flagHelp a then Inl HelpPrinted
      else if flagHelpHidden a then Inl HiddenHelpPrinted
      else if printOptionCount a > 1 then
        Inl (Reported ''only one --print-* option can be specified at a time'')
      else if flagPrintSupportedTargets a then Inl (Printed (printSupportedTargets (llvmTargets env)))
      else if flagPrintSupportedAccelerators a then
        Inl (Printed (printSupportedAccelerators (allTraits env)))
      else if flagPrintSupportedCpus a then
        Inl (Printed (printSupportedCpus (llvmNormalize env) (validCpus env) (flagTargetTriple a)))
      else
        (case parseCommon env (\<not> (printOptionCount a > 0)) of
           Inl e \<Rightarrow> Inl (Reported e)
         | Inr r \<Rightarrow>
             (case commonExit r of
                Some c \<Rightarrow> Inl (ExitWith c)
              | None \<Rightarrow>
                  if flagPrintEffectiveTarget a
                  then Inl (Printed (printEffectiveTarget (llvmNormalize env) (commonTarget r)))
                  else Inr (commonTarget r))))"

section \<open>Compiling\<close>

datatype OutputType = Executable | SharedLibrary | ObjectFile | Llvm | LlvmBitcode | Assembly

record build_args =
  argInput :: string
  argO :: "string option"
  argXlinker :: "string list"
  argEmit :: string

definition deriveOutputPath :: "build_args \<Rightarrow> string \<Rightarrow> string" where
  "deriveOutputPath a ext =
     (case argO a of Some f \<Rightarrow> f | None \<Rightarrow> rsplit_first CHR ''.'' (argInput a) @ ext)"

text \<open>The error of opening a file, if there is one.\<close>

definition createOutputFile :: "(string \<Rightarrow> string option) \<Rightarrow> build_args \<Rightarrow> string \<Rightarrow> string error_or" where
  "createOutputFile openError a ext =
     (if argInput a = [] then Inl ''no input file provided''
      else case openError (deriveOutputPath a ext) of
        Some e \<Rightarrow> Inl (''could not open output file: '' @ e)
      | None \<Rightarrow> Inr (deriveOutputPath a ext))"

record 'a compiler =
  createObjectCompiler :: "unit error_or"
  runKGENPipeline :: "(string \<times> bool) option \<Rightarrow> unit error_or"
  moduleHasMain :: bool
  lowerAllFuncsToLLVM :: "unit error_or"
  emitBitcode :: "unit error_or"
  emitAssemblyFails :: bool
  emitArchive :: "bool \<Rightarrow> 'a error_or"

datatype 'a compile_result = CompileError string | WroteFile string | Archive 'a

text \<open>The prefix for offloaded kernels and whether they are LLVM IR.\<close>

definition offloadPrefix :: "(char \<Rightarrow> bool) \<Rightarrow> OutputType \<Rightarrow> build_args \<Rightarrow> (string \<times> bool) option" where
  "offloadPrefix isSep out a =
     (if out = Assembly \<or> out = Llvm then
        let outPath = deriveOutputPath a (if out = Llvm then ''.ll'' else ''.s'')
        in Some (path_drop_extension isSep outPath, out = Llvm)
      else None)"

definition emitLLVMFile :: "(string \<Rightarrow> string option) \<Rightarrow> 'a compiler \<Rightarrow> OutputType \<Rightarrow> build_args \<Rightarrow> 'a compile_result" where
  "emitLLVMFile openError c out a =
     (case lowerAllFuncsToLLVM c of
        Inl e \<Rightarrow> CompileError (''could not lower funcs to LLVM: '' @ e)
      | Inr _ \<Rightarrow>
          (case createOutputFile openError a (if out = Llvm then ''.ll'' else ''.bc'') of
             Inl _ \<Rightarrow> CompileError ''could not open .ll output file''
           | Inr f \<Rightarrow>
               if out = LlvmBitcode then
                 (case emitBitcode c of Inl e \<Rightarrow> CompileError e | Inr _ \<Rightarrow> WroteFile f)
               else WroteFile f))"

definition emitAssemblyFile :: "(string \<Rightarrow> string option) \<Rightarrow> 'a compiler \<Rightarrow> build_args \<Rightarrow> 'a compile_result" where
  "emitAssemblyFile openError c a =
     (case createOutputFile openError a ''.s'' of
        Inl _ \<Rightarrow> CompileError ''could not open .s output file''
      | Inr f \<Rightarrow> if emitAssemblyFails c then CompileError ''could not emit assembly'' else WroteFile f)"

definition emitModuleArchive :: "'a compiler \<Rightarrow> OutputType \<Rightarrow> 'a compile_result" where
  "emitModuleArchive c out =
     (case emitArchive c (out = SharedLibrary) of
        Inl e \<Rightarrow> CompileError (''failed to produce an archive for the module: '' @ e)
      | Inr x \<Rightarrow> Archive x)"

definition compileModuleToArchive ::
  "(char \<Rightarrow> bool) \<Rightarrow> (string \<Rightarrow> string option) \<Rightarrow> 'a compiler \<Rightarrow> OutputType \<Rightarrow> build_args \<Rightarrow> 'a compile_result" where
  "compileModuleToArchive isSep openError c out a =
     (case createObjectCompiler c of
        Inl e \<Rightarrow> CompileError e
      | Inr _ \<Rightarrow>
          (case runKGENPipeline c (offloadPrefix isSep out a) of
             Inl e \<Rightarrow> CompileError e
           | Inr _ \<Rightarrow>
               (case out of
                  ObjectFile \<Rightarrow> emitModuleArchive c out
                | Executable \<Rightarrow>
                    if \<not> moduleHasMain c then CompileError (''module does not contain a '' @ quote @ ''main'' @ quote @ '' function'')
                    else emitModuleArchive c out
                | SharedLibrary \<Rightarrow>
                    if moduleHasMain c then CompileError (''shared library should not contain a '' @ quote @ ''main'' @ quote @ '' function'')
                    else emitModuleArchive c out
                | Llvm \<Rightarrow> emitLLVMFile openError c out a
                | LlvmBitcode \<Rightarrow> emitLLVMFile openError c out a
                | Assembly \<Rightarrow> emitAssemblyFile openError c a)))"

section \<open>File names of the target\<close>

record link_triple = triple +
  tripleArchName :: string

definition getExecutableExtension :: "'x triple_scheme \<Rightarrow> string" where
  "getExecutableExtension t = (if isOSWindows t then ''.exe'' else [])"

definition getStaticArchiveExtension :: "'x triple_scheme \<Rightarrow> string" where
  "getStaticArchiveExtension t = (if isOSWindows t then ''.lib'' else ''.a'')"

definition getSharedLibraryFileName :: "'x triple_scheme \<Rightarrow> string \<Rightarrow> string" where
  "getSharedLibraryFileName t stem =
     (if isOSWindows t then stem @ ''.dll''
      else if isOSDarwin t then ''lib'' @ stem @ ''.dylib''
      else ''lib'' @ stem @ ''.so'')"

definition kWindowsCRTLibs :: "string list" where
  "kWindowsCRTLibs = [''msvcrt.lib'', ''msvcrtd.lib'', ''libcmt.lib'', ''libcmtd.lib'']"

section \<open>Linking\<close>

record mojo_config =
  linkerDriver :: string
  lldPath :: string
  compilerRTPath :: string
  compilerRTImportLibraryPath :: string
  systemLibraryArgs :: "string list"
  sharedLibraryArgs :: "(string \<Rightarrow> string) \<Rightarrow> string list"

record link_options =
  noDebug :: bool
  sanitizeAddress :: bool
  sanitizeThread :: bool
  externalLibasan :: string
  sharedLibasan :: bool

text \<open>
  The operating system: existence of a path, the working directory, program search in given
  directories or in PATH, temporary files (a name pattern and the bytes), writing an output file, and
  running a program to its exit code and message; \<open>appleHost\<close> is the platform test of the source.
\<close>

record 'a host =
  appleHost :: bool
  isSeparator :: "char \<Rightarrow> bool"
  preferredSeparator :: char
  pathExists :: "string \<Rightarrow> bool"
  currentPath :: "string option"
  absoluteParent :: "string \<Rightarrow> string"
  findProgram :: "string \<Rightarrow> string list option \<Rightarrow> string option"
  writeArchive :: "string \<Rightarrow> 'a \<Rightarrow> string error_or"
  writeResource :: "string \<Rightarrow> nat list \<Rightarrow> string error_or"
  writeToOutput :: "string \<Rightarrow> 'a \<Rightarrow> string option"
  executeAndWait :: "string \<Rightarrow> string list \<Rightarrow> int \<times> string"

definition findBundledLinker :: "'a host \<Rightarrow> mojo_config \<Rightarrow> string \<Rightarrow> string option" where
  "findBundledLinker os cfg linkerFilename =
     (let installBin = path_parent (isSeparator os) (lldPath cfg)
      in case (if installBin = [] then None else findProgram os linkerFilename (Some [installBin])) of
           Some found \<Rightarrow> Some found
         | None \<Rightarrow> findProgram os linkerFilename None)"

definition resolveLinker :: "'a host \<Rightarrow> mojo_config \<Rightarrow> 'x triple_scheme \<Rightarrow> string option" where
  "resolveLinker os cfg t =
     (if linkerDriver cfg \<noteq> [] then Some (linkerDriver cfg)
      else if isOSWindows t then findBundledLinker os cfg ''lld-link''
      else findProgram os ''cc'' None)"

definition defaultOutputName :: "'a host \<Rightarrow> OutputType \<Rightarrow> 'x triple_scheme \<Rightarrow> string \<Rightarrow> string" where
  "defaultOutputName os out t inputName =
     (let base = path_stem (isSeparator os) inputName;
          name = (case out of
              Executable \<Rightarrow> base @ getExecutableExtension t
            | SharedLibrary \<Rightarrow> getSharedLibraryFileName t base
            | Llvm \<Rightarrow> base @ ''.ll''
            | LlvmBitcode \<Rightarrow> base @ ''.bc''
            | ObjectFile \<Rightarrow> base @ ''.o''
            | Assembly \<Rightarrow> base @ ''.asm'');
          name = path_filename (isSeparator os) name
      in case currentPath os of
           None \<Rightarrow> name
         | Some cwd \<Rightarrow> path_append (isSeparator os) (preferredSeparator os) cwd name)"

definition linkerInvocation ::
  "OutputType \<Rightarrow> 'x triple_scheme \<Rightarrow> string \<Rightarrow> string \<Rightarrow> string \<Rightarrow> string list" where
  "linkerInvocation out t linker archivePath rtPath =
     (if out = Executable then [linker, archivePath, rtPath]
      else
        linker #
        (if isOSWindows t then [''/DLL'', ''/WHOLEARCHIVE:'' @ archivePath, archivePath]
         else if isOSDarwin t then [''-shared'', ''-Wl,-force_load'', archivePath]
         else [''-shared'', ''-Wl,--whole-archive'', archivePath, ''-Wl,--no-whole-archive'']) @
        [rtPath])"

text \<open>The filter on the shared library arguments: a skipped rpath takes four of them.\<close>

fun dropRpaths :: "bool \<Rightarrow> string list \<Rightarrow> string list" where
  "dropRpaths isWindows [] = []"
| "dropRpaths isWindows (a # as) =
     (if isWindows \<and> a = ''-Xlinker'' \<and> as \<noteq> [] \<and> hd as = ''-rpath''
      then dropRpaths isWindows (drop 3 as)
      else a # dropRpaths isWindows as)"

definition haveCRT :: "string list \<Rightarrow> bool" where
  "haveCRT systemLibs \<longleftrightarrow> (\<exists>lib \<in> set systemLibs. \<exists>crt \<in> set kWindowsCRTLibs. equals_insensitive lib crt)"

definition windowsLinkArgs ::
  "link_triple \<Rightarrow> link_options \<Rightarrow> string \<Rightarrow> string \<Rightarrow> string list \<Rightarrow> string list error_or" where
  "windowsLinkArgs t opts outputName manifestPath systemLibs =
     (if tripleArch t \<noteq> X86_64 then
        Inl (''linking for Windows is only supported for x86_64, not '' @ quote @ tripleArchName t @ quote)
      else if sanitizeAddress opts \<or> sanitizeThread opts then
        Inl ''sanitizers are not supported when targeting Windows''
      else Inr
        ([''/out:'' @ outputName, ''/nologo'', ''/SUBSYSTEM:CONSOLE''] @
         (if manifestPath = [] then [] else [manifestPath]) @
         [''/IGNORE:4001''] @
         (if haveCRT systemLibs then []
          else [''libcmt.lib'', ''libvcruntime.lib'', ''libucrt.lib'', ''oldnames.lib'']) @
         [''/machine:X64''] @
         (if noDebug opts then [] else [''/DEBUG''])))"

definition unixLinkArgs :: "link_options \<Rightarrow> string \<Rightarrow> string list" where
  "unixLinkArgs opts outputName =
     [''-o'', outputName] @
     (if sanitizeAddress opts then
        if externalLibasan opts = [] then
          ''-fsanitize=address'' # (if sharedLibasan opts then [''-shared-libasan''] else [])
        else [externalLibasan opts]
      else []) @
     (if sanitizeThread opts then [''-fsanitize=thread''] else [])"

definition stripArgs :: "'x triple_scheme \<Rightarrow> string list" where
  "stripArgs t =
     (if isOSDarwin t then [''-Wl,-dead_strip'']
      else if isOSWindows t then [''/OPT:REF'']
      else [''-Wl,--gc-sections'']) @
     (if \<not> isOSDarwin t \<and> \<not> isOSWindows t then [''-lm''] else [])"

text \<open>User flags come last, each behind \<^verbatim>\<open>-Xlinker\<close>.\<close>

definition userArgs :: "string list \<Rightarrow> string list" where
  "userArgs extra = concat (map (\<lambda>x. [''-Xlinker'', x]) extra)"

definition linkerArgs ::
  "OutputType \<Rightarrow> link_triple \<Rightarrow> mojo_config \<Rightarrow> link_options \<Rightarrow> string list \<Rightarrow> string \<Rightarrow> string \<Rightarrow> string \<Rightarrow>
   string \<Rightarrow> string \<Rightarrow> string list error_or" where
  "linkerArgs out t cfg opts extra linker archivePath manifestPath rtPath outputName =
     bind_err
       (if isOSWindows t then windowsLinkArgs t opts outputName manifestPath (systemLibraryArgs cfg)
        else Inr (unixLinkArgs opts outputName))
       (\<lambda>platform. Inr
          (linkerInvocation out t linker archivePath rtPath @
           dropRpaths (isOSWindows t) (sharedLibraryArgs cfg (getSharedLibraryFileName t)) @
           platform @ stripArgs t @ systemLibraryArgs cfg @ userArgs extra))"

datatype link_result = WroteObject string | Linked "string list"

definition linkFailure :: "OutputType \<Rightarrow> string \<Rightarrow> string" where
  "linkFailure out msg =
     (if out = Executable then ''failed to link executable'' else ''failed to produce dynamic library'') @
     (if msg = [] then [] else '': '' @ msg)"

definition runLinker :: "'a host \<Rightarrow> OutputType \<Rightarrow> string \<Rightarrow> string list \<Rightarrow> link_result error_or" where
  "runLinker os out linker args =
     (case executeAndWait os linker args of
        (code, msg) \<Rightarrow> if code \<noteq> 0 then Inl (linkFailure out msg) else Inr (Linked args))"

definition writeManifest ::
  "'a host \<Rightarrow> OutputType \<Rightarrow> 'x triple_scheme \<Rightarrow> nat list \<Rightarrow> string error_or" where
  "writeManifest os out t manifest =
     (if isOSWindows t \<and> out = Executable then
        (case writeResource os ''mojo_manifest-%%%%%%%.res'' (buildWindowsManifestResource manifest) of
           Inl e \<Rightarrow> Inl (''unable to write a temporary manifest resource for linking: '' @ e)
         | Inr p \<Rightarrow> Inr p)
      else Inr [])"

text \<open>The bundle of debug information of a Mach-O file, made on a Mac after the link.\<close>

definition generateDSYM :: "'a host \<Rightarrow> string \<Rightarrow> unit error_or" where
  "generateDSYM os binaryOutputPath =
     (case findProgram os ''xcrun'' None of
        None \<Rightarrow> Inl ''unable to find xcrun''
      | Some xcrun \<Rightarrow>
          (case executeAndWait os xcrun [xcrun, ''dsymutil'', binaryOutputPath, ''-o'', binaryOutputPath @ ''.dSYM''] of
             (code, msg) \<Rightarrow>
               if code \<noteq> 0 then Inl (''failed to create dSYM bundle'' @ (if msg = [] then [] else '': '' @ msg)) else Inr ()))"

definition finishLink :: "'a host \<Rightarrow> link_triple \<Rightarrow> link_options \<Rightarrow> string \<Rightarrow> link_result \<Rightarrow> link_result error_or" where
  "finishLink os t opts outputName r =
     (if appleHost os \<and> isOSDarwin t \<and> \<not> noDebug opts then bind_err (generateDSYM os outputName) (\<lambda>_. Inr r) else Inr r)"

text \<open>The link step from the resolved linker on.\<close>

definition linkArchive ::
  "'a host \<Rightarrow> OutputType \<Rightarrow> link_triple \<Rightarrow> mojo_config \<Rightarrow> link_options \<Rightarrow> string list \<Rightarrow> nat list \<Rightarrow> string \<Rightarrow>
   string \<Rightarrow> 'a \<Rightarrow> link_result error_or" where
  "linkArchive os out t cfg opts extra manifest linker outputName archive =
     (case writeArchive os (''mojo_archive-%%%%%%%'' @ getStaticArchiveExtension t) archive of
        Inl e \<Rightarrow> Inl (''unable to write temporary files for linking: '' @ e)
      | Inr archivePath \<Rightarrow>
          bind_err (writeManifest os out t manifest) (\<lambda>manifestPath.
            let rtPath = (if isOSWindows t then compilerRTImportLibraryPath cfg else compilerRTPath cfg) in
            if \<not> pathExists os rtPath then
              Inl (''unable to locate Mojo CompilerRT library at '' @ quote @ rtPath @ quote)
            else
              bind_err (linkerArgs out t cfg opts extra linker archivePath manifestPath rtPath outputName)
                (\<lambda>args. bind_err (runLinker os out linker args) (finishLink os t opts outputName))))"

definition linkOutput ::
  "'a host \<Rightarrow> mojo_config error_or \<Rightarrow> OutputType \<Rightarrow> link_triple \<Rightarrow> link_options \<Rightarrow> nat list \<Rightarrow> build_args \<Rightarrow>
   'a \<Rightarrow> link_result error_or" where
  "linkOutput os configOr out t opts manifest a archive =
     (case configOr of
        Inl e \<Rightarrow> Inl (''failed to parse '' @ quote @ ''modular.cfg'' @ quote @ '': '' @ e)
      | Inr cfg \<Rightarrow>
          let outputName = (case argO a of Some f \<Rightarrow> f | None \<Rightarrow> defaultOutputName os out t (argInput a)) in
          if \<not> pathExists os (absoluteParent os outputName) then
            Inl (''unable to write file. The path '' @ quote @ absoluteParent os outputName @ quote @ '' does not exist.'')
          else
            (case resolveLinker os cfg t of
               None \<Rightarrow> Inl (''unable to find '' @ quote @ (if isOSWindows t then ''lld-link'' else ''cc'') @
                            quote @ '' for linking'')
             | Some linker \<Rightarrow>
                 if out = ObjectFile then
                   (case writeToOutput os outputName archive of
                      Some e \<Rightarrow> Inl (''unable to write object file: '' @ e)
                    | None \<Rightarrow> Inr (WroteObject outputName))
                 else linkArchive os out t cfg opts (argXlinker a) manifest linker outputName archive))"

section \<open>The subcommand\<close>

definition outputTypeOf :: "string \<Rightarrow> OutputType error_or" where
  "outputTypeOf emit =
     (if emit = ''exe'' then Inr Executable
      else if emit = ''shared-lib'' then Inr SharedLibrary
      else if emit = ''llvm'' then Inr Llvm
      else if emit = ''llvm-bitcode'' then Inr LlvmBitcode
      else if emit = ''object'' then Inr ObjectFile
      else if emit = ''asm'' then Inr Assembly
      else Inl (''Unrecognized value for `--emit`. Missing case for: '' @ emit))"

text \<open>The stages around the compile step, in the order the code runs them.\<close>

record 'a stages =
  createContext :: "unit error_or"
  configureTiming :: "unit error_or"
  invokeParser :: "'a compiler option error_or"
  werrorEmitted :: bool

datatype build_result = Stopped stop | FixitApplied | BuildError string | WarningsAsErrors
  | Emitted string | LinkDone link_result

definition build ::
  "parse_env \<Rightarrow> build_flags \<Rightarrow> 'a stages \<Rightarrow> 'a host \<Rightarrow> (string \<Rightarrow> string option) \<Rightarrow> mojo_config error_or \<Rightarrow>
   link_triple \<Rightarrow> link_options \<Rightarrow> nat list \<Rightarrow> build_args \<Rightarrow> build_result" where
  "build env flags stg os openError configOr t opts manifest a =
     (case parseArgs env flags of
        Inl s \<Rightarrow> Stopped s
      | Inr _ \<Rightarrow>
     (case createContext stg of
        Inl e \<Rightarrow> BuildError e
      | Inr _ \<Rightarrow>
     (case outputTypeOf (argEmit a) of
        Inl e \<Rightarrow> BuildError e
      | Inr out \<Rightarrow>
     (case configureTiming stg of
        Inl e \<Rightarrow> BuildError e
      | Inr _ \<Rightarrow>
     (case invokeParser stg of
        Inl e \<Rightarrow> BuildError e
      | Inr None \<Rightarrow> FixitApplied
      | Inr (Some c) \<Rightarrow>
     (case compileModuleToArchive (isSeparator os) openError c out a of
        CompileError e \<Rightarrow> BuildError e
      | WroteFile f \<Rightarrow> Emitted f
      | Archive x \<Rightarrow>
          if werrorEmitted stg then WarningsAsErrors
          else case linkOutput os configOr out t opts manifest a x of
            Inl e \<Rightarrow> BuildError e
          | Inr r \<Rightarrow> LinkDone r))))))"

section \<open>Names\<close>

lemma rsplit_first_append: "c \<notin> set ext \<Longrightarrow> rsplit_first c (base @ c # ext) = base"
  unfolding rsplit_first_def by (simp, subst dropWhile_append2) auto

lemma path_filename_append:
  "isSep sep \<Longrightarrow> list_all (\<lambda>c. \<not> isSep c) f \<Longrightarrow> path_filename isSep (dir @ sep # f) = f"
  unfolding path_filename_def list_all_iff by (simp, subst takeWhile_append2) auto

lemma path_filename_plain: "list_all (\<lambda>c. \<not> isSep c) f \<Longrightarrow> path_filename isSep f = f"
proof -
  assume "list_all (\<lambda>c. \<not> isSep c) f"
  then have "takeWhile (\<lambda>c. \<not> isSep c) (rev f) = rev f"
    by (subst takeWhile_eq_all_conv) (simp add: list_all_iff)
  then show ?thesis by (simp only: path_filename_def rev_rev_ident)
qed

definition posix_separator :: "char \<Rightarrow> bool" where
  "posix_separator c \<longleftrightarrow> c = CHR ''/''"

definition windows_separator :: "char \<Rightarrow> bool" where
  "windows_separator c \<longleftrightarrow> c = CHR ''/'' \<or> c = CHR 0x5C"

text \<open>
  The default name of a linked output depends on the target and not on the host or on where the
  source is: for a source \<open>dir/base.ext\<close> it is, in the working directory, the base name with the
  extension of an executable, and for a shared library the name with the prefix and suffix of the
  target.
\<close>
theorem default_output_names:
  assumes host: "isSeparator os \<in> {posix_separator, windows_separator}" and sep: "isSeparator os sep"
    and base: "list_all (\<lambda>c. \<not> isSeparator os c) base" "base \<noteq> []" "base \<noteq> ''.''"
    and ext: "list_all (\<lambda>c. \<not> isSeparator os c) ext" "CHR ''.'' \<notin> set ext"
    and cwd: "currentPath os = Some cwd" "cwd \<noteq> []" "\<not> isSeparator os (last cwd)"
  shows "defaultOutputName os Executable t (dir @ sep # base @ ''.'' @ ext) =
      cwd @ [preferredSeparator os] @ base @ (if isOSWindows t then ''.exe'' else []) \<and>
    defaultOutputName os SharedLibrary t (dir @ sep # base @ ''.'' @ ext) =
      cwd @ [preferredSeparator os] @
      (if isOSWindows t then base @ ''.dll'' else if isOSDarwin t then ''lib'' @ base @ ''.dylib''
       else ''lib'' @ base @ ''.so'')"
proof -
  let ?f = "base @ CHR ''.'' # ext"
  have dot: "\<not> isSeparator os CHR ''.''"
    and affixes: "list_all (\<lambda>c. \<not> isSeparator os c) ''lib.exe.dll.dylib.so''"
    using host by (auto simp: posix_separator_def windows_separator_def)
  have "path_filename (isSeparator os) (dir @ sep # ?f) = ?f"
    using sep base(1) ext(1) dot by (simp add: path_filename_append)
  moreover have "?f \<noteq> ''.''" "?f \<noteq> ''..''" using base(2,3) by (auto simp: append_eq_Cons_conv)
  ultimately have stem: "path_stem (isSeparator os) (dir @ sep # ?f) = base"
    using base(2) ext(2) by (simp add: path_stem_def rsplit_first_append)
  have name: "path_filename (isSeparator os) n = n" if "list_all (\<lambda>c. \<not> isSeparator os c) n" for n
    using that by (rule path_filename_plain)
  show ?thesis
    using stem base(1) affixes cwd
    by (simp add: defaultOutputName_def getExecutableExtension_def getSharedLibraryFileName_def
        path_append_def name)
qed

definition sample_host :: "unit host" where
  "sample_host =
     \<lparr>appleHost = False, isSeparator = posix_separator, preferredSeparator = CHR ''/'', pathExists = (\<lambda>_. True),
      currentPath = Some ''/work'', absoluteParent = (\<lambda>_. ''/work''),
      findProgram = (\<lambda>p dirs. if dirs = None then Some (''/usr/bin/'' @ p) else None),
      writeArchive = (\<lambda>_ _. Inr ''/tmp/mojo_archive-1.lib''),
      writeResource = (\<lambda>_ _. Inr ''/tmp/mojo_manifest-1.res''),
      writeToOutput = (\<lambda>_ _. None), executeAndWait = (\<lambda>_ _. (0, []))\<rparr>"

definition windows_link_triple :: link_triple where
  "windows_link_triple =
     \<lparr>tripleArch = X86_64, isOSWindows = True, isOSDarwin = False, tripleArchName = ''x86_64''\<rparr>"

theorem default_output_names_witness:
  "defaultOutputName sample_host Executable windows_link_triple ''src/app.mojo'' = ''/work/app.exe'' \<and>
   defaultOutputName sample_host SharedLibrary windows_link_triple ''src/app.mojo'' = ''/work/app.dll''"
  using default_output_names [of sample_host "CHR ''/''" "''app''" "''mojo''" "''/work''" windows_link_triple "''src''"]
  by (simp add: sample_host_def posix_separator_def windows_link_triple_def)

section \<open>The linker command\<close>

definition isCRT :: "string \<Rightarrow> bool" where
  "isCRT s \<longleftrightarrow> list_ex (equals_insensitive s) kWindowsCRTLibs"

lemma haveCRT_filter: "haveCRT libs \<longleftrightarrow> filter isCRT libs \<noteq> []"
  by (simp add: haveCRT_def isCRT_def list_ex_iff filter_empty_conv)

lemma isCRT_slash: "\<not> isCRT (CHR ''/'' # s)"
  by (simp add: isCRT_def kWindowsCRTLibs_def equals_insensitive_def to_lower_char_def less_eq_char_def)

lemma isCRT_dash: "\<not> isCRT (CHR ''-'' # s)"
  by (simp add: isCRT_def kWindowsCRTLibs_def equals_insensitive_def to_lower_char_def less_eq_char_def)

lemma filter_dropRpaths: "\<not> list_ex isCRT as \<Longrightarrow> filter isCRT (dropRpaths w as) = []"
proof (induction w as rule: dropRpaths.induct)
  case (2 w a as)
  then have "\<not> list_ex isCRT (drop 3 as)" by (auto simp: list_ex_iff dest: in_set_dropD)
  with 2 show ?case by auto
qed simp

lemma filter_userArgs: "\<not> list_ex isCRT extra \<Longrightarrow> filter isCRT (userArgs extra) = []"
  by (induction extra) (auto simp: userArgs_def isCRT_dash)

text \<open>
  A Windows link names exactly one C runtime: when none of the configured system libraries is one
  of the four startup libraries, in whatever case it is written, the command names libcmt.lib and no
  other, and otherwise it names the configured ones and adds none.  (The temporary files, the runtime
  library and the user's own flags are not startup libraries.)
\<close>
theorem windows_link_one_crt:
  assumes "isOSWindows t"
    and "linkerArgs out t cfg opts extra linker archivePath manifestPath rtPath outputName = Inr args"
    and "\<not> list_ex isCRT ([linker, archivePath, manifestPath, rtPath] @ extra)"
    and "\<not> list_ex isCRT (sharedLibraryArgs cfg (getSharedLibraryFileName t))"
  shows "filter isCRT args =
    (if haveCRT (systemLibraryArgs cfg) then filter isCRT (systemLibraryArgs cfg) else [''libcmt.lib''])"
proof -
  from assms(2) obtain platform where p: "windowsLinkArgs t opts outputName manifestPath (systemLibraryArgs cfg) = Inr platform"
    and args: "args = linkerInvocation out t linker archivePath rtPath @
      dropRpaths True (sharedLibraryArgs cfg (getSharedLibraryFileName t)) @
      platform @ stripArgs t @ systemLibraryArgs cfg @ userArgs extra"
    using assms(1) by (auto simp: linkerArgs_def bind_err_eq_Inr_iff)
  have libs: "\<not> isCRT ''libvcruntime.lib''" "\<not> isCRT ''libucrt.lib''" "\<not> isCRT ''oldnames.lib''" "isCRT ''libcmt.lib''"
    by (simp_all add: isCRT_def kWindowsCRTLibs_def equals_insensitive_def to_lower_char_def less_eq_char_def)
  have "filter isCRT platform = (if haveCRT (systemLibraryArgs cfg) then [] else [''libcmt.lib''])"
    using p assms(3) by (auto simp: windowsLinkArgs_def isCRT_slash libs split: if_splits)
  moreover have "filter isCRT (linkerInvocation out t linker archivePath rtPath) = []"
    using assms(1,3) by (simp add: linkerInvocation_def isCRT_slash)
  moreover have "filter isCRT (stripArgs t) = []"
    using assms(1) by (simp add: stripArgs_def isCRT_slash isCRT_dash)
  ultimately show ?thesis
    using filter_dropRpaths [OF assms(4), of True] filter_userArgs [of extra] assms(3)
      haveCRT_filter [of "systemLibraryArgs cfg"]
    by (auto simp: args)
qed

definition sample_config :: mojo_config where
  "sample_config =
     \<lparr>linkerDriver = [], lldPath = ''/opt/mojo/bin/lld'', compilerRTPath = ''/opt/mojo/lib/rt.so'',
      compilerRTImportLibraryPath = ''/opt/mojo/lib/rt.lib'', systemLibraryArgs = [''ws2_32.lib''],
      sharedLibraryArgs = (\<lambda>name. [name ''Async'', ''-Xlinker'', ''-rpath'', ''-Xlinker'', ''/opt/mojo/lib''])\<rparr>"

definition plain_options :: link_options where
  "plain_options = \<lparr>noDebug = True, sanitizeAddress = False, sanitizeThread = False,
     externalLibasan = [], sharedLibasan = False\<rparr>"

definition sample_args :: "string list" where
  "sample_args =
     [''lld-link'', ''a.lib'', ''rt.lib'', ''Async.dll'', ''/out:app.exe'', ''/nologo'', ''/SUBSYSTEM:CONSOLE'',
      ''m.res'', ''/IGNORE:4001'', ''libcmt.lib'', ''libvcruntime.lib'', ''libucrt.lib'', ''oldnames.lib'',
      ''/machine:X64'', ''/OPT:REF'', ''ws2_32.lib'', ''-Xlinker'', ''/STACK:1'']"

lemma sample_command:
  "linkerArgs Executable windows_link_triple sample_config plain_options [''/STACK:1''] ''lld-link'' ''a.lib'' ''m.res''
     ''rt.lib'' ''app.exe'' = Inr sample_args"
  by (simp add: linkerArgs_def windows_link_triple_def sample_config_def plain_options_def sample_args_def
      windowsLinkArgs_def linkerInvocation_def stripArgs_def userArgs_def getSharedLibraryFileName_def
      haveCRT_def kWindowsCRTLibs_def equals_insensitive_def to_lower_char_def less_eq_char_def)

theorem windows_link_one_crt_witness: "filter isCRT sample_args = [''libcmt.lib'']"
  using windows_link_one_crt [OF _ sample_command]
  by (simp add: windows_link_triple_def sample_config_def getSharedLibraryFileName_def isCRT_def haveCRT_def
      kWindowsCRTLibs_def equals_insensitive_def to_lower_char_def less_eq_char_def)

lemma dropRpaths_False: "dropRpaths False xs = xs"
  by (induction "False" xs rule: dropRpaths.induct) simp_all

text \<open>An rpath that the configuration makes up, and a library that is not an option.\<close>

datatype shared_arg = Rpath string | Lib string

fun shared_arg_list :: "shared_arg \<Rightarrow> string list" where
  "shared_arg_list (Rpath d) = [''-Xlinker'', ''-rpath'', ''-Xlinker'', d]"
| "shared_arg_list (Lib l) = [l]"

text \<open>
  On Windows the filter on the shared library arguments removes every made-up rpath with its
  directory and keeps every library in order; on other systems it keeps everything.
\<close>
theorem dropRpaths_exact:
  assumes "list_all (\<lambda>a. a \<noteq> Lib ''-Xlinker'') as"
  shows "dropRpaths True (concat (map shared_arg_list as)) =
      concat (map shared_arg_list (filter (\<lambda>a. \<exists>l. a = Lib l) as)) \<and>
    dropRpaths False xs = xs"
proof -
  have "dropRpaths False xs = xs" by (rule dropRpaths_False)
  moreover have "dropRpaths True (concat (map shared_arg_list as)) =
      concat (map shared_arg_list (filter (\<lambda>a. \<exists>l. a = Lib l) as))"
    using assms
  proof (induction as)
    case (Cons a as)
    then show ?case by (cases a) (auto simp: numeral_3_eq_3)
  qed simp
  ultimately show ?thesis by simp
qed

theorem dropRpaths_exact_witness:
  "dropRpaths True (concat (map shared_arg_list [Lib ''a.lib'', Rpath ''/lib'', Lib ''b.lib''])) =
      concat (map shared_arg_list (filter (\<lambda>a. \<exists>l. a = Lib l) [Lib ''a.lib'', Rpath ''/lib'', Lib ''b.lib''])) \<and>
   dropRpaths False [''-Xlinker'', ''-rpath''] = [''-Xlinker'', ''-rpath'']"
  by (rule dropRpaths_exact) simp

text \<open>
  A link that reports success has really linked: the directory of the output and the runtime
  library exist, the linker was found, was run with the returned command, which names the file the
  archive was written to, and exited with zero; on
  a Mac the bundle of debug information asked for was made; on
  Windows the target was x86-64 with no sanitizer asked for; and a Windows executable, and nothing
  else, was given the manifest resource that was written for it.
\<close>
theorem link_success_sound:
  assumes "linkOutput os configOr out t opts manifest a archive = Inr (Linked args)"
  shows "\<exists>cfg linker archivePath manifestPath.
    configOr = Inr cfg \<and> resolveLinker os cfg t = Some linker \<and> out \<noteq> ObjectFile \<and>
    pathExists os (absoluteParent os (case argO a of Some f \<Rightarrow> f | None \<Rightarrow> defaultOutputName os out t (argInput a))) \<and>
    pathExists os (if isOSWindows t then compilerRTImportLibraryPath cfg else compilerRTPath cfg) \<and>
    fst (executeAndWait os linker args) = 0 \<and>
    writeArchive os (''mojo_archive-%%%%%%%'' @ getStaticArchiveExtension t) archive = Inr archivePath \<and>
    archivePath \<in> set args \<and>
    (appleHost os \<and> isOSDarwin t \<and> \<not> noDebug opts \<longrightarrow>
       generateDSYM os (case argO a of Some f \<Rightarrow> f | None \<Rightarrow> defaultOutputName os out t (argInput a)) = Inr ()) \<and>
    (\<not> isOSWindows t \<or> tripleArch t = X86_64 \<and> \<not> sanitizeAddress opts \<and> \<not> sanitizeThread opts) \<and>
    (if isOSWindows t \<and> out = Executable
     then writeResource os ''mojo_manifest-%%%%%%%.res'' (buildWindowsManifestResource manifest) = Inr manifestPath
     else manifestPath = []) \<and>
    linkerArgs out t cfg opts (argXlinker a) linker archivePath manifestPath
      (if isOSWindows t then compilerRTImportLibraryPath cfg else compilerRTPath cfg)
      (case argO a of Some f \<Rightarrow> f | None \<Rightarrow> defaultOutputName os out t (argInput a)) = Inr args"
proof -
  let ?o = "case argO a of Some f \<Rightarrow> f | None \<Rightarrow> defaultOutputName os out t (argInput a)"
  from assms obtain cfg linker where c: "configOr = Inr cfg" "resolveLinker os cfg t = Some linker"
    "out \<noteq> ObjectFile" "pathExists os (absoluteParent os ?o)"
    and l: "linkArchive os out t cfg opts (argXlinker a) manifest linker ?o archive = Inr (Linked args)"
    by (auto simp: linkOutput_def Let_def split: sum.splits if_splits option.splits)
  let ?rt = "if isOSWindows t then compilerRTImportLibraryPath cfg else compilerRTPath cfg"
  from l obtain archivePath manifestPath args' where m: "writeManifest os out t manifest = Inr manifestPath"
    "pathExists os ?rt"
    "linkerArgs out t cfg opts (argXlinker a) linker archivePath manifestPath ?rt ?o = Inr args'"
    "runLinker os out linker args' = Inr (Linked args)"
    and d: "appleHost os \<and> isOSDarwin t \<and> \<not> noDebug opts \<longrightarrow> generateDSYM os ?o = Inr ()"
    and w: "writeArchive os (''mojo_archive-%%%%%%%'' @ getStaticArchiveExtension t) archive = Inr archivePath"
    by (auto simp: linkArchive_def Let_def bind_err_eq_Inr_iff finishLink_def split: sum.splits if_splits)
  have run: "args' = args" "fst (executeAndWait os linker args) = 0"
    using m(4) by (auto simp: runLinker_def split: prod.splits if_splits)
  have "archivePath \<in> set args"
    using m(3) run by (auto simp: linkerArgs_def bind_err_eq_Inr_iff linkerInvocation_def)
  moreover have "\<not> isOSWindows t \<or> tripleArch t = X86_64 \<and> \<not> sanitizeAddress opts \<and> \<not> sanitizeThread opts"
    using m(3) by (auto simp: linkerArgs_def bind_err_eq_Inr_iff windowsLinkArgs_def split: if_splits)
  moreover have "if isOSWindows t \<and> out = Executable
      then writeResource os ''mojo_manifest-%%%%%%%.res'' (buildWindowsManifestResource manifest) = Inr manifestPath
      else manifestPath = []"
    using m(1) by (auto simp: writeManifest_def split: sum.splits if_splits)
  ultimately show ?thesis using c m(2,3) w d run by blast
qed

theorem link_success_sound_witness:
  "\<exists>args. linkOutput sample_host (Inr sample_config) Executable windows_link_triple plain_options [60]
      \<lparr>argInput = ''src/app.mojo'', argO = None, argXlinker = [], argEmit = ''exe''\<rparr> () = Inr (Linked args) \<and>
    (\<exists>linker. resolveLinker sample_host sample_config windows_link_triple = Some linker \<and>
      fst (executeAndWait sample_host linker args) = 0)"
proof -
  let ?a = "\<lparr>argInput = ''src/app.mojo'', argO = None, argXlinker = [], argEmit = ''exe''\<rparr>"
  have "\<exists>args. linkOutput sample_host (Inr sample_config) Executable windows_link_triple plain_options [60] ?a () =
      Inr (Linked args)"
    by (simp add: linkOutput_def linkArchive_def finishLink_def writeManifest_def runLinker_def linkerArgs_def
        resolveLinker_def findBundledLinker_def sample_host_def sample_config_def windows_link_triple_def
        plain_options_def windowsLinkArgs_def Let_def)
  then obtain args where l: "linkOutput sample_host (Inr sample_config) Executable windows_link_triple
      plain_options [60] ?a () = Inr (Linked args)" by blast
  from link_success_sound [OF l] have "\<exists>linker. resolveLinker sample_host sample_config windows_link_triple = Some linker \<and>
      fst (executeAndWait sample_host linker args) = 0" by auto
  with l show ?thesis by blast
qed

text \<open>
  A user flag reaches a Windows link behind the argument \<^verbatim>\<open>-Xlinker\<close>, which is an option of a C
  compiler driver and not of the COFF linker that is run.
\<close>
theorem windows_user_flags_wrapped:
  "\<exists>args. linkerArgs Executable windows_link_triple sample_config plain_options [''/STACK:1''] ''lld-link''
      ''a.lib'' ''m.res'' ''rt.lib'' ''app.exe'' = Inr args \<and> hd args = ''lld-link'' \<and>
    drop (length args - 2) args = [''-Xlinker'', ''/STACK:1'']"
  by (simp add: sample_command sample_args_def)

section \<open>The subcommand\<close>

text \<open>
  Print options: without a help flag, more than one of the four is an error; exactly one prints
  what it names, the effective target after the common arguments parsed without an input file; and
  the driver goes on to build only when none is given.
\<close>
theorem parseArgs_print_options:
  assumes "\<not> flagHelp a" "\<not> flagHelpHidden a"
  shows "(printOptionCount a > 1 \<longrightarrow> parseArgs env a = Inl (Reported ''only one --print-* option can be specified at a time'')) \<and>
    (parseArgs env a = Inr ti \<longrightarrow> printOptionCount a = 0 \<and>
       (\<exists>r. parseCommon env True = Inr r \<and> commonExit r = None \<and> ti = commonTarget r)) \<and>
    (printOptionCount a = 1 \<and> flagPrintEffectiveTarget a \<and> parseCommon env False = Inr r \<and> commonExit r = None \<longrightarrow>
       parseArgs env a = Inl (Printed (printEffectiveTarget (llvmNormalize env) (commonTarget r))))"
  using assms
  by (auto simp: parseArgs_def printOptionCount_def split: if_splits sum.splits option.splits)

definition sample_flags :: build_flags where
  "sample_flags = \<lparr>flagHelp = False, flagHelpHidden = False, flagPrintEffectiveTarget = True,
     flagPrintSupportedTargets = True, flagPrintSupportedCpus = False,
     flagPrintSupportedAccelerators = False, flagTargetTriple = []\<rparr>"

definition sample_parse_env :: parse_env where
  "sample_parse_env = \<lparr>llvmNormalize = (\<lambda>s. \<lparr>archPart = s, vendorPart = [], osPart = [], envPart = []\<rparr>),
     validCpus = (\<lambda>_. []), llvmTargets = [], allTraits = [], parseCommon = (\<lambda>_. Inl ''bad'')\<rparr>"

theorem parseArgs_print_options_witness:
  "parseArgs sample_parse_env sample_flags =
     Inl (Reported ''only one --print-* option can be specified at a time'')"
  using parseArgs_print_options [of sample_flags sample_parse_env]
  by (simp add: sample_flags_def printOptionCount_def)

text \<open>
  The driver links only what it compiled for linking: when a build ends in a link, the arguments
  parsed, the output kind was an executable whose module has a main function, a shared library whose
  module has none, or an object file, no warning had been promoted to an error, and the archive that
  was linked is the one the compiler emitted for that kind.
\<close>
theorem build_links_compiled_archive:
  assumes "build env flags stg os openError configOr t opts manifest a = LinkDone r"
  shows "\<exists>out c x. outputTypeOf (argEmit a) = Inr out \<and> invokeParser stg = Inr (Some c) \<and>
    (out = Executable \<and> moduleHasMain c \<or> out = SharedLibrary \<and> \<not> moduleHasMain c \<or> out = ObjectFile) \<and>
    \<not> werrorEmitted stg \<and> emitArchive c (out = SharedLibrary) = Inr x \<and>
    linkOutput os configOr out t opts manifest a x = Inr r"
proof -
  from assms obtain out c x where b: "outputTypeOf (argEmit a) = Inr out" "invokeParser stg = Inr (Some c)"
    "compileModuleToArchive (isSeparator os) openError c out a = Archive x" "\<not> werrorEmitted stg"
    "linkOutput os configOr out t opts manifest a x = Inr r"
    by (auto simp: build_def split: sum.splits option.splits compile_result.splits if_splits)
  have "(out = Executable \<and> moduleHasMain c \<or> out = SharedLibrary \<and> \<not> moduleHasMain c \<or> out = ObjectFile) \<and>
      emitArchive c (out = SharedLibrary) = Inr x"
    using b(3)
    by (cases out) (auto simp: compileModuleToArchive_def emitModuleArchive_def emitLLVMFile_def
        emitAssemblyFile_def split: sum.splits if_splits)
  with b show ?thesis by blast
qed

definition sample_compiler :: "unit compiler" where
  "sample_compiler = \<lparr>createObjectCompiler = Inr (), runKGENPipeline = (\<lambda>_. Inr ()), moduleHasMain = True,
     lowerAllFuncsToLLVM = Inr (), emitBitcode = Inr (), emitAssemblyFails = False, emitArchive = (\<lambda>_. Inr ())\<rparr>"

definition sample_stages :: "unit stages" where
  "sample_stages = \<lparr>createContext = Inr (), configureTiming = Inr (), invokeParser = Inr (Some sample_compiler),
     werrorEmitted = False\<rparr>"

definition sample_target :: target_info where
  "sample_target = \<lparr>tiTriple = ''x86_64-pc-windows-msvc'', tiArch = ''x86-64'', tiFeatures = [], tiAbi = [],
     tiAccelerator = []\<rparr>"

theorem build_links_compiled_archive_witness:
  "\<exists>r. build (sample_parse_env\<lparr>parseCommon := (\<lambda>_. Inr \<lparr>commonExit = None, commonTarget = sample_target\<rparr>)\<rparr>)
      (sample_flags\<lparr>flagPrintEffectiveTarget := False, flagPrintSupportedTargets := False\<rparr>)
      sample_stages sample_host (\<lambda>_. None) (Inr sample_config) windows_link_triple plain_options [60]
      \<lparr>argInput = ''src/app.mojo'', argO = Some ''app.obj'', argXlinker = [], argEmit = ''object''\<rparr> = LinkDone r \<and>
    linkOutput sample_host (Inr sample_config) ObjectFile windows_link_triple plain_options [60]
      \<lparr>argInput = ''src/app.mojo'', argO = Some ''app.obj'', argXlinker = [], argEmit = ''object''\<rparr> () = Inr r"
proof -
  let ?a = "\<lparr>argInput = ''src/app.mojo'', argO = Some ''app.obj'', argXlinker = [], argEmit = ''object''\<rparr>"
  have b: "build (sample_parse_env\<lparr>parseCommon := (\<lambda>_. Inr \<lparr>commonExit = None, commonTarget = sample_target\<rparr>)\<rparr>)
      (sample_flags\<lparr>flagPrintEffectiveTarget := False, flagPrintSupportedTargets := False\<rparr>)
      sample_stages sample_host (\<lambda>_. None) (Inr sample_config) windows_link_triple plain_options [60] ?a =
      LinkDone (WroteObject ''app.obj'')"
    by (simp add: build_def parseArgs_def printOptionCount_def sample_flags_def sample_stages_def outputTypeOf_def
        compileModuleToArchive_def sample_compiler_def emitModuleArchive_def linkOutput_def resolveLinker_def
        findBundledLinker_def sample_host_def sample_config_def windows_link_triple_def Let_def)
  from build_links_compiled_archive [OF b] b show ?thesis
    by (auto simp: outputTypeOf_def)
qed

end
