(* ===== verification/Xlinker_Resolution.thy ===== *)
theory Xlinker_Resolution
  imports Mojo_Prelude
begin

text \<open>
  Which libraries \<^verbatim>\<open>mojo run\<close> loads for the linker arguments it is given
  (\<^verbatim>\<open>Mojo/tools/mojo/Common/XlinkerResolution.cpp\<close>).  The platform the program was built for, the
  name of a shared library there and the file system are the fields of \<open>xl_env\<close>; the result is the
  list of libraries with the list of warnings.
\<close>

record xl_env =
  hostWindows :: bool
  hostApple :: bool
  sharedLibraryName :: "string \<Rightarrow> string"
  fileExists :: "string \<Rightarrow> bool"
  joinPath :: "string \<Rightarrow> string \<Rightarrow> string"

definition ends_with_insensitive :: "string \<Rightarrow> string \<Rightarrow> bool" where
  "ends_with_insensitive p s \<longleftrightarrow> ends_with (map to_lower_char p) (map to_lower_char s)"

definition hasSharedLibraryExtension :: "xl_env \<Rightarrow> string \<Rightarrow> bool" where
  "hasSharedLibraryExtension e path \<longleftrightarrow>
     (if hostWindows e then ends_with_insensitive ''.dll'' path
      else ends_with ''.so'' path \<or> ends_with ''.dylib'' path \<or> sublist ''.so.'' path)"

definition libraryCandidates :: "xl_env \<Rightarrow> string \<Rightarrow> string list" where
  "libraryCandidates e libName =
     sharedLibraryName e libName # (if hostApple e then [''lib'' @ libName @ ''.so''] else [])"

fun findLibraryByName :: "xl_env \<Rightarrow> string \<Rightarrow> string list \<Rightarrow> string option" where
  "findLibraryByName e libName [] = None"
| "findLibraryByName e libName (dir # dirs) =
     (case filter (fileExists e) (map (joinPath e dir) (libraryCandidates e libName)) of
        c # _ \<Rightarrow> Some c
      | [] \<Rightarrow> findLibraryByName e libName dirs)"

record xl_state =
  searchDirs :: "string list"
  libraries :: "string list"
  deferredLibs :: "string list"
  warnings :: "string list"

definition addDir :: "string \<Rightarrow> xl_state \<Rightarrow> xl_state" where
  "addDir d st = st\<lparr>searchDirs := searchDirs st @ [d]\<rparr>"

definition addDeferred :: "string \<Rightarrow> xl_state \<Rightarrow> xl_state" where
  "addDeferred l st = st\<lparr>deferredLibs := deferredLibs st @ [l]\<rparr>"

definition warn :: "string \<Rightarrow> xl_state \<Rightarrow> xl_state" where
  "warn w st = st\<lparr>warnings := warnings st @ [w]\<rparr>"

definition quoted :: "string \<Rightarrow> string" where
  "quoted s = [CHR 0x27] @ s @ [CHR 0x27]"

text \<open>What an option whose value is empty takes: the next argument, if there is one.\<close>

definition valueOrNext :: "(string \<Rightarrow> xl_state \<Rightarrow> xl_state) \<Rightarrow> string \<Rightarrow> string list \<Rightarrow> xl_state \<Rightarrow> string list \<times> xl_state" where
  "valueOrNext add v rest st =
     (if v \<noteq> [] then (rest, add v st)
      else case rest of [] \<Rightarrow> ([], st) | n # rest' \<Rightarrow> (rest', add n st))"

definition directLibrary :: "xl_env \<Rightarrow> string \<Rightarrow> xl_state \<Rightarrow> xl_state" where
  "directLibrary e arg st =
     (if hasSharedLibraryExtension e arg then
        if fileExists e arg then st\<lparr>libraries := libraries st @ [arg]\<rparr>
        else warn (''shared library does not exist for `-Xlinker` argument: '' @ quoted arg) st
      else warn (''-Xlinker argument has no effect on `mojo run`: '' @ quoted arg) st)"

text \<open>One argument with those that follow it: the arguments left and the new state.\<close>

definition xlinkerArg :: "xl_env \<Rightarrow> string \<Rightarrow> string list \<Rightarrow> xl_state \<Rightarrow> string list \<times> xl_state" where
  "xlinkerArg e arg rest st =
     (case consume_front ''-L'' arg of
        Some v \<Rightarrow> valueOrNext addDir v rest st
      | None \<Rightarrow>
     (case consume_front ''--library-path='' arg of
        Some v \<Rightarrow> valueOrNext addDir v rest st
      | None \<Rightarrow>
     (if arg = ''--library-path'' then valueOrNext addDir [] rest st
      else
     (case consume_front ''-l'' arg of
        Some v \<Rightarrow> valueOrNext addDeferred v rest st
      | None \<Rightarrow>
     (case consume_front ''-rpath='' arg of
        Some v \<Rightarrow> (rest, addDir v st)
      | None \<Rightarrow>
     (case consume_front ''--rpath='' arg of
        Some v \<Rightarrow> (rest, addDir v st)
      | None \<Rightarrow>
     (if arg = ''-rpath'' \<or> arg = ''--rpath'' then valueOrNext addDir [] rest st
      else (rest, directLibrary e arg st))))))))"

lemma valueOrNext_shorter: "length (fst (valueOrNext add v rest st)) \<le> length rest"
  by (simp add: valueOrNext_def split: list.splits)

lemma xlinkerArg_shorter: "length (fst (xlinkerArg e arg rest st)) \<le> length rest"
  unfolding xlinkerArg_def
  by (simp only: valueOrNext_shorter fst_conv order_refl simp_thms split: option.split if_split)

function xlinkerArgs :: "xl_env \<Rightarrow> string list \<Rightarrow> xl_state \<Rightarrow> xl_state" where
  "xlinkerArgs e [] st = st"
| "xlinkerArgs e (arg # rest) st =
     xlinkerArgs e (fst (xlinkerArg e arg rest st)) (snd (xlinkerArg e arg rest st))"
  by pat_completeness auto
termination
  by (relation "measure (\<lambda>(e, args, st). length args)") (auto simp: less_Suc_eq_le xlinkerArg_shorter split_beta)

fun resolveDeferred :: "xl_env \<Rightarrow> string list \<Rightarrow> xl_state \<Rightarrow> xl_state" where
  "resolveDeferred e [] st = st"
| "resolveDeferred e (l # ls) st =
     resolveDeferred e ls
       (case findLibraryByName e l (searchDirs st) of
          Some p \<Rightarrow> st\<lparr>libraries := libraries st @ [p]\<rparr>
        | None \<Rightarrow> warn (''could not locate shared library for '' @ [CHR 0x27] @ ''-l'' @ l @ [CHR 0x27] @
                        '' on the linker search path'') st)"

definition resolveXlinkerLibraries :: "xl_env \<Rightarrow> string list \<Rightarrow> string list \<times> string list" where
  "resolveXlinkerLibraries e args =
     (let st = xlinkerArgs e args \<lparr>searchDirs = [], libraries = [], deferredLibs = [], warnings = []\<rparr>;
          st = resolveDeferred e (deferredLibs st) st
      in (libraries st, warnings st))"

section \<open>Every library exists\<close>

lemma findLibraryByName_Some:
  "findLibraryByName e l dirs = Some p \<Longrightarrow>
   fileExists e p \<and> (\<exists>d \<in> set dirs. \<exists>c \<in> set (libraryCandidates e l). p = joinPath e d c)"
proof (induction dirs)
  case (Cons d dirs)
  let ?cs = "filter (fileExists e) (map (joinPath e d) (libraryCandidates e l))"
  show ?case
  proof (cases "?cs = []")
    case True
    with Cons show ?thesis by auto
  next
    case False
    then have "p = hd ?cs" using Cons.prems by (cases ?cs) auto
    then have "p \<in> set ?cs" using False hd_in_set by blast
    then show ?thesis by auto
  qed
qed simp

lemma findLibraryByName_None:
  "findLibraryByName e l dirs = None \<longleftrightarrow>
   (\<forall>d \<in> set dirs. \<forall>c \<in> set (libraryCandidates e l). \<not> fileExists e (joinPath e d c))"
  by (induction dirs) (auto simp: filter_empty_conv split: list.splits dest: filter_eq_ConsD)

definition all_exist :: "xl_env \<Rightarrow> xl_state \<Rightarrow> bool" where
  "all_exist e st \<longleftrightarrow> list_all (fileExists e) (libraries st)"

lemma add_keeps: "libraries (addDir d st) = libraries st" "libraries (addDeferred l st) = libraries st"
  "libraries (warn w st) = libraries st"
  by (simp_all add: addDir_def addDeferred_def warn_def)

lemma valueOrNext_keeps:
  "(\<And>x s. libraries (add x s) = libraries s) \<Longrightarrow> libraries (snd (valueOrNext add v rest st)) = libraries st"
  by (simp add: valueOrNext_def split: list.splits)

lemmas value_keeps = valueOrNext_keeps [of addDir, OF add_keeps(1)] valueOrNext_keeps [of addDeferred, OF add_keeps(2)]

lemma directLibrary_exists: "all_exist e st \<Longrightarrow> all_exist e (directLibrary e arg st)"
  by (simp add: all_exist_def directLibrary_def add_keeps)

lemma xlinkerArg_exists: "all_exist e st \<Longrightarrow> all_exist e (snd (xlinkerArg e arg rest st))"
  unfolding xlinkerArg_def
  by (simp only: snd_conv all_exist_def value_keeps add_keeps directLibrary_exists [unfolded all_exist_def]
      simp_thms split: option.split if_split)

lemma xlinkerArgs_exists: "all_exist e st \<Longrightarrow> all_exist e (xlinkerArgs e args st)"
  by (induction e args st rule: xlinkerArgs.induct) (simp_all add: xlinkerArg_exists)

lemma resolveDeferred_exists: "all_exist e st \<Longrightarrow> all_exist e (resolveDeferred e ls st)"
proof (induction ls arbitrary: st)
  case (Cons l ls)
  have "all_exist e (case findLibraryByName e l (searchDirs st) of
      Some p \<Rightarrow> st\<lparr>libraries := libraries st @ [p]\<rparr> | None \<Rightarrow> warn w st)" for w
    using Cons.prems findLibraryByName_Some [of e l "searchDirs st"]
    by (auto simp: all_exist_def add_keeps split: option.split)
  with Cons.IH show ?case by simp
qed simp

text \<open>
  Every library that is handed to the loader exists, whether it was named by path or found by
  name on the search path.
\<close>
theorem resolved_libraries_exist:
  "list_all (fileExists e) (fst (resolveXlinkerLibraries e args))"
  using resolveDeferred_exists [OF xlinkerArgs_exists, of e]
  by (simp add: resolveXlinkerLibraries_def Let_def all_exist_def)

text \<open>
  A library given by name is looked up after all arguments were read, so a search directory
  counts whether it comes before or after the name, and in both its spellings.
\<close>
theorem search_directory_order_irrelevant:
  assumes "n \<noteq> []" "d \<noteq> []" "fileExists e (joinPath e d (sharedLibraryName e n))"
  shows "resolveXlinkerLibraries e [''-l'' @ n, ''-L'' @ d] = ([joinPath e d (sharedLibraryName e n)], []) \<and>
    resolveXlinkerLibraries e [''-L'' @ d, ''-l'' @ n] = ([joinPath e d (sharedLibraryName e n)], []) \<and>
    resolveXlinkerLibraries e [''-l'', n, ''--library-path'', d] = ([joinPath e d (sharedLibraryName e n)], [])"
  using assms
  by (simp add: resolveXlinkerLibraries_def xlinkerArg_def consume_front_def starts_with_def valueOrNext_def
      addDir_def addDeferred_def libraryCandidates_def)

definition sample_xl :: xl_env where
  "sample_xl = \<lparr>hostWindows = True, hostApple = False, sharedLibraryName = (\<lambda>n. n @ ''.dll''),
     fileExists = (\<lambda>p. p = ''bin/foo.dll''), joinPath = (\<lambda>d f. d @ ''/'' @ f)\<rparr>"

theorem search_directory_order_irrelevant_witness:
  "resolveXlinkerLibraries sample_xl [''-lfoo'', ''-Lbin''] = ([''bin/foo.dll''], [])"
  using search_directory_order_irrelevant [of "''foo''" "''bin''" sample_xl] by (simp add: sample_xl_def)

end
