(* ===== verification/Config_File.thy ===== *)
theory Config_File
  imports Mojo_Prelude
begin

text \<open>
  The configuration file \<^verbatim>\<open>modular.cfg\<close> (\<^verbatim>\<open>Support/lib/Configuration.cpp\<close>): parsing, lookup with its
  precedence, the debug environment variable, and the search for the folders and files of an
  installation.  The environment, the process-wide overrides, the runfiles lookup and the file system
  are parameters; a map from lower-case keys to values is the state of a \<^verbatim>\<open>Config\<close>.
\<close>

section \<open>Strings\<close>

definition is_newline :: "char \<Rightarrow> bool" where
  "is_newline c \<longleftrightarrow> c = CHR 0x0A \<or> c = CHR 0x0D \<or> c = CHR 0x0C \<or> c = CHR 0x0B"

definition is_space :: "char \<Rightarrow> bool" where
  "is_space c \<longleftrightarrow> c = CHR '' '' \<or> c = CHR 0x09 \<or> is_newline c"

definition trim_by :: "(char \<Rightarrow> bool) \<Rightarrow> string \<Rightarrow> string" where
  "trim_by P s = rev (dropWhile P (rev (dropWhile P s)))"

abbreviation trim :: "string \<Rightarrow> string" where
  "trim \<equiv> trim_by is_space"

definition lower :: "string \<Rightarrow> string" where
  "lower s = map to_lower_char s"

definition to_upper_char :: "char \<Rightarrow> char" where
  "to_upper_char c = (if CHR ''a'' \<le> c \<and> c \<le> CHR ''z'' then char_of (of_char c - 32 :: nat) else c)"

text \<open>\<^verbatim>\<open>StringRef::split(c)\<close>: at the first occurrence; without one the second part is empty.\<close>

definition split_at :: "char \<Rightarrow> string \<Rightarrow> string \<times> string" where
  "split_at c s = (takeWhile (\<lambda>x. x \<noteq> c) s, drop 1 (dropWhile (\<lambda>x. x \<noteq> c) s))"

text \<open>\<^verbatim>\<open>split(values, c, -1, KeepEmpty=false)\<close>.\<close>

fun split_nonempty_acc :: "char \<Rightarrow> string \<Rightarrow> string \<Rightarrow> string list" where
  "split_nonempty_acc c cur [] = (if cur = [] then [] else [cur])"
| "split_nonempty_acc c cur (x # xs) =
     (if x = c then (if cur = [] then [] else [cur]) @ split_nonempty_acc c [] xs
      else split_nonempty_acc c (cur @ [x]) xs)"

definition split_nonempty :: "char \<Rightarrow> string \<Rightarrow> string list" where
  "split_nonempty c s = split_nonempty_acc c [] s"

section \<open>Parsing\<close>

type_synonym kv_map = "string \<Rightarrow> string option"

definition takeLine :: "string \<Rightarrow> string \<times> string" where
  "takeLine buffer = (takeWhile (\<lambda>c. \<not> is_newline c) buffer, drop 1 (dropWhile (\<lambda>c. \<not> is_newline c) buffer))"

lemma takeLine_shorter: "buffer \<noteq> [] \<Longrightarrow> length (snd (takeLine buffer)) < length buffer"
  using length_dropWhile_le [of "\<lambda>c. \<not> is_newline c" buffer]
  by (cases buffer) (auto simp: takeLine_def less_Suc_eq_le split: if_splits)

definition malformed :: string where
  "malformed = ''malformed line: expected `key = value`''"

text \<open>One line in the current section: the section and the map after it.\<close>

definition parseLine :: "string \<Rightarrow> string \<Rightarrow> kv_map \<Rightarrow> (string \<times> kv_map) error_or" where
  "parseLine line section kv =
     (if trim line = [] then Inr (section, kv)
      else case consume_front ''['' line of
        Some rest \<Rightarrow> Inr (trim (takeWhile (\<lambda>c. c \<noteq> CHR '']'') rest), kv)
      | None \<Rightarrow>
          let tmp = takeWhile (\<lambda>c. \<not> (c = CHR ''#'' \<or> c = CHR '';'')) line in
          if trim tmp = [] then Inr (section, kv)
          else
            let (k, v) = split_at CHR ''='' tmp in
            if v = [] then Inl malformed
            else
              let prefix = (if section \<noteq> [] then section @ ''.'' else [])
              in Inr (section, kv(lower (prefix @ trim k) \<mapsto> trim v)))"

function parseLoop :: "string \<Rightarrow> string \<Rightarrow> kv_map \<Rightarrow> kv_map error_or" where
  "parseLoop buffer section kv =
     (if buffer = [] then Inr kv
      else bind_err (parseLine (fst (takeLine buffer)) section kv)
             (\<lambda>(section, kv). parseLoop (snd (takeLine buffer)) section kv))"
  by pat_completeness auto
termination
  by (relation "measure (\<lambda>(buffer, _, _). length buffer)") (auto simp: takeLine_shorter)

declare parseLoop.simps [simp del]

definition parseFrom :: "string \<Rightarrow> kv_map \<Rightarrow> kv_map error_or" where
  "parseFrom buffer kv = parseLoop buffer [] kv"

section \<open>Lookup\<close>

record config_env =
  globalOverrides :: kv_map
  getEnv :: "string \<Rightarrow> string option"
  runfilesValue :: "string \<Rightarrow> string option"

definition envName :: "string \<Rightarrow> string" where
  "envName key =
     ''MODULAR_'' @ map (\<lambda>c. if c = CHR ''.'' \<or> c = CHR ''-'' then CHR ''_'' else c) (map to_upper_char key)"

definition maybeGetValue :: "config_env \<Rightarrow> string \<Rightarrow> kv_map \<Rightarrow> string option \<times> kv_map" where
  "maybeGetValue e key kv =
     (case globalOverrides e (lower key) of
        Some v \<Rightarrow> (Some v, kv(lower key \<mapsto> v))
      | None \<Rightarrow>
          let kv = (case getEnv e (envName key) of
                      Some v \<Rightarrow> kv(lower key \<mapsto> v)
                    | None \<Rightarrow>
                        (case runfilesValue e key of
                           Some p \<Rightarrow> kv(lower key \<mapsto> p)
                         | None \<Rightarrow> kv))
          in (kv (lower key), kv))"

definition the_default :: "'a \<Rightarrow> 'a option \<Rightarrow> 'a" where
  "the_default d x = (case x of Some v \<Rightarrow> v | None \<Rightarrow> d)"

lemma the_default_simps [simp]: "the_default d None = d" "the_default d (Some v) = v"
  by (simp_all add: the_default_def)

definition getValue :: "config_env \<Rightarrow> string \<Rightarrow> kv_map \<Rightarrow> string \<times> kv_map" where
  "getValue e key kv =
     (case maybeGetValue e key kv of (Some v, kv) \<Rightarrow> (v, kv) | (None, kv) \<Rightarrow> ([], kv))"

definition getValueOr :: "config_env \<Rightarrow> string \<Rightarrow> string \<Rightarrow> kv_map \<Rightarrow> string \<times> kv_map" where
  "getValueOr e key defaultValue kv =
     (case getValue e key kv of (v, kv) \<Rightarrow> (if v = [] then defaultValue else v, kv))"

definition getPath :: "config_env \<Rightarrow> string \<Rightarrow> string \<Rightarrow> kv_map \<Rightarrow> string \<times> kv_map" where
  "getPath e key relativePath kv =
     (case getValue e (lower key) kv of
        (v, kv) \<Rightarrow>
          if v \<noteq> [] then (v, kv)
          else
            (case getValue e (fst (split_at CHR ''.'' key) @ ''.package_root'') kv of
               (root, kv) \<Rightarrow>
                 let p = root @ ''/'' @ relativePath in (p, kv(lower key \<mapsto> p))))"

definition getValueAsBool :: "config_env \<Rightarrow> string \<Rightarrow> bool \<Rightarrow> kv_map \<Rightarrow> bool \<times> kv_map" where
  "getValueAsBool e key defaultValue kv =
     (case getValue e key kv of
        (v, kv) \<Rightarrow>
          (if v = [] then defaultValue
           else if lower v \<in> set [''0'', ''false'', ''no''] then False
           else if lower v \<in> set [''1'', ''true'', ''yes''] then True
           else defaultValue, kv))"

text \<open>
  \<^verbatim>\<open>StringRef::split(values, sep)\<close> with a string to split at, which keeps empty parts; \<open>None\<close> is the
  call that never returns, for an empty separator.
\<close>

fun find_sub :: "string \<Rightarrow> string \<Rightarrow> nat option" where
  "find_sub sep [] = (if sep = [] then Some 0 else None)"
| "find_sub sep (c # s) =
     (if starts_with sep (c # s) then Some 0 else map_option Suc (find_sub sep s))"

partial_function (option) split_str :: "string \<Rightarrow> string \<Rightarrow> string list option" where
  "split_str sep s =
     (case find_sub sep s of
        None \<Rightarrow> Some [s]
      | Some i \<Rightarrow> Option.bind (split_str sep (drop (i + length sep) s)) (\<lambda>parts. Some (take i s # parts)))"

definition getValueAsList :: "config_env \<Rightarrow> string \<Rightarrow> string \<Rightarrow> kv_map \<Rightarrow> string list option \<times> kv_map" where
  "getValueAsList e key sep kv =
     (case getValue e key kv of (v, kv) \<Rightarrow> (if v = [] then Some [] else split_str sep v, kv))"

definition isValueInList :: "config_env \<Rightarrow> string \<Rightarrow> string \<Rightarrow> string \<Rightarrow> kv_map \<Rightarrow> bool option \<times> kv_map" where
  "isValueInList e key v sep kv =
     (case getValueAsList e key sep kv of (vs, kv) \<Rightarrow> (map_option (\<lambda>vs. v \<in> set vs) vs, kv))"

definition setValue :: "string \<Rightarrow> string \<Rightarrow> kv_map \<Rightarrow> kv_map" where
  "setValue key v kv = kv(lower key \<mapsto> v)"

definition setGlobalValue :: "string \<Rightarrow> string \<Rightarrow> kv_map \<Rightarrow> kv_map" where
  "setGlobalValue key v overrides = overrides(lower key \<mapsto> v)"

definition unsetGlobalValue :: "string \<Rightarrow> kv_map \<Rightarrow> kv_map" where
  "unsetGlobalValue key overrides = overrides(lower key := None)"

definition getGlobalValueIfSet :: "string \<Rightarrow> kv_map \<Rightarrow> string option" where
  "getGlobalValueIfSet key overrides = overrides (lower key)"

section \<open>The debug variable\<close>

definition sensibleMode :: "kv_map \<Rightarrow> kv_map" where
  "sensibleMode ov =
     fold (\<lambda>(k, v). setGlobalValue k v)
       [(''max-debug.sensible-mode'', ''true''), (''max-debug.nan-check'', ''true''),
        (''max-debug.assert-level'', ''all''), (''max-debug.device-sync-mode'', ''true''),
        (''max-debug.stack-trace-on-error'', ''true''), (''max-debug.stack-trace-on-crash'', ''true''),
        (''max-debug.source-tracebacks'', ''true'')] ov"

definition valueOptions :: "string list" where
  "valueOptions = [''assert-level'', ''op-log-level'', ''print-style'', ''ir-output-dir'']"

definition flagOptions :: "string list" where
  "flagOptions = [''nan-check'', ''uninitialized-read-check'', ''device-sync-mode'', ''stack-trace-on-error'',
     ''stack-trace-on-crash'', ''source-tracebacks'']"

text \<open>One token: the new overrides, and the unknown option that is reported.\<close>

definition debugToken :: "string \<Rightarrow> kv_map \<times> string list \<Rightarrow> kv_map \<times> string list" where
  "debugToken token st =
     (let (ov, unknown) = st in
      if token = [] then st
      else if CHR ''='' \<in> set token then
        let (key, v) = split_at CHR ''='' token in
        if key \<in> set valueOptions then (setGlobalValue (''max-debug.'' @ key) v ov, unknown)
        else (ov, unknown @ [key])
      else if token = ''sensible'' then (sensibleMode ov, unknown)
      else if token \<in> set flagOptions then (setGlobalValue (''max-debug.'' @ token) ''true'' ov, unknown)
      else (ov, unknown @ [token]))"

definition is_blank :: "char \<Rightarrow> bool" where
  "is_blank c \<longleftrightarrow> c = CHR '' '' \<or> c = CHR 0x09"

function debugLoop :: "string \<Rightarrow> kv_map \<times> string list \<Rightarrow> kv_map \<times> string list" where
  "debugLoop env st =
     (if env = [] then st
      else debugLoop (snd (split_at CHR '','' env))
             (debugToken (trim_by is_blank (fst (split_at CHR '','' env))) st))"
  by pat_completeness auto
termination
  by (relation "measure (\<lambda>(env, _). length env)")
    (auto simp: split_at_def intro: le_less_trans [OF diff_le_mono [OF length_dropWhile_le]])

declare debugLoop.simps [simp del]

definition parseModularDebugEnv :: "string option \<Rightarrow> kv_map \<Rightarrow> kv_map \<times> string list" where
  "parseModularDebugEnv env ov = (case env of None \<Rightarrow> (ov, []) | Some s \<Rightarrow> debugLoop s (ov, []))"

lemmas lower_eval = lower_def to_lower_char_def less_eq_char_def char_of_def bit_Suc_0_iff

section \<open>Reading back a printed file\<close>

lemma trim_by_Nil_iff: "trim_by P s = [] \<longleftrightarrow> list_all P s"
proof -
  have "list_all P (dropWhile P s) \<longleftrightarrow> list_all P s" by (induction s) auto
  then show ?thesis by (simp add: trim_by_def list_all_iff)
qed

lemma trim_fixed_hd: "trim_by P s = s \<Longrightarrow> s = [] \<or> \<not> P (hd s)"
proof (rule ccontr)
  assume t: "trim_by P s = s" and c: "\<not> (s = [] \<or> \<not> P (hd s))"
  then obtain x xs where s: "s = x # xs" "P x" by (cases s) auto
  have "length (trim_by P s) \<le> length (dropWhile P s)"
    unfolding trim_by_def by (metis length_dropWhile_le length_rev)
  also have "\<dots> \<le> length xs" using s by (simp add: length_dropWhile_le)
  finally show False using t s by simp
qed

lemma trim_pad_front: "list_all P p \<Longrightarrow> trim_by P (p @ s) = trim_by P s"
  by (simp add: trim_by_def list_all_iff dropWhile_append2)

lemma trim_pad_back: "list_all P p \<Longrightarrow> trim_by P (s @ p) = trim_by P s"
proof (cases "list_all P s")
  case True
  moreover assume "list_all P p"
  ultimately show ?thesis by (metis list_all_append trim_by_Nil_iff)
next
  case False
  moreover assume "list_all P p"
  ultimately show ?thesis
    by (auto simp: trim_by_def list_all_iff) (subst dropWhile_append2, auto)
qed

lemma takeLine_line: "list_all (\<lambda>c. \<not> is_newline c) l \<Longrightarrow> is_newline n \<Longrightarrow> takeLine (l @ n # rest) = (l, rest)"
  by (simp add: takeLine_def list_all_iff takeWhile_append2 dropWhile_append2)

lemma parseLoop_line:
  assumes "list_all (\<lambda>c. \<not> is_newline c) l" "is_newline n"
  shows "parseLoop (l @ n # rest) section kv =
    bind_err (parseLine l section kv) (\<lambda>(section, kv). parseLoop rest section kv)"
  using assms by (subst parseLoop.simps) (simp add: takeLine_line)

abbreviation plain_char :: "char \<Rightarrow> bool" where
  "plain_char c \<equiv> \<not> is_newline c \<and> c \<noteq> CHR ''#'' \<and> c \<noteq> CHR '';''"

definition wf_section :: "string \<Rightarrow> bool" where
  "wf_section sec \<longleftrightarrow> list_all (\<lambda>c. \<not> is_newline c \<and> c \<noteq> CHR '']'') sec \<and> trim sec = sec"

definition wf_key :: "string \<Rightarrow> bool" where
  "wf_key k \<longleftrightarrow> list_all (\<lambda>c. plain_char c \<and> c \<noteq> CHR ''='') k \<and> trim k = k \<and> k \<noteq> [] \<and> hd k \<noteq> CHR ''[''"

definition wf_value :: "string \<Rightarrow> bool" where
  "wf_value v \<longleftrightarrow> list_all plain_char v \<and> trim v = v"

definition print_entry :: "string \<times> string \<Rightarrow> string" where
  "print_entry e = (case e of (k, v) \<Rightarrow> k @ '' = '' @ v)"

definition print_section :: "string \<times> (string \<times> string) list \<Rightarrow> string" where
  "print_section s =
     (case s of (sec, es) \<Rightarrow>
        ''['' @ sec @ '']'' @ CHR 0x0A # concat (map (\<lambda>e. print_entry e @ [CHR 0x0A]) es))"

definition stored_key :: "string \<Rightarrow> string \<Rightarrow> string" where
  "stored_key sec k = lower ((if sec \<noteq> [] then sec @ ''.'' else []) @ k)"

definition store_section :: "string \<times> (string \<times> string) list \<Rightarrow> kv_map \<Rightarrow> kv_map" where
  "store_section s kv = (case s of (sec, es) \<Rightarrow> fold (\<lambda>(k, v) kv. kv(stored_key sec k \<mapsto> v)) es kv)"

lemma newline_chars: "is_newline (CHR 0x0A)" "\<not> is_newline (CHR ''['')" "\<not> is_newline (CHR '']'')"
  "\<not> is_newline (CHR '' '')" "\<not> is_newline (CHR ''='')"
  by (simp_all add: is_newline_def)

lemma parseLine_section: "wf_section sec \<Longrightarrow> parseLine (''['' @ sec @ '']'') old kv = Inr (sec, kv)"
  by (simp add: parseLine_def wf_section_def trim_by_Nil_iff consume_front_def starts_with_def is_space_def
      is_newline_def list_all_iff takeWhile_append2)

lemma parseLine_entry:
  assumes k: "wf_key k" and v: "wf_value v"
  shows "parseLine (print_entry (k, v)) sec kv = Inr (sec, kv(stored_key sec k \<mapsto> v))"
proof -
  obtain c k' where ck: "k = c # k'" "\<not> is_space c"
    using k trim_fixed_hd [of is_space k] by (cases k) (auto simp: wf_key_def)
  have keep: "takeWhile (\<lambda>c. \<not> (c = CHR ''#'' \<or> c = CHR '';'')) (print_entry (k, v)) = print_entry (k, v)"
    using k v by (subst takeWhile_eq_all_conv) (auto simp: print_entry_def wf_key_def wf_value_def list_all_iff)
  have ne: "trim (print_entry (k, v)) \<noteq> []" using ck by (simp add: trim_by_Nil_iff print_entry_def)
  have no: "consume_front ''['' (print_entry (k, v)) = None"
    using k ck by (auto simp: consume_front_def starts_with_def print_entry_def wf_key_def)
  have sp: "split_at CHR ''='' (print_entry (k, v)) = (k @ '' '', '' '' @ v)"
    using k by (simp add: split_at_def print_entry_def wf_key_def list_all_iff takeWhile_append2 dropWhile_append2)
  have tr: "trim (k @ '' '') = k" "trim ('' '' @ v) = v"
    using k v trim_pad_back [of is_space "'' ''" k] trim_pad_front [of is_space "'' ''" v]
    by (simp_all add: wf_key_def wf_value_def is_space_def)
  show ?thesis
    unfolding parseLine_def keep Let_def sp prod.case tr
    using ne no by (simp add: stored_key_def)
qed

lemma parseLoop_entries:
  assumes "list_all (\<lambda>(k, v). wf_key k \<and> wf_value v) es"
  shows "parseLoop (concat (map (\<lambda>e. print_entry e @ [CHR 0x0A]) es) @ rest) sec kv =
    parseLoop rest sec (store_section (sec, es) kv)"
  using assms
proof (induction es arbitrary: kv)
  case (Cons e es)
  obtain k v where e: "e = (k, v)" by (cases e)
  then have wf: "wf_key k" "wf_value v" using Cons.prems by simp_all
  have nl: "list_all (\<lambda>c. \<not> is_newline c) (print_entry e)"
    using wf by (auto simp: e print_entry_def wf_key_def wf_value_def list_all_iff newline_chars)
  show ?case
    using Cons parseLine_entry [OF wf]
    by (simp add: parseLoop_line [OF nl [unfolded e] newline_chars(1)] e store_section_def)
qed (simp add: store_section_def)

lemma parseLoop_section:
  assumes "wf_section sec" "list_all (\<lambda>(k, v). wf_key k \<and> wf_value v) es"
  shows "parseLoop (print_section (sec, es) @ rest) old kv = parseLoop rest sec (store_section (sec, es) kv)"
proof -
  have nl: "list_all (\<lambda>c. \<not> is_newline c) (''['' @ sec @ '']'')"
    using assms(1) by (simp add: wf_section_def list_all_iff newline_chars)
  have "print_section (sec, es) @ rest =
      (''['' @ sec @ '']'') @ CHR 0x0A # (concat (map (\<lambda>e. print_entry e @ [CHR 0x0A]) es) @ rest)"
    by (simp add: print_section_def)
  then show ?thesis
    using parseLine_section [OF assms(1)] parseLoop_entries [OF assms(2)]
    by (simp only: parseLoop_line [OF nl newline_chars(1)]) simp
qed

text \<open>
  C35. Reading a configuration file back: for sections, keys and values without the characters the
  format gives a meaning to and without outer white space, parsing the printed file succeeds and
  stores exactly the printed values, each under its lower-case section and key, later entries over
  earlier ones, on top of the map there was before.
\<close>
theorem config_roundtrip:
  assumes "list_all (\<lambda>(sec, es). wf_section sec \<and> list_all (\<lambda>(k, v). wf_key k \<and> wf_value v) es) cfg"
  shows "parseFrom (concat (map print_section cfg)) kv = Inr (fold store_section cfg kv)"
proof -
  have "parseLoop (concat (map print_section cfg)) old kv = Inr (fold store_section cfg kv)" for old
    using assms
    by (induction cfg arbitrary: old kv) (auto simp: parseLoop_section parseLoop.simps [of "[]"])
  then show ?thesis by (simp add: parseFrom_def)
qed

theorem config_roundtrip_witness:
  "parseFrom (concat (map print_section [(''Mojo'', [(''LLD_path'', ''C:/lld.exe''), (''empty'', [])])])) Map.empty =
     Inr [''mojo.lld_path'' \<mapsto> ''C:/lld.exe'', ''mojo.empty'' \<mapsto> []]"
proof -
  have "list_all (\<lambda>(sec, es). wf_section sec \<and> list_all (\<lambda>(k, v). wf_key k \<and> wf_value v) es)
      [(''Mojo'', [(''LLD_path'', ''C:/lld.exe''), (''empty'', [])])]"
    by (simp add: wf_section_def wf_key_def wf_value_def trim_by_def is_space_def is_newline_def)
  from config_roundtrip [OF this] show ?thesis
    by (simp add: store_section_def stored_key_def lower_eval)
qed

section \<open>Precedence\<close>

text \<open>
  The precedence of the sources: a lookup answers from the process-wide overrides, else from the
  environment variable, else from the runfiles, else from what the file and earlier calls stored,
  whatever the case of the key.  What it answered is what the map holds afterwards, no other key of
  the map changes, and asking again gives the same answer and changes nothing.
\<close>
theorem lookup_precedence:
  fixes e :: config_env and key :: string and kv :: kv_map
  defines "answer \<equiv> (case globalOverrides e (lower key) of Some v \<Rightarrow> Some v
    | None \<Rightarrow> (case getEnv e (envName key) of Some v \<Rightarrow> Some v
    | None \<Rightarrow> (case runfilesValue e key of Some p \<Rightarrow> Some p
    | None \<Rightarrow> kv (lower key))))"
  shows "maybeGetValue e key kv = (answer, kv(lower key := answer)) \<and>
    maybeGetValue e key (snd (maybeGetValue e key kv)) = maybeGetValue e key kv \<and>
    getValue e key kv = (the_default [] answer, kv(lower key := answer))"
  unfolding answer_def
  by (auto simp: maybeGetValue_def getValue_def Let_def the_default_def fun_upd_idem split: option.splits)

section \<open>The debug variable writes debug keys only\<close>

lemma lower_id: "list_all (\<lambda>c. \<not> (CHR ''A'' \<le> c \<and> c \<le> CHR ''Z'')) s \<Longrightarrow> lower s = s"
  by (induction s) (auto simp: lower_def to_lower_char_def)

lemma lower_append: "lower (s @ t) = lower s @ lower t"
  by (simp add: lower_def)

lemma debug_key: "starts_with ''max-debug.'' (lower (''max-debug.'' @ s))"
  by (auto simp: starts_with_iff lower_append) (simp add: lower_eval)

definition debug_frame :: "kv_map \<Rightarrow> kv_map \<Rightarrow> bool" where
  "debug_frame ov ov' \<longleftrightarrow> (\<forall>k. \<not> starts_with ''max-debug.'' k \<longrightarrow> ov' k = ov k)"

lemma debug_frame_set: "debug_frame ov ov' \<Longrightarrow> debug_frame ov (setGlobalValue (''max-debug.'' @ s) v ov')"
  using debug_key [of s] by (auto simp: debug_frame_def setGlobalValue_def)

lemma debug_frame_sensible: "debug_frame ov ov' \<Longrightarrow> debug_frame ov (sensibleMode ov')"
  unfolding sensibleMode_def
  by (simp, (rule debug_frame_set [of _ _ "_ # _", simplified])+)

lemma debugToken_frame: "debug_frame ov (fst st) \<Longrightarrow> debug_frame ov (fst (debugToken t st))"
  using debug_frame_set [of ov "fst st"] debug_frame_sensible [of ov "fst st"]
  by (cases st) (auto simp: debugToken_def Let_def split: prod.splits)

lemma debugLoop_frame: "debug_frame ov (fst st) \<Longrightarrow> debug_frame ov (fst (debugLoop s st))"
  by (induction s st rule: debugLoop.induct) (subst debugLoop.simps, simp add: debugToken_frame)

section \<open>Lists of values\<close>

lemma find_sub_Some: "find_sub sep s = Some i \<Longrightarrow> take (length sep) (drop i s) = sep \<and> i + length sep \<le> length s"
proof (induction s arbitrary: i)
  case (Cons c s)
  show ?case
  proof (cases "starts_with sep (c # s)")
    case True
    then show ?thesis
      using Cons.prems by (auto simp: starts_with_def) (metis length_Cons length_take min.cobounded1)
  next
    case False
    then obtain j where "find_sub sep s = Some j" "i = Suc j" using Cons.prems by auto
    then show ?thesis using Cons.IH by simp
  qed
qed (auto split: if_splits)

text \<open>With a separator that is not empty the split returns, and joining its parts gives the value back.\<close>

fun join :: "string \<Rightarrow> string list \<Rightarrow> string" where
  "join sep [] = []"
| "join sep [p] = p"
| "join sep (p # ps) = p @ sep @ join sep ps"

lemma join_Cons: "ps \<noteq> [] \<Longrightarrow> join sep (p # ps) = p @ sep @ join sep ps"
  by (cases ps) simp_all

lemma split_str_join: "sep \<noteq> [] \<Longrightarrow> \<exists>ps. split_str sep s = Some ps \<and> ps \<noteq> [] \<and> join sep ps = s"
proof (induction "length s" arbitrary: s rule: less_induct)
  case less
  show ?case
  proof (cases "find_sub sep s")
    case None
    then show ?thesis by (simp add: split_str.simps)
  next
    case (Some i)
    let ?t = "drop (i + length sep) s"
    have d: "take (length sep) (drop i s) = sep" "i + length sep \<le> length s" using find_sub_Some [OF Some] by auto
    have "length ?t < length s" using d(2) less.prems by (cases sep) auto
    with less obtain ps where ps: "split_str sep ?t = Some ps" "ps \<noteq> []" "join sep ps = ?t" by blast
    have "take i s @ sep @ ?t = s"
      using d(1) by (metis append_take_drop_id drop_drop add.commute)
    then show ?thesis using ps Some by (simp add: split_str.simps [of sep s] join_Cons)
  qed
qed

end
