(* ===== verification/Config_Paths.thy ===== *)
theory Config_Paths
  imports Config_File
begin

text \<open>
  Where the configuration lives (\<^verbatim>\<open>Support/lib/Configuration.cpp\<close>): the candidate folders, the choice
  among them, the file \<^verbatim>\<open>modular.cfg\<close>, and \<^verbatim>\<open>Config::open\<close> with its once-only initialization.  The
  overrides of the process and the function-local statics, of which every shared library that contains the code
  has a copy of its own, are an explicit state; the file system is a record of the answers of the calls the
  code makes.
\<close>

section \<open>Paths\<close>

definition is_sep :: "bool \<Rightarrow> char \<Rightarrow> bool" where
  "is_sep windows c \<longleftrightarrow> c = CHR ''/'' \<or> windows \<and> c = CHR 0x5C"

definition is_drive :: "bool \<Rightarrow> string \<Rightarrow> bool" where
  "is_drive windows p \<longleftrightarrow> windows \<and> length p = 2 \<and> last p = CHR '':''"

text \<open>\<^verbatim>\<open>p / q\<close> of \<^verbatim>\<open>std::filesystem::path\<close> for a relative \<open>q\<close>, which is all the code appends.\<close>

definition fs_div :: "bool \<Rightarrow> string \<Rightarrow> string \<Rightarrow> string" where
  "fs_div windows p q =
     (if p = [] \<or> is_sep windows (last p) \<or> is_drive windows p then p @ q
      else p @ (if windows then CHR 0x5C else CHR ''/'') # q)"

definition fs_parent :: "bool \<Rightarrow> string \<Rightarrow> string" where
  "fs_parent windows p =
     (let d = rev (dropWhile (\<lambda>c. \<not> is_sep windows c) (rev p));
          t = rev (dropWhile (is_sep windows) (rev d))
      in if t = [] then d else if is_drive windows t then take 3 d else t)"

record config_fs =
  fsExists :: "string \<Rightarrow> bool"
  fsExistsError :: "string \<Rightarrow> string option"
  createDirectories :: "string \<Rightarrow> string option"
  accessWrite :: "string \<Rightarrow> bool"
  fileContents :: "string \<Rightarrow> string error_or"
  lockError :: "string \<Rightarrow> string option"

definition createPath :: "config_fs \<Rightarrow> string \<Rightarrow> unit error_or" where
  "createPath fs path =
     (case createDirectories fs path of
        Some msg \<Rightarrow> Inl (path @ '' could not be created: '' @ msg)
      | None \<Rightarrow> Inr ())"

section \<open>The candidate folders\<close>

datatype FolderType = FolderConfig | FolderData | FolderCache

definition homePaths :: "config_fs \<Rightarrow> FolderType \<Rightarrow> string \<Rightarrow> string list" where
  "homePaths fs type homeDir =
     (let path = fs_div False homeDir ''.modular''
      in if fsExists fs path
         then [if type = FolderCache then fs_div False (fs_div False path ''.cache'') ''modular'' else path, path]
         else [])"

definition xdgPath :: "(string \<Rightarrow> string option) \<Rightarrow> FolderType \<Rightarrow> string option" where
  "xdgPath env type =
     (let fallback = (\<lambda>name rel. case env name of
                        Some p \<Rightarrow> Some p
                      | None \<Rightarrow> map_option (\<lambda>h. foldl (fs_div False) h rel) (env ''HOME''))
      in map_option (\<lambda>p. fs_div False p ''modular'')
           (case type of
              FolderConfig \<Rightarrow> fallback ''XDG_CONFIG_HOME'' [''.config'']
            | FolderData \<Rightarrow> fallback ''XDG_DATA_HOME'' [''.local'', ''share'']
            | FolderCache \<Rightarrow> fallback ''XDG_CACHE_HOME'' [''.cache'']))"

definition unixSearchPaths :: "config_fs \<Rightarrow> (string \<Rightarrow> string option) \<Rightarrow> FolderType \<Rightarrow> string list" where
  "unixSearchPaths fs env type =
     (let added = (case env ''HOME'' of Some h \<Rightarrow> homePaths fs type h | None \<Rightarrow> [])
      in added @
         (case xdgPath env type of Some p \<Rightarrow> [p] | None \<Rightarrow> []) @
         (case env ''HOME'' of
            Some h \<Rightarrow>
              if added \<noteq> [] then []
              else [if type = FolderCache then fs_div False (fs_div False h ''.modular'') ''cache''
                    else fs_div False h ''.modular'']
          | None \<Rightarrow> []) @
         [''/opt/modular''])"

text \<open>The result \<open>None\<close> is the failed assertion on Windows without \<^verbatim>\<open>APPDATA\<close>.\<close>

definition getSearchPaths ::
  "bool \<Rightarrow> config_fs \<Rightarrow> (string \<Rightarrow> string option) \<Rightarrow> FolderType \<Rightarrow> string list option" where
  "getSearchPaths windows fs env type =
     (case env ''MODULAR_HOME'' of
        Some h \<Rightarrow> Some [if type = FolderCache then fs_div windows h ''cache'' else h]
      | None \<Rightarrow>
     (case env ''MODULAR_DERIVED_PATH'' of
        Some d \<Rightarrow> Some [if type = FolderCache then fs_div windows d ''cache'' else d]
      | None \<Rightarrow>
     (case env ''TEST_TMPDIR'' of
        Some t \<Rightarrow> Some [fs_div windows t ''.modular'']
      | None \<Rightarrow>
          if windows then
            map_option (\<lambda>root. [fs_div windows (fs_div windows root ''Local'') ''Modular'']) (env ''APPDATA'')
          else Some (unixSearchPaths fs env type))))"

section \<open>The choice\<close>

text \<open>The second search stops at the first folder that can be created; the attempts are returned too.\<close>

fun createFirst :: "config_fs \<Rightarrow> string option \<Rightarrow> string list \<Rightarrow> string error_or \<times> string list" where
  "createFirst fs firstErr [] =
     (Inl (case firstErr of Some e \<Rightarrow> e | None \<Rightarrow> ''no candidates for directory''), [])"
| "createFirst fs firstErr (path # paths) =
     (case createPath fs path of
        Inl e \<Rightarrow>
          (case createFirst fs (case firstErr of Some f \<Rightarrow> Some f | None \<Rightarrow> Some e) paths of
             (r, tried) \<Rightarrow> (r, path # tried))
      | Inr _ \<Rightarrow> (Inr path, [path]))"

definition findBestPathForType ::
  "bool \<Rightarrow> config_fs \<Rightarrow> (string \<Rightarrow> string option) \<Rightarrow> FolderType \<Rightarrow> bool \<Rightarrow> (string error_or \<times> string list) option" where
  "findBestPathForType windows fs env type create =
     (case getSearchPaths windows fs env type of
        None \<Rightarrow> None
      | Some searchPaths \<Rightarrow> Some
          (case find (fsExists fs) searchPaths of
             Some p \<Rightarrow> (Inr p, [])
           | None \<Rightarrow>
               if \<not> create then (Inr (hd searchPaths), [])
               else createFirst fs None searchPaths))"

definition getModularConfigFolderPath ::
  "bool \<Rightarrow> config_fs \<Rightarrow> (string \<Rightarrow> string option) \<Rightarrow> bool \<Rightarrow> (string error_or \<times> string list) option" where
  "getModularConfigFolderPath windows fs env create = findBestPathForType windows fs env FolderConfig create"

definition getModularDataFolderPath ::
  "bool \<Rightarrow> config_fs \<Rightarrow> (string \<Rightarrow> string option) \<Rightarrow> bool \<Rightarrow> (string error_or \<times> string list) option" where
  "getModularDataFolderPath windows fs env create = findBestPathForType windows fs env FolderData create"

definition getModularCacheFolderPath ::
  "bool \<Rightarrow> config_fs \<Rightarrow> config_env \<Rightarrow> bool \<Rightarrow> kv_map \<Rightarrow> (string error_or \<times> string list) option \<times> kv_map" where
  "getModularCacheFolderPath windows fs e create kv =
     (case getValue e ''cache_dir'' kv of
        (cacheDir, kv) \<Rightarrow>
          (if cacheDir \<noteq> [] then Some (Inr cacheDir, [])
           else findBestPathForType windows fs (getEnv e) FolderCache create, kv))"

definition findModularFile ::
  "bool \<Rightarrow> bool \<Rightarrow> config_fs \<Rightarrow> (string \<Rightarrow> string option) \<Rightarrow> string \<Rightarrow> string option option" where
  "findModularFile windows apple fs env fileName =
     map_option
       (\<lambda>paths. map_option (\<lambda>p. fs_div windows p fileName)
          (find (\<lambda>p. fsExists fs (fs_div windows p fileName))
             (paths @ (if windows then [] else [''/etc/modular'']) @
              (if apple then [''/opt/homebrew/etc/modular''] else []))))
       (getSearchPaths windows fs env FolderConfig)"

definition getConfigFilePath ::
  "bool \<Rightarrow> bool \<Rightarrow> config_fs \<Rightarrow> (string \<Rightarrow> string option) \<Rightarrow> bool \<Rightarrow> (string error_or \<times> string list) option" where
  "getConfigFilePath windows apple fs env create =
     (case findModularFile windows apple fs env ''modular.cfg'' of
        None \<Rightarrow> None
      | Some (Some configFile) \<Rightarrow> Some (Inr configFile, [])
      | Some None \<Rightarrow>
          map_option (\<lambda>(r, tried). (map_sum id (\<lambda>d. fs_div windows d ''modular.cfg'') r, tried))
            (getModularConfigFolderPath windows fs env create))"

section \<open>Opening\<close>

text \<open>
  What the code of one shared library works on: the overrides, which all the libraries of the process share,
  and its own copy of the function-local statics.
\<close>

record process =
  overrides :: kv_map
  debugParsed :: bool
  reported :: "string list"
  initDone :: bool
  cachedKV :: kv_map
  initError :: "string option"

text \<open>The buffer of the file: without the lock where its folder cannot be written to.\<close>

definition readConfigFile :: "bool \<Rightarrow> config_fs \<Rightarrow> string \<Rightarrow> string error_or" where
  "readConfigFile windows fs configFile =
     (if \<not> accessWrite fs (fs_parent windows configFile) then fileContents fs configFile
      else case lockError fs configFile of
        Some e \<Rightarrow> Inl e
      | None \<Rightarrow> fileContents fs configFile)"

definition initConfig ::
  "bool \<Rightarrow> bool \<Rightarrow> config_fs \<Rightarrow> (string \<Rightarrow> string option) \<Rightarrow> process \<Rightarrow> process option" where
  "initConfig windows apple fs env p =
     map_option (\<lambda>(r, _).
       let p = p\<lparr>initDone := True\<rparr> in
       case r of
         Inl _ \<Rightarrow> p
       | Inr configFile \<Rightarrow>
           if \<not> fsExists fs configFile then
             (case fsExistsError fs configFile of Some e \<Rightarrow> p\<lparr>initError := Some e\<rparr> | None \<Rightarrow> p)
           else
             (case bind_err (readConfigFile windows fs configFile) (\<lambda>buf. parseFrom buf Map.empty) of
                Inl e \<Rightarrow> p\<lparr>initError := Some e\<rparr>
              | Inr kv \<Rightarrow> p\<lparr>cachedKV := kv\<rparr>))
       (getConfigFilePath windows apple fs env False)"

definition debugOnce :: "(string \<Rightarrow> string option) \<Rightarrow> process \<Rightarrow> process" where
  "debugOnce env p =
     (if debugParsed p then p
      else case parseModularDebugEnv (env ''MODULAR_DEBUG'') (overrides p) of
        (ov, unknown) \<Rightarrow> p\<lparr>debugParsed := True, overrides := ov, reported := reported p @ unknown\<rparr>)"

definition config_open ::
  "bool \<Rightarrow> bool \<Rightarrow> config_fs \<Rightarrow> (string \<Rightarrow> string option) \<Rightarrow> process \<Rightarrow> (kv_map error_or \<times> process) option" where
  "config_open windows apple fs env p =
     (let p = debugOnce env p
      in map_option (\<lambda>p. (case initError p of Some e \<Rightarrow> Inl e | None \<Rightarrow> Inr (cachedKV p), p))
           (if initDone p then Some p else initConfig windows apple fs env p))"

definition isMaxInstalled ::
  "bool \<Rightarrow> bool \<Rightarrow> config_fs \<Rightarrow> (string \<Rightarrow> string option) \<Rightarrow> (string \<Rightarrow> string option) \<Rightarrow> (string \<Rightarrow> string) \<Rightarrow>
   process \<Rightarrow> (bool \<times> process) option" where
  "isMaxInstalled windows apple fs env runfiles getSharedLibraryName p =
     (if runfiles ''max.lib_path'' \<noteq> None then Some (True, p)
      else map_option (\<lambda>(r, p).
        (case r of
           Inl _ \<Rightarrow> False
         | Inr kv \<Rightarrow>
             (case fst (maybeGetValue \<lparr>globalOverrides = overrides p, getEnv = env, runfilesValue = runfiles\<rparr>
                          ''max.package_root'' kv) of
                Some root \<Rightarrow>
                  fsExists fs (fs_div windows (fs_div windows root ''lib'') (getSharedLibraryName ''max''))
              | None \<Rightarrow> True), p))
        (config_open windows apple fs env p))"

section \<open>The chosen folder\<close>

lemma createFirst_Inr:
  "createFirst fs fe ps = (Inr p, tried) \<Longrightarrow>
     (\<exists>before after. ps = before @ p # after \<and> tried = before @ [p] \<and> createDirectories fs p = None \<and>
        list_all (\<lambda>q. createDirectories fs q \<noteq> None) before)"
proof (induction ps arbitrary: fe tried)
  case (Cons q ps)
  show ?case
  proof (cases "createDirectories fs q")
    case None
    then show ?thesis using Cons.prems by (auto simp: createPath_def)
  next
    case (Some msg)
    then obtain tried' fe' where "createFirst fs fe' ps = (Inr p, tried')" "tried = q # tried'"
      using Cons.prems by (auto simp: createPath_def split: prod.splits)
    with Cons.IH obtain before after where "ps = before @ p # after" "tried' = before @ [p]"
      "createDirectories fs p = None" "list_all (\<lambda>q. createDirectories fs q \<noteq> None) before"
      by blast
    with Some \<open>tried = q # tried'\<close> show ?thesis
      by (intro exI [of _ "q # before"] exI [of _ after]) simp
  qed
qed simp

lemma createFirst_Inl:
  "createFirst fs fe ps = (Inl e, tried) \<Longrightarrow>
     tried = ps \<and> list_all (\<lambda>q. createDirectories fs q \<noteq> None) ps \<and>
     e = (case fe of Some f \<Rightarrow> f
          | None \<Rightarrow> (case ps of [] \<Rightarrow> ''no candidates for directory''
                     | q # _ \<Rightarrow> q @ '' could not be created: '' @ the (createDirectories fs q)))"
proof (induction ps arbitrary: fe tried)
  case (Cons q ps)
  then obtain msg where q: "createDirectories fs q = Some msg"
    by (cases "createDirectories fs q") (auto simp: createPath_def)
  then show ?case
    using Cons by (cases fe) (fastforce simp: createPath_def split: prod.splits)+
qed (simp split: option.splits)

lemma search_paths_nonempty: "getSearchPaths windows fs env type = Some ps \<Longrightarrow> ps \<noteq> []"
  by (auto simp: getSearchPaths_def unixSearchPaths_def Let_def split: option.splits if_splits)

lemma find_None_list_all: "find P xs = None \<longleftrightarrow> list_all (\<lambda>x. \<not> P x) xs"
  by (auto simp: find_None_iff list_all_iff)

lemma find_Some_prefix:
  "find P xs = Some x \<Longrightarrow> \<exists>before after. xs = before @ x # after \<and> P x \<and> list_all (\<lambda>y. \<not> P y) before"
proof (induction xs)
  case (Cons a xs)
  show ?case
  proof (cases "P a")
    case True
    then show ?thesis using Cons.prems by (intro exI [of _ "[]"] exI [of _ xs]) simp
  next
    case False
    then obtain before after where "xs = before @ x # after" "P x" "list_all (\<lambda>y. \<not> P y) before"
      using Cons by auto
    with False show ?thesis by (intro exI [of _ "a # before"] exI [of _ after]) simp
  qed
qed simp

text \<open>
  C37. Where there are candidates (on Windows without any of the variables there are none), the folder for
  configuration, data or cache is one of them: the first that exists; if
  none does, the first candidate when nothing may be created, and otherwise the first that can be
  created, after every earlier one was tried and failed.  An error is returned only when creation was
  asked for, no candidate exists and none can be created, and it is the error of the first candidate.
\<close>
theorem best_path_exact:
  assumes paths: "getSearchPaths windows fs env type = Some ps"
    and best: "findBestPathForType windows fs env type create = Some (r, tried)"
  shows "case r of
      Inr p \<Rightarrow> \<exists>before after. ps = before @ p # after \<and>
        (fsExists fs p \<and> list_all (\<lambda>q. \<not> fsExists fs q) before \<and> tried = [] \<or>
         list_all (\<lambda>q. \<not> fsExists fs q) ps \<and>
           (if create then createDirectories fs p = None \<and> tried = before @ [p] \<and>
              list_all (\<lambda>q. createDirectories fs q \<noteq> None) before
            else before = [] \<and> tried = []))
    | Inl e \<Rightarrow> create \<and> tried = ps \<and>
        list_all (\<lambda>q. \<not> fsExists fs q \<and> createDirectories fs q \<noteq> None) ps \<and>
        e = hd ps @ '' could not be created: '' @ the (createDirectories fs (hd ps))"
proof (cases "find (fsExists fs) ps")
  case (Some p)
  then have "r = Inr p" "tried = []" using best paths by (simp_all add: findBestPathForType_def)
  then show ?thesis using find_Some_prefix [OF Some] by simp blast
next
  case None
  have ne: "ps \<noteq> []" by (rule search_paths_nonempty [OF paths])
  have all: "list_all (\<lambda>q. \<not> fsExists fs q) ps" using None by (simp add: find_None_list_all)
  show ?thesis
  proof (cases create)
    case False
    then have "r = Inr (hd ps)" "tried = []" using best paths None by (simp_all add: findBestPathForType_def)
    with False ne all show ?thesis by (auto simp: neq_Nil_conv)
  next
    case True
    then have c: "createFirst fs None ps = (r, tried)"
      using best paths None by (simp add: findBestPathForType_def)
    show ?thesis
    proof (cases r)
      case (Inr p)
      show ?thesis using createFirst_Inr [OF c [unfolded Inr]] all True Inr by auto
    next
      case (Inl e)
      show ?thesis using createFirst_Inl [OF c [unfolded Inl]] all True Inl ne
        by (auto simp: neq_Nil_conv list_all_iff)
    qed
  qed
qed

definition sample_fs :: config_fs where
  "sample_fs = \<lparr>fsExists = (\<lambda>p. p = ''/h/.modular''), fsExistsError = (\<lambda>_. None),
     createDirectories = (\<lambda>_. None), accessWrite = (\<lambda>_. True), fileContents = (\<lambda>_. Inl ''missing''),
     lockError = (\<lambda>_. None)\<rparr>"

theorem best_path_exact_witness:
  "\<exists>ps before after. getSearchPaths True sample_fs [''APPDATA'' \<mapsto> ''C:''] FolderData = Some ps \<and>
     findBestPathForType True sample_fs [''APPDATA'' \<mapsto> ''C:''] FolderData True = Some (Inr (hd ps), ps) \<and>
     ps = before @ hd ps # after \<and> createDirectories sample_fs (hd ps) = None"
proof -
  let ?ps = "[fs_div True (fs_div True ''C:'' ''Local'') ''Modular'']"
  have p: "getSearchPaths True sample_fs [''APPDATA'' \<mapsto> ''C:''] FolderData = Some ?ps"
    by (simp add: getSearchPaths_def)
  have b: "findBestPathForType True sample_fs [''APPDATA'' \<mapsto> ''C:''] FolderData True = Some (Inr (hd ?ps), ?ps)"
    by (simp add: findBestPathForType_def p) (simp add: sample_fs_def fs_div_def is_sep_def is_drive_def createPath_def)
  from best_path_exact [OF p b] p b show ?thesis
    by (auto simp: sample_fs_def)
qed

text \<open>
  For an installation under the home folder whose cache subfolder does not exist yet, the cache folder
  is the installation itself: the second candidate exists and wins, and the subfolder is never created.
\<close>
theorem cache_in_installation_folder:
  "findBestPathForType False sample_fs [''HOME'' \<mapsto> ''/h''] FolderCache True = Some (Inr ''/h/.modular'', []) \<and>
   getSearchPaths False sample_fs [''HOME'' \<mapsto> ''/h''] FolderCache =
     Some [''/h/.modular/.cache/modular'', ''/h/.modular'', ''/h/.cache/modular'', ''/opt/modular'']"
  by (simp add: findBestPathForType_def getSearchPaths_def unixSearchPaths_def homePaths_def xdgPath_def
      fs_div_def is_sep_def is_drive_def sample_fs_def)

section \<open>Opening once\<close>

lemma initConfig_done:
  assumes "initConfig windows apple fs env p = Some p'"
  shows "initDone p'" "debugParsed p' = debugParsed p" "overrides p' = overrides p"
proof -
  obtain r tried where "getConfigFilePath windows apple fs env False = Some (r, tried)"
    using assms by (auto simp: initConfig_def)
  then have "initDone p' \<and> debugParsed p' = debugParsed p \<and> overrides p' = overrides p"
    using assms by (cases r) (auto simp: initConfig_def Let_def split: sum.splits option.splits if_splits)
  then show "initDone p'" "debugParsed p' = debugParsed p" "overrides p' = overrides p" by blast+
qed

lemma debugOnce_done: "debugParsed (debugOnce env p)" "debugParsed p \<Longrightarrow> debugOnce env p = p"
  by (auto simp: debugOnce_def split: prod.splits)

lemma debugOnce_frame: "debug_frame (overrides p) (overrides (debugOnce env p))"
proof -
  have "debug_frame (overrides p) (overrides p)" by (simp add: debug_frame_def)
  then show ?thesis
    using debugLoop_frame [of "overrides p" "(overrides p, [])"]
    by (auto simp: debugOnce_def parseModularDebugEnv_def split: prod.splits option.splits) (metis fst_conv)
qed

lemma config_open_again:
  assumes "config_open windows apple fs env p = Some (r, p')"
  shows "initDone p' \<and> debugParsed p' \<and> r = (case initError p' of Some e \<Rightarrow> Inl e | None \<Rightarrow> Inr (cachedKV p')) \<and>
    (\<forall>k. overrides p' k = overrides p k \<or> starts_with ''max-debug.'' k)"
proof -
  let ?q = "debugOnce env p"
  obtain p1 where p1: "(if initDone ?q then Some ?q else initConfig windows apple fs env ?q) = Some p1"
    "p' = p1" "r = (case initError p1 of Some e \<Rightarrow> Inl e | None \<Rightarrow> Inr (cachedKV p1))"
    using assms by (auto simp: config_open_def Let_def split: if_splits)
  have d: "initDone p'" "debugParsed p'" "overrides p' = overrides ?q"
    using p1 initConfig_done [of windows apple fs env ?q p1] debugOnce_done(1) [of env p]
    by (auto split: if_splits)
  then show ?thesis using p1 debugOnce_frame [of p env] by (auto simp: debug_frame_def)
qed

lemma config_open_done:
  "initDone p \<Longrightarrow> debugParsed p \<Longrightarrow>
   config_open windows apple fs env p = Some (case initError p of Some e \<Rightarrow> Inl e | None \<Rightarrow> Inr (cachedKV p), p)"
  by (simp add: config_open_def debugOnce_done(2))

section \<open>The libraries of a process\<close>

text \<open>
  A process has one set of overrides and, for each shared library with the code in it, a copy of the statics.
\<close>

record lib_statics =
  parseFlag :: bool
  messages :: "string list"
  initFlag :: bool
  libCachedKV :: kv_map
  libInitError :: "string option"

record config_process =
  sharedOverrides :: kv_map
  statics :: "nat \<Rightarrow> lib_statics"

definition seen_by :: "nat \<Rightarrow> config_process \<Rightarrow> process" where
  "seen_by lib cp =
     (let s = statics cp lib in
      \<lparr>overrides = sharedOverrides cp, debugParsed = parseFlag s, reported = messages s, initDone = initFlag s,
       cachedKV = libCachedKV s, initError = libInitError s\<rparr>)"

definition stored_by :: "nat \<Rightarrow> process \<Rightarrow> config_process \<Rightarrow> config_process" where
  "stored_by lib p cp =
     cp\<lparr>sharedOverrides := overrides p,
        statics := (statics cp)(lib :=
          \<lparr>parseFlag = debugParsed p, messages = reported p, initFlag = initDone p, libCachedKV = cachedKV p,
           libInitError = initError p\<rparr>)\<rparr>"

definition open_from ::
  "bool \<Rightarrow> bool \<Rightarrow> config_fs \<Rightarrow> (string \<Rightarrow> string option) \<Rightarrow> nat \<Rightarrow> config_process \<Rightarrow> (kv_map error_or \<times> config_process) option" where
  "open_from windows apple fs env lib cp =
     map_option (\<lambda>(r, p). (r, stored_by lib p cp)) (config_open windows apple fs env (seen_by lib cp))"

text \<open>What else happens to the configuration of a process: other calls, and overrides set and unset.\<close>

datatype config_event = OpenFrom nat config_fs "string \<Rightarrow> string option" | SetGlobal string string | UnsetGlobal string

fun config_events :: "bool \<Rightarrow> bool \<Rightarrow> config_event list \<Rightarrow> config_process \<Rightarrow> config_process option" where
  "config_events windows apple [] cp = Some cp"
| "config_events windows apple (OpenFrom lib fs env # es) cp =
     Option.bind (open_from windows apple fs env lib cp) (\<lambda>(r, cp). config_events windows apple es cp)"
| "config_events windows apple (SetGlobal key v # es) cp =
     config_events windows apple es (cp\<lparr>sharedOverrides := setGlobalValue key v (sharedOverrides cp)\<rparr>)"
| "config_events windows apple (UnsetGlobal key # es) cp =
     config_events windows apple es (cp\<lparr>sharedOverrides := unsetGlobalValue key (sharedOverrides cp)\<rparr>)"

lemma stored_seen: "stored_by lib (seen_by lib cp) cp = cp"
  by (simp add: stored_by_def seen_by_def Let_def fun_upd_idem)

lemma seen_stored: "seen_by lib (stored_by lib p cp) = p"
  by (simp add: stored_by_def seen_by_def Let_def)

lemma open_from_frame:
  assumes "open_from windows apple fs env lib cp = Some (r, cp')"
  shows "initFlag (statics cp' lib)" "parseFlag (statics cp' lib)"
    "r = (case libInitError (statics cp' lib) of Some e \<Rightarrow> Inl e | None \<Rightarrow> Inr (libCachedKV (statics cp' lib)))"
    "\<And>other. other \<noteq> lib \<Longrightarrow> statics cp' other = statics cp other"
    "\<And>k. sharedOverrides cp' k = sharedOverrides cp k \<or> starts_with ''max-debug.'' k"
proof -
  obtain p where p: "config_open windows apple fs env (seen_by lib cp) = Some (r, p)" "cp' = stored_by lib p cp"
    using assms by (auto simp: open_from_def)
  note again = config_open_again [OF p(1)]
  show "initFlag (statics cp' lib)" "parseFlag (statics cp' lib)"
    "r = (case libInitError (statics cp' lib) of Some e \<Rightarrow> Inl e | None \<Rightarrow> Inr (libCachedKV (statics cp' lib)))"
    "\<And>other. other \<noteq> lib \<Longrightarrow> statics cp' other = statics cp other"
    using again by (simp_all add: p(2) stored_by_def cong: option.case_cong)
  show "sharedOverrides cp' k = sharedOverrides cp k \<or> starts_with ''max-debug.'' k" for k
    using again by (simp add: p(2) stored_by_def seen_by_def Let_def)
qed

lemma open_from_done:
  assumes "initFlag (statics cp lib)" "parseFlag (statics cp lib)"
  shows "open_from windows apple fs env lib cp =
    Some (case libInitError (statics cp lib) of Some e \<Rightarrow> Inl e | None \<Rightarrow> Inr (libCachedKV (statics cp lib)), cp)"
proof -
  have "initDone (seen_by lib cp)" "debugParsed (seen_by lib cp)" using assms by (simp_all add: seen_by_def Let_def)
  from config_open_done [OF this] show ?thesis
    unfolding open_from_def by (simp add: stored_seen) (simp add: seen_by_def Let_def cong: option.case_cong)
qed

lemma config_events_keep:
  "config_events windows apple es cp = Some cp' \<Longrightarrow> initFlag (statics cp lib) \<Longrightarrow> parseFlag (statics cp lib) \<Longrightarrow>
   statics cp' lib = statics cp lib"
proof (induction windows apple es cp rule: config_events.induct)
  case (2 windows apple l fs env es cp)
  obtain r cp1 where o: "open_from windows apple fs env l cp = Some (r, cp1)" "config_events windows apple es cp1 = Some cp'"
    using "2.prems"(1) by (auto simp: bind_eq_Some_conv)
  have "statics cp1 lib = statics cp lib"
  proof (cases "l = lib")
    case True
    then show ?thesis using o(1) open_from_done "2.prems"(2,3) by simp
  next
    case False
    then show ?thesis using open_from_frame(4) [OF o(1)] by simp
  qed
  then show ?case using "2.IH" [OF o(1) refl o(2)] "2.prems" by simp
qed auto

text \<open>
  C36. The file is read once per shared library: after \<^verbatim>\<open>Config::open\<close> has returned in a library, every later
  call in that library returns the same settings or the same error and changes nothing, whatever has
  happened to the environment and the file system in between, whichever overrides were set or unset, and however
  often other libraries opened theirs; a call reads and writes the statics of its own library only, and the
  overrides it adds are debug options only.
\<close>
theorem config_open_reads_once:
  assumes "open_from windows apple fs env lib cp = Some (r, cp1)"
    and "config_events windows apple events cp1 = Some cp2"
  shows "open_from windows apple fs' env' lib cp2 = Some (r, cp2) \<and>
    (\<forall>other. other \<noteq> lib \<longrightarrow> statics cp1 other = statics cp other) \<and>
    (\<forall>k. sharedOverrides cp1 k = sharedOverrides cp k \<or> starts_with ''max-debug.'' k)"
proof -
  note frame = open_from_frame [OF assms(1)]
  have "statics cp2 lib = statics cp1 lib" using config_events_keep [OF assms(2) frame(1,2)] .
  then have "open_from windows apple fs' env' lib cp2 = Some (r, cp2)"
    using open_from_done [of cp2 lib windows apple fs' env'] frame(1,2) unfolding frame(3) by (simp cong: option.case_cong)
  then show ?thesis using frame(4,5) by blast
qed

definition fresh_process :: process where
  "fresh_process = \<lparr>overrides = Map.empty, debugParsed = False, reported = [], initDone = False,
     cachedKV = Map.empty, initError = None\<rparr>"

definition fresh_libraries :: config_process where
  "fresh_libraries = \<lparr>sharedOverrides = Map.empty, statics = (\<lambda>_. \<lparr>parseFlag = False, messages = [], initFlag = False,
     libCachedKV = Map.empty, libInitError = None\<rparr>)\<rparr>"

lemma fresh_seen: "seen_by lib (cp\<lparr>statics := statics fresh_libraries\<rparr>) = fresh_process\<lparr>overrides := sharedOverrides cp\<rparr>"
  by (simp add: seen_by_def fresh_libraries_def fresh_process_def Let_def)

theorem config_open_reads_once_witness:
  "\<exists>cp1 cp2. open_from False False (sample_fs\<lparr>fsExists := (\<lambda>_. True)\<rparr>) [''MODULAR_HOME'' \<mapsto> ''/m''] 0 fresh_libraries =
      Some (Inl ''missing'', cp1) \<and>
    config_events False False [SetGlobal ''a'' ''b'', OpenFrom 1 sample_fs [''MODULAR_HOME'' \<mapsto> ''/m'']] cp1 = Some cp2 \<and>
    open_from False False sample_fs Map.empty 0 cp2 = Some (Inl ''missing'', cp2)"
proof -
  have "\<exists>cp1. open_from False False (sample_fs\<lparr>fsExists := (\<lambda>_. True)\<rparr>) [''MODULAR_HOME'' \<mapsto> ''/m''] 0 fresh_libraries =
      Some (Inl ''missing'', cp1)"
    by (simp add: open_from_def seen_by_def fresh_libraries_def config_open_def debugOnce_def parseModularDebugEnv_def initConfig_def
        getConfigFilePath_def findModularFile_def getSearchPaths_def sample_fs_def readConfigFile_def Let_def)
  then obtain cp1 where o: "open_from False False (sample_fs\<lparr>fsExists := (\<lambda>_. True)\<rparr>) [''MODULAR_HOME'' \<mapsto> ''/m''] 0
      fresh_libraries = Some (Inl ''missing'', cp1)" by blast
  have other: "statics cp1 1 = statics fresh_libraries 1" using open_from_frame(4) [OF o, of 1] by simp
  have "\<exists>cp2. config_events False False [SetGlobal ''a'' ''b'', OpenFrom 1 sample_fs [''MODULAR_HOME'' \<mapsto> ''/m'']] cp1 = Some cp2"
    by (simp add: open_from_def seen_by_def other fresh_libraries_def config_open_def debugOnce_def parseModularDebugEnv_def
        initConfig_def getConfigFilePath_def findModularFile_def getModularConfigFolderPath_def findBestPathForType_def
        getSearchPaths_def sample_fs_def readConfigFile_def Let_def)
  then obtain cp2 where e: "config_events False False [SetGlobal ''a'' ''b'', OpenFrom 1 sample_fs [''MODULAR_HOME'' \<mapsto> ''/m'']] cp1 = Some cp2"
    by blast
  then show ?thesis using o config_open_reads_once [OF o e] by blast
qed

text \<open>
  The variable for debug options is parsed once per library too: what a program has unset since the first
  library read it comes back with the first call in the next one.
\<close>

lemma debug_nan_check: "fst (debugLoop ''nan-check'' (ov, [])) = ov(''max-debug.nan-check'' \<mapsto> ''true'')"
  by (simp add: debugLoop.simps [of "''nan-check''"] debugLoop.simps [of "[]"] split_at_def trim_by_def is_blank_def debugToken_def
      flagOptions_def setGlobalValue_def lower_eval)

lemma debug_options_come_back:
  assumes "env ''MODULAR_DEBUG'' = Some ''nan-check''" "\<not> parseFlag (statics cp lib)"
    and "open_from windows apple fs env lib (cp\<lparr>sharedOverrides := unsetGlobalValue ''max-debug.nan-check'' ov\<rparr>) = Some (r, cp')"
  shows "sharedOverrides cp' ''max-debug.nan-check'' = Some ''true''"
proof -
  let ?cp = "cp\<lparr>sharedOverrides := unsetGlobalValue ''max-debug.nan-check'' ov\<rparr>"
  obtain p where p: "config_open windows apple fs env (seen_by lib ?cp) = Some (r, p)" "cp' = stored_by lib p ?cp"
    using assms(3) by (auto simp: open_from_def)
  have "\<not> debugParsed (seen_by lib ?cp)" using assms(2) by (simp add: seen_by_def Let_def)
  then have "overrides (debugOnce env (seen_by lib ?cp)) ''max-debug.nan-check'' = Some ''true''"
    using assms(1) debug_nan_check by (auto simp: debugOnce_def parseModularDebugEnv_def split: prod.splits) (metis fst_conv fun_upd_same)
  moreover have "overrides p = overrides (debugOnce env (seen_by lib ?cp))"
    using p(1) initConfig_done(3) by (auto simp: config_open_def Let_def split: if_splits)
  ultimately show ?thesis by (simp add: p(2) stored_by_def)
qed

end
