(* ===== verification/Bazel_Runfiles.thy ===== *)
theory Bazel_Runfiles
  imports Config_Paths
begin

text \<open>
  Settings that Bazel provides (\<^verbatim>\<open>Support/lib/BazelRunfiles.cpp\<close>): a table from keys to files, looked
  up in the runfiles tree and, for one entry, in the execroot.  The runfiles library, the file system
  and the naming of shared libraries are parameters.
\<close>

record runfile_mapping =
  configKey :: string
  workspace :: string
  rfPath :: string
  isSharedLibrary :: bool
  libName :: string
  searchExecroot :: bool

record runfiles_env =
  rlocation :: "(string \<Rightarrow> string) option"
  rfExists :: "string \<Rightarrow> bool"
  sharedLibraryName :: "string \<Rightarrow> string"
  hostWindows :: bool
  hostAArch64 :: bool

definition plain_file :: "string \<Rightarrow> string \<Rightarrow> string \<Rightarrow> runfile_mapping" where
  "plain_file key ws p =
     \<lparr>configKey = key, workspace = ws, rfPath = p, isSharedLibrary = False, libName = [], searchExecroot = False\<rparr>"

definition shared_lib :: "string \<Rightarrow> string \<Rightarrow> string \<Rightarrow> runfile_mapping" where
  "shared_lib key p lib =
     \<lparr>configKey = key, workspace = [], rfPath = p, isSharedLibrary = True, libName = lib, searchExecroot = False\<rparr>"

definition kNVPTXWorkspace :: "bool \<Rightarrow> string" where
  "kNVPTXWorkspace aarch64 = (if aarch64 then ''nvptxcompiler_aarch64'' else ''nvptxcompiler_x86_64'')"

definition kRunfileMappings :: "bool \<Rightarrow> runfile_mapping list" where
  "kRunfileMappings aarch64 =
     [plain_file ''crash_reporting.handler_path'' ''crashpad'' ''modular-crashpad-handler'',
      plain_file ''mojo-max.driver_path'' [] ''Mojo/tools/mojo/mojo'',
      plain_file ''mojo-max.lld_path'' ''llvm-project'' ''lld/lld'',
      plain_file ''mojo-max.lldb_path'' ''llvm-project'' ''lldb/lldb'',
      plain_file ''mojo-max.lsp_server_path'' [] ''Mojo/tools/mojo-lsp-server/mojo-lsp-server'',
      plain_file ''mojo-max.repl_entry_point'' [] ''Mojo/tools/mojo-repl-entry-point/mojo-repl-entry-point'',
      shared_lib ''mojo-max.mgprt_path'' ''GraphCompiler'' ''MGPRT'',
      shared_lib ''mojo-max.compilerrt_path'' ''Mojo'' ''KGENCompilerRTShared'',
      shared_lib ''mojo-max.lldb_plugin_path'' ''Mojo'' ''MojoLLDB'',
      shared_lib ''max.lib_path'' ''max/internal'' ''max'',
      plain_file ''nixl_plugin_dir'' ''nixl_upstream'' ''cpu/libplugin_UCX.so'',
      (plain_file ''mojo-max.nvptx_path'' (kNVPTXWorkspace aarch64) ''libNVPTX.so'')\<lparr>searchExecroot := True\<rparr>]"

definition buildRunfilePath :: "(string \<Rightarrow> string) \<Rightarrow> runfile_mapping \<Rightarrow> string" where
  "buildRunfilePath getSharedLibraryName m =
     (if workspace m = [] then ''_main/'' else workspace m @ ''/'') @ rfPath m @
     (if isSharedLibrary m then ''/'' @ getSharedLibraryName (libName m) else [])"

definition findInExecroot :: "runfiles_env \<Rightarrow> runfile_mapping \<Rightarrow> string option" where
  "findInExecroot e m =
     (if workspace m = [] then None
      else
        let candidate = fs_div (hostWindows e)
              (fs_div (hostWindows e) ''bazel-out/cfg/bin/external'' (''+http_archive+'' @ workspace m)) (rfPath m)
        in if rfExists e candidate then Some candidate else None)"

definition findConfigWithRunfiles :: "runfiles_env \<Rightarrow> string \<Rightarrow> string option" where
  "findConfigWithRunfiles e key =
     (case find (\<lambda>m. configKey m = lower key) (kRunfileMappings (hostAArch64 e)) of
        None \<Rightarrow> None
      | Some m \<Rightarrow>
          let fallback = (if searchExecroot m then findInExecroot e m else None) in
          (case rlocation e of
             None \<Rightarrow> fallback
           | Some rloc \<Rightarrow>
               let l = rloc (buildRunfilePath (sharedLibraryName e) m) in
               if l = [] \<or> \<not> rfExists e l then fallback else Some l))"

lemma findConfigWithRunfiles_exists: "findConfigWithRunfiles e key = Some p \<Longrightarrow> rfExists e p"
  by (auto simp: findConfigWithRunfiles_def findInExecroot_def Let_def split: option.splits if_splits)

lemma findConfigWithRunfiles_case: "lower a = lower b \<Longrightarrow> findConfigWithRunfiles e a = findConfigWithRunfiles e b"
  by (simp add: findConfigWithRunfiles_def)

end
