(* ===== verification/Mojo_Config.thy ===== *)
theory Mojo_Config
  imports Bazel_Runfiles
begin

text \<open>
  The settings of the Mojo tools (\<^verbatim>\<open>Mojo/lib/Support/Configuration.cpp\<close>): typed access to one section of
  the configuration.  The name of the section is a build parameter.
\<close>

datatype config_source = OwnedConfig kv_map | BorrowedConfig kv_map

fun getConfig :: "config_source \<Rightarrow> kv_map" where
  "getConfig (OwnedConfig kv) = kv"
| "getConfig (BorrowedConfig kv) = kv"

fun mojoConfigFilePath :: "config_source \<Rightarrow> (string error_or \<times> string list) option \<Rightarrow> (string error_or \<times> string list) option" where
  "mojoConfigFilePath (OwnedConfig kv) configFile = configFile"
| "mojoConfigFilePath (BorrowedConfig kv) configFile =
     Some (Inl ''Configuration file path unavailable from settings'', [])"

definition mojoConfig_open ::
  "bool \<Rightarrow> bool \<Rightarrow> config_fs \<Rightarrow> (string \<Rightarrow> string option) \<Rightarrow> process \<Rightarrow> (config_source error_or \<times> process) option" where
  "mojoConfig_open windows apple fs env p =
     map_option (\<lambda>(r, p). (map_sum id OwnedConfig r, p)) (config_open windows apple fs env p)"

record mojo_env =
  configSection :: string
  configEnv :: config_env
  getSharedLibraryName :: "string \<Rightarrow> string"
  installedFile :: "string \<Rightarrow> bool"

definition mojoValue :: "mojo_env \<Rightarrow> string \<Rightarrow> kv_map \<Rightarrow> string \<times> kv_map" where
  "mojoValue c name kv = getValue (configEnv c) (configSection c @ name) kv"

definition mojoPath :: "mojo_env \<Rightarrow> string \<Rightarrow> string \<Rightarrow> kv_map \<Rightarrow> string \<times> kv_map" where
  "mojoPath c name relativePath kv = getPath (configEnv c) (configSection c @ name) relativePath kv"

definition getParserImportPaths :: "mojo_env \<Rightarrow> kv_map \<Rightarrow> string list \<times> kv_map" where
  "getParserImportPaths c kv =
     (case mojoValue c ''.import_path'' kv of (v, kv) \<Rightarrow> (split_nonempty CHR '','' v, kv))"

definition getPluginPaths :: "mojo_env \<Rightarrow> kv_map \<Rightarrow> string list \<times> kv_map" where
  "getPluginPaths c kv =
     (case mojoValue c ''.mojo_plugin_paths'' kv of (v, kv) \<Rightarrow> (split_nonempty CHR '';'' v, kv))"

definition sharedLibPath :: "mojo_env \<Rightarrow> string \<Rightarrow> string" where
  "sharedLibPath c stem = ''lib/'' @ getSharedLibraryName c stem"

definition getLLDBPluginPath :: "mojo_env \<Rightarrow> kv_map \<Rightarrow> string \<times> kv_map" where
  "getLLDBPluginPath c = mojoPath c ''.lldb_plugin_path'' (sharedLibPath c ''MojoLLDB'')"

definition getLLDBPath :: "mojo_env \<Rightarrow> kv_map \<Rightarrow> string \<times> kv_map" where
  "getLLDBPath c = mojoPath c ''.lldb_path'' ''bin/mojo-lldb''"

definition getCompilerRTPath :: "mojo_env \<Rightarrow> kv_map \<Rightarrow> string \<times> kv_map" where
  "getCompilerRTPath c = mojoPath c ''.compilerrt_path'' (sharedLibPath c ''KGENCompilerRTShared'')"

definition getMGPRTPath :: "mojo_env \<Rightarrow> kv_map \<Rightarrow> string \<times> kv_map" where
  "getMGPRTPath c = mojoPath c ''.mgprt_path'' (sharedLibPath c ''MGPRT'')"

definition getDriverPath :: "mojo_env \<Rightarrow> kv_map \<Rightarrow> string \<times> kv_map" where
  "getDriverPath c = mojoPath c ''.driver_path'' ''bin/mojo''"

definition getJupyterPath :: "mojo_env \<Rightarrow> kv_map \<Rightarrow> string \<times> kv_map" where
  "getJupyterPath c = mojoPath c ''.jupyter_path'' (sharedLibPath c ''MojoJupyter'')"

definition getLSPServerPath :: "mojo_env \<Rightarrow> kv_map \<Rightarrow> string \<times> kv_map" where
  "getLSPServerPath c = mojoPath c ''.lsp_server_path'' ''bin/mojo-lsp-server''"

definition getMBlackPath :: "mojo_env \<Rightarrow> kv_map \<Rightarrow> string \<times> kv_map" where
  "getMBlackPath c = mojoPath c ''.mblack_path'' ''bin/mblack''"

definition getREPLEntryPoint :: "mojo_env \<Rightarrow> kv_map \<Rightarrow> string \<times> kv_map" where
  "getREPLEntryPoint c = mojoPath c ''.repl_entry_point'' ''lib/mojo-repl-entry-point''"

definition getLinkerDriver :: "mojo_env \<Rightarrow> kv_map \<Rightarrow> string \<times> kv_map" where
  "getLinkerDriver c = mojoValue c ''.linker_driver''"

definition getLLDPath :: "mojo_env \<Rightarrow> kv_map \<Rightarrow> string \<times> kv_map" where
  "getLLDPath c = mojoPath c ''.lld_path'' ''bin/lld''"

definition setLLDPathOverride :: "mojo_env \<Rightarrow> string \<Rightarrow> kv_map \<Rightarrow> kv_map" where
  "setLLDPathOverride c path ov = setGlobalValue (configSection c @ ''.lld_path'') path ov"

definition appendSystemLibraryLinkArgs :: "mojo_env \<Rightarrow> string list \<Rightarrow> kv_map \<Rightarrow> string list \<times> kv_map" where
  "appendSystemLibraryLinkArgs c libs kv =
     (case maybeGetValue (configEnv c) (configSection c @ ''.system_libs'') kv of
        (Some v, kv) \<Rightarrow> (libs @ split_nonempty CHR '','' v, kv)
      | (None, kv) \<Rightarrow> (libs, kv))"

definition appendSharedObjectLinkArgs :: "mojo_env \<Rightarrow> string list \<Rightarrow> kv_map \<Rightarrow> string list \<times> kv_map" where
  "appendSharedObjectLinkArgs c args kv =
     (case maybeGetValue (configEnv c) (configSection c @ ''.shared_object_libs'') kv of
        (Some v, kv) \<Rightarrow> (args @ split_nonempty CHR '','' v, kv)
      | (None, kv) \<Rightarrow> (args, kv))"

definition getCompilerRTImportLibraryPath :: "mojo_env \<Rightarrow> kv_map \<Rightarrow> string \<times> kv_map" where
  "getCompilerRTImportLibraryPath c = mojoPath c ''.compilerrt_import_lib_path'' ''lib/KGENCompilerRTShared.lib''"

definition appendSharedLibraryLinkArgs ::
  "mojo_env \<Rightarrow> (string \<Rightarrow> string) \<Rightarrow> string list \<Rightarrow> kv_map \<Rightarrow> string list \<times> kv_map" where
  "appendSharedLibraryLinkArgs c nameSharedLibrary args kv =
     (case mojoValue c ''.shared_libs'' kv of
        (sharedLibsArg, kv) \<Rightarrow>
     (case (if sharedLibsArg \<noteq> [] then (args @ split_nonempty CHR '','' sharedLibsArg, kv)
            else case mojoPath c ''.shared_libs_lib'' ''lib'' kv of
              (lib, kv) \<Rightarrow> (args @ [''-Xlinker'', ''-rpath'', ''-Xlinker'', lib], kv)) of
        (args, kv) \<Rightarrow>
     (case mojoPath c ''.shared_libs_artmb'' (''lib/'' @ nameSharedLibrary ''AsyncRTMojoBindings'') kv of
        (bindings, kv) \<Rightarrow> (if installedFile c bindings then args @ [bindings] else args, kv))))"

section \<open>Lookups do not disturb each other\<close>

text \<open>
  What a store of settings promises to the getters: keys are compared up to a normal form, asking
  changes no answer, and storing under a key changes at most the answer for that key.
\<close>

locale settings =
  fixes look :: "string \<Rightarrow> 's \<Rightarrow> string option \<times> 's"
    and put :: "string \<Rightarrow> string \<Rightarrow> 's \<Rightarrow> 's"
    and norm :: "string \<Rightarrow> string"
  assumes look_norm: "norm a = norm b \<Longrightarrow> look a s = look b s"
    and look_again: "look a (snd (look a s)) = look a s"
    and look_other: "norm a \<noteq> norm b \<Longrightarrow> fst (look b (snd (look a s))) = fst (look b s)"
    and put_other: "norm a \<noteq> norm b \<Longrightarrow> fst (look b (put a v s)) = fst (look b s)"
    and put_same: "fst (look a (put a v s)) \<in> {Some v, fst (look a s)}"

definition path_lookup ::
  "(string \<Rightarrow> 's \<Rightarrow> string option \<times> 's) \<Rightarrow> (string \<Rightarrow> string \<Rightarrow> 's \<Rightarrow> 's) \<Rightarrow> string \<Rightarrow> string \<Rightarrow> string \<Rightarrow> 's \<Rightarrow> string \<times> 's" where
  "path_lookup look put key root rel s =
     (let (v, s) = look key s in
      if the_default [] v \<noteq> [] then (the_default [] v, s)
      else let (r, s) = look root s; p = the_default [] r @ ''/'' @ rel in (p, put key p s))"

context settings
begin

lemma look_keeps: "fst (look b (snd (look a s))) = fst (look b s)"
  by (metis look_norm look_again look_other)

lemma path_answer:
  "fst (path_lookup look put key root rel s) =
     (let v = the_default [] (fst (look key s)) in
      if v \<noteq> [] then v else the_default [] (fst (look root s)) @ ''/'' @ rel)"
  using look_keeps [of root key s] by (simp add: path_lookup_def Let_def split: prod.splits) (metis fst_conv snd_conv)

lemma path_look_other:
  "norm key \<noteq> norm b \<Longrightarrow> fst (look b (snd (path_lookup look put key root rel s))) = fst (look b s)"
  using look_keeps [of b key s] look_keeps [of b root "snd (look key s)"]
  by (auto simp: path_lookup_def Let_def put_other split: prod.splits)

lemma path_look_same:
  "the_default [] (fst (look key (snd (path_lookup look put key root rel s)))) \<in>
     {fst (path_lookup look put key root rel s), the_default [] (fst (look key s))}"
proof (cases "the_default [] (fst (look key s)) = []")
  case False
  then show ?thesis using look_again [of key s]
    by (auto simp: path_lookup_def Let_def split: prod.splits)
next
  case True
  obtain v s1 where l: "look key s = (v, s1)" by (cases "look key s")
  obtain r s2 where m: "look root s1 = (r, s2)" by (cases "look root s1")
  have "fst (look key s2) = v" using look_keeps [of key key s] look_keeps [of key root s1] l m by simp
  with True l m put_same [of key "the_default [] r @ ''/'' @ rel" s2] show ?thesis
    by (auto simp: path_lookup_def Let_def)
qed

text \<open>A path asked for again, or after another path, is the same path.\<close>

lemma path_again:
  assumes "norm key \<noteq> norm root"
  shows "fst (path_lookup look put key root rel (snd (path_lookup look put key root rel s))) =
    fst (path_lookup look put key root rel s)"
  using path_look_same [of key root rel s] path_look_other [OF assms, of root rel s]
  by (auto simp: path_answer Let_def)

lemma path_other:
  assumes "norm other \<noteq> norm key" "norm other \<noteq> norm root"
  shows "fst (path_lookup look put key root rel (snd (path_lookup look put other root' rel' s))) =
    fst (path_lookup look put key root rel s)"
  using path_look_other [OF assms(1), of root' rel' s] path_look_other [OF assms(2), of root' rel' s]
  by (simp add: path_answer Let_def)

end

section \<open>The configuration is such a store\<close>

text \<open>The environment of a tool: lookups go to the overrides, the process environment and the runfiles.\<close>

definition toolEnv :: "kv_map \<Rightarrow> (string \<Rightarrow> string option) \<Rightarrow> runfiles_env \<Rightarrow> config_env" where
  "toolEnv ov env rf = \<lparr>globalOverrides = ov, getEnv = env, runfilesValue = findConfigWithRunfiles rf\<rparr>"

lemma upper_lower: "to_upper_char (to_lower_char c) = to_upper_char c"
proof -
  have "of_char c < (256::nat)" by simp
  then show ?thesis
    by (auto simp: to_upper_char_def to_lower_char_def less_eq_char_def)
qed

lemma envName_lower: "envName (lower key) = envName key"
  by (simp add: envName_def lower_def upper_lower)

lemma lower_lower: "lower (lower s) = lower s"
  by (simp add: lower_def to_lower_char_def less_eq_char_def)

lemma maybeGetValue_lower: "lower a = lower b \<Longrightarrow> maybeGetValue (toolEnv ov env rf) a kv = maybeGetValue (toolEnv ov env rf) b kv"
  using envName_lower [of a] envName_lower [of b] findConfigWithRunfiles_case [of a b rf]
  by (simp add: maybeGetValue_def toolEnv_def Let_def cong: option.case_cong)

interpretation cfg: settings "maybeGetValue (toolEnv ov env rf)" setValue lower for ov env rf
proof
  show "lower a = lower b \<Longrightarrow> maybeGetValue (toolEnv ov env rf) a s = maybeGetValue (toolEnv ov env rf) b s" for a b s
    by (rule maybeGetValue_lower)
qed (auto simp: maybeGetValue_def setValue_def Let_def split: option.splits)

lemma getPath_lookup:
  "getPath e key rel kv =
     path_lookup (maybeGetValue e) setValue (lower key) (fst (split_at CHR ''.'' key) @ ''.package_root'') rel kv"
  by (auto simp: getPath_def getValue_def path_lookup_def setValue_def lower_lower Let_def the_default_def
      split: prod.splits option.splits)

text \<open>The getters of paths and, for each, its setting and default.\<close>

definition path_getters :: "mojo_env \<Rightarrow> (kv_map \<Rightarrow> string \<times> kv_map) list" where
  "path_getters c = [getLLDBPluginPath c, getLLDBPath c, getCompilerRTPath c, getMGPRTPath c, getDriverPath c,
     getJupyterPath c, getLSPServerPath c, getMBlackPath c, getREPLEntryPoint c, getLLDPath c,
     getCompilerRTImportLibraryPath c]"

definition path_settings :: "mojo_env \<Rightarrow> (string \<times> string) list" where
  "path_settings c = [(''.lldb_plugin_path'', sharedLibPath c ''MojoLLDB''), (''.lldb_path'', ''bin/mojo-lldb''),
     (''.compilerrt_path'', sharedLibPath c ''KGENCompilerRTShared''), (''.mgprt_path'', sharedLibPath c ''MGPRT''),
     (''.driver_path'', ''bin/mojo''), (''.jupyter_path'', sharedLibPath c ''MojoJupyter''),
     (''.lsp_server_path'', ''bin/mojo-lsp-server''), (''.mblack_path'', ''bin/mblack''),
     (''.repl_entry_point'', ''lib/mojo-repl-entry-point''), (''.lld_path'', ''bin/lld''),
     (''.compilerrt_import_lib_path'', ''lib/KGENCompilerRTShared.lib'')]"

lemma path_getters_settings: "path_getters c = map (\<lambda>(n, rel). mojoPath c n rel) (path_settings c)"
  by (simp add: path_getters_def path_settings_def getLLDBPluginPath_def getLLDBPath_def getCompilerRTPath_def
      getMGPRTPath_def getDriverPath_def getJupyterPath_def getLSPServerPath_def getMBlackPath_def
      getREPLEntryPoint_def getLLDPath_def getCompilerRTImportLibraryPath_def)

definition setting_names :: "string list" where
  "setting_names = [''.lldb_plugin_path'', ''.lldb_path'', ''.compilerrt_path'', ''.mgprt_path'', ''.driver_path'',
     ''.jupyter_path'', ''.lsp_server_path'', ''.mblack_path'', ''.repl_entry_point'', ''.lld_path'',
     ''.compilerrt_import_lib_path'']"

lemma setting_names: "map fst (path_settings c) = setting_names"
  by (simp add: path_settings_def setting_names_def)

lemma setting_names_lower: "list_all (\<lambda>n. lower n = n) setting_names"
  by (simp add: setting_names_def lower_eval)

lemma setting_names_tail: "list_all (\<lambda>n. take 2 (rev n) \<noteq> ''to'' \<and> 2 \<le> length n) setting_names"
  by (simp add: setting_names_def)

lemma setting_names_distinct: "distinct setting_names"
  by (simp add: setting_names_def)

lemma setting_keys_differ:
  assumes "i < length setting_names" "j < length setting_names" "i \<noteq> j"
  shows "lower (sec @ setting_names ! i) \<noteq> lower (sec @ setting_names ! j)"
proof -
  have "setting_names ! i \<noteq> setting_names ! j"
    using assms setting_names_distinct by (simp add: nth_eq_iff_index_eq)
  then show ?thesis using assms setting_names_lower by (simp add: lower_append list_all_length)
qed

lemma setting_key_not_root:
  assumes "i < length setting_names"
  shows "lower (sec @ setting_names ! i) \<noteq> lower (x @ ''.package_root'')"
proof
  let ?n = "setting_names ! i"
  have n: "take 2 (rev ?n) \<noteq> ''to''" "2 \<le> length ?n" "lower ?n = ?n"
    using assms setting_names_tail setting_names_lower by (simp_all add: list_all_length)
  assume "lower (sec @ ?n) = lower (x @ ''.package_root'')"
  then have "take 2 (rev (lower (sec @ ?n))) = take 2 (rev (lower (x @ ''.package_root'')))" by simp
  then have "take 2 (rev ?n) = ''to''" using n(2,3) by (simp add: lower_append) (simp add: lower_eval)
  with n(1) show False by contradiction
qed

lemma getter_again_or_other:
  assumes c: "configEnv c = toolEnv ov env rf" and ij: "i < length setting_names" "j < length setting_names"
  shows "fst ((path_getters c ! i) (snd ((path_getters c ! j) kv))) = fst ((path_getters c ! i) kv)"
proof -
  define key where "key k = configSection c @ setting_names ! k" for k
  define rel where "rel k = snd (path_settings c ! k)" for k
  have len: "length (path_settings c) = length setting_names" by (metis length_map setting_names)
  have g: "(path_getters c ! k) kv = path_lookup (maybeGetValue (toolEnv ov env rf)) setValue (lower (key k))
      (fst (split_at CHR ''.'' (key k)) @ ''.package_root'') (rel k) kv" if "k < length setting_names" for k kv
    using that len nth_map [of k "path_settings c" fst]
    by (simp add: path_getters_settings key_def rel_def mojoPath_def getPath_lookup c setting_names split: prod.splits)
  show ?thesis
  proof (cases "i = j")
    case True
    then show ?thesis
      using setting_key_not_root [OF ij(1)] by (simp add: g ij cfg.path_again lower_lower key_def)
  next
    case False
    then show ?thesis
      using setting_keys_differ [OF ij(2,1)] setting_key_not_root [OF ij(2)]
      by (simp add: g ij cfg.path_other lower_lower key_def)
  qed
qed


definition sample_mojo :: mojo_env where
  "sample_mojo = \<lparr>configSection = ''mojo-max'',
     configEnv = toolEnv Map.empty (\<lambda>_. None)
       \<lparr>rlocation = None, rfExists = (\<lambda>_. False), sharedLibraryName = id, hostWindows = True, hostAArch64 = False\<rparr>,
     getSharedLibraryName = (\<lambda>n. n @ ''.dll''), installedFile = (\<lambda>_. True)\<rparr>"


text \<open>
  The documented form of the plugin list cannot be written in the configuration file: the list is
  separated by semicolons, and a semicolon starts a comment there, so of two plugins in the file only
  the first is returned.  The same list in the environment variable is read in full.
\<close>
theorem plugin_paths_truncated:
  "\<exists>kv. parseFrom ''mojo-max.mojo_plugin_paths = a;b'' Map.empty = Inr kv \<and>
     fst (getPluginPaths sample_mojo kv) = [''a''] \<and>
     fst (getPluginPaths (sample_mojo\<lparr>configEnv := (configEnv sample_mojo)
        \<lparr>getEnv := [''MODULAR_MOJO_MAX_MOJO_PLUGIN_PATHS'' \<mapsto> ''a;b'']\<rparr>\<rparr>) kv) = [''a'', ''b'']"
proof -
  have "parseFrom ''mojo-max.mojo_plugin_paths = a;b'' Map.empty = Inr [''mojo-max.mojo_plugin_paths'' \<mapsto> ''a'']"
    by (simp add: parseFrom_def parseLoop.simps takeLine_def is_newline_def parseLine_def trim_by_def is_space_def
        consume_front_def starts_with_def split_at_def lower_eval)
  moreover have "envName ''mojo-max.mojo_plugin_paths'' = ''MODULAR_MOJO_MAX_MOJO_PLUGIN_PATHS''"
    by (simp add: envName_def to_upper_char_def less_eq_char_def char_of_def bit_Suc_0_iff)
  moreover have "lower ''mojo-max.mojo_plugin_paths'' = ''mojo-max.mojo_plugin_paths''"
    by (simp add: lower_eval)
  ultimately show ?thesis
    by (simp add: getPluginPaths_def mojoValue_def getValue_def maybeGetValue_def sample_mojo_def toolEnv_def
        findConfigWithRunfiles_def kRunfileMappings_def plain_file_def shared_lib_def split_nonempty_def)
qed

end
