(* ===== verification/Pop_Values.thy ===== *)
theory Pop_Values
  imports Mojo_Prelude "HOL-Library.Signed_Division"
begin

unbundle bit_operations_syntax

text \<open>
  Values and attributes of the POP dialect, as the folders of
  \<^verbatim>\<open>Mojo/lib/POPDialect/POPOpsFolders.cpp\<close> see them: an operand is a tree of the operations that define
  it, and an operand that is a constant is known to the folder as an attribute.  A lane of a vector is
  its bit pattern.  The reference meaning of an operation is \<open>op_sem\<close>; the arithmetic of floating
  point numbers and the helpers of \<^verbatim>\<open>POPUtils.h\<close> are not in the repository and are parameters.
\<close>

named_theorems pop_sem \<open>the meaning of the operations\<close>

section \<open>Types, attributes, values\<close>

datatype pop_type =
    PSimd "kgen_dtype option" "nat option"
  | PPtr pop_type nat
  | PArr "nat option" pop_type
  | PStruct "pop_type list option"
  | PUnion "pop_type list"
  | PVariant "pop_type list"
  | PBool
  | PIndex
  | POther nat

datatype pop_attr =
    SimdA kgen_dtype "nat list"
  | BoolA bool
  | IntegerA int
  | PointerA int pop_type
  | ArrayA pop_type "pop_attr list"
  | UnionA pop_type pop_attr
  | PackA bool "pop_attr list"
  | StringA string
  | UninitA pop_type
  | UnknownA pop_type

text \<open>The type an attribute has.  The size of a vector type is the number of lanes.\<close>

fun attr_type :: "pop_attr \<Rightarrow> pop_type" where
  "attr_type (SimdA d ls) = PSimd (Some d) (Some (length ls))"
| "attr_type (BoolA _) = PBool"
| "attr_type (IntegerA _) = PIndex"
| "attr_type (PointerA _ t) = t"
| "attr_type (ArrayA t _) = t"
| "attr_type (UnionA t _) = t"
| "attr_type (PackA _ vs) = PStruct (Some (map attr_type vs))"
| "attr_type (StringA _) = POther 0"
| "attr_type (UninitA t) = t"
| "attr_type (UnknownA t) = t"

datatype pop_op =
    Neg | Floor | Ceil | Trunc
  | Add | Sub | Mul | Div | Rem | Max | Min | Shr | FMA
  | AndB | OrB | XOrB
  | SIMDAnd | SIMDOr | SIMDXOr
  | Cast | PointerBitcast
  | SIMDExtract | SIMDInsert | SIMDSelect | SIMDShuffle "int list" | SIMDSplat
  | Select
  | ArrayCreate | ArrayRepeat | ArrayGet "int option" | ArrayReplace "int option"
  | Offset | ArrayGEP
  | GlobalConstant pop_attr
  | UnionWrap | UnionUnwrap
  | PointerToIndex | VariantBitcast | UnionBitcast
  | CastToBuiltin | CastFromBuiltin

text \<open>
  A value is an argument, a constant, or the result of an operation; the number of an operation tells
  two operations of the same form apart, so equal values are the same value of the function.
\<close>

datatype pop_value =
    Arg nat pop_type
  | Constant pop_attr
  | Result nat pop_op pop_type "pop_value list"

fun value_type :: "pop_value \<Rightarrow> pop_type" where
  "value_type (Arg _ t) = t"
| "value_type (Constant a) = attr_type a"
| "value_type (Result _ _ t _) = t"

text \<open>The attribute an operand has for the folder: \<^verbatim>\<open>matchPattern(val, m_Constant(&attr))\<close>.\<close>

fun const_of :: "pop_value \<Rightarrow> pop_attr option" where
  "const_of (Constant a) = Some a"
| "const_of _ = None"

datatype fold_result = FoldAttr pop_attr | FoldValue pop_value

section \<open>Data types\<close>

fun isSInt :: "kgen_dtype \<Rightarrow> bool" where
  "isSInt (DInt _ s) = s" | "isSInt _ = False"

fun isUInt :: "kgen_dtype \<Rightarrow> bool" where
  "isUInt (DInt _ s) = (\<not> s)" | "isUInt _ = False"

fun isInt :: "kgen_dtype \<Rightarrow> bool" where
  "isInt (DInt _ _) = True" | "isInt _ = False"

fun isFloat :: "kgen_dtype \<Rightarrow> bool" where
  "isFloat (DFloat _) = True" | "isFloat _ = False"

definition isIndexLike :: "kgen_dtype \<Rightarrow> bool" where
  "isIndexLike d \<longleftrightarrow> d = DIndex \<or> d = DUIndex"

definition isIntLike :: "kgen_dtype \<Rightarrow> bool" where
  "isIntLike d \<longleftrightarrow> isInt d \<or> isIndexLike d"

fun resolvedDType :: "pop_type \<Rightarrow> kgen_dtype option" where
  "resolvedDType (PSimd d _) = d" | "resolvedDType _ = None"

fun resolvedSize :: "pop_type \<Rightarrow> nat option" where
  "resolvedSize (PSimd _ n) = n"
| "resolvedSize (PArr n _) = n"
| "resolvedSize _ = None"

section \<open>Lanes\<close>

text \<open>
  What the folders take from outside the repository: the width of a floating point type and of an
  index, and the arithmetic of floating point lanes, named by the operation of \<^verbatim>\<open>APFloat\<close> that does it.
\<close>

record pop_env =
  pe_floatWidth :: "string \<Rightarrow> nat"
  pe_indexWidth :: nat
  pe_hasTarget :: bool
  pe_uintIndex :: bool
  pe_sintIndex :: "kgen_dtype \<Rightarrow> bool"
  pe_semanticsBits :: "string \<Rightarrow> nat"
  pe_float :: "string \<Rightarrow> string \<Rightarrow> nat list \<Rightarrow> nat"
  pe_floatIsZero :: "string \<Rightarrow> nat \<Rightarrow> bool"
  pe_convert :: "string \<Rightarrow> string \<Rightarrow> nat \<Rightarrow> nat"
  pe_allocSize :: "pop_type \<Rightarrow> nat option"
  pe_globalAddr :: "pop_attr \<Rightarrow> int"
  pe_foldSIMDOp :: "(nat \<Rightarrow> bool \<Rightarrow> nat list \<Rightarrow> nat option) \<Rightarrow> (string \<Rightarrow> nat list \<Rightarrow> nat option) \<Rightarrow>
     (bool list \<Rightarrow> bool option) \<Rightarrow> pop_attr option list \<Rightarrow> pop_attr option"

fun lane_width :: "pop_env \<Rightarrow> kgen_dtype \<Rightarrow> nat" where
  "lane_width E DBool = 1"
| "lane_width E (DInt w _) = w"
| "lane_width E (DFloat f) = pe_floatWidth E f"
| "lane_width E _ = pe_indexWidth E"

text \<open>\<^verbatim>\<open>APSInt\<close>: a width, a signedness and a bit pattern; \<open>ap_int\<close> reads it and \<open>ap_wrap\<close> wraps around.\<close>

definition ap_int :: "nat \<Rightarrow> bool \<Rightarrow> nat \<Rightarrow> int" where
  "ap_int w s x = (if s \<and> 2 ^ (w - 1) \<le> x then int x - 2 ^ w else int x)"

definition ap_wrap :: "nat \<Rightarrow> int \<Rightarrow> nat" where
  "ap_wrap w i = nat (i mod 2 ^ w)"

type_synonym int_fn = "nat \<Rightarrow> bool \<Rightarrow> nat list \<Rightarrow> nat option"
type_synonym float_fn = "string \<Rightarrow> nat list \<Rightarrow> nat option"
type_synonym bool_fn = "bool list \<Rightarrow> bool option"

text \<open>One lane of the result, by the data type; a data type without a function does not fold.\<close>

fun lane_fn :: "pop_env \<Rightarrow> int_fn \<Rightarrow> float_fn \<Rightarrow> bool_fn \<Rightarrow> kgen_dtype \<Rightarrow> nat list \<Rightarrow> nat option" where
  "lane_fn E fi ff fb (DInt w s) xs = fi w s xs"
| "lane_fn E fi ff fb DIndex xs = fi (pe_indexWidth E) True xs"
| "lane_fn E fi ff fb DUIndex xs = fi (pe_indexWidth E) False xs"
| "lane_fn E fi ff fb (DFloat f) xs = ff f xs"
| "lane_fn E fi ff fb DBool xs = map_option of_bool (fb (map (\<lambda>x. x \<noteq> 0) xs))"
| "lane_fn E fi ff fb DAddress xs = None"
| "lane_fn E fi ff fb DInvalid xs = None"

definition lanes_of :: "nat list list \<Rightarrow> nat list list" where
  "lanes_of vss = map (\<lambda>i. map (\<lambda>vs. vs ! i) vss) [0..<length (hd vss)]"

definition simd_shape :: "kgen_dtype \<Rightarrow> nat \<Rightarrow> pop_attr \<Rightarrow> bool" where
  "simd_shape d n a \<longleftrightarrow> (case a of SimdA d' vs \<Rightarrow> d' = d \<and> length vs = n | _ \<Rightarrow> False)"

definition simd_lanes :: "pop_attr \<Rightarrow> nat list" where
  "simd_lanes a = (case a of SimdA _ vs \<Rightarrow> vs | _ \<Rightarrow> [])"

lemma simd_shape_SimdA [simp]: "simd_shape d n (SimdA d' vs) \<longleftrightarrow> d' = d \<and> length vs = n"
  by (simp add: simd_shape_def)

lemma simd_lanes_SimdA [simp]: "simd_lanes (SimdA d vs) = vs"
  by (simp add: simd_lanes_def)

lemma simd_shapeE: "simd_shape d n a \<Longrightarrow> \<exists>vs. a = SimdA d vs \<and> length vs = n"
  by (cases a) (auto simp: simd_shape_def)

text \<open>Lane by lane: all operands are vectors of one data type and size.\<close>

definition lanewise ::
  "pop_env \<Rightarrow> int_fn \<Rightarrow> float_fn \<Rightarrow> bool_fn \<Rightarrow> pop_attr list \<Rightarrow> pop_attr option" where
  "lanewise E fi ff fb as =
     (case as of
        SimdA d vs # _ \<Rightarrow>
          if list_all (simd_shape d (length vs)) as
          then map_option (SimdA d) (those (map (lane_fn E fi ff fb d) (lanes_of (map simd_lanes as))))
          else None
      | _ \<Rightarrow> None)"

section \<open>The meaning of an operation\<close>

text \<open>What \<^verbatim>\<open>POPUtils.h\<close> promises about \<^verbatim>\<open>foldSIMDOp\<close>: when it folds, it does so lane by lane.\<close>

definition folds_lanewise :: "pop_env \<Rightarrow> bool" where
  "folds_lanewise E \<longleftrightarrow>
     (\<forall>fi ff fb ads r. pe_foldSIMDOp E fi ff fb ads = Some r \<longrightarrow>
        (\<exists>as. ads = map Some as \<and> lanewise E fi ff fb as = Some r))"

definition no_int :: int_fn where "no_int w s xs = None"
definition no_float :: float_fn where "no_float f xs = None"
definition no_bool :: bool_fn where "no_bool bs = None"

definition int1 :: "(int \<Rightarrow> int) \<Rightarrow> int_fn" where
  "int1 f w s xs = (case xs of [x] \<Rightarrow> Some (ap_wrap w (f (ap_int w s x))) | _ \<Rightarrow> None)"

definition int2 :: "(int \<Rightarrow> int \<Rightarrow> int) \<Rightarrow> int_fn" where
  "int2 f w s xs = (case xs of [x, y] \<Rightarrow> Some (ap_wrap w (f (ap_int w s x) (ap_int w s y))) | _ \<Rightarrow> None)"

definition bits2 :: "(nat \<Rightarrow> nat \<Rightarrow> nat) \<Rightarrow> int_fn" where
  "bits2 f w s xs = (case xs of [x, y] \<Rightarrow> Some (f x y) | _ \<Rightarrow> None)"

definition flt :: "pop_env \<Rightarrow> string \<Rightarrow> float_fn" where
  "flt E name f xs = Some (pe_float E name f xs)"

definition bool2 :: "(bool \<Rightarrow> bool \<Rightarrow> bool) \<Rightarrow> bool_fn" where
  "bool2 f bs = (case bs of [a, b] \<Rightarrow> Some (f a b) | _ \<Rightarrow> None)"

definition id_bool :: bool_fn where
  "id_bool bs = (case bs of [b] \<Rightarrow> Some b | _ \<Rightarrow> None)"

text \<open>
  Integer operations wrap around at the width of the lane, and read it signed or unsigned as the data
  type says; division and remainder round towards zero and have no value for a zero divisor.
\<close>

definition rem_int :: int_fn where
  "rem_int w s xs = (case xs of [x, y] \<Rightarrow> if y = 0 then None else int2 (smod) w s xs | _ \<Rightarrow> None)"

definition div_int :: int_fn where
  "div_int w s xs = (case xs of [x, y] \<Rightarrow> if y = 0 then None else int2 (sdiv) w s xs | _ \<Rightarrow> None)"

definition shr_int :: int_fn where
  "shr_int w s xs = (case xs of [x, y] \<Rightarrow> if w \<le> y then None
     else Some (ap_wrap w (ap_int w s x div 2 ^ y)) | _ \<Rightarrow> None)"

definition fma_int :: int_fn where
  "fma_int w s xs = (case xs of [x, y, z] \<Rightarrow>
     Some (ap_wrap w (ap_int w s x * ap_int w s y + ap_int w s z)) | _ \<Rightarrow> None)"

definition rem_float :: "pop_env \<Rightarrow> float_fn" where
  "rem_float E f xs = (if pe_floatIsZero E f (xs ! 1) then None else Some (pe_float E ''mod'' f xs))"

fun bool_op :: "(bool \<Rightarrow> bool \<Rightarrow> bool) \<Rightarrow> pop_attr list \<Rightarrow> pop_attr option" where
  "bool_op f [BoolA a, BoolA b] = Some (BoolA (f a b))"
| "bool_op f _ = None"

fun lane_sem :: "pop_env \<Rightarrow> pop_op \<Rightarrow> int_fn \<times> float_fn \<times> bool_fn" where
  "lane_sem E Neg = (int1 uminus, flt E ''neg'', no_bool)"
| "lane_sem E Floor = (int1 (\<lambda>x. x), flt E ''rmTowardNegative'', id_bool)"
| "lane_sem E Ceil = (int1 (\<lambda>x. x), flt E ''rmTowardPositive'', id_bool)"
| "lane_sem E Trunc = (int1 (\<lambda>x. x), flt E ''rmTowardZero'', id_bool)"
| "lane_sem E Add = (int2 (+), flt E ''add'', no_bool)"
| "lane_sem E Sub = (int2 (-), flt E ''sub'', no_bool)"
| "lane_sem E Mul = (int2 (*), flt E ''mul'', no_bool)"
| "lane_sem E Div = (div_int, flt E ''div'', no_bool)"
| "lane_sem E Rem = (rem_int, rem_float E, no_bool)"
| "lane_sem E Max = (int2 max, flt E ''maxnum'', bool2 (\<or>))"
| "lane_sem E Min = (int2 min, flt E ''minnum'', bool2 (\<and>))"
| "lane_sem E Shr = (shr_int, no_float, no_bool)"
| "lane_sem E FMA = (fma_int, flt E ''fma'', no_bool)"
| "lane_sem E SIMDAnd = (bits2 (AND), no_float, bool2 (\<and>))"
| "lane_sem E SIMDOr = (bits2 (OR), no_float, bool2 (\<or>))"
| "lane_sem E SIMDXOr = (bits2 (XOR), no_float, bool2 (\<noteq>))"
| "lane_sem E _ = (no_int, no_float, no_bool)"

definition lane_op :: "pop_env \<Rightarrow> pop_op \<Rightarrow> pop_attr list \<Rightarrow> pop_attr option" where
  "lane_op E op as = (case lane_sem E op of (fi, ff, fb) \<Rightarrow> lanewise E fi ff fb as)"

section \<open>Vectors, arrays, pointers\<close>

definition wrap64 :: "int \<Rightarrow> int" where
  "wrap64 i = ap_int 64 True (ap_wrap 64 i)"

definition at_int :: "'a list \<Rightarrow> int \<Rightarrow> 'a option" where
  "at_int xs i = (if 0 \<le> i \<and> i < int (length xs) then Some (xs ! nat i) else None)"

fun zip_select :: "nat list \<Rightarrow> 'a list \<Rightarrow> 'a list \<Rightarrow> 'a list" where
  "zip_select (c # cs) (t # ts) (f # fs) = (if c \<noteq> 0 then t else f) # zip_select cs ts fs"
| "zip_select _ _ _ = []"

fun repeat_to :: "nat \<Rightarrow> 'a list \<Rightarrow> 'a list" where
  "repeat_to n xs = map (\<lambda>i. xs ! (i mod length xs)) [0..<n]"

definition int_cast :: "nat \<Rightarrow> bool \<Rightarrow> nat \<Rightarrow> nat \<Rightarrow> nat" where
  "int_cast w s w' x = ap_wrap w' (ap_int w s x)"

fun cast_sem :: "pop_env \<Rightarrow> kgen_dtype \<Rightarrow> kgen_dtype \<Rightarrow> nat \<Rightarrow> nat option" where
  "cast_sem E (DInt w s) (DInt w' s') x = Some (int_cast w s w' x)"
| "cast_sem E (DFloat f) (DFloat g) x = Some (pe_convert E f g x)"
| "cast_sem E _ _ x = None"

fun extract_sem :: "pop_attr list \<Rightarrow> pop_attr option" where
  "extract_sem [SimdA d ls, IntegerA i] = map_option (\<lambda>x. SimdA d [x]) (at_int ls i)"
| "extract_sem _ = None"

fun insert_sem :: "pop_attr list \<Rightarrow> pop_attr option" where
  "insert_sem [SimdA d ls, SimdA d' [x], IntegerA i] =
     (if d' = d \<and> 0 \<le> i \<and> i < int (length ls) then Some (SimdA d (ls[nat i := x])) else None)"
| "insert_sem _ = None"

fun simd_select_sem :: "pop_attr list \<Rightarrow> pop_attr option" where
  "simd_select_sem [SimdA b cs, SimdA d ts, SimdA d' fs] =
     (if b = DBool \<and> d' = d \<and> length ts = length cs \<and> length fs = length cs
      then Some (SimdA d (zip_select cs ts fs)) else None)"
| "simd_select_sem _ = None"

fun shuffle_sem :: "int list \<Rightarrow> pop_attr list \<Rightarrow> pop_attr option" where
  "shuffle_sem ms [SimdA d ls, SimdA d' rs] =
     (if d' = d then map_option (SimdA d) (those (map (at_int (ls @ rs)) ms)) else None)"
| "shuffle_sem ms _ = None"

fun splat_sem :: "pop_type \<Rightarrow> pop_attr list \<Rightarrow> pop_attr option" where
  "splat_sem ty [SimdA d [x]] = map_option (\<lambda>n. SimdA d (replicate n x)) (resolvedSize ty)"
| "splat_sem ty _ = None"

fun select_sem :: "pop_attr list \<Rightarrow> pop_attr option" where
  "select_sem [SimdA b [c], x, y] = (if b = DBool then Some (if c \<noteq> 0 then x else y) else None)"
| "select_sem _ = None"

definition repeat_sem :: "pop_type \<Rightarrow> pop_attr list \<Rightarrow> pop_attr option" where
  "repeat_sem ty as =
     (case resolvedSize ty of
        Some n \<Rightarrow> if as = [] \<and> 0 < n then None else Some (ArrayA ty (repeat_to n as))
      | None \<Rightarrow> None)"

fun array_get_sem :: "int option \<Rightarrow> pop_type \<Rightarrow> pop_attr list \<Rightarrow> pop_attr option" where
  "array_get_sem i ty [ArrayA t vs] = Option.bind i (at_int vs)"
| "array_get_sem i ty [UninitA t] = Some (UninitA ty)"
| "array_get_sem i ty [UnknownA t] = Some (UnknownA ty)"
| "array_get_sem i ty _ = None"

fun array_replace_sem :: "int option \<Rightarrow> pop_type \<Rightarrow> pop_attr list \<Rightarrow> pop_attr option" where
  "array_replace_sem (Some i) ty [x, ArrayA t vs] =
     (if 0 \<le> i \<and> i < int (length vs) then Some (ArrayA ty (vs[nat i := x])) else None)"
| "array_replace_sem _ ty _ = None"

fun offset_sem :: "pop_env \<Rightarrow> pop_attr list \<Rightarrow> pop_attr option" where
  "offset_sem E [PointerA a (PPtr t sp), IntegerA i] =
     map_option (\<lambda>n. PointerA (wrap64 (a + int n * i)) (PPtr t sp)) (pe_allocSize E t)"
| "offset_sem E _ = None"

fun array_gep_sem :: "pop_env \<Rightarrow> pop_attr list \<Rightarrow> pop_attr option" where
  "array_gep_sem E [PointerA a (PPtr (PArr n t) sp), IntegerA i] =
     map_option (\<lambda>n. PointerA (wrap64 (a + i * int n)) (PPtr t 0)) (pe_allocSize E t)"
| "array_gep_sem E _ = None"

fun bitcast_sem :: "pop_type \<Rightarrow> pop_attr list \<Rightarrow> pop_attr option" where
  "bitcast_sem ty [PointerA a t] = Some (PointerA a ty)"
| "bitcast_sem ty _ = None"

text \<open>A global constant has an address, which depends only on the constant.\<close>

definition global_sem :: "pop_env \<Rightarrow> pop_attr \<Rightarrow> pop_type \<Rightarrow> pop_attr list \<Rightarrow> pop_attr option" where
  "global_sem E c ty as =
     (case ty of
        PPtr t sp \<Rightarrow> if as = [] \<and> t = attr_type c then Some (PointerA (pe_globalAddr E c) ty) else None
      | _ \<Rightarrow> None)"

fun to_index_sem :: "pop_attr list \<Rightarrow> pop_attr option" where
  "to_index_sem [PointerA a t] = Some (IntegerA a)"
| "to_index_sem _ = None"

fun union_wrap_sem :: "pop_type \<Rightarrow> pop_attr list \<Rightarrow> pop_attr option" where
  "union_wrap_sem ty [a] = Some (UnionA ty a)"
| "union_wrap_sem ty _ = None"

fun union_unwrap_sem :: "pop_type \<Rightarrow> pop_attr list \<Rightarrow> pop_attr option" where
  "union_unwrap_sem ty [UnionA t a] = (if attr_type a = ty then Some a else None)"
| "union_unwrap_sem ty _ = None"

fun simd_cast_sem :: "pop_env \<Rightarrow> pop_type \<Rightarrow> pop_attr list \<Rightarrow> pop_attr option" where
  "simd_cast_sem E ty [SimdA d ls] =
     (case resolvedDType ty of
        Some d' \<Rightarrow> if d' = d then Some (SimdA d ls) else map_option (SimdA d') (those (map (cast_sem E d d') ls))
      | None \<Rightarrow> None)"
| "simd_cast_sem E ty _ = None"

definition shape_sem :: "pop_env \<Rightarrow> pop_op \<Rightarrow> pop_type \<Rightarrow> pop_attr list \<Rightarrow> pop_attr option" where
  "shape_sem E op ty as =
     (case op of
        SIMDExtract \<Rightarrow> extract_sem as
      | SIMDInsert \<Rightarrow> insert_sem as
      | SIMDSelect \<Rightarrow> simd_select_sem as
      | SIMDShuffle ms \<Rightarrow> shuffle_sem ms as
      | SIMDSplat \<Rightarrow> splat_sem ty as
      | Select \<Rightarrow> select_sem as
      | ArrayCreate \<Rightarrow> Some (ArrayA ty as)
      | ArrayRepeat \<Rightarrow> repeat_sem ty as
      | ArrayGet i \<Rightarrow> array_get_sem i ty as
      | ArrayReplace i \<Rightarrow> array_replace_sem i ty as
      | Offset \<Rightarrow> offset_sem E as
      | ArrayGEP \<Rightarrow> array_gep_sem E as
      | PointerBitcast \<Rightarrow> bitcast_sem ty as
      | VariantBitcast \<Rightarrow> bitcast_sem ty as
      | GlobalConstant c \<Rightarrow> global_sem E c ty as
      | UnionBitcast \<Rightarrow> bitcast_sem ty as
      | PointerToIndex \<Rightarrow> to_index_sem as
      | UnionWrap \<Rightarrow> union_wrap_sem ty as
      | UnionUnwrap \<Rightarrow> union_unwrap_sem ty as
      | Cast \<Rightarrow> simd_cast_sem E ty as
      | AndB \<Rightarrow> bool_op (\<and>) as
      | OrB \<Rightarrow> bool_op (\<or>) as
      | XOrB \<Rightarrow> bool_op (\<noteq>) as
      | _ \<Rightarrow> None)"

fun is_lane_op :: "pop_op \<Rightarrow> bool" where
  "is_lane_op op \<longleftrightarrow> op \<in> set [Neg, Floor, Ceil, Trunc, Add, Sub, Mul, Div, Rem, Max, Min, Shr, FMA, SIMDAnd, SIMDOr, SIMDXOr]"

definition op_sem :: "pop_env \<Rightarrow> pop_op \<Rightarrow> pop_type \<Rightarrow> pop_attr list \<Rightarrow> pop_attr option" where
  "op_sem E op ty as = (if is_lane_op op then lane_op E op as else shape_sem E op ty as)"

declare op_sem_def [pop_sem] lane_op_def [pop_sem] shape_sem_def [pop_sem]

text \<open>The value of an operand, given the values of the arguments of the function.\<close>

fun eval :: "pop_env \<Rightarrow> (nat \<Rightarrow> pop_attr) \<Rightarrow> pop_value \<Rightarrow> pop_attr option" where
  "eval E \<rho> (Arg n t) = Some (\<rho> n)"
| "eval E \<rho> (Constant a) = Some a"
| "eval E \<rho> (Result n op ty vs) = Option.bind (those (map (eval E \<rho>) vs)) (op_sem E op ty)"

fun eval_fold :: "pop_env \<Rightarrow> (nat \<Rightarrow> pop_attr) \<Rightarrow> fold_result \<Rightarrow> pop_attr option" where
  "eval_fold E \<rho> (FoldAttr a) = Some a"
| "eval_fold E \<rho> (FoldValue v) = eval E \<rho> v"

text \<open>
  What a folder may do: where the operation has a value that is not undefined, the folded one has the
  same; otherwise anything is allowed.
\<close>

fun refines :: "pop_attr option \<Rightarrow> pop_attr option \<Rightarrow> bool" where
  "refines None r = True"
| "refines (Some (UninitA t)) r = True"
| "refines (Some a) r = (r = Some a)"

lemma refines_refl [simp]: "refines a a"
  by (cases "(a, a)" rule: refines.cases) auto

section \<open>Lemmas on lanes\<close>

lemma those_map_Some [simp]: "those (map Some xs) = Some xs"
  by (induction xs) auto

lemma those_eq_Some: "those xs = Some ys \<longleftrightarrow> xs = map Some ys"
  by (induction xs arbitrary: ys) (auto simp: Cons_eq_map_conv split: option.splits)

lemma those_map_eq_Some: "those (map f xs) = Some ys \<longleftrightarrow> list_all2 (\<lambda>x y. f x = Some y) xs ys"
  by (auto simp: those_eq_Some list_all2_conv_all_nth list_eq_iff_nth_eq)

lemma ap_wrap_lt: "ap_wrap w i < 2 ^ w"
proof -
  have "i mod 2 ^ w < 2 ^ w" by simp
  then show ?thesis unfolding ap_wrap_def by (simp add: nat_less_iff)
qed

lemma int_ap_wrap [simp]: "int (ap_wrap w i) = i mod 2 ^ w"
  by (simp add: ap_wrap_def)

lemma ap_int_mod: "x < 2 ^ w \<Longrightarrow> ap_int w s x mod 2 ^ w = int x"
proof -
  assume x: "x < 2 ^ w"
  have "int x < 2 ^ w" using x by (metis of_nat_less_iff of_nat_numeral of_nat_power)
  then show ?thesis by (auto simp: ap_int_def)
qed

lemma ap_wrap_int [simp]: "x < 2 ^ w \<Longrightarrow> ap_wrap w (ap_int w s x) = x"
  by (simp add: ap_wrap_def ap_int_mod)

lemma ap_wrap_cong: "i mod 2 ^ w = j mod 2 ^ w \<Longrightarrow> ap_wrap w i = ap_wrap w j"
  by (simp add: ap_wrap_def)

lemma ap_wrap_nat: "x < 2 ^ w \<Longrightarrow> ap_wrap w (int x) = x"
  using ap_wrap_int [of x w False] by (simp add: ap_int_def)

section \<open>Well-formed vectors\<close>

text \<open>Every lane fits its data type.\<close>

fun wf_attr :: "pop_env \<Rightarrow> pop_attr \<Rightarrow> bool" where
  "wf_attr E (SimdA d ls) = list_all (\<lambda>x. x < 2 ^ lane_width E d) ls"
| "wf_attr E _ = True"

text \<open>The vectors that a value and its operands have are well-formed.\<close>

fun wf_value :: "pop_env \<Rightarrow> (nat \<Rightarrow> pop_attr) \<Rightarrow> pop_value \<Rightarrow> bool" where
  "wf_value E \<rho> (Arg n t) = wf_attr E (\<rho> n)"
| "wf_value E \<rho> (Constant a) = wf_attr E a"
| "wf_value E \<rho> (Result n op ty vs) =
     (list_all (wf_value E \<rho>) vs \<and> (case eval E \<rho> (Result n op ty vs) of Some a \<Rightarrow> wf_attr E a | None \<Rightarrow> True))"

lemma wf_value_eval: "wf_value E \<rho> v \<Longrightarrow> eval E \<rho> v = Some a \<Longrightarrow> wf_attr E a"
  by (cases v) auto

text \<open>A value that is a vector of the given type.\<close>

definition simd_operand :: "pop_env \<Rightarrow> (nat \<Rightarrow> pop_attr) \<Rightarrow> pop_type \<Rightarrow> pop_value \<Rightarrow> bool" where
  "simd_operand E \<rho> ty v \<longleftrightarrow> wf_value E \<rho> v \<and>
     (case (ty, eval E \<rho> v) of
        (PSimd (Some d) (Some n), Some (SimdA d' xs)) \<Rightarrow> d' = d \<and> length xs = n
      | _ \<Rightarrow> False)"

lemma simd_operandE:
  assumes "simd_operand E \<rho> ty v"
  obtains d xs where "ty = PSimd (Some d) (Some (length xs))" "eval E \<rho> v = Some (SimdA d xs)"
    "list_all (\<lambda>x. x < 2 ^ lane_width E d) xs" "wf_value E \<rho> v"
proof -
  from assms obtain d xs where t: "ty = PSimd (Some d) (Some (length xs))" "eval E \<rho> v = Some (SimdA d xs)"
    "wf_value E \<rho> v"
    by (auto simp: simd_operand_def split: pop_type.splits option.splits pop_attr.splits)
  from wf_value_eval [OF t(3,2)] have "list_all (\<lambda>x. x < 2 ^ lane_width E d) xs" by simp
  with t that show thesis by blast
qed

section \<open>Lane by lane\<close>

lemma lanewise1: "lanewise E fi ff fb [SimdA d xs] = map_option (SimdA d) (those (map (\<lambda>x. lane_fn E fi ff fb d [x]) xs))"
proof -
  have "map (lane_fn E fi ff fb d) (lanes_of [xs]) = map (\<lambda>x. lane_fn E fi ff fb d [x]) xs"
    by (rule nth_equalityI) (simp_all add: lanes_of_def)
  then show ?thesis by (simp add: lanewise_def)
qed

lemma lanewise2:
  assumes "length ys = length xs"
  shows "lanewise E fi ff fb [SimdA d xs, SimdA d ys] =
    map_option (SimdA d) (those (map2 (\<lambda>x y. lane_fn E fi ff fb d [x, y]) xs ys))"
proof -
  have "map (lane_fn E fi ff fb d) (lanes_of [xs, ys]) = map2 (\<lambda>x y. lane_fn E fi ff fb d [x, y]) xs ys"
    by (rule nth_equalityI) (simp_all add: lanes_of_def assms)
  then show ?thesis using assms by (simp add: lanewise_def)
qed

lemma lanewise2_Some:
  assumes "lanewise E fi ff fb [a, SimdA d ys] = Some r"
  obtains xs where "a = SimdA d xs" "length ys = length xs"
  using assms by (cases a) (auto simp: lanewise_def split: if_splits)

text \<open>Two functions that agree on lanes that fit give the same result.\<close>

lemma lane_fn_cong:
  assumes "\<And>w s. list_all (\<lambda>x. x < 2 ^ w) xs \<Longrightarrow> fi w s xs = fi' w s xs"
    and "list_all (\<lambda>x. x < 2 ^ lane_width E d) xs"
  shows "lane_fn E fi ff fb d xs = lane_fn E fi' ff fb d xs"
  using assms by (cases d) auto

lemma lanewise_cong:
  assumes agree: "\<And>w s xs. list_all (\<lambda>x. x < 2 ^ w) xs \<Longrightarrow> fi w s xs = fi' w s xs"
    and wf: "list_all (wf_attr E) as"
  shows "lanewise E fi ff fb as = lanewise E fi' ff fb as"
proof (cases as)
  case (Cons a rest)
  show ?thesis
  proof (cases a)
    case (SimdA d vs)
    have "map (lane_fn E fi ff fb d) (lanes_of (map simd_lanes as)) =
        map (lane_fn E fi' ff fb d) (lanes_of (map simd_lanes as))"
      if ok: "list_all (simd_shape d (length vs)) as"
    proof (rule map_cong [OF refl])
      fix xs assume "xs \<in> set (lanes_of (map simd_lanes as))"
      then obtain i where i: "i < length vs" "xs = map (\<lambda>l. l ! i) (map simd_lanes as)"
        using Cons SimdA by (auto simp: lanes_of_def)
      have "simd_lanes a ! i < 2 ^ lane_width E d" if a: "a \<in> set as" for a
      proof -
        from ok a obtain ls where "a = SimdA d ls" "length ls = length vs"
          by (auto simp: list_all_iff dest: simd_shapeE)
        then show ?thesis using wf a i(1) by (auto simp: list_all_iff)
      qed
      then show "lane_fn E fi ff fb d xs = lane_fn E fi' ff fb d xs"
        using i(2) by (intro lane_fn_cong agree) (simp_all add: list_all_iff)
    qed
    then have "those (map (lane_fn E fi ff fb d) (lanes_of (map simd_lanes as))) =
        those (map (lane_fn E fi' ff fb d) (lanes_of (map simd_lanes as)))"
      if "list_all (simd_shape d (length vs)) as" using that by (simp only: )
    then show ?thesis
      by (cases "list_all (simd_shape d (length vs)) as")
        (simp_all only: lanewise_def Cons SimdA list.case pop_attr.case if_True if_False simp_thms)
  qed (simp_all add: Cons lanewise_def)
qed (simp add: lanewise_def)

text \<open>A fold of constants is the operation on their values.\<close>

lemma const_of_eval: "map const_of vs = map Some as \<Longrightarrow> map (eval E \<rho>) vs = map Some as"
proof (induction vs arbitrary: as)
  case (Cons v vs)
  then show ?case by (cases as; cases v) auto
qed simp

lemma foldSIMDOp_sound:
  assumes law: "folds_lanewise E" and f: "pe_foldSIMDOp E fi ff fb (map const_of vs) = Some r"
    and op: "is_lane_op op" "lane_sem E op = (fi', ff, fb)"
    and agree: "\<And>w s xs. list_all (\<lambda>x. x < 2 ^ w) xs \<Longrightarrow> fi w s xs = fi' w s xs"
    and wf: "list_all (wf_value E \<rho>) vs"
  shows "eval E \<rho> (Result n op ty vs) = Some r"
proof -
  obtain as where as: "map const_of vs = map Some as" "lanewise E fi ff fb as = Some r"
    using law f unfolding folds_lanewise_def by blast
  have e: "map (eval E \<rho>) vs = map Some as" by (rule const_of_eval [OF as(1)])
  have "wf_attr E (as ! i)" if i: "i < length as" for i
  proof -
    have len: "length vs = length as" using e by (metis length_map)
    then have "eval E \<rho> (vs ! i) = Some (as ! i)" using e i by (metis nth_map)
    then show ?thesis using wf i len by (auto simp: list_all_length intro: wf_value_eval)
  qed
  then have "list_all (wf_attr E) as" by (simp add: list_all_length)
  then have "lanewise E fi' ff fb as = Some r"
    using as(2) lanewise_cong [of fi fi' E as ff fb, OF agree] by simp
  moreover have "op_sem E op ty as = lanewise E fi' ff fb as"
    unfolding op_sem_def lane_op_def using op by (simp only: if_True prod.case)
  ultimately show ?thesis using e by (simp only: eval.simps those_map_Some bind.bind_lunit)
qed

end
