(* ===== verification/Pop_Arith.thy ===== *)
theory Pop_Arith
  imports Pop_Values
begin

text \<open>
  The folders of arithmetic, boolean and bitwise operations
  (\<^verbatim>\<open>Mojo/lib/POPDialect/POPOpsFolders.cpp\<close>, lines 84 to 450 and 625 to 745).  A folder gets the operands
  \<open>vs\<close>; the attributes of those that are constants are \<open>map const_of vs\<close>.
\<close>

section \<open>The lambdas of the folders\<close>

text \<open>
  Arithmetic of \<^verbatim>\<open>APSInt\<close> on bit patterns: addition, subtraction and multiplication wrap around and do
  not look at the sign; comparison and remainder do.
\<close>

definition apAdd :: int_fn where
  "apAdd w s xs = (case xs of [x, y] \<Rightarrow> Some ((x + y) mod 2 ^ w) | _ \<Rightarrow> None)"

definition apSub :: int_fn where
  "apSub w s xs = (case xs of [x, y] \<Rightarrow> Some ((x + (2 ^ w - y)) mod 2 ^ w) | _ \<Rightarrow> None)"

definition apMul :: int_fn where
  "apMul w s xs = (case xs of [x, y] \<Rightarrow> Some ((x * y) mod 2 ^ w) | _ \<Rightarrow> None)"

definition apNeg :: int_fn where
  "apNeg w s xs = (case xs of [x] \<Rightarrow> Some ((2 ^ w - x) mod 2 ^ w) | _ \<Rightarrow> None)"

definition apSame :: int_fn where
  "apSame w s xs = (case xs of [x] \<Rightarrow> Some x | _ \<Rightarrow> None)"

definition apMax :: int_fn where
  "apMax w s xs = (case xs of [x, y] \<Rightarrow> Some (if ap_int w s x > ap_int w s y then x else y) | _ \<Rightarrow> None)"

definition apMin :: int_fn where
  "apMin w s xs = (case xs of [x, y] \<Rightarrow> Some (if ap_int w s x < ap_int w s y then x else y) | _ \<Rightarrow> None)"

definition apFMA :: int_fn where
  "apFMA w s xs = (case xs of [x, y, z] \<Rightarrow> Some ((x * y + z) mod 2 ^ w) | _ \<Rightarrow> None)"

text \<open>\<^verbatim>\<open>lhs % rhs\<close>: unsigned, or on the magnitudes with the sign of the dividend.\<close>

definition apRem :: int_fn where
  "apRem w s xs =
     (case xs of
        [x, y] \<Rightarrow>
          if y = 0 then None
          else if \<not> s then Some (x mod y)
          else
            (let i = ap_int w s x; j = ap_int w s y; r = \<bar>i\<bar> mod \<bar>j\<bar>
             in Some (ap_wrap w (if i < 0 then - r else r)))
      | _ \<Rightarrow> None)"

lemmas ap_fns = apAdd_def apSub_def apMul_def apNeg_def apSame_def apMax_def apMin_def apFMA_def apRem_def

section \<open>Unary operations\<close>

definition foldAttr :: "pop_attr option \<Rightarrow> fold_result option" where
  "foldAttr r = map_option FoldAttr r"

definition NegOp_fold :: "pop_env \<Rightarrow> pop_value list \<Rightarrow> fold_result option" where
  "NegOp_fold E vs = foldAttr (pe_foldSIMDOp E apNeg (flt E ''neg'') no_bool (map const_of vs))"

definition FloorOp_fold :: "pop_env \<Rightarrow> pop_value list \<Rightarrow> fold_result option" where
  "FloorOp_fold E vs = foldAttr (pe_foldSIMDOp E apSame (flt E ''rmTowardNegative'') id_bool (map const_of vs))"

definition CeilOp_fold :: "pop_env \<Rightarrow> pop_value list \<Rightarrow> fold_result option" where
  "CeilOp_fold E vs = foldAttr (pe_foldSIMDOp E apSame (flt E ''rmTowardPositive'') id_bool (map const_of vs))"

definition TruncOp_fold :: "pop_env \<Rightarrow> pop_value list \<Rightarrow> fold_result option" where
  "TruncOp_fold E vs = foldAttr (pe_foldSIMDOp E apSame (flt E ''rmTowardZero'') id_bool (map const_of vs))"

section \<open>Binary operations\<close>

text \<open>An integer constant whose lanes are all equal.\<close>

definition getIntVal :: "pop_value \<Rightarrow> nat option" where
  "getIntVal v =
     (case const_of v of
        Some (SimdA d (x # xs)) \<Rightarrow> if list_all (\<lambda>y. y = x) xs then Some x else None
      | _ \<Rightarrow> None)"

definition hasIntLikeType :: "pop_type \<Rightarrow> bool" where
  "hasIntLikeType ty = (case resolvedDType ty of Some d \<Rightarrow> isIntLike d | None \<Rightarrow> False)"

definition isIntZero :: "pop_value \<Rightarrow> bool" where
  "isIntZero v \<longleftrightarrow> getIntVal v = Some 0"

definition AddOp_fold :: "pop_env \<Rightarrow> pop_type \<Rightarrow> pop_value \<Rightarrow> pop_value \<Rightarrow> fold_result option" where
  "AddOp_fold E ty lhs rhs =
     (case pe_foldSIMDOp E apAdd (flt E ''add'') no_bool [const_of lhs, const_of rhs] of
        Some r \<Rightarrow> Some (FoldAttr r)
      | None \<Rightarrow>
          if hasIntLikeType ty then
            if isIntZero lhs then Some (FoldValue rhs)
            else if isIntZero rhs then Some (FoldValue lhs)
            else None
          else None)"

definition SubOp_fold :: "pop_env \<Rightarrow> pop_type \<Rightarrow> pop_value \<Rightarrow> pop_value \<Rightarrow> fold_result option" where
  "SubOp_fold E ty lhs rhs =
     (case pe_foldSIMDOp E apSub (flt E ''sub'') no_bool [const_of lhs, const_of rhs] of
        Some r \<Rightarrow> Some (FoldAttr r)
      | None \<Rightarrow> if hasIntLikeType ty \<and> isIntZero rhs then Some (FoldValue lhs) else None)"

definition foldTrivialMultiplication :: "pop_value \<Rightarrow> pop_value \<Rightarrow> fold_result option" where
  "foldTrivialMultiplication lhs rhs =
     (case getIntVal lhs of
        Some c \<Rightarrow> if c = 0 then Some (FoldValue lhs) else if c = 1 then Some (FoldValue rhs) else None
      | None \<Rightarrow> None)"

definition MulOp_fold :: "pop_env \<Rightarrow> pop_type \<Rightarrow> pop_value \<Rightarrow> pop_value \<Rightarrow> fold_result option" where
  "MulOp_fold E ty lhs rhs =
     (case pe_foldSIMDOp E apMul (flt E ''mul'') no_bool [const_of lhs, const_of rhs] of
        Some r \<Rightarrow> Some (FoldAttr r)
      | None \<Rightarrow>
          if \<not> hasIntLikeType ty then None
          else case foldTrivialMultiplication lhs rhs of
            Some r \<Rightarrow> Some r
          | None \<Rightarrow> foldTrivialMultiplication rhs lhs)"

text \<open>
  \<^verbatim>\<open>x / 2^n\<close> into \<^verbatim>\<open>x >> n\<close>, for unsigned integers; the sign bit of a divisor counts as a sign in the
  test, whatever the data type.
\<close>

definition strictlyPositivePowerOf2 :: "nat \<Rightarrow> nat \<Rightarrow> bool" where
  "strictlyPositivePowerOf2 w x \<longleftrightarrow> x \<noteq> 0 \<and> x < 2 ^ (w - 1) \<and> isPowerOf2 x"

fun logBase2 :: "nat \<Rightarrow> nat" where
  "logBase2 x = (if x \<le> 1 then 0 else Suc (logBase2 (x div 2)))"

declare logBase2.simps [simp del]

text \<open>The width of an unsigned type, and the width its constants are kept in.\<close>

definition unsignedWidths :: "pop_env \<Rightarrow> kgen_dtype \<Rightarrow> (nat \<times> nat) option" where
  "unsignedWidths E d =
     (case d of
        DInt w s \<Rightarrow> if s then None else Some (w, w)
      | DUIndex \<Rightarrow> if pe_uintIndex E \<and> pe_hasTarget E then Some (pe_indexWidth E, 64) else None
      | _ \<Rightarrow> None)"

definition DivOp_canonicalize ::
  "pop_env \<Rightarrow> pop_type \<Rightarrow> pop_value \<Rightarrow> pop_value \<Rightarrow> (pop_op \<times> pop_value list) option" where
  "DivOp_canonicalize E ty lhs rhs =
     do {
       d \<leftarrow> resolvedDType ty;
       n \<leftarrow> resolvedSize ty;
       (w, storage) \<leftarrow> unsignedWidths E d;
       (case const_of rhs of
          Some (SimdA d' ys) \<Rightarrow>
            if list_all (strictlyPositivePowerOf2 storage) ys
            then Some (Shr, [lhs, Constant (SimdA d (map (\<lambda>i. logBase2 (ys ! i) mod 2 ^ w) [0..<n]))])
            else None
        | _ \<Rightarrow> None)
     }"

text \<open>The helper for remainders, with the width of an index from the target.\<close>

definition foldRemOp :: "pop_env \<Rightarrow> pop_attr option list \<Rightarrow> fold_result option" where
  "foldRemOp E ads =
     (if list_ex (\<lambda>a. case a of Some (SimdA _ _) \<Rightarrow> False | _ \<Rightarrow> True) ads then None
      else foldAttr (pe_foldSIMDOp E apRem (rem_float E) no_bool ads))"

definition RemOp_fold :: "pop_env \<Rightarrow> pop_value list \<Rightarrow> fold_result option" where
  "RemOp_fold E vs = foldRemOp E (map const_of vs)"

definition RemOp_interpret :: "pop_env \<Rightarrow> pop_attr list \<Rightarrow> pop_attr error_or" where
  "RemOp_interpret E as =
     (case foldRemOp E (map Some as) of
        Some (FoldAttr r) \<Rightarrow> Inr r
      | _ \<Rightarrow> Inl ''failed to interpret POP::RemOp'')"

definition MaxOp_fold :: "pop_env \<Rightarrow> pop_value \<Rightarrow> pop_value \<Rightarrow> fold_result option" where
  "MaxOp_fold E lhs rhs =
     (case pe_foldSIMDOp E apMax (flt E ''maxnum'') (bool2 (\<or>)) [const_of lhs, const_of rhs] of
        Some r \<Rightarrow> Some (FoldAttr r)
      | None \<Rightarrow> if lhs = rhs then Some (FoldValue lhs) else None)"

definition MinOp_fold :: "pop_env \<Rightarrow> pop_value \<Rightarrow> pop_value \<Rightarrow> fold_result option" where
  "MinOp_fold E lhs rhs =
     (case pe_foldSIMDOp E apMin (flt E ''minnum'') (bool2 (\<and>)) [const_of lhs, const_of rhs] of
        Some r \<Rightarrow> Some (FoldAttr r)
      | None \<Rightarrow> if lhs = rhs then Some (FoldValue lhs) else None)"

definition FMAOp_fold :: "pop_env \<Rightarrow> pop_value list \<Rightarrow> fold_result option" where
  "FMAOp_fold E vs = foldAttr (pe_foldSIMDOp E apFMA (flt E ''fma'') no_bool (map const_of vs))"

section \<open>Booleans\<close>

fun boolAttr :: "pop_attr option \<Rightarrow> bool option" where
  "boolAttr (Some (BoolA b)) = Some b"
| "boolAttr _ = None"

definition AndOp_fold :: "pop_value \<Rightarrow> pop_value \<Rightarrow> fold_result option" where
  "AndOp_fold lhs rhs =
     (case (boolAttr (const_of lhs), boolAttr (const_of rhs)) of
        (Some a, Some b) \<Rightarrow> Some (FoldAttr (BoolA (a \<and> b)))
      | (None, Some b) \<Rightarrow> Some (if b then FoldValue lhs else FoldAttr (BoolA False))
      | (_, None) \<Rightarrow> None)"

definition OrOp_fold :: "pop_value \<Rightarrow> pop_value \<Rightarrow> fold_result option" where
  "OrOp_fold lhs rhs =
     (case (boolAttr (const_of lhs), boolAttr (const_of rhs)) of
        (Some a, Some b) \<Rightarrow> Some (FoldAttr (BoolA (a \<or> b)))
      | (None, Some b) \<Rightarrow> Some (if \<not> b then FoldValue lhs else FoldAttr (BoolA True))
      | (_, None) \<Rightarrow> None)"

definition XOrOp_fold :: "pop_value \<Rightarrow> pop_value \<Rightarrow> fold_result option" where
  "XOrOp_fold lhs rhs =
     (case (boolAttr (const_of lhs), boolAttr (const_of rhs)) of
        (Some a, Some b) \<Rightarrow> Some (FoldAttr (BoolA (a \<noteq> b)))
      | (None, Some b) \<Rightarrow>
          if \<not> b then Some (FoldValue lhs)
          else (case lhs of
                  Result _ XOrB _ [x, y] \<Rightarrow> if boolAttr (const_of y) = Some True then Some (FoldValue x) else None
                | _ \<Rightarrow> None)
      | (_, None) \<Rightarrow> None)"

section \<open>Bitwise operations\<close>

definition SIMDAndOp_fold :: "pop_env \<Rightarrow> pop_value list \<Rightarrow> fold_result option" where
  "SIMDAndOp_fold E vs = foldAttr (pe_foldSIMDOp E (bits2 (and)) no_float (bool2 (\<and>)) (map const_of vs))"

definition SIMDOrOp_fold :: "pop_env \<Rightarrow> pop_value list \<Rightarrow> fold_result option" where
  "SIMDOrOp_fold E vs = foldAttr (pe_foldSIMDOp E (bits2 (or)) no_float (bool2 (\<or>)) (map const_of vs))"

text \<open>
  All bits of a lane are set: \<^verbatim>\<open>isMask(getBitWidth())\<close> on the stored integer, or the boolean value.  An
  index is stored in 64 bits whatever its width on the target.
\<close>

definition storage_width :: "pop_env \<Rightarrow> kgen_dtype \<Rightarrow> nat" where
  "storage_width E d = (if d = DIndex \<or> d = DUIndex then 64 else lane_width E d)"

definition allOnes :: "pop_env \<Rightarrow> pop_type \<Rightarrow> kgen_dtype \<Rightarrow> nat \<Rightarrow> bool" where
  "allOnes E ty d x \<longleftrightarrow> (if resolvedDType ty = Some DBool then x \<noteq> 0 else x = 2 ^ storage_width E d - 1)"

definition SIMDXOrOp_fold :: "pop_env \<Rightarrow> pop_type \<Rightarrow> pop_value \<Rightarrow> pop_value \<Rightarrow> fold_result option" where
  "SIMDXOrOp_fold E ty lhs rhs =
     (case pe_foldSIMDOp E (bits2 (xor)) no_float (bool2 (\<noteq>)) [const_of lhs, const_of rhs] of
        Some r \<Rightarrow> Some (FoldAttr r)
      | None \<Rightarrow>
          (case const_of rhs of
             Some (SimdA d ys) \<Rightarrow>
               if list_all (\<lambda>y. y = 0) ys then
                 Some (case const_of lhs of Some a \<Rightarrow> FoldAttr a | None \<Rightarrow> FoldValue lhs)
               else if list_all (allOnes E ty d) ys then
                 (case lhs of
                    Result _ SIMDXOr _ [x, y] \<Rightarrow> if y = rhs then Some (FoldValue x) else None
                  | _ \<Rightarrow> None)
               else None
           | _ \<Rightarrow> None))"

section \<open>The lambdas compute the operations\<close>

lemma mod_lane: "x < 2 ^ w \<Longrightarrow> int x = ap_int w s x mod 2 ^ w"
  by (simp add: ap_int_mod)

lemma wrap_eqI: "int a = i mod 2 ^ w \<Longrightarrow> a = ap_wrap w i"
  by (metis int_ap_wrap of_nat_eq_iff)

lemma apAdd_int: "list_all (\<lambda>x. x < 2 ^ w) xs \<Longrightarrow> apAdd w s xs = int2 (+) w s xs"
proof -
  have "int ((x + y) mod 2 ^ w) = (ap_int w s x + ap_int w s y) mod 2 ^ w" if "x < 2 ^ w" "y < 2 ^ w" for x y
  proof -
    have "int ((x + y) mod 2 ^ w) = ((ap_int w s x mod 2 ^ w) + (ap_int w s y mod 2 ^ w)) mod 2 ^ w"
      using that by (simp add: zmod_int ap_int_mod)
    then show ?thesis by (simp only: mod_add_eq)
  qed
  then show "list_all (\<lambda>x. x < 2 ^ w) xs \<Longrightarrow> ?thesis"
    by (auto simp: apAdd_def int2_def intro!: wrap_eqI split: list.splits)
qed

lemma apMul_int: "list_all (\<lambda>x. x < 2 ^ w) xs \<Longrightarrow> apMul w s xs = int2 (*) w s xs"
proof -
  have "int ((x * y) mod 2 ^ w) = (ap_int w s x * ap_int w s y) mod 2 ^ w" if "x < 2 ^ w" "y < 2 ^ w" for x y
  proof -
    have "int ((x * y) mod 2 ^ w) = ((ap_int w s x mod 2 ^ w) * (ap_int w s y mod 2 ^ w)) mod 2 ^ w"
      using that by (simp only: zmod_int ap_int_mod of_nat_mult of_nat_power of_nat_numeral)
    then show ?thesis by (simp only: mod_mult_eq)
  qed
  then show "list_all (\<lambda>x. x < 2 ^ w) xs \<Longrightarrow> ?thesis"
    by (auto simp: apMul_def int2_def intro!: wrap_eqI split: list.splits)
qed

lemma apFMA_int: "list_all (\<lambda>x. x < 2 ^ w) xs \<Longrightarrow> apFMA w s xs = fma_int w s xs"
proof -
  have "int ((x * y + z) mod 2 ^ w) = (ap_int w s x * ap_int w s y + ap_int w s z) mod 2 ^ w"
    if "x < 2 ^ w" "y < 2 ^ w" "z < 2 ^ w" for x y z
  proof -
    have "int ((x * y + z) mod 2 ^ w) =
        ((ap_int w s x mod 2 ^ w) * (ap_int w s y mod 2 ^ w) + ap_int w s z mod 2 ^ w) mod 2 ^ w"
      using that by (simp only: zmod_int ap_int_mod of_nat_mult of_nat_add of_nat_power of_nat_numeral)
    also have "\<dots> = (ap_int w s x * ap_int w s y + ap_int w s z) mod 2 ^ w"
      by (rule mod_add_cong) (simp_all only: mod_mult_eq mod_mod_trivial)
    finally show ?thesis .
  qed
  then show "list_all (\<lambda>x. x < 2 ^ w) xs \<Longrightarrow> ?thesis"
    by (auto simp: apFMA_def fma_int_def intro!: wrap_eqI split: list.splits)
qed

lemma two_pow_sub: "y < 2 ^ w \<Longrightarrow> int (2 ^ w - y) = 2 ^ w - int (y::nat)"
  by (simp add: of_nat_diff)

lemma apSub_int: "list_all (\<lambda>x. x < 2 ^ w) xs \<Longrightarrow> apSub w s xs = int2 (-) w s xs"
proof -
  have "int ((x + (2 ^ w - y)) mod 2 ^ w) = (ap_int w s x - ap_int w s y) mod 2 ^ w"
    if "x < 2 ^ w" "y < 2 ^ w" for x y
  proof -
    have "int ((x + (2 ^ w - y)) mod 2 ^ w) = (int x - int y + 2 ^ w) mod 2 ^ w"
      using that by (simp add: zmod_int two_pow_sub algebra_simps)
    also have "\<dots> = (ap_int w s x mod 2 ^ w - ap_int w s y mod 2 ^ w) mod 2 ^ w"
      using that by (simp add: ap_int_mod)
    finally show ?thesis by (simp add: mod_diff_eq)
  qed
  then show "list_all (\<lambda>x. x < 2 ^ w) xs \<Longrightarrow> ?thesis"
    by (auto simp: apSub_def int2_def intro!: wrap_eqI split: list.splits)
qed

lemma apNeg_int: "list_all (\<lambda>x. x < 2 ^ w) xs \<Longrightarrow> apNeg w s xs = int1 uminus w s xs"
proof -
  have "int ((2 ^ w - x) mod 2 ^ w) = (- ap_int w s x) mod 2 ^ w" if "x < 2 ^ w" for x
  proof -
    have "int ((2 ^ w - x) mod 2 ^ w) = (- int x + 2 ^ w) mod 2 ^ w"
      using that by (simp add: zmod_int two_pow_sub algebra_simps)
    also have "\<dots> = (- (ap_int w s x mod 2 ^ w)) mod 2 ^ w" using that by (simp add: ap_int_mod)
    finally show ?thesis by (simp add: mod_minus_eq)
  qed
  then show "list_all (\<lambda>x. x < 2 ^ w) xs \<Longrightarrow> ?thesis"
    by (auto simp: apNeg_def int1_def intro!: wrap_eqI split: list.splits)
qed

lemma apSame_int: "list_all (\<lambda>x. x < 2 ^ w) xs \<Longrightarrow> apSame w s xs = int1 (\<lambda>x. x) w s xs"
  by (auto simp: apSame_def int1_def split: list.splits)

lemma apMax_int: "list_all (\<lambda>x. x < 2 ^ w) xs \<Longrightarrow> apMax w s xs = int2 max w s xs"
  by (auto simp: apMax_def int2_def max_def split: list.splits)

lemma apMin_int: "list_all (\<lambda>x. x < 2 ^ w) xs \<Longrightarrow> apMin w s xs = int2 min w s xs"
  by (auto simp: apMin_def int2_def min_def split: list.splits)

lemma smod_sign: "i smod j = (if i < 0 then - (\<bar>i\<bar> mod \<bar>j\<bar>) else \<bar>i\<bar> mod \<bar>(j::int)\<bar>)"
  by (simp add: signed_modulo_int_def signed_divide_int_def sgn_if minus_div_mult_eq_mod [symmetric] abs_if)

lemma apRem_int: "list_all (\<lambda>x. x < 2 ^ w) xs \<Longrightarrow> apRem w s xs = rem_int w s xs"
proof -
  have "x mod y = ap_wrap w (ap_int w False x smod ap_int w False y)" if "x < 2 ^ w" for x y
  proof -
    have "ap_int w False x smod ap_int w False y = int (x mod y)"
      by (simp add: ap_int_def smod_sign zmod_int)
    moreover have "x mod y < 2 ^ w" using that by (meson le_less_trans mod_less_eq_dividend)
    ultimately show ?thesis by (simp add: ap_wrap_nat)
  qed
  then show "list_all (\<lambda>x. x < 2 ^ w) xs \<Longrightarrow> ?thesis"
    by (auto simp: apRem_def rem_int_def int2_def Let_def smod_sign split: list.splits)
qed

lemma ap_eval:
  "apAdd w s [x, y] = Some ((x + y) mod 2 ^ w)"
  "apSub w s [x, y] = Some ((x + (2 ^ w - y)) mod 2 ^ w)"
  "apMul w s [x, y] = Some ((x * y) mod 2 ^ w)"
  "apMax w s [x, y] = Some (if ap_int w s x > ap_int w s y then x else y)"
  "apMin w s [x, y] = Some (if ap_int w s x < ap_int w s y then x else y)"
  "bits2 f w s [x, y] = Some (f x y)"
  "int2 g w s [x, y] = Some (ap_wrap w (g (ap_int w s x) (ap_int w s y)))"
  by (simp_all add: ap_fns bits2_def int2_def)

lemmas ap_int_laws = apAdd_int apSub_int apMul_int apNeg_int apSame_int apMax_int apMin_int apFMA_int apRem_int

section \<open>Folding to an operand\<close>

lemma lanewise2_eqI:
  assumes "length ys = length xs" "length zs = length xs"
    and "\<And>i. i < length xs \<Longrightarrow> lane_fn E fi ff fb d [xs ! i, ys ! i] = Some (zs ! i)"
  shows "lanewise E fi ff fb [SimdA d xs, SimdA d ys] = Some (SimdA d zs)"
proof -
  have "map2 (\<lambda>x y. lane_fn E fi ff fb d [x, y]) xs ys = map Some zs"
    by (rule nth_equalityI) (simp_all add: assms)
  then show ?thesis by (simp add: lanewise2 assms(1))
qed

lemma lane_fn_intlike: "isIntLike d \<Longrightarrow> \<exists>s. \<forall>xs. lane_fn E fi ff fb d xs = fi (lane_width E d) s xs"
  by (cases d) (auto simp: isIntLike_def isIndexLike_def)

lemma const_of_Some: "const_of v = Some a \<longleftrightarrow> v = Constant a"
  by (cases v) auto

lemma getIntVal_lanes:
  assumes "getIntVal v = Some c" "eval E \<rho> v = Some (SimdA d ys)"
  shows "ys \<noteq> [] \<and> list_all (\<lambda>y. y = c) ys"
proof -
  from assms(1) obtain d' x xs where "v = Constant (SimdA d' (x # xs))" "list_all (\<lambda>y. y = x) xs" "c = x"
    by (auto simp: getIntVal_def const_of_Some split: option.splits pop_attr.splits list.splits if_splits)
  with assms(2) show ?thesis by auto
qed

text \<open>
  An operation on integer lanes of which one operand is the same constant in every lane: if the
  function returns the lane of \<open>zs\<close> for each pair, the result is \<open>zs\<close>.
\<close>

lemma int_lanes:
  assumes d: "isIntLike d" and op: "is_lane_op op" "lane_sem E op = (fi', ff, fb)"
    and agree: "\<And>w s xs. list_all (\<lambda>x. x < 2 ^ w) xs \<Longrightarrow> fi w s xs = fi' w s xs"
    and e: "eval E \<rho> lhs = Some (SimdA d xs)" "eval E \<rho> rhs = Some (SimdA d ys)" "length ys = length xs"
    and wf: "list_all (\<lambda>x. x < 2 ^ lane_width E d) xs" "list_all (\<lambda>x. x < 2 ^ lane_width E d) ys"
    and z: "length zs = length xs"
      "\<And>i s. i < length xs \<Longrightarrow> fi (lane_width E d) s [xs ! i, ys ! i] = Some (zs ! i)"
  shows "eval E \<rho> (Result n op ty [lhs, rhs]) = Some (SimdA d zs)"
proof -
  obtain s where s: "lane_fn E fi' ff fb d l = fi' (lane_width E d) s l" for l
    using lane_fn_intlike [OF d, of E fi' ff fb] by blast
  have "lane_fn E fi' ff fb d [xs ! i, ys ! i] = Some (zs ! i)" if i: "i < length xs" for i
  proof -
    have "xs ! i < 2 ^ lane_width E d" "ys ! i < 2 ^ lane_width E d"
      using wf e(3) i by (simp_all add: list_all_length)
    then have "list_all (\<lambda>x. x < 2 ^ lane_width E d) [xs ! i, ys ! i]" by simp
    then show ?thesis using s agree z(2) [OF i] by metis
  qed
  then have "lanewise E fi' ff fb [SimdA d xs, SimdA d ys] = Some (SimdA d zs)"
    by (intro lanewise2_eqI e(3) z(1)) auto
  moreover have "op_sem E op ty [SimdA d xs, SimdA d ys] = lanewise E fi' ff fb [SimdA d xs, SimdA d ys]"
    unfolding op_sem_def lane_op_def using op by (simp only: if_True prod.case)
  ultimately show ?thesis using e by simp
qed

lemma two_operands:
  assumes "simd_operand E \<rho> ty lhs" "simd_operand E \<rho> ty rhs"
  obtains d xs ys where "ty = PSimd (Some d) (Some (length xs))" "eval E \<rho> lhs = Some (SimdA d xs)"
    "eval E \<rho> rhs = Some (SimdA d ys)" "length ys = length xs"
    "list_all (\<lambda>x. x < 2 ^ lane_width E d) xs" "list_all (\<lambda>x. x < 2 ^ lane_width E d) ys"
  using assms(1)
proof (rule simd_operandE)
  fix d xs assume l: "ty = PSimd (Some d) (Some (length xs))" "eval E \<rho> lhs = Some (SimdA d xs)"
    "list_all (\<lambda>x. x < 2 ^ lane_width E d) xs"
  from assms(2) show thesis
  proof (rule simd_operandE)
    fix d' ys assume "ty = PSimd (Some d') (Some (length ys))" "eval E \<rho> rhs = Some (SimdA d' ys)"
      "list_all (\<lambda>x. x < 2 ^ lane_width E d') ys"
    with l that show thesis by simp
  qed
qed

lemma AddOp_fold_sound:
  assumes law: "folds_lanewise E" and f: "AddOp_fold E ty lhs rhs = Some r"
    and o: "simd_operand E \<rho> ty lhs" "simd_operand E \<rho> ty rhs"
  shows "eval_fold E \<rho> r = eval E \<rho> (Result n Add ty [lhs, rhs])"
proof (cases "pe_foldSIMDOp E apAdd (flt E ''add'') no_bool [const_of lhs, const_of rhs]")
  case (Some a)
  then have "eval E \<rho> (Result n Add ty [lhs, rhs]) = Some a"
    by (intro foldSIMDOp_sound [OF law, of apAdd "flt E ''add''" no_bool "[lhs, rhs]"])
      (use o in \<open>simp_all add: apAdd_int simd_operand_def\<close>)
  with Some f show ?thesis by (auto simp: AddOp_fold_def)
next
  case None
  from o obtain d xs ys where t: "ty = PSimd (Some d) (Some (length xs))"
    "eval E \<rho> lhs = Some (SimdA d xs)" "eval E \<rho> rhs = Some (SimdA d ys)" "length ys = length xs"
    "list_all (\<lambda>x. x < 2 ^ lane_width E d) xs" "list_all (\<lambda>x. x < 2 ^ lane_width E d) ys"
    by (rule two_operands)
  have d: "isIntLike d" using f None t(1) by (auto simp: AddOp_fold_def hasIntLikeType_def split: if_splits)
  note lanes = int_lanes [where op = Add and fi = apAdd and fi' = "int2 (+)" and ff = "flt E ''add''" and fb = no_bool,
      OF d _ _ apAdd_int t(2-6)]
  consider "isIntZero lhs" "r = FoldValue rhs" | "isIntZero rhs" "r = FoldValue lhs"
    using f None by (auto simp: AddOp_fold_def split: if_splits)
  then show ?thesis
  proof cases
    case 1
    have "xs ! i = 0" if "i < length xs" for i
      using getIntVal_lanes [of lhs 0 E \<rho> d xs] 1(1) t(2) that by (auto simp: isIntZero_def list_all_length)
    then have "apAdd (lane_width E d) s [xs ! i, ys ! i] = Some (ys ! i)" if "i < length xs" for i s
      using that t(4,6) by (simp add: ap_eval list_all_length)
    then have "eval E \<rho> (Result n Add ty [lhs, rhs]) = Some (SimdA d ys)"
      using t(4) by (intro lanes) simp_all
    with 1 t show ?thesis by simp
  next
    case 2
    have "ys ! i = 0" if "i < length xs" for i
      using getIntVal_lanes [of rhs 0 E \<rho> d ys] 2(1) t(3,4) that by (auto simp: isIntZero_def list_all_length)
    then have "apAdd (lane_width E d) s [xs ! i, ys ! i] = Some (xs ! i)" if "i < length xs" for i s
      using that t(5) by (simp add: ap_eval list_all_length)
    then have "eval E \<rho> (Result n Add ty [lhs, rhs]) = Some (SimdA d xs)"
      by (intro lanes) simp_all
    with 2 t show ?thesis by simp
  qed
qed

lemma SubOp_fold_sound:
  assumes law: "folds_lanewise E" and f: "SubOp_fold E ty lhs rhs = Some r"
    and o: "simd_operand E \<rho> ty lhs" "simd_operand E \<rho> ty rhs"
  shows "eval_fold E \<rho> r = eval E \<rho> (Result n Sub ty [lhs, rhs])"
proof (cases "pe_foldSIMDOp E apSub (flt E ''sub'') no_bool [const_of lhs, const_of rhs]")
  case (Some a)
  then have "eval E \<rho> (Result n Sub ty [lhs, rhs]) = Some a"
    by (intro foldSIMDOp_sound [OF law, of apSub "flt E ''sub''" no_bool "[lhs, rhs]"])
      (use o in \<open>simp_all add: apSub_int simd_operand_def\<close>)
  with Some f show ?thesis by (auto simp: SubOp_fold_def)
next
  case None
  from o obtain d xs ys where t: "ty = PSimd (Some d) (Some (length xs))"
    "eval E \<rho> lhs = Some (SimdA d xs)" "eval E \<rho> rhs = Some (SimdA d ys)" "length ys = length xs"
    "list_all (\<lambda>x. x < 2 ^ lane_width E d) xs" "list_all (\<lambda>x. x < 2 ^ lane_width E d) ys"
    by (rule two_operands)
  have d: "isIntLike d" "isIntZero rhs" "r = FoldValue lhs"
    using f None t(1) by (auto simp: SubOp_fold_def hasIntLikeType_def split: if_splits)
  have "ys ! i = 0" if "i < length xs" for i
    using getIntVal_lanes [of rhs 0 E \<rho> d ys] d(2) t(3,4) that by (auto simp: isIntZero_def list_all_length)
  then have "apSub (lane_width E d) s [xs ! i, ys ! i] = Some (xs ! i)" if "i < length xs" for i s
    using that t(5) by (simp add: ap_eval list_all_length)
  then have "eval E \<rho> (Result n Sub ty [lhs, rhs]) = Some (SimdA d xs)"
    by (intro int_lanes [where op = Sub and fi = apSub and fi' = "int2 (-)" and ff = "flt E ''sub''" and fb = no_bool,
      OF d(1) _ _ apSub_int t(2-6)])
      simp_all
  with d t show ?thesis by simp
qed

lemma MulOp_const:
  assumes d: "isIntLike d" and c: "getIntVal lhs = Some c"
    and t: "eval E \<rho> lhs = Some (SimdA d xs)" "eval E \<rho> rhs = Some (SimdA d ys)" "length ys = length xs"
      "list_all (\<lambda>x. x < 2 ^ lane_width E d) xs" "list_all (\<lambda>x. x < 2 ^ lane_width E d) ys"
  shows "c = 0 \<Longrightarrow> eval E \<rho> (Result n Mul ty [lhs, rhs]) = Some (SimdA d xs)"
    and "c = 0 \<Longrightarrow> eval E \<rho> (Result n Mul ty [rhs, lhs]) = Some (SimdA d xs)"
    and "c = 1 \<Longrightarrow> eval E \<rho> (Result n Mul ty [lhs, rhs]) = Some (SimdA d ys)"
    and "c = 1 \<Longrightarrow> eval E \<rho> (Result n Mul ty [rhs, lhs]) = Some (SimdA d ys)"
proof -
  have x: "xs ! i = c" if "i < length xs" for i
    using getIntVal_lanes [OF c t(1)] that by (auto simp: list_all_length)
  have y: "ys ! i < 2 ^ lane_width E d" if "i < length xs" for i using that t(3,5) by (simp add: list_all_length)
  note l = int_lanes [where op = Mul and fi = apMul and fi' = "int2 (*)" and ff = "flt E ''mul''" and fb = no_bool,
      OF d _ _ apMul_int t(1-5)]
  note r = int_lanes [where op = Mul and fi = apMul and fi' = "int2 (*)" and ff = "flt E ''mul''" and fb = no_bool,
      OF d _ _ apMul_int t(2,1) t(3) [symmetric] t(5,4)]
  { assume "c = 0"
    then have z: "apMul w s [xs ! i, ys ! i] = Some (xs ! i)" "apMul w s [ys ! i, xs ! i] = Some (xs ! i)"
      if "i < length xs" for i w s using that x by (simp_all add: ap_eval)
    show "eval E \<rho> (Result n Mul ty [lhs, rhs]) = Some (SimdA d xs)" by (intro l) (simp_all add: z)
    show "eval E \<rho> (Result n Mul ty [rhs, lhs]) = Some (SimdA d xs)" using t(3) by (intro r) (simp_all add: z) }
  { assume "c = 1"
    then have z: "apMul (lane_width E d) s [xs ! i, ys ! i] = Some (ys ! i)"
      "apMul (lane_width E d) s [ys ! i, xs ! i] = Some (ys ! i)"
      if "i < length xs" for i s using that x y by (simp_all add: ap_eval)
    show "eval E \<rho> (Result n Mul ty [lhs, rhs]) = Some (SimdA d ys)" using t(3) by (intro l) (simp_all add: z)
    show "eval E \<rho> (Result n Mul ty [rhs, lhs]) = Some (SimdA d ys)" using t(3) by (intro r) (simp_all add: z) }
qed

lemma MulOp_fold_sound:
  assumes law: "folds_lanewise E" and f: "MulOp_fold E ty lhs rhs = Some r"
    and o: "simd_operand E \<rho> ty lhs" "simd_operand E \<rho> ty rhs"
  shows "eval_fold E \<rho> r = eval E \<rho> (Result n Mul ty [lhs, rhs])"
proof (cases "pe_foldSIMDOp E apMul (flt E ''mul'') no_bool [const_of lhs, const_of rhs]")
  case (Some a)
  then have "eval E \<rho> (Result n Mul ty [lhs, rhs]) = Some a"
    by (intro foldSIMDOp_sound [OF law, of apMul "flt E ''mul''" no_bool "[lhs, rhs]"])
      (use o in \<open>simp_all add: apMul_int simd_operand_def\<close>)
  with Some f show ?thesis by (auto simp: MulOp_fold_def)
next
  case None
  from o obtain d xs ys where t: "ty = PSimd (Some d) (Some (length xs))"
    "eval E \<rho> lhs = Some (SimdA d xs)" "eval E \<rho> rhs = Some (SimdA d ys)" "length ys = length xs"
    "list_all (\<lambda>x. x < 2 ^ lane_width E d) xs" "list_all (\<lambda>x. x < 2 ^ lane_width E d) ys"
    by (rule two_operands)
  have d: "isIntLike d" using f None t(1) by (auto simp: MulOp_fold_def hasIntLikeType_def split: if_splits)
  consider c where "getIntVal lhs = Some c" "c = 0 \<and> r = FoldValue lhs \<or> c = 1 \<and> r = FoldValue rhs"
    | c where "getIntVal rhs = Some c" "c = 0 \<and> r = FoldValue rhs \<or> c = 1 \<and> r = FoldValue lhs"
    using f None
    by (auto simp: MulOp_fold_def foldTrivialMultiplication_def split: if_splits option.splits)
  then show ?thesis
  proof cases
    case 1
    show ?thesis using 1(2) MulOp_const [OF d 1(1) t(2-6), of n ty] t by auto
  next
    case 2
    show ?thesis
      using 2(2) MulOp_const [OF d 2(1) t(3,2) t(4) [symmetric] t(6,5), of n ty] t by auto
  qed
qed

lemma lane_bool: "x < 2 ^ lane_width E DBool \<Longrightarrow> of_bool (x \<noteq> 0) = (x::nat)"
  by (cases x) auto

lemma max_lane:
  assumes "\<forall>f. d \<noteq> DFloat f" "x < 2 ^ lane_width E d" "d \<noteq> DAddress" "d \<noteq> DInvalid"
  shows "lane_fn E (int2 max) (flt E ''maxnum'') (bool2 (\<or>)) d [x, x] = Some x"
    and "lane_fn E (int2 min) (flt E ''minnum'') (bool2 (\<and>)) d [x, x] = Some x"
  using assms by (cases d; simp add: int2_def bool2_def lane_bool)+

lemma minmax_same:
  assumes "\<nexists>f xs. eval E \<rho> v = Some (SimdA (DFloat f) xs)" "op = Max \<or> op = Min" "simd_operand E \<rho> ty v"
  shows "refines (eval E \<rho> (Result n op ty [v, v])) (eval E \<rho> v)"
proof -
  obtain fi ff fb where s: "lane_sem E op = (fi, ff, fb)" by (cases "lane_sem E op")
  have l: "is_lane_op op" using assms(2) by auto
  from assms(3) obtain d xs where t: "eval E \<rho> v = Some (SimdA d xs)"
    "list_all (\<lambda>x. x < 2 ^ lane_width E d) xs" by (rule simd_operandE)
  have nf: "\<forall>f. d \<noteq> DFloat f" using assms(1) t(1) by blast
  have same: "lane_fn E fi ff fb d [x, x] = Some x"
    if "x < 2 ^ lane_width E d" "d \<noteq> DAddress" "d \<noteq> DInvalid" for x
    using assms(2) s max_lane [OF nf that] by (elim disjE) simp_all
  have none: "lane_fn E fi ff fb d ls = None" if "d = DAddress \<or> d = DInvalid" for ls
    using that by auto
  have "refines (lanewise E fi ff fb [SimdA d xs, SimdA d xs]) (Some (SimdA d xs))"
  proof (cases "d = DAddress \<or> d = DInvalid")
    case True
    then show ?thesis by (cases xs) (simp_all add: lanewise2 none)
  next
    case False
    then have "lanewise E fi ff fb [SimdA d xs, SimdA d xs] = Some (SimdA d xs)"
      using t(2) by (intro lanewise2_eqI) (simp_all add: list_all_length same)
    then show ?thesis by simp
  qed
  moreover have "op_sem E op ty [SimdA d xs, SimdA d xs] = lanewise E fi ff fb [SimdA d xs, SimdA d xs]"
    unfolding op_sem_def lane_op_def using l s by (simp only: if_True prod.case)
  ultimately show ?thesis using t(1) by simp
qed

lemma xor_lane_zero:
  "x < 2 ^ lane_width E d \<Longrightarrow> lane_fn E (bits2 (xor)) no_float (bool2 (\<noteq>)) d [x, 0] \<in> {None, Some x}"
  by (cases d) (simp_all add: bits2_def bool2_def no_float_def lane_bool)

lemma xor_lane_twice:
  assumes "x < 2 ^ lane_width E d" "lane_fn E (bits2 (xor)) no_float (bool2 (\<noteq>)) d [x, y] = Some z"
  shows "lane_fn E (bits2 (xor)) no_float (bool2 (\<noteq>)) d [z, y] = Some x"
proof (cases "d = DBool")
  case True
  then have "x = of_bool (x \<noteq> 0)" using assms(1) lane_bool [of x E] by simp
  then show ?thesis using True assms(2) by (cases "x = 0"; cases "y = 0") (auto simp: bool2_def)
next
  case False
  then show ?thesis using assms by (cases d) (auto simp: bits2_def no_float_def xor.assoc)
qed

lemma xor_sem: "op_sem E SIMDXOr ty as = lanewise E (bits2 (xor)) no_float (bool2 (\<noteq>)) as"
  by (simp add: op_sem_def lane_op_def)

lemma xor_zero_refines:
  assumes "eval E \<rho> lhs = Some (SimdA d xs)" "eval E \<rho> rhs = Some (SimdA d ys)" "length ys = length xs"
    and "list_all (\<lambda>x. x < 2 ^ lane_width E d) xs" "list_all (\<lambda>y. y = 0) ys"
  shows "refines (eval E \<rho> (Result n SIMDXOr ty [lhs, rhs])) (Some (SimdA d xs))"
proof (cases "\<forall>i < length xs. lane_fn E (bits2 (xor)) no_float (bool2 (\<noteq>)) d [xs ! i, 0] = Some (xs ! i)")
  case True
  have "ys ! i = 0" if "i < length xs" for i using assms(3,5) that by (simp add: list_all_length)
  then have "lanewise E (bits2 (xor)) no_float (bool2 (\<noteq>)) [SimdA d xs, SimdA d ys] = Some (SimdA d xs)"
    using True assms(3) by (intro lanewise2_eqI) auto
  then show ?thesis using assms(1,2) by (simp add: xor_sem)
next
  case False
  then obtain i where i: "i < length xs" "lane_fn E (bits2 (xor)) no_float (bool2 (\<noteq>)) d [xs ! i, 0] = None"
    using xor_lane_zero [of _ E d] assms(4) by (fastforce simp: list_all_length)
  have "ys ! i = 0" using assms(3,5) i(1) by (simp add: list_all_length)
  then have "those (map2 (\<lambda>x y. lane_fn E (bits2 (xor)) no_float (bool2 (\<noteq>)) d [x, y]) xs ys) = None"
    using i assms(3) by (cases "those (map2 (\<lambda>x y. lane_fn E (bits2 (xor)) no_float (bool2 (\<noteq>)) d [x, y]) xs ys)")
      (auto simp: those_eq_Some list_eq_iff_nth_eq)
  then show ?thesis using assms(1-3) by (simp add: xor_sem lanewise2)
qed

lemma xor_twice_value:
  assumes o: "simd_operand E \<rho> ty lhs" "simd_operand E \<rho> ty rhs" and lhs: "lhs = Result m SIMDXOr ty' [x, rhs]"
  shows "eval E \<rho> x = eval E \<rho> (Result n SIMDXOr ty [lhs, rhs])"
proof -
  let ?f = "lane_fn E (bits2 (xor)) no_float (bool2 (\<noteq>))"
  from o obtain d zs ys where t: "eval E \<rho> lhs = Some (SimdA d zs)" "eval E \<rho> rhs = Some (SimdA d ys)"
    "length ys = length zs" by (rule two_operands)
  from t(1,2) obtain a where a: "eval E \<rho> x = Some a"
    "lanewise E (bits2 (xor)) no_float (bool2 (\<noteq>)) [a, SimdA d ys] = Some (SimdA d zs)"
    by (auto simp: lhs xor_sem split: option.splits)
  from a(2) obtain xs where xs: "a = SimdA d xs" "length ys = length xs" by (rule lanewise2_Some)
  have z: "?f d [xs ! i, ys ! i] = Some (zs ! i)" if "i < length xs" for i
    using a(2) xs that by (auto simp: lanewise2 those_eq_Some list_eq_iff_nth_eq)
  have "wf_attr E a" using o(1) a(1) by (auto simp: simd_operand_def lhs intro: wf_value_eval)
  then have "?f d [zs ! i, ys ! i] = Some (xs ! i)" if "i < length xs" for i
    using xs that xor_lane_twice [OF _ z] by (auto simp: list_all_length)
  then have "lanewise E (bits2 (xor)) no_float (bool2 (\<noteq>)) [SimdA d zs, SimdA d ys] = Some (SimdA d xs)"
    using t(3) xs(2) by (intro lanewise2_eqI) auto
  then show ?thesis using a(1) xs(1) t by (simp add: xor_sem)
qed

section \<open>Division by powers of two\<close>

lemma isPowerOf2_pow: "isPowerOf2 n \<Longrightarrow> \<exists>k. n = 2 ^ k"
proof (induction n rule: less_induct)
  case (less n)
  then have n: "n \<noteq> 0" "and n (n - 1) = 0" by (simp_all add: isPowerOf2_def)
  show ?case
  proof (cases "even n")
    case True
    then obtain m where m: "n = 2 * m" by blast
    have "and m (m - 1) = 0"
    proof -
      have "n - 1 = 2 * (m - 1) + 1" using n(1) m by simp
      then have "and n (n - 1) div 2 = and m (m - 1)" by (simp add: m and_rec [of "2 * m"])
      then show ?thesis using n(2) by simp
    qed
    then have "isPowerOf2 m" "m < n" using n(1) m by (simp_all add: isPowerOf2_def)
    then obtain k where "m = 2 ^ k" using less.IH by blast
    then have "n = 2 ^ Suc k" using m by simp
    then show ?thesis by blast
  next
    case False
    then obtain m where m: "n = 2 * m + 1" by (blast elim: oddE)
    then have "and n (n - 1) = 2 * and m m" by (simp add: and_rec [of "Suc (2 * m)"])
    then have "n = 2 ^ 0" using n(2) m by simp
    then show ?thesis by blast
  qed
qed

lemma logBase2_pow: "logBase2 (2 ^ k) = k"
proof (induction k)
  case (Suc k)
  have "\<not> (2::nat) ^ Suc k \<le> 1" using one_less_power [of "2::nat" "Suc k"] by simp
  then show ?case using Suc by (subst logBase2.simps) simp
qed (simp add: logBase2.simps)

lemma div_lane_shift:
  assumes y: "strictlyPositivePowerOf2 storage y" "y < 2 ^ w" and x: "x < 2 ^ w"
  shows "shr_int w False [x, logBase2 y mod 2 ^ w] = div_int w False [x, y]"
proof -
  obtain k where k: "y = 2 ^ k" using y(1) isPowerOf2_pow by (auto simp: strictlyPositivePowerOf2_def)
  have "k < w" using y(2) by (simp add: k)
  then have kw: "logBase2 y mod 2 ^ w = k" by (simp add: k logBase2_pow less_trans)
  have "int x sdiv int y = int x div 2 ^ k" by (cases "x = 0") (simp_all add: signed_divide_int_def k)
  then show ?thesis using \<open>k < w\<close> by (simp add: kw [unfolded k] shr_int_def div_int_def int2_def ap_int_def k)
qed

text \<open>
  C21. Replacing a division by a shift is an equivalence: where the rewrite applies, the shift has in
  every lane the quotient the division had, for every unsigned integer width and for an unsigned index.
\<close>
theorem div_to_shift_equivalent:
  assumes c: "DivOp_canonicalize E ty lhs rhs = Some (op, vs)"
    and o: "simd_operand E \<rho> ty lhs" "simd_operand E \<rho> ty rhs"
  shows "eval E \<rho> (Result n op ty vs) = eval E \<rho> (Result n Div ty [lhs, rhs])"
proof -
  from o obtain d xs ys where t: "ty = PSimd (Some d) (Some (length xs))"
    "eval E \<rho> lhs = Some (SimdA d xs)" "eval E \<rho> rhs = Some (SimdA d ys)" "length ys = length xs"
    "list_all (\<lambda>x. x < 2 ^ lane_width E d) xs" "list_all (\<lambda>x. x < 2 ^ lane_width E d) ys"
    by (rule two_operands)
  from c t(1) obtain w st d' ys' where u: "unsignedWidths E d = Some (w, st)" "const_of rhs = Some (SimdA d' ys')"
    "list_all (strictlyPositivePowerOf2 st) ys'"
    "op = Shr" "vs = [lhs, Constant (SimdA d (map (\<lambda>i. logBase2 (ys' ! i) mod 2 ^ w) [0..<length xs]))]"
    by (auto simp: DivOp_canonicalize_def split: option.splits pop_attr.splits if_splits prod.splits bind_splits)
  have y: "ys' = ys" using u(2) t(3) by (simp add: const_of_Some)
  have w: "lane_width E d = w" "lane_fn E fi ff fb d l = fi w False l" for fi ff fb l
    using u(1) by (auto simp: unsignedWidths_def split: kgen_dtype.splits if_splits)
  let ?ks = "map (\<lambda>i. logBase2 (ys ! i) mod 2 ^ w) [0..<length xs]"
  have "map2 (\<lambda>x y. shr_int w False [x, y]) xs ?ks = map2 (\<lambda>x y. div_int w False [x, y]) xs ys"
  proof (rule nth_equalityI)
    fix i assume "i < length (map2 (\<lambda>x y. shr_int w False [x, y]) xs ?ks)"
    then have i: "i < length xs" by simp
    have "strictlyPositivePowerOf2 st (ys ! i)" "ys ! i < 2 ^ w" "xs ! i < 2 ^ w"
      using u(3) t(4-6) i by (simp_all add: y w list_all_length)
    then show "map2 (\<lambda>x y. shr_int w False [x, y]) xs ?ks ! i = map2 (\<lambda>x y. div_int w False [x, y]) xs ys ! i"
      using i t(4) by (simp add: div_lane_shift)
  qed (simp add: t(4))
  then show ?thesis
    using t(2-4) by (simp add: u(4,5) y op_sem_def lane_op_def lanewise2 w)
qed

section \<open>All folders of lane operations\<close>

text \<open>The folder of each operation, for the operands it is declared with.\<close>

definition fold_lane_op :: "pop_env \<Rightarrow> pop_op \<Rightarrow> pop_type \<Rightarrow> pop_value list \<Rightarrow> fold_result option" where
  "fold_lane_op E op ty vs =
     (case op of
        Neg \<Rightarrow> NegOp_fold E vs
      | Floor \<Rightarrow> FloorOp_fold E vs
      | Ceil \<Rightarrow> CeilOp_fold E vs
      | Trunc \<Rightarrow> TruncOp_fold E vs
      | Rem \<Rightarrow> RemOp_fold E vs
      | FMA \<Rightarrow> FMAOp_fold E vs
      | SIMDAnd \<Rightarrow> SIMDAndOp_fold E vs
      | SIMDOr \<Rightarrow> SIMDOrOp_fold E vs
      | _ \<Rightarrow>
          (case vs of
             [lhs, rhs] \<Rightarrow>
               (case op of
                  Add \<Rightarrow> AddOp_fold E ty lhs rhs
                | Sub \<Rightarrow> SubOp_fold E ty lhs rhs
                | Mul \<Rightarrow> MulOp_fold E ty lhs rhs
                | Max \<Rightarrow> MaxOp_fold E lhs rhs
                | Min \<Rightarrow> MinOp_fold E lhs rhs
                | SIMDXOr \<Rightarrow> SIMDXOrOp_fold E ty lhs rhs
                | _ \<Rightarrow> None)
           | _ \<Rightarrow> None))"

lemma simple_fold_sound:
  assumes law: "folds_lanewise E" and f: "foldAttr (pe_foldSIMDOp E fi ff fb (map const_of vs)) = Some r"
    and op: "is_lane_op op" "lane_sem E op = (fi', ff, fb)"
    and agree: "\<And>w s xs. list_all (\<lambda>x. x < 2 ^ w) xs \<Longrightarrow> fi w s xs = fi' w s xs"
    and o: "list_all (simd_operand E \<rho> ty) vs"
  shows "eval E \<rho> (Result n op ty vs) = eval_fold E \<rho> r"
proof -
  from f obtain a where a: "pe_foldSIMDOp E fi ff fb (map const_of vs) = Some a" "r = FoldAttr a"
    by (auto simp: foldAttr_def)
  have "list_all (wf_value E \<rho>) vs" using o by (auto simp: list_all_iff simd_operand_def)
  from foldSIMDOp_sound [OF law a(1) op agree this] a(2) show ?thesis by simp
qed

text \<open>
  A maximum or minimum of two equal floating point operands is folded to the operand.  For a number that
  is its value; of a signalling NaN the operation may make a quiet one, so this fold is left out.
\<close>

definition keeps_float_operand :: "pop_env \<Rightarrow> (nat \<Rightarrow> pop_attr) \<Rightarrow> pop_op \<Rightarrow> pop_value list \<Rightarrow> fold_result \<Rightarrow> bool" where
  "keeps_float_operand E \<rho> op vs r \<longleftrightarrow>
     (op = Max \<or> op = Min) \<and> (\<exists>v f xs. vs = [v, v] \<and> r = FoldValue v \<and> eval E \<rho> v = Some (SimdA (DFloat f) xs))"

lemma minmax_fold_sound:
  assumes law: "folds_lanewise E" and nf: "\<not> keeps_float_operand E \<rho> op [lhs, rhs] r" and op: "op = Max \<or> op = Min"
    and f: "(case op of Max \<Rightarrow> MaxOp_fold E lhs rhs | _ \<Rightarrow> MinOp_fold E lhs rhs) = Some r"
    and o: "simd_operand E \<rho> ty lhs" "simd_operand E \<rho> ty rhs"
  shows "refines (eval E \<rho> (Result n op ty [lhs, rhs])) (eval_fold E \<rho> r)"
proof -
  have wf: "list_all (wf_value E \<rho>) [lhs, rhs]" using o by (simp add: simd_operand_def)
  from f op consider a where "r = FoldAttr a"
      "op = Max \<and> pe_foldSIMDOp E apMax (flt E ''maxnum'') (bool2 (\<or>)) (map const_of [lhs, rhs]) = Some a \<or>
       op = Min \<and> pe_foldSIMDOp E apMin (flt E ''minnum'') (bool2 (\<and>)) (map const_of [lhs, rhs]) = Some a"
    | "lhs = rhs" "r = FoldValue lhs"
    by (auto simp: MaxOp_fold_def MinOp_fold_def split: option.splits if_splits)
  then show ?thesis
  proof cases
    case 1
    then have "eval E \<rho> (Result n op ty [lhs, rhs]) = Some a"
      using foldSIMDOp_sound [OF law _ _ _ apMax_int wf, where op = Max]
        foldSIMDOp_sound [OF law _ _ _ apMin_int wf, where op = Min] by auto
    with 1 show ?thesis by simp
  next
    case 2
    have "\<nexists>f xs. eval E \<rho> lhs = Some (SimdA (DFloat f) xs)" using 2 nf op by (auto simp: keeps_float_operand_def)
    from minmax_same [OF this op o(1)] 2 show ?thesis by simp
  qed
qed

lemma SIMDXOrOp_fold_sound:
  assumes law: "folds_lanewise E" and f: "SIMDXOrOp_fold E ty lhs rhs = Some r"
    and o: "simd_operand E \<rho> ty lhs" "simd_operand E \<rho> ty rhs"
  shows "refines (eval E \<rho> (Result n SIMDXOr ty [lhs, rhs])) (eval_fold E \<rho> r)"
proof (cases "pe_foldSIMDOp E (bits2 (xor)) no_float (bool2 (\<noteq>)) [const_of lhs, const_of rhs]")
  case (Some a)
  then have "eval E \<rho> (Result n SIMDXOr ty [lhs, rhs]) = Some a"
    by (intro foldSIMDOp_sound [OF law, where fi = "bits2 (xor)" and vs = "[lhs, rhs]" and ff = no_float
          and fb = "bool2 (\<noteq>)" and fi' = "bits2 (xor)"])
      (use o in \<open>simp_all add: simd_operand_def\<close>)
  with Some f show ?thesis by (auto simp: SIMDXOrOp_fold_def)
next
  case None
  from o obtain d xs ys where t: "eval E \<rho> lhs = Some (SimdA d xs)" "eval E \<rho> rhs = Some (SimdA d ys)"
    "length ys = length xs" "list_all (\<lambda>x. x < 2 ^ lane_width E d) xs" by (rule two_operands)
  from f None obtain d' ys' where c: "const_of rhs = Some (SimdA d' ys')"
    by (auto simp: SIMDXOrOp_fold_def split: option.splits pop_attr.splits)
  then have y: "ys' = ys" using t(2) by (simp add: const_of_Some)
  show ?thesis
  proof (cases "list_all (\<lambda>y. y = 0) ys")
    case True
    then have "eval_fold E \<rho> r = Some (SimdA d xs)"
      using f None c y t(1) by (auto simp: SIMDXOrOp_fold_def const_of_Some split: option.splits)
    then show ?thesis using xor_zero_refines [OF t True] by simp
  next
    case False
    then obtain m ty' x where "lhs = Result m SIMDXOr ty' [x, rhs]" "r = FoldValue x"
      using f None c y
      by (auto simp: SIMDXOrOp_fold_def split: if_splits pop_value.splits pop_op.splits list.splits)
    then show ?thesis using xor_twice_value [OF o, of m ty' x n] by simp
  qed
qed

lemma RemOp_fold_sound:
  assumes "folds_lanewise E" "RemOp_fold E vs = Some r" "list_all (simd_operand E \<rho> ty) vs"
  shows "eval E \<rho> (Result n Rem ty vs) = eval_fold E \<rho> r"
proof -
  from assms(2) have "foldAttr (pe_foldSIMDOp E apRem (rem_float E) no_bool (map const_of vs)) = Some r"
    by (auto simp: RemOp_fold_def foldRemOp_def split: if_splits)
  from simple_fold_sound [OF assms(1) this _ _ apRem_int assms(3), of Rem n] show ?thesis by simp
qed

text \<open>
  C14. Folding arithmetic is sound: for operands that are vectors of the type of the operation, whatever
  a folder of an arithmetic or bitwise operation returns, a constant or one of the operands, has the
  value of the operation, in every lane and for every width, with the wrap-around and the signedness
  of the data type; where the operation has no value, such as a remainder by zero, anything may stand
  for it.  Left out is the one fold that keeps a floating point operand of a maximum or minimum with
  itself, whose value for a NaN the operation may change.
\<close>
theorem lane_folders_sound:
  assumes law: "folds_lanewise E"
    and f: "fold_lane_op E op ty vs = Some r" and o: "list_all (simd_operand E \<rho> ty) vs"
    and nf: "\<not> keeps_float_operand E \<rho> op vs r"
  shows "refines (eval E \<rho> (Result n op ty vs)) (eval_fold E \<rho> r)"
proof -
  have binary: ?thesis if vs: "vs = [lhs, rhs]" and op: "op \<in> {Add, Sub, Mul, Max, Min, SIMDXOr}" for lhs rhs
  proof -
    have o2: "simd_operand E \<rho> ty lhs" "simd_operand E \<rho> ty rhs" using o vs by simp_all
    from op f show ?thesis
      using AddOp_fold_sound [OF law _ o2, of r n] SubOp_fold_sound [OF law _ o2, of r n]
        MulOp_fold_sound [OF law _ o2, of r n] minmax_fold_sound [OF law _ _ _ o2, of op r n] nf
        SIMDXOrOp_fold_sound [OF law _ o2, of r n]
      by (elim insertE emptyE) (simp_all add: fold_lane_op_def vs)
  qed
  consider "op \<in> {Neg, Floor, Ceil, Trunc, Rem, FMA, SIMDAnd, SIMDOr}"
    | lhs rhs where "vs = [lhs, rhs]" "op \<in> {Add, Sub, Mul, Max, Min, SIMDXOr}"
    using f by (cases op) (auto simp: fold_lane_op_def split: list.splits)
  then show ?thesis
  proof cases
    case 1
    then have "eval E \<rho> (Result n op ty vs) = eval_fold E \<rho> r"
    proof (elim insertE emptyE)
      assume op: "op = Neg"
      then show ?thesis using f simple_fold_sound [OF law _ _ _ apNeg_int o, where op = Neg]
        by (simp add: fold_lane_op_def NegOp_fold_def)
    next
      assume op: "op = Floor"
      then show ?thesis using f simple_fold_sound [OF law _ _ _ apSame_int o, where op = Floor]
        by (simp add: fold_lane_op_def FloorOp_fold_def)
    next
      assume op: "op = Ceil"
      then show ?thesis using f simple_fold_sound [OF law _ _ _ apSame_int o, where op = Ceil]
        by (simp add: fold_lane_op_def CeilOp_fold_def)
    next
      assume op: "op = Trunc"
      then show ?thesis using f simple_fold_sound [OF law _ _ _ apSame_int o, where op = Trunc]
        by (simp add: fold_lane_op_def TruncOp_fold_def)
    next
      assume "op = Rem"
      then show ?thesis using f RemOp_fold_sound [OF law _ o] by (simp add: fold_lane_op_def)
    next
      assume op: "op = FMA"
      then show ?thesis using f simple_fold_sound [OF law _ _ _ apFMA_int o, where op = FMA]
        by (simp add: fold_lane_op_def FMAOp_fold_def)
    next
      assume op: "op = SIMDAnd"
      then show ?thesis using f simple_fold_sound [OF law _ _ _ refl o, where op = SIMDAnd and fi = "bits2 (and)"]
        by (simp add: fold_lane_op_def SIMDAndOp_fold_def)
    next
      assume op: "op = SIMDOr"
      then show ?thesis using f simple_fold_sound [OF law _ _ _ refl o, where op = SIMDOr and fi = "bits2 (or)"]
        by (simp add: fold_lane_op_def SIMDOrOp_fold_def)
    qed
    then show ?thesis by simp
  qed (rule binary)
qed

text \<open>The booleans of the dialect.\<close>

definition fold_bool_op :: "pop_op \<Rightarrow> pop_value \<Rightarrow> pop_value \<Rightarrow> fold_result option" where
  "fold_bool_op op lhs rhs =
     (case op of AndB \<Rightarrow> AndOp_fold lhs rhs | OrB \<Rightarrow> OrOp_fold lhs rhs | XOrB \<Rightarrow> XOrOp_fold lhs rhs | _ \<Rightarrow> None)"

lemma boolAttr_Some: "boolAttr a = Some b \<longleftrightarrow> a = Some (BoolA b)"
  by (cases a rule: boolAttr.cases) auto

lemma bool_op_Some: "bool_op f as = Some r \<Longrightarrow> \<exists>a b. as = [BoolA a, BoolA b] \<and> r = BoolA (f a b)"
  by (cases "(f, as)" rule: bool_op.cases) auto

lemma bool_folders_sound:
  assumes f: "fold_bool_op op lhs rhs = Some r"
    and v: "eval E \<rho> lhs = Some (BoolA a)" "eval E \<rho> rhs = Some (BoolA b)"
  shows "eval_fold E \<rho> r = eval E \<rho> (Result n op ty [lhs, rhs])"
proof -
  consider "op = AndB" | "op = OrB" | "op = XOrB" using f by (cases op) (auto simp: fold_bool_op_def)
  then show ?thesis
  proof cases
    case 3
    have sem: "eval E \<rho> (Result n op ty [lhs, rhs]) = Some (BoolA (a \<noteq> b))" using v 3 by (simp add: pop_sem)
    show ?thesis
    proof (cases "boolAttr (const_of lhs) = None \<and> boolAttr (const_of rhs) = Some True")
      case False
      then show ?thesis using f v sem 3
        by (auto simp: fold_bool_op_def XOrOp_fold_def boolAttr_Some const_of_Some split: option.splits if_splits)
    next
      case True
      then obtain m ty' x y where x: "lhs = Result m XOrB ty' [x, y]" "y = Constant (BoolA True)" "r = FoldValue x"
        using f 3 by (auto simp: fold_bool_op_def XOrOp_fold_def boolAttr_Some const_of_Some
            split: pop_value.splits pop_op.splits list.splits if_splits)
      then obtain c where "eval E \<rho> x = Some (BoolA c)" "a = (c \<noteq> True)"
        using v(1) by (auto simp: pop_sem split: option.splits dest!: bool_op_Some)
      moreover have "b" using True v(2) by (simp add: boolAttr_Some const_of_Some)
      ultimately show ?thesis unfolding sem x(3) by simp
    qed
  qed (use f v in \<open>auto simp: fold_bool_op_def AndOp_fold_def OrOp_fold_def boolAttr_Some const_of_Some pop_sem
      split: option.splits if_splits\<close>)
qed

section \<open>An instance\<close>

text \<open>Folding exactly the constants, with an arithmetic of floats that returns the first operand.\<close>

definition plain_pop :: pop_env where
  "plain_pop = \<lparr>pe_floatWidth = (\<lambda>_. 32), pe_indexWidth = 64, pe_hasTarget = True, pe_uintIndex = False,
     pe_sintIndex = (\<lambda>d. d = DIndex), pe_semanticsBits = (\<lambda>_. 32),
     pe_float = (\<lambda>_ _ xs. hd xs), pe_floatIsZero = (\<lambda>_ x. x = 0), pe_convert = (\<lambda>_ _ x. x),
     pe_allocSize = (\<lambda>_. Some 8), pe_globalAddr = (\<lambda>_. 4096), pe_foldSIMDOp = (\<lambda>_ _ _ _. None)\<rparr>"

definition sample_pop :: pop_env where
  "sample_pop = plain_pop\<lparr>pe_foldSIMDOp := (\<lambda>fi ff fb ads. Option.bind (those ads) (lanewise plain_pop fi ff fb))\<rparr>"

lemma lane_fn_env: "pe_indexWidth E = pe_indexWidth E' \<Longrightarrow> lane_fn E fi ff fb d = lane_fn E' fi ff fb d"
  by (rule ext) (cases d; simp)

lemma sample_folds: "folds_lanewise sample_pop"
proof -
  have i: "pe_indexWidth plain_pop = pe_indexWidth sample_pop" by (simp add: sample_pop_def plain_pop_def)
  have "lanewise plain_pop fi ff fb as = lanewise sample_pop fi ff fb as" for fi ff fb as
    unfolding lanewise_def lane_fn_env [OF i] by (rule refl)
  then show ?thesis
    by (auto simp: folds_lanewise_def sample_pop_def those_eq_Some Option.bind_eq_Some_conv)
qed

theorem lane_folders_sound_witness:
  "refines (eval sample_pop (\<lambda>_. SimdA (DInt 8 False) [250, 3])
      (Result 1 Add (PSimd (Some (DInt 8 False)) (Some 2))
        [Arg 0 (PSimd (Some (DInt 8 False)) (Some 2)), Constant (SimdA (DInt 8 False) [0, 0])]))
    (Some (SimdA (DInt 8 False) [250, 3]))"
proof -
  let ?ty = "PSimd (Some (DInt 8 False)) (Some 2)"
  let ?vs = "[Arg 0 ?ty, Constant (SimdA (DInt 8 False) [0, 0])]"
  have "fold_lane_op sample_pop Add ?ty ?vs = Some (FoldValue (Arg 0 ?ty))"
    by (simp add: fold_lane_op_def AddOp_fold_def sample_pop_def hasIntLikeType_def isIntLike_def isIntZero_def
        getIntVal_def)
  moreover have "list_all (simd_operand sample_pop (\<lambda>_. SimdA (DInt 8 False) [250, 3]) ?ty) ?vs"
    by (simp add: simd_operand_def)
  ultimately show ?thesis
    using lane_folders_sound [OF sample_folds, of Add ?ty ?vs] by (fastforce simp: keeps_float_operand_def)
qed

theorem div_to_shift_equivalent_witness:
  "eval sample_pop (\<lambda>_. SimdA (DInt 8 False) [250])
      (Result 1 Shr (PSimd (Some (DInt 8 False)) (Some 1))
        [Arg 0 (PSimd (Some (DInt 8 False)) (Some 1)), Constant (SimdA (DInt 8 False) [logBase2 4 mod 2 ^ 8])]) =
   eval sample_pop (\<lambda>_. SimdA (DInt 8 False) [250])
      (Result 1 Div (PSimd (Some (DInt 8 False)) (Some 1))
        [Arg 0 (PSimd (Some (DInt 8 False)) (Some 1)), Constant (SimdA (DInt 8 False) [4])])"
proof -
  let ?ty = "PSimd (Some (DInt 8 False)) (Some 1)"
  let ?r = "Constant (SimdA (DInt 8 False) [4])"
  have "and (4::nat) 3 = 0" by code_simp
  then have "DivOp_canonicalize sample_pop ?ty (Arg 0 ?ty) ?r =
      Some (Shr, [Arg 0 ?ty, Constant (SimdA (DInt 8 False) [logBase2 4 mod 2 ^ 8])])"
    by (simp add: DivOp_canonicalize_def unsignedWidths_def strictlyPositivePowerOf2_def isPowerOf2_def)
  then show ?thesis by (rule div_to_shift_equivalent) (simp_all add: simd_operand_def)
qed

end
