(* ===== verification/Pop_Casts.thy ===== *)
theory Pop_Casts
  imports Pop_Arith
begin

text \<open>
  Casts and bit casts of vectors and of pointers
  (\<^verbatim>\<open>Mojo/lib/POPDialect/POPOpsFolders.cpp\<close>, lines 748 to 1140).
\<close>

unbundle bit_operations_syntax

section \<open>Chains of casts\<close>

text \<open>\<^verbatim>\<open>getWidthInBits\<close>: an index has the width of the target, if there is one.\<close>

fun castWidth :: "pop_env \<Rightarrow> kgen_dtype \<Rightarrow> nat option" where
  "castWidth E (DInt w _) = Some w"
| "castWidth E (DFloat f) = Some (pe_floatWidth E f)"
| "castWidth E DIndex = (if pe_hasTarget E then Some (pe_indexWidth E) else None)"
| "castWidth E DUIndex = (if pe_hasTarget E then Some (pe_indexWidth E) else None)"
| "castWidth E _ = None"

text \<open>\<^verbatim>\<open>isSInt\<close> of a data type; what it says of an index is outside the repository.\<close>

definition castSigned :: "pop_env \<Rightarrow> kgen_dtype \<Rightarrow> bool" where
  "castSigned E d = (if isIndexLike d then pe_sintIndex E d else isSInt d)"

definition isSupportedCast :: "kgen_dtype \<Rightarrow> bool" where
  "isSupportedCast d \<longleftrightarrow> isIntLike d \<or> isFloat d"

text \<open>Whether the first cast of a chain may be left out.\<close>

definition castChainFolds :: "pop_env \<Rightarrow> bool \<Rightarrow> kgen_dtype \<Rightarrow> kgen_dtype \<Rightarrow> kgen_dtype \<Rightarrow> bool" where
  "castChainFolds E fast inT midT outT =
     (isSupportedCast inT \<and> isSupportedCast midT \<and> isSupportedCast outT \<and>
      isIntLike midT = isIntLike inT \<and> isIntLike midT = isIntLike outT \<and>
      (case (castWidth E inT, castWidth E midT, castWidth E outT) of
         (Some inW, Some midW, Some outW) \<Rightarrow>
           if outW < midW then
             \<not> (isIntLike inT \<and> outW > inW \<or> \<not> isIntLike inT \<and> midW \<le> inW \<and> \<not> fast)
           else if outW > midW then
             \<not> (isIntLike midT \<and> castSigned E midT \<noteq> castSigned E outT) \<and>
             \<not> (midW \<le> inW \<or> castSigned E inT \<and> \<not> castSigned E midT)
           else
             \<not> midW < inW \<and>
             \<not> (isInt midT \<and> \<not> isIndexLike outT \<and> castSigned E midT \<noteq> castSigned E outT)
       | _ \<Rightarrow> False))"

text \<open>The rewrite: the operand the cast gets instead of the intermediate cast.\<close>

definition CastOp_canonicalize ::
  "pop_env \<Rightarrow> bool \<Rightarrow> (pop_value \<Rightarrow> bool) \<Rightarrow> pop_type \<Rightarrow> pop_value \<Rightarrow> pop_value option" where
  "CastOp_canonicalize E fast hasOneUse ty v =
     (case v of
        Result _ op midTy [x] \<Rightarrow>
          if op \<noteq> Cast \<or> \<not> hasOneUse v then None
          else (case (resolvedDType (value_type x), resolvedDType midTy, resolvedDType ty) of
                  (Some inT, Some midT, Some outT) \<Rightarrow>
                    if castChainFolds E fast inT midT outT then Some x else None
                | _ \<Rightarrow> None)
      | _ \<Rightarrow> None)"

definition castOpfoldHelper ::
  "(pop_attr \<Rightarrow> pop_type \<Rightarrow> pop_type \<Rightarrow> pop_type \<Rightarrow> fold_result option) \<Rightarrow> pop_value \<Rightarrow> pop_attr option \<Rightarrow>
   pop_type \<Rightarrow> pop_type \<Rightarrow> pop_type \<Rightarrow> fold_result option" where
  "castOpfoldHelper foldCast input operand resultType inputType outputType =
     (case (operand, resolvedDType resultType) of
        (Some (SimdA d ls), Some _) \<Rightarrow> foldCast (SimdA d ls) resultType inputType outputType
      | _ \<Rightarrow> if inputType = outputType then Some (FoldValue input) else None)"

definition CastOp_fold ::
  "(pop_attr \<Rightarrow> pop_type \<Rightarrow> pop_type \<Rightarrow> pop_type \<Rightarrow> fold_result option) \<Rightarrow> pop_type \<Rightarrow> pop_value \<Rightarrow> fold_result option" where
  "CastOp_fold foldCast ty v = castOpfoldHelper foldCast v (const_of v) ty (value_type v) ty"

text \<open>\<^verbatim>\<open>validateSIMDConstruction\<close>: why a vector of this type cannot be made.\<close>

definition validateSIMD :: "nat \<Rightarrow> kgen_dtype \<Rightarrow> string option" where
  "validateSIMD n d =
     (if d = DInvalid then Some ''simd type cannot be DType.invalid''
      else if \<not> isPowerOf2 n then Some ''simd width must be a power of 2''
      else if n > 2 ^ 15 then Some ''simd size must be less than 2^15''
      else None)"

definition validateSIMDConstruction :: "pop_type \<Rightarrow> string option" where
  "validateSIMDConstruction ty =
     (case resolvedSize ty of
        None \<Rightarrow> Some ''simd size must be known''
      | Some n \<Rightarrow> (case resolvedDType ty of
                     None \<Rightarrow> Some ''simd DType must be known''
                   | Some d \<Rightarrow> validateSIMD n d))"

text \<open>
  Interpreting a cast; \<open>rebind\<close> replaces parameters in types.  A fold to an operand of the operation has
  no attribute, and the cast of the result to one fails.
\<close>

definition CastOp_parametric_interpret ::
  "(pop_attr \<Rightarrow> pop_type \<Rightarrow> pop_type \<Rightarrow> pop_type \<Rightarrow> fold_result option) \<Rightarrow> (pop_type \<Rightarrow> pop_type) \<Rightarrow> pop_type \<Rightarrow>
   pop_value \<Rightarrow> pop_attr \<Rightarrow> pop_attr error_or option" where
  "CastOp_parametric_interpret foldCast rebind ty input operand =
     (case castOpfoldHelper foldCast input (Some operand) (rebind ty) (rebind (attr_type operand)) (rebind ty) of
        Some (FoldAttr a) \<Rightarrow> Some (Inr a)
      | Some (FoldValue v) \<Rightarrow> None
      | None \<Rightarrow> Some (Inl (case validateSIMDConstruction (rebind ty) of
                            Some e \<Rightarrow> e | None \<Rightarrow> ''failed to interpret POP::CastOp'')))"

definition CastOp_interpret ::
  "(pop_attr \<Rightarrow> pop_type \<Rightarrow> pop_type \<Rightarrow> pop_type \<Rightarrow> fold_result option) \<Rightarrow> pop_type \<Rightarrow>
   pop_value \<Rightarrow> pop_attr \<Rightarrow> pop_attr error_or option" where
  "CastOp_interpret foldCast ty input operand =
     (case castOpfoldHelper foldCast input (Some operand) ty (attr_type operand) ty of
        Some (FoldAttr a) \<Rightarrow> Some (Inr a)
      | Some (FoldValue v) \<Rightarrow> None
      | None \<Rightarrow> Some (Inl (case validateSIMDConstruction ty of
                            Some e \<Rightarrow> e | None \<Rightarrow> ''failed to interpret POP::CastOp'')))"

section \<open>Bit casts of vectors\<close>

fun bitWidth :: "pop_env \<Rightarrow> kgen_dtype \<Rightarrow> nat option" where
  "bitWidth E DBool = Some 1"
| "bitWidth E (DInt w _) = Some w"
| "bitWidth E (DFloat f) = Some (pe_floatWidth E f)"
| "bitWidth E _ = None"

definition addValue :: "pop_env \<Rightarrow> kgen_dtype \<Rightarrow> nat \<Rightarrow> nat" where
  "addValue E d x =
     (case d of
        DBool \<Rightarrow> of_bool (x \<noteq> 0)
      | DFloat f \<Rightarrow> take_bit (pe_semanticsBits E f) x
      | _ \<Rightarrow> x)"

text \<open>Where element \<open>e\<close> of \<open>k\<close> elements of width \<open>w\<close> lies in the wider lane.\<close>

definition laneShift :: "bool \<Rightarrow> nat \<Rightarrow> nat \<Rightarrow> nat \<Rightarrow> nat" where
  "laneShift isLittleEndian w k e = (if isLittleEndian then e * w else (k - 1 - e) * w)"

definition combineLanes :: "bool \<Rightarrow> nat \<Rightarrow> nat \<Rightarrow> nat list \<Rightarrow> nat" where
  "combineLanes le w k xs = fold (\<lambda>e acc. acc OR push_bit (laneShift le w k e) (xs ! e)) [0..<k] 0"

definition splitLane :: "bool \<Rightarrow> nat \<Rightarrow> nat \<Rightarrow> nat \<Rightarrow> nat list" where
  "splitLane le w k v = map (\<lambda>c. take_bit w (drop_bit (laneShift le w k c) v)) [0..<k]"

definition reshape ::
  "pop_env \<Rightarrow> bool \<Rightarrow> kgen_dtype \<Rightarrow> nat list \<Rightarrow> kgen_dtype \<Rightarrow> nat \<Rightarrow> pop_attr option" where
  "reshape E isLittleEndian inT ls outT outSize =
     do {
       outW \<leftarrow> bitWidth E outT;
       inW \<leftarrow> bitWidth E inT;
       if length ls * inW \<noteq> outSize * outW then None
       else if inW < outW then
         let k = outW div inW;
             chunk = (\<lambda>c. map (\<lambda>e. let x = ls ! (c * k + e) in if inT = DBool then take_bit 1 x else x) [0..<k])
         in Some (SimdA outT (map (\<lambda>c. addValue E outT (combineLanes isLittleEndian inW k (chunk c))) [0..<outSize]))
       else
         Some (SimdA outT (concat (map (\<lambda>v. map (addValue E outT) (splitLane isLittleEndian outW (inW div outW) v)) ls)))
     }"

text \<open>
  Bit casts that keep the size: the pattern of each lane stays; for an index as the source the width of
  the target must be known, and an index as the result is zero-extended by \<^verbatim>\<open>foldSIMDOpResult\<close>.
\<close>

definition bitcastSIMDIndex ::
  "(kgen_dtype \<Rightarrow> pop_attr option \<Rightarrow> pop_attr option) \<Rightarrow> bool option \<Rightarrow> kgen_dtype \<Rightarrow> kgen_dtype \<Rightarrow> pop_attr option \<Rightarrow>
   pop_attr option" where
  "bitcastSIMDIndex foldSIMDOpResult target inT outT operand =
     (if (isIndexLike inT \<or> inT = DAddress) \<and> target = None then None else foldSIMDOpResult outT operand)"

definition foldSameSize ::
  "(kgen_dtype \<Rightarrow> pop_attr option \<Rightarrow> pop_attr option) \<Rightarrow> (string \<Rightarrow> bool) \<Rightarrow> bool option \<Rightarrow> kgen_dtype \<Rightarrow> kgen_dtype \<Rightarrow>
   pop_attr option \<Rightarrow> pop_attr option" where
  "foldSameSize foldSIMDOpResult hasSemantics target inT outT operand =
     (if isInt outT then bitcastSIMDIndex foldSIMDOpResult target inT outT operand
      else if isIndexLike outT then foldSIMDOpResult outT operand
      else (case outT of
              DFloat f \<Rightarrow> if hasSemantics f then bitcastSIMDIndex foldSIMDOpResult target inT outT operand else None
            | _ \<Rightarrow> None))"

definition evaluateBitcastOp ::
  "pop_env \<Rightarrow> bool option \<Rightarrow> (kgen_dtype \<Rightarrow> pop_attr option \<Rightarrow> pop_attr option) \<Rightarrow> (string \<Rightarrow> bool) \<Rightarrow>
   pop_type \<Rightarrow> pop_type \<Rightarrow> pop_attr option \<Rightarrow> pop_attr option" where
  "evaluateBitcastOp E target foldSIMDOpResult hasSemantics resultType inputType operand =
     (case (resolvedDType resultType, resolvedDType inputType, resolvedSize inputType, resolvedSize resultType) of
        (Some d, Some inT, Some inSize, Some outSize) \<Rightarrow>
          (case operand of
             Some (SimdA d' ls) \<Rightarrow>
               if inSize \<noteq> outSize \<or> inT = DBool \<or> d = DBool
               then reshape E (case target of Some le \<Rightarrow> le | None \<Rightarrow> True) inT ls d outSize
               else foldSameSize foldSIMDOpResult hasSemantics target inT d operand
           | _ \<Rightarrow>
               if inT = DBool \<or> d = DBool then None
               else foldSameSize foldSIMDOpResult hasSemantics target inT d operand)
      | _ \<Rightarrow> None)"

type_synonym fold_lanes = "kgen_dtype \<Rightarrow> pop_attr option \<Rightarrow> pop_attr option"

definition BitcastOp_fold ::
  "pop_env \<Rightarrow> bool option \<Rightarrow> fold_lanes \<Rightarrow> (string \<Rightarrow> bool) \<Rightarrow> pop_type \<Rightarrow> pop_value \<Rightarrow> pop_attr option" where
  "BitcastOp_fold E target fr hasSemantics ty v =
     evaluateBitcastOp E target fr hasSemantics ty (value_type v) (const_of v)"

definition BitcastOp_interpret ::
  "pop_env \<Rightarrow> bool option \<Rightarrow> fold_lanes \<Rightarrow> (string \<Rightarrow> bool) \<Rightarrow> pop_type \<Rightarrow> pop_type \<Rightarrow> pop_attr \<Rightarrow> pop_attr error_or" where
  "BitcastOp_interpret E target fr hasSemantics ty inputTy a =
     (case evaluateBitcastOp E target fr hasSemantics ty inputTy (Some a) of
        Some r \<Rightarrow> Inr r | None \<Rightarrow> Inl ''failed to interpret bitcast'')"

text \<open>The parametric interpreter takes the type of the input from the attribute.\<close>

definition BitcastOp_parametric_interpret ::
  "pop_env \<Rightarrow> bool option \<Rightarrow> fold_lanes \<Rightarrow> (string \<Rightarrow> bool) \<Rightarrow> (pop_type \<Rightarrow> pop_type) \<Rightarrow> pop_type \<Rightarrow> pop_attr \<Rightarrow>
   pop_attr error_or" where
  "BitcastOp_parametric_interpret E target fr hasSemantics rebind ty a =
     (case evaluateBitcastOp E target fr hasSemantics (rebind ty) (attr_type a) (Some a) of
        Some r \<Rightarrow> Inr r | None \<Rightarrow> Inl ''failed to interpret bitcast'')"

section \<open>Bit casts of pointers\<close>

definition PointerBitcastOp_fold :: "pop_type \<Rightarrow> pop_value \<Rightarrow> fold_result option" where
  "PointerBitcastOp_fold ty v =
     (case const_of v of
        Some (PointerA a _) \<Rightarrow> Some (FoldAttr (PointerA a ty))
      | _ \<Rightarrow>
          (case v of
             Result _ PointerBitcast _ [x] \<Rightarrow> if value_type x = ty then Some (FoldValue x) else None
           | _ \<Rightarrow> None))"

text \<open>The operation that replaces the bit cast, with its operands.\<close>

definition PointerBitcastOp_canonicalize ::
  "(pop_value \<Rightarrow> bool) \<Rightarrow> pop_type \<Rightarrow> pop_value \<Rightarrow> (pop_op \<times> pop_value list) option" where
  "PointerBitcastOp_canonicalize hasOneUse ty v =
     (case v of
        Result _ PointerBitcast _ [x] \<Rightarrow>
          if hasOneUse v then Some (PointerBitcast, [x])
          else (case value_type v of
                  PPtr (PArr _ t) _ \<Rightarrow>
                    if ty = PPtr t 0 then Some (ArrayGEP, [v, Constant (IntegerA 0)]) else None
                | _ \<Rightarrow> None)
      | _ \<Rightarrow>
          (case value_type v of
             PPtr (PArr _ t) _ \<Rightarrow>
               if ty = PPtr t 0 then Some (ArrayGEP, [v, Constant (IntegerA 0)]) else None
           | _ \<Rightarrow> None))"

definition PointerBitcastOp_parametric_interpret ::
  "(pop_type \<Rightarrow> pop_type) \<Rightarrow> pop_type \<Rightarrow> pop_attr \<Rightarrow> pop_attr" where
  "PointerBitcastOp_parametric_interpret rebind ty operand =
     (case operand of PointerA a _ \<Rightarrow> PointerA a (rebind ty) | _ \<Rightarrow> operand)"

section \<open>Chains of casts keep the value\<close>

lemma mod_pow_le: "i mod 2 ^ w = j mod 2 ^ w \<Longrightarrow> v \<le> w \<Longrightarrow> i mod 2 ^ v = j mod (2::int) ^ v"
  by (metis le_imp_power_dvd mod_mod_cancel)

text \<open>A cast to a type that is not wider sees only low bits, which every type in between keeps.\<close>

lemma int_cast_narrow:
  assumes "out \<le> mid"
  shows "int_cast mid ms out (int_cast inw sg mid x) = int_cast inw sg out x"
proof -
  let ?m = "int_cast inw sg mid x"
  have "ap_int mid ms ?m mod 2 ^ mid = int ?m"
    by (rule ap_int_mod) (simp add: int_cast_def ap_wrap_lt)
  then have "ap_int mid ms ?m mod 2 ^ mid = ap_int inw sg x mod 2 ^ mid"
    by (simp add: int_cast_def)
  from mod_pow_le [OF this assms] show ?thesis
    unfolding int_cast_def [of mid ms out] int_cast_def [of inw sg out] by (rule ap_wrap_cong)
qed

text \<open>A cast to a wider type that can represent the value keeps it.\<close>

lemma ap_int_bounds:
  assumes "x < 2 ^ w" "0 < w"
  shows "(if s then - (2 ^ (w - 1)) else 0) \<le> ap_int w s x" "ap_int w s x < (if s then 2 ^ (w - 1) else 2 ^ w)"
proof -
  have x: "int x < 2 ^ w" using assms(1) by (metis of_nat_less_iff of_nat_numeral of_nat_power)
  have w: "(2::int) ^ w = 2 * 2 ^ (w - 1)" using assms(2) by (simp flip: power_Suc)
  have h: "2 ^ (w - 1) \<le> x \<longleftrightarrow> (2::int) ^ (w - 1) \<le> int x"
    by (metis of_nat_le_iff of_nat_numeral of_nat_power)
  show "(if s then - (2 ^ (w - 1)) else 0) \<le> ap_int w s x"
    using x w h unfolding ap_int_def by auto
  show "ap_int w s x < (if s then 2 ^ (w - 1) else 2 ^ w)"
    using x w h unfolding ap_int_def by auto
qed

lemma ap_int_wrap:
  assumes "0 < w" "(if s then - (2 ^ (w - 1)) else 0) \<le> i" "i < (if s then 2 ^ (w - 1) else 2 ^ w)"
  shows "ap_int w s (ap_wrap w i) = i"
proof -
  have w: "(2::int) ^ w = 2 * 2 ^ (w - 1)" using assms(1) by (simp flip: power_Suc)
  have h: "2 ^ (w - 1) \<le> ap_wrap w i \<longleftrightarrow> (2::int) ^ (w - 1) \<le> i mod 2 ^ w"
    by (metis int_ap_wrap of_nat_le_iff of_nat_numeral of_nat_power)
  show ?thesis
  proof (cases "0 \<le> i")
    case True
    then have "i mod 2 ^ w = i" using assms(3) w by (intro mod_pos_pos_trivial) (auto split: if_splits)
    then show ?thesis using assms True h unfolding ap_int_def by (auto split: if_splits)
  next
    case False
    then have s: s using assms(2) by (auto split: if_splits)
    have "i mod 2 ^ w = (i + 2 ^ w) mod 2 ^ w" by simp
    also have "\<dots> = i + 2 ^ w" using False s assms(2) w by (intro mod_pos_pos_trivial) auto
    finally show ?thesis using s assms(2) w h unfolding ap_int_def by auto
  qed
qed

lemma ap_int_widen:
  assumes x: "x < 2 ^ inw" "0 < inw" and w: "inw < mid" and s: "sg \<longrightarrow> ms"
  shows "ap_int mid ms (int_cast inw sg mid x) = ap_int inw sg x"
proof -
  have m: "(2::int) ^ inw \<le> 2 ^ (mid - 1)" "(2::int) ^ (inw - 1) \<le> 2 ^ (mid - 1)" "(2::int) ^ inw \<le> 2 ^ mid"
    using w by (simp_all add: power_increasing)
  have p: "(0::int) < 2 ^ (mid - 1)" by simp
  note b = ap_int_bounds [OF x, of sg]
  from b m p have "(if ms then - (2 ^ (mid - 1)) else 0) \<le> ap_int inw sg x"
    using s by (cases sg; cases ms; simp only: if_True if_False simp_thms; linarith)
  moreover from b m p have "ap_int inw sg x < (if ms then 2 ^ (mid - 1) else 2 ^ mid)"
    using s by (cases sg; cases ms; simp only: if_True if_False simp_thms; linarith)
  ultimately show ?thesis unfolding int_cast_def using w by (intro ap_int_wrap) simp_all
qed

lemma int_cast_chain:
  assumes x: "x < 2 ^ inw" "0 < inw" and w: "out \<le> mid \<or> inw < mid \<and> (sg \<longrightarrow> ms)"
  shows "int_cast mid ms out (int_cast inw sg mid x) = int_cast inw sg out x"
proof (cases "out \<le> mid")
  case False
  then have "ap_int mid ms (int_cast inw sg mid x) = ap_int inw sg x" using w ap_int_widen [OF x] by blast
  then show ?thesis unfolding int_cast_def [of mid ms out] int_cast_def [of inw sg out] by (rule arg_cong)
qed (rule int_cast_narrow)

text \<open>One lane, for two casts between integers of a fixed width.\<close>

fun integer_chain :: "kgen_dtype \<Rightarrow> kgen_dtype \<Rightarrow> kgen_dtype \<Rightarrow> bool" where
  "integer_chain (DInt inw _) (DInt _ _) (DInt _ _) \<longleftrightarrow> 0 < inw"
| "integer_chain _ _ _ \<longleftrightarrow> False"

lemma cast_lane_chain:
  assumes k: "integer_chain i m t" and c: "castChainFolds E fast i m t" and x: "x < 2 ^ lane_width E i"
  shows "Option.bind (cast_sem E i m x) (cast_sem E m t) = cast_sem E i t x"
proof -
  obtain inw sg mid ms out os where t: "i = DInt inw sg" "m = DInt mid ms" "t = DInt out os" "0 < inw"
    using k by (cases "(i, m, t)" rule: integer_chain.cases) auto
  then have "out \<le> mid \<or> inw < mid \<and> (sg \<longrightarrow> ms)"
    using c by (auto simp: castChainFolds_def castSigned_def isIndexLike_def isIntLike_def split: if_splits)
  then show ?thesis using int_cast_chain [of x inw out mid sg ms] x t by simp
qed

lemma cast_lanes_chain:
  assumes step: "\<And>x. x \<in> set xs \<Longrightarrow> Option.bind (f x) g = h x"
    and f: "those (map f xs) = Some ms"
  shows "those (map g ms) = those (map h xs)"
proof -
  from f have "list_all2 (\<lambda>x y. f x = Some y) xs ms" by (simp add: those_map_eq_Some)
  then have "map g ms = map h xs"
    using step by (auto simp: list_all2_conv_all_nth list_eq_iff_nth_eq) (metis bind.bind_lunit nth_mem)
  then show ?thesis by (rule arg_cong)
qed

lemma cast_sem_total: "integer_chain i m t \<Longrightarrow> \<exists>y. cast_sem E i m x = Some y"
  by (cases "(i, m, t)" rule: integer_chain.cases) auto

lemma those_map_total: "(\<And>x. \<exists>y. f x = Some y) \<Longrightarrow> \<exists>ys. those (map f xs) = Some ys"
proof -
  assume "\<And>x. \<exists>y. f x = Some y"
  then obtain g where "\<And>x. f x = Some (g x)" by metis
  then have "map f xs = map Some (map g xs)" by simp
  then have "those (map f xs) = Some (map g xs)" by (simp only: those_map_Some)
  then show ?thesis by blast
qed

text \<open>
  C17. Leaving out the first of two casts between integers keeps the value: where the canonicalization
  replaces the operand of a cast by the operand of the cast before it, both give the same vector, for
  integers of every fixed width and signedness at all three places.  Chains with index types or floating
  point types are not covered; of the latter one is shown below where the value changes.
\<close>
theorem cast_chain_equivalent:
  assumes c: "CastOp_canonicalize E fast hasOneUse ty v = Some x"
    and v: "v = Result m Cast midTy [x]"
    and k: "resolvedDType (value_type x) = Some i" "resolvedDType midTy = Some d" "resolvedDType ty = Some t"
      "integer_chain i d t"
    and x: "simd_operand E \<rho> (value_type x) x"
  shows "eval E \<rho> (Result n Cast ty [x]) = eval E \<rho> (Result n Cast ty [v])"
proof -
  from x k(1) obtain xs where xs: "eval E \<rho> x = Some (SimdA i xs)" "list_all (\<lambda>y. y < 2 ^ lane_width E i) xs"
    by (auto elim: simd_operandE)
  have folds: "castChainFolds E fast i d t"
    using c k by (auto simp: CastOp_canonicalize_def v split: if_splits)
  show ?thesis
  proof (cases "i = d \<or> d = t")
    case True
    then show ?thesis
    proof
      assume "i = d"
      then show ?thesis using k by (simp add: v xs pop_sem)
    next
      assume t: "d = t"
      obtain ys where "those (map (cast_sem E i t) xs) = Some ys"
        using those_map_total [of "cast_sem E i t" xs] cast_sem_total [OF k(4)] t by blast
      then show ?thesis using k t by (simp add: v xs pop_sem)
    qed
  next
    case False
    then have ne: "i \<noteq> d" "d \<noteq> t" by auto
    obtain ms where ms: "those (map (cast_sem E i d) xs) = Some ms"
      using those_map_total [of "cast_sem E i d" xs] cast_sem_total [OF k(4)] by blast
    have chain: "those (map (cast_sem E d t) ms) = those (map (cast_sem E i t) xs)"
      by (rule cast_lanes_chain [OF _ ms], rule cast_lane_chain [OF k(4) folds])
        (use xs(2) in \<open>simp add: list_all_iff\<close>)
    have fit: "those (map (cast_sem E i i) xs) = Some xs" if "i = t"
    proof -
      have "map (cast_sem E i i) xs = map Some xs"
        using k(4) xs(2)
        by (cases "(i, d, t)" rule: integer_chain.cases) (auto simp: list_all_iff int_cast_def)
      then show ?thesis by (simp only: those_map_Some)
    qed
    have lhs: "eval E \<rho> (Result n Cast ty [x]) = map_option (SimdA t) (those (map (cast_sem E i t) xs))"
      using fit k(3) by (auto simp: xs pop_sem)
    have rhs: "eval E \<rho> (Result n Cast ty [v]) = map_option (SimdA t) (those (map (cast_sem E d t) ms))"
      using k ne ms by (auto simp: v xs pop_sem)
    show ?thesis unfolding lhs rhs chain by (rule refl)
  qed
qed

text \<open>The environment of the witnesses, with the conversions between two formats of 16 bits at one value.\<close>

definition half_pop :: pop_env where
  "half_pop = sample_pop\<lparr>pe_floatWidth := (\<lambda>f. if f = ''f32'' then 32 else 16),
     pe_convert := (\<lambda>f g x. if f = ''f16'' \<and> g = ''bf16'' \<and> x = 0x3C01 then 0x3F80
                            else if f = ''bf16'' \<and> g = ''f16'' \<and> x = 0x3F80 then 0x3C00 else x)\<rparr>"

theorem cast_chain_equivalent_witness:
  "eval sample_pop (\<lambda>_. SimdA (DInt 8 True) [200])
      (Result 2 Cast (PSimd (Some (DInt 32 True)) (Some 1)) [Arg 0 (PSimd (Some (DInt 8 True)) (Some 1))]) =
   eval sample_pop (\<lambda>_. SimdA (DInt 8 True) [200])
      (Result 2 Cast (PSimd (Some (DInt 32 True)) (Some 1))
        [Result 1 Cast (PSimd (Some (DInt 16 True)) (Some 1)) [Arg 0 (PSimd (Some (DInt 8 True)) (Some 1))]])"
  by (intro cast_chain_equivalent [where i = "DInt 8 True" and d = "DInt 16 True" and t = "DInt 32 True" and fast = False
        and midTy = "PSimd (Some (DInt 16 True)) (Some 1)" and m = 1 and hasOneUse = "\<lambda>_. True"])
    (simp_all add: CastOp_canonicalize_def castChainFolds_def isSupportedCast_def isIntLike_def isIndexLike_def
      castSigned_def simd_operand_def)

text \<open>
  Two casts between different floating point formats of one width are merged although the first
  rounds: a cast from \<^verbatim>\<open>f16\<close> to \<^verbatim>\<open>bf16\<close> and back is replaced by a cast of \<^verbatim>\<open>f16\<close> to itself, which keeps
  the value \<^verbatim>\<open>0x3C01\<close>, while the two casts give \<^verbatim>\<open>0x3C00\<close>.
\<close>
theorem cast_chain_equal_width_rounds:
  assumes w: "pe_floatWidth E ''f16'' = 16" "pe_floatWidth E ''bf16'' = 16"
    and cv: "pe_convert E ''f16'' ''bf16'' 0x3C01 = 0x3F80" "pe_convert E ''bf16'' ''f16'' 0x3F80 = 0x3C00"
    and t: "half = PSimd (Some (DFloat ''f16'')) (Some 1)" "v = Result 1 Cast (PSimd (Some (DFloat ''bf16'')) (Some 1)) [Arg 0 half]"
    and h: "hasOneUse v"
  shows "CastOp_canonicalize E False hasOneUse half v = Some (Arg 0 half) \<and>
    eval E (\<lambda>_. SimdA (DFloat ''f16'') [0x3C01]) (Result 2 Cast half [v]) = Some (SimdA (DFloat ''f16'') [0x3C00]) \<and>
    eval E (\<lambda>_. SimdA (DFloat ''f16'') [0x3C01]) (Result 2 Cast half [Arg 0 half]) = Some (SimdA (DFloat ''f16'') [0x3C01])"
  using assms
  by (simp_all add: CastOp_canonicalize_def castChainFolds_def isSupportedCast_def isIntLike_def isIndexLike_def
      castSigned_def pop_sem)

theorem cast_chain_equal_width_rounds_witness:
  "eval half_pop (\<lambda>_. SimdA (DFloat ''f16'') [0x3C01])
     (Result 2 Cast (PSimd (Some (DFloat ''f16'')) (Some 1))
       [Result 1 Cast (PSimd (Some (DFloat ''bf16'')) (Some 1)) [Arg 0 (PSimd (Some (DFloat ''f16'')) (Some 1))]]) =
   Some (SimdA (DFloat ''f16'') [0x3C00])"
  using cast_chain_equal_width_rounds [where E = half_pop and hasOneUse = "\<lambda>_. True", OF _ _ _ _ refl refl]
  by (simp add: half_pop_def)

section \<open>Bit casts of vectors go back and forth\<close>

lemma bit_fold_or:
  "bit (fold (\<lambda>e acc. acc OR push_bit (f e) (g e)) es (a::nat)) n \<longleftrightarrow>
     bit a n \<or> (\<exists>e\<in>set es. f e \<le> n \<and> bit (g e) (n - f e))"
  by (induction es arbitrary: a) (auto simp: bit_or_iff bit_push_bit_iff)

lemma bit_combineLanes:
  "bit (combineLanes le w k xs) n \<longleftrightarrow>
     (\<exists>e<k. laneShift le w k e \<le> n \<and> bit (xs ! e) (n - laneShift le w k e))"
  by (auto simp: combineLanes_def bit_fold_or)

lemma bit_lt: "x < 2 ^ w \<Longrightarrow> bit (x::nat) n \<Longrightarrow> n < w"
  by (metis bit_take_bit_iff take_bit_nat_eq_self_iff)

text \<open>The lane an element lies in, and the element a bit of the wider lane belongs to.\<close>

definition lane_of_bit :: "bool \<Rightarrow> nat \<Rightarrow> nat \<Rightarrow> nat \<Rightarrow> nat" where
  "lane_of_bit le w k n = (if le then n div w else k - 1 - n div w)"

lemma laneShift_unique:
  assumes "0 < w" "e < k" "m < w"
  shows "laneShift le w k e + m < k * w" "lane_of_bit le w k (laneShift le w k e + m) = e"
proof -
  have "(if le then e else k - 1 - e) < k" using assms by auto
  then have "Suc (if le then e else k - 1 - e) * w \<le> k * w" by (intro mult_le_mono1) simp
  then show "laneShift le w k e + m < k * w" using assms by (auto simp: laneShift_def)
  show "lane_of_bit le w k (laneShift le w k e + m) = e"
    using assms by (auto simp: laneShift_def lane_of_bit_def)
qed

lemma lane_of_bit:
  assumes "0 < w" "n < k * w"
  shows "lane_of_bit le w k n < k" "laneShift le w k (lane_of_bit le w k n) = n div w * w"
proof -
  have "n div w < k" using assms by (simp add: less_mult_imp_div_less)
  then show "lane_of_bit le w k n < k" "laneShift le w k (lane_of_bit le w k n) = n div w * w"
    by (auto simp: lane_of_bit_def laneShift_def)
qed

lemma combine_split:
  assumes w: "0 < w" and v: "v < 2 ^ (k * w)"
  shows "combineLanes le w k (splitLane le w k v) = v"
proof (rule bit_eqI)
  fix n
  have "bit (combineLanes le w k (splitLane le w k v)) n \<longleftrightarrow>
      (\<exists>e<k. laneShift le w k e \<le> n \<and> n - laneShift le w k e < w \<and> bit v n)"
    by (auto simp: bit_combineLanes splitLane_def bit_take_bit_iff bit_drop_bit_eq)
  also have "\<dots> \<longleftrightarrow> bit v n"
  proof
    assume b: "bit v n"
    then have n: "n < k * w" using v by (rule bit_lt [rotated])
    have "n - n div w * w < w" using w by (simp add: minus_div_mult_eq_mod)
    then show "\<exists>e<k. laneShift le w k e \<le> n \<and> n - laneShift le w k e < w \<and> bit v n"
      using b lane_of_bit [OF w n, of le] by (intro exI [of _ "lane_of_bit le w k n"]) simp
  qed blast
  finally show "bit (combineLanes le w k (splitLane le w k v)) n \<longleftrightarrow> bit v n" .
qed

lemma split_combine:
  assumes w: "0 < w" and l: "length xs = k" and f: "list_all (\<lambda>x. x < 2 ^ w) xs"
  shows "splitLane le w k (combineLanes le w k xs) = xs"
proof (rule nth_equalityI)
  show "length (splitLane le w k (combineLanes le w k xs)) = length xs" by (simp add: splitLane_def l)
next
  fix c assume "c < length (splitLane le w k (combineLanes le w k xs))"
  then have c: "c < k" by (simp add: splitLane_def)
  have "bit (take_bit w (drop_bit (laneShift le w k c) (combineLanes le w k xs))) m = bit (xs ! c) m" for m
  proof (cases "m < w")
    case True
    have uniq: "e = c" if "e < k" "laneShift le w k e \<le> laneShift le w k c + m"
      "bit (xs ! e) (laneShift le w k c + m - laneShift le w k e)" for e
    proof -
      let ?m = "laneShift le w k c + m - laneShift le w k e"
      have "xs ! e < 2 ^ w" using f l that(1) by (simp add: list_all_length)
      from bit_lt [OF this that(3)] have "lane_of_bit le w k (laneShift le w k e + ?m) = e"
        by (rule laneShift_unique(2) [OF w that(1)])
      then show ?thesis using that(2) laneShift_unique(2) [OF w c True, of le] by simp
    qed
    have "bit (combineLanes le w k xs) (laneShift le w k c + m) = bit (xs ! c) m"
      unfolding bit_combineLanes using uniq c by (metis add_diff_cancel_left' le_add1)
    then show ?thesis using True by (simp add: bit_take_bit_iff bit_drop_bit_eq)
  next
    case False
    moreover have "xs ! c < 2 ^ w" using f l c by (simp add: list_all_length)
    ultimately show ?thesis using bit_lt by (auto simp: bit_take_bit_iff)
  qed
  then show "splitLane le w k (combineLanes le w k xs) ! c = xs ! c"
    using c by (simp add: splitLane_def bit_eq_iff)
qed

lemma combine_fits:
  assumes "0 < w" "length xs = k" "list_all (\<lambda>x. x < 2 ^ w) xs"
  shows "combineLanes le w k xs < 2 ^ (k * w)"
proof -
  have "n < k * w" if "bit (combineLanes le w k xs) n" for n
  proof -
    from that obtain e where e: "e < k" "laneShift le w k e \<le> n" "bit (xs ! e) (n - laneShift le w k e)"
      by (auto simp: bit_combineLanes)
    then have "xs ! e < 2 ^ w" using assms by (simp add: list_all_length)
    from laneShift_unique(1) [OF assms(1) e(1) bit_lt [OF this e(3)], of le] e(2) show ?thesis by simp
  qed
  then have "take_bit (k * w) (combineLanes le w k xs) = combineLanes le w k xs"
    by (intro bit_eqI) (auto simp: bit_take_bit_iff)
  then show ?thesis by (simp add: take_bit_nat_eq_self_iff)
qed

lemma concat_chunks: "concat (map (\<lambda>c. map (\<lambda>e. f (c * k + e)) [0..<k]) [0..<n]) = map f [0..<n * k]"
proof (induction n)
  case (Suc n)
  have "[n * k..<n * k + k] = map (\<lambda>e. n * k + e) [0..<k]" by (rule nth_equalityI) simp_all
  then have "[0..<Suc n * k] = [0..<n * k] @ map (\<lambda>e. n * k + e) [0..<k]"
    using upt_add_eq_append [of 0 "n * k" k] by (simp add: add.commute)
  then show ?case using Suc by simp
qed simp

lemma concat_nth_uniform:
  "list_all (\<lambda>xs. length xs = k) xss \<Longrightarrow> c < length xss \<Longrightarrow> e < k \<Longrightarrow> concat xss ! (c * k + e) = xss ! c ! e"
proof (induction xss arbitrary: c)
  case (Cons xs xss)
  then show ?case by (cases c) (simp_all add: nth_append)
qed simp

lemma length_concat_uniform: "list_all (\<lambda>xs. length xs = k) xss \<Longrightarrow> length (concat xss) = length xss * k"
  by (induction xss) auto

lemma addValue_fits:
  assumes "bitWidth E d = Some w" "x < 2 ^ w" "\<forall>f. pe_semanticsBits E f = pe_floatWidth E f"
  shows "addValue E d x = x"
  using assms by (cases d) (auto simp: addValue_def less_2_cases_iff take_bit_nat_eq_self_iff)

definition boolLane :: "kgen_dtype \<Rightarrow> nat \<Rightarrow> nat" where
  "boolLane d x = (if d = DBool then take_bit 1 x else x)"

lemma boolLane_fits: "bitWidth E d = Some w \<Longrightarrow> x < 2 ^ w \<Longrightarrow> boolLane d x = x"
  by (auto simp: boolLane_def take_bit_nat_eq_self_iff)

text \<open>The lanes of the result, for lanes that fit.\<close>

definition lanes_at :: "nat list \<Rightarrow> nat \<Rightarrow> nat \<Rightarrow> nat list" where
  "lanes_at ls k c = map (\<lambda>e. ls ! (c * k + e)) [0..<k]"

lemma lanes_at_fits:
  assumes "length ls = n * k" "list_all P ls" "c < n"
  shows "list_all P (lanes_at ls k c)"
proof -
  have "c * k + e < length ls" if "e < k" for e
  proof -
    have "Suc c * k \<le> n * k" using assms(3) by (intro mult_le_mono1) simp
    then show ?thesis using that assms(1) by simp
  qed
  then show ?thesis using assms(2) by (auto simp: lanes_at_def list_all_length)
qed

lemma splitLane_fits: "list_all (\<lambda>x. x < 2 ^ w) (splitLane le w k v)"
  by (auto simp: splitLane_def list_all_iff)


text \<open>Widening and narrowing, as functions of the lanes.\<close>

definition widen :: "bool \<Rightarrow> nat \<Rightarrow> nat \<Rightarrow> nat \<Rightarrow> nat list \<Rightarrow> nat list" where
  "widen le w k n ls = map (\<lambda>c. combineLanes le w k (lanes_at ls k c)) [0..<n]"

definition narrow :: "bool \<Rightarrow> nat \<Rightarrow> nat \<Rightarrow> nat list \<Rightarrow> nat list" where
  "narrow le w k ls = concat (map (splitLane le w k) ls)"

lemma widen_narrow:
  assumes "0 < w" "list_all (\<lambda>v. v < 2 ^ (k * w)) ls"
  shows "widen le w k (length ls) (narrow le w k ls) = ls"
proof (rule nth_equalityI)
  fix c assume "c < length (widen le w k (length ls) (narrow le w k ls))"
  then have c: "c < length ls" by (simp add: widen_def)
  have "list_all (\<lambda>xs. length xs = k) (map (splitLane le w k) ls)"
    by (simp add: list_all_iff splitLane_def)
  from concat_nth_uniform [OF this] have "lanes_at (narrow le w k ls) k c = splitLane le w k (ls ! c)"
    using c by (intro nth_equalityI) (simp_all add: lanes_at_def narrow_def, simp_all add: splitLane_def)
  then show "widen le w k (length ls) (narrow le w k ls) ! c = ls ! c"
    using c assms by (simp add: widen_def combine_split list_all_length)
qed (simp add: widen_def)

lemma narrow_widen:
  assumes "0 < w" "length ls = n * k" "list_all (\<lambda>v. v < 2 ^ w) ls"
  shows "narrow le w k (widen le w k n ls) = ls"
proof -
  have "splitLane le w k (combineLanes le w k (lanes_at ls k c)) = lanes_at ls k c" if "c < n" for c
    using assms that by (intro split_combine lanes_at_fits [OF assms(2)]) (simp_all add: lanes_at_def)
  then have "map (splitLane le w k) (widen le w k n ls) = map (lanes_at ls k) [0..<n]"
    by (simp add: widen_def)
  then have "narrow le w k (widen le w k n ls) = map ((!) ls) [0..<length ls]"
    unfolding narrow_def lanes_at_def assms(2) by (simp add: concat_chunks)
  then show ?thesis by (simp add: map_nth)
qed

lemma narrow_one: "list_all (\<lambda>v. v < 2 ^ w) ls \<Longrightarrow> narrow le w 1 ls = ls"
  by (induction ls) (auto simp: narrow_def splitLane_def laneShift_def take_bit_nat_eq_self_iff)

lemma reshape_widen:
  assumes w: "bitWidth E inT = Some inW" "bitWidth E outT = Some (k * inW)" "1 < k" "0 < inW"
    and law: "\<forall>f. pe_semanticsBits E f = pe_floatWidth E f"
    and n: "length ls = n * k" and f: "list_all (\<lambda>x. x < 2 ^ inW) ls"
  shows "reshape E le inT ls outT n = Some (SimdA outT (widen le inW k n ls))"
proof -
  have k: "k * inW div inW = k" "inW < k * inW" using w(3,4) by simp_all
  have "addValue E outT (combineLanes le inW k (map (\<lambda>e. boolLane inT (ls ! (c * k + e))) [0..<k])) =
      combineLanes le inW k (lanes_at ls k c)" if c: "c < n" for c
  proof -
    have fit: "list_all (\<lambda>x. x < 2 ^ inW) (lanes_at ls k c)" by (rule lanes_at_fits [OF n f c])
    have "map (\<lambda>e. boolLane inT (ls ! (c * k + e))) [0..<k] = lanes_at ls k c"
      using fit by (auto simp: lanes_at_def list_all_iff intro!: boolLane_fits [OF w(1)])
    moreover have "combineLanes le inW k (lanes_at ls k c) < 2 ^ (k * inW)"
      by (rule combine_fits [OF w(4) _ fit]) (simp add: lanes_at_def)
    ultimately show ?thesis by (simp only: addValue_fits [OF w(2) _ law])
  qed
  then show ?thesis
    using w k by (simp add: reshape_def n widen_def boolLane_def Let_def)
qed

lemma reshape_narrow:
  assumes w: "bitWidth E inT = Some (k * outW)" "bitWidth E outT = Some outW" "0 < k" "0 < outW"
    and law: "\<forall>f. pe_semanticsBits E f = pe_floatWidth E f"
  shows "reshape E le inT ls outT (length ls * k) = Some (SimdA outT (narrow le outW k ls))"
proof -
  have k: "k * outW div outW = k" "\<not> k * outW < outW" using w(3,4) by simp_all
  have "map (addValue E outT) (splitLane le outW k v) = splitLane le outW k v" for v
    using splitLane_fits [of outW le k v] by (auto simp: list_all_iff intro!: map_idI addValue_fits [OF w(2) _ law])
  then show ?thesis using w k by (simp add: reshape_def narrow_def)
qed

text \<open>
  C20. A bit cast between vectors of different shape loses nothing: where it folds, folding the bit cast
  back of the result gives the vector it started from, for integers, booleans and floating point types,
  in both byte orders, whenever one lane width divides the other.
\<close>
theorem reshape_roundtrip:
  assumes w: "bitWidth E inT = Some inW" "bitWidth E outT = Some outW" "0 < inW" "0 < outW"
      "inW dvd outW \<or> outW dvd inW"
    and law: "\<forall>f. pe_semanticsBits E f = pe_floatWidth E f"
    and f: "list_all (\<lambda>x. x < 2 ^ inW) ls"
    and r: "reshape E le inT ls outT n = Some (SimdA outT ms)"
  shows "reshape E le outT ms inT (length ls) = Some (SimdA inT ls) \<and> length ms = n"
proof -
  have total: "length ls * inW = n * outW" using r w(1,2) by (auto simp: reshape_def split: if_splits)
  show ?thesis
  proof (cases "inW < outW")
    case True
    then obtain k where k: "outW = k * inW" using w(3,5) by (metis dvdE mult.commute nat_dvd_not_less)
    with True have k1: "1 < k" by (metis less_one mult_1 mult_eq_0_iff nat_neq_iff not_less_zero)
    have n: "length ls = n * k" using total k w(3) by (metis mult.assoc mult_cancel2 nat_neq_iff)
    have ms: "ms = widen le inW k n ls"
      using r reshape_widen [OF w(1) _ k1 w(3) law n f, of outT le] w(2) k by simp
    then have l: "length ms = n" by (simp add: widen_def)
    have "reshape E le outT ms inT (length ms * k) = Some (SimdA inT (narrow le inW k ms))"
      by (rule reshape_narrow) (use w k k1 law in simp_all)
    then show ?thesis using l n narrow_widen [OF w(3) n f, of le] ms by simp
  next
    case False
    then obtain k where k: "inW = k * outW" using w(3-5) by (metis dvdE dvd_imp_le mult.commute nat_less_le dvd_refl)
    then have k0: "0 < k" using w(3) by auto
    have n: "n = length ls * k" using total k w(4) by (metis mult.assoc mult_cancel2 nat_neq_iff)
    have ms: "ms = narrow le outW k ls"
      using r reshape_narrow [OF _ w(2) k0 w(4) law, of inT le ls] w(1) k n by simp
    have l: "length ms = n"
      using n length_concat_uniform [of k "map (splitLane le outW k) ls"]
      by (simp add: ms narrow_def list_all_iff splitLane_def [of le outW k])
    show ?thesis
    proof (cases "k = 1")
      case True
      have same: "ms = ls" using narrow_one [of outW ls le] f k by (simp add: ms True)
      have "reshape E le outT ms inT (length ms * 1) = Some (SimdA inT (narrow le inW 1 ms))"
        by (rule reshape_narrow) (use w k law True in simp_all)
      then show ?thesis using l same narrow_one [OF f, of le] by simp
    next
      case False
      have "reshape E le outT ms inT (length ls) = Some (SimdA inT (widen le outW k (length ls) ms))"
        by (rule reshape_widen) (use w k False k0 law l n in \<open>simp_all add: ms narrow_def list_all_iff splitLane_def\<close>)
      then show ?thesis using l widen_narrow [OF w(4), of k ls le] f k ms by simp
    qed
  qed
qed

theorem reshape_roundtrip_witness:
  "reshape sample_pop True (DInt 8 False) [0x34, 0x12] (DInt 16 False) 1 = Some (SimdA (DInt 16 False) [0x1234])"
proof -
  have "splitLane True 8 2 0x1234 = [0x34, 0x12]"
    by (simp add: splitLane_def laneShift_def upt_rec numeral_2_eq_2 [symmetric] take_bit_eq_mod drop_bit_eq_div)
  then have "reshape sample_pop True (DInt 16 False) [0x1234] (DInt 8 False) 2 = Some (SimdA (DInt 8 False) [0x34, 0x12])"
    by (simp add: reshape_def addValue_def)
  then show ?thesis
    using reshape_roundtrip [of sample_pop "DInt 16 False" 16 "DInt 8 False" 8 "[0x1234]" True 2 "[0x34, 0x12]"]
    by (simp add: sample_pop_def plain_pop_def)
qed

section \<open>Bit casts of pointers keep the address\<close>

fun operands :: "pop_value \<Rightarrow> pop_value list" where
  "operands (Result _ _ _ vs) = vs"
| "operands _ = []"

text \<open>A value that is a pointer of its type, with an address of 64 bits.\<close>

definition ptr_value :: "pop_env \<Rightarrow> (nat \<Rightarrow> pop_attr) \<Rightarrow> pop_value \<Rightarrow> bool" where
  "ptr_value E \<rho> v \<longleftrightarrow>
     (case eval E \<rho> v of Some (PointerA a t) \<Rightarrow> t = value_type v \<and> wrap64 a = a | _ \<Rightarrow> False)"

lemma ptr_valueE:
  assumes "ptr_value E \<rho> v"
  obtains a where "eval E \<rho> v = Some (PointerA a (value_type v))" "wrap64 a = a"
  using assms by (auto simp: ptr_value_def split: option.splits pop_attr.splits)

lemma bitcast_eval:
  assumes "eval E \<rho> v = Some (PointerA a t)"
  shows "eval E \<rho> (Result n PointerBitcast ty [v]) = Some (PointerA a ty)"
  using assms by (simp add: pop_sem)

lemma PointerBitcastOp_fold_sound:
  assumes f: "PointerBitcastOp_fold ty v = Some r" and v: "list_all (ptr_value E \<rho>) (v # operands v)"
  shows "eval_fold E \<rho> r = eval E \<rho> (Result n PointerBitcast ty [v])"
proof -
  from f consider a t where "const_of v = Some (PointerA a t)" "r = FoldAttr (PointerA a ty)"
    | m t x where "v = Result m PointerBitcast t [x]" "value_type x = ty" "r = FoldValue x"
    by (auto simp: PointerBitcastOp_fold_def
        split: option.splits pop_attr.splits pop_value.splits pop_op.splits list.splits if_splits)
  then show ?thesis
  proof cases
    case 1
    then have "eval E \<rho> v = Some (PointerA a t)" by (simp add: const_of_Some)
    from bitcast_eval [OF this] 1 show ?thesis by simp
  next
    case 2
    then have "ptr_value E \<rho> x" using v by simp
    then obtain a where a: "eval E \<rho> x = Some (PointerA a ty)" using 2 by (auto elim: ptr_valueE)
    from bitcast_eval [OF bitcast_eval [OF a]] a 2 show ?thesis by simp
  qed
qed

lemma gep_zero_eval:
  assumes "eval E \<rho> v = Some (PointerA a (PPtr (PArr n t) sp))" "wrap64 a = a" "pe_allocSize E t \<noteq> None"
  shows "eval E \<rho> (Result m ArrayGEP ty [v, Constant (IntegerA 0)]) = Some (PointerA a (PPtr t 0))"
  using assms by (auto simp: pop_sem)

text \<open>
  The rewrites of pointer bit casts keep the address and give the type of the operation: folding a
  constant or a cast there and back, merging two casts, and turning the cast of a pointer to an array
  into a pointer to its element into the address of element 0.
\<close>
theorem pointer_bitcast_sound:
  assumes v: "list_all (ptr_value E \<rho>) (v # operands v)" and law: "\<forall>t. pe_allocSize E t \<noteq> None"
  shows "case PointerBitcastOp_fold ty v of
           Some r \<Rightarrow> eval_fold E \<rho> r = eval E \<rho> (Result n PointerBitcast ty [v]) | None \<Rightarrow> True"
    and "case PointerBitcastOp_canonicalize hasOneUse ty v of
           Some (op, vs) \<Rightarrow> eval E \<rho> (Result n op ty vs) = eval E \<rho> (Result n PointerBitcast ty [v]) | None \<Rightarrow> True"
proof -
  show "case PointerBitcastOp_fold ty v of
      Some r \<Rightarrow> eval_fold E \<rho> r = eval E \<rho> (Result n PointerBitcast ty [v]) | None \<Rightarrow> True"
    using PointerBitcastOp_fold_sound [OF _ v] by (simp split: option.split)
  obtain a where a: "eval E \<rho> v = Some (PointerA a (value_type v))" "wrap64 a = a"
    using v by (auto elim: ptr_valueE)
  note val = bitcast_eval [OF a(1), of n ty]
  have "eval E \<rho> (Result n op ty vs) = eval E \<rho> (Result n PointerBitcast ty [v])"
    if c: "PointerBitcastOp_canonicalize hasOneUse ty v = Some (op, vs)" for op vs
  proof -
    from c consider m t x where "v = Result m PointerBitcast t [x]" "op = PointerBitcast" "vs = [x]"
      | n' t sp where "value_type v = PPtr (PArr n' t) sp" "ty = PPtr t 0" "op = ArrayGEP"
          "vs = [v, Constant (IntegerA 0)]"
      by (auto simp: PointerBitcastOp_canonicalize_def
          split: pop_value.splits pop_op.splits list.splits if_splits pop_type.splits)
    then show ?thesis
    proof cases
      case 1
      then have "ptr_value E \<rho> x" using v by simp
      then obtain b where b: "eval E \<rho> x = Some (PointerA b (value_type x))" by (auto elim: ptr_valueE)
      show ?thesis using bitcast_eval [OF b, of n ty] bitcast_eval [OF bitcast_eval [OF b, of m t], of n ty] 1 by simp
    next
      case 2
      then show ?thesis using gep_zero_eval [of E \<rho> v a n' t sp n ty] a val law by simp
    qed
  qed
  then show "case PointerBitcastOp_canonicalize hasOneUse ty v of
      Some (op, vs) \<Rightarrow> eval E \<rho> (Result n op ty vs) = eval E \<rho> (Result n PointerBitcast ty [v]) | None \<Rightarrow> True"
    by (simp split: option.split prod.split)
qed

theorem pointer_bitcast_sound_witness:
  "eval sample_pop (\<lambda>_. PointerA 64 (PPtr (PArr (Some 2) PIndex) 3))
     (Result 1 ArrayGEP (PPtr PIndex 0) [Arg 0 (PPtr (PArr (Some 2) PIndex) 3), Constant (IntegerA 0)]) =
   eval sample_pop (\<lambda>_. PointerA 64 (PPtr (PArr (Some 2) PIndex) 3))
     (Result 1 PointerBitcast (PPtr PIndex 0) [Arg 0 (PPtr (PArr (Some 2) PIndex) 3)])"
  using pointer_bitcast_sound(2) [where E = sample_pop and \<rho> = "\<lambda>_. PointerA 64 (PPtr (PArr (Some 2) PIndex) 3)"
      and v = "Arg 0 (PPtr (PArr (Some 2) PIndex) 3)" and ty = "PPtr PIndex 0" and n = 1 and hasOneUse = "\<lambda>_. True"]
  by (simp add: PointerBitcastOp_canonicalize_def ptr_value_def sample_pop_def plain_pop_def wrap64_def ap_int_def ap_wrap_def)

end
