(* ===== verification/Pop_Vectors.thy ===== *)
theory Pop_Vectors
  imports Pop_Casts
begin

text \<open>
  The folders, canonicalizations and interpreters of the operations on vectors, arrays, pointers and
  unions (\<^verbatim>\<open>Mojo/lib/POPDialect/POPOpsFolders.cpp\<close>, lines 1137 to 1477, 1591 to 1715, 1971 to 2306
  and 2924 to 3012).  An index that the code does not check and that lies out of range is undefined
  behaviour; such a call has the result \<open>None\<close>.
\<close>

section \<open>Elements of vectors\<close>

text \<open>\<^verbatim>\<open>isScalar\<close>: a vector of one lane.\<close>

definition isScalar :: "pop_type \<Rightarrow> bool" where
  "isScalar ty \<longleftrightarrow> (case ty of PSimd _ (Some n) \<Rightarrow> n = 1 | _ \<Rightarrow> False)"

text \<open>A constant operand is returned as its attribute, another one as the value.\<close>

definition attrOrValue :: "pop_value \<Rightarrow> fold_result" where
  "attrOrValue v = (case const_of v of Some a \<Rightarrow> FoldAttr a | None \<Rightarrow> FoldValue v)"

definition SIMDExtractElementOp_fold :: "pop_value \<Rightarrow> pop_value \<Rightarrow> fold_result option option" where
  "SIMDExtractElementOp_fold vec pos =
     (if isScalar (value_type vec) then Some (Some (attrOrValue vec))
      else (case (const_of vec, const_of pos) of
              (Some (SimdA d ls), Some (IntegerA i)) \<Rightarrow>
                map_option (\<lambda>x. Some (FoldAttr (SimdA d [x]))) (at_int ls i)
            | _ \<Rightarrow> Some None))"

definition SIMDExtractElementOp_parametric_interpret ::
  "(pop_type \<Rightarrow> pop_type) \<Rightarrow> pop_attr \<Rightarrow> pop_attr \<Rightarrow> pop_attr error_or option" where
  "SIMDExtractElementOp_parametric_interpret rebind vec pos =
     (if isScalar (rebind (attr_type vec)) then Some (Inr vec)
      else (case (vec, pos) of
              (SimdA d ls, IntegerA i) \<Rightarrow> map_option (\<lambda>x. Inr (SimdA d [x])) (at_int ls i)
            | _ \<Rightarrow> Some (Inl ''non-constant inputs'')))"

text \<open>The vector to insert into; an undefined one is treated as zero.\<close>

fun insertBase :: "pop_type \<Rightarrow> pop_attr option \<Rightarrow> (kgen_dtype \<times> nat list) option" where
  "insertBase ty (Some (SimdA d ls)) = Some (d, ls)"
| "insertBase (PSimd (Some d) (Some n)) (Some (UninitA _)) = Some (d, replicate n 0)"
| "insertBase ty _ = None"

definition insertLane :: "kgen_dtype \<Rightarrow> nat list \<Rightarrow> nat list \<Rightarrow> int \<Rightarrow> pop_attr option" where
  "insertLane d ls xs i =
     (if xs \<noteq> [] \<and> 0 \<le> i \<and> i < int (length ls) then Some (SimdA d (ls[nat i := hd xs])) else None)"

definition SIMDInsertElementOp_fold ::
  "pop_type \<Rightarrow> pop_value \<Rightarrow> pop_value \<Rightarrow> pop_value \<Rightarrow> fold_result option option" where
  "SIMDInsertElementOp_fold ty vec val pos =
     (case (insertBase ty (const_of vec), const_of val, const_of pos) of
        (Some (d, ls), Some (SimdA _ xs), Some (IntegerA i)) \<Rightarrow>
          map_option (\<lambda>a. Some (FoldAttr a)) (insertLane d ls xs i)
      | _ \<Rightarrow> Some None)"

definition SIMDInsertElementOp_parametric_interpret ::
  "(pop_type \<Rightarrow> pop_type) \<Rightarrow> pop_type \<Rightarrow> pop_attr \<Rightarrow> pop_attr \<Rightarrow> pop_attr \<Rightarrow> pop_attr error_or option" where
  "SIMDInsertElementOp_parametric_interpret rebind ty vec val pos =
     (case (insertBase (rebind ty) (Some vec), val, pos) of
        (Some (d, ls), SimdA _ xs, IntegerA i) \<Rightarrow> map_option Inr (insertLane d ls xs i)
      | _ \<Rightarrow> Some (Inl ''non-constant inputs''))"

section \<open>Selection and shuffling of lanes\<close>

fun simdVals :: "pop_attr option \<Rightarrow> (kgen_dtype \<times> nat list) option" where
  "simdVals (Some (SimdA d ls)) = Some (d, ls)"
| "simdVals _ = None"

definition allTrue :: "nat list \<Rightarrow> bool" where "allTrue = list_all (\<lambda>x. x \<noteq> 0)"
definition allFalse :: "nat list \<Rightarrow> bool" where "allFalse = list_all (\<lambda>x. x = 0)"

text \<open>The cases a select of vectors has, and which operand it becomes.\<close>

datatype select_case = Lanes pop_attr | Operand nat | NoCase

definition selectCase ::
  "pop_type \<Rightarrow> bool \<Rightarrow> pop_attr option \<Rightarrow> pop_attr option \<Rightarrow> pop_attr option \<Rightarrow> select_case" where
  "selectCase ty same cond t f =
     (case (simdVals cond, simdVals t, simdVals f) of
        (Some (_, cs), Some (d, ts), Some (_, fs)) \<Rightarrow> Lanes (SimdA d (zip_select cs ts fs))
      | (c, tv, fv) \<Rightarrow>
          if same then Operand 1
          else if (case c of Some (_, cs) \<Rightarrow> allTrue cs | None \<Rightarrow> False) then Operand 1
          else if (case c of Some (_, cs) \<Rightarrow> allFalse cs | None \<Rightarrow> False) then Operand 2
          else if resolvedDType ty = Some DBool \<and>
                  (case (tv, fv) of (Some (_, ts), Some (_, fs)) \<Rightarrow> allTrue ts \<and> allFalse fs | _ \<Rightarrow> False)
          then Operand 0
          else NoCase)"

definition SIMDSelectOp_fold :: "pop_type \<Rightarrow> pop_value \<Rightarrow> pop_value \<Rightarrow> pop_value \<Rightarrow> fold_result option" where
  "SIMDSelectOp_fold ty c t f =
     (case selectCase ty (t = f) (const_of c) (const_of t) (const_of f) of
        Lanes a \<Rightarrow> Some (FoldAttr a)
      | Operand i \<Rightarrow> Some (FoldValue ([c, t, f] ! i))
      | NoCase \<Rightarrow> None)"

definition SIMDSelectOp_parametric_interpret ::
  "(pop_type \<Rightarrow> pop_type) \<Rightarrow> pop_type \<Rightarrow> bool \<Rightarrow> pop_attr \<Rightarrow> pop_attr \<Rightarrow> pop_attr \<Rightarrow> pop_attr error_or option" where
  "SIMDSelectOp_parametric_interpret rebind ty same c t f =
     (case selectCase (rebind ty) same (Some c) (Some t) (Some f) of
        Lanes a \<Rightarrow> Some (Inr a)
      | Operand i \<Rightarrow> Some (Inr ([c, t, f] ! i))
      | NoCase \<Rightarrow> Some (Inl ''cannot interpret SIMDSelect''))"

text \<open>\<^verbatim>\<open>select(x, false, true) -> not(x)\<close>, with the constant of the operand.\<close>

definition SIMDSelectOp_canonicalize ::
  "pop_type \<Rightarrow> pop_value \<Rightarrow> pop_value \<Rightarrow> pop_value \<Rightarrow> (pop_op \<times> pop_value list) option" where
  "SIMDSelectOp_canonicalize ty c t f =
     (if resolvedDType ty \<noteq> Some DBool then None
      else (case (simdVals (const_of t), simdVals (const_of f)) of
              (Some (_, ts), Some (_, fs)) \<Rightarrow>
                if allFalse ts \<and> allTrue fs then Some (SIMDXOr, [c, f]) else None
            | _ \<Rightarrow> None))"

text \<open>The indices of a mask that is a known constant.\<close>

fun intAttr :: "pop_attr \<Rightarrow> int option" where
  "intAttr (IntegerA i) = Some i"
| "intAttr _ = None"

fun maskValues :: "pop_attr option \<Rightarrow> pop_attr list option" where
  "maskValues (Some (ArrayA _ ms)) = Some ms"
| "maskValues _ = None"

definition shuffleLanes :: "kgen_dtype \<Rightarrow> nat list \<Rightarrow> nat list \<Rightarrow> int list \<Rightarrow> pop_attr option" where
  "shuffleLanes d ls rs is = map_option (SimdA d) (those (map (at_int (ls @ rs)) is))"

definition SIMDShuffleOp_fold ::
  "pop_type \<Rightarrow> pop_attr option \<Rightarrow> pop_value \<Rightarrow> pop_value \<Rightarrow> fold_result option option" where
  "SIMDShuffleOp_fold ty msk lhs rhs =
     (case (resolvedSize ty, simdVals (const_of lhs), simdVals (const_of rhs), maskValues msk) of
        (Some _, Some (d, ls), Some (_, rs), Some ms) \<Rightarrow>
          (case those (map intAttr ms) of
             None \<Rightarrow> Some None
           | Some is \<Rightarrow> map_option (\<lambda>a. Some (FoldAttr a)) (shuffleLanes d ls rs is))
      | _ \<Rightarrow> Some None)"

definition SIMDShuffleOp_parametric_interpret ::
  "(pop_type \<Rightarrow> pop_type) \<Rightarrow> (pop_attr option \<Rightarrow> pop_attr option) \<Rightarrow> pop_type \<Rightarrow> pop_attr option \<Rightarrow> pop_attr \<Rightarrow> pop_attr \<Rightarrow>
   pop_attr error_or option" where
  "SIMDShuffleOp_parametric_interpret rebind rebindA ty msk lhs rhs =
     (case (resolvedSize (rebind ty), simdVals (Some lhs), simdVals (Some rhs), maskValues (rebindA msk)) of
        (Some _, Some (d, ls), Some (_, rs), Some ms) \<Rightarrow>
          (case those (map intAttr ms) of
             None \<Rightarrow> Some (Inl ''mask is unknown constant'')
           | Some is \<Rightarrow> map_option Inr (shuffleLanes d ls rs is))
      | _ \<Rightarrow> Some (Inl ''non-constant inputs''))"

definition SIMDSplatOp_parametric_interpret ::
  "(pop_type \<Rightarrow> pop_type) \<Rightarrow> pop_type \<Rightarrow> pop_attr \<Rightarrow> pop_attr error_or option" where
  "SIMDSplatOp_parametric_interpret rebind ty scalar =
     (let rt = rebind ty in
      if resolvedSize rt = Some 1 then Some (Inr scalar)
      else (case validateSIMDConstruction rt of
              Some e \<Rightarrow> Some (Inl e)
            | None \<Rightarrow>
                (case (resolvedSize rt, scalar) of
                   (Some n, SimdA d xs) \<Rightarrow>
                     (case xs of [] \<Rightarrow> None | x # _ \<Rightarrow> Some (Inr (SimdA d (replicate n x))))
                 | _ \<Rightarrow> Some (Inl ''cannot find size or is not a scalar''))))"

section \<open>Selection of a value\<close>

definition getAsBool :: "pop_attr \<Rightarrow> bool" where
  "getAsBool a = (case a of SimdA _ (c # _) \<Rightarrow> c \<noteq> 0 | _ \<Rightarrow> False)"

definition isSimd :: "pop_attr option \<Rightarrow> bool" where
  "isSimd a = (case a of Some (SimdA _ _) \<Rightarrow> True | _ \<Rightarrow> False)"

definition isUninit :: "pop_attr option \<Rightarrow> bool" where
  "isUninit a = (case a of Some (UninitA _) \<Rightarrow> True | _ \<Rightarrow> False)"

definition SelectOp_fold :: "pop_type \<Rightarrow> pop_value \<Rightarrow> pop_value \<Rightarrow> pop_value \<Rightarrow> fold_result option" where
  "SelectOp_fold ty c t f =
     (if isSimd (const_of c) then
        Some (if getAsBool (the (const_of c)) then attrOrValue t else attrOrValue f)
      else if value_type c = ty \<and> isSimd (const_of t) \<and> isSimd (const_of f) \<and>
              getAsBool (the (const_of t)) \<and> \<not> getAsBool (the (const_of f))
      then Some (FoldValue c)
      else if isUninit (const_of t) then Some (FoldValue f)
      else if isUninit (const_of f) then Some (FoldValue t)
      else if t = f then Some (FoldValue t)
      else None)"

text \<open>\<^verbatim>\<open>SelectOfSelect\<close>: the operands after the rewrite.\<close>

fun selectOperands :: "pop_value \<Rightarrow> (pop_value \<times> pop_value \<times> pop_value) option" where
  "selectOperands (Result _ Select _ [c, t, f]) = Some (c, t, f)"
| "selectOperands _ = None"

definition SelectOfSelect :: "pop_value \<Rightarrow> pop_value \<Rightarrow> pop_value \<Rightarrow> pop_value list option" where
  "SelectOfSelect c t f =
     (case selectOperands t of
        Some (c', a, _) \<Rightarrow> if c' = c then Some [c, a, f] else None
      | None \<Rightarrow>
          (case selectOperands f of
             Some (c', _, b) \<Rightarrow> if c' = c then Some [c, t, b] else None
           | None \<Rightarrow> None))"

section \<open>Arrays\<close>

definition ArrayCreateOp_fold :: "pop_type \<Rightarrow> pop_value list \<Rightarrow> fold_result option" where
  "ArrayCreateOp_fold ty vs = map_option (\<lambda>as. FoldAttr (ArrayA ty as)) (those (map const_of vs))"

definition ArrayCreateOp_parametric_interpret ::
  "(pop_type \<Rightarrow> pop_type) \<Rightarrow> pop_type \<Rightarrow> pop_attr list \<Rightarrow> pop_attr error_or option" where
  "ArrayCreateOp_parametric_interpret rebind ty as = Some (Inr (ArrayA (rebind ty) as))"

text \<open>The loop that appends the operands until there are enough; it need not end.\<close>

partial_function (option) repeatLoop :: "'a list \<Rightarrow> nat \<Rightarrow> 'a list \<Rightarrow> 'a list option" where
  "repeatLoop args n values =
     (if length values < n then repeatLoop args n (values @ args) else Some values)"

declare repeatLoop.simps [code]

definition foldInterpretArrayRepeatOp :: "pop_attr option list \<Rightarrow> pop_type \<Rightarrow> pop_attr option option" where
  "foldInterpretArrayRepeatOp ads ty =
     (case (resolvedSize ty, those ads) of
        (Some n, Some args) \<Rightarrow> map_option (\<lambda>vs. Some (ArrayA ty (take n vs))) (repeatLoop args n [])
      | _ \<Rightarrow> Some None)"

definition ArrayRepeatOp_fold :: "pop_type \<Rightarrow> pop_value list \<Rightarrow> fold_result option option" where
  "ArrayRepeatOp_fold ty vs = map_option foldAttr (foldInterpretArrayRepeatOp (map const_of vs) ty)"

definition ArrayRepeatOp_parametric_interpret ::
  "(pop_type \<Rightarrow> pop_type) \<Rightarrow> pop_type \<Rightarrow> pop_attr list \<Rightarrow> pop_attr error_or option" where
  "ArrayRepeatOp_parametric_interpret rebind ty as =
     map_option (\<lambda>r. case r of Some a \<Rightarrow> Inr a | None \<Rightarrow> Inl ''cannot interpret pop.array.repeat'')
       (foldInterpretArrayRepeatOp (map Some as) (rebind ty))"

definition ArrayGetOp_fold :: "pop_type \<Rightarrow> int option \<Rightarrow> pop_value \<Rightarrow> fold_result option option" where
  "ArrayGetOp_fold ty index arr =
     (case const_of arr of
        Some (UninitA _) \<Rightarrow> Some (Some (FoldAttr (UninitA ty)))
      | Some (UnknownA _) \<Rightarrow> Some (Some (FoldAttr (UnknownA ty)))
      | c \<Rightarrow>
          (case (index, resolvedSize (value_type arr)) of
             (Some idx, Some n) \<Rightarrow>
               if idx < 0 \<or> int n \<le> idx then Some None
               else (case c of
                       Some (ArrayA _ vs) \<Rightarrow> map_option (\<lambda>a. Some (FoldAttr a)) (at_int vs idx)
                     | _ \<Rightarrow>
                         (case arr of
                            Result _ ArrayCreate _ vs \<Rightarrow> map_option (\<lambda>v. Some (FoldValue v)) (at_int vs idx)
                          | Result _ ArrayRepeat _ vs \<Rightarrow>
                              if vs = [] then None
                              else Some (Some (FoldValue (vs ! (nat idx mod length vs))))
                          | _ \<Rightarrow> Some None))
           | _ \<Rightarrow> Some None))"

definition ArrayGetOp_parametric_interpret :: "int option \<Rightarrow> pop_attr \<Rightarrow> pop_attr error_or option" where
  "ArrayGetOp_parametric_interpret index arr =
     (case (index, resolvedSize (attr_type arr)) of
        (Some idx, Some n) \<Rightarrow>
          if idx < 0 \<or> int n \<le> idx then Some (Inl ''out-of-bound array get'')
          else (case arr of
                  ArrayA _ vs \<Rightarrow> map_option Inr (at_int vs idx)
                | _ \<Rightarrow> Some (Inl ''non-constant inputs''))
      | _ \<Rightarrow> Some (Inl ''non-constant inputs''))"

definition replaceAt :: "'a list \<Rightarrow> int \<Rightarrow> 'a \<Rightarrow> 'a list option" where
  "replaceAt xs i x = (if 0 \<le> i \<and> i < int (length xs) then Some (xs[nat i := x]) else None)"

definition ArrayReplaceOp_fold ::
  "pop_type \<Rightarrow> int option \<Rightarrow> pop_value \<Rightarrow> pop_value \<Rightarrow> fold_result option option" where
  "ArrayReplaceOp_fold ty index val arr =
     (case (const_of val, const_of arr, index) of
        (Some x, Some (ArrayA _ vs), Some i) \<Rightarrow>
          map_option (\<lambda>ws. Some (FoldAttr (ArrayA ty ws))) (replaceAt vs i x)
      | _ \<Rightarrow> Some None)"

definition ArrayReplaceOp_parametric_interpret ::
  "(pop_type \<Rightarrow> pop_type) \<Rightarrow> pop_type \<Rightarrow> int option \<Rightarrow> pop_attr \<Rightarrow> pop_attr \<Rightarrow> pop_attr error_or option" where
  "ArrayReplaceOp_parametric_interpret rebind ty index x arr =
     (case (arr, index) of
        (ArrayA _ vs, Some i) \<Rightarrow> map_option (\<lambda>ws. Inr (ArrayA (rebind ty) ws)) (replaceAt vs i x)
      | _ \<Rightarrow> Some (Inl ''non-constant inputs''))"

text \<open>
  The rewrite of a replacement in a known array into the creation of the array.  The index is truncated
  to 32 bits; a constant that is not an array makes the cast fail.
\<close>

definition ArrayReplaceOp_canonicalize ::
  "int option \<Rightarrow> pop_value \<Rightarrow> pop_value \<Rightarrow> pop_value list option option" where
  "ArrayReplaceOp_canonicalize indexAttr val arr =
     (case indexAttr of
        None \<Rightarrow> Some None
      | Some i \<Rightarrow>
          (let index = ap_wrap 32 i in
           (case arr of
              Result _ ArrayCreate _ vs \<Rightarrow> map_option Some (replaceAt vs (int index) val)
            | Constant a \<Rightarrow>
                (case a of
                   ArrayA _ vs \<Rightarrow>
                     Some (Some (map (\<lambda>j. if j = index then val else Constant (vs ! j)) [0..<length vs]))
                 | _ \<Rightarrow> None)
            | _ \<Rightarrow> Some None)))"

section \<open>Pointers\<close>

definition OffsetOp_fold :: "pop_value \<Rightarrow> pop_value \<Rightarrow> fold_result option" where
  "OffsetOp_fold ptr index =
     (case const_of index of
        Some (IntegerA i) \<Rightarrow> if i \<noteq> 0 then None else Some (FoldValue ptr)
      | _ \<Rightarrow> None)"

definition OffsetOp_canonicalize :: "pop_value \<Rightarrow> pop_value \<Rightarrow> (pop_op \<times> pop_value list) option" where
  "OffsetOp_canonicalize ptr index =
     (case ptr of
        Result _ op _ [base, i] \<Rightarrow>
          if op = ArrayGEP then
            (if const_of i = Some (IntegerA 0) then Some (ArrayGEP, [base, index]) else None)
          else if op = Offset then
            (case (const_of index, const_of i) of
               (Some (IntegerA c1), Some (IntegerA c0)) \<Rightarrow>
                 if wrap64 (c0 + c1) = c0 + c1
                 then Some (Offset, [base, Constant (IntegerA (c0 + c1))]) else None
             | _ \<Rightarrow> None)
          else None
      | _ \<Rightarrow> None)"

definition ArrayGEPOp_canonicalize :: "pop_value \<Rightarrow> pop_value \<Rightarrow> pop_value list option" where
  "ArrayGEPOp_canonicalize arr index =
     (case value_type arr of
        PPtr (PArr (Some n) _) _ \<Rightarrow>
          if n \<noteq> 1 then None
          else if const_of index \<noteq> None then None
          else Some [arr, Constant (IntegerA 0)]
      | _ \<Rightarrow> None)"

definition PointerToIndexOp_fold :: "pop_value \<Rightarrow> fold_result option" where
  "PointerToIndexOp_fold v =
     (case const_of v of Some (PointerA a _) \<Rightarrow> Some (FoldAttr (IntegerA a)) | _ \<Rightarrow> None)"

definition PointerToIndexOp_canonicalize :: "pop_value \<Rightarrow> pop_value option" where
  "PointerToIndexOp_canonicalize v =
     (case v of
        Result _ PointerBitcast _ [x] \<Rightarrow> (case value_type x of PPtr _ _ \<Rightarrow> Some x | _ \<Rightarrow> None)
      | _ \<Rightarrow> None)"

definition PointerToIndexOp_parametric_interpret :: "pop_attr \<Rightarrow> pop_attr error_or" where
  "PointerToIndexOp_parametric_interpret a =
     (case a of PointerA x _ \<Rightarrow> Inr (IntegerA x) | _ \<Rightarrow> Inl ''input pointer is not an index'')"

text \<open>\<^verbatim>\<open>VariantBitcastOp\<close> and \<^verbatim>\<open>UnionBitcastOp\<close>: a pointer to a member has the address of the whole.\<close>

definition VariantBitcastOp_fold :: "pop_type \<Rightarrow> pop_value \<Rightarrow> fold_result option" where
  "VariantBitcastOp_fold ty v =
     (case const_of v of Some (PointerA a _) \<Rightarrow> Some (FoldAttr (PointerA a ty)) | _ \<Rightarrow> None)"

definition VariantBitcastOp_parametric_interpret ::
  "(pop_type \<Rightarrow> pop_type) \<Rightarrow> pop_type \<Rightarrow> pop_attr \<Rightarrow> pop_attr error_or" where
  "VariantBitcastOp_parametric_interpret rebind ty a =
     (case a of PointerA x _ \<Rightarrow> Inr (PointerA x (rebind ty)) | _ \<Rightarrow> Inl ''non-const input'')"

definition UnionBitcastOp_fold :: "pop_type \<Rightarrow> pop_value \<Rightarrow> fold_result option" where
  "UnionBitcastOp_fold ty v =
     (case const_of v of Some (PointerA a _) \<Rightarrow> Some (FoldAttr (PointerA a ty)) | _ \<Rightarrow> None)"

definition UnionBitcastOp_parametric_interpret ::
  "(pop_type \<Rightarrow> pop_type) \<Rightarrow> pop_type \<Rightarrow> pop_attr \<Rightarrow> pop_attr error_or" where
  "UnionBitcastOp_parametric_interpret rebind ty a =
     (case a of PointerA x _ \<Rightarrow> Inr (PointerA x (rebind ty)) | _ \<Rightarrow> Inl ''non-const input'')"

section \<open>Unions\<close>

definition UnionWrapOp_fold :: "pop_type \<Rightarrow> pop_value \<Rightarrow> fold_result option" where
  "UnionWrapOp_fold ty v =
     (case const_of v of
        Some a \<Rightarrow> Some (FoldAttr (UnionA ty a))
      | None \<Rightarrow>
          (case v of
             Result _ UnionUnwrap _ [x] \<Rightarrow> if value_type x = ty then Some (FoldValue x) else None
           | _ \<Rightarrow> None))"

text \<open>The interpreter gives the union the type of the operation as it is written.\<close>

definition UnionWrapOp_parametric_interpret :: "pop_type \<Rightarrow> pop_attr \<Rightarrow> pop_attr error_or" where
  "UnionWrapOp_parametric_interpret ty a = Inr (UnionA ty a)"

definition UnionUnwrapOp_fold :: "pop_type \<Rightarrow> pop_value \<Rightarrow> fold_result option" where
  "UnionUnwrapOp_fold ty v =
     (case const_of v of
        Some (UnionA _ a) \<Rightarrow> if attr_type a = ty then Some (FoldAttr a) else None
      | _ \<Rightarrow>
          (case v of
             Result _ UnionWrap _ [x] \<Rightarrow> if value_type x = ty then Some (FoldValue x) else None
           | _ \<Rightarrow> None))"

definition UnionUnwrapOp_parametric_interpret ::
  "(pop_type \<Rightarrow> pop_type) \<Rightarrow> pop_type \<Rightarrow> pop_attr \<Rightarrow> pop_attr error_or" where
  "UnionUnwrapOp_parametric_interpret rebind ty a =
     (case a of
        UnionA _ x \<Rightarrow> if attr_type x = rebind ty then Inr x else Inl ''non-const input''
      | _ \<Rightarrow> Inl ''non-const input'')"

section \<open>Values of their types\<close>

definition has_type :: "pop_env \<Rightarrow> pop_attr \<Rightarrow> pop_type \<Rightarrow> bool" where
  "has_type E a ty \<longleftrightarrow> attr_type a = ty \<and> wf_attr E a \<and>
     (case a of
        ArrayA t vs \<Rightarrow> resolvedSize t = Some (length vs)
      | PointerA x _ \<Rightarrow> wrap64 x = x
      | _ \<Rightarrow> True)"

text \<open>A value and all operands it depends on have their types, where they have a value.\<close>

fun welltyped :: "pop_env \<Rightarrow> (nat \<Rightarrow> pop_attr) \<Rightarrow> pop_value \<Rightarrow> bool" where
  "welltyped E \<rho> (Arg n t) = has_type E (\<rho> n) t"
| "welltyped E \<rho> (Constant a) = has_type E a (attr_type a)"
| "welltyped E \<rho> (Result n op ty vs) =
     (list_all (welltyped E \<rho>) vs \<and>
      (case eval E \<rho> (Result n op ty vs) of Some a \<Rightarrow> has_type E a ty | None \<Rightarrow> True))"

lemma welltyped_eval: "welltyped E \<rho> v \<Longrightarrow> eval E \<rho> v = Some a \<Longrightarrow> has_type E a (value_type v)"
  by (cases v) auto

lemma eval_attrOrValue [simp]: "eval_fold E \<rho> (attrOrValue v) = eval E \<rho> v"
  by (cases v) (auto simp: attrOrValue_def)

lemma refinesI: "(\<And>a. x = Some a \<Longrightarrow> (\<forall>t. a \<noteq> UninitA t) \<Longrightarrow> y = Some a) \<Longrightarrow> refines x y"
  by (cases "(x, y)" rule: refines.cases) auto

lemma const_eval: "const_of v = Some a \<Longrightarrow> eval E \<rho> v = Some a"
  by (cases v) auto

text \<open>What the operands are when an operation has a value.\<close>

lemma eval_Result: "eval E \<rho> (Result n op ty vs) = Some a \<longleftrightarrow>
    (\<exists>as. map (eval E \<rho>) vs = map Some as \<and> op_sem E op ty as = Some a)"
  by (auto simp: those_eq_Some Option.bind_eq_Some_conv)

lemma extract_sem_Some:
  "extract_sem as = Some a \<longleftrightarrow> (\<exists>d ls i x. as = [SimdA d ls, IntegerA i] \<and> at_int ls i = Some x \<and> a = SimdA d [x])"
  by (cases as rule: extract_sem.cases) auto

lemma insert_sem_Some:
  "insert_sem as = Some a \<longleftrightarrow> (\<exists>d ls x i. as = [SimdA d ls, SimdA d [x], IntegerA i] \<and> 0 \<le> i \<and>
     i < int (length ls) \<and> a = SimdA d (ls[nat i := x]))"
  by (cases as rule: insert_sem.cases) auto

lemma simd_select_sem_Some:
  "simd_select_sem as = Some a \<longleftrightarrow> (\<exists>cs d ts fs. as = [SimdA DBool cs, SimdA d ts, SimdA d fs] \<and>
     length ts = length cs \<and> length fs = length cs \<and> a = SimdA d (zip_select cs ts fs))"
  by (cases as rule: simd_select_sem.cases) auto

lemma shuffle_sem_Some:
  "shuffle_sem ms as = Some a \<longleftrightarrow> (\<exists>d ls rs vs. as = [SimdA d ls, SimdA d rs] \<and>
     those (map (at_int (ls @ rs)) ms) = Some vs \<and> a = SimdA d vs)"
  by (cases "(ms, as)" rule: shuffle_sem.cases) auto

lemma select_sem_Some:
  "select_sem as = Some a \<longleftrightarrow> (\<exists>c x y. as = [SimdA DBool [c], x, y] \<and> a = (if c \<noteq> 0 then x else y))"
  by (cases as rule: select_sem.cases) auto

lemma array_replace_sem_Some:
  "array_replace_sem k ty as = Some a \<longleftrightarrow> (\<exists>i x t vs. k = Some i \<and> as = [x, ArrayA t vs] \<and> 0 \<le> i \<and>
     i < int (length vs) \<and> a = ArrayA ty (vs[nat i := x]))"
  by (cases "(k, ty, as)" rule: array_replace_sem.cases) auto

lemma offset_sem_Some:
  "offset_sem E as = Some a \<longleftrightarrow> (\<exists>x t sp i n. as = [PointerA x (PPtr t sp), IntegerA i] \<and>
     pe_allocSize E t = Some n \<and> a = PointerA (wrap64 (x + int n * i)) (PPtr t sp))"
  by (cases "(E, as)" rule: offset_sem.cases) auto

lemma array_gep_sem_Some:
  "array_gep_sem E as = Some a \<longleftrightarrow> (\<exists>x k t sp i n. as = [PointerA x (PPtr (PArr k t) sp), IntegerA i] \<and>
     pe_allocSize E t = Some n \<and> a = PointerA (wrap64 (x + i * int n)) (PPtr t 0))"
  by (cases "(E, as)" rule: array_gep_sem.cases) auto

lemma union_unwrap_sem_Some:
  "union_unwrap_sem ty as = Some a \<longleftrightarrow> (\<exists>t. as = [UnionA t a] \<and> attr_type a = ty)"
  by (cases "(ty, as)" rule: union_unwrap_sem.cases) auto

lemma to_index_sem_Some: "to_index_sem as = Some a \<longleftrightarrow> (\<exists>x t. as = [PointerA x t] \<and> a = IntegerA x)"
  by (cases as rule: to_index_sem.cases) auto

lemmas sem_Some = extract_sem_Some insert_sem_Some simd_select_sem_Some shuffle_sem_Some select_sem_Some
  array_replace_sem_Some offset_sem_Some array_gep_sem_Some union_unwrap_sem_Some to_index_sem_Some

lemma op_sem_shape: "\<not> is_lane_op op \<Longrightarrow> op_sem E op ty as = shape_sem E op ty as"
  by (simp add: op_sem_def)

lemma shape_ops [simp]:
  "op_sem E SIMDExtract ty as = extract_sem as"
  "op_sem E SIMDInsert ty as = insert_sem as"
  "op_sem E SIMDSelect ty as = simd_select_sem as"
  "op_sem E (SIMDShuffle ms) ty as = shuffle_sem ms as"
  "op_sem E SIMDSplat ty as = splat_sem ty as"
  "op_sem E Select ty as = select_sem as"
  "op_sem E ArrayCreate ty as = Some (ArrayA ty as)"
  "op_sem E ArrayRepeat ty as = repeat_sem ty as"
  "op_sem E (ArrayGet i) ty as = array_get_sem i ty as"
  "op_sem E (ArrayReplace i) ty as = array_replace_sem i ty as"
  "op_sem E Offset ty as = offset_sem E as"
  "op_sem E ArrayGEP ty as = array_gep_sem E as"
  "op_sem E UnionWrap ty as = union_wrap_sem ty as"
  "op_sem E UnionUnwrap ty as = union_unwrap_sem ty as"
  "op_sem E PointerToIndex ty as = to_index_sem as"
  "op_sem E PointerBitcast ty as = bitcast_sem ty as"
  "op_sem E VariantBitcast ty as = bitcast_sem ty as"
  "op_sem E UnionBitcast ty as = bitcast_sem ty as"
  by (simp_all add: op_sem_shape shape_sem_def)

lemma map_Some_Cons [simp]: "a # as = map Some bs \<longleftrightarrow> (\<exists>b cs. bs = b # cs \<and> a = Some b \<and> as = map Some cs)"
  by (cases bs) auto

section \<open>The folders keep the value\<close>

lemma SIMDExtract_sound:
  assumes f: "SIMDExtractElementOp_fold vec pos = Some (Some r)" and w: "welltyped E \<rho> vec"
  shows "refines (eval E \<rho> (Result n SIMDExtract ty [vec, pos])) (eval_fold E \<rho> r)"
proof (rule refinesI)
  fix a assume "eval E \<rho> (Result n SIMDExtract ty [vec, pos]) = Some a"
  then obtain d ls i x where e: "eval E \<rho> vec = Some (SimdA d ls)" "eval E \<rho> pos = Some (IntegerA i)"
    "at_int ls i = Some x" "a = SimdA d [x]"
    unfolding eval_Result by (auto simp: sem_Some)
  have t: "value_type vec = PSimd (Some d) (Some (length ls))"
    using welltyped_eval [OF w e(1)] by (simp add: has_type_def)
  show "eval_fold E \<rho> r = Some a"
  proof (cases "isScalar (value_type vec)")
    case True
    then obtain y where "ls = [y]" by (auto simp: t isScalar_def length_Suc_conv)
    then have "a = SimdA d ls" using e(3,4) by (auto simp: at_int_def split: if_splits)
    then show ?thesis using f True e(1) by (auto simp: SIMDExtractElementOp_fold_def)
  next
    case False
    then show ?thesis using f e
      by (auto simp: SIMDExtractElementOp_fold_def dest!: const_eval [of _ _ E \<rho>] split: option.splits pop_attr.splits)
  qed
qed

lemma SIMDInsert_sound:
  assumes f: "SIMDInsertElementOp_fold ty vec val pos = Some (Some r)"
  shows "refines (eval E \<rho> (Result n SIMDInsert ty [vec, val, pos])) (eval_fold E \<rho> r)"
proof (rule refinesI)
  fix a assume "eval E \<rho> (Result n SIMDInsert ty [vec, val, pos]) = Some a"
  then obtain d ls x i where e: "eval E \<rho> vec = Some (SimdA d ls)" "eval E \<rho> val = Some (SimdA d [x])"
    "eval E \<rho> pos = Some (IntegerA i)" "0 \<le> i" "i < int (length ls)" "a = SimdA d (ls[nat i := x])"
    unfolding eval_Result by (auto simp: sem_Some)
  from f obtain d' ls' d2 xs i' where c: "insertBase ty (const_of vec) = Some (d', ls')" "const_of val = Some (SimdA d2 xs)"
    "const_of pos = Some (IntegerA i')" "map_option (\<lambda>a. Some (FoldAttr a)) (insertLane d' ls' xs i') = Some (Some r)"
    by (auto simp: SIMDInsertElementOp_fold_def split: option.splits pop_attr.splits prod.splits)
  from c(1) obtain b where b: "const_of vec = Some b" by (cases "const_of vec") (auto elim: insertBase.elims)
  then have "const_of vec = Some (SimdA d ls)" using e(1) const_eval [OF b, of E \<rho>] by simp
  then have "d' = d" "ls' = ls" using c(1) by simp_all
  moreover have "xs = [x]" "i' = i" using e(2,3) const_eval [OF c(2), of E \<rho>] const_eval [OF c(3), of E \<rho>] by simp_all
  ultimately show "eval_fold E \<rho> r = Some a" using c(4) e(4-6) by (auto simp: insertLane_def)
qed

lemma zip_select_true: "allTrue cs \<Longrightarrow> length ts = length cs \<Longrightarrow> length fs = length cs \<Longrightarrow> zip_select cs ts fs = ts"
  by (induction cs ts fs rule: zip_select.induct) (auto simp: allTrue_def)

lemma zip_select_false: "allFalse cs \<Longrightarrow> length ts = length cs \<Longrightarrow> length fs = length cs \<Longrightarrow> zip_select cs ts fs = fs"
  by (induction cs ts fs rule: zip_select.induct) (auto simp: allFalse_def)

lemma zip_select_same: "length ts = length cs \<Longrightarrow> zip_select cs ts ts = ts"
proof (induction cs arbitrary: ts)
  case (Cons c cs)
  then show ?case by (cases ts) auto
qed auto

text \<open>Lanes of booleans are zero or one.\<close>

lemma bool_ones: "list_all (\<lambda>x. x < 2) ls \<Longrightarrow> allTrue ls \<Longrightarrow> ls = replicate (length ls) (1::nat)"
  by (induction ls) (auto simp: allTrue_def)

lemma bool_zeros: "allFalse ls \<Longrightarrow> ls = replicate (length ls) (0::nat)"
  by (induction ls) (auto simp: allFalse_def)

lemma zip_select_bool:
  "list_all (\<lambda>x. x < 2) cs \<Longrightarrow> zip_select cs (replicate (length cs) 1) (replicate (length cs) 0) = cs"
  by (induction cs) (auto simp: less_2_cases_iff)

lemma simdVals_Some: "simdVals a = Some (d, ls) \<longleftrightarrow> a = Some (SimdA d ls)"
  by (cases a rule: simdVals.cases) auto

lemma simdVals_eval: "simdVals (const_of v) = Some (d, ls) \<Longrightarrow> eval E \<rho> v = Some (SimdA d ls)"
  by (simp add: simdVals_Some const_eval)

lemma simd_select_values:
  assumes "eval E \<rho> (Result n SIMDSelect ty [c, t, f]) = Some a" "list_all (welltyped E \<rho>) [c, t, f]"
  obtains cs d ts fs where "eval E \<rho> c = Some (SimdA DBool cs)" "eval E \<rho> t = Some (SimdA d ts)"
    "eval E \<rho> f = Some (SimdA d fs)" "length ts = length cs" "length fs = length cs"
    "a = SimdA d (zip_select cs ts fs)" "list_all (\<lambda>x. x < 2) cs" "d = DBool \<longrightarrow> list_all (\<lambda>x. x < 2) ts"
    "d = DBool \<longrightarrow> list_all (\<lambda>x. x < 2) fs"
proof -
  from assms(1) obtain cs d ts fs where e: "eval E \<rho> c = Some (SimdA DBool cs)" "eval E \<rho> t = Some (SimdA d ts)"
    "eval E \<rho> f = Some (SimdA d fs)" "length ts = length cs" "length fs = length cs"
    "a = SimdA d (zip_select cs ts fs)"
    unfolding eval_Result by (auto simp: sem_Some)
  moreover have "wf_attr E (SimdA DBool cs)" "wf_attr E (SimdA d ts)" "wf_attr E (SimdA d fs)"
    using assms(2) e(1-3) by (auto dest!: welltyped_eval simp: has_type_def)
  ultimately show thesis by (intro that [of cs d ts fs]) auto
qed

lemma selectCase_cases:
  assumes "selectCase ty same cond t f \<noteq> NoCase"
  shows "(\<exists>d0 cs d ts d1 fs. simdVals cond = Some (d0, cs) \<and> simdVals t = Some (d, ts) \<and> simdVals f = Some (d1, fs) \<and>
       selectCase ty same cond t f = Lanes (SimdA d (zip_select cs ts fs))) \<or>
     (same \<and> selectCase ty same cond t f = Operand 1) \<or>
     (\<exists>d0 cs. simdVals cond = Some (d0, cs) \<and> allTrue cs \<and> selectCase ty same cond t f = Operand 1) \<or>
     (\<exists>d0 cs. simdVals cond = Some (d0, cs) \<and> allFalse cs \<and> selectCase ty same cond t f = Operand 2) \<or>
     (\<exists>d ts d1 fs. resolvedDType ty = Some DBool \<and> simdVals t = Some (d, ts) \<and> simdVals f = Some (d1, fs) \<and>
       allTrue ts \<and> allFalse fs \<and> selectCase ty same cond t f = Operand 0)"
  using assms by (auto simp: selectCase_def split: option.splits prod.splits if_splits)

lemma SIMDSelect_sound:
  assumes s: "SIMDSelectOp_fold ty c t f = Some r" and w: "welltyped E \<rho> (Result n SIMDSelect ty [c, t, f])"
  shows "refines (eval E \<rho> (Result n SIMDSelect ty [c, t, f])) (eval_fold E \<rho> r)"
proof (rule refinesI)
  fix a assume a: "eval E \<rho> (Result n SIMDSelect ty [c, t, f]) = Some a"
  have w3: "list_all (welltyped E \<rho>) [c, t, f]" using w by simp
  obtain cs d ts fs where e: "eval E \<rho> c = Some (SimdA DBool cs)" "eval E \<rho> t = Some (SimdA d ts)"
    "eval E \<rho> f = Some (SimdA d fs)" "length ts = length cs" "length fs = length cs"
    "a = SimdA d (zip_select cs ts fs)" "list_all (\<lambda>x. x < 2) cs" "d = DBool \<longrightarrow> list_all (\<lambda>x. x < 2) ts"
    "d = DBool \<longrightarrow> list_all (\<lambda>x. x < 2) fs" by (rule simd_select_values [OF a w3])
  have ty: "ty = attr_type a" using welltyped_eval [OF w a] by (simp add: has_type_def)
  have const: "\<And>v d ls. simdVals (const_of v) = Some (d, ls) \<Longrightarrow> eval E \<rho> v = Some (SimdA d ls)"
    by (rule simdVals_eval)
  have nc: "selectCase ty (t = f) (const_of c) (const_of t) (const_of f) \<noteq> NoCase"
    using s by (auto simp: SIMDSelectOp_fold_def)
  from selectCase_cases [OF nc] show "eval_fold E \<rho> r = Some a"
  proof (elim disjE exE conjE)
    fix d0 cs' d' ts' d1 fs'
    assume "simdVals (const_of c) = Some (d0, cs')" "simdVals (const_of t) = Some (d', ts')"
      "simdVals (const_of f) = Some (d1, fs')"
      "selectCase ty (t = f) (const_of c) (const_of t) (const_of f) = Lanes (SimdA d' (zip_select cs' ts' fs'))"
    then show ?thesis using s e const [of c] const [of t] const [of f] by (auto simp: SIMDSelectOp_fold_def)
  next
    assume "t = f" "selectCase ty (t = f) (const_of c) (const_of t) (const_of f) = Operand 1"
    then show ?thesis using s e zip_select_same [of ts cs] by (auto simp: SIMDSelectOp_fold_def)
  next
    fix d0 cs' assume "simdVals (const_of c) = Some (d0, cs')" "allTrue cs'"
      "selectCase ty (t = f) (const_of c) (const_of t) (const_of f) = Operand 1"
    then show ?thesis using s e zip_select_true [of cs ts fs] const [of c] by (auto simp: SIMDSelectOp_fold_def)
  next
    fix d0 cs' assume "simdVals (const_of c) = Some (d0, cs')" "allFalse cs'"
      "selectCase ty (t = f) (const_of c) (const_of t) (const_of f) = Operand 2"
    then show ?thesis using s e zip_select_false [of cs ts fs] const [of c] by (auto simp: SIMDSelectOp_fold_def)
  next
    fix d' ts' d1 fs' assume b: "resolvedDType ty = Some DBool" "simdVals (const_of t) = Some (d', ts')"
      "simdVals (const_of f) = Some (d1, fs')" "allTrue ts'" "allFalse fs'"
      "selectCase ty (t = f) (const_of c) (const_of t) (const_of f) = Operand 0"
    have d: "d = DBool" using b(1) ty e(6) by simp
    have "ts = replicate (length cs) 1" "fs = replicate (length cs) 0"
      using bool_ones [of ts] bool_zeros [of fs] b(4,5) e d const [OF b(2)] const [OF b(3)] by auto
    then have "a = SimdA DBool cs" using zip_select_bool e d by simp
    then show ?thesis using s e b(6) by (auto simp: SIMDSelectOp_fold_def)
  qed
qed

lemma SIMDShuffle_sound:
  assumes s: "SIMDShuffleOp_fold ty msk lhs rhs = Some (Some r)" and m: "msk = Some (ArrayA mt (map IntegerA ms))"
  shows "refines (eval E \<rho> (Result n (SIMDShuffle ms) ty [lhs, rhs])) (eval_fold E \<rho> r)"
proof (rule refinesI)
  fix a assume "eval E \<rho> (Result n (SIMDShuffle ms) ty [lhs, rhs]) = Some a"
  then obtain d ls rs vs where e: "eval E \<rho> lhs = Some (SimdA d ls)" "eval E \<rho> rhs = Some (SimdA d rs)"
    "those (map (at_int (ls @ rs)) ms) = Some vs" "a = SimdA d vs"
    unfolding eval_Result by (auto simp: sem_Some)
  have "map intAttr (map IntegerA ms) = map Some ms" by simp
  then have i: "those (map (intAttr \<circ> IntegerA) ms) = Some ms" by (simp only: map_map those_map_Some)
  then show "eval_fold E \<rho> r = Some a"
    using s e by (auto simp: SIMDShuffleOp_fold_def m shuffleLanes_def
        dest!: simdVals_eval [of _ _ _ E \<rho>] split: option.splits prod.splits)
qed

lemma isSimdE:
  assumes "isSimd (const_of v)"
  obtains d ls where "const_of v = Some (SimdA d ls)"
  using assms by (auto simp: isSimd_def split: option.splits pop_attr.splits)

lemma isUninitE:
  assumes "isUninit (const_of v)"
  obtains t where "const_of v = Some (UninitA t)"
  using assms by (auto simp: isUninit_def split: option.splits pop_attr.splits)

lemma Select_sound:
  assumes s: "SelectOp_fold ty c t f = Some r" and w: "welltyped E \<rho> (Result n Select ty [c, t, f])"
  shows "refines (eval E \<rho> (Result n Select ty [c, t, f])) (eval_fold E \<rho> r)"
proof (rule refinesI)
  fix a assume a: "eval E \<rho> (Result n Select ty [c, t, f]) = Some a" and u: "\<forall>t. a \<noteq> UninitA t"
  then obtain b x y where e: "eval E \<rho> c = Some (SimdA DBool [b])" "eval E \<rho> t = Some x" "eval E \<rho> f = Some y"
    "a = (if b \<noteq> 0 then x else y)" unfolding eval_Result by (auto simp: sem_Some)
  have ty: "has_type E a ty" using welltyped_eval [OF w a] by simp
  have wc: "has_type E (SimdA DBool [b]) (value_type c)" using welltyped_eval [OF _ e(1)] w by simp
  show "eval_fold E \<rho> r = Some a"
  proof (cases "isSimd (const_of c)")
    case True
    then obtain d ls where "const_of c = Some (SimdA d ls)" by (rule isSimdE)
    then show ?thesis using s True e const_eval [of c _ E \<rho>] by (auto simp: SelectOp_fold_def getAsBool_def split: if_splits)
  next
    case False
    show ?thesis
    proof (cases "value_type c = ty \<and> isSimd (const_of t) \<and> isSimd (const_of f) \<and>
              getAsBool (the (const_of t)) \<and> \<not> getAsBool (the (const_of f))")
      case True
      then obtain d1 l1 d2 l2 where k: "const_of t = Some (SimdA d1 l1)" "const_of f = Some (SimdA d2 l2)"
        by (metis isSimdE)
      then have xy: "x = SimdA d1 l1" "y = SimdA d2 l2" using e(2,3) const_eval [of t _ E \<rho>] const_eval [of f _ E \<rho>] by auto
      have "b < 2" "ty = PSimd (Some DBool) (Some 1)" using wc True by (auto simp: has_type_def)
      then have "a = SimdA DBool [b]"
        using ty e(4) xy True k
        by (auto simp: has_type_def getAsBool_def less_2_cases_iff length_Suc_conv split: if_splits list.splits)
      then show ?thesis using s False True e(1) by (auto simp: SelectOp_fold_def)
    next
      case other: False
      show ?thesis
        using s False other e u
        by (auto simp: SelectOp_fold_def dest!: const_eval [of _ _ E \<rho>] elim!: isUninitE split: if_splits)
    qed
  qed
qed

section \<open>Repeating the operands\<close>

lemma repeatLoop_copies:
  assumes "args \<noteq> []"
  shows "\<exists>k. repeatLoop args n (concat (replicate j args)) = Some (concat (replicate k args)) \<and> n \<le> k * length args"
proof (induction "n - length (concat (replicate j args))" arbitrary: j rule: less_induct)
  case less
  have len: "length (concat (replicate j args)) = j * length args" for j
    by (induction j) simp_all
  have app: "concat (replicate j args) @ args = concat (replicate (Suc j) args)"
    by (induction j) simp_all
  show ?case
  proof (cases "length (concat (replicate j args)) < n")
    case True
    then have "n - length (concat (replicate (Suc j) args)) < n - length (concat (replicate j args))"
      using assms by (simp add: len diff_less_mono2)
    from less [OF this] show ?thesis
      using True by (subst repeatLoop.simps) (simp only: app if_True)
  next
    case False
    then show ?thesis by (subst repeatLoop.simps) (auto simp: len intro: exI [of _ j])
  qed
qed

lemma take_copies:
  assumes "args \<noteq> []" "n \<le> k * length args"
  shows "take n (concat (replicate k args)) = repeat_to n args"
proof (rule nth_equalityI)
  have len: "length (concat (replicate k args)) = k * length args" by (induction k) simp_all
  show "length (take n (concat (replicate k args))) = length (repeat_to n args)" using assms(2) len by simp
next
  have len: "length (concat (replicate k args)) = k * length args" by (induction k) simp_all
  fix i assume "i < length (take n (concat (replicate k args)))"
  then have i: "i < n" by simp
  then have "i div length args < k"
    using assms by (metis div_less_iff_less_mult length_greater_0_conv less_le_trans)
  then have "concat (replicate k args) ! (i div length args * length args + i mod length args) =
      replicate k args ! (i div length args) ! (i mod length args)"
    using assms(1) by (intro concat_nth_uniform) (simp_all add: list_all_length)
  then show "take n (concat (replicate k args)) ! i = repeat_to n args ! i"
    using i \<open>i div length args < k\<close> by simp
qed

lemma repeatLoop_result:
  assumes "args \<noteq> [] \<or> n = 0"
  shows "\<exists>vs. repeatLoop args n [] = Some vs \<and> take n vs = repeat_to n args"
proof (cases "args = []")
  case True
  then show ?thesis using assms by (subst repeatLoop.simps) simp
next
  case False
  from repeatLoop_copies [OF this, of n 0] obtain k
    where "repeatLoop args n [] = Some (concat (replicate k args))" "n \<le> k * length args" by auto
  with take_copies [OF False] show ?thesis by blast
qed

text \<open>Without operands the loop never reaches a positive size.\<close>

lemma repeatLoop_diverges: "length values < n \<Longrightarrow> repeatLoop [] n values = None"
proof (rule ccontr)
  assume n: "length values < n" and "repeatLoop [] n values \<noteq> None"
  then obtain y where y: "repeatLoop [] n values = Some y" by blast
  have "args = [] \<longrightarrow> n \<le> length vs" if "repeatLoop args n vs = Some y" for args :: "'a list" and n vs y
    using that by (rule repeatLoop.raw_induct [rotated]) (fastforce split: if_splits)
  from this [OF y] n show False by simp
qed

text \<open>
  Repeating the operands of an array ends, and gives the element at position \<open>i\<close> the operand
  \<open>i mod\<close> the number of operands, exactly when there is an operand or the array is empty; for a
  non-empty array without operands the loop never ends.
\<close>
theorem array_repeat_ends:
  "foldInterpretArrayRepeatOp (map Some args) (PArr (Some n) t) =
     (if args = [] \<and> 0 < n then None
      else Some (Some (ArrayA (PArr (Some n) t) (map (\<lambda>i. args ! (i mod length args)) [0..<n]))))"
proof (cases "args = [] \<and> 0 < n")
  case True
  then show ?thesis using repeatLoop_diverges [of "[] :: pop_attr list" n]
    by (simp add: foldInterpretArrayRepeatOp_def)
next
  case False
  then have "args \<noteq> [] \<or> n = 0" by simp
  from repeatLoop_result [OF this] show ?thesis using False
    by (auto simp: foldInterpretArrayRepeatOp_def)
qed

section \<open>Arrays, pointers and unions keep the value\<close>

lemma repeat_fold_sem:
  "foldInterpretArrayRepeatOp (map Some args) ty = Some (Some a) \<Longrightarrow> repeat_sem ty args = Some a"
proof -
  assume f: "foldInterpretArrayRepeatOp (map Some args) ty = Some (Some a)"
  then obtain n vs where n: "resolvedSize ty = Some n" "repeatLoop args n [] = Some vs" "a = ArrayA ty (take n vs)"
    by (auto simp: foldInterpretArrayRepeatOp_def split: option.splits)
  then have "\<not> (args = [] \<and> 0 < n)" using repeatLoop_diverges [of "[] :: pop_attr list" n] by fastforce
  moreover from this have "take n vs = repeat_to n args" using repeatLoop_result [of args n] n(2) by auto
  ultimately show ?thesis using n by (auto simp: repeat_sem_def)
qed

lemma ArrayRepeat_sound:
  assumes "ArrayRepeatOp_fold ty vs = Some (Some r)"
  shows "refines (eval E \<rho> (Result n ArrayRepeat ty vs)) (eval_fold E \<rho> r)"
proof -
  from assms obtain a where a: "foldInterpretArrayRepeatOp (map const_of vs) ty = Some (Some a)" "r = FoldAttr a"
    by (auto simp: ArrayRepeatOp_fold_def foldAttr_def)
  then obtain args where args: "map const_of vs = map Some args"
    by (auto simp: foldInterpretArrayRepeatOp_def those_eq_Some split: option.splits)
  have "map (eval E \<rho>) vs = map Some args" by (rule const_of_eval [OF args])
  moreover have "repeat_sem ty args = Some a" using a(1) unfolding args by (rule repeat_fold_sem)
  ultimately show ?thesis using a(2) by simp
qed

lemma ArrayCreate_sound:
  assumes "ArrayCreateOp_fold ty vs = Some r"
  shows "refines (eval E \<rho> (Result n ArrayCreate ty vs)) (eval_fold E \<rho> r)"
proof -
  from assms obtain as where as: "map const_of vs = map Some as" "r = FoldAttr (ArrayA ty as)"
    by (auto simp: ArrayCreateOp_fold_def those_eq_Some)
  from const_of_eval [OF as(1), of E \<rho>] as(2) show ?thesis by simp
qed

lemma nth_eval:
  assumes "map (eval E \<rho>) vs = map Some as" "i < length vs"
  shows "eval E \<rho> (vs ! i) = Some (as ! i)"
proof -
  have "length vs = length as" using assms(1) by (metis length_map)
  then show ?thesis using assms by (metis nth_map)
qed

lemma ArrayGet_sound:
  assumes f: "ArrayGetOp_fold ty index arr = Some (Some r)" and w: "welltyped E \<rho> arr"
  shows "refines (eval E \<rho> (Result n (ArrayGet index) ty [arr])) (eval_fold E \<rho> r)"
proof (cases "\<exists>t. const_of arr = Some (UninitA t) \<or> const_of arr = Some (UnknownA t)")
  case True
  then obtain t where "const_of arr = Some (UninitA t) \<or> const_of arr = Some (UnknownA t)" by blast
  then show ?thesis using f by (auto simp: ArrayGetOp_fold_def const_eval)
next
  case False
  then obtain idx k where i: "index = Some idx" "resolvedSize (value_type arr) = Some k" "0 \<le> idx" "idx < int k"
    using f by (auto simp: ArrayGetOp_fold_def split: option.splits pop_attr.splits if_splits)
  show ?thesis
  proof (rule refinesI)
    fix a assume a: "eval E \<rho> (Result n (ArrayGet index) ty [arr]) = Some a" and u: "\<forall>t. a \<noteq> UninitA t"
    consider t vs b where "const_of arr = Some (ArrayA t vs)" "at_int vs idx = Some b" "r = FoldAttr b"
      | m t vs v where "arr = Result m ArrayCreate t vs" "at_int vs idx = Some v" "r = FoldValue v"
      | m t vs where "arr = Result m ArrayRepeat t vs" "vs \<noteq> []" "r = FoldValue (vs ! (nat idx mod length vs))"
      using f i False
      by (auto simp: ArrayGetOp_fold_def split: option.splits pop_attr.splits if_splits pop_value.splits pop_op.splits)
    then show "eval_fold E \<rho> r = Some a"
    proof cases
      case 1
      then show ?thesis using a i(1) by (auto simp: const_eval)
    next
      case 2
      then obtain as where as: "map (eval E \<rho>) vs = map Some as" "at_int as idx = Some a"
        using a i(1) by (auto simp: those_eq_Some Option.bind_eq_Some_conv split: option.splits)
      then have "length vs = length as" by (metis length_map)
      then show ?thesis using 2 as nth_eval [OF as(1), of "nat idx"] by (auto simp: at_int_def split: if_splits)
    next
      case 3
      then obtain as where as: "map (eval E \<rho>) vs = map Some as" "Option.bind (repeat_sem t as) (\<lambda>x. array_get_sem index ty [x]) = Some a"
        using a by (auto simp: those_eq_Some Option.bind_eq_Some_conv split: option.splits)
      then have l: "length vs = length as" by (metis length_map)
      have "a = as ! (nat idx mod length as)"
        using as(2) i by (auto simp: repeat_sem_def at_int_def split: option.splits if_splits)
      moreover have "nat idx mod length vs < length vs" using 3 by simp
      ultimately show ?thesis using 3 l nth_eval [OF as(1), of "nat idx mod length vs"] by simp
    qed
  qed
qed

lemma ArrayReplace_sound:
  assumes "ArrayReplaceOp_fold ty index val arr = Some (Some r)"
  shows "refines (eval E \<rho> (Result n (ArrayReplace index) ty [val, arr])) (eval_fold E \<rho> r)"
proof -
  from assms obtain x t vs i ws where c: "const_of val = Some x" "const_of arr = Some (ArrayA t vs)" "index = Some i"
    "replaceAt vs i x = Some ws" "r = FoldAttr (ArrayA ty ws)"
    by (auto simp: ArrayReplaceOp_fold_def split: option.splits pop_attr.splits)
  then show ?thesis by (auto simp: const_eval replaceAt_def split: if_splits)
qed

lemma Offset_sound:
  assumes f: "OffsetOp_fold ptr index = Some r" and w: "welltyped E \<rho> ptr"
  shows "refines (eval E \<rho> (Result n Offset ty [ptr, index])) (eval_fold E \<rho> r)"
proof (rule refinesI)
  fix a assume "eval E \<rho> (Result n Offset ty [ptr, index]) = Some a"
  then obtain x t sp i k where e: "eval E \<rho> ptr = Some (PointerA x (PPtr t sp))" "eval E \<rho> index = Some (IntegerA i)"
    "a = PointerA (wrap64 (x + int k * i)) (PPtr t sp)" unfolding eval_Result by (auto simp: sem_Some)
  have "wrap64 x = x" using welltyped_eval [OF w e(1)] by (simp add: has_type_def)
  then show "eval_fold E \<rho> r = Some a"
    using f e by (auto simp: OffsetOp_fold_def dest!: const_eval [of _ _ E \<rho>]
        split: option.splits pop_attr.splits if_splits)
qed

lemma UnionWrap_sound:
  assumes f: "UnionWrapOp_fold ty v = Some r" and w: "welltyped E \<rho> v"
  shows "refines (eval E \<rho> (Result n UnionWrap ty [v])) (eval_fold E \<rho> r)"
proof (cases "const_of v")
  case (Some a)
  then show ?thesis using f by (auto simp: UnionWrapOp_fold_def const_eval)
next
  case None
  then obtain m t x where v: "v = Result m UnionUnwrap t [x]" "value_type x = ty" "r = FoldValue x"
    using f by (auto simp: UnionWrapOp_fold_def split: pop_value.splits pop_op.splits list.splits if_splits)
  show ?thesis
  proof (rule refinesI)
    fix a assume "eval E \<rho> (Result n UnionWrap ty [v]) = Some a"
    then obtain b u where b: "eval E \<rho> x = Some (UnionA u b)" "a = UnionA ty b"
      unfolding v eval_Result by (auto simp: sem_Some Option.bind_eq_Some_conv split: option.splits)
    moreover have "u = ty" using welltyped_eval [OF _ b(1)] w v by (simp add: has_type_def)
    ultimately show "eval_fold E \<rho> r = Some a" using v by simp
  qed
qed

lemma UnionUnwrap_sound:
  assumes f: "UnionUnwrapOp_fold ty v = Some r"
  shows "refines (eval E \<rho> (Result n UnionUnwrap ty [v])) (eval_fold E \<rho> r)"
proof -
  from f consider t a where "const_of v = Some (UnionA t a)" "attr_type a = ty" "r = FoldAttr a"
    | m t x where "v = Result m UnionWrap t [x]" "r = FoldValue x"
    by (auto simp: UnionUnwrapOp_fold_def
        split: option.splits pop_attr.splits pop_value.splits pop_op.splits list.splits if_splits)
  then show ?thesis
  proof cases
    case 1
    then show ?thesis by (simp add: const_eval)
  next
    case 2
    then show ?thesis
      by (intro refinesI) (auto simp: Option.bind_eq_Some_conv sem_Some split: option.splits)
  qed
qed

text \<open>The folder of each operation.\<close>

definition fold_shape_op :: "pop_op \<Rightarrow> pop_type \<Rightarrow> pop_value list \<Rightarrow> fold_result option option" where
  "fold_shape_op op ty vs =
     (case op of
        ArrayCreate \<Rightarrow> Some (ArrayCreateOp_fold ty vs)
      | ArrayRepeat \<Rightarrow> ArrayRepeatOp_fold ty vs
      | _ \<Rightarrow>
          (case (op, vs) of
             (SIMDExtract, [vec, pos]) \<Rightarrow> SIMDExtractElementOp_fold vec pos
           | (SIMDInsert, [vec, val, pos]) \<Rightarrow> SIMDInsertElementOp_fold ty vec val pos
           | (SIMDSelect, [c, t, f]) \<Rightarrow> Some (SIMDSelectOp_fold ty c t f)
           | (SIMDShuffle ms, [lhs, rhs]) \<Rightarrow>
               SIMDShuffleOp_fold ty (Some (ArrayA (PArr (Some (length ms)) PIndex) (map IntegerA ms))) lhs rhs
           | (Select, [c, t, f]) \<Rightarrow> Some (SelectOp_fold ty c t f)
           | (ArrayGet i, [arr]) \<Rightarrow> ArrayGetOp_fold ty i arr
           | (ArrayReplace i, [val, arr]) \<Rightarrow> ArrayReplaceOp_fold ty i val arr
           | (Offset, [ptr, index]) \<Rightarrow> Some (OffsetOp_fold ptr index)
           | (PointerToIndex, [v]) \<Rightarrow> Some (PointerToIndexOp_fold v)
           | (VariantBitcast, [v]) \<Rightarrow> Some (VariantBitcastOp_fold ty v)
           | (UnionBitcast, [v]) \<Rightarrow> Some (UnionBitcastOp_fold ty v)
           | (UnionWrap, [v]) \<Rightarrow> Some (UnionWrapOp_fold ty v)
           | (UnionUnwrap, [v]) \<Rightarrow> Some (UnionUnwrapOp_fold ty v)
           | _ \<Rightarrow> Some None))"

lemma pointer_folds_sound:
  "PointerToIndexOp_fold v = Some r \<Longrightarrow> eval_fold E \<rho> r = eval E \<rho> (Result n PointerToIndex ty [v])"
  "VariantBitcastOp_fold ty v = Some r \<Longrightarrow> eval_fold E \<rho> r = eval E \<rho> (Result n VariantBitcast ty [v])"
  "UnionBitcastOp_fold ty v = Some r \<Longrightarrow> eval_fold E \<rho> r = eval E \<rho> (Result n UnionBitcast ty [v])"
  by (auto simp: PointerToIndexOp_fold_def VariantBitcastOp_fold_def UnionBitcastOp_fold_def
      dest!: const_eval [of _ _ E \<rho>] split: option.splits pop_attr.splits)

text \<open>
  C15. Folding operations on vectors, arrays, pointers and unions is sound: whatever a folder returns, a
  constant, an operand, or an operand of the operation that made the operand, has the value of the
  operation, wherever that has a value that is not undefined.
\<close>
theorem shape_folders_sound:
  assumes f: "fold_shape_op op ty vs = Some (Some r)" and w: "welltyped E \<rho> (Result n op ty vs)"
  shows "refines (eval E \<rho> (Result n op ty vs)) (eval_fold E \<rho> r)"
proof (cases op)
  case SIMDExtract
  then show ?thesis using f w SIMDExtract_sound [of _ _ r E \<rho> n ty] by (auto simp: fold_shape_op_def simp del: eval.simps split: list.splits)
next
  case SIMDInsert
  then show ?thesis using f SIMDInsert_sound [of ty _ _ _ r E \<rho> n] by (auto simp: fold_shape_op_def simp del: eval.simps split: list.splits)
next
  case SIMDSelect
  then show ?thesis using f w SIMDSelect_sound [of ty _ _ _ r E \<rho> n] by (auto simp: fold_shape_op_def simp del: eval.simps split: list.splits)
next
  case (SIMDShuffle ms)
  then show ?thesis using f SIMDShuffle_sound [OF _ refl, of ty _ ms _ _ r E \<rho> n] by (auto simp: fold_shape_op_def simp del: eval.simps split: list.splits)
next
  case Select
  then show ?thesis using f w Select_sound [of ty _ _ _ r E \<rho> n] by (auto simp: fold_shape_op_def simp del: eval.simps split: list.splits)
next
  case ArrayCreate
  then show ?thesis using f ArrayCreate_sound [of ty vs r E \<rho> n] by (simp add: fold_shape_op_def)
next
  case ArrayRepeat
  then show ?thesis using f ArrayRepeat_sound [of ty vs r E \<rho> n] by (simp add: fold_shape_op_def)
next
  case (ArrayGet i)
  then show ?thesis using f w ArrayGet_sound [of ty i _ r E \<rho> n] by (auto simp: fold_shape_op_def simp del: eval.simps split: list.splits)
next
  case (ArrayReplace i)
  then show ?thesis using f ArrayReplace_sound [of ty i _ _ r E \<rho> n] by (auto simp: fold_shape_op_def simp del: eval.simps split: list.splits)
next
  case Offset
  then show ?thesis using f w Offset_sound [of _ _ r E \<rho> n ty] by (auto simp: fold_shape_op_def simp del: eval.simps split: list.splits)
next
  case UnionWrap
  then show ?thesis using f w UnionWrap_sound [of ty _ r E \<rho> n] by (auto simp: fold_shape_op_def simp del: eval.simps split: list.splits)
next
  case UnionUnwrap
  then show ?thesis using f UnionUnwrap_sound [of ty _ r E \<rho> n] by (auto simp: fold_shape_op_def simp del: eval.simps split: list.splits)
next
  case PointerToIndex
  then show ?thesis using f pointer_folds_sound(1) [of _ r E \<rho> n ty] by (auto simp: fold_shape_op_def simp del: eval.simps split: list.splits)
next
  case VariantBitcast
  then show ?thesis using f pointer_folds_sound(2) [of ty _ r E \<rho> n] by (auto simp: fold_shape_op_def simp del: eval.simps split: list.splits)
next
  case UnionBitcast
  then show ?thesis using f pointer_folds_sound(3) [of ty _ r E \<rho> n] by (auto simp: fold_shape_op_def simp del: eval.simps split: list.splits)
qed (use f in \<open>simp_all add: fold_shape_op_def\<close>)

theorem shape_folders_sound_witness:
  "refines (eval sample_pop (\<lambda>k. SimdA (DInt 8 False) [k])
      (Result 2 (ArrayGet (Some 2)) (PSimd (Some (DInt 8 False)) (Some 1))
        [Result 1 ArrayRepeat (PArr (Some 3) (PSimd (Some (DInt 8 False)) (Some 1)))
           [Arg 4 (PSimd (Some (DInt 8 False)) (Some 1)), Arg 5 (PSimd (Some (DInt 8 False)) (Some 1))]]))
    (Some (SimdA (DInt 8 False) [4]))"
proof -
  let ?s = "PSimd (Some (DInt 8 False)) (Some 1)"
  let ?arr = "Result 1 ArrayRepeat (PArr (Some 3) ?s) [Arg 4 ?s, Arg 5 ?s]"
  have "fold_shape_op (ArrayGet (Some 2)) ?s [?arr] = Some (Some (FoldValue (Arg 4 ?s)))"
    by (simp add: fold_shape_op_def ArrayGetOp_fold_def numeral_2_eq_2)
  moreover have e: "eval sample_pop (\<lambda>k. SimdA (DInt 8 False) [k]) ?arr =
      Some (ArrayA (PArr (Some 3) ?s) (map (\<lambda>x. SimdA (DInt 8 False) [x]) [4, 5, 4]))"
    by (simp add: repeat_sem_def upt_rec)
  have "eval sample_pop (\<lambda>k. SimdA (DInt 8 False) [k]) (Result 2 (ArrayGet (Some 2)) ?s [?arr]) =
      Some (SimdA (DInt 8 False) [4])"
    by (subst eval.simps(3), simp only: list.map e) (simp add: at_int_def)
  with e have "welltyped sample_pop (\<lambda>k. SimdA (DInt 8 False) [k]) (Result 2 (ArrayGet (Some 2)) ?s [?arr])"
    by (simp add: has_type_def del: eval.simps(3))
  ultimately show ?thesis using shape_folders_sound by fastforce
qed

section \<open>The canonicalizations keep the value\<close>

definition canonicalize_op :: "pop_op \<Rightarrow> pop_type \<Rightarrow> pop_value list \<Rightarrow> (pop_op \<times> pop_value list) option option" where
  "canonicalize_op op ty vs =
     (case (op, vs) of
        (SIMDSelect, [c, t, f]) \<Rightarrow> Some (SIMDSelectOp_canonicalize ty c t f)
      | (Select, [c, t, f]) \<Rightarrow> Some (map_option (Pair Select) (SelectOfSelect c t f))
      | (Offset, [ptr, index]) \<Rightarrow> Some (OffsetOp_canonicalize ptr index)
      | (ArrayGEP, [arr, index]) \<Rightarrow> Some (map_option (Pair ArrayGEP) (ArrayGEPOp_canonicalize arr index))
      | (ArrayReplace i, [val, arr]) \<Rightarrow>
          map_option (map_option (Pair ArrayCreate)) (ArrayReplaceOp_canonicalize i val arr)
      | (PointerToIndex, [v]) \<Rightarrow> Some (map_option (\<lambda>x. (PointerToIndex, [x])) (PointerToIndexOp_canonicalize v))
      | _ \<Rightarrow> Some None)"

lemma select_not_lanes:
  "list_all (\<lambda>x. x < 2) cs \<Longrightarrow>
   those (map2 (\<lambda>x y. lane_fn E fi ff (bool2 (\<noteq>)) DBool [x, y]) cs (replicate (length cs) 1)) =
     Some (zip_select cs (replicate (length cs) 0) (replicate (length cs) 1))"
  by (induction cs) (auto simp: bool2_def less_2_cases_iff)

lemma SIMDSelect_rewrite:
  assumes s: "SIMDSelectOp_canonicalize ty c t f = Some (op, vs)" and w: "welltyped E \<rho> (Result n SIMDSelect ty [c, t, f])"
  shows "refines (eval E \<rho> (Result n SIMDSelect ty [c, t, f])) (eval E \<rho> (Result n op ty vs))"
proof (rule refinesI)
  fix a assume a: "eval E \<rho> (Result n SIMDSelect ty [c, t, f]) = Some a"
  obtain cs d ts fs where e: "eval E \<rho> c = Some (SimdA DBool cs)" "eval E \<rho> t = Some (SimdA d ts)"
    "eval E \<rho> f = Some (SimdA d fs)" "length ts = length cs" "length fs = length cs"
    "a = SimdA d (zip_select cs ts fs)" "list_all (\<lambda>x. x < 2) cs" "d = DBool \<longrightarrow> list_all (\<lambda>x. x < 2) ts"
    "d = DBool \<longrightarrow> list_all (\<lambda>x. x < 2) fs" by (rule simd_select_values [OF a]) (use w in simp)
  have ty: "ty = attr_type a" using welltyped_eval [OF w a] by (simp add: has_type_def)
  from s obtain d1 ts' d2 fs' where k: "resolvedDType ty = Some DBool" "simdVals (const_of t) = Some (d1, ts')"
    "simdVals (const_of f) = Some (d2, fs')" "allFalse ts'" "allTrue fs'" "op = SIMDXOr" "vs = [c, f]"
    by (auto simp: SIMDSelectOp_canonicalize_def split: if_splits option.splits)
  have d: "d = DBool" using k(1) ty e(6) by simp
  have r: "ts = replicate (length cs) 0" "fs = replicate (length cs) 1"
    using bool_zeros [of ts] bool_ones [of fs] k(4,5) e d simdVals_eval [OF k(2), of E \<rho>] simdVals_eval [OF k(3), of E \<rho>]
    by auto
  have "those (map2 (\<lambda>x y. lane_fn E (bits2 (and)) no_float (bool2 (\<noteq>)) DBool [x, y]) cs fs) = Some (zip_select cs ts fs)"
    unfolding r by (rule select_not_lanes [OF e(7)])
  then show "eval E \<rho> (Result n op ty vs) = Some a"
    using e d by (simp add: k(6,7) op_sem_def lane_op_def lanewise2)
qed

lemma selectOperands_Some: "selectOperands v = Some (c, t, f) \<Longrightarrow> \<exists>m ty. v = Result m Select ty [c, t, f]"
  by (cases v rule: selectOperands.cases) auto

lemma Select_rewrite:
  assumes s: "SelectOfSelect c t f = Some vs"
  shows "refines (eval E \<rho> (Result n Select ty [c, t, f])) (eval E \<rho> (Result n Select ty vs))"
proof (rule refinesI)
  fix a assume "eval E \<rho> (Result n Select ty [c, t, f]) = Some a"
  then obtain b x y where e: "eval E \<rho> c = Some (SimdA DBool [b])" "eval E \<rho> t = Some x" "eval E \<rho> f = Some y"
    "a = (if b \<noteq> 0 then x else y)" unfolding eval_Result by (auto simp: sem_Some)
  from s consider m t' p q where "t = Result m Select t' [c, p, q]" "vs = [c, p, f]"
    | m t' p q where "f = Result m Select t' [c, p, q]" "vs = [c, t, q]"
    by (auto simp: SelectOfSelect_def dest!: selectOperands_Some split: option.splits if_splits)
  then show "eval E \<rho> (Result n Select ty vs) = Some a"
  proof cases
    case 1
    with e(2) obtain x1 x2 where "eval E \<rho> p = Some x1" "x = (if b \<noteq> 0 then x1 else x2)"
      by (simp only: eval_Result) (use e(1) in \<open>auto simp: sem_Some\<close>)
    then show ?thesis using 1 e by simp
  next
    case 2
    with e(3) obtain x1 x2 where "eval E \<rho> q = Some x2" "y = (if b \<noteq> 0 then x1 else x2)"
      by (simp only: eval_Result) (use e(1) in \<open>auto simp: sem_Some\<close>)
    then show ?thesis using 2 e by simp
  qed
qed

lemma wrap64_add: "wrap64 (wrap64 x + y) = wrap64 (x + y)"
proof -
  have "ap_int 64 True (ap_wrap 64 x) mod 2 ^ 64 = x mod 2 ^ 64"
    using ap_int_mod [OF ap_wrap_lt, of 64 True x] by simp
  then have "(ap_int 64 True (ap_wrap 64 x) + y) mod 2 ^ 64 = (x + y) mod 2 ^ 64" by (rule mod_add_cong) (rule refl)
  then have "ap_wrap 64 (ap_int 64 True (ap_wrap 64 x) + y) = ap_wrap 64 (x + y)" by (rule ap_wrap_cong)
  then show ?thesis unfolding wrap64_def by (rule arg_cong)
qed

lemma Offset_rewrite:
  assumes s: "OffsetOp_canonicalize ptr index = Some (op, vs)" and w: "welltyped E \<rho> ptr"
  shows "refines (eval E \<rho> (Result n Offset ty [ptr, index])) (eval E \<rho> (Result n op ty vs))"
proof (rule refinesI)
  fix a assume "eval E \<rho> (Result n Offset ty [ptr, index]) = Some a"
  then obtain x t sp i k where e: "eval E \<rho> ptr = Some (PointerA x (PPtr t sp))" "eval E \<rho> index = Some (IntegerA i)"
    "pe_allocSize E t = Some k" "a = PointerA (wrap64 (x + int k * i)) (PPtr t sp)"
    unfolding eval_Result by (auto simp: sem_Some)
  from s consider m t' base z where "ptr = Result m ArrayGEP t' [base, z]" "const_of z = Some (IntegerA 0)"
      "op = ArrayGEP" "vs = [base, index]"
    | m t' base z c1 c0 where "ptr = Result m Offset t' [base, z]" "const_of index = Some (IntegerA c1)"
      "const_of z = Some (IntegerA c0)" "op = Offset" "vs = [base, Constant (IntegerA (c0 + c1))]"
    by (auto simp: OffsetOp_canonicalize_def split: pop_value.splits list.splits if_splits option.splits pop_attr.splits)
  then show "eval E \<rho> (Result n op ty vs) = Some a"
  proof cases
    case 1
    with e(1) obtain p u sp' where p: "eval E \<rho> base = Some (PointerA p (PPtr (PArr u t) sp'))" "x = wrap64 p" "sp = 0"
      by (simp only: eval_Result) (use const_eval [OF 1(2), of E \<rho>] in \<open>auto simp: sem_Some\<close>)
    then show ?thesis using 1 e wrap64_add [of p "int k * i"] by (simp add: mult.commute)
  next
    case 2
    with e(1,3) obtain p where p: "eval E \<rho> base = Some (PointerA p (PPtr t sp))" "x = wrap64 (p + int k * c0)"
      by (simp only: eval_Result) (use const_eval [OF 2(3), of E \<rho>] e(3) in \<open>auto simp: sem_Some\<close>)
    have "i = c1" using e(2) const_eval [OF 2(2), of E \<rho>] by simp
    then show ?thesis using 2 e p wrap64_add [of "p + int k * c0" "int k * c1"] by (simp add: algebra_simps)
  qed
qed

lemma ArrayGEP_rewrite:
  assumes s: "ArrayGEPOp_canonicalize arr index = Some vs" and z: "\<And>i. eval E \<rho> index = Some (IntegerA i) \<Longrightarrow> i = 0"
  shows "refines (eval E \<rho> (Result n ArrayGEP ty [arr, index])) (eval E \<rho> (Result n ArrayGEP ty vs))"
proof (rule refinesI)
  fix a assume "eval E \<rho> (Result n ArrayGEP ty [arr, index]) = Some a"
  then obtain x k t sp i where e: "eval E \<rho> arr = Some (PointerA x (PPtr (PArr k t) sp))" "eval E \<rho> index = Some (IntegerA i)"
    "op_sem E ArrayGEP ty [PointerA x (PPtr (PArr k t) sp), IntegerA i] = Some a"
    unfolding eval_Result by (auto simp: sem_Some)
  moreover have "vs = [arr, Constant (IntegerA 0)]"
    using s by (auto simp: ArrayGEPOp_canonicalize_def split: pop_type.splits option.splits if_splits)
  ultimately show "eval E \<rho> (Result n ArrayGEP ty vs) = Some a" using z [OF e(2)] by simp
qed

lemma ArrayReplace_rewrite:
  assumes s: "ArrayReplaceOp_canonicalize index val arr = Some (Some vs)" and i: "\<And>i. index = Some i \<Longrightarrow> i < 2 ^ 32"
  shows "refines (eval E \<rho> (Result n (ArrayReplace index) ty [val, arr])) (eval E \<rho> (Result n ArrayCreate ty vs))"
proof (rule refinesI)
  fix a assume "eval E \<rho> (Result n (ArrayReplace index) ty [val, arr]) = Some a"
  then obtain k x t as where e: "index = Some k" "eval E \<rho> val = Some x" "eval E \<rho> arr = Some (ArrayA t as)" "0 \<le> k"
    "k < int (length as)" "a = ArrayA ty (as[nat k := x])"
    unfolding eval_Result by (auto simp: sem_Some)
  have k: "ap_wrap 32 k = nat k" using i [OF e(1)] e(4) by (simp add: ap_wrap_def)
  from s e(1) k consider m t' us where "arr = Result m ArrayCreate t' us" "replaceAt us k val = Some vs"
    | t' us where "arr = Constant (ArrayA t' us)"
      "vs = map (\<lambda>j. if j = nat k then val else Constant (us ! j)) [0..<length us]"
    using e(4) by (auto simp: ArrayReplaceOp_canonicalize_def Let_def
        split: pop_value.splits pop_op.splits pop_attr.splits)
  then have "map (eval E \<rho>) vs = map Some (as[nat k := x])"
  proof cases
    case 1
    then have us: "map (eval E \<rho>) us = map Some as" "vs = us[nat k := val]"
      using e(3) by (auto simp: those_eq_Some Option.bind_eq_Some_conv replaceAt_def split: if_splits)
    then show ?thesis using e(2) by (simp add: map_update)
  next
    case 2
    then show ?thesis using e(2-5) by (intro nth_equalityI) (auto simp: nth_list_update)
  qed
  then show "eval E \<rho> (Result n ArrayCreate ty vs) = Some a" using e(6) by (simp only: eval.simps those_map_Some) simp
qed

lemma PointerToIndex_rewrite:
  assumes "PointerToIndexOp_canonicalize v = Some x"
  shows "refines (eval E \<rho> (Result n PointerToIndex ty [v])) (eval E \<rho> (Result n PointerToIndex ty [x]))"
proof -
  from assms obtain m t where "v = Result m PointerBitcast t [x]"
    by (auto simp: PointerToIndexOp_canonicalize_def
        split: pop_value.splits pop_op.splits list.splits pop_type.splits)
  moreover have "bitcast_sem t as = Some b \<Longrightarrow> to_index_sem [b] = Some c \<Longrightarrow> to_index_sem as = Some c" for as b c
    by (cases "(t, as)" rule: bitcast_sem.cases) auto
  ultimately show ?thesis
    by (intro refinesI) (auto simp: Option.bind_eq_Some_conv split: option.splits)
qed

text \<open>
  C16. The rewrites of vector selects, nested selects, pointer offsets, replacements in arrays and
  pointers to one-element arrays keep the value, wherever it is defined: for replacements as long as the
  index fits 32 bits, and for one-element arrays as long as the index is 0.
\<close>
theorem canonicalizations_sound:
  assumes c: "canonicalize_op op ty vs = Some (Some (op', vs'))" and w: "welltyped E \<rho> (Result n op ty vs)"
    and i: "\<And>i. op = ArrayReplace (Some i) \<Longrightarrow> i < 2 ^ 32"
    and z: "\<And>i. op = ArrayGEP \<Longrightarrow> eval E \<rho> (vs ! 1) = Some (IntegerA i) \<Longrightarrow> i = 0"
  shows "refines (eval E \<rho> (Result n op ty vs)) (eval E \<rho> (Result n op' ty vs'))"
proof (cases op)
  case SIMDSelect
  then show ?thesis using c w SIMDSelect_rewrite [of ty _ _ _ op' vs' E \<rho> n]
    by (auto simp: canonicalize_op_def simp del: eval.simps split: list.splits)
next
  case Select
  then show ?thesis using c Select_rewrite [of _ _ _ vs' E \<rho> n ty]
    by (auto simp: canonicalize_op_def simp del: eval.simps split: list.splits)
next
  case Offset
  then show ?thesis using c w Offset_rewrite [of _ _ op' vs' E \<rho> n ty]
    by (auto simp: canonicalize_op_def simp del: eval.simps split: list.splits)
next
  case ArrayGEP
  then show ?thesis using c z ArrayGEP_rewrite [of _ _ vs' E \<rho> n ty]
    by (auto simp: canonicalize_op_def simp del: eval.simps split: list.splits)
next
  case (ArrayReplace k)
  then show ?thesis using c i ArrayReplace_rewrite [of k _ _ vs' E \<rho> n ty]
    by (auto simp: canonicalize_op_def simp del: eval.simps split: list.splits)
next
  case PointerToIndex
  then show ?thesis using c PointerToIndex_rewrite [of _ _ E \<rho> n ty]
    by (auto simp: canonicalize_op_def simp del: eval.simps split: list.splits)
qed (use c in \<open>simp_all add: canonicalize_op_def\<close>)

theorem canonicalizations_sound_witness:
  "refines (eval sample_pop (\<lambda>_. PointerA 100 (PPtr PIndex 0))
      (Result 2 Offset (PPtr PIndex 0)
        [Result 1 Offset (PPtr PIndex 0) [Arg 0 (PPtr PIndex 0), Constant (IntegerA 2)], Constant (IntegerA 3)]))
    (eval sample_pop (\<lambda>_. PointerA 100 (PPtr PIndex 0))
      (Result 2 Offset (PPtr PIndex 0) [Arg 0 (PPtr PIndex 0), Constant (IntegerA 5)]))"
proof -
  have "canonicalize_op Offset (PPtr PIndex 0)
      [Result 1 Offset (PPtr PIndex 0) [Arg 0 (PPtr PIndex 0), Constant (IntegerA 2)], Constant (IntegerA 3)] =
    Some (Some (Offset, [Arg 0 (PPtr PIndex 0), Constant (IntegerA 5)]))"
    by (simp add: canonicalize_op_def OffsetOp_canonicalize_def wrap64_def ap_int_def ap_wrap_def)
  then show ?thesis
    by (rule canonicalizations_sound)
      (simp_all add: has_type_def sample_pop_def plain_pop_def wrap64_def ap_int_def ap_wrap_def)
qed

text \<open>
  Replacing an element of a constant array that is not spelled out crashes the compiler: the
  canonicalization casts the constant to an array attribute, and an undefined or unknown array, which
  the folder of element access handles, is not one.
\<close>
theorem array_replace_uninit_crashes:
  "ArrayReplaceOp_canonicalize (Some i) val (Constant (UninitA t)) = None"
  "ArrayReplaceOp_canonicalize (Some i) val (Constant (UnknownA t)) = None"
  "ArrayGetOp_fold ty (Some i) (Constant (UninitA t)) = Some (Some (FoldAttr (UninitA ty)))"
  "ArrayReplaceOp_fold ty (Some i) val (Constant (UninitA t)) = Some None"
  by (simp_all add: ArrayReplaceOp_canonicalize_def ArrayGetOp_fold_def ArrayReplaceOp_fold_def Let_def
      split: option.splits)

section \<open>The interpreter computes the value\<close>

text \<open>
  The interpreter of each operation, where \<open>rebind\<close> replaces the parameters in a type by their values and
  \<open>rebindA\<close> those in an attribute; \<open>attr\<close> is the mask or the index of the operation as it is written, and
  \<open>same\<close> tells whether the two values of a select are the same value of the function.
\<close>

definition interpret_shape_op ::
  "(pop_type \<Rightarrow> pop_type) \<Rightarrow> (pop_attr option \<Rightarrow> pop_attr option) \<Rightarrow> bool \<Rightarrow> pop_op \<Rightarrow> pop_attr option \<Rightarrow> pop_type \<Rightarrow>
   pop_attr list \<Rightarrow> pop_attr error_or option" where
  "interpret_shape_op rebind rebindA same op attr ty as =
     (case op of
        ArrayCreate \<Rightarrow> ArrayCreateOp_parametric_interpret rebind ty as
      | ArrayRepeat \<Rightarrow> ArrayRepeatOp_parametric_interpret rebind ty as
      | _ \<Rightarrow>
          (case (op, as) of
             (SIMDExtract, [vec, pos]) \<Rightarrow> SIMDExtractElementOp_parametric_interpret rebind vec pos
           | (SIMDInsert, [vec, val, pos]) \<Rightarrow> SIMDInsertElementOp_parametric_interpret rebind ty vec val pos
           | (SIMDSelect, [c, t, f]) \<Rightarrow> SIMDSelectOp_parametric_interpret rebind ty same c t f
           | (SIMDShuffle _, [lhs, rhs]) \<Rightarrow> SIMDShuffleOp_parametric_interpret rebind rebindA ty attr lhs rhs
           | (SIMDSplat, [x]) \<Rightarrow> SIMDSplatOp_parametric_interpret rebind ty x
           | (ArrayGet _, [arr]) \<Rightarrow> ArrayGetOp_parametric_interpret (Option.bind (rebindA attr) intAttr) arr
           | (ArrayReplace _, [x, arr]) \<Rightarrow>
               ArrayReplaceOp_parametric_interpret rebind ty (Option.bind (rebindA attr) intAttr) x arr
           | (PointerToIndex, [a]) \<Rightarrow> Some (PointerToIndexOp_parametric_interpret a)
           | (PointerBitcast, [a]) \<Rightarrow> Some (Inr (PointerBitcastOp_parametric_interpret rebind ty a))
           | (VariantBitcast, [a]) \<Rightarrow> Some (VariantBitcastOp_parametric_interpret rebind ty a)
           | (UnionBitcast, [a]) \<Rightarrow> Some (UnionBitcastOp_parametric_interpret rebind ty a)
           | (UnionUnwrap, [a]) \<Rightarrow> Some (UnionUnwrapOp_parametric_interpret rebind ty a)
           | _ \<Rightarrow> None))"

definition interpretable :: "pop_op \<Rightarrow> bool" where
  "interpretable op \<longleftrightarrow>
     (case op of
        ArrayCreate \<Rightarrow> True | ArrayRepeat \<Rightarrow> True | SIMDExtract \<Rightarrow> True | SIMDInsert \<Rightarrow> True | SIMDSelect \<Rightarrow> True
      | SIMDShuffle _ \<Rightarrow> True | SIMDSplat \<Rightarrow> True | ArrayGet _ \<Rightarrow> True | ArrayReplace _ \<Rightarrow> True | PointerToIndex \<Rightarrow> True
      | PointerBitcast \<Rightarrow> True | VariantBitcast \<Rightarrow> True | UnionBitcast \<Rightarrow> True | UnionUnwrap \<Rightarrow> True
      | _ \<Rightarrow> False)"

text \<open>With its parameters replaced, the mask or index as written is that of the operation.\<close>

definition written_as :: "(pop_attr option \<Rightarrow> pop_attr option) \<Rightarrow> pop_attr option \<Rightarrow> pop_op \<Rightarrow> bool" where
  "written_as rebindA attr op \<longleftrightarrow>
     (case op of
        SIMDShuffle ms \<Rightarrow> (\<exists>t. rebindA attr = Some (ArrayA t (map IntegerA ms)))
      | ArrayGet i \<Rightarrow> Option.bind (rebindA attr) intAttr = i
      | ArrayReplace i \<Rightarrow> Option.bind (rebindA attr) intAttr = i
      | _ \<Rightarrow> True)"

lemma splat_exact:
  assumes s: "splat_sem (rebind ty) [x] = Some a" and v: "validateSIMDConstruction (rebind ty) = None"
  shows "SIMDSplatOp_parametric_interpret rebind ty x = Some (Inr a)"
proof -
  from s obtain d y n where "x = SimdA d [y]" "resolvedSize (rebind ty) = Some n" "a = SimdA d (replicate n y)"
    by (cases "(rebind ty, [x])" rule: splat_sem.cases) auto
  then show ?thesis using v by (simp add: SIMDSplatOp_parametric_interpret_def Let_def)
qed

lemma repeat_exact:
  assumes "repeat_sem (rebind ty) as = Some a"
  shows "ArrayRepeatOp_parametric_interpret rebind ty as = Some (Inr a)"
proof -
  from assms obtain n where n: "resolvedSize (rebind ty) = Some n" "as \<noteq> [] \<or> n = 0" "a = ArrayA (rebind ty) (repeat_to n as)"
    by (auto simp: repeat_sem_def split: option.splits if_splits)
  from repeatLoop_result [OF n(2)] obtain vs where "repeatLoop as n [] = Some vs" "take n vs = repeat_to n as" by blast
  then show ?thesis using n by (simp add: ArrayRepeatOp_parametric_interpret_def foldInterpretArrayRepeatOp_def)
qed

lemma extract_exact:
  assumes "extract_sem [vec, pos] = Some a" "rebind (attr_type vec) = attr_type vec"
  shows "SIMDExtractElementOp_parametric_interpret rebind vec pos = Some (Inr a)"
proof -
  from assms(1) obtain d ls i x where e: "vec = SimdA d ls" "pos = IntegerA i" "at_int ls i = Some x" "a = SimdA d [x]"
    by (auto simp: sem_Some)
  show ?thesis
  proof (cases "length ls = 1")
    case True
    then obtain y where "ls = [y]" by (auto simp: length_Suc_conv)
    then show ?thesis using e assms(2)
      by (auto simp: SIMDExtractElementOp_parametric_interpret_def isScalar_def at_int_def split: if_splits)
  next
    case False
    then show ?thesis using e assms(2) by (simp add: SIMDExtractElementOp_parametric_interpret_def isScalar_def)
  qed
qed

lemma shuffle_exact:
  assumes "shuffle_sem ms [lhs, rhs] = Some a" "resolvedSize (rebind ty) \<noteq> None" "rebindA attr = Some (ArrayA t (map IntegerA ms))"
  shows "SIMDShuffleOp_parametric_interpret rebind rebindA ty attr lhs rhs = Some (Inr a)"
proof -
  have "map intAttr (map IntegerA ms) = map Some ms" by simp
  then have "those (map (intAttr \<circ> IntegerA) ms) = Some ms" by (simp only: map_map those_map_Some)
  then show ?thesis using assms by (auto simp: sem_Some SIMDShuffleOp_parametric_interpret_def shuffleLanes_def)
qed

lemma array_get_exact:
  assumes "array_get_sem i ty [arr] = Some a" "has_type E arr (attr_type arr)" "\<forall>t. arr \<noteq> UninitA t \<and> arr \<noteq> UnknownA t"
  shows "ArrayGetOp_parametric_interpret i arr = Some (Inr a)"
proof -
  from assms obtain t vs where "arr = ArrayA t vs" "Option.bind i (at_int vs) = Some a"
    by (cases "(i, ty, [arr])" rule: array_get_sem.cases) auto
  then show ?thesis using assms(2)
    by (auto simp: ArrayGetOp_parametric_interpret_def has_type_def Option.bind_eq_Some_conv at_int_def split: if_splits)
qed

text \<open>
  C18. Interpreting one of these operations inside a parametric function gives the value of the operation
  at the type, mask and index with the parameters replaced: the extraction, insertion, selection, shuffle
  and splat of vectors, the creation, repetition, element access and replacement of arrays, the bit casts of
  pointers, variants and unions, the unwrapping of unions and the address of a pointer.  None of them fails, goes
  out of range or gives another value on constant operands of their types that are defined and known, where a
  vector that is made is of a valid type.  Wrapping in a union is not among them, which keeps the
  type as it is written.
\<close>
theorem interpreter_exact:
  assumes op: "interpretable op" and w: "written_as rebindA attr op" and s: "op_sem E op (rebind ty) as = Some a"
    and t: "\<forall>x\<in>set as. has_type E x (attr_type x) \<and> rebind (attr_type x) = attr_type x"
    and u: "\<forall>t. UninitA t \<notin> set as \<and> UnknownA t \<notin> set as"
    and v: "op \<in> {SIMDSplat} \<union> range SIMDShuffle \<longrightarrow> validateSIMDConstruction (rebind ty) = None"
  shows "interpret_shape_op rebind rebindA same op attr ty as = Some (Inr a)"
proof (cases op)
  case SIMDExtract
  with s obtain vec pos where "as = [vec, pos]" by (auto simp: sem_Some)
  then show ?thesis using SIMDExtract s t extract_exact [of vec pos a rebind] by (simp add: interpret_shape_op_def)
next
  case SIMDInsert
  then show ?thesis using s
    by (auto simp: sem_Some interpret_shape_op_def SIMDInsertElementOp_parametric_interpret_def insertLane_def)
next
  case SIMDSelect
  then show ?thesis using s
    by (auto simp: sem_Some interpret_shape_op_def SIMDSelectOp_parametric_interpret_def selectCase_def)
next
  case (SIMDShuffle ms)
  with s obtain lhs rhs where as: "as = [lhs, rhs]" by (auto simp: sem_Some)
  have "resolvedSize (rebind ty) \<noteq> None"
    using v SIMDShuffle by (auto simp: validateSIMDConstruction_def split: option.splits)
  moreover obtain t where "rebindA attr = Some (ArrayA t (map IntegerA ms))" using w SIMDShuffle by (auto simp: written_as_def)
  ultimately show ?thesis using SIMDShuffle s as shuffle_exact [of ms lhs rhs a rebind ty rebindA attr t] by (simp add: interpret_shape_op_def)
next
  case SIMDSplat
  then obtain x where "as = [x]" using s by (cases "(rebind ty, as)" rule: splat_sem.cases) auto
  then show ?thesis using SIMDSplat s v splat_exact [of rebind ty x a] by (simp add: interpret_shape_op_def)
next
  case ArrayCreate
  then show ?thesis using s by (simp add: interpret_shape_op_def ArrayCreateOp_parametric_interpret_def)
next
  case ArrayRepeat
  then show ?thesis using s repeat_exact [of rebind ty as a] by (simp add: interpret_shape_op_def)
next
  case (ArrayGet i)
  then obtain arr where "as = [arr]" using s by (cases "(i, rebind ty, as)" rule: array_get_sem.cases) auto
  then show ?thesis using ArrayGet s t u array_get_exact [of i "rebind ty" arr a E] w by (auto simp: interpret_shape_op_def written_as_def)
next
  case (ArrayReplace i)
  then show ?thesis using s w
    by (auto simp: written_as_def sem_Some interpret_shape_op_def ArrayReplaceOp_parametric_interpret_def replaceAt_def)
next
  case UnionUnwrap
  then show ?thesis using s by (auto simp: sem_Some interpret_shape_op_def UnionUnwrapOp_parametric_interpret_def)
next
  case PointerToIndex
  then show ?thesis using s by (auto simp: sem_Some interpret_shape_op_def PointerToIndexOp_parametric_interpret_def)
next
  case PointerBitcast
  then show ?thesis using s
    by (cases "(rebind ty, as)" rule: bitcast_sem.cases) (auto simp: interpret_shape_op_def PointerBitcastOp_parametric_interpret_def)
next
  case VariantBitcast
  then show ?thesis using s
    by (cases "(rebind ty, as)" rule: bitcast_sem.cases) (auto simp: interpret_shape_op_def VariantBitcastOp_parametric_interpret_def)
next
  case UnionBitcast
  then show ?thesis using s
    by (cases "(rebind ty, as)" rule: bitcast_sem.cases) (auto simp: interpret_shape_op_def UnionBitcastOp_parametric_interpret_def)
qed (use op in \<open>simp_all add: interpretable_def\<close>)

theorem interpreter_exact_witness:
  "interpret_shape_op (\<lambda>t. if t = POther 7 then PArr (Some 2) PIndex else t)
     (\<lambda>a. if a = Some (UnknownA PIndex) then Some (IntegerA 1) else a) False (ArrayReplace (Some 1)) (Some (UnknownA PIndex)) (POther 7)
     [IntegerA 9, ArrayA (PArr (Some 2) PIndex) [IntegerA 4, IntegerA 5]] =
   Some (Inr (ArrayA (PArr (Some 2) PIndex) [IntegerA 4, IntegerA 9]))"
proof (rule interpreter_exact [where E = sample_pop])
  show "op_sem sample_pop (ArrayReplace (Some 1)) ((\<lambda>t. if t = POther 7 then PArr (Some 2) PIndex else t) (POther 7))
      [IntegerA 9, ArrayA (PArr (Some 2) PIndex) [IntegerA 4, IntegerA 5]] =
    Some (ArrayA (PArr (Some 2) PIndex) [IntegerA 4, IntegerA 9])"
    by simp
qed (auto simp: interpretable_def written_as_def has_type_def)

text \<open>
  Wrapping a value in a union is the exception: inside a parametric function the union keeps the type
  as it is written, so it has the type of the instantiation only if that is the same.
\<close>
theorem union_wrap_not_rebound:
  "UnionWrapOp_parametric_interpret ty a = Inr (UnionA (rebind ty) a) \<longleftrightarrow> rebind ty = ty"
  by (auto simp: UnionWrapOp_parametric_interpret_def)
end
