(* ===== verification/Text_Numbers.thy ===== *)
theory Text_Numbers
  imports Mojo_Prelude
begin

text \<open>
  Decimal numbers in texts: \<^verbatim>\<open>std::to_string\<close> and \<^verbatim>\<open>llvm::Twine\<close> of an integer, and
  \<^verbatim>\<open>StringRef::getAsInteger(10, x)\<close> for a variable of a given width.
\<close>

section \<open>Printing\<close>

function natDigits :: "nat \<Rightarrow> string" where
  "natDigits n = (if n < 10 then [char_of (48 + n)] else natDigits (n div 10) @ [char_of (48 + n mod 10)])"
  by pat_completeness auto
termination natDigits
  by (relation "measure (\<lambda>n. n)") auto

declare natDigits.simps [simp del]

definition intString :: "int \<Rightarrow> string" where
  "intString i = (if i < 0 then ''-'' @ natDigits (nat (- i)) else natDigits (nat i))"

section \<open>Parsing\<close>

definition is_digit :: "char \<Rightarrow> bool" where
  "is_digit c \<longleftrightarrow> CHR ''0'' \<le> c \<and> c \<le> CHR ''9''"

definition digit_value :: "char \<Rightarrow> nat" where
  "digit_value c = of_char c - 48"

definition parseDigits :: "string \<Rightarrow> nat option" where
  "parseDigits s =
     (if s = [] \<or> \<not> list_all is_digit s then None else Some (foldl (\<lambda>n c. n * 10 + digit_value c) 0 s))"

text \<open>An unsigned number of \<open>w\<close> bits, and a signed one with an optional minus sign.\<close>

definition getAsUnsigned :: "nat \<Rightarrow> string \<Rightarrow> nat option" where
  "getAsUnsigned w s = (case parseDigits s of Some n \<Rightarrow> if n < 2 ^ w then Some n else None | None \<Rightarrow> None)"

definition getAsSigned :: "nat \<Rightarrow> string \<Rightarrow> int option" where
  "getAsSigned w s =
     (case s of
        c # r \<Rightarrow>
          if c = CHR ''-'' then
            (case parseDigits r of Some n \<Rightarrow> if n \<le> 2 ^ (w - 1) then Some (- int n) else None | None \<Rightarrow> None)
          else
            (case parseDigits s of Some n \<Rightarrow> if n < 2 ^ (w - 1) then Some (int n) else None | None \<Rightarrow> None)
      | [] \<Rightarrow> None)"

lemma digit_char: "d < 10 \<Longrightarrow> is_digit (char_of (48 + d)) \<and> digit_value (char_of (48 + d)) = d"
  by (simp add: is_digit_def digit_value_def less_eq_char_def)

lemma natDigits_digits: "natDigits n \<noteq> [] \<and> list_all is_digit (natDigits n)"
proof (induction n rule: natDigits.induct)
  case (1 n)
  show ?case
  proof (cases "n < 10")
    case True
    then show ?thesis using digit_char [of n] by (simp add: natDigits.simps [of n])
  next
    case False
    then show ?thesis using 1 digit_char [of "n mod 10"] by (simp add: natDigits.simps [of n])
  qed
qed

lemma natDigits_value: "foldl (\<lambda>n c. n * 10 + digit_value c) 0 (natDigits n) = n"
proof (induction n rule: natDigits.induct)
  case (1 n)
  show ?case
  proof (cases "n < 10")
    case True
    then show ?thesis using digit_char [of n] by (simp add: natDigits.simps [of n])
  next
    case False
    then show ?thesis using 1 digit_char [of "n mod 10"] by (simp add: natDigits.simps [of n])
  qed
qed

lemma parse_natDigits: "parseDigits (natDigits n) = Some n"
  using natDigits_digits [of n] natDigits_value [of n] by (simp add: parseDigits_def)

lemma getAsUnsigned_natDigits: "n < 2 ^ w \<Longrightarrow> getAsUnsigned w (natDigits n) = Some n"
  by (simp add: getAsUnsigned_def parse_natDigits)

lemma getAsUnsigned_less: "getAsUnsigned w s = Some n \<Longrightarrow> n < 2 ^ w"
  by (auto simp: getAsUnsigned_def split: option.splits if_splits)

lemma getAsSigned_bounds: "getAsSigned w s = Some i \<Longrightarrow> - (2 ^ (w - 1)) \<le> i \<and> i < 2 ^ (w - 1)"
proof -
  assume "getAsSigned w s = Some i"
  then consider n where "i = - int n" "n \<le> 2 ^ (w - 1)" | n where "i = int n" "n < 2 ^ (w - 1)"
    by (auto simp: getAsSigned_def split: list.splits if_splits option.splits)
  then show ?thesis
  proof cases
    case 1
    then have "int n \<le> 2 ^ (w - 1)" by (metis of_nat_le_iff of_nat_numeral of_nat_power)
    moreover have "- int n < 2 ^ (w - 1)" by (smt (verit) of_nat_0_le_iff zero_less_power)
    ultimately show ?thesis using 1 by simp
  next
    case 2
    then have "int n < 2 ^ (w - 1)" by (metis of_nat_less_iff of_nat_numeral of_nat_power)
    moreover have "- (2 ^ (w - 1)) \<le> int n" by (smt (verit) of_nat_0_le_iff zero_less_power)
    ultimately show ?thesis using 2 by simp
  qed
qed

end
