(* ===== verification/Pop_Memory.thy ===== *)
theory Pop_Memory
  imports Pop_Vectors Text_Numbers
begin

text \<open>
  Loads, stores, allocations and calls
  (\<^verbatim>\<open>Mojo/lib/POPDialect/POPOpsFolders.cpp\<close>, lines 451 to 605, 1479 to 1589, 1717 to 1969, 2197 to 2244,
  2308 to 2365, 2474 to 2558, 2620 to 2922).  The memory of the interpreter and the queries of the data layout are
  outside the repository: the record \<open>interp_api\<close> holds the functions that the operations call, on a state
  of any type.
\<close>

section \<open>Folding loads of constants\<close>

datatype atomic_ordering = NotAtomic | Atomic

text \<open>The constant a pointer of a global constant points to.\<close>

fun globalConstant :: "pop_value \<Rightarrow> pop_attr option" where
  "globalConstant (Result _ (GlobalConstant c) _ _) = Some c"
| "globalConstant _ = None"

definition findValueAt :: "pop_type \<Rightarrow> pop_attr \<Rightarrow> nat \<Rightarrow> fold_result option" where
  "findValueAt ty cst idx =
     (case cst of
        ArrayA (PArr n t) vs \<Rightarrow>
          if length vs \<le> idx \<or> t \<noteq> ty then None else Some (FoldAttr (vs ! idx))
      | _ \<Rightarrow> None)"

definition findOffsetValueAt :: "pop_type \<Rightarrow> pop_attr \<Rightarrow> pop_value \<Rightarrow> fold_result option" where
  "findOffsetValueAt ty cst offset =
     (case const_of offset of
        Some (IntegerA i) \<Rightarrow> if i < 0 then None else findValueAt ty cst (nat i)
      | _ \<Rightarrow> None)"

definition LoadOp_fold :: "pop_type \<Rightarrow> atomic_ordering \<Rightarrow> bool \<Rightarrow> pop_value \<Rightarrow> fold_result option" where
  "LoadOp_fold ty ordr volatile ptr =
     (if ordr \<noteq> NotAtomic \<or> volatile then None
      else (case ptr of
              Result _ (GlobalConstant c) _ _ \<Rightarrow> Some (FoldAttr c)
            | Result _ ArrayGEP _ [arr, i] \<Rightarrow>
                Option.bind (globalConstant arr) (\<lambda>c. findOffsetValueAt ty c i)
            | Result _ Offset _ [p, i] \<Rightarrow>
                (case p of
                   Result _ PointerBitcast _ [x] \<Rightarrow> Option.bind (globalConstant x) (\<lambda>c. findOffsetValueAt ty c i)
                 | _ \<Rightarrow> None)
            | Result _ PointerBitcast _ [x] \<Rightarrow> Option.bind (globalConstant x) (\<lambda>c. findValueAt ty c 0)
            | _ \<Rightarrow> None))"

section \<open>Rewriting loads and stores\<close>

text \<open>The operation before a load, as far as the load looks at it: a store with its operands.\<close>

datatype prev_op = PrevStore pop_value pop_value atomic_ordering | PrevOther

text \<open>The descent into the first fields of structures until the loaded type is found; the number of steps.\<close>

function leadingDepth :: "pop_type \<Rightarrow> pop_type \<Rightarrow> nat option" where
  "leadingDepth target cur =
     (if cur = target then Some 0
      else (case cur of
              PStruct (Some (t # _)) \<Rightarrow> map_option Suc (leadingDepth target t)
            | _ \<Rightarrow> None))"
  by pat_completeness auto
termination leadingDepth
  by (relation "measure (\<lambda>(_, t). size t)") auto

declare leadingDepth.simps [simp del]

datatype load_rewrite =
    UseStored pop_value
  | GepChain pop_value nat
  | LoadThenBitcast pop_value pop_type

definition leadingElement :: "pop_value \<Rightarrow> (pop_value \<times> nat) option" where
  "leadingElement ptr =
     (case ptr of
        Result _ PointerBitcast dst [x] \<Rightarrow>
          (case (value_type x, dst) of
             (PPtr (PStruct fs) sp, PPtr target sp') \<Rightarrow>
               if sp \<noteq> sp' then None
               else (case leadingDepth target (PStruct fs) of
                       Some d \<Rightarrow> if 0 < d then Some (x, d) else None
                     | None \<Rightarrow> None)
           | _ \<Rightarrow> None)
      | _ \<Rightarrow> None)"

definition isPtr :: "pop_type \<Rightarrow> bool" where
  "isPtr t \<longleftrightarrow> (case t of PPtr _ _ \<Rightarrow> True | _ \<Rightarrow> False)"

text \<open>The pointer under a bit cast, if it points to a pointer.\<close>

definition bitcastOfPtrPtr :: "pop_value \<Rightarrow> (pop_value \<times> pop_type) option" where
  "bitcastOfPtrPtr ptr =
     (case ptr of
        Result _ PointerBitcast _ [x] \<Rightarrow>
          (case value_type x of PPtr t _ \<Rightarrow> if isPtr t then Some (x, t) else None | _ \<Rightarrow> None)
      | _ \<Rightarrow> None)"

definition LoadOp_canonicalize ::
  "(pop_value \<Rightarrow> bool) \<Rightarrow> prev_op \<Rightarrow> pop_type \<Rightarrow> atomic_ordering \<Rightarrow> bool \<Rightarrow> pop_value \<Rightarrow> load_rewrite option" where
  "LoadOp_canonicalize hasOneUse prev ty ordr volatile ptr =
     (if ordr \<noteq> NotAtomic \<or> volatile then None
      else (case prev of
              PrevStore p x NotAtomic \<Rightarrow>
                if p = ptr then Some (UseStored x)
                else (case leadingElement ptr of
                        Some (b, d) \<Rightarrow> Some (GepChain b d)
                      | None \<Rightarrow> if isPtr ty \<and> hasOneUse ptr
                                then map_option (\<lambda>(b, t). LoadThenBitcast b t) (bitcastOfPtrPtr ptr) else None)
            | _ \<Rightarrow>
                (case leadingElement ptr of
                   Some (b, d) \<Rightarrow> Some (GepChain b d)
                 | None \<Rightarrow> if isPtr ty \<and> hasOneUse ptr
                           then map_option (\<lambda>(b, t). LoadThenBitcast b t) (bitcastOfPtrPtr ptr) else None)))"

datatype store_rewrite = EraseStore | StoreBitcast pop_type pop_value pop_value

text \<open>\<open>StoreBitcast t x p\<close> stores the value \<open>x\<close>, cast to \<open>t\<close>, to \<open>p\<close>.\<close>

definition StoreOp_canonicalize :: "atomic_ordering \<Rightarrow> bool \<Rightarrow> pop_value \<Rightarrow> pop_value \<Rightarrow> store_rewrite option" where
  "StoreOp_canonicalize ordr volatile arg ptr =
     (if ordr \<noteq> NotAtomic \<or> volatile then None
      else if isUninit (const_of arg) then Some EraseStore
      else if \<not> isPtr (value_type arg) then None
      else map_option (\<lambda>(b, t). StoreBitcast t arg b) (bitcastOfPtrPtr ptr))"

definition AlignedFreeOp_canonicalize :: "pop_value \<Rightarrow> pop_value option" where
  "AlignedFreeOp_canonicalize ptr =
     (case ptr of Result _ PointerBitcast _ [x] \<Rightarrow> Some x | _ \<Rightarrow> None)"

section \<open>The interpreter\<close>

record 's interp_api =
  ia_target :: bool
  ia_allocSize :: "pop_type \<Rightarrow> int option"
  ia_abiAlign :: "pop_type \<Rightarrow> int option"
  ia_contentSize :: "pop_type \<Rightarrow> int option"
  ia_scalarIndex :: "pop_attr \<Rightarrow> int error_or"
  ia_read :: "'s \<Rightarrow> pop_attr \<Rightarrow> pop_type \<Rightarrow> pop_attr error_or"
  ia_write :: "'s \<Rightarrow> int \<Rightarrow> pop_attr \<Rightarrow> 's error_or"
  ia_stack :: "'s \<Rightarrow> int \<Rightarrow> int \<Rightarrow> (int \<times> 's) error_or"
  ia_heap :: "'s \<Rightarrow> int \<Rightarrow> int \<Rightarrow> (int \<times> 's) error_or"
  ia_free :: "'s \<Rightarrow> int \<Rightarrow> 's error_or"
  ia_persistent :: "'s \<Rightarrow> int \<Rightarrow> int \<Rightarrow> nat \<Rightarrow> (int \<times> 's) error_or"
  ia_constGlobal :: "'s \<Rightarrow> pop_attr \<Rightarrow> int \<Rightarrow> int \<Rightarrow> (int \<times> 's) error_or"
  ia_mapConst :: "'s \<Rightarrow> string \<Rightarrow> (int \<times> 's) error_or"
  ia_getGlobal :: "'s \<Rightarrow> string \<Rightarrow> pop_attr option"
  ia_setGlobal :: "'s \<Rightarrow> string \<Rightarrow> pop_attr \<Rightarrow> 's"
  ia_typeCompatible :: "pop_attr \<Rightarrow> pop_type \<Rightarrow> bool"
  ia_memcpy :: "'s \<Rightarrow> pop_attr \<Rightarrow> pop_attr \<Rightarrow> pop_attr \<Rightarrow> 's error_or"
  ia_pointerSize :: nat
  ia_readable :: "'s \<Rightarrow> int \<Rightarrow> nat \<Rightarrow> string option"
  ia_writeFd :: "'s \<Rightarrow> int \<Rightarrow> int \<Rightarrow> int \<Rightarrow> int \<times> 's"

text \<open>A step: the result of the operation, if it has one, and the state after it.\<close>

type_synonym 's step = "(pop_attr option \<times> 's) error_or"

definition elemType :: "pop_type \<Rightarrow> pop_type" where
  "elemType t = (case t of PPtr e _ \<Rightarrow> e | _ \<Rightarrow> t)"

definition arrayElem :: "pop_type \<Rightarrow> pop_type" where
  "arrayElem t = (case elemType t of PArr _ e \<Rightarrow> e | e \<Rightarrow> e)"

definition pointerAt :: "pop_type \<Rightarrow> (int \<times> 's) error_or \<Rightarrow> 's step" where
  "pointerAt ty r = (case r of Inl e \<Rightarrow> Inl e | Inr (a, s) \<Rightarrow> Inr (Some (PointerA a ty), s))"

definition noResult :: "'s error_or \<Rightarrow> 's step" where
  "noResult r = (case r of Inl e \<Rightarrow> Inl e | Inr s \<Rightarrow> Inr (None, s))"

definition LoadOp_interpret :: "'s interp_api \<Rightarrow> pop_type \<Rightarrow> 's \<Rightarrow> pop_attr \<Rightarrow> 's step" where
  "LoadOp_interpret A ty s ptr = (case ia_read A s ptr ty of Inl e \<Rightarrow> Inl e | Inr v \<Rightarrow> Inr (Some v, s))"

definition LoadOp_parametric_interpret ::
  "'s interp_api \<Rightarrow> (pop_type \<Rightarrow> pop_type) \<Rightarrow> pop_type \<Rightarrow> 's \<Rightarrow> pop_attr \<Rightarrow> 's step" where
  "LoadOp_parametric_interpret A rebind ty s ptr =
     (case ia_read A s ptr (rebind ty) of Inl e \<Rightarrow> Inl e | Inr v \<Rightarrow> Inr (Some v, s))"

definition StoreOp_interpret :: "'s interp_api \<Rightarrow> 's \<Rightarrow> pop_attr \<Rightarrow> pop_attr \<Rightarrow> 's step" where
  "StoreOp_interpret A s val ptr =
     (case ptr of
        PointerA a _ \<Rightarrow> noResult (ia_write A s a val)
      | _ \<Rightarrow> Inl ''non-constant inputs'')"

definition StoreOp_parametric_interpret :: "'s interp_api \<Rightarrow> 's \<Rightarrow> pop_attr \<Rightarrow> pop_attr \<Rightarrow> 's step" where
  "StoreOp_parametric_interpret A s val ptr =
     (case ptr of
        PointerA a _ \<Rightarrow> noResult (ia_write A s a val)
      | _ \<Rightarrow> Inl ''non-constant inputs'')"

definition OffsetOp_interpret :: "'s interp_api \<Rightarrow> 's \<Rightarrow> pop_attr \<Rightarrow> pop_attr \<Rightarrow> 's step" where
  "OffsetOp_interpret A s ptr offset =
     (if \<not> ia_target A then Inl ''operation requires a target model''
      else (case (ptr, offset) of
              (PointerA a t, IntegerA i) \<Rightarrow>
                (case ia_allocSize A (elemType t) of
                   None \<Rightarrow> Inl ''could not query pointer element size''
                 | Some n \<Rightarrow> Inr (Some (PointerA (wrap64 (a + n * i)) t), s))
            | _ \<Rightarrow> Inl ''non-constant inputs''))"

definition OffsetOp_parametric_interpret ::
  "'s interp_api \<Rightarrow> (pop_type \<Rightarrow> pop_type) \<Rightarrow> 's \<Rightarrow> pop_attr \<Rightarrow> pop_attr \<Rightarrow> 's step" where
  "OffsetOp_parametric_interpret A rebind s ptr offset =
     (if \<not> ia_target A then Inl ''operation requires a target model''
      else (case (ptr, offset) of
              (PointerA a t, IntegerA i) \<Rightarrow>
                (case ia_allocSize A (elemType (rebind t)) of
                   None \<Rightarrow> Inl ''could not query pointer element size''
                 | Some n \<Rightarrow> Inr (Some (PointerA (wrap64 (a + n * i)) (rebind t)), s))
            | _ \<Rightarrow> Inl ''non-constant inputs''))"

text \<open>
  The address of an element of an array.  The plain interpreter takes the element type from the operation
  (\<open>arrTy\<close>), the parametric one from the pointer.
\<close>

definition ArrayGEPOp_interpret :: "'s interp_api \<Rightarrow> pop_type \<Rightarrow> 's \<Rightarrow> pop_attr \<Rightarrow> pop_attr \<Rightarrow> 's step" where
  "ArrayGEPOp_interpret A arrTy s ptr index =
     (if \<not> ia_target A then Inl ''operation requires a target model''
      else (case (ptr, index) of
              (PointerA a _, IntegerA i) \<Rightarrow>
                (case ia_allocSize A (arrayElem arrTy) of
                   None \<Rightarrow> Inl ''failed to get array element stride''
                 | Some n \<Rightarrow> Inr (Some (PointerA (wrap64 (a + i * n)) (PPtr (arrayElem arrTy) 0)), s))
            | _ \<Rightarrow> Inl ''non-constant inputs''))"

definition ArrayGEPOp_parametric_interpret :: "'s interp_api \<Rightarrow> 's \<Rightarrow> pop_attr \<Rightarrow> pop_attr \<Rightarrow> 's step" where
  "ArrayGEPOp_parametric_interpret A s ptr index =
     (if \<not> ia_target A then Inl ''operation requires a target model''
      else (case (ptr, index) of
              (PointerA a t, IntegerA i) \<Rightarrow>
                (case ia_allocSize A (arrayElem t) of
                   None \<Rightarrow> Inl ''failed to get array element stride''
                 | Some n \<Rightarrow> Inr (Some (PointerA (wrap64 (a + i * n)) (PPtr (arrayElem t) 0)), s))
            | _ \<Rightarrow> Inl ''non-constant inputs''))"


section \<open>Allocations\<close>

record alloc_payload =
  pl_size :: int
  pl_align :: int
  pl_space :: nat

text \<open>
  The size and the alignment of a stack allocation.  An alignment that is given but is not an integer
  makes the cast fail, which is the outer \<open>None\<close>; without a target the payload stays as it was.
\<close>

definition stackAlign ::
  "'s interp_api \<Rightarrow> pop_type \<Rightarrow> pop_attr option \<Rightarrow> int error_or option" where
  "stackAlign A type alignAttr =
     (case alignAttr of
        Some (IntegerA align) \<Rightarrow>
          if align < 0 then Some (Inl (''invalid alignment value: '' @ intString align))
          else if align = 0 then
            Some (case ia_abiAlign A type of None \<Rightarrow> Inl ''could not query type alignment'' | Some n \<Rightarrow> Inr n)
          else Some (Inr align)
      | Some _ \<Rightarrow> None
      | None \<Rightarrow>
          Some (case ia_abiAlign A type of None \<Rightarrow> Inl ''could not query type alignment'' | Some n \<Rightarrow> Inr n))"

definition StackAllocationOp_compile ::
  "'s interp_api \<Rightarrow> pop_type \<Rightarrow> pop_attr \<Rightarrow> pop_attr option \<Rightarrow> alloc_payload \<Rightarrow> alloc_payload error_or option" where
  "StackAllocationOp_compile A ty count alignAttr payload =
     (case count of
        IntegerA n \<Rightarrow>
          if \<not> ia_target A then
            Some (if n \<noteq> 1 then Inl ''array allocation requires a target model'' else Inr payload)
          else (case ia_allocSize A (elemType ty) of
                  None \<Rightarrow> Some (Inl ''could not query type size'')
                | Some sz \<Rightarrow>
                    map_option (\<lambda>r. case r of
                        Inl e \<Rightarrow> Inl e
                      | Inr align \<Rightarrow> Inr (payload\<lparr>pl_size := wrap64 (n * sz), pl_align := align\<rparr>))
                      (stackAlign A (elemType ty) alignAttr))
      | _ \<Rightarrow> Some (Inl ''array size is not a constant''))"

definition StackAllocationOp_parametric_compile ::
  "'s interp_api \<Rightarrow> (pop_type \<Rightarrow> pop_type) \<Rightarrow> (pop_attr \<Rightarrow> pop_attr) \<Rightarrow> pop_type \<Rightarrow> pop_attr \<Rightarrow> pop_attr option \<Rightarrow>
   alloc_payload \<Rightarrow> alloc_payload error_or option" where
  "StackAllocationOp_parametric_compile A rebind rebindA ty count alignAttr payload =
     (case rebindA count of
        IntegerA n \<Rightarrow>
          if \<not> ia_target A then
            Some (if n \<noteq> 1 then Inl ''array allocation requires a target model'' else Inr payload)
          else (case ia_allocSize A (elemType (rebind ty)) of
                  None \<Rightarrow> Some (Inl ''could not query type size'')
                | Some sz \<Rightarrow>
                    map_option (\<lambda>r. case r of
                        Inl e \<Rightarrow> Inl e
                      | Inr align \<Rightarrow> Inr (payload\<lparr>pl_size := wrap64 (n * sz), pl_align := align\<rparr>))
                      (stackAlign A (elemType (rebind ty)) (map_option rebindA alignAttr)))
      | _ \<Rightarrow> Some (Inl ''array size is not a constant''))"

definition StackAllocationOp_interpret ::
  "'s interp_api \<Rightarrow> pop_type \<Rightarrow> alloc_payload \<Rightarrow> 's \<Rightarrow> 's step" where
  "StackAllocationOp_interpret A ty payload s =
     (if \<not> ia_target A then Inl ''stack allocation requires a target model''
      else pointerAt ty (ia_stack A s (pl_size payload) (pl_align payload)))"

definition StackAllocationOp_parametric_interpret ::
  "'s interp_api \<Rightarrow> (pop_type \<Rightarrow> pop_type) \<Rightarrow> pop_type \<Rightarrow> alloc_payload \<Rightarrow> 's \<Rightarrow> 's step" where
  "StackAllocationOp_parametric_interpret A rebind ty payload s =
     (if \<not> ia_target A then Inl ''stack allocation requires a target model''
      else pointerAt (rebind ty) (ia_stack A s (pl_size payload) (pl_align payload)))"

definition interpretAllocation :: "'s interp_api \<Rightarrow> int \<Rightarrow> int \<Rightarrow> pop_type \<Rightarrow> 's \<Rightarrow> 's step" where
  "interpretAllocation A sz align ty s = pointerAt ty (ia_heap A s sz (if align \<le> 0 then 64 else align))"

definition AlignedAllocOp_interpret :: "'s interp_api \<Rightarrow> pop_type \<Rightarrow> 's \<Rightarrow> pop_attr \<Rightarrow> pop_attr \<Rightarrow> 's step" where
  "AlignedAllocOp_interpret A ty s alignOp sizeOp =
     (case (ia_scalarIndex A alignOp, ia_scalarIndex A sizeOp) of
        (Inr align, Inr sz) \<Rightarrow>
          if sz < 0 then Inl ''alloc has negative size'' else interpretAllocation A sz align ty s
      | _ \<Rightarrow> Inl ''non-concrete inputs'')"

definition AlignedAllocOp_parametric_interpret ::
  "'s interp_api \<Rightarrow> (pop_type \<Rightarrow> pop_type) \<Rightarrow> pop_type \<Rightarrow> 's \<Rightarrow> pop_attr \<Rightarrow> pop_attr \<Rightarrow> 's step" where
  "AlignedAllocOp_parametric_interpret A rebind ty s alignOp sizeOp =
     (case (ia_scalarIndex A alignOp, ia_scalarIndex A sizeOp) of
        (Inr align, Inr sz) \<Rightarrow> interpretAllocation A sz align (rebind ty) s
      | _ \<Rightarrow> Inl ''non-concrete inputs'')"

text \<open>Releasing memory; the operand is cast to a pointer.\<close>

definition AlignedFreeOp_interpret :: "'s interp_api \<Rightarrow> 's \<Rightarrow> pop_attr \<Rightarrow> 's step option" where
  "AlignedFreeOp_interpret A s ptr =
     (case ptr of PointerA a _ \<Rightarrow> Some (noResult (ia_free A s a)) | _ \<Rightarrow> None)"

definition AlignedFreeOp_parametric_interpret :: "'s interp_api \<Rightarrow> 's \<Rightarrow> pop_attr \<Rightarrow> 's step option" where
  "AlignedFreeOp_parametric_interpret A s ptr =
     (case ptr of PointerA a _ \<Rightarrow> Some (noResult (ia_free A s a)) | _ \<Rightarrow> None)"

definition MemcpyOp_interpret :: "'s interp_api \<Rightarrow> 's \<Rightarrow> pop_attr \<Rightarrow> pop_attr \<Rightarrow> pop_attr \<Rightarrow> 's step" where
  "MemcpyOp_interpret A s dst src n = noResult (ia_memcpy A s dst src n)"

definition MemcpyOp_parametric_interpret ::
  "'s interp_api \<Rightarrow> (pop_attr \<Rightarrow> pop_attr) \<Rightarrow> 's \<Rightarrow> pop_attr \<Rightarrow> pop_attr \<Rightarrow> pop_attr \<Rightarrow> 's step" where
  "MemcpyOp_parametric_interpret A rebindA s dst src n =
     noResult (ia_memcpy A s (rebindA dst) (rebindA src) (rebindA n))"

section \<open>Globals\<close>

definition CompilerGlobalLoadOp_interpret :: "'s interp_api \<Rightarrow> string \<Rightarrow> pop_type \<Rightarrow> 's \<Rightarrow> 's step" where
  "CompilerGlobalLoadOp_interpret A name ty s =
     (case ia_getGlobal A s name of
        None \<Rightarrow> Inl ''cannot evaluate standalone capturing closure at compile time''
      | Some v \<Rightarrow>
          if \<not> ia_typeCompatible A v ty then
            Inl (''internal error: compiler global '' @ [CHR 0x27] @ name @ [CHR 0x27] @
                 '' holds a value whose type does not match the type it is loaded as'')
          else Inr (Some v, s))"

text \<open>The parametric interpreter compares with the type as it is written, too.\<close>

definition CompilerGlobalLoadOp_parametric_interpret :: "'s interp_api \<Rightarrow> string \<Rightarrow> pop_type \<Rightarrow> 's \<Rightarrow> 's step" where
  "CompilerGlobalLoadOp_parametric_interpret A name ty s =
     (case ia_getGlobal A s name of
        None \<Rightarrow> Inl ''cannot evaluate standalone capturing closure at compile time''
      | Some v \<Rightarrow>
          if \<not> ia_typeCompatible A v ty then
            Inl (''internal error: compiler global '' @ [CHR 0x27] @ name @ [CHR 0x27] @
                 '' holds a value whose type does not match the type it is loaded as'')
          else Inr (Some v, s))"

definition CompilerGlobalStoreOp_interpret :: "'s interp_api \<Rightarrow> string \<Rightarrow> 's \<Rightarrow> pop_attr \<Rightarrow> 's step" where
  "CompilerGlobalStoreOp_interpret A name s v = Inr (None, ia_setGlobal A s name v)"

definition CompilerGlobalStoreOp_parametric_interpret :: "'s interp_api \<Rightarrow> string \<Rightarrow> 's \<Rightarrow> pop_attr \<Rightarrow> 's step" where
  "CompilerGlobalStoreOp_parametric_interpret A name s v = Inr (None, ia_setGlobal A s name v)"

definition interpretGlobalConstantOpHelper :: "'s interp_api \<Rightarrow> pop_attr \<Rightarrow> pop_type \<Rightarrow> 's \<Rightarrow> 's step" where
  "interpretGlobalConstantOpHelper A input resultType s =
     (case ia_allocSize A (attr_type input) of
        None \<Rightarrow> Inl ''cannot get pop.global_constant value size''
      | Some sz \<Rightarrow>
          (case ia_abiAlign A (attr_type input) of
             None \<Rightarrow> Inl ''cannot get pop.global_constant value alignment''
           | Some align \<Rightarrow> pointerAt resultType (ia_constGlobal A s input sz align)))"

definition GlobalConstantOp_interpret :: "'s interp_api \<Rightarrow> pop_attr \<Rightarrow> pop_type \<Rightarrow> 's \<Rightarrow> 's step" where
  "GlobalConstantOp_interpret A v ty s = interpretGlobalConstantOpHelper A v ty s"

definition GlobalConstantOp_parametric_interpret ::
  "'s interp_api \<Rightarrow> (pop_type \<Rightarrow> pop_type) \<Rightarrow> (pop_attr \<Rightarrow> pop_attr) \<Rightarrow> pop_attr \<Rightarrow> pop_type \<Rightarrow> 's \<Rightarrow> 's step" where
  "GlobalConstantOp_parametric_interpret A rebind rebindA v ty s =
     interpretGlobalConstantOpHelper A (rebindA v) (rebind ty) s"

text \<open>The bytes of a string with the terminator; of an empty string the terminator is an empty literal.\<close>

definition stringBytes :: "string \<Rightarrow> string" where
  "stringBytes str = (if str = [] then [] else str @ [CHR 0x00])"

definition StringAddressOp_interpret :: "'s interp_api \<Rightarrow> pop_type \<Rightarrow> 's \<Rightarrow> pop_attr \<Rightarrow> 's step" where
  "StringAddressOp_interpret A ty s operand =
     (case operand of
        StringA str \<Rightarrow> pointerAt ty (ia_mapConst A s (stringBytes str))
      | _ \<Rightarrow> Inl ''argument is not a concrete string'')"

definition StringAddressOp_parametric_interpret ::
  "'s interp_api \<Rightarrow> (pop_type \<Rightarrow> pop_type) \<Rightarrow> pop_type \<Rightarrow> 's \<Rightarrow> pop_attr \<Rightarrow> 's step" where
  "StringAddressOp_parametric_interpret A rebind ty s operand =
     (case operand of
        StringA str \<Rightarrow> pointerAt (rebind ty) (ia_mapConst A s (stringBytes str))
      | _ \<Rightarrow> Inl ''argument is not a concrete string'')"

section \<open>Discriminators and global allocations\<close>

definition VariantDiscrGEPOp_compile :: "'s interp_api \<Rightarrow> pop_type \<Rightarrow> int error_or" where
  "VariantDiscrGEPOp_compile A variantPtr =
     (if \<not> ia_target A then Inl ''requires a target model''
      else (case ia_contentSize A (elemType variantPtr) of
              None \<Rightarrow> Inl ''failed to compute size''
            | Some n \<Rightarrow> Inr n))"

definition VariantDiscrGEPOp_parametric_compile ::
  "'s interp_api \<Rightarrow> (pop_type \<Rightarrow> pop_type) \<Rightarrow> pop_type \<Rightarrow> int error_or" where
  "VariantDiscrGEPOp_parametric_compile A rebind variantPtr =
     (if \<not> ia_target A then Inl ''requires a target model''
      else (case ia_contentSize A (elemType (rebind variantPtr)) of
              None \<Rightarrow> Inl ''failed to compute size''
            | Some n \<Rightarrow> Inr n))"

definition VariantDiscrGEPOp_interpret :: "pop_type \<Rightarrow> int \<Rightarrow> 's \<Rightarrow> pop_attr \<Rightarrow> 's step" where
  "VariantDiscrGEPOp_interpret ty offset s ptr =
     (case ptr of
        PointerA a _ \<Rightarrow> Inr (Some (PointerA (wrap64 (a + offset)) ty), s)
      | _ \<Rightarrow> Inl ''non-constant inputs'')"

definition VariantDiscrGEPOp_parametric_interpret ::
  "(pop_type \<Rightarrow> pop_type) \<Rightarrow> pop_type \<Rightarrow> int \<Rightarrow> 's \<Rightarrow> pop_attr \<Rightarrow> 's step" where
  "VariantDiscrGEPOp_parametric_interpret rebind ty offset s ptr =
     (case ptr of
        PointerA a _ \<Rightarrow> Inr (Some (PointerA (wrap64 (a + offset)) (rebind ty)), s)
      | _ \<Rightarrow> Inl ''non-constant inputs'')"

definition addrSpace :: "pop_type \<Rightarrow> nat" where
  "addrSpace t = (case t of PPtr _ sp \<Rightarrow> sp | _ \<Rightarrow> 0)"

text \<open>A size or an alignment that the data layout does not know is read all the same: the outer \<open>None\<close>.\<close>

definition GlobalAllocOp_compile ::
  "'s interp_api \<Rightarrow> pop_type \<Rightarrow> pop_attr \<Rightarrow> pop_attr option \<Rightarrow> alloc_payload error_or option" where
  "GlobalAllocOp_compile A ty count alignAttr =
     (if \<not> ia_target A then Some (Inl ''global alloc requires a target'')
      else (case count of
              IntegerA n \<Rightarrow>
                do {
                  sz \<leftarrow> ia_allocSize A (elemType ty);
                  align \<leftarrow> (case alignAttr of Some (IntegerA a) \<Rightarrow> Some a | _ \<Rightarrow> ia_abiAlign A (elemType ty));
                  Some (Inr \<lparr>pl_size = wrap64 (n * sz), pl_align = align, pl_space = addrSpace ty\<rparr>)
                }
            | _ \<Rightarrow> Some (Inl ''count is not concrete'')))"

definition GlobalAllocOp_parametric_compile ::
  "'s interp_api \<Rightarrow> (pop_type \<Rightarrow> pop_type) \<Rightarrow> (pop_attr \<Rightarrow> pop_attr) \<Rightarrow> pop_type \<Rightarrow> pop_attr \<Rightarrow> pop_attr option \<Rightarrow>
   alloc_payload error_or option" where
  "GlobalAllocOp_parametric_compile A rebind rebindA ty count alignAttr =
     (if \<not> ia_target A then Some (Inl ''global alloc requires a target'')
      else (case rebindA count of
              IntegerA n \<Rightarrow>
                do {
                  sz \<leftarrow> ia_allocSize A (elemType (rebind ty));
                  align \<leftarrow> (case map_option rebindA alignAttr of
                              Some (IntegerA a) \<Rightarrow> Some a | _ \<Rightarrow> ia_abiAlign A (elemType (rebind ty)));
                  Some (Inr \<lparr>pl_size = wrap64 (n * sz), pl_align = align, pl_space = addrSpace (rebind ty)\<rparr>)
                }
            | _ \<Rightarrow> Some (Inl ''count is not concrete'')))"

definition initAt :: "'s interp_api \<Rightarrow> pop_type \<Rightarrow> pop_attr option \<Rightarrow> (int \<times> 's) error_or \<Rightarrow> 's step" where
  "initAt A ty init r =
     (case r of
        Inl e \<Rightarrow> Inl e
      | Inr (a, s) \<Rightarrow>
          (case init of
             None \<Rightarrow> Inr (Some (PointerA a ty), s)
           | Some v \<Rightarrow> (case ia_write A s a v of Inl e \<Rightarrow> Inl e | Inr s' \<Rightarrow> Inr (Some (PointerA a ty), s'))))"

definition GlobalAllocOp_interpret ::
  "'s interp_api \<Rightarrow> pop_type \<Rightarrow> pop_attr option \<Rightarrow> alloc_payload \<Rightarrow> 's \<Rightarrow> 's step" where
  "GlobalAllocOp_interpret A ty init payload s =
     initAt A ty init (ia_persistent A s (pl_size payload) (pl_align payload) (pl_space payload))"

definition GlobalAllocOp_parametric_interpret ::
  "'s interp_api \<Rightarrow> (pop_type \<Rightarrow> pop_type) \<Rightarrow> (pop_attr \<Rightarrow> pop_attr) \<Rightarrow> pop_type \<Rightarrow> pop_attr option \<Rightarrow> alloc_payload \<Rightarrow>
   's \<Rightarrow> 's step" where
  "GlobalAllocOp_parametric_interpret A rebind rebindA ty init payload s =
     initAt A (rebind ty) (map_option rebindA init)
       (ia_persistent A s (pl_size payload) (pl_align payload) (pl_space payload))"

section \<open>Calls of external functions\<close>

text \<open>A call has the types of its results; operands that are packs of parameters are spread out.\<close>

fun expandOperand :: "pop_attr \<Rightarrow> pop_attr list" where
  "expandOperand (PackA True vs) = vs"
| "expandOperand a = [a]"

definition interpretMalloc :: "'s interp_api \<Rightarrow> pop_type list \<Rightarrow> pop_attr list \<Rightarrow> 's \<Rightarrow> 's step" where
  "interpretMalloc A resultTypes as s =
     (case (as, resultTypes) of
        ([n], [ty]) \<Rightarrow>
          (case ia_scalarIndex A n of
             Inl _ \<Rightarrow> Inl (''Unable to interpret call to '' @ [CHR 0x27] @ ''malloc'' @ [CHR 0x27] @ '', could not interpret size.'')
           | Inr sz \<Rightarrow> interpretAllocation A sz 0 ty s)
      | _ \<Rightarrow> Inl (''unable to interpret call to '' @ [CHR 0x27] @ ''malloc'' @ [CHR 0x27] @ '', expected 1 operand and 1 result''))"

definition interpretFree :: "'s interp_api \<Rightarrow> pop_type list \<Rightarrow> pop_attr list \<Rightarrow> 's \<Rightarrow> 's step option" where
  "interpretFree A resultTypes as s =
     (case (as, resultTypes) of
        ([p], []) \<Rightarrow> (case p of PointerA a _ \<Rightarrow> Some (noResult (ia_free A s a)) | _ \<Rightarrow> None)
      | _ \<Rightarrow> Some (Inl (''unable to interpret call to '' @ [CHR 0x27] @ ''free'' @ [CHR 0x27] @
                         '', expected 1 operand and 0 results'')))"

definition isIntResult :: "pop_type \<Rightarrow> bool" where
  "isIntResult t \<longleftrightarrow> (case t of PIndex \<Rightarrow> True | PBool \<Rightarrow> True | PSimd _ _ \<Rightarrow> True | _ \<Rightarrow> False)"

text \<open>The count that is written, as an attribute of the type of the result.\<close>

definition countAttr :: "pop_type \<Rightarrow> int \<Rightarrow> pop_attr" where
  "countAttr t n = (case t of PSimd (Some d) _ \<Rightarrow> SimdA d [ap_wrap 32 n] | _ \<Rightarrow> IntegerA n)"

definition writeError :: "string \<Rightarrow> string" where
  "writeError what = ''unable to interpret call to '' @ [CHR 0x27] @ ''write'' @ [CHR 0x27] @ '', expected '' @ what"

definition interpreterWrite :: "'s interp_api \<Rightarrow> pop_type list \<Rightarrow> pop_attr list \<Rightarrow> 's \<Rightarrow> 's step option" where
  "interpreterWrite A resultTypes as s =
     (case (as, resultTypes) of
        ([fd, buf, nbytes], [rt]) \<Rightarrow>
          if \<not> isIntResult rt then Some (Inl (writeError ''integer result type''))
          else (case ia_scalarIndex A fd of
                  Inl _ \<Rightarrow> Some (Inl (writeError ''integer typed first operand''))
                | Inr f \<Rightarrow>
                    (case buf of
                       PointerA a _ \<Rightarrow>
                         (case ia_scalarIndex A nbytes of
                            Inl _ \<Rightarrow> Some (Inl (writeError ''integer typed third operand''))
                          | Inr n \<Rightarrow>
                              (case ia_readable A s a (ia_pointerSize A) of
                                 Some e \<Rightarrow> Some (Inl e)
                               | None \<Rightarrow>
                                   (case ia_writeFd A s f a (ap_int 32 True (ap_wrap 32 n)) of
                                      (k, s') \<Rightarrow> Some (Inr (Some (countAttr rt k), s')))))
                     | _ \<Rightarrow> None))
      | _ \<Rightarrow> Some (Inl (writeError ''3 operands and 1 results'')))"

definition interpretGetStackTrace :: "pop_type list \<Rightarrow> 's \<Rightarrow> 's step option" where
  "interpretGetStackTrace resultTypes s =
     (case resultTypes of [] \<Rightarrow> None | _ \<Rightarrow> Some (Inr (Some (IntegerA 0), s)))"

definition callExternal :: "'s interp_api \<Rightarrow> string \<Rightarrow> pop_type list \<Rightarrow> pop_attr list \<Rightarrow> 's \<Rightarrow> 's step option" where
  "callExternal A callee rts as s =
     (if callee = ''malloc'' then Some (interpretMalloc A rts as s)
      else if callee = ''free'' then interpretFree A rts as s
      else if callee = ''write'' then interpreterWrite A rts as s
      else if callee = ''KGEN_CompilerRT_GetStackTrace'' then interpretGetStackTrace rts s
      else Some (Inl (''unable to interpret call to unknown external function: '' @ callee)))"

definition ExternalCallOp_interpret ::
  "'s interp_api \<Rightarrow> string \<Rightarrow> pop_type list \<Rightarrow> pop_attr list \<Rightarrow> 's \<Rightarrow> 's step option" where
  "ExternalCallOp_interpret A callee rts as s = callExternal A callee rts (concat (map expandOperand as)) s"

text \<open>The parametric interpreter replaces the parameters in the name of the function, which must be a string then.\<close>

definition ExternalCallOp_parametric_interpret ::
  "'s interp_api \<Rightarrow> (pop_attr \<Rightarrow> pop_attr) \<Rightarrow> pop_attr \<Rightarrow> pop_type list \<Rightarrow> pop_attr list \<Rightarrow> 's \<Rightarrow> 's step option" where
  "ExternalCallOp_parametric_interpret A rebindA func rts as s =
     (case rebindA func of
        StringA callee \<Rightarrow> callExternal A callee rts (concat (map expandOperand as)) s
      | _ \<Rightarrow> None)"


section \<open>Folded loads read the constant\<close>

text \<open>
  The memory holds a constant at an address: reading it gives the constant, and reading an element of an
  array at its distance from the start gives the element.
\<close>

definition holds_constant :: "pop_env \<Rightarrow> (int \<Rightarrow> pop_type \<Rightarrow> pop_attr option) \<Rightarrow> int \<Rightarrow> pop_attr \<Rightarrow> bool" where
  "holds_constant E rd a c \<longleftrightarrow> rd a (attr_type c) = Some c \<and>
     (case c of
        ArrayA (PArr k t) vs \<Rightarrow>
          (case pe_allocSize E t of
             Some n \<Rightarrow> list_all (\<lambda>i. rd (wrap64 (a + int i * int n)) t = Some (vs ! i)) [0..<length vs]
           | None \<Rightarrow> True)
      | _ \<Rightarrow> True)"

lemma holds_element:
  assumes "holds_constant E rd a (ArrayA (PArr k t) vs)" "pe_allocSize E t = Some n" "i < length vs"
  shows "rd (wrap64 (a + int i * int n)) t = Some (vs ! i)"
  using assms by (auto simp: holds_constant_def list_all_iff)

lemma findValueAt_Some:
  "findValueAt ty c i = Some r \<longleftrightarrow> (\<exists>k vs. c = ArrayA (PArr k ty) vs \<and> i < length vs \<and> r = FoldAttr (vs ! i))"
  by (auto simp: findValueAt_def split: pop_attr.splits pop_type.splits if_splits)

lemma findOffsetValueAt_Some:
  "findOffsetValueAt ty c off = Some r \<longleftrightarrow>
     (\<exists>i. const_of off = Some (IntegerA i) \<and> 0 \<le> i \<and> findValueAt ty c (nat i) = Some r)"
  by (auto simp: findOffsetValueAt_def split: option.splits pop_attr.splits)

lemma globalConstant_Some: "globalConstant v = Some c \<Longrightarrow> \<exists>m t vs. v = Result m (GlobalConstant c) t vs"
  by (cases v rule: globalConstant.cases) auto

text \<open>The global constants that a value depends on.\<close>

fun globals :: "pop_value \<Rightarrow> pop_attr list" where
  "globals (Result _ op _ vs) = (case op of GlobalConstant c \<Rightarrow> [c] | _ \<Rightarrow> []) @ concat (map globals vs)"
| "globals _ = []"

lemma globals_globalConstant: "globalConstant v = Some c \<Longrightarrow> c \<in> set (globals v)"
  by (cases v rule: globalConstant.cases) auto

lemma global_sem_Some:
  "global_sem E c ty as = Some a \<longleftrightarrow>
     (\<exists>sp. ty = PPtr (attr_type c) sp \<and> as = [] \<and> a = PointerA (pe_globalAddr E c) ty)"
  by (cases ty) (auto simp: global_sem_def)

lemma global_eval:
  assumes "eval E \<rho> (Result m (GlobalConstant c) ty vs) = Some (PointerA a t)"
  shows "a = pe_globalAddr E c \<and> t = ty \<and> elemType ty = attr_type c"
  using assms
  by (auto simp: op_sem_shape shape_sem_def global_sem_Some elemType_def Option.bind_eq_Some_conv)

lemma bitcast_global:
  assumes "eval E \<rho> (Result m PointerBitcast t [x]) = Some (PointerA a u)" "globalConstant x = Some c"
  shows "a = pe_globalAddr E c" "u = t"
proof -
  from assms(2) obtain m' t' vs where x: "x = Result m' (GlobalConstant c) t' vs" by (blast dest: globalConstant_Some)
  from assms(1) obtain b where b: "eval E \<rho> x = Some b" "bitcast_sem t [b] = Some (PointerA a u)"
    by (auto split: option.splits simp: Option.bind_eq_Some_conv)
  then obtain u' where u: "b = PointerA a u'" "u = t" by (cases "(t, [b])" rule: bitcast_sem.cases) auto
  then show "a = pe_globalAddr E c" "u = t" using global_eval b(1) x by blast+
qed

lemma load_cases:
  assumes "LoadOp_fold ty ordr volatile ptr = Some r"
  obtains m c t vs where "ptr = Result m (GlobalConstant c) t vs" "r = FoldAttr c"
  | m t arr i c where "ptr = Result m ArrayGEP t [arr, i]" "globalConstant arr = Some c" "findOffsetValueAt ty c i = Some r"
  | m t i m' t' x c where "ptr = Result m Offset t [Result m' PointerBitcast t' [x], i]" "globalConstant x = Some c"
      "findOffsetValueAt ty c i = Some r"
  | m t x c where "ptr = Result m PointerBitcast t [x]" "globalConstant x = Some c" "findValueAt ty c 0 = Some r"
  using assms
  by (auto simp: LoadOp_fold_def Option.bind_eq_Some_conv
      split: if_splits pop_value.splits pop_op.splits list.splits)

text \<open>
  C19. Folding a load gives what the memory holds: where a load of a global constant, of an element of
  one by an index, or through a bit cast with an offset is folded, the folded value is what reading the
  memory at the address of the pointer gives, at the type of the load.
\<close>
theorem load_fold_sound:
  assumes f: "LoadOp_fold ty ordr volatile ptr = Some r"
    and p: "eval E \<rho> ptr = Some (PointerA a (PPtr ty sp))"
    and hold: "list_all (\<lambda>c. holds_constant E rd (pe_globalAddr E c) c \<and> wrap64 (pe_globalAddr E c) = pe_globalAddr E c) (globals ptr)"
    and al: "pe_allocSize E ty \<noteq> None"
  shows "\<exists>v. r = FoldAttr v \<and> rd a ty = Some v"
  using f
proof (cases rule: load_cases)
  case (1 m c t vs)
  then have "a = pe_globalAddr E c \<and> PPtr ty sp = t \<and> elemType t = attr_type c" using p global_eval by blast
  then show ?thesis using hold 1 by (auto simp: holds_constant_def elemType_def)
next
  case (2 m t arr i c)
  then obtain i' k vs where i: "const_of i = Some (IntegerA i')" "0 \<le> i'" "c = ArrayA (PArr k ty) vs"
    "nat i' < length vs" "r = FoldAttr (vs ! nat i')"
    by (auto simp: findOffsetValueAt_Some findValueAt_Some)
  from 2 obtain m' t' us where arr: "arr = Result m' (GlobalConstant c) t' us" by (blast dest: globalConstant_Some)
  from p 2(1) obtain x u v q n where x: "eval E \<rho> arr = Some (PointerA x (PPtr (PArr q v) u))" "pe_allocSize E v = Some n"
    "a = wrap64 (x + i' * int n)" "v = ty"
    by (simp only: eval_Result) (use const_eval [OF i(1), of E \<rho>] in \<open>auto simp: sem_Some\<close>)
  have "x = pe_globalAddr E c" using global_eval x(1) unfolding arr by blast
  moreover have "holds_constant E rd (pe_globalAddr E c) c"
    using hold globals_globalConstant [OF 2(2)] 2(1) by (simp add: list_all_iff)
  ultimately show ?thesis using x i holds_element [of E rd "pe_globalAddr E c" k ty vs n "nat i'"] by auto
next
  case (3 m t i m' t' x c)
  then obtain i' k vs where i: "const_of i = Some (IntegerA i')" "0 \<le> i'" "c = ArrayA (PArr k ty) vs"
    "nat i' < length vs" "r = FoldAttr (vs ! nat i')"
    by (auto simp: findOffsetValueAt_Some findValueAt_Some)
  from p 3(1) obtain y v u n where y: "eval E \<rho> (Result m' PointerBitcast t' [x]) = Some (PointerA y (PPtr v u))"
    "pe_allocSize E v = Some n" "a = wrap64 (y + int n * i')" "v = ty"
    by (simp only: eval_Result [of _ _ m]) (use const_eval [OF i(1), of E \<rho>] in \<open>auto simp: sem_Some simp del: eval.simps(3)\<close>)
  have "y = pe_globalAddr E c" using bitcast_global(1) y(1) 3(2) by blast
  moreover have "holds_constant E rd (pe_globalAddr E c) c"
    using hold globals_globalConstant [OF 3(2)] 3(1) by (simp add: list_all_iff)
  ultimately show ?thesis using y i holds_element [of E rd "pe_globalAddr E c" k ty vs n "nat i'"]
    by (auto simp: mult.commute)
next
  case (4 m t x c)
  then obtain k vs where c: "c = ArrayA (PArr k ty) vs" "0 < length vs" "r = FoldAttr (vs ! 0)"
    by (auto simp: findValueAt_Some)
  have "a = pe_globalAddr E c" using bitcast_global(1) p 4 by blast
  moreover have "holds_constant E rd (pe_globalAddr E c) c" "wrap64 (pe_globalAddr E c) = pe_globalAddr E c"
    using hold globals_globalConstant [OF 4(2)] 4(1) by (simp_all add: list_all_iff)
  ultimately show ?thesis using al c holds_element [of E rd "pe_globalAddr E c" k ty vs _ 0] by auto
qed

definition pair_constant :: pop_attr where
  "pair_constant = ArrayA (PArr (Some 2) PIndex) [IntegerA 7, IntegerA 8]"

definition pair_memory :: "int \<Rightarrow> pop_type \<Rightarrow> pop_attr option" where
  "pair_memory a t =
     (if t = PArr (Some 2) PIndex then Some pair_constant
      else if a = 4096 then Some (IntegerA 7) else if a = 4104 then Some (IntegerA 8) else None)"

theorem load_fold_sound_witness:
  "\<exists>v. LoadOp_fold PIndex NotAtomic False
        (Result 2 ArrayGEP (PPtr PIndex 0)
          [Result 1 (GlobalConstant pair_constant) (PPtr (PArr (Some 2) PIndex) 0) [], Constant (IntegerA 1)]) =
        Some (FoldAttr v) \<and> pair_memory 4104 PIndex = Some v"
proof -
  let ?p = "Result 2 ArrayGEP (PPtr PIndex 0)
      [Result 1 (GlobalConstant pair_constant) (PPtr (PArr (Some 2) PIndex) 0) [], Constant (IntegerA 1)]"
  have l: "LoadOp_fold PIndex NotAtomic False ?p = Some (FoldAttr (IntegerA 8))"
    by (simp add: LoadOp_fold_def findOffsetValueAt_def findValueAt_def pair_constant_def)
  have e: "eval sample_pop (\<lambda>_. IntegerA 0) ?p = Some (PointerA 4104 (PPtr PIndex 0))"
    by (simp add: op_sem_shape shape_sem_def global_sem_def sample_pop_def plain_pop_def wrap64_def ap_int_def
        ap_wrap_def pair_constant_def)
  have "list_all (\<lambda>c. holds_constant sample_pop pair_memory (pe_globalAddr sample_pop c) c \<and>
      wrap64 (pe_globalAddr sample_pop c) = pe_globalAddr sample_pop c) (globals ?p)"
    by (simp add: holds_constant_def sample_pop_def plain_pop_def wrap64_def ap_int_def ap_wrap_def upt_rec
        pair_constant_def pair_memory_def)
  from load_fold_sound [OF l e this] l show ?thesis by (auto simp: sample_pop_def plain_pop_def)
qed

section \<open>Loads through the first field\<close>

text \<open>The pointer to the first field of a structure has the address of the structure.\<close>

fun firstField :: "pop_type \<Rightarrow> pop_type option" where
  "firstField (PPtr (PStruct (Some (t # _))) sp) = Some (PPtr t sp)"
| "firstField _ = None"

fun gepChain :: "nat \<Rightarrow> pop_type \<Rightarrow> pop_type option" where
  "gepChain 0 t = Some t"
| "gepChain (Suc d) t = Option.bind (firstField t) (gepChain d)"

lemma leadingDepth_chain: "leadingDepth target cur = Some d \<Longrightarrow> gepChain d (PPtr cur sp) = Some (PPtr target sp)"
proof (induction target cur arbitrary: d rule: leadingDepth.induct)
  case (1 target cur)
  show ?case
  proof (cases "cur = target")
    case True
    then show ?thesis using 1(2) by (simp add: leadingDepth.simps [of target target])
  next
    case False
    with 1(2) obtain t ts e where t: "cur = PStruct (Some (t # ts))" "leadingDepth target t = Some e" "d = Suc e"
      by (auto simp: leadingDepth.simps [of target cur] split: pop_type.splits option.splits list.splits)
    then show ?thesis using 1(1) [OF False t(1) refl refl t(2)] by simp
  qed
qed

text \<open>
  Replacing a bit cast of a pointer to a structure by a chain of accesses of first fields ends at the
  type of the load: every step of the chain is an access of a structure that has a field, there is at
  least one, and the last pointer has the type and the address space of the bit cast it replaces.
\<close>
theorem leading_element_chain:
  assumes "LoadOp_canonicalize hasOneUse prev ty ordr volatile ptr = Some (GepChain x d)"
  shows "gepChain d (value_type x) = Some (value_type ptr) \<and> 0 < d \<and> ordr = NotAtomic \<and> \<not> volatile"
proof -
  have l: "leadingElement ptr = Some (x, d)" "ordr = NotAtomic" "\<not> volatile"
    using assms by (auto simp: LoadOp_canonicalize_def split: if_splits prev_op.splits option.splits atomic_ordering.splits)
  then obtain m target fs sp where "ptr = Result m PointerBitcast (PPtr target sp) [x]" "value_type x = PPtr (PStruct fs) sp"
    "leadingDepth target (PStruct fs) = Some d" "0 < d"
    by (auto simp: leadingElement_def
        split: pop_value.splits pop_op.splits list.splits pop_type.splits if_splits option.splits)
  then show ?thesis using leadingDepth_chain l by auto
qed

theorem leading_element_chain_witness:
  "gepChain 2 (PPtr (PStruct (Some [PStruct (Some [PIndex]), PBool])) 0) = Some (PPtr PIndex 0)"
proof -
  let ?x = "Arg 0 (PPtr (PStruct (Some [PStruct (Some [PIndex]), PBool])) 0)"
  have "leadingDepth PIndex (PStruct (Some [PStruct (Some [PIndex]), PBool])) = Some 2"
    by (simp add: leadingDepth.simps)
  then have "LoadOp_canonicalize (\<lambda>_. True) PrevOther PIndex NotAtomic False (Result 1 PointerBitcast (PPtr PIndex 0) [?x]) =
      Some (GepChain ?x 2)"
    by (simp add: LoadOp_canonicalize_def leadingElement_def)
  from leading_element_chain [OF this] show ?thesis by simp
qed

section \<open>The two interpreters\<close>

lemma interpreters_agree_each:
  fixes A :: "'s interp_api"
  shows "LoadOp_parametric_interpret A (\<lambda>t. t) ty s p = LoadOp_interpret A ty s p"
    and "StoreOp_parametric_interpret A s v p = StoreOp_interpret A s v p"
    and "OffsetOp_parametric_interpret A (\<lambda>t. t) s p i = OffsetOp_interpret A s p i"
    and "ArrayGEPOp_parametric_interpret A s (PointerA a ty) i = ArrayGEPOp_interpret A ty s (PointerA a ty) i"
    and "StackAllocationOp_parametric_compile A (\<lambda>t. t) (\<lambda>x. x) ty n al pl = StackAllocationOp_compile A ty n al pl"
    and "StackAllocationOp_parametric_interpret A (\<lambda>t. t) ty pl s = StackAllocationOp_interpret A ty pl s"
    and "AlignedAllocOp_parametric_interpret A (\<lambda>t. t) ty s x n =
           (case (ia_scalarIndex A x, ia_scalarIndex A n) of
              (Inr align, Inr sz) \<Rightarrow>
                if sz < 0 then pointerAt ty (ia_heap A s sz (if align \<le> 0 then 64 else align))
                else AlignedAllocOp_interpret A ty s x n
            | _ \<Rightarrow> AlignedAllocOp_interpret A ty s x n)"
    and "AlignedFreeOp_parametric_interpret A s p = AlignedFreeOp_interpret A s p"
    and "MemcpyOp_parametric_interpret A (\<lambda>x. x) s p q n = MemcpyOp_interpret A s p q n"
    and "CompilerGlobalLoadOp_parametric_interpret A name ty s = CompilerGlobalLoadOp_interpret A name ty s"
    and "CompilerGlobalStoreOp_parametric_interpret A name s v = CompilerGlobalStoreOp_interpret A name s v"
    and "GlobalConstantOp_parametric_interpret A (\<lambda>t. t) (\<lambda>x. x) v ty s = GlobalConstantOp_interpret A v ty s"
    and "StringAddressOp_parametric_interpret A (\<lambda>t. t) ty s v = StringAddressOp_interpret A ty s v"
    and "VariantDiscrGEPOp_parametric_compile A (\<lambda>t. t) ty = VariantDiscrGEPOp_compile A ty"
    and "VariantDiscrGEPOp_parametric_interpret (\<lambda>t. t) ty k s p = VariantDiscrGEPOp_interpret ty k s p"
    and "GlobalAllocOp_parametric_compile A (\<lambda>t. t) (\<lambda>x. x) ty n al = GlobalAllocOp_compile A ty n al"
    and "GlobalAllocOp_parametric_interpret A (\<lambda>t. t) (\<lambda>x. x) ty init pl s = GlobalAllocOp_interpret A ty init pl s"
    and "ExternalCallOp_parametric_interpret A (\<lambda>x. x) (StringA f) rts as s = ExternalCallOp_interpret A f rts as s"
proof -
  have m: "map_option (\<lambda>x. x) al = al" by (cases al) simp_all
  show "StackAllocationOp_parametric_compile A (\<lambda>t. t) (\<lambda>x. x) ty n al pl = StackAllocationOp_compile A ty n al pl"
    "GlobalAllocOp_parametric_compile A (\<lambda>t. t) (\<lambda>x. x) ty n al = GlobalAllocOp_compile A ty n al"
    "GlobalAllocOp_parametric_interpret A (\<lambda>t. t) (\<lambda>x. x) ty init pl s = GlobalAllocOp_interpret A ty init pl s"
    unfolding StackAllocationOp_parametric_compile_def StackAllocationOp_compile_def GlobalAllocOp_parametric_compile_def
      GlobalAllocOp_compile_def GlobalAllocOp_parametric_interpret_def GlobalAllocOp_interpret_def option.map_ident
    by (rule refl)+
  show "AlignedAllocOp_parametric_interpret A (\<lambda>t. t) ty s x n =
           (case (ia_scalarIndex A x, ia_scalarIndex A n) of
              (Inr align, Inr sz) \<Rightarrow>
                if sz < 0 then pointerAt ty (ia_heap A s sz (if align \<le> 0 then 64 else align))
                else AlignedAllocOp_interpret A ty s x n
            | _ \<Rightarrow> AlignedAllocOp_interpret A ty s x n)"
    by (simp add: AlignedAllocOp_parametric_interpret_def AlignedAllocOp_interpret_def interpretAllocation_def split: sum.split)
qed (simp_all add: LoadOp_parametric_interpret_def LoadOp_interpret_def StoreOp_parametric_interpret_def StoreOp_interpret_def
    OffsetOp_parametric_interpret_def OffsetOp_interpret_def ArrayGEPOp_parametric_interpret_def ArrayGEPOp_interpret_def
    StackAllocationOp_parametric_interpret_def StackAllocationOp_interpret_def AlignedFreeOp_parametric_interpret_def
    AlignedFreeOp_interpret_def MemcpyOp_parametric_interpret_def MemcpyOp_interpret_def
    CompilerGlobalLoadOp_parametric_interpret_def CompilerGlobalLoadOp_interpret_def
    CompilerGlobalStoreOp_parametric_interpret_def CompilerGlobalStoreOp_interpret_def
    GlobalConstantOp_parametric_interpret_def GlobalConstantOp_interpret_def StringAddressOp_parametric_interpret_def
    StringAddressOp_interpret_def VariantDiscrGEPOp_parametric_compile_def VariantDiscrGEPOp_compile_def
    VariantDiscrGEPOp_parametric_interpret_def VariantDiscrGEPOp_interpret_def
    ExternalCallOp_parametric_interpret_def ExternalCallOp_interpret_def)

text \<open>
  Outside parametric functions, where no type and no attribute has parameters to replace, the
  parametric interpreter does what the interpreter does, for loads, stores, pointer arithmetic,
  allocations, copies, globals and calls; for aligned allocations exactly where the size is not negative
  or not known.
\<close>
theorem interpreters_agree:
  "LoadOp_parametric_interpret A (\<lambda>t. t) ty s p = LoadOp_interpret A ty s p \<and>
   StoreOp_parametric_interpret A s v p = StoreOp_interpret A s v p \<and>
   OffsetOp_parametric_interpret A (\<lambda>t. t) s p i = OffsetOp_interpret A s p i \<and>
   ArrayGEPOp_parametric_interpret A s (PointerA a ty) i = ArrayGEPOp_interpret A ty s (PointerA a ty) i \<and>
   StackAllocationOp_parametric_compile A (\<lambda>t. t) (\<lambda>x. x) ty n al pl = StackAllocationOp_compile A ty n al pl \<and>
   StackAllocationOp_parametric_interpret A (\<lambda>t. t) ty pl s = StackAllocationOp_interpret A ty pl s \<and>
   (AlignedAllocOp_parametric_interpret A (\<lambda>t. t) ty s x n =
           (case (ia_scalarIndex A x, ia_scalarIndex A n) of
              (Inr align, Inr sz) \<Rightarrow>
                if sz < 0 then pointerAt ty (ia_heap A s sz (if align \<le> 0 then 64 else align))
                else AlignedAllocOp_interpret A ty s x n
            | _ \<Rightarrow> AlignedAllocOp_interpret A ty s x n)) \<and>
   AlignedFreeOp_parametric_interpret A s p = AlignedFreeOp_interpret A s p \<and>
   MemcpyOp_parametric_interpret A (\<lambda>x. x) s p q n = MemcpyOp_interpret A s p q n \<and>
   CompilerGlobalLoadOp_parametric_interpret A name ty s = CompilerGlobalLoadOp_interpret A name ty s \<and>
   CompilerGlobalStoreOp_parametric_interpret A name s v = CompilerGlobalStoreOp_interpret A name s v \<and>
   GlobalConstantOp_parametric_interpret A (\<lambda>t. t) (\<lambda>x. x) v ty s = GlobalConstantOp_interpret A v ty s \<and>
   StringAddressOp_parametric_interpret A (\<lambda>t. t) ty s v = StringAddressOp_interpret A ty s v \<and>
   VariantDiscrGEPOp_parametric_compile A (\<lambda>t. t) ty = VariantDiscrGEPOp_compile A ty \<and>
   VariantDiscrGEPOp_parametric_interpret (\<lambda>t. t) ty k s p = VariantDiscrGEPOp_interpret ty k s p \<and>
   GlobalAllocOp_parametric_compile A (\<lambda>t. t) (\<lambda>x. x) ty n al = GlobalAllocOp_compile A ty n al \<and>
   GlobalAllocOp_parametric_interpret A (\<lambda>t. t) (\<lambda>x. x) ty init pl s = GlobalAllocOp_interpret A ty init pl s \<and>
   ExternalCallOp_parametric_interpret A (\<lambda>x. x) (StringA f) rts as s = ExternalCallOp_interpret A f rts as s"
  by (intro conjI interpreters_agree_each)

text \<open>
  Inside a parametric function an allocation of a negative size is not refused: the size goes to the
  allocator, which the interpreter of other functions prevents.
\<close>
theorem parametric_alloc_negative_size:
  assumes "ia_scalarIndex A x = Inr align" "ia_scalarIndex A n = Inr sz" "sz < 0"
  shows "AlignedAllocOp_interpret A ty s x n = Inl ''alloc has negative size''"
    and "AlignedAllocOp_parametric_interpret A rebind ty s x n =
           pointerAt (rebind ty) (ia_heap A s sz (if align \<le> 0 then 64 else align))"
  using assms by (simp_all add: AlignedAllocOp_interpret_def AlignedAllocOp_parametric_interpret_def interpretAllocation_def)

section \<open>Sizes of allocations\<close>

text \<open>A memory that hands out addresses one after the other.\<close>

definition bump_api :: "int interp_api" where
  "bump_api = \<lparr>ia_target = True, ia_allocSize = (\<lambda>_. Some 8), ia_abiAlign = (\<lambda>_. Some 8), ia_contentSize = (\<lambda>_. Some 8),
     ia_scalarIndex = (\<lambda>a. case a of IntegerA i \<Rightarrow> Inr i | _ \<Rightarrow> Inl ''not an index''),
     ia_read = (\<lambda>_ _ t. Inr (UninitA t)), ia_write = (\<lambda>s _ _. Inr s), ia_stack = (\<lambda>s n _. Inr (s, s + n)),
     ia_heap = (\<lambda>s n _. Inr (s, s + n)), ia_free = (\<lambda>s _. Inr s), ia_persistent = (\<lambda>s n _ _. Inr (s, s + n)),
     ia_constGlobal = (\<lambda>s _ n _. Inr (s, s + n)), ia_mapConst = (\<lambda>s str. Inr (s, s + int (length str))),
     ia_getGlobal = (\<lambda>_ _. None), ia_setGlobal = (\<lambda>s _ _. s), ia_typeCompatible = (\<lambda>_ _. True),
     ia_memcpy = (\<lambda>s _ _ _. Inr s), ia_pointerSize = 8, ia_readable = (\<lambda>s a n. if a + int n \<le> s then None else Some ''out of range''),
     ia_writeFd = (\<lambda>s _ _ n. (n, s))\<rparr>"

theorem parametric_alloc_negative_size_witness:
  "AlignedAllocOp_parametric_interpret bump_api (\<lambda>t. t) (PPtr PIndex 0) 100 (IntegerA 0) (IntegerA (- 16)) =
     Inr (Some (PointerA 100 (PPtr PIndex 0)), 84)"
  using parametric_alloc_negative_size(2) [of bump_api "IntegerA 0" 0 "IntegerA (- 16)" "- 16" "\<lambda>t. t" "PPtr PIndex 0" 100]
  by (simp add: bump_api_def pointerAt_def)

lemma wrap64_exact: "wrap64 i = i \<longleftrightarrow> - (2 ^ 63) \<le> i \<and> i < 2 ^ 63"
proof
  assume "wrap64 i = i"
  then show "- (2 ^ 63) \<le> i \<and> i < 2 ^ 63"
    using ap_int_bounds [OF ap_wrap_lt, of 64 True i] unfolding wrap64_def by simp
next
  assume "- (2 ^ 63) \<le> i \<and> i < 2 ^ 63"
  then show "wrap64 i = i" unfolding wrap64_def by (intro ap_int_wrap) simp_all
qed

text \<open>
  The size of a stack allocation is the count times the size of an element exactly when the product
  fits 64 bits; a larger count wraps around, and a negative count gives a negative size.
\<close>
theorem stack_allocation_size:
  assumes "StackAllocationOp_compile A ty (IntegerA n) al pl = Some (Inr pl')" "ia_target A"
    and "ia_allocSize A (elemType ty) = Some sz"
  shows "(pl_size pl' = n * sz \<longleftrightarrow> - (2 ^ 63) \<le> n * sz \<and> n * sz < 2 ^ 63) \<and>
    (pl_align pl' \<le> 0 \<longrightarrow> (\<exists>k. ia_abiAlign A (elemType ty) = Some k \<and> pl_align pl' = k))"
proof -
  from assms obtain k where k: "stackAlign A (elemType ty) al = Some (Inr k)"
    "pl' = pl\<lparr>pl_size := wrap64 (n * sz), pl_align := k\<rparr>"
    by (cases "stackAlign A (elemType ty) al") (auto simp: StackAllocationOp_compile_def split: sum.splits)
  then have "pl_size pl' = n * sz \<longleftrightarrow> - (2 ^ 63) \<le> n * sz \<and> n * sz < 2 ^ 63" by (simp add: wrap64_exact)
  moreover have "pl_align pl' \<le> 0 \<longrightarrow> (\<exists>k. ia_abiAlign A (elemType ty) = Some k \<and> pl_align pl' = k)"
    using k by (auto simp: stackAlign_def split: option.splits pop_attr.splits if_splits)
  ultimately show ?thesis by blast
qed

theorem stack_allocation_size_witness:
  "StackAllocationOp_compile bump_api (PPtr PIndex 0) (IntegerA (2 ^ 61)) None \<lparr>pl_size = 0, pl_align = 0, pl_space = 0\<rparr> =
     Some (Inr \<lparr>pl_size = 0, pl_align = 8, pl_space = 0\<rparr>) \<and>
   (pl_size \<lparr>pl_size = 0, pl_align = 8, pl_space = 0\<rparr> = 2 ^ 61 * 8 \<longleftrightarrow> (2 ^ 61 * 8 :: int) < 2 ^ 63)"
proof -
  have c: "StackAllocationOp_compile bump_api (PPtr PIndex 0) (IntegerA (2 ^ 61)) None \<lparr>pl_size = 0, pl_align = 0, pl_space = 0\<rparr> =
     Some (Inr \<lparr>pl_size = 0, pl_align = 8, pl_space = 0\<rparr>)"
    by (simp add: StackAllocationOp_compile_def stackAlign_def bump_api_def elemType_def wrap64_def ap_int_def ap_wrap_def)
  from stack_allocation_size [OF c, of 8] c show ?thesis by (simp add: bump_api_def)
qed

section \<open>Strings and calls\<close>

text \<open>
  The memory of a string literal is terminated by a zero byte unless the string is empty: the
  terminator of an empty string is taken from the literal \<^verbatim>\<open>"\0"\<close>, whose length is 0, so that no byte is
  mapped at all.
\<close>
theorem string_terminator:
  "(\<exists>bytes. stringBytes str = bytes @ [CHR 0x00]) \<longleftrightarrow> str \<noteq> []"
  "StringAddressOp_interpret A ty s (StringA []) = pointerAt ty (ia_mapConst A s [])"
  by (simp_all add: stringBytes_def StringAddressOp_interpret_def)

text \<open>
  A call of \<^verbatim>\<open>write\<close> checks that the size of a pointer is readable at the buffer, and not the bytes
  it hands to the operating system: whatever the count, also beyond the buffer, the call is made with the
  count as a 32-bit integer.
\<close>
theorem write_checks_pointer_size:
  assumes "ia_scalarIndex A fd = Inr f" "ia_scalarIndex A cnt = Inr n" "isIntResult rt"
    and "expandOperand fd = [fd]" "expandOperand cnt = [cnt]"
    and "ia_readable A s a (ia_pointerSize A) = None"
  shows "ExternalCallOp_interpret A ''write'' [rt] [fd, PointerA a t, cnt] s =
     (case ia_writeFd A s f a (ap_int 32 True (ap_wrap 32 n)) of (k, s') \<Rightarrow> Some (Inr (Some (countAttr rt k), s')))"
  using assms by (simp add: ExternalCallOp_interpret_def callExternal_def interpreterWrite_def)

theorem write_checks_pointer_size_witness:
  "ia_readable bump_api 108 100 1000 \<noteq> None \<and>
   ExternalCallOp_interpret bump_api ''write'' [PIndex] [IntegerA 1, PointerA 100 (PPtr PIndex 0), IntegerA 1000] 108 =
     Some (Inr (Some (IntegerA 1000), 108))"
  using write_checks_pointer_size [of bump_api "IntegerA 1" 1 "IntegerA 1000" 1000 PIndex 108 100 "PPtr PIndex 0"]
  by (simp add: bump_api_def isIntResult_def countAttr_def ap_int_def ap_wrap_def)


section \<open>Rewrites under a bit cast\<close>

lemma bitcast_address:
  assumes "eval E \<rho> (Result m PointerBitcast t [x]) = Some (PointerA a u)"
  shows "\<exists>u'. eval E \<rho> x = Some (PointerA a u')"
proof -
  from assms obtain b where b: "eval E \<rho> x = Some b" "bitcast_sem t [b] = Some (PointerA a u)"
    by (auto split: option.splits simp: Option.bind_eq_Some_conv)
  then show ?thesis by (cases "(t, [b])" rule: bitcast_sem.cases) auto
qed

lemma bitcastOfPtrPtr_Some:
  "bitcastOfPtrPtr ptr = Some (x, t) \<Longrightarrow>
     (\<exists>m u. ptr = Result m PointerBitcast u [x]) \<and> (\<exists>sp. value_type x = PPtr t sp) \<and> isPtr t"
  by (auto simp: bitcastOfPtrPtr_def
      split: pop_value.splits pop_op.splits list.splits pop_type.splits if_splits)

text \<open>The pointer that a load, a store or a release uses after the rewrite.\<close>

inductive uses_pointer :: "pop_value \<Rightarrow> pop_value \<Rightarrow> bool" where
  load_gep: "LoadOp_canonicalize h prev ty ordr volatile ptr = Some (GepChain x d) \<Longrightarrow> uses_pointer ptr x"
| load_cast: "LoadOp_canonicalize h prev ty ordr volatile ptr = Some (LoadThenBitcast x t) \<Longrightarrow> uses_pointer ptr x"
| store_cast: "StoreOp_canonicalize ordr volatile v ptr = Some (StoreBitcast t v' x) \<Longrightarrow> uses_pointer ptr x"
| free_cast: "AlignedFreeOp_canonicalize ptr = Some x \<Longrightarrow> uses_pointer ptr x"

lemma uses_pointer_bitcast: "uses_pointer ptr x \<Longrightarrow> \<exists>m t. ptr = Result m PointerBitcast t [x]"
proof (induction rule: uses_pointer.induct)
  case (load_gep h prev ty ordr volatile ptr x d)
  then have "leadingElement ptr = Some (x, d)"
    by (auto simp: LoadOp_canonicalize_def split: if_splits prev_op.splits option.splits atomic_ordering.splits)
  then show ?case
    by (auto simp: leadingElement_def
        split: pop_value.splits pop_op.splits list.splits pop_type.splits if_splits option.splits)
next
  case (load_cast h prev ty ordr volatile ptr x t)
  then have "bitcastOfPtrPtr ptr = Some (x, t)"
    by (auto simp: LoadOp_canonicalize_def split: if_splits prev_op.splits option.splits atomic_ordering.splits)
  then show ?case by (blast dest: bitcastOfPtrPtr_Some)
next
  case (store_cast ordr volatile v ptr t v' x)
  then have "bitcastOfPtrPtr ptr = Some (x, t)" by (auto simp: StoreOp_canonicalize_def split: if_splits)
  then show ?case by (blast dest: bitcastOfPtrPtr_Some)
next
  case (free_cast ptr x)
  then show ?case by (auto simp: AlignedFreeOp_canonicalize_def split: pop_value.splits pop_op.splits list.splits)
qed

text \<open>
  A load, a store or a release whose pointer is replaced accesses the same address as before: every
  rewrite takes the pointer out of a bit cast, which keeps the address.
\<close>
theorem rewrites_same_address:
  assumes "uses_pointer ptr x" "eval E \<rho> ptr = Some (PointerA a t)"
  shows "\<exists>t'. eval E \<rho> x = Some (PointerA a t')"
proof -
  from uses_pointer_bitcast [OF assms(1)] obtain m u where "ptr = Result m PointerBitcast u [x]" by blast
  then show ?thesis using bitcast_address assms(2) by blast
qed

theorem rewrites_same_address_witness:
  "\<exists>t'. eval sample_pop (\<lambda>_. PointerA 96 (PPtr PIndex 0)) (Arg 0 (PPtr PIndex 0)) = Some (PointerA 96 t')"
proof (rule rewrites_same_address)
  show "uses_pointer (Result 1 PointerBitcast (PPtr PBool 0) [Arg 0 (PPtr PIndex 0)]) (Arg 0 (PPtr PIndex 0))"
    by (rule free_cast) (simp add: AlignedFreeOp_canonicalize_def)
  show "eval sample_pop (\<lambda>_. PointerA 96 (PPtr PIndex 0)) (Result 1 PointerBitcast (PPtr PBool 0) [Arg 0 (PPtr PIndex 0)]) =
      Some (PointerA 96 (PPtr PBool 0))"
    by simp
qed

end
