(* ===== verification/Cpu_Topology.thy ===== *)
theory Cpu_Topology
  imports Config_File Text_Numbers "HOL-Library.Product_Lexorder" "HOL-Library.Multiset"
begin

text \<open>
  What the runtime learns about the processors of a Linux host (\<^verbatim>\<open>Support/lib/Threading/HWInfo.cpp\<close>): the
  sockets, cores and hardware threads from \<^verbatim>\<open>/proc/cpuinfo\<close>, the processors that threads are pinned to,
  and lists of processors.  The contents of the files of the operating system are arguments.
\<close>

section \<open>Sockets, cores, hardware threads\<close>

text \<open>\<^verbatim>\<open>CPUSystemInfo\<close>: sockets of physical cores of processor numbers.\<close>

type_synonym cpu_system = "nat list list list"

record cpu_entry =
  physicalId :: int
  coreId :: int
  processor :: int

definition new_entry :: cpu_entry where
  "new_entry = \<lparr>physicalId = -1, coreId = -1, processor = -1\<rparr>"

definition illFormed :: string where
  "illFormed = ''ill-formed /proc/cpuinfo output''"

text \<open>One line: a field of the entry being read; the core number ends the entry.\<close>

definition cpuinfoLine ::
  "(int \<Rightarrow> bool) \<Rightarrow> string \<Rightarrow> cpu_entry list \<times> cpu_entry \<Rightarrow> (cpu_entry list \<times> cpu_entry) error_or" where
  "cpuinfoLine available line st =
     (case st of (entries, cur) \<Rightarrow>
        let name = trim (fst (split_at CHR '':'' line)); val = trim (snd (split_at CHR '':'' line)) in
        if name = ''processor'' then
          (case getAsSigned 32 val of None \<Rightarrow> Inl illFormed | Some i \<Rightarrow> Inr (entries, cur\<lparr>processor := i\<rparr>))
        else if name = ''physical id'' then
          (case getAsSigned 32 val of None \<Rightarrow> Inl illFormed | Some i \<Rightarrow> Inr (entries, cur\<lparr>physicalId := i\<rparr>))
        else if name = ''core id'' then
          (case getAsSigned 32 val of
             None \<Rightarrow> Inl illFormed
           | Some i \<Rightarrow>
               let e = cur\<lparr>coreId := i\<rparr> in
               if physicalId e < 0 \<or> coreId e < 0 \<or> processor e < 0 then Inl illFormed
               else if available (processor e) then Inr (entries @ [e], new_entry)
               else Inr (entries, e))
        else Inr (entries, cur))"

fun cpuinfoLines ::
  "(int \<Rightarrow> bool) \<Rightarrow> string list \<Rightarrow> cpu_entry list \<times> cpu_entry \<Rightarrow> cpu_entry list error_or" where
  "cpuinfoLines available [] st = Inr (fst st)"
| "cpuinfoLines available (l # ls) st = bind_err (cpuinfoLine available l st) (cpuinfoLines available ls)"

text \<open>
  An entry goes to the last core of the last socket, after new ones are begun where the numbers change;
  without a last one the access is undefined.
\<close>

definition addEntry :: "cpu_entry \<Rightarrow> cpu_system \<times> cpu_entry \<Rightarrow> (cpu_system \<times> cpu_entry) option" where
  "addEntry e st =
     (case st of (sockets, prev) \<Rightarrow>
        let newSocket = (physicalId e \<noteq> physicalId prev);
            ss = (if newSocket then sockets @ [[]] else sockets) in
        if ss = [] then None
        else
          let socket = last ss;
              cs = (if newSocket \<or> coreId e \<noteq> coreId prev then socket @ [[]] else socket) in
          if cs = [] then None
          else Some (butlast ss @ [butlast cs @ [last cs @ [nat (processor e)]]], e))"

fun addEntries :: "cpu_entry list \<Rightarrow> cpu_system \<times> cpu_entry \<Rightarrow> (cpu_system \<times> cpu_entry) option" where
  "addEntries [] st = Some st"
| "addEntries (e # es) st = Option.bind (addEntry e st) (addEntries es)"

definition entry_key :: "cpu_entry \<Rightarrow> int \<times> int \<times> int" where
  "entry_key e = (physicalId e, coreId e, processor e)"

definition getLinuxX86CPUSystemInfoImpl :: "(int \<Rightarrow> bool) \<Rightarrow> string \<Rightarrow> cpu_system error_or option" where
  "getLinuxX86CPUSystemInfoImpl available buf =
     (case cpuinfoLines available (split_nonempty CHR 0x0A buf) ([], new_entry) of
        Inl e \<Rightarrow> Some (Inl e)
      | Inr entries \<Rightarrow> map_option (\<lambda>st. Inr (fst st)) (addEntries (sort_key entry_key entries) ([], new_entry)))"

section \<open>Processors for threads\<close>

definition kNoAffinity :: nat where
  "kNoAffinity = 2 ^ 64 - 1"

text \<open>The hardware thread of the given index of every core, as many as are wanted.\<close>

definition currentPass :: "cpu_system \<Rightarrow> nat \<Rightarrow> nat \<Rightarrow> nat list" where
  "currentPass sockets numThreads idx =
     take numThreads (concat (map (\<lambda>core. if idx < length core then [core ! idx] else []) (concat sockets)))"

partial_function (option) preferredLoop :: "cpu_system \<Rightarrow> nat \<Rightarrow> nat list \<Rightarrow> nat \<Rightarrow> nat list option" where
  "preferredLoop sockets numThreads cpuIDs idx =
     (let pass = currentPass sockets numThreads idx;
          (cpuIDs, idx) =
            (if length pass = 0 then (cpuIDs, 0)
             else if length pass + length cpuIDs \<le> numThreads then (cpuIDs @ pass, idx + 1)
             else (cpuIDs @ replicate (numThreads - length cpuIDs) kNoAffinity, idx))
      in if length cpuIDs = numThreads then Some cpuIDs else preferredLoop sockets numThreads cpuIDs idx)"

declare preferredLoop.simps [code]

definition getPreferredCpuIDs :: "cpu_system \<Rightarrow> nat \<Rightarrow> nat list option" where
  "getPreferredCpuIDs sockets numThreads = preferredLoop sockets numThreads [] 0"

section \<open>Lists of processors\<close>

text \<open>A range counts up in 64 bits, so that an end of \<open>2\<^sup>6\<^sup>4 - 1\<close> is never passed.\<close>

definition cpuRange :: "nat \<Rightarrow> nat \<Rightarrow> nat list option" where
  "cpuRange start stop = (if stop = 2 ^ 64 - 1 then None else Some [start..<Suc stop])"

fun cpuRanges :: "string list \<Rightarrow> nat list \<Rightarrow> nat list error_or option" where
  "cpuRanges [] ids = Some (Inr ids)"
| "cpuRanges (r # rs) ids =
     (if CHR ''-'' \<in> set r then
        (case (getAsUnsigned 64 (fst (split_at CHR ''-'' r)), getAsUnsigned 64 (snd (split_at CHR ''-'' r))) of
           (Some start, Some stop) \<Rightarrow> Option.bind (cpuRange start stop) (\<lambda>is. cpuRanges rs (ids @ is))
         | _ \<Rightarrow> Some (Inl (''Failed to parse CPU range: '' @ r)))
      else
        (case getAsUnsigned 64 r of
           Some i \<Rightarrow> cpuRanges rs (ids @ [i])
         | None \<Rightarrow> Some (Inl (''Failed to parse CPU ID: '' @ r))))"

definition parseCpuList :: "string \<Rightarrow> nat list error_or option" where
  "parseCpuList cpuList = cpuRanges (split_nonempty CHR '','' (trim cpuList)) []"

section \<open>The topology is the sorted entries, grouped\<close>

text \<open>The groups of a list by a key, in the order of the first occurrence of each key.\<close>

definition groups_by :: "('a \<Rightarrow> 'k) \<Rightarrow> ('a list \<Rightarrow> 'b) \<Rightarrow> 'a list \<Rightarrow> 'b list" where
  "groups_by k f es = map (\<lambda>p. f (filter (\<lambda>e. k e = p) es)) (remdups_adj (map k es))"

definition topology_of :: "cpu_entry list \<Rightarrow> cpu_system" where
  "topology_of es = groups_by physicalId (groups_by coreId (map (\<lambda>e. nat (processor e)))) es"

lemma remdups_adj_last: "xs \<noteq> [] \<Longrightarrow> remdups_adj xs = butlast (remdups_adj xs) @ [last xs]"
  by (metis append_butlast_last_id last_remdups_adj remdups_adj_Nil_iff)

lemma remdups_adj_snoc:
  "remdups_adj (xs @ [x]) = (if xs \<noteq> [] \<and> last xs = x then remdups_adj xs else remdups_adj xs @ [x])"
proof (cases xs rule: rev_cases)
  case (snoc ys y)
  then show ?thesis by (auto simp: remdups_adj_append_two)
qed simp

lemma sorted_distinct_remdups_adj: "sorted (xs :: 'k :: linorder list) \<Longrightarrow> distinct (remdups_adj xs)"
  by (induction xs rule: remdups_adj.induct) force+

lemma sorted_last_less:
  fixes k :: "'a \<Rightarrow> 'k :: linorder"
  assumes "sorted (map k (es @ [e]))" "es \<noteq> [] \<Longrightarrow> k (last es) \<noteq> k e" "x \<in> set es"
  shows "k x < k e"
proof -
  have ne: "es \<noteq> []" using assms(3) by auto
  then obtain ys y where es: "es = ys @ [y]" by (cases es rule: rev_cases) auto
  have "k y \<le> k e" "\<And>z. z \<in> set ys \<Longrightarrow> k z \<le> k y" using assms(1) by (auto simp: es sorted_append)
  moreover have "k y \<noteq> k e" using assms(2) es by simp
  ultimately show ?thesis using assms(3) es by fastforce
qed

lemma groups_by_new:
  fixes k :: "'a \<Rightarrow> 'k :: linorder"
  assumes "sorted (map k (es @ [e]))" "es \<noteq> [] \<Longrightarrow> k (last es) \<noteq> k e"
  shows "groups_by k f (es @ [e]) = groups_by k f es @ [f [e]]"
proof -
  have less: "\<And>x. x \<in> set es \<Longrightarrow> k x < k e" using sorted_last_less [OF assms] by blast
  have "filter (\<lambda>x. k x = k e) es = []" using less by (force simp: filter_empty_conv)
  moreover have "remdups_adj (map k (es @ [e])) = remdups_adj (map k es) @ [k e]"
    using assms(2) by (auto simp: remdups_adj_snoc last_map)
  moreover have "\<And>p. p \<in> set (map k es) \<Longrightarrow> k e \<noteq> p" using less by fastforce
  ultimately show ?thesis by (auto simp: groups_by_def)
qed

lemma groups_by_same:
  fixes k :: "'a \<Rightarrow> 'k :: linorder"
  assumes "sorted (map k es)" "es \<noteq> []" "k (last es) = k e"
  shows "groups_by k f (es @ [e]) = butlast (groups_by k f es) @ [f (filter (\<lambda>x. k x = k e) es @ [e])]"
    and "groups_by k f es = butlast (groups_by k f es) @ [f (filter (\<lambda>x. k x = k e) es)]"
proof -
  let ?ps = "remdups_adj (map k es)"
  have ps: "?ps = butlast ?ps @ [k e]" using remdups_adj_last [of "map k es"] assms by (simp add: last_map)
  have "distinct ?ps" using assms(1) by (rule sorted_distinct_remdups_adj)
  then have nin: "k e \<notin> set (butlast ?ps)" using ps by (metis distinct.simps(2) distinct1_rotate rotate1.simps(2) rotate1_hd_tl append_Cons append_Nil distinct_append disjoint_insert(1) list.set(2))
  show "groups_by k f es = butlast (groups_by k f es) @ [f (filter (\<lambda>x. k x = k e) es)]"
    unfolding groups_by_def by (subst (1 2) ps) simp
  have "remdups_adj (map k (es @ [e])) = ?ps" using assms by (simp add: remdups_adj_snoc last_map)
  then have "groups_by k f (es @ [e]) =
      map (\<lambda>p. f (filter (\<lambda>x. k x = p) (es @ [e]))) (butlast ?ps @ [k e])"
    unfolding groups_by_def using ps by simp
  also have "\<dots> = map (\<lambda>p. f (filter (\<lambda>x. k x = p) es)) (butlast ?ps) @ [f (filter (\<lambda>x. k x = k e) es @ [e])]"
    using nin by auto
  finally show "groups_by k f (es @ [e]) = butlast (groups_by k f es) @ [f (filter (\<lambda>x. k x = k e) es @ [e])]"
    by (simp add: groups_by_def map_butlast)
qed

lemma groups_by_nonempty: "es \<noteq> [] \<Longrightarrow> groups_by k f es \<noteq> []"
  by (simp add: groups_by_def)

lemma addEntries_append:
  "addEntries (es @ fs) st = Option.bind (addEntries es st) (addEntries fs)"
proof (induction es arbitrary: st)
  case (Cons e es)
  then show ?case by (cases "addEntry e st") auto
qed simp

lemma sorted_entries_sockets: "sorted (map entry_key es) \<Longrightarrow> sorted (map physicalId es)"
  unfolding sorted_map by (erule sorted_wrt_mono_rel [rotated]) (auto simp: entry_key_def less_eq_prod_def)

lemma sorted_entries_cores:
  assumes "sorted (map entry_key es)" "\<forall>x \<in> set es. physicalId x = p"
  shows "sorted (map coreId es)"
  using assms(1) unfolding sorted_map
  by (rule sorted_wrt_mono_rel [rotated]) (use assms(2) in \<open>auto simp: entry_key_def less_eq_prod_def\<close>)

lemma last_filter_last: "es \<noteq> [] \<Longrightarrow> P (last es) \<Longrightarrow> filter P es \<noteq> [] \<and> last (filter P es) = last es"
  by (cases es rule: rev_cases) auto

text \<open>One more hardware thread in the cores of a socket.\<close>

lemma cores_step:
  assumes "sorted (map coreId (es @ [e]))" "es \<noteq> []"
  shows "groups_by coreId (map f) (es @ [e]) =
    (let cs = (if coreId e \<noteq> coreId (last es) then groups_by coreId (map f) es @ [[]] else groups_by coreId (map f) es)
     in butlast cs @ [last cs @ [f e]])"
proof (cases "coreId (last es) = coreId e")
  case True
  have "sorted (map coreId es)" using assms(1) by (simp add: sorted_append)
  note g = groups_by_same [OF this assms(2) True, where f = "map f"]
  from g(2) have "last (groups_by coreId (map f) es) = map f (filter (\<lambda>x. coreId x = coreId e) es)"
    by (metis last_snoc)
  then show ?thesis using g(1) True by simp
next
  case False
  then show ?thesis using groups_by_new [OF assms(1), of "map f"] by auto
qed

text \<open>
  The entries come sorted, so a change of the socket or of the core begins a group that was not there, and
  the last group always exists.
\<close>

lemma addEntries_topology:
  assumes "sorted (map entry_key es)" "\<forall>e \<in> set es. 0 \<le> physicalId e"
  shows "addEntries es ([], new_entry) = Some (topology_of es, if es = [] then new_entry else last es)"
  using assms
proof (induction es rule: rev_induct)
  case Nil
  then show ?case by (simp add: topology_of_def groups_by_def)
next
  case (snoc e es)
  let ?cores = "groups_by coreId (map (\<lambda>e. nat (processor e)))"
  let ?prev = "if es = [] then new_entry else last es"
  have IH: "addEntries es ([], new_entry) = Some (topology_of es, ?prev)"
    using snoc by (simp add: sorted_append)
  have sp: "sorted (map physicalId (es @ [e]))"
    using snoc.prems(1) by (rule sorted_entries_sockets)
  have step: "addEntries (es @ [e]) ([], new_entry) = addEntry e (topology_of es, ?prev)"
    using IH by (cases "addEntry e (topology_of es, ?prev)") (auto simp: addEntries_append)
  show ?case
  proof (cases "physicalId e = physicalId ?prev")
    case False
    then have "groups_by physicalId ?cores (es @ [e]) = groups_by physicalId ?cores es @ [?cores [e]]"
      by (intro groups_by_new [OF sp]) auto
    then show ?thesis using step False by (simp add: addEntry_def topology_of_def groups_by_def)
  next
    case True
    then have ne: "es \<noteq> []" using snoc.prems(2) by (auto simp: new_entry_def split: if_splits)
    let ?same = "filter (\<lambda>x. physicalId x = physicalId e) es"
    have phys: "physicalId (last es) = physicalId e" using True ne by simp
    have ss: "sorted (map physicalId es)" using sp by (simp add: sorted_append)
    note top = groups_by_same [OF ss ne phys, where f = ?cores]
    have "sorted (map entry_key (filter (\<lambda>x. physicalId x = physicalId e) (es @ [e])))"
      using snoc.prems(1) by (rule sorted_filter)
    then have sc: "sorted (map coreId (?same @ [e]))" by (intro sorted_entries_cores [where p = "physicalId e"]) auto
    have last_same: "?same \<noteq> []" "last ?same = last es" using last_filter_last [OF ne, of "\<lambda>x. physicalId x = physicalId e"] phys by auto
    note cores = cores_step [OF sc last_same(1), of "\<lambda>e. nat (processor e)"]
    have "last (topology_of es) = ?cores ?same" "butlast (topology_of es) = butlast (groups_by physicalId ?cores es)"
      "topology_of es \<noteq> []" "?cores ?same \<noteq> []"
      using top(2) groups_by_nonempty last_same(1) by (metis last_snoc topology_of_def, simp_all add: topology_of_def groups_by_nonempty ne last_same(1))
    then show ?thesis
      using step top(1) cores phys ne last_same(2)
      by (auto simp: addEntry_def topology_of_def Let_def)
  qed
qed

text \<open>No processor is lost: the topology holds those of the entries, in order.\<close>

lemma concat_groups_by:
  fixes k :: "'a \<Rightarrow> 'k :: linorder"
  assumes "sorted (map k es)"
  shows "concat (groups_by k (map f) es) = map f es"
  using assms
proof (induction es rule: rev_induct)
  case Nil
  then show ?case by (simp add: groups_by_def)
next
  case (snoc e es)
  have s: "sorted (map k es)" using snoc.prems by (simp add: sorted_append)
  show ?case
  proof (cases "es \<noteq> [] \<and> k (last es) = k e")
    case True
    note g = groups_by_same [OF s conjunct1 [OF True] conjunct2 [OF True], where f = "map f"]
    have "concat (groups_by k (map f) es) =
        concat (butlast (groups_by k (map f) es)) @ map f (filter (\<lambda>x. k x = k e) es)"
      by (subst g(2)) simp
    then show ?thesis using g(1) snoc.IH [OF s] by simp
  next
    case False
    then show ?thesis using groups_by_new [OF snoc.prems, of "map f"] snoc.IH [OF s] by auto
  qed
qed

lemma concat_concat: "concat (concat xs) = concat (map concat xs)"
  by (induction xs) auto

lemma concat_topology_of:
  assumes "sorted (map entry_key es)"
  shows "concat (concat (topology_of es)) = map (\<lambda>e. nat (processor e)) es"
proof -
  let ?f = "map (\<lambda>e. nat (processor e))"
  have "concat (groups_by coreId ?f (filter (\<lambda>e. physicalId e = p) es)) = ?f (filter (\<lambda>e. physicalId e = p) es)" for p
    by (intro concat_groups_by sorted_entries_cores [where p = p] sorted_filter assms) simp
  then have "concat (concat (topology_of es)) = concat (groups_by physicalId ?f es)"
    by (simp add: topology_of_def groups_by_def concat_concat comp_def)
  then show ?thesis using concat_groups_by [OF sorted_entries_sockets [OF assms]] by simp
qed

section \<open>Reading the text of the kernel\<close>

text \<open>The name of a field is followed by tabulators up to the column of the values.\<close>

definition field_line :: "string \<Rightarrow> nat \<Rightarrow> nat \<Rightarrow> string" where
  "field_line name tabs n = name @ replicate tabs CHR 0x09 @ '': '' @ natDigits n"

text \<open>
  The lines of one processor that are not about its place: vendor, model and the like before the number of
  the socket, the number of siblings between the numbers of the socket and of the core, and the number of
  cores, flags and the like after it.
\<close>

record other_fields =
  beforeSocket :: "string list"
  betweenIds :: "string list"
  afterCore :: "string list"

text \<open>A processor as Linux prints it on x86, one tabulator after each name but two after the number of the core.\<close>

definition entry_lines :: "other_fields \<Rightarrow> cpu_entry \<Rightarrow> string list" where
  "entry_lines others e =
     field_line ''processor'' 1 (nat (processor e)) # beforeSocket others @
     field_line ''physical id'' 1 (nat (physicalId e)) # betweenIds others @
     field_line ''core id'' 2 (nat (coreId e)) # afterCore others"

text \<open>The whole text: an empty line after each processor, whose other fields are its own.\<close>

definition print_cpuinfo :: "(cpu_entry \<Rightarrow> other_fields) \<Rightarrow> cpu_entry list \<Rightarrow> string" where
  "print_cpuinfo others es =
     concat (map (\<lambda>e. concat (map (\<lambda>l. l @ [CHR 0x0A]) (entry_lines (others e) e)) @ [CHR 0x0A]) es)"

definition wf_cpu_entry :: "cpu_entry \<Rightarrow> bool" where
  "wf_cpu_entry e \<longleftrightarrow> 0 \<le> physicalId e \<and> physicalId e < 2 ^ 31 \<and> 0 \<le> coreId e \<and> coreId e < 2 ^ 31 \<and>
     0 \<le> processor e \<and> processor e < 2 ^ 31"

definition other_line :: "string \<Rightarrow> bool" where
  "other_line l \<longleftrightarrow> l \<noteq> [] \<and> CHR 0x0A \<notin> set l \<and>
     trim (fst (split_at CHR '':'' l)) \<notin> {''processor'', ''physical id'', ''core id''}"

definition other_lines :: "other_fields \<Rightarrow> bool" where
  "other_lines others \<longleftrightarrow>
     list_all other_line (beforeSocket others) \<and> list_all other_line (betweenIds others) \<and> list_all other_line (afterCore others)"

lemma digit_not_space: "is_digit c \<Longrightarrow> \<not> is_space c"
  by (auto simp: is_digit_def is_space_def is_newline_def less_eq_char_def)

lemma dropWhile_fixed: "\<forall>c \<in> set s. \<not> P c \<Longrightarrow> dropWhile P s = s"
  by (cases s) auto

lemma trim_no_space: "list_all (\<lambda>c. \<not> P c) s \<Longrightarrow> trim_by P s = s"
  by (simp add: trim_by_def list_all_iff dropWhile_fixed)

lemma trim_natDigits [simp]: "trim (natDigits n) = natDigits n"
proof (rule trim_no_space)
  have "list_all is_digit (natDigits n)" using natDigits_digits by blast
  then show "list_all (\<lambda>c. \<not> is_space c) (natDigits n)" by (rule list.pred_mono_strong) (auto dest: digit_not_space)
qed

lemma natDigits_no: "\<not> is_digit c \<Longrightarrow> c \<notin> set (natDigits n)"
  using natDigits_digits [of n] by (auto simp: list_all_iff)

lemma getAsSigned_natDigits:
  assumes "n < 2 ^ (w - 1)"
  shows "getAsSigned w (natDigits n) = Some (int n)"
proof -
  obtain c r where s: "natDigits n = c # r" using natDigits_digits [of n] by (cases "natDigits n") auto
  then have "is_digit c" using natDigits_digits [of n] by simp
  then have "c \<noteq> CHR ''-''" by (auto simp: is_digit_def less_eq_char_def)
  then show ?thesis using s parse_natDigits [of n] assms by (simp add: getAsSigned_def)
qed

lemma split_field_line:
  assumes "CHR '':'' \<notin> set name"
  shows "split_at CHR '':'' (field_line name tabs n) = (name @ replicate tabs CHR 0x09, CHR '' '' # natDigits n)"
proof -
  have "split_at CHR '':'' (pre @ CHR '':'' # rest) = (pre, rest)" if "CHR '':'' \<notin> set pre" for pre rest
    using that by (induction pre) (auto simp: split_at_def)
  from this [of "name @ replicate tabs CHR 0x09"] show ?thesis using assms by (simp add: field_line_def)
qed

lemma field_line_value: "trim (CHR '' '' # natDigits n) = natDigits n"
  using trim_pad_front [of is_space "'' ''" "natDigits n"] by (simp add: is_space_def)

lemma split_nonempty_acc_line:
  "c \<notin> set l \<Longrightarrow> cur @ l \<noteq> [] \<Longrightarrow> split_nonempty_acc c cur (l @ c # rest) = (cur @ l) # split_nonempty_acc c [] rest"
  by (induction l arbitrary: cur) auto

lemma split_nonempty_line:
  "c \<notin> set l \<Longrightarrow> l \<noteq> [] \<Longrightarrow> split_nonempty c (l @ c # rest) = l # split_nonempty c rest"
  unfolding split_nonempty_def by (subst split_nonempty_acc_line) auto

lemma split_nonempty_empty_line: "split_nonempty c (c # rest) = split_nonempty c rest"
  by (simp add: split_nonempty_def)

lemma split_nonempty_lines:
  "list_all (\<lambda>l. c \<notin> set l \<and> l \<noteq> []) ls \<Longrightarrow>
   split_nonempty c (concat (map (\<lambda>l. l @ [c]) ls) @ rest) = ls @ split_nonempty c rest"
  by (induction ls) (auto simp: split_nonempty_line)

lemma cpuinfoLine_field:
  assumes "name \<in> {''processor'', ''physical id'', ''core id''}" "n < 2 ^ 31"
  shows "cpuinfoLine available (field_line name tabs n) (es, cur) =
    (if name = ''processor'' then Inr (es, cur\<lparr>processor := int n\<rparr>)
     else if name = ''physical id'' then Inr (es, cur\<lparr>physicalId := int n\<rparr>)
     else if physicalId cur < 0 \<or> processor cur < 0 then Inl illFormed
     else if available (processor cur) then Inr (es @ [cur\<lparr>coreId := int n\<rparr>], new_entry)
     else Inr (es, cur\<lparr>coreId := int n\<rparr>))"
proof -
  have "CHR '':'' \<notin> set name" "list_all (\<lambda>c. c \<in> set '' '' \<or> \<not> is_space c) name" using assms(1) by (auto simp: is_space_def is_newline_def)
  moreover have "trim (name @ replicate tabs CHR 0x09) = name"
  proof -
    have tab: "is_space CHR 0x09" by (simp add: is_space_def)
    have "trim (name @ replicate tabs CHR 0x09) = trim name"
      by (intro trim_pad_back) (simp add: list_all_iff tab)
    then show ?thesis using assms(1) by (auto simp: trim_by_def is_space_def is_newline_def)
  qed
  ultimately show ?thesis
    using assms getAsSigned_natDigits [of n 32] by (auto simp: cpuinfoLine_def split_field_line field_line_value Let_def)
qed

lemma cpuinfoLine_other: "other_line l \<Longrightarrow> cpuinfoLine available l st = Inr st"
  by (cases st) (auto simp: cpuinfoLine_def other_line_def Let_def)

lemma cpuinfoLines_others:
  "list_all other_line ls \<Longrightarrow> cpuinfoLines available (ls @ rest) st = cpuinfoLines available rest st"
  by (induction ls) (auto simp: cpuinfoLine_other)

text \<open>The lines of an entry leave that entry, or leave it out when its processor is not available.\<close>

lemma cpuinfoLines_entry:
  assumes "wf_cpu_entry e" "other_lines others"
  shows "\<exists>cur'. cpuinfoLines available (entry_lines others e @ rest) (es, cur) =
    cpuinfoLines available rest (es @ (if available (processor e) then [e] else []), cur')"
proof -
  have n: "nat (processor e) < 2 ^ 31" "nat (physicalId e) < 2 ^ 31" "nat (coreId e) < 2 ^ 31"
    "0 \<le> processor e" "0 \<le> physicalId e" "0 \<le> coreId e"
    using assms(1) by (auto simp: wf_cpu_entry_def)
  have e: "cur\<lparr>processor := processor e, physicalId := physicalId e, coreId := coreId e\<rparr> = e"
    by (cases cur; cases e) simp
  from n have "cpuinfoLines available (entry_lines others e @ rest) (es, cur) =
      cpuinfoLines available rest
        (if available (processor e) then (es @ [e], new_entry) else (es, e))"
    using assms(2) by (simp add: entry_lines_def other_lines_def cpuinfoLine_field cpuinfoLines_others e)
  then show ?thesis by (cases "available (processor e)") auto
qed

lemma entry_lines_split:
  "other_lines others \<Longrightarrow> list_all (\<lambda>l. CHR 0x0A \<notin> set l \<and> l \<noteq> []) (entry_lines others e)"
  by (auto simp: entry_lines_def other_lines_def field_line_def other_line_def list_all_iff natDigits_no is_digit_def less_eq_char_def)

lemma cpuinfoLines_print:
  assumes "list_all wf_cpu_entry es" "\<And>e. other_lines (others e)"
  shows "cpuinfoLines available (split_nonempty CHR 0x0A (print_cpuinfo others es)) (acc, cur) =
    Inr (acc @ filter (\<lambda>e. available (processor e)) es)"
  using assms(1)
proof (induction es arbitrary: acc cur)
  case Nil
  then show ?case by (simp add: print_cpuinfo_def split_nonempty_def)
next
  case (Cons e es)
  have "split_nonempty CHR 0x0A (print_cpuinfo others (e # es)) =
      entry_lines (others e) e @ split_nonempty CHR 0x0A (print_cpuinfo others es)"
    using split_nonempty_lines [OF entry_lines_split [OF assms(2)], of e e]
    by (simp add: print_cpuinfo_def split_nonempty_empty_line)
  moreover obtain cur' where
    "cpuinfoLines available (entry_lines (others e) e @ split_nonempty CHR 0x0A (print_cpuinfo others es)) (acc, cur) =
     cpuinfoLines available (split_nonempty CHR 0x0A (print_cpuinfo others es))
       (acc @ (if available (processor e) then [e] else []), cur')"
    using cpuinfoLines_entry [OF _ assms(2)] Cons.prems by fastforce
  ultimately show ?case using Cons.IH Cons.prems by auto
qed

section \<open>What is read of a host\<close>

lemma cpuinfoLines_entries:
  assumes "cpuinfoLines available ls (acc, cur) = Inr es"
    "\<forall>e \<in> set acc. 0 \<le> physicalId e \<and> 0 \<le> coreId e \<and> 0 \<le> processor e \<and> available (processor e)"
  shows "\<forall>e \<in> set es. 0 \<le> physicalId e \<and> 0 \<le> coreId e \<and> 0 \<le> processor e \<and> available (processor e)"
  using assms
proof (induction ls arbitrary: acc cur)
  case (Cons l ls)
  then obtain acc' cur' where
    step: "cpuinfoLine available l (acc, cur) = Inr (acc', cur')" "cpuinfoLines available ls (acc', cur') = Inr es"
    by (auto simp: bind_err_eq_Inr_iff)
  then have "\<forall>e \<in> set acc'. 0 \<le> physicalId e \<and> 0 \<le> coreId e \<and> 0 \<le> processor e \<and> available (processor e)"
    using Cons.prems(2) by (auto simp: cpuinfoLine_def Let_def split: if_splits option.splits)
  then show ?case using Cons.IH step(2) by blast
qed auto

definition available_entries :: "(int \<Rightarrow> bool) \<Rightarrow> cpu_entry list \<Rightarrow> cpu_entry list" where
  "available_entries available es = sort_key entry_key (filter (\<lambda>e. available (processor e)) es)"

text \<open>
  C30. Read back, the text that Linux prints on x86 for any processors, each with any other fields before,
  between and after the numbers of its socket and core, gives the available ones grouped into cores and
  sockets, each of them once; the last socket and core are never taken of an empty list.  The numbers are
  those that fit 31 bits, and no other field has one of the three names.
\<close>

theorem cpuinfo_roundtrip:
  assumes "list_all wf_cpu_entry es" "\<And>e. other_lines (others e)"
  shows "getLinuxX86CPUSystemInfoImpl available (print_cpuinfo others es) =
      Some (Inr (topology_of (available_entries available es))) \<and>
    concat (concat (topology_of (available_entries available es))) =
      map (\<lambda>e. nat (processor e)) (available_entries available es)"
proof -
  let ?found = "available_entries available es"
  have "\<forall>e \<in> set ?found. 0 \<le> physicalId e" using assms(1) by (auto simp: available_entries_def wf_cpu_entry_def list_all_iff)
  moreover have "sorted (map entry_key ?found)" by (simp add: available_entries_def)
  ultimately show ?thesis
    using addEntries_topology concat_topology_of cpuinfoLines_print [OF assms(1,2)]
    by (simp add: getLinuxX86CPUSystemInfoImpl_def available_entries_def)
qed

definition sample_fields :: "cpu_entry \<Rightarrow> other_fields" where
  "sample_fields e =
     \<lparr>beforeSocket = [''vendor_id'' @ [CHR 0x09] @ '': GenuineIntel'', ''microcode'' @ [CHR 0x09] @ '': 0x'' @ natDigits (nat (processor e))],
      betweenIds = [''siblings'' @ [CHR 0x09] @ '': 4''],
      afterCore = [''cpu cores'' @ [CHR 0x09] @ '': 2'', ''flags'' @ [CHR 0x09, CHR 0x09] @ '': fpu'']\<rparr>"

lemma sample_fields_other: "other_lines (sample_fields e)"
  by (simp add: other_lines_def sample_fields_def other_line_def split_at_def trim_by_def is_space_def is_newline_def
      natDigits_no is_digit_def less_eq_char_def)

theorem cpuinfo_roundtrip_witness:
  "getLinuxX86CPUSystemInfoImpl (\<lambda>p. p \<noteq> 2)
     (print_cpuinfo sample_fields
       [\<lparr>physicalId = 0, coreId = 0, processor = 0\<rparr>, \<lparr>physicalId = 0, coreId = 4, processor = 1\<rparr>,
        \<lparr>physicalId = 0, coreId = 4, processor = 2\<rparr>, \<lparr>physicalId = 0, coreId = 0, processor = 3\<rparr>]) =
   Some (Inr [[[0, 3], [1]]])"
  using cpuinfo_roundtrip [of "[\<lparr>physicalId = 0, coreId = 0, processor = 0\<rparr>, \<lparr>physicalId = 0, coreId = 4, processor = 1\<rparr>,
        \<lparr>physicalId = 0, coreId = 4, processor = 2\<rparr>, \<lparr>physicalId = 0, coreId = 0, processor = 3\<rparr>]" sample_fields "\<lambda>p. p \<noteq> 2"]
  by (simp add: wf_cpu_entry_def sample_fields_other available_entries_def entry_key_def topology_of_def groups_by_def)

text \<open>Whatever the text is, the reader ends with a topology or the error.\<close>

lemma cpuinfo_never_undefined: "\<exists>r. getLinuxX86CPUSystemInfoImpl available buf = Some r"
proof (cases "cpuinfoLines available (split_nonempty CHR 0x0A buf) ([], new_entry)")
  case (Inr es)
  have "\<forall>e \<in> set (sort_key entry_key es). 0 \<le> physicalId e" using cpuinfoLines_entries [OF Inr] by auto
  then show ?thesis using addEntries_topology [of "sort_key entry_key es"] Inr
    by (simp add: getLinuxX86CPUSystemInfoImpl_def)
qed (simp add: getLinuxX86CPUSystemInfoImpl_def)

section \<open>The processors that threads are pinned to\<close>

text \<open>The threads of index \<open>i\<close> of the cores.\<close>

definition core_column :: "cpu_system \<Rightarrow> nat \<Rightarrow> nat list" where
  "core_column sockets i = concat (map (\<lambda>core. if i < length core then [core ! i] else []) (concat sockets))"

lemma currentPass_take: "currentPass sockets n i = take n (core_column sockets i)"
  by (simp add: currentPass_def core_column_def)

lemma core_column_0: "core_column sockets 0 = map hd (filter (\<lambda>core. core \<noteq> []) (concat sockets))"
proof -
  have "concat (map (\<lambda>core. if 0 < length core then [core ! 0] else []) cs) = map hd (filter (\<lambda>core. core \<noteq> []) cs)" for cs
    by (induction cs) (auto simp: hd_conv_nth)
  then show ?thesis by (simp add: core_column_def)
qed

lemma preferredLoop_step:
  "preferredLoop sockets n ids i =
     (let pass = currentPass sockets n i in
      if pass = [] then (if length ids = n then Some ids else preferredLoop sockets n ids 0)
      else if length pass + length ids \<le> n then
        (if length (ids @ pass) = n then Some (ids @ pass) else preferredLoop sockets n (ids @ pass) (i + 1))
      else
        let full = ids @ replicate (n - length ids) kNoAffinity in
        if length full = n then Some full else preferredLoop sockets n full i)"
  by (subst preferredLoop.simps) (simp add: Let_def)

text \<open>A property kept by every pass holds of the result, which is reached when a core has a thread.\<close>

lemma preferredLoop_result:
  assumes "core_column sockets 0 \<noteq> []" "length ids \<le> n" "P ids i"
    and again: "\<And>ids i. P ids i \<Longrightarrow> core_column sockets i = [] \<Longrightarrow> length ids < n \<Longrightarrow> P ids 0"
    and add: "\<And>ids i. P ids i \<Longrightarrow> currentPass sockets n i \<noteq> [] \<Longrightarrow>
      length ids + length (currentPass sockets n i) \<le> n \<Longrightarrow> P (ids @ currentPass sockets n i) (i + 1)"
  shows "\<exists>ids' i' k. preferredLoop sockets n ids i = Some (ids' @ replicate k kNoAffinity) \<and> P ids' i' \<and>
    length ids' + k = n \<and> (k = 0 \<or> k < length (currentPass sockets n i'))"
  using assms(2,3)
proof (induction "2 * (n - length ids) + (if i = 0 then 0 else 1)" arbitrary: ids i rule: less_induct)
  case less
  let ?pass = "currentPass sockets n i"
  consider (over) "?pass = []" "length ids = n" | (again) "?pass = []" "length ids < n"
    | (fits) "?pass \<noteq> []" "length ?pass + length ids \<le> n" | (fill) "?pass \<noteq> []" "n < length ?pass + length ids"
    using less.prems(1) by linarith
  then show ?case
  proof cases
    case over
    then have "preferredLoop sockets n ids i = Some (ids @ replicate 0 kNoAffinity)"
      by (subst preferredLoop_step) simp
    then show ?thesis using over less.prems by fastforce
  next
    case again
    then have "core_column sockets i = []" by (simp add: currentPass_take)
    moreover from this have "i \<noteq> 0" using assms(1) by metis
    moreover have "preferredLoop sockets n ids i = preferredLoop sockets n ids 0"
      using again by (subst preferredLoop_step) simp
    ultimately show ?thesis using less.hyps [of ids 0] less.prems assms(4) again(2) by simp
  next
    case fits
    have P: "P (ids @ ?pass) (i + 1)" using assms(5) less.prems(2) fits by simp
    show ?thesis
    proof (cases "length (ids @ ?pass) = n")
      case True
      then have "preferredLoop sockets n ids i = Some ((ids @ ?pass) @ replicate 0 kNoAffinity)"
        using fits by (subst preferredLoop_step) simp
      then show ?thesis using P True by (metis add_0_right)
    next
      case False
      obtain m where "length ?pass = Suc m" using fits(1) by (cases ?pass) auto
      then have "2 * (n - length (ids @ ?pass)) + (if i + 1 = 0 then 0 else 1) < 2 * (n - length ids) + (if i = 0 then 0 else 1)"
        using fits(2) by (cases "i = 0") auto
      moreover have "preferredLoop sockets n ids i = preferredLoop sockets n (ids @ ?pass) (i + 1)"
        using fits False by (subst preferredLoop_step) simp
      moreover have "length (ids @ ?pass) \<le> n" using fits(2) by simp
      ultimately show ?thesis using less.hyps P by metis
    qed
  next
    case fill
    then have "preferredLoop sockets n ids i = Some (ids @ replicate (n - length ids) kNoAffinity)"
      using less.prems(1) by (subst preferredLoop_step) simp
    moreover have "n - length ids < length ?pass" using fill(2) less.prems(1) by linarith
    ultimately show ?thesis using less.prems by (metis le_add_diff_inverse)
  qed
qed

lemma preferredLoop_diverges:
  assumes "preferredLoop sockets n ids i = Some ids'"
  shows "core_column sockets 0 = [] \<and> i = 0 \<longrightarrow> length ids = n"
proof (rule preferredLoop.raw_induct
    [where P = "\<lambda>sockets n ids i ids'. core_column sockets 0 = [] \<and> i = 0 \<longrightarrow> length ids = n", OF _ assms])
  fix loop sockets n ids i ids'
  assume IH: "\<And>sockets n ids i ids'. loop sockets n ids i = Some ids' \<Longrightarrow> core_column sockets 0 = [] \<and> i = 0 \<longrightarrow> length ids = n"
    and body: "(let pass = currentPass sockets n i;
          (ids, i) = (if length pass = 0 then (ids, 0)
             else if length pass + length ids \<le> n then (ids @ pass, i + 1)
             else (ids @ replicate (n - length ids) kNoAffinity, i))
      in if length ids = n then Some ids else loop sockets n ids i) = Some ids'"
  show "core_column sockets 0 = [] \<and> i = 0 \<longrightarrow> length ids = n"
    using body IH [of sockets n ids 0] by (auto simp: currentPass_take split: if_splits)
qed

text \<open>The first \<open>i\<close> passes take the first \<open>i\<close> threads of every core.\<close>

lemma mset_columns_cores:
  "mset (concat (map (\<lambda>i. concat (map (\<lambda>core. if i < length core then [core ! i] else []) cs)) [0..<k])) =
   mset (concat (map (take k) cs))"
proof (induction k)
  case (Suc k)
  have "mset (concat (map (take k) cs)) + mset (concat (map (\<lambda>core. if k < length core then [core ! k] else []) cs)) =
      mset (concat (map (take (Suc k)) cs))"
    by (induction cs) (auto simp: take_Suc_conv_app_nth)
  then show ?case using Suc by simp
qed (simp add: map_replicate_const)

lemma mset_columns: "mset (concat (map (core_column sockets) [0..<k])) = mset (concat (map (take k) (concat sockets)))"
  using mset_columns_cores [of "concat sockets" k] by (simp add: core_column_def [abs_def])

lemma columns_subset: "mset (concat (map (core_column sockets) [0..<k])) \<subseteq># mset (concat (concat sockets))"
proof -
  have "mset (concat (map (take k) cs)) \<subseteq># mset (concat cs)" for cs :: "nat list list"
  proof (induction cs)
    case (Cons c cs)
    have "mset (take k c) \<subseteq># mset c" by (metis append_take_drop_id mset_append mset_subset_eq_add_left)
    then show ?case using Cons by (simp add: subset_mset.add_mono)
  qed simp
  then show ?thesis by (simp add: mset_columns)
qed

lemma column_empty_iff: "core_column sockets i = [] \<longleftrightarrow> (\<forall>core \<in> set (concat sockets). length core \<le> i)"
proof -
  have "concat (map (\<lambda>core. if i < length core then [core ! i] else []) cs) = [] \<longleftrightarrow> (\<forall>core \<in> set cs. length core \<le> i)"
    for cs by (induction cs) auto
  then show ?thesis unfolding core_column_def .
qed

lemma columns_all:
  assumes "core_column sockets i = []"
  shows "length (concat (map (core_column sockets) [0..<i])) = length (concat (concat sockets))"
proof -
  have "map (take i) (concat sockets) = concat sockets"
    using assms unfolding column_empty_iff by (intro map_idI) (blast intro: take_all)
  then show ?thesis using mset_columns [of sockets i] by (metis size_mset)
qed

lemma column_subset: "set (core_column sockets i) \<subseteq> set (concat (concat sockets))"
proof -
  have "set (concat (map (\<lambda>core. if i < length core then [core ! i] else []) cs)) \<subseteq> set (concat cs)" for cs
    by (induction cs) auto
  then show ?thesis unfolding core_column_def .
qed

definition pass_inv :: "cpu_system \<Rightarrow> nat \<Rightarrow> nat list \<Rightarrow> nat \<Rightarrow> bool" where
  "pass_inv sockets n ids i \<longleftrightarrow> set ids \<subseteq> set (concat (concat sockets)) \<and>
     (n \<le> length (concat (concat sockets)) \<longrightarrow>
        ids = concat (map (core_column sockets) [0..<i]) \<or> length ids = n \<and> ids = take n (core_column sockets 0))"

lemma pass_inv_again:
  "pass_inv sockets n ids i \<Longrightarrow> core_column sockets i = [] \<Longrightarrow> length ids < n \<Longrightarrow> pass_inv sockets n ids 0"
  using columns_all [of sockets i] by (auto simp: pass_inv_def)

lemma pass_inv_add:
  assumes inv: "pass_inv sockets n ids i" and ne: "currentPass sockets n i \<noteq> []"
    and fits: "length ids + length (currentPass sockets n i) \<le> n"
  shows "pass_inv sockets n (ids @ currentPass sockets n i) (i + 1)"
proof -
  let ?cs = "core_column sockets"
  have "set (currentPass sockets n i) \<subseteq> set (concat (concat sockets))"
    using column_subset set_take_subset by (fastforce simp: currentPass_take)
  moreover have "ids @ currentPass sockets n i = concat (map ?cs [0..<i + 1]) \<or>
      length (ids @ currentPass sockets n i) = n \<and> ids @ currentPass sockets n i = take n (?cs 0)"
    if le: "n \<le> length (concat (concat sockets))"
  proof -
    have ids: "ids = concat (map ?cs [0..<i])" using inv le ne fits by (auto simp: pass_inv_def)
    show ?thesis
    proof (cases "length (?cs i) \<le> n")
      case True
      then show ?thesis using ids by (simp add: currentPass_take)
    next
      case False
      then have full: "ids = []" "length (currentPass sockets n i) = n" using fits by (simp_all add: currentPass_take)
      have "i = 0"
      proof (rule ccontr)
        assume "i \<noteq> 0"
        then have "?cs 0 = []" using ids full(1) by auto
        then have "?cs i = []" unfolding column_empty_iff by fastforce
        then show False using ne by (simp add: currentPass_take)
      qed
      then show ?thesis using full by (simp add: currentPass_take)
    qed
  qed
  ultimately show ?thesis using inv by (simp add: pass_inv_def)
qed

text \<open>Pinned processors are different as long as the host has enough.\<close>

lemma pass_inv_distinct:
  assumes "pass_inv sockets n ids i" "n \<le> length (concat (concat sockets))" "distinct (concat (concat sockets))"
  shows "distinct ids"
proof -
  have cols: "distinct (concat (map (core_column sockets) [0..<k]))" for k
  proof -
    have "count (mset (concat (map (core_column sockets) [0..<k]))) x \<le> 1" for x
      using mset_subset_eq_count [OF columns_subset] assms(3) by (metis distinct_count_atmost_1 order_trans le_numeral_extra(4) zero_le)
    then show ?thesis unfolding distinct_count_atmost_1 by (metis count_mset_0_iff le_numeral_extra(3) le_less less_one)
  qed
  from cols [of 1] have "distinct (core_column sockets 0)" by simp
  then have "distinct (take n (core_column sockets 0))" by simp
  then show ?thesis using assms(1,2) cols unfolding pass_inv_def by metis
qed

text \<open>
  For a host with a processor the loop ends with exactly the number of entries asked for, each a
  processor of the host or the mark for no affinity; up to one thread per core goes to different cores in
  their order, and as long as there are enough processors none is given twice.
\<close>

lemma preferred_ids_exact:
  assumes "concat (concat sockets) \<noteq> []"
  shows "\<exists>ids. getPreferredCpuIDs sockets n = Some ids \<and> length ids = n \<and>
    set ids \<subseteq> insert kNoAffinity (set (concat (concat sockets))) \<and>
    (n \<le> length (filter (\<lambda>core. core \<noteq> []) (concat sockets)) \<longrightarrow>
       ids = take n (map hd (filter (\<lambda>core. core \<noteq> []) (concat sockets)))) \<and>
    (distinct (concat (concat sockets)) \<and> n \<le> length (concat (concat sockets)) \<longrightarrow>
       distinct (filter (\<lambda>i. i \<noteq> kNoAffinity) ids))"
proof -
  have ne: "core_column sockets 0 \<noteq> []" using assms by (fastforce simp: column_empty_iff)
  have "pass_inv sockets n [] 0" by (simp add: pass_inv_def)
  then have "\<exists>ids i k. preferredLoop sockets n [] 0 = Some (ids @ replicate k kNoAffinity) \<and> pass_inv sockets n ids i \<and>
      length ids + k = n \<and> (k = 0 \<or> k < length (currentPass sockets n i))"
    by (intro preferredLoop_result ne) (auto intro: pass_inv_again pass_inv_add [unfolded Suc_eq_plus1 [symmetric]])
  then obtain ids i k where r: "getPreferredCpuIDs sockets n = Some (ids @ replicate k kNoAffinity)"
      "pass_inv sockets n ids i" "length ids + k = n"
    by (auto simp: getPreferredCpuIDs_def)
  have "set ids \<subseteq> set (concat (concat sockets))" using r(2) by (simp add: pass_inv_def)
  moreover have "ids @ replicate k kNoAffinity = take n (core_column sockets 0)" if "n \<le> length (core_column sockets 0)"
  proof -
    have "preferredLoop sockets n [] 0 = Some (take n (core_column sockets 0))"
      using that by (subst preferredLoop_step) (auto simp: currentPass_take Let_def)
    then show ?thesis using r(1) by (simp add: getPreferredCpuIDs_def)
  qed
  moreover have "distinct (filter (\<lambda>i. i \<noteq> kNoAffinity) (ids @ replicate k kNoAffinity))"
    if "distinct (concat (concat sockets))" "n \<le> length (concat (concat sockets))"
    using pass_inv_distinct [OF r(2) that(2,1)] by simp
  ultimately show ?thesis using r(1,3) by (auto simp: core_column_0)
qed

text \<open>Without a processor the loop ends only when nothing is asked for.\<close>

lemma preferred_cpus_endless:
  assumes "concat (concat sockets) = []" "0 < n"
  shows "getPreferredCpuIDs sockets n = None"
proof (cases "getPreferredCpuIDs sockets n")
  case (Some ids)
  have "core_column sockets 0 = []" using assms(1) by (fastforce simp: column_empty_iff)
  then show ?thesis using preferredLoop_diverges [of sockets n "[]" 0 ids] Some assms(2)
    by (simp add: getPreferredCpuIDs_def)
qed

lemma preferred_cpus_none: "getPreferredCpuIDs sockets 0 = Some []"
  unfolding getPreferredCpuIDs_def by (subst preferredLoop_step) (simp add: currentPass_def)

text \<open>
  The processors for any number of threads are found, one entry for each thread, exactly when no
  thread is asked for or the host has a processor; without one the loop does not end.
\<close>

theorem preferred_cpus_ends:
  "(\<exists>ids. getPreferredCpuIDs sockets n = Some ids \<and> length ids = n) \<longleftrightarrow> n = 0 \<or> 0 < length (concat (concat sockets))"
  using preferred_ids_exact [of sockets n] preferred_cpus_endless [of sockets n] preferred_cpus_none [of sockets]
  by (metis gr0I length_greater_0_conv list.size(3) option.distinct(1))

text \<open>
  Three threads on two processors: the third stays unpinned, where the declaration says that identifiers
  are repeated.
\<close>

lemma preferred_cpus_not_repeated: "getPreferredCpuIDs [[[0], [1]]] 3 = Some [0, 1, kNoAffinity]"
proof -
  have "preferredLoop [[[0], [1]]] 3 [0, 1] 0 = Some [0, 1, kNoAffinity]"
    by (subst preferredLoop_step) (simp add: currentPass_def)
  then have "preferredLoop [[[0], [1]]] 3 [0, 1] 1 = Some [0, 1, kNoAffinity]"
    by (subst preferredLoop_step) (simp add: currentPass_def)
  then show ?thesis unfolding getPreferredCpuIDs_def
    by (subst preferredLoop_step) (simp add: currentPass_def)
qed

section \<open>Lists of processors, printed and read\<close>

definition print_range :: "nat \<times> nat \<Rightarrow> string" where
  "print_range r = (if fst r = snd r then natDigits (fst r) else natDigits (fst r) @ ''-'' @ natDigits (snd r))"

definition print_cpu_list :: "(nat \<times> nat) list \<Rightarrow> string" where
  "print_cpu_list rs = join '','' (map print_range rs) @ [CHR 0x0A]"

lemma minus_not_digit: "CHR ''-'' \<notin> set (natDigits n)"
  by (rule natDigits_no) (simp add: is_digit_def less_eq_char_def)

lemma cpuRanges_print:
  assumes "list_all (\<lambda>(a, b). a \<le> b \<and> b < 2 ^ 64 - 1) rs"
  shows "cpuRanges (map print_range rs) ids = Some (Inr (ids @ concat (map (\<lambda>(a, b). [a..<Suc b]) rs)))"
  using assms
proof (induction rs arbitrary: ids)
  case (Cons r rs)
  obtain a b where r: "r = (a, b)" by (cases r)
  have ab: "getAsUnsigned 64 (natDigits a) = Some a" "getAsUnsigned 64 (natDigits b) = Some b"
    using Cons.prems r by (simp_all add: getAsUnsigned_natDigits)
  have "split_at CHR ''-'' (natDigits a @ CHR ''-'' # natDigits b) = (natDigits a, natDigits b)"
    using minus_not_digit [of a] by (simp add: split_at_def takeWhile_eq_all_conv dropWhile_eq_Nil_conv takeWhile_append dropWhile_append)
  then show ?case
    using Cons r ab minus_not_digit [of a] by (auto simp: print_range_def cpuRange_def)
qed simp

lemma print_range_chars: "set (print_range r) \<subseteq> insert CHR ''-'' (Collect is_digit)" "print_range r \<noteq> []"
  using natDigits_digits by (auto simp: print_range_def list_all_iff)

lemma print_range_no: "\<not> is_digit c \<Longrightarrow> c \<noteq> CHR ''-'' \<Longrightarrow> c \<notin> set (print_range r)"
  using print_range_chars(1) by blast

lemma split_nonempty_single: "c \<notin> set l \<Longrightarrow> l \<noteq> [] \<Longrightarrow> split_nonempty c l = [l]"
proof -
  have "c \<notin> set l \<Longrightarrow> cur @ l \<noteq> [] \<Longrightarrow> split_nonempty_acc c cur l = [cur @ l]" for cur
    by (induction l arbitrary: cur) auto
  then show "c \<notin> set l \<Longrightarrow> l \<noteq> [] \<Longrightarrow> split_nonempty c l = [l]" by (simp add: split_nonempty_def)
qed

lemma split_nonempty_join:
  "list_all (\<lambda>l. c \<notin> set l \<and> l \<noteq> []) ls \<Longrightarrow> split_nonempty c (join [c] ls) = ls"
proof (induction ls)
  case (Cons l ls)
  then show ?case
    by (cases "ls = []") (auto simp: join_Cons split_nonempty_line split_nonempty_single)
qed (simp add: split_nonempty_def)

lemma set_join: "set (join sep ls) \<subseteq> set sep \<union> (\<Union>l \<in> set ls. set l)"
  by (induction sep ls rule: join.induct) auto

text \<open>
  A list of ranges of processors, as the kernel prints it, is read as the numbers of the ranges in
  their order.
\<close>

theorem cpu_list_roundtrip:
  assumes "list_all (\<lambda>(a, b). a \<le> b \<and> b < 2 ^ 64 - 1) rs"
  shows "parseCpuList (print_cpu_list rs) = Some (Inr (concat (map (\<lambda>(a, b). [a..<Suc b]) rs)))"
proof -
  let ?t = "join '','' (map print_range rs)"
  have "\<not> is_space c" if "c \<in> set ?t" for c
  proof -
    have "c = CHR '','' \<or> c = CHR ''-'' \<or> is_digit c"
      using that set_join [of "'',''" "map print_range rs"] print_range_chars(1) by fastforce
    then show ?thesis by (auto simp: is_space_def is_newline_def dest: digit_not_space)
  qed
  then have "trim ?t = ?t" by (intro trim_no_space) (simp add: list_all_iff)
  then have "trim (print_cpu_list rs) = ?t"
    using trim_pad_back [of is_space "[CHR 0x0A]" ?t] by (simp add: print_cpu_list_def is_space_def is_newline_def)
  moreover have "split_nonempty CHR '','' ?t = map print_range rs"
    using print_range_no [of "CHR '',''"] print_range_chars(2)
    by (intro split_nonempty_join) (auto simp: list_all_iff is_digit_def less_eq_char_def)
  ultimately show ?thesis using cpuRanges_print [OF assms, of "[]"] by (simp add: parseCpuList_def)
qed

theorem cpu_list_roundtrip_witness:
  "parseCpuList (print_cpu_list [(0, 3), (5, 5), (8, 9)]) = Some (Inr [0, 1, 2, 3, 5, 8, 9])"
  using cpu_list_roundtrip [of "[(0, 3), (5, 5), (8, 9)]"] by (simp add: upt_conv_Cons)

text \<open>A range up to the largest number never ends.\<close>

lemma cpu_list_endless: "parseCpuList ''0-18446744073709551615'' = None"
  by (simp add: parseCpuList_def split_nonempty_def trim_by_def is_space_def is_newline_def split_at_def
      getAsUnsigned_def parseDigits_def is_digit_def digit_value_def less_eq_char_def cpuRange_def)

end
