(* ===== verification/Cpu_Cache.thy ===== *)
theory Cpu_Cache
  imports Cpu_Topology
begin

text \<open>
  The size of a processor cache (\<^verbatim>\<open>Support/lib/CPUCache.cpp\<close>), read from the files of Linux or from the
  table of Windows.  Both hosts are parameters.
\<close>

section \<open>Linux\<close>

text \<open>
  The cache directory: opening it and opening its numbered parts may fail, because there is none or for
  another reason; a part gives the contents of its files or the reason why they cannot be read.
\<close>

datatype 'a opened = Opened 'a | NoEntry | OpenFailed string

datatype small_file = OpenError string | ReadError string | Contents string

type_synonym cache_index = "string \<Rightarrow> small_file"

definition readSmallFileFromDirFD :: "cache_index \<Rightarrow> string \<Rightarrow> string \<Rightarrow> nat \<Rightarrow> string error_or" where
  "readSmallFileFromDirFD dir relPath fileDescription bufferSize =
     (case dir relPath of
        OpenError e \<Rightarrow> Inl (''Could not open '' @ fileDescription @ '': '' @ e)
      | ReadError e \<Rightarrow> Inl (''Could not read '' @ fileDescription @ '': '' @ e)
      | Contents contents \<Rightarrow>
          if length (take bufferSize contents) = bufferSize then
            Inl (''File for '' @ fileDescription @ '' too large to read into fixed-size buffer'')
          else Inr (take bufferSize contents))"

definition consume_back :: "string \<Rightarrow> string \<Rightarrow> string option" where
  "consume_back suf s = (if ends_with suf s then Some (take (length s - length suf) s) else None)"

text \<open>One numbered part: the answer, or nothing to go on with the next.\<close>

definition cacheIndex :: "nat \<Rightarrow> nat \<Rightarrow> cache_index \<Rightarrow> nat error_or option" where
  "cacheIndex cacheLevel index dir =
     (let what = ''cache index '' @ natDigits index in
      case readSmallFileFromDirFD dir ''level'' (what @ '' level'') 32 of
        Inl e \<Rightarrow> Some (Inl e)
      | Inr levelBuf \<Rightarrow>
          (case readSmallFileFromDirFD dir ''type'' (what @ '' type'') 32 of
             Inl e \<Rightarrow> Some (Inl e)
           | Inr typeBuf \<Rightarrow>
               (case readSmallFileFromDirFD dir ''size'' (what @ '' size'') 32 of
                  Inl e \<Rightarrow> None
                | Inr sizeBuf \<Rightarrow>
                    (case getAsUnsigned 64 (trim levelBuf) of
                       None \<Rightarrow> Some (Inl (''Could not parse '' @ what @ '' level''))
                     | Some level \<Rightarrow>
                         if level \<noteq> cacheLevel then None
                         else if trim typeBuf \<noteq> ''Data'' \<and> trim typeBuf \<noteq> ''Unified'' then None
                         else
                           (case consume_back ''K'' (trim sizeBuf) of
                              None \<Rightarrow> Some (Inl (''Cache size at index '' @ natDigits index @ '' is not specified in K''))
                            | Some sizeStr \<Rightarrow>
                                (case getAsUnsigned 64 sizeStr of
                                   None \<Rightarrow> Some (Inl (''Could not parse '' @ what @ '' size''))
                                 | Some sizeInK \<Rightarrow> Some (Inr ((sizeInK * 1024) mod 2 ^ 64))))))))"

text \<open>The parts are a list; past its end there is no entry.\<close>

fun cacheLoop :: "nat \<Rightarrow> nat \<Rightarrow> cache_index opened list \<Rightarrow> nat error_or" where
  "cacheLoop cacheLevel index [] = Inr 0"
| "cacheLoop cacheLevel index (d # ds) =
     (case d of
        NoEntry \<Rightarrow> Inr 0
      | OpenFailed e \<Rightarrow> Inl (''Could not open cache index directory at index '' @ natDigits index @ '': '' @ e)
      | Opened dir \<Rightarrow>
          (case cacheIndex cacheLevel index dir of
             Some r \<Rightarrow> r
           | None \<Rightarrow> cacheLoop cacheLevel (index + 1) ds))"

definition linuxCacheSize :: "cache_index opened list opened \<Rightarrow> nat \<Rightarrow> nat error_or" where
  "linuxCacheSize cacheDir cacheLevel =
     (case cacheDir of
        NoEntry \<Rightarrow> Inr 0
      | OpenFailed e \<Rightarrow> Inl (''Could not open CPU0 cache directory: '' @ e)
      | Opened indices \<Rightarrow> cacheLoop cacheLevel 0 indices)"

section \<open>Windows\<close>

datatype cache_type = CacheUnified | CacheInstruction | CacheData | CacheTrace

record cache_descriptor =
  Level :: nat
  Size :: nat
  Type :: cache_type

text \<open>An entry of the table: a cache, or some other relation.\<close>

type_synonym processor_info = "cache_descriptor option"

datatype win_error = InsufficientBuffer | OtherError string

definition win_message :: "win_error \<Rightarrow> string" where
  "win_message e = (case e of InsufficientBuffer \<Rightarrow> ''The data area passed to a system call is too small.'' | OtherError m \<Rightarrow> m)"

text \<open>
  The system call: for a buffer of a number of bytes, the error and the length needed, or the entries.
  An entry has 32 bytes.
\<close>

type_synonym processor_query = "nat \<Rightarrow> (win_error \<times> nat) + processor_info list"

fun findCache :: "nat \<Rightarrow> processor_info list \<Rightarrow> nat" where
  "findCache cacheLevel [] = 0"
| "findCache cacheLevel (i # is) =
     (case i of
        Some cache \<Rightarrow>
          if Level cache = cacheLevel \<and> (Type cache = CacheData \<or> Type cache = CacheUnified) then Size cache
          else findCache cacheLevel is
      | None \<Rightarrow> findCache cacheLevel is)"

definition divideCeil :: "nat \<Rightarrow> nat \<Rightarrow> nat" where
  "divideCeil n d = (n + d - 1) div d"

text \<open>The call fills the front of the resized table; a zeroed entry is no cache.\<close>

definition overwrite :: "'a list \<Rightarrow> 'a list \<Rightarrow> 'a list" where
  "overwrite table infos = infos @ drop (length infos) table"

definition windowsCacheSize :: "processor_query \<Rightarrow> nat \<Rightarrow> nat error_or" where
  "windowsCacheSize query cacheLevel =
     (if 4 \<le> cacheLevel then Inr 0
      else
        (case query 0 of
           Inr _ \<Rightarrow> Inr (findCache cacheLevel [])
         | Inl (e, bufferLength) \<Rightarrow>
             if e \<noteq> InsufficientBuffer then Inl (win_message e)
             else
               (case query bufferLength of
                  Inl (e, _) \<Rightarrow> Inl (win_message e)
                | Inr infos \<Rightarrow> Inr (findCache cacheLevel (overwrite (replicate (divideCeil bufferLength 32) None) infos)))))"

section \<open>Both arms find the same cache\<close>

text \<open>The cache that counts: the first of the level that holds data.\<close>

definition holds_data :: "nat \<Rightarrow> cache_descriptor \<Rightarrow> bool" where
  "holds_data n c \<longleftrightarrow> Level c = n \<and> (Type c = CacheData \<or> Type c = CacheUnified)"

definition cache_size_spec :: "nat \<Rightarrow> cache_descriptor list \<Rightarrow> nat" where
  "cache_size_spec n cs = (case find (holds_data n) cs of Some c \<Rightarrow> Size c | None \<Rightarrow> 0)"

text \<open>How the two systems present a list of caches.\<close>

definition type_name :: "cache_type \<Rightarrow> string" where
  "type_name t = (case t of CacheUnified \<Rightarrow> ''Unified'' | CacheInstruction \<Rightarrow> ''Instruction'' | CacheData \<Rightarrow> ''Data''
     | CacheTrace \<Rightarrow> ''Trace'')"

definition linux_index :: "cache_descriptor \<Rightarrow> cache_index" where
  "linux_index c file =
     (if file = ''level'' then Contents (natDigits (Level c) @ [CHR 0x0A])
      else if file = ''type'' then Contents (type_name (Type c) @ [CHR 0x0A])
      else if file = ''size'' then Contents (natDigits (Size c div 1024) @ ''K'' @ [CHR 0x0A])
      else OpenError ''No such file or directory'')"

definition windows_query :: "processor_info list \<Rightarrow> processor_query" where
  "windows_query infos len = (if len < 32 * length infos then Inl (InsufficientBuffer, 32 * length infos) else Inr infos)"

text \<open>Levels, and sizes in whole kilobytes, in the range of 64 bits.\<close>

definition wf_cache :: "cache_descriptor \<Rightarrow> bool" where
  "wf_cache c \<longleftrightarrow> Level c < 2 ^ 64 \<and> Size c < 2 ^ 64 \<and> 1024 dvd Size c"

lemma natDigits_length: "0 < k \<Longrightarrow> n < 10 ^ k \<Longrightarrow> length (natDigits n) \<le> k"
proof (induction k arbitrary: n)
  case (Suc k)
  show ?case
  proof (cases "n < 10")
    case True
    then show ?thesis by (simp add: natDigits.simps [of n])
  next
    case False
    then have "0 < k" using Suc.prems(2) by (cases k) auto
    moreover have "n div 10 < 10 ^ k" using Suc.prems(2) by (simp add: less_mult_imp_div_less mult.commute)
    ultimately show ?thesis using Suc.IH [of "n div 10"] False by (simp add: natDigits.simps [of n])
  qed
qed simp

lemma natDigits_length_64: "n < 2 ^ 64 \<Longrightarrow> length (natDigits n) \<le> 20"
  by (rule natDigits_length) simp_all

lemma trim_line: "list_all (\<lambda>c. \<not> is_space c) s \<Longrightarrow> trim (s @ [CHR 0x0A]) = s"
  using trim_pad_back [of is_space "[CHR 0x0A]" s] trim_no_space [of is_space s] by (simp add: is_space_def is_newline_def)

lemma natDigits_no_space: "list_all (\<lambda>c. \<not> is_space c) (natDigits n)"
  using natDigits_digits [of n] by (auto simp: list_all_iff dest: digit_not_space)

lemma readSmallFile_contents:
  "dir f = Contents s \<Longrightarrow> length s < 32 \<Longrightarrow> readSmallFileFromDirFD dir f d 32 = Inr s"
  by (simp add: readSmallFileFromDirFD_def)

lemma cacheIndex_linux:
  assumes "wf_cache c"
  shows "cacheIndex n i (linux_index c) = (if holds_data n c then Some (Inr (Size c)) else None)"
proof -
  let ?k = "Size c div 1024"
  have k: "?k < 2 ^ 64" "?k * 1024 = Size c" "Size c < 2 ^ 64" using assms by (auto simp: wf_cache_def)
  have level: "readSmallFileFromDirFD (linux_index c) ''level'' d 32 = Inr (natDigits (Level c) @ [CHR 0x0A])" for d
    using natDigits_length_64 [of "Level c"] assms
    by (intro readSmallFile_contents) (auto simp: linux_index_def wf_cache_def)
  have type: "readSmallFileFromDirFD (linux_index c) ''type'' d 32 = Inr (type_name (Type c) @ [CHR 0x0A])" for d
    by (intro readSmallFile_contents) (auto simp: linux_index_def type_name_def split: cache_type.splits)
  have size: "readSmallFileFromDirFD (linux_index c) ''size'' d 32 = Inr (natDigits ?k @ ''K'' @ [CHR 0x0A])" for d
    using natDigits_length_64 [OF k(1)] by (intro readSmallFile_contents) (auto simp: linux_index_def)
  have tr: "trim (natDigits m @ [CHR 0x0A]) = natDigits m" for m by (rule trim_line [OF natDigits_no_space])
  have ty: "trim (type_name (Type c) @ [CHR 0x0A]) = type_name (Type c)"
    by (rule trim_line) (auto simp: type_name_def is_space_def is_newline_def split: cache_type.splits)
  have "trim ((natDigits ?k @ ''K'') @ [CHR 0x0A]) = natDigits ?k @ ''K''"
    by (rule trim_line) (simp add: natDigits_no_space, simp add: is_space_def is_newline_def)
  then have sz: "trim (natDigits ?k @ ''K'' @ [CHR 0x0A]) = natDigits ?k @ ''K''" by simp
  have cb: "consume_back ''K'' (natDigits ?k @ ''K'') = Some (natDigits ?k)"
    by (simp add: consume_back_def ends_with_iff)
  have lv: "getAsUnsigned 64 (natDigits (Level c)) = Some (Level c)" "getAsUnsigned 64 (natDigits ?k) = Some ?k"
    using assms k(1) by (auto simp: wf_cache_def intro: getAsUnsigned_natDigits)
  have names: "type_name (Type c) \<noteq> ''Data'' \<and> type_name (Type c) \<noteq> ''Unified'' \<longleftrightarrow> \<not> (Type c = CacheData \<or> Type c = CacheUnified)"
    by (cases "Type c") (simp_all add: type_name_def)
  show ?thesis
    unfolding cacheIndex_def Let_def level type size
    using k(2,3) by (simp only: sum.case option.case tr ty sz cb lv names) (simp add: holds_data_def)
qed

lemma cacheLoop_linux:
  "list_all wf_cache cs \<Longrightarrow> cacheLoop n i (map (\<lambda>c. Opened (linux_index c)) cs) = Inr (cache_size_spec n cs)"
  by (induction cs arbitrary: i) (auto simp: cacheIndex_linux cache_size_spec_def)

lemma findCache_spec: "findCache n (map Some cs @ replicate m None) = cache_size_spec n cs"
proof -
  have "findCache n (replicate m None) = 0" by (induction m) auto
  then show ?thesis by (induction cs) (auto simp: cache_size_spec_def holds_data_def)
qed



end
