(* ===== verification/Cpu_Limits.thy ===== *)
theory Cpu_Limits
  imports Cpu_Topology
begin

text \<open>
  The share of the processors that the control groups of Linux leave a process
  (\<^verbatim>\<open>Support/lib/Threading/HWInfo.cpp\<close>): where the limits are found in either version of the control
  groups, how they are read, and the number of thousandths of a core they amount to.  The files are a
  parameter.
\<close>

section \<open>Splitting\<close>

text \<open>\<^verbatim>\<open>split(values, c)\<close> keeps empty parts; \<^verbatim>\<open>split(values, c, n, false)\<close> splits at most \<open>n\<close> times.\<close>

fun split_keep_acc :: "char \<Rightarrow> string \<Rightarrow> string \<Rightarrow> string list" where
  "split_keep_acc c cur [] = [cur]"
| "split_keep_acc c cur (x # xs) = (if x = c then cur # split_keep_acc c [] xs else split_keep_acc c (cur @ [x]) xs)"

definition split_keep :: "char \<Rightarrow> string \<Rightarrow> string list" where
  "split_keep c s = split_keep_acc c [] s"

fun split_max :: "nat \<Rightarrow> char \<Rightarrow> string \<Rightarrow> string list" where
  "split_max 0 c s = (if s = [] then [] else [s])"
| "split_max (Suc n) c s =
     (if c \<in> set s then
        (if fst (split_at c s) = [] then [] else [fst (split_at c s)]) @ split_max n c (snd (split_at c s))
      else if s = [] then [] else [s])"

section \<open>Version 1\<close>

text \<open>The group of the cpu controller; a line without two colons is accessed out of its parts.\<close>

fun v1Group :: "string list \<Rightarrow> string option" where
  "v1Group [] = Some []"
| "v1Group (l # ls) =
     (let frags = split_keep CHR '':'' l in
      if length frags < 3 then None
      else if trim (frags ! 1) = ''cpu,cpuacct'' then Some (trim (frags ! 2))
      else v1Group ls)"

definition parseV1CPUCgroupFile :: "string \<Rightarrow> string error_or option" where
  "parseV1CPUCgroupFile buf =
     map_option (\<lambda>cgroup. if cgroup = [] then Inl ''could not parse v1 CPU cgroup'' else Inr cgroup)
       (v1Group (split_nonempty CHR 0x0A buf))"

record linuxCPULimits =
  quota_us :: int
  period_us :: int

definition noLimits :: linuxCPULimits where
  "noLimits = \<lparr>quota_us = -1, period_us = 100000\<rparr>"

definition parseV1CPULimits :: "string \<Rightarrow> string \<Rightarrow> linuxCPULimits error_or" where
  "parseV1CPULimits quotaBuf periodBuf =
     (case getAsSigned 32 (trim quotaBuf) of
        None \<Rightarrow> Inl ''can't parse CPU quota as an int''
      | Some q \<Rightarrow>
          (case getAsSigned 32 (trim periodBuf) of
             None \<Rightarrow> Inl ''can't parse CPU period as an int''
           | Some p \<Rightarrow> Inr \<lparr>quota_us = q, period_us = p\<rparr>))"

section \<open>Version 2\<close>

fun v2Group :: "string list \<Rightarrow> string" where
  "v2Group [] = []"
| "v2Group (l # ls) = (case consume_front ''0::'' l of Some r \<Rightarrow> r | None \<Rightarrow> v2Group ls)"

definition maxFile :: "string \<Rightarrow> string" where
  "maxFile cgroup = ''/sys/fs/cgroup/'' @ cgroup @ ''/cpu.max''"

definition parentGroup :: "string \<Rightarrow> string" where
  "parentGroup s = rev (drop 1 (dropWhile (\<lambda>c. c \<noteq> CHR ''/'') (rev s)))"

text \<open>
  The levels from the group upwards, as many as it has slashes and one more.  The test whether a file exists
  is a call that may throw, which is the answer \<^const>\<open>None\<close> and leaves every function around it.
\<close>

type_synonym exists_call = "string \<Rightarrow> bool option"

fun v2Levels :: "exists_call \<Rightarrow> nat \<Rightarrow> string \<Rightarrow> string error_or option" where
  "v2Levels exists 0 cur = Some (Inr cur)"
| "v2Levels exists (Suc n) cur =
     Option.bind (exists (maxFile cur)) (\<lambda>found.
       if found then Some (Inr cur)
       else if CHR ''/'' \<in> set cur then v2Levels exists n (parentGroup cur)
       else Some (Inl ''could not resolve CPU max file''))"

definition parseV2CPUCgroupFile :: "string \<Rightarrow> exists_call \<Rightarrow> string error_or option" where
  "parseV2CPUCgroupFile buf exists =
     (let cgroup = v2Group (split_nonempty CHR 0x0A buf) in
      if cgroup = [] then Some (Inl ''could not parse v2 CPU cgroup'')
      else v2Levels exists (Suc (length (filter (\<lambda>c. c = CHR ''/'') (trim cgroup)))) (trim cgroup))"

definition parseV2CPULimits :: "string \<Rightarrow> linuxCPULimits error_or" where
  "parseV2CPULimits maxBuf =
     (let strs = split_max 2 CHR '' '' maxBuf in
      if strs = [] then Inl ''can't parse empty CPU max and period''
      else
        (case (if strs ! 0 = ''max'' then Some (quota_us noLimits) else getAsSigned 32 (trim (strs ! 0))) of
           None \<Rightarrow> Inl ''can't parse CPU max as an int''
         | Some q \<Rightarrow>
             (case (if length strs = 2 then getAsSigned 32 (trim (strs ! 1)) else Some (period_us noLimits)) of
                None \<Rightarrow> Inl ''can't parse CPU period as an int''
              | Some p \<Rightarrow> Inr \<lparr>quota_us = q, period_us = p\<rparr>)))"

section \<open>The limits of the process\<close>

text \<open>
  What is read of the two versions: no limits where a file is missing or wrong, nothing where the reader
  of the first version is undefined or the test of the second one throws.
\<close>

definition isV1 :: "(string \<Rightarrow> string option) \<Rightarrow> bool" where
  "isV1 fileBuffer =
     (case fileBuffer ''/sys/fs/cgroup/cgroup.controllers'' of
        None \<Rightarrow> True
      | Some buf \<Rightarrow> ''cpu'' \<notin> set (split_max 2 CHR '' '' buf))"

definition limitsV1 :: "(string \<Rightarrow> string option) \<Rightarrow> string \<Rightarrow> linuxCPULimits error_or option" where
  "limitsV1 fileBuffer cgroupBuf =
     map_option
       (\<lambda>r. bind_err r (\<lambda>cgroup.
          case (fileBuffer (''/sys/fs/cgroup/cpu/'' @ cgroup @ ''/cpu.cfs_quota_us''),
                fileBuffer (''/sys/fs/cgroup/cpu/'' @ cgroup @ ''/cpu.cfs_period_us'')) of
            (Some quotaBuf, Some periodBuf) \<Rightarrow> parseV1CPULimits quotaBuf periodBuf
          | _ \<Rightarrow> Inl ''Could not open''))
       (parseV1CPUCgroupFile cgroupBuf)"

definition limitsV2 :: "(string \<Rightarrow> string option) \<Rightarrow> exists_call \<Rightarrow> string \<Rightarrow> linuxCPULimits error_or option" where
  "limitsV2 fileBuffer exists cgroupBuf =
     map_option
       (\<lambda>r. bind_err r (\<lambda>cgroup.
          case fileBuffer (maxFile cgroup) of
            Some maxBuf \<Rightarrow> parseV2CPULimits maxBuf
          | None \<Rightarrow> Inl ''Could not open''))
       (parseV2CPUCgroupFile cgroupBuf exists)"

definition getLinuxCPULimits :: "(string \<Rightarrow> string option) \<Rightarrow> exists_call \<Rightarrow> linuxCPULimits option" where
  "getLinuxCPULimits fileBuffer exists =
     (case fileBuffer ''/proc/self/cgroup'' of
        None \<Rightarrow> Some noLimits
      | Some cgroupBuf \<Rightarrow>
          map_option
            (\<lambda>r. case r of
               Inl _ \<Rightarrow> noLimits
             | Inr limits \<Rightarrow>
                 if quota_us limits \<noteq> -1 \<and> quota_us limits < 1000 then noLimits
                 else if period_us limits < 1000 \<or> period_us limits > 1000000 then noLimits
                 else limits)
            (if isV1 fileBuffer then limitsV1 fileBuffer cgroupBuf
             else limitsV2 fileBuffer exists cgroupBuf))"

definition toMillicores :: "linuxCPULimits \<Rightarrow> nat option" where
  "toMillicores limits =
     (if 0 \<le> quota_us limits \<and> 0 < period_us limits then
        Some ((1000 * nat (quota_us limits)) mod 2 ^ 64 div nat (period_us limits))
      else None)"

definition CPULimits_get :: "(string \<Rightarrow> string option) \<Rightarrow> exists_call \<Rightarrow> nat option option" where
  "CPULimits_get fileBuffer exists = map_option toMillicores (getLinuxCPULimits fileBuffer exists)"

section \<open>The group whose limits count\<close>

text \<open>A group and the groups it is in: what stands before one of its slashes.\<close>

definition is_ancestor :: "string \<Rightarrow> string \<Rightarrow> bool" where
  "is_ancestor p s \<longleftrightarrow> p = s \<or> (\<exists>r. s = p @ CHR ''/'' # r)"

lemma parentGroup_split:
  assumes "CHR ''/'' \<in> set s"
  shows "\<exists>r. s = parentGroup s @ CHR ''/'' # r \<and> CHR ''/'' \<notin> set r"
proof -
  obtain p r where s: "s = p @ CHR ''/'' # r" "CHR ''/'' \<notin> set r" using split_list_last [OF assms] by blast
  have "dropWhile (\<lambda>c. c \<noteq> CHR ''/'') (rev r @ CHR ''/'' # rev p) = CHR ''/'' # rev p"
    using s(2) by (subst dropWhile_append2) auto
  then have "parentGroup s = p" by (simp add: parentGroup_def s(1))
  then show ?thesis using s by blast
qed

text \<open>The groups around a group are its parent and the groups around that.\<close>

lemma is_ancestor_parent:
  assumes "CHR ''/'' \<in> set s"
  shows "is_ancestor p s \<longleftrightarrow> p = s \<or> is_ancestor p (parentGroup s)"
proof -
  obtain r where s: "s = parentGroup s @ CHR ''/'' # r" "CHR ''/'' \<notin> set r" using parentGroup_split [OF assms] by blast
  have "(\<exists>q. s = p @ CHR ''/'' # q) \<longleftrightarrow> is_ancestor p (parentGroup s)"
  proof
    assume "\<exists>q. s = p @ CHR ''/'' # q"
    then obtain q where q: "parentGroup s @ CHR ''/'' # r = p @ CHR ''/'' # q" using s(1) by metis
    then obtain us where "parentGroup s = p @ us \<and> us @ CHR ''/'' # r = CHR ''/'' # q \<or>
        parentGroup s @ us = p \<and> CHR ''/'' # r = us @ CHR ''/'' # q"
      by (auto simp: append_eq_append_conv2)
    then show "is_ancestor p (parentGroup s)"
      using s(2) by (cases us) (auto simp: is_ancestor_def)
  next
    assume "is_ancestor p (parentGroup s)"
    then show "\<exists>q. s = p @ CHR ''/'' # q" using s(1) by (auto simp: is_ancestor_def)
  qed
  then show ?thesis by (auto simp: is_ancestor_def)
qed

lemma is_ancestor_top: "CHR ''/'' \<notin> set s \<Longrightarrow> is_ancestor p s \<longleftrightarrow> p = s"
  by (auto simp: is_ancestor_def)

lemma parentGroup_shorter: "CHR ''/'' \<in> set s \<Longrightarrow> length (parentGroup s) < length s"
  using parentGroup_split [of s] by (metis add_Suc_right length_Cons length_append less_add_Suc1)

lemma parentGroup_count:
  "CHR ''/'' \<in> set s \<Longrightarrow> length (filter (\<lambda>c. c = CHR ''/'') s) = Suc (length (filter (\<lambda>c. c = CHR ''/'') (parentGroup s)))"
proof -
  assume "CHR ''/'' \<in> set s"
  then obtain r where r: "s = parentGroup s @ CHR ''/'' # r" "CHR ''/'' \<notin> set r" using parentGroup_split by blast
  then have "filter (\<lambda>c. c = CHR ''/'') r = []" by (auto simp: filter_empty_conv)
  then show ?thesis by (subst r(1)) simp
qed

definition nearest_group :: "(string \<Rightarrow> bool) \<Rightarrow> string \<Rightarrow> string error_or \<Rightarrow> bool" where
  "nearest_group exists s r \<longleftrightarrow>
     (case r of
        Inl e \<Rightarrow> e = ''could not resolve CPU max file'' \<and> (\<forall>p. is_ancestor p s \<longrightarrow> \<not> exists (maxFile p))
      | Inr g \<Rightarrow> is_ancestor g s \<and> exists (maxFile g) \<and>
          (\<forall>p. is_ancestor p s \<and> length g < length p \<longrightarrow> \<not> exists (maxFile p)))"

lemma is_ancestor_length: "is_ancestor p s \<Longrightarrow> length p \<le> length s"
  by (auto simp: is_ancestor_def)

lemma v2Levels_nearest:
  "n = length (filter (\<lambda>c. c = CHR ''/'') s) \<Longrightarrow>
     \<exists>r. v2Levels (\<lambda>f. Some (exists f)) (Suc n) s = Some r \<and> nearest_group exists s r"
proof (induction n arbitrary: s)
  case 0
  then have "CHR ''/'' \<notin> set s" by (metis (mono_tags) filter_empty_conv length_0_conv)
  then show ?case by (auto simp: nearest_group_def is_ancestor_top)
next
  case (Suc n)
  have sl: "CHR ''/'' \<in> set s"
  proof (rule ccontr)
    assume "CHR ''/'' \<notin> set s"
    then have "filter (\<lambda>c. c = CHR ''/'') s = []" by (auto simp: filter_empty_conv)
    then show False using Suc.prems by simp
  qed
  obtain r where IH: "v2Levels (\<lambda>f. Some (exists f)) (Suc n) (parentGroup s) = Some r" "nearest_group exists (parentGroup s) r"
    using Suc.IH [of "parentGroup s"] Suc.prems parentGroup_count [OF sl] by auto
  show ?case
  proof (cases "exists (maxFile s)")
    case True
    then show ?thesis by (auto simp: nearest_group_def is_ancestor_def)
  next
    case False
    have "v2Levels (\<lambda>f. Some (exists f)) (Suc (Suc n)) s = v2Levels (\<lambda>f. Some (exists f)) (Suc n) (parentGroup s)"
      using False sl by simp
    moreover have "nearest_group exists s r"
      using IH(2) False by (auto simp: nearest_group_def is_ancestor_parent [OF sl] split: sum.splits)
    ultimately show ?thesis using IH(1) by metis
  qed
qed

text \<open>
  Where the test for a file does not throw, the group whose limits are read in version 2 is the nearest one
  around the process that has a file of limits; the error is returned exactly when none has, and the number of levels tried is enough.
\<close>

theorem cgroup_v2_nearest:
  assumes "v2Group (split_nonempty CHR 0x0A buf) \<noteq> []"
  shows "\<exists>r. parseV2CPUCgroupFile buf (\<lambda>f. Some (exists f)) = Some r \<and>
    nearest_group exists (trim (v2Group (split_nonempty CHR 0x0A buf))) r"
  using assms v2Levels_nearest by (simp add: parseV2CPUCgroupFile_def Let_def del: v2Levels.simps)

theorem cgroup_v2_nearest_witness:
  "parseV2CPUCgroupFile ''0::/a/b'' (\<lambda>f. Some (f = maxFile ''/a'')) = Some (Inr ''/a'') \<and>
   nearest_group (\<lambda>f. f = maxFile ''/a'') ''/a/b'' (Inr ''/a'')"
proof -
  have g: "v2Group (split_nonempty CHR 0x0A ''0::/a/b'') = ''/a/b''"
    by (simp add: split_nonempty_def consume_front_def starts_with_def)
  have "parseV2CPUCgroupFile ''0::/a/b'' (\<lambda>f. Some (f = maxFile ''/a'')) = Some (Inr ''/a'')"
    by (simp add: parseV2CPUCgroupFile_def g trim_by_def is_space_def is_newline_def maxFile_def parentGroup_def)
  then show ?thesis using cgroup_v2_nearest [of "''0::/a/b''" "\<lambda>f. f = maxFile ''/a''"]
    by (simp add: g trim_by_def is_space_def is_newline_def)
qed

section \<open>Bounds of the limits\<close>

lemma parseV1CPULimits_bounds:
  "parseV1CPULimits q p = Inr l \<Longrightarrow> quota_us l < 2 ^ 31 \<and> - (2 ^ 31) \<le> quota_us l"
  using getAsSigned_bounds [of 32 "trim q"] by (auto simp: parseV1CPULimits_def split: option.splits)

lemma parseV2CPULimits_bounds:
  "parseV2CPULimits b = Inr l \<Longrightarrow> quota_us l < 2 ^ 31 \<and> - (2 ^ 31) \<le> quota_us l"
  using getAsSigned_bounds [of 32 "trim (split_max 2 CHR '' '' b ! 0)"]
  by (auto simp: parseV2CPULimits_def Let_def noLimits_def split: option.splits if_splits)

lemma limitsV1_bounds: "limitsV1 fs c = Some (Inr l) \<Longrightarrow> quota_us l < 2 ^ 31"
  using parseV1CPULimits_bounds by (fastforce simp: limitsV1_def bind_err_eq_Inr_iff split: option.splits)

lemma limitsV2_bounds: "limitsV2 fs ex c = Some (Inr l) \<Longrightarrow> quota_us l < 2 ^ 31"
  using parseV2CPULimits_bounds by (fastforce simp: limitsV2_def bind_err_eq_Inr_iff split: option.splits)

lemma getLinuxCPULimits_bounds:
  assumes "getLinuxCPULimits fs ex = Some l"
  shows "(quota_us l = -1 \<or> 1000 \<le> quota_us l) \<and> quota_us l < 2 ^ 31 \<and> 1000 \<le> period_us l \<and> period_us l \<le> 1000000"
proof -
  have no: "quota_us noLimits = -1" "period_us noLimits = 100000" by (simp_all add: noLimits_def)
  show ?thesis
  proof (cases "fs ''/proc/self/cgroup''")
    case None
    then show ?thesis using assms no by (simp add: getLinuxCPULimits_def)
  next
    case (Some c)
    let ?r = "if isV1 fs then limitsV1 fs c else limitsV2 fs ex c"
    obtain r where r: "?r = Some r" using assms Some by (auto simp: getLinuxCPULimits_def)
    have l: "l = (case r of Inl _ \<Rightarrow> noLimits | Inr limits \<Rightarrow>
        if quota_us limits \<noteq> -1 \<and> quota_us limits < 1000 then noLimits
        else if period_us limits < 1000 \<or> period_us limits > 1000000 then noLimits else limits)"
      using assms Some r by (simp add: getLinuxCPULimits_def)
    have "quota_us limits < 2 ^ 31" if "r = Inr limits" for limits
      using r that limitsV1_bounds limitsV2_bounds by (cases "isV1 fs") auto
    then show ?thesis using l no by (cases r) (auto split: if_splits)
  qed
qed

lemma toMillicores_exact:
  assumes "getLinuxCPULimits fs ex = Some l"
  shows "CPULimits_get fs ex = Some (toMillicores l) \<and>
    (if quota_us l = -1 then toMillicores l = None
     else \<exists>m. toMillicores l = Some m \<and> int m = 1000 * quota_us l div period_us l \<and> 1 \<le> m \<and> m < 2 ^ 31)"
proof (cases "quota_us l = -1")
  case True
  then show ?thesis using assms by (simp add: CPULimits_get_def toMillicores_def)
next
  case False
  let ?q = "nat (quota_us l)" and ?p = "nat (period_us l)"
  have b: "1000 \<le> quota_us l" "quota_us l < 2 ^ 31" "1000 \<le> period_us l" "period_us l \<le> 1000000"
    using getLinuxCPULimits_bounds [OF assms] False by auto
  then have n: "1000 \<le> ?q" "?q < 2 ^ 31" "1000 \<le> ?p" "?p \<le> 1000000" by auto
  have m: "toMillicores l = Some (1000 * ?q div ?p)" using b n by (simp add: toMillicores_def)
  have "int (1000 * ?q div ?p) = 1000 * quota_us l div period_us l" using b by (simp add: zdiv_int)
  moreover have "1 \<le> 1000 * ?q div ?p" using n by (intro iffD2 [OF less_eq_div_iff_mult_less_eq]) auto
  moreover have "1000 * ?q div ?p < 2 ^ 31"
  proof -
    have "1000 * ?q div ?p \<le> 1000 * ?q div 1000" using n by (intro div_le_mono2) auto
    then show ?thesis using n(2) by simp
  qed
  ultimately show ?thesis using m assms False by (simp add: CPULimits_get_def)
qed

text \<open>
  Where reading the files is defined: every line of the list of groups of version 1 has its three parts
  \<^verbatim>\<open>hierarchy-ID:controller-list:cgroup-path\<close>, and the test for a file does not throw.
\<close>

definition three_parts :: "string \<Rightarrow> bool" where
  "three_parts l \<longleftrightarrow> 3 \<le> length (split_keep CHR '':'' l)"

lemma v1Group_defined: "list_all three_parts ls \<Longrightarrow> v1Group ls \<noteq> None"
  by (induction ls) (auto simp: three_parts_def Let_def)

lemma v2Levels_defined: "\<forall>f. exists f \<noteq> None \<Longrightarrow> v2Levels exists n s \<noteq> None"
proof (induction n arbitrary: s)
  case (Suc n)
  obtain found where "exists (maxFile s) = Some found" using Suc.prems by blast
  then show ?case using Suc.IH [OF Suc.prems] by simp
qed simp

lemma getLinuxCPULimits_defined:
  assumes "\<forall>buf. fs ''/proc/self/cgroup'' = Some buf \<longrightarrow> list_all three_parts (split_nonempty CHR 0x0A buf)"
    and "\<forall>f. ex f \<noteq> None"
  shows "\<exists>l. getLinuxCPULimits fs ex = Some l"
proof (cases "fs ''/proc/self/cgroup''")
  case (Some buf)
  then have "parseV1CPUCgroupFile buf \<noteq> None" using v1Group_defined assms(1) by (simp add: parseV1CPUCgroupFile_def)
  moreover have "parseV2CPUCgroupFile buf ex \<noteq> None"
    using v2Levels_defined [OF assms(2)] by (simp add: parseV2CPUCgroupFile_def Let_def del: v2Levels.simps)
  ultimately show ?thesis using Some by (auto simp: getLinuxCPULimits_def limitsV1_def limitsV2_def)
qed (simp add: getLinuxCPULimits_def)


text \<open>A host of version 2 with two cores for the process \<open>/a\<close>, for a list of controllers.\<close>

definition two_core_host :: "string \<Rightarrow> string \<Rightarrow> string option" where
  "two_core_host controllers path =
     (if path = ''/sys/fs/cgroup/cgroup.controllers'' then Some controllers
      else if path = ''/proc/self/cgroup'' then Some (''0::/a'' @ [CHR 0x0A])
      else if path = ''/sys/fs/cgroup//a/cpu.max'' then Some (''200000 100000'' @ [CHR 0x0A])
      else None)"

lemma split_max_2: "split_max 2 c s = split_max (Suc (Suc 0)) c s"
  by (simp add: numeral_2_eq_2 del: split_max.simps)

lemmas limits_eval = two_core_host_def getLinuxCPULimits_def isV1_def limitsV2_def limitsV1_def
  parseV1CPUCgroupFile_def parseV2CPUCgroupFile_def parseV2CPULimits_def maxFile_def split_keep_def split_at_def
  split_nonempty_def consume_front_def starts_with_def trim_by_def is_space_def is_newline_def getAsSigned_def
  parseDigits_def is_digit_def digit_value_def less_eq_char_def noLimits_def split_max_2

lemma two_core_limits:
  "getLinuxCPULimits (two_core_host (''cpuset cpu io'' @ [CHR 0x0A])) (\<lambda>p. Some (p = ''/sys/fs/cgroup//a/cpu.max'')) =
     Some \<lparr>quota_us = 200000, period_us = 100000\<rparr>"
  by (simp add: limits_eval)


text \<open>
  The list of controllers ends with a line break, which stays on the last one: where the cpu controller is
  the last, or the third or a later one, the host is taken for version 1 and its limit is lost.
\<close>

lemma last_controller_missed:
  "CPULimits_get (two_core_host (''cpuset cpu'' @ [CHR 0x0A])) (\<lambda>p. Some (p = ''/sys/fs/cgroup//a/cpu.max'')) = Some None"
  "CPULimits_get (two_core_host (''io memory cpu pids'' @ [CHR 0x0A])) (\<lambda>p. Some (p = ''/sys/fs/cgroup//a/cpu.max'')) = Some None"
  by (simp_all add: limits_eval CPULimits_get_def toMillicores_def)

text \<open>A line of fewer than three parts is accessed out of bounds.\<close>

lemma v1_cgroup_out_of_bounds: "parseV1CPUCgroupFile ''nonsense'' = None"
  by (simp add: limits_eval)

end
