(* ===== verification/Numa_Topology.thy ===== *)
theory Numa_Topology
  imports Cpu_Topology "HOL-Library.List_Lexorder" "HOL-Library.Char_ord"
begin

text \<open>
  Memory nodes, performance cores and network addresses of a host (\<^verbatim>\<open>Support/lib/Threading/HWInfo.cpp\<close>):
  which processors and PCI devices belong to which memory node, which cores are performance cores, and the
  textual forms.  Directories and files are parameters.
\<close>

section \<open>Memory nodes\<close>

record numa_topology =
  numaNodes :: "int list"
  cpuIdsPerNumaNode :: "int \<rightharpoonup> nat list"
  cpuIdToNumaNode :: "nat \<rightharpoonup> int"
  pciBusesPerNumaNode :: "int \<rightharpoonup> string list"
  pciBusToNumaNode :: "string \<rightharpoonup> int"

text \<open>The directories of nodes and of devices, or the message why they cannot be listed, and the files.\<close>

record numa_host =
  nodeDir :: "string list error_or"
  pciDir :: "string list error_or"
  fileBuffer :: "string \<Rightarrow> string option"

definition kAnyNumaNode :: int where
  "kAnyNumaNode = -1"

definition nodeIds :: "string list \<Rightarrow> int list" where
  "nodeIds names =
     concat (map (\<lambda>filename.
       if starts_with ''node'' filename then
         (case getAsSigned 32 (drop 4 filename) of Some nodeId \<Rightarrow> [nodeId] | None \<Rightarrow> [])
       else []) names)"

fun setNodeOfCpus :: "int \<Rightarrow> nat list \<Rightarrow> (nat \<rightharpoonup> int) \<Rightarrow> (nat \<rightharpoonup> int)" where
  "setNodeOfCpus node [] m = m"
| "setNodeOfCpus node (c # cs) m = setNodeOfCpus node cs (m(c \<mapsto> node))"

definition cpuListFile :: "int \<Rightarrow> string" where
  "cpuListFile node = ''/sys/devices/system/node/node'' @ intString node @ ''/cpulist''"

definition addNode :: "numa_host \<Rightarrow> int \<Rightarrow> numa_topology \<Rightarrow> numa_topology option" where
  "addNode h node t =
     (case fileBuffer h (cpuListFile node) of
        None \<Rightarrow> Some t
      | Some buf \<Rightarrow>
          map_option
            (\<lambda>r. case r of
               Inl _ \<Rightarrow> t
             | Inr cpuIds \<Rightarrow>
                 t\<lparr>cpuIdsPerNumaNode := (cpuIdsPerNumaNode t)(node \<mapsto> cpuIds),
                   cpuIdToNumaNode := setNodeOfCpus node cpuIds (cpuIdToNumaNode t)\<rparr>)
            (parseCpuList buf))"

fun addNodes :: "numa_host \<Rightarrow> int list \<Rightarrow> numa_topology \<Rightarrow> numa_topology option" where
  "addNodes h [] t = Some t"
| "addNodes h (n # ns) t = Option.bind (addNode h n t) (addNodes h ns)"

text \<open>The form of a device address that the device libraries print: eight digits of domain, capitals.\<close>

definition normalizePciBus :: "string \<Rightarrow> string" where
  "normalizePciBus name =
     (let firstColon = length (takeWhile (\<lambda>c. c \<noteq> CHR '':'') name);
          padded = (if CHR '':'' \<in> set name \<and> firstColon < 8 then replicate (8 - firstColon) CHR ''0'' @ name else name)
      in map to_upper_char padded)"

definition addDevice :: "numa_host \<Rightarrow> string \<Rightarrow> numa_topology \<Rightarrow> numa_topology" where
  "addDevice h name t =
     (case fileBuffer h (''/sys/bus/pci/devices/'' @ name @ ''/numa_node'') of
        None \<Rightarrow> t
      | Some buf \<Rightarrow>
          (case getAsSigned 32 (trim buf) of
             None \<Rightarrow> t
           | Some node \<Rightarrow>
               let b = normalizePciBus name in
               t\<lparr>pciBusToNumaNode := (pciBusToNumaNode t)(b \<mapsto> node),
                 pciBusesPerNumaNode := (pciBusesPerNumaNode t)
                   (node \<mapsto> the_default [] (pciBusesPerNumaNode t node) @ [b])\<rparr>))"

definition queryNumaTopology :: "numa_host \<Rightarrow> numa_topology error_or option" where
  "queryNumaTopology h =
     (case nodeDir h of
        Inl msg \<Rightarrow> Some (Inl (''Failed to enumerate NUMA nodes: '' @ msg))
      | Inr names \<Rightarrow>
          if nodeIds names = [] then Some (Inl ''No NUMA nodes found'')
          else
            let nodes = sort (nodeIds names) in
            map_option
              (\<lambda>t. let t = fold (addDevice h) (case pciDir h of Inr ds \<Rightarrow> ds | Inl _ \<Rightarrow> []) t in
                 Inr (t\<lparr>pciBusesPerNumaNode := (\<lambda>n. map_option sort (pciBusesPerNumaNode t n))\<rparr>))
              (addNodes h nodes
                \<lparr>numaNodes = nodes, cpuIdsPerNumaNode = Map.empty, cpuIdToNumaNode = Map.empty,
                 pciBusesPerNumaNode = Map.empty, pciBusToNumaNode = Map.empty\<rparr>))"

definition getCpuIdsForNumaNode :: "numa_topology \<Rightarrow> int \<Rightarrow> nat list" where
  "getCpuIdsForNumaNode t numaNode = (case cpuIdsPerNumaNode t numaNode of Some ids \<Rightarrow> ids | None \<Rightarrow> [])"

definition getNumaNodeForCpuId :: "numa_topology \<Rightarrow> nat \<Rightarrow> int" where
  "getNumaNodeForCpuId t cpuId = (case cpuIdToNumaNode t cpuId of Some n \<Rightarrow> n | None \<Rightarrow> kAnyNumaNode)"

definition getPciBusesForNumaNode :: "numa_topology \<Rightarrow> int \<Rightarrow> string list" where
  "getPciBusesForNumaNode t numaNode = (case pciBusesPerNumaNode t numaNode of Some bs \<Rightarrow> bs | None \<Rightarrow> [])"

definition getNumaNodeForPciBus :: "numa_topology \<Rightarrow> string \<Rightarrow> int" where
  "getNumaNodeForPciBus t pciBusId = (case pciBusToNumaNode t pciBusId of Some n \<Rightarrow> n | None \<Rightarrow> -1)"

section \<open>Performance cores\<close>

text \<open>
  The core type is known only on the processor itself, so the thread is moved to every processor in turn.
  The state is the set of processors the thread may run on; \<open>allowed\<close> says which sets the system accepts.
\<close>

definition sched_setaffinity :: "(nat set \<Rightarrow> bool) \<Rightarrow> nat set \<Rightarrow> nat set \<Rightarrow> bool \<times> nat set" where
  "sched_setaffinity allowed new aff = (if allowed new then (True, new) else (False, aff))"

text \<open>\<^verbatim>\<open>CPU_SET\<close> leaves out processors beyond the size of the set.\<close>

definition cpuSet :: "nat \<Rightarrow> nat set" where
  "cpuSet c = (if c < 1024 then {c} else {})"

fun perfCore :: "(nat set \<Rightarrow> bool) \<Rightarrow> (nat set \<Rightarrow> bool) \<Rightarrow> nat list \<Rightarrow> nat set \<Rightarrow> bool option \<times> nat set" where
  "perfCore allowed isPerf [] aff = (Some False, aff)"
| "perfCore allowed isPerf (v # vs) aff =
     (case sched_setaffinity allowed (cpuSet v) aff of
        (False, aff) \<Rightarrow> (None, aff)
      | (True, aff) \<Rightarrow> if isPerf aff then (Some True, aff) else perfCore allowed isPerf vs aff)"

fun perfCores ::
  "(nat set \<Rightarrow> bool) \<Rightarrow> (nat set \<Rightarrow> bool) \<Rightarrow> nat list list \<Rightarrow> nat \<Rightarrow> nat set \<Rightarrow> nat option \<times> nat set" where
  "perfCores allowed isPerf [] cnt aff = (Some cnt, aff)"
| "perfCores allowed isPerf (core # cores) cnt aff =
     (case perfCore allowed isPerf core aff of
        (None, aff) \<Rightarrow> (None, aff)
      | (Some p, aff) \<Rightarrow> perfCores allowed isPerf cores (if p then cnt + 1 else cnt) aff)"

definition getNumPerformanceCores ::
  "bool \<Rightarrow> bool \<Rightarrow> (nat set \<Rightarrow> bool) \<Rightarrow> (nat set \<Rightarrow> bool) \<Rightarrow> nat \<Rightarrow> cpu_system \<Rightarrow> nat set \<Rightarrow> nat \<times> nat set" where
  "getNumPerformanceCores hybrid gotAffinity allowed isPerf physical sockets callersAffinity =
     (if \<not> hybrid then (physical, callersAffinity)
      else if \<not> gotAffinity then (physical, callersAffinity)
      else
        (case perfCores allowed isPerf (concat sockets) 0 callersAffinity of
           (None, aff) \<Rightarrow> (physical, snd (sched_setaffinity allowed callersAffinity aff))
         | (Some cnt, aff) \<Rightarrow>
             (if cnt = 0 then physical else cnt, snd (sched_setaffinity allowed callersAffinity aff))))"

section \<open>Text\<close>

definition printSystem :: "cpu_system \<Rightarrow> string" where
  "printSystem sockets =
     ''CPUSystemInfo('' @
     join '', ''
       (map (\<lambda>s. ''Socket('' @
         join '', '' (map (\<lambda>pc. ''{'' @ join '', '' (map natDigits pc) @ ''}'') s) @ '')'') sockets) @ '')''"

definition hexDigit :: "nat \<Rightarrow> char" where
  "hexDigit d = (if d < 10 then char_of (48 + d) else char_of (55 + d))"

text \<open>A byte in two capital digits.\<close>

definition format_hex :: "nat \<Rightarrow> string" where
  "format_hex b = [hexDigit (b div 16), hexDigit (b mod 16)]"

fun bytesToHexStr :: "nat list \<Rightarrow> string" where
  "bytesToHexStr [] = []"
| "bytesToHexStr [b] = format_hex b"
| "bytesToHexStr (b # c # bs) = format_hex b @ '':'' @ bytesToHexStr (c # bs)"

text \<open>
  The addresses of the network interfaces.  An adapter of Windows gives the bytes of its address; the other
  systems give the bytes of a socket address, the family first, and the code takes six bytes from its start.
\<close>

definition localMACs_windows :: "nat list list option \<Rightarrow> string list" where
  "localMACs_windows adapters = (case adapters of Some as \<Rightarrow> map bytesToHexStr as | None \<Rightarrow> [])"

definition sa_family :: "nat list \<Rightarrow> nat" where
  "sa_family bytes = bytes ! 0 + 256 * bytes ! 1"

definition localMACs_posix :: "nat \<Rightarrow> nat list option list option \<Rightarrow> string list" where
  "localMACs_posix af ifaddrs =
     (case ifaddrs of
        Some as \<Rightarrow>
          concat (map (\<lambda>a. case a of
            Some data \<Rightarrow> if sa_family data = af then [bytesToHexStr (take 6 data)] else []
          | None \<Rightarrow> []) as)
      | None \<Rightarrow> [])"

section \<open>The two directions of the maps agree\<close>

lemma setNodeOfCpus_eq:
  "setNodeOfCpus node cs m = (\<lambda>c. if c \<in> set cs then Some node else m c)"
  by (induction cs arbitrary: m) (auto simp: fun_eq_iff)

text \<open>
  A processor has a node exactly when some node lists it, and that node lists it; of several, the one read
  last.  Of the nodes read so far all are at most \<open>hi\<close>.
\<close>

definition cpus_consistent :: "numa_host \<Rightarrow> int \<Rightarrow> numa_topology \<Rightarrow> bool" where
  "cpus_consistent h hi t \<longleftrightarrow>
     (\<forall>c n. cpuIdToNumaNode t c = Some n \<longrightarrow> (\<exists>ids. cpuIdsPerNumaNode t n = Some ids \<and> c \<in> set ids)) \<and>
     (\<forall>n ids c. cpuIdsPerNumaNode t n = Some ids \<longrightarrow> c \<in> set ids \<longrightarrow> (\<exists>n'. cpuIdToNumaNode t c = Some n' \<and> n \<le> n')) \<and>
     (\<forall>n ids. cpuIdsPerNumaNode t n = Some ids \<longrightarrow>
        n \<le> hi \<and> (\<exists>buf. fileBuffer h (cpuListFile n) = Some buf \<and> parseCpuList buf = Some (Inr ids)))"

lemma addNode_consistent:
  assumes "addNode h node t = Some t'" "cpus_consistent h hi t" "hi \<le> node"
  shows "cpus_consistent h node t'"
proof -
  consider "t' = t" | ids buf where "fileBuffer h (cpuListFile node) = Some buf" "parseCpuList buf = Some (Inr ids)"
      "t' = t\<lparr>cpuIdsPerNumaNode := (cpuIdsPerNumaNode t)(node \<mapsto> ids),
        cpuIdToNumaNode := setNodeOfCpus node ids (cpuIdToNumaNode t)\<rparr>"
    using assms(1) by (auto simp: addNode_def map_option_case split: option.splits sum.splits)
  then show ?thesis
  proof cases
    case 1
    then show ?thesis using assms(2,3) unfolding cpus_consistent_def by (meson order_trans)
  next
    case (2 ids buf)
    have old: "ids' = ids" if "cpuIdsPerNumaNode t node = Some ids'" for ids'
      using assms(2) 2(1,2) that unfolding cpus_consistent_def by fastforce
    have le: "n \<le> node" if "cpuIdsPerNumaNode t n = Some ids'" for n ids'
      using assms(2,3) that unfolding cpus_consistent_def by fastforce
    have c1: "\<And>c n. cpuIdToNumaNode t c = Some n \<Longrightarrow> \<exists>ids. cpuIdsPerNumaNode t n = Some ids \<and> c \<in> set ids"
      and c2: "\<And>n ids c. cpuIdsPerNumaNode t n = Some ids \<Longrightarrow> c \<in> set ids \<Longrightarrow> \<exists>n'. cpuIdToNumaNode t c = Some n' \<and> n \<le> n'"
      and c3: "\<And>n ids. cpuIdsPerNumaNode t n = Some ids \<Longrightarrow>
        \<exists>buf. fileBuffer h (cpuListFile n) = Some buf \<and> parseCpuList buf = Some (Inr ids)"
      using assms(2) unfolding cpus_consistent_def by blast+
    show ?thesis
      unfolding cpus_consistent_def 2(3) setNodeOfCpus_eq
      using c1 c2 c3 le old 2(1,2) by (auto split: if_splits) (metis option.inject)+
  qed
qed

lemma addNode_frame: "addNode h node t = Some t' \<Longrightarrow> numaNodes t' = numaNodes t \<and>
    pciBusesPerNumaNode t' = pciBusesPerNumaNode t \<and> pciBusToNumaNode t' = pciBusToNumaNode t \<and>
    dom (cpuIdsPerNumaNode t') \<subseteq> insert node (dom (cpuIdsPerNumaNode t))"
  by (auto simp: addNode_def map_option_case split: option.splits sum.splits if_splits)

lemma addNodes_consistent:
  "addNodes h ns t = Some t' \<Longrightarrow> cpus_consistent h hi t \<Longrightarrow> sorted (hi # ns) \<Longrightarrow>
   cpus_consistent h (last (hi # ns)) t' \<and> numaNodes t' = numaNodes t \<and>
   pciBusesPerNumaNode t' = pciBusesPerNumaNode t \<and> pciBusToNumaNode t' = pciBusToNumaNode t \<and>
   dom (cpuIdsPerNumaNode t') \<subseteq> set ns \<union> dom (cpuIdsPerNumaNode t)"
proof (induction ns arbitrary: t hi)
  case (Cons n ns)
  then obtain t1 where t1: "addNode h n t = Some t1" "addNodes h ns t1 = Some t'"
    by (auto simp: bind_eq_Some_conv)
  have "cpus_consistent h n t1" using addNode_consistent [OF t1(1) Cons.prems(2)] Cons.prems(3) by simp
  then have IH: "cpus_consistent h (last (n # ns)) t' \<and> numaNodes t' = numaNodes t1 \<and>
      pciBusesPerNumaNode t' = pciBusesPerNumaNode t1 \<and> pciBusToNumaNode t' = pciBusToNumaNode t1 \<and>
      dom (cpuIdsPerNumaNode t') \<subseteq> set ns \<union> dom (cpuIdsPerNumaNode t1)"
    using Cons.IH [OF t1(2)] Cons.prems(3) by simp
  then have "dom (cpuIdsPerNumaNode t') \<subseteq> set (n # ns) \<union> dom (cpuIdsPerNumaNode t)"
    using addNode_frame [OF t1(1)] by fastforce
  then show ?case using IH addNode_frame [OF t1(1)] by simp
qed simp

text \<open>A device is listed under its node, for distinct device addresses under no other.\<close>

definition buses_of :: "numa_topology \<Rightarrow> int \<Rightarrow> string list" where
  "buses_of t n = the_default [] (pciBusesPerNumaNode t n)"

definition pci_consistent :: "string set \<Rightarrow> numa_topology \<Rightarrow> bool" where
  "pci_consistent seen t \<longleftrightarrow> (\<forall>b n. pciBusToNumaNode t b = Some n \<longleftrightarrow> b \<in> set (buses_of t n)) \<and>
     dom (pciBusToNumaNode t) \<subseteq> seen"

lemma addDevice_consistent:
  assumes "pci_consistent seen t" "normalizePciBus name \<notin> seen"
  shows "pci_consistent (insert (normalizePciBus name) seen) (addDevice h name t)"
proof -
  let ?b = "normalizePciBus name"
  consider "addDevice h name t = t" | node where "addDevice h name t = t\<lparr>pciBusToNumaNode := (pciBusToNumaNode t)(?b \<mapsto> node),
      pciBusesPerNumaNode := (pciBusesPerNumaNode t)(node \<mapsto> buses_of t node @ [?b])\<rparr>"
    by (fastforce simp: addDevice_def Let_def buses_of_def split: option.splits)
  then show ?thesis
  proof cases
    case 1
    then show ?thesis using assms(1) by (auto simp: pci_consistent_def)
  next
    case (2 node)
    have "?b \<notin> dom (pciBusToNumaNode t)" using assms by (auto simp: pci_consistent_def)
    then have "\<And>n. ?b \<notin> set (buses_of t n)" using assms(1) unfolding pci_consistent_def by blast
    then show ?thesis using assms(1) unfolding 2 pci_consistent_def
      by (auto simp: buses_of_def split: if_splits)
  qed
qed

lemma addDevice_frame: "numaNodes (addDevice h name t) = numaNodes t \<and>
    cpuIdsPerNumaNode (addDevice h name t) = cpuIdsPerNumaNode t \<and> cpuIdToNumaNode (addDevice h name t) = cpuIdToNumaNode t"
  by (auto simp: addDevice_def Let_def split: option.splits)

lemma addDevices_frame: "numaNodes (fold (addDevice h) ds t) = numaNodes t \<and>
    cpuIdsPerNumaNode (fold (addDevice h) ds t) = cpuIdsPerNumaNode t \<and>
    cpuIdToNumaNode (fold (addDevice h) ds t) = cpuIdToNumaNode t"
  by (induction ds arbitrary: t) (simp_all add: addDevice_frame)

lemma addDevices_consistent:
  "pci_consistent seen t \<Longrightarrow> distinct (map normalizePciBus ds) \<Longrightarrow> set (map normalizePciBus ds) \<inter> seen = {} \<Longrightarrow>
   pci_consistent (seen \<union> set (map normalizePciBus ds)) (fold (addDevice h) ds t)"
proof (induction ds arbitrary: t seen)
  case (Cons d ds)
  have "pci_consistent (insert (normalizePciBus d) seen) (addDevice h d t)"
    using Cons.prems by (intro addDevice_consistent) auto
  then have "pci_consistent (insert (normalizePciBus d) seen \<union> set (map normalizePciBus ds)) (fold (addDevice h) ds (addDevice h d t))"
    using Cons.prems by (intro Cons.IH) auto
  then show ?case by (simp add: insert_commute Un_insert_left Un_insert_right)
qed simp

lemma cpus_of_node: "c \<in> set (getCpuIdsForNumaNode t n) \<longleftrightarrow> (\<exists>ids. cpuIdsPerNumaNode t n = Some ids \<and> c \<in> set ids)"
  by (cases "cpuIdsPerNumaNode t n") (auto simp: getCpuIdsForNumaNode_def)

lemma consistent_listed:
  assumes "cpus_consistent h hi t" "c \<in> set (getCpuIdsForNumaNode t n)"
  shows "c \<in> set (getCpuIdsForNumaNode t (getNumaNodeForCpuId t c)) \<and> n \<le> getNumaNodeForCpuId t c"
proof -
  obtain n' where "cpuIdToNumaNode t c = Some n'" "n \<le> n'"
    using assms unfolding cpus_of_node cpus_consistent_def by blast
  then show ?thesis using assms(1) by (auto simp: cpus_of_node getNumaNodeForCpuId_def cpus_consistent_def)
qed

lemma consistent_unlisted:
  assumes "cpus_consistent h hi t" "dom (cpuIdsPerNumaNode t) \<subseteq> ns" "\<forall>n \<in> ns. c \<notin> set (getCpuIdsForNumaNode t n)"
  shows "getNumaNodeForCpuId t c = kAnyNumaNode"
proof (cases "cpuIdToNumaNode t c")
  case (Some n)
  then obtain ids where "cpuIdsPerNumaNode t n = Some ids" "c \<in> set ids" using assms(1) unfolding cpus_consistent_def by blast
  then show ?thesis using assms(2,3) by (auto simp: cpus_of_node)
qed (simp add: getNumaNodeForCpuId_def)

lemma sorted_buses:
  assumes "pci_consistent seen t"
  defines "t' \<equiv> t\<lparr>pciBusesPerNumaNode := (\<lambda>n. map_option sort (pciBusesPerNumaNode t n))\<rparr>"
  shows "(pciBusToNumaNode t' b = Some n \<longleftrightarrow> b \<in> set (getPciBusesForNumaNode t' n)) \<and> sorted (getPciBusesForNumaNode t' n)"
  using assms(1) by (auto simp: t'_def pci_consistent_def buses_of_def getPciBusesForNumaNode_def split: option.splits)

text \<open>
  C33. In the topology of a host a processor belongs to a node that lists it, the last one of those that
  do; a processor listed nowhere belongs to none.  For distinct device addresses a device belongs to
  exactly the node that lists it, and the lists are sorted.
\<close>

theorem numa_topology_consistent:
  assumes "queryNumaTopology h = Some (Inr t)"
  shows "sorted (numaNodes t) \<and>
    (\<forall>c. (\<exists>n \<in> set (numaNodes t). c \<in> set (getCpuIdsForNumaNode t n)) \<longrightarrow>
       c \<in> set (getCpuIdsForNumaNode t (getNumaNodeForCpuId t c)) \<and>
       (\<forall>n. c \<in> set (getCpuIdsForNumaNode t n) \<longrightarrow> n \<le> getNumaNodeForCpuId t c)) \<and>
    (\<forall>c. (\<forall>n \<in> set (numaNodes t). c \<notin> set (getCpuIdsForNumaNode t n)) \<longrightarrow> getNumaNodeForCpuId t c = kAnyNumaNode) \<and>
    (distinct (map normalizePciBus (case pciDir h of Inr ds \<Rightarrow> ds | Inl _ \<Rightarrow> [])) \<longrightarrow>
       (\<forall>b n. pciBusToNumaNode t b = Some n \<longleftrightarrow> b \<in> set (getPciBusesForNumaNode t n)) \<and>
       (\<forall>n. sorted (getPciBusesForNumaNode t n)))"
proof -
  let ?ds = "case pciDir h of Inr ds \<Rightarrow> ds | Inl _ \<Rightarrow> []"
  obtain names where names: "nodeDir h = Inr names" "nodeIds names \<noteq> []"
    using assms by (auto simp: queryNumaTopology_def split: sum.splits if_splits)
  let ?nodes = "sort (nodeIds names)"
  let ?t0 = "\<lparr>numaNodes = ?nodes, cpuIdsPerNumaNode = Map.empty, cpuIdToNumaNode = Map.empty,
      pciBusesPerNumaNode = Map.empty, pciBusToNumaNode = Map.empty\<rparr>"
  obtain t1 where t1: "addNodes h ?nodes ?t0 = Some t1"
      "t = (fold (addDevice h) ?ds t1)\<lparr>pciBusesPerNumaNode := (\<lambda>n. map_option sort (pciBusesPerNumaNode (fold (addDevice h) ?ds t1) n))\<rparr>"
    using assms names by (auto simp: queryNumaTopology_def Let_def)
  have c0: "cpus_consistent h (hd ?nodes) ?t0" by (simp add: cpus_consistent_def)
  have ne: "?nodes \<noteq> []" using names(2) by (metis set_empty set_sort)
  have "sorted (hd ?nodes # ?nodes)" by (metis ne list.collapse sorted_sort sorted_simps(2) order_refl set_ConsD)
  note n1 = addNodes_consistent [OF t1(1) c0 this]
  have cpu: "cpuIdToNumaNode t = cpuIdToNumaNode t1" "cpuIdsPerNumaNode t = cpuIdsPerNumaNode t1" "numaNodes t = ?nodes"
    using t1(2) addDevices_frame n1 by simp_all
  have dom: "dom (cpuIdsPerNumaNode t) \<subseteq> set (numaNodes t)" using n1 cpu by auto
  have cc: "cpus_consistent h (last (hd ?nodes # ?nodes)) t"
    using n1 unfolding cpus_consistent_def cpu by blast
  have "pci_consistent {} t1" using n1 by (auto simp: pci_consistent_def buses_of_def)
  then have pci: "pci_consistent (set (map normalizePciBus ?ds)) (fold (addDevice h) ?ds t1)"
    if "distinct (map normalizePciBus ?ds)" using addDevices_consistent [OF _ that, of "{}"] by simp
  show ?thesis
    using consistent_listed [OF cc] consistent_unlisted [OF cc dom] sorted_buses [OF pci] t1(2) cpu(3)
    by (intro conjI) (simp, blast, blast, metis)
qed

definition two_node_host :: numa_host where
  "two_node_host =
     \<lparr>nodeDir = Inr [''node1'', ''online'', ''node0''], pciDir = Inr [''0000:1a:00.0''],
      fileBuffer = (\<lambda>p. if p = cpuListFile 0 then Some ''0-1'' else if p = cpuListFile 1 then Some ''2''
        else if p = ''/sys/bus/pci/devices/0000:1a:00.0/numa_node'' then Some ''1'' else None)\<rparr>"

definition two_node_topology :: numa_topology where
  "two_node_topology =
     \<lparr>numaNodes = [0, 1], cpuIdsPerNumaNode = [0 \<mapsto> [0, 1], 1 \<mapsto> [2]], cpuIdToNumaNode = [0 \<mapsto> 0, 1 \<mapsto> 0, 2 \<mapsto> 1],
      pciBusesPerNumaNode = [1 \<mapsto> [''00000000:1A:00.0'']], pciBusToNumaNode = [''00000000:1A:00.0'' \<mapsto> 1]\<rparr>"

lemma cpuListFile_01: "cpuListFile 0 = ''/sys/devices/system/node/node0/cpulist''"
  "cpuListFile 1 = ''/sys/devices/system/node/node1/cpulist''"
  by (simp_all add: cpuListFile_def intString_def natDigits.simps char_of_def bit_Suc_0_iff)

lemmas numa_eval = starts_with_def trim_by_def is_space_def is_newline_def getAsSigned_def getAsUnsigned_def
  parseDigits_def is_digit_def digit_value_def less_eq_char_def split_nonempty_def split_at_def

lemma two_node_files:
  "fileBuffer two_node_host (cpuListFile 0) = Some ''0-1''" "fileBuffer two_node_host (cpuListFile 1) = Some ''2''"
  "fileBuffer two_node_host ''/sys/bus/pci/devices/0000:1a:00.0/numa_node'' = Some ''1''"
  by (simp_all add: two_node_host_def cpuListFile_01)

lemma two_node_cpu_lists: "parseCpuList ''0-1'' = Some (Inr [0, 1])" "parseCpuList ''2'' = Some (Inr [2])"
  by (simp_all add: parseCpuList_def cpuRange_def numa_eval)

lemma two_node_query: "queryNumaTopology two_node_host = Some (Inr two_node_topology)"
proof -
  have ids: "sort (nodeIds [''node1'', ''online'', ''node0'']) = [0, 1]" "nodeIds [''node1'', ''online'', ''node0''] \<noteq> []"
    by (simp_all add: nodeIds_def numa_eval)
  have bus: "normalizePciBus ''0000:1a:00.0'' = ''00000000:1A:00.0''"
    by code_simp
  have dirs: "nodeDir two_node_host = Inr [''node1'', ''online'', ''node0'']" "pciDir two_node_host = Inr [''0000:1a:00.0'']"
    by (simp_all add: two_node_host_def)
  have dev: "addDevice two_node_host ''0000:1a:00.0'' t =
      t\<lparr>pciBusToNumaNode := (pciBusToNumaNode t)(''00000000:1A:00.0'' \<mapsto> 1),
        pciBusesPerNumaNode := (pciBusesPerNumaNode t)(1 \<mapsto> the_default [] (pciBusesPerNumaNode t 1) @ [''00000000:1A:00.0''])\<rparr>" for t
    using two_node_files(3) by (simp add: addDevice_def bus numa_eval Let_def)
  show ?thesis
    unfolding queryNumaTopology_def dirs using ids
    by (simp add: addNode_def two_node_files(1,2) two_node_cpu_lists dev two_node_topology_def fun_eq_iff Let_def)
qed

theorem numa_topology_consistent_witness:
  "queryNumaTopology two_node_host = Some (Inr two_node_topology) \<and>
   getNumaNodeForCpuId two_node_topology 2 = 1 \<and> 2 \<in> set (getCpuIdsForNumaNode two_node_topology 1) \<and>
   {n. 2 \<in> set (getCpuIdsForNumaNode two_node_topology n)} \<subseteq> {..1}"
proof -
  have "getNumaNodeForCpuId two_node_topology 2 = 1" "2 \<in> set (getCpuIdsForNumaNode two_node_topology 1)"
      "1 \<in> set (numaNodes two_node_topology)"
    by (simp_all add: getNumaNodeForCpuId_def getCpuIdsForNumaNode_def two_node_topology_def)
  then show ?thesis using numa_topology_consistent [OF two_node_query] two_node_query by (metis (mono_tags, lifting) atMost_iff mem_Collect_eq subsetI)
qed

section \<open>Counting performance cores leaves the thread where it was\<close>

lemma perfCore_all_allowed:
  assumes "\<forall>v \<in> set vs. allowed (cpuSet v)"
  shows "fst (perfCore allowed isPerf vs aff) = Some (\<exists>v \<in> set vs. isPerf (cpuSet v))"
  using assms by (induction vs arbitrary: aff) (auto simp: sched_setaffinity_def)

lemma perfCores_all_allowed:
  assumes "\<forall>core \<in> set cores. \<forall>v \<in> set core. allowed (cpuSet v)"
  shows "fst (perfCores allowed isPerf cores n aff) =
    Some (n + length (filter (\<lambda>core. \<exists>v \<in> set core. isPerf (cpuSet v)) cores))"
  using assms
proof (induction cores arbitrary: n aff)
  case (Cons core cores)
  obtain p aff' where p: "perfCore allowed isPerf core aff = (p, aff')" by fastforce
  then have "p = Some (\<exists>v \<in> set core. isPerf (cpuSet v))"
    using perfCore_all_allowed [of core allowed isPerf aff] Cons.prems by simp
  then show ?case using p Cons by simp
qed simp

text \<open>
  Where the system lets the thread back, the count of performance cores leaves it on the processors it
  was on, on every path; where it may run everywhere, the answer is the number of cores with a performance
  thread, and the number of all cores when there is none or the system is not hybrid.
\<close>

theorem performance_cores_exact:
  assumes "allowed callers"
  shows "snd (getNumPerformanceCores hybrid got allowed isPerf physical sockets callers) = callers \<and>
    ((\<forall>core \<in> set (concat sockets). \<forall>v \<in> set core. allowed (cpuSet v)) \<longrightarrow>
      fst (getNumPerformanceCores hybrid got allowed isPerf physical sockets callers) =
        (let n = length (filter (\<lambda>core. \<exists>v \<in> set core. isPerf (cpuSet v)) (concat sockets)) in
         if hybrid \<and> got \<and> 0 < n then n else physical))"
proof -
  obtain r aff where r: "perfCores allowed isPerf (concat sockets) 0 callers = (r, aff)" by fastforce
  then have "r = Some (length (filter (\<lambda>core. \<exists>v \<in> set core. isPerf (cpuSet v)) (concat sockets)))"
    if "\<forall>core \<in> set (concat sockets). \<forall>v \<in> set core. allowed (cpuSet v)"
    using perfCores_all_allowed [OF that, of isPerf 0 callers] by simp
  then show ?thesis
    using assms r by (auto simp: getNumPerformanceCores_def sched_setaffinity_def Let_def split: option.splits)
qed

theorem performance_cores_exact_witness:
  "getNumPerformanceCores True True (\<lambda>s. s \<noteq> {}) (\<lambda>s. s \<subseteq> {0, 1, 2}) 8 [[[0, 1], [2, 3], [4], [5]]] {0, 1, 2, 3, 4, 5} =
     (2, {0, 1, 2, 3, 4, 5})"
  using performance_cores_exact [of "\<lambda>s. s \<noteq> {}" "{0, 1, 2, 3, 4, 5}" True True "\<lambda>s. s \<subseteq> {0, 1, 2}" 8 "[[[0, 1], [2, 3], [4], [5]]]"]
  by (simp add: cpuSet_def prod_eq_iff)

section \<open>Addresses of interfaces\<close>

text \<open>
  Two interfaces with different hardware addresses, which stand at offset 12 of the socket address of a
  packet, are printed alike.
\<close>

lemma mac_not_printed:
  assumes "length m = 8" "length m' = 8"
  shows "localMACs_posix 17 (Some [Some ([17, 0, 0, 0, 2, 0, 0, 0, 1, 0, 0, 6] @ m)]) =
    localMACs_posix 17 (Some [Some ([17, 0, 0, 0, 2, 0, 0, 0, 1, 0, 0, 6] @ m')])"
  by (simp add: localMACs_posix_def sa_family_def eval_nat_numeral)

end
