(* ===== verification/Thread_Support.thy ===== *)
theory Thread_Support
  imports Cpu_Limits Numa_Topology
begin

text \<open>
  Threads of the runtime: how many there are and where they run
  (\<^verbatim>\<open>AsyncRT/lib/Support/ThreadAffinity.cpp\<close>), and the semaphore they wait on
  (\<^verbatim>\<open>AsyncRT/lib/Support/Semaphore.cpp\<close>).
\<close>

section \<open>Number and place of the threads\<close>

text \<open>
  What the function asks of the host: the numbers of cores, the limit in thousandths of a core if there is
  one, and the topology; \<open>apple\<close> is the platform test of the source.
\<close>

record thread_host =
  apple :: bool
  performanceCores :: nat
  physicalCores :: nat
  logicalCores :: nat
  millicores :: "nat option"
  haveThreadAffinity :: bool
  systemInfo :: "cpu_system error_or"

definition defaultThreads :: "thread_host \<Rightarrow> bool \<Rightarrow> nat \<Rightarrow> bool \<times> nat" where
  "defaultThreads h withAffinity numThreads =
     (if numThreads = 0 then
        (if performanceCores h \<noteq> physicalCores h then (withAffinity \<and> \<not> apple h, performanceCores h)
         else if withAffinity then (withAffinity, physicalCores h)
         else (withAffinity, logicalCores h))
      else (withAffinity, numThreads))"

definition limitThreads :: "thread_host \<Rightarrow> nat \<Rightarrow> nat \<Rightarrow> nat" where
  "limitThreads h maxThreads numThreads =
     (let n = (case millicores h of
                 Some m \<Rightarrow> if max 1 (m div 1000) < numThreads then max 1 (m div 1000) else numThreads
               | None \<Rightarrow> numThreads)
      in if maxThreads < n then maxThreads else n)"

definition getThreadAffinityCpuIds :: "thread_host \<Rightarrow> bool \<Rightarrow> nat \<Rightarrow> nat \<Rightarrow> nat list option" where
  "getThreadAffinityCpuIds h withAffinity numThreads maxThreads =
     (case defaultThreads h withAffinity numThreads of (withAffinity, numThreads) \<Rightarrow>
        let n = limitThreads h maxThreads numThreads in
        if withAffinity \<and> haveThreadAffinity h then
          (case systemInfo h of
             Inl _ \<Rightarrow> Some (replicate n kNoAffinity)
           | Inr sockets \<Rightarrow> getPreferredCpuIDs sockets n)
        else Some (replicate n kNoAffinity))"

text \<open>
  Running work on a processor; \<open>run\<close> is the operation of the host, which gives an error or not and the
  trace of the work it did.  The trace holds the processor of each run.
\<close>

definition runWithThreadAffinity :: "(nat \<Rightarrow> bool \<times> nat list) \<Rightarrow> nat \<Rightarrow> nat list" where
  "runWithThreadAffinity run cpuID =
     (if cpuID = kNoAffinity then [kNoAffinity]
      else case run cpuID of (failed, runs) \<Rightarrow> if failed then runs @ [kNoAffinity] else runs)"

definition setThreadAffinity :: "(nat \<Rightarrow> nat set \<Rightarrow> bool \<times> nat set) \<Rightarrow> nat \<Rightarrow> nat set \<Rightarrow> nat set" where
  "setThreadAffinity setAffinity cpuID aff = (if cpuID \<noteq> kNoAffinity then snd (setAffinity cpuID aff) else aff)"

section \<open>The semaphore\<close>

text \<open>What one call of the primitive of the host ends with.\<close>

datatype wait_outcome = Acquired | Interrupted | TimedOut | Invalid

record timespec =
  tv_sec :: int
  tv_nsec :: int

text \<open>The POSIX arm repeats a call that a signal interrupted; \<open>out i\<close> is the outcome of call \<open>i\<close>.\<close>

partial_function (option) retryWait :: "(nat \<Rightarrow> wait_outcome) \<Rightarrow> nat \<Rightarrow> wait_outcome option" where
  "retryWait out i = (if out i = Interrupted then retryWait out (i + 1) else Some (out i))"

declare retryWait.simps [code]

text \<open>True stands for not acquired.\<close>

definition posixWait :: "(nat \<Rightarrow> wait_outcome) \<Rightarrow> bool option" where
  "posixWait out = map_option (\<lambda>r. r \<noteq> Acquired) (retryWait out 0)"

definition int64_range :: "int \<Rightarrow> bool" where
  "int64_range i \<longleftrightarrow> - (2 ^ 63) \<le> i \<and> i < 2 ^ 63"

text \<open>The timeout is added to the nanoseconds; beyond 64 bits that is undefined.\<close>

definition deadline :: "timespec \<Rightarrow> int \<Rightarrow> timespec option" where
  "deadline ts timeoutNS =
     (if int64_range (tv_nsec ts + timeoutNS) then Some (ts\<lparr>tv_nsec := tv_nsec ts + timeoutNS\<rparr>) else None)"

definition posixTimedWait :: "(timespec \<Rightarrow> nat \<Rightarrow> wait_outcome) \<Rightarrow> timespec option \<Rightarrow> int \<Rightarrow> bool error_or option" where
  "posixTimedWait sem_timedwait now timeoutNS =
     (case now of
        None \<Rightarrow> Some (Inl ''Unable to call clock_gettime'')
      | Some ts \<Rightarrow>
          Option.bind (deadline ts timeoutNS) (\<lambda>ts.
            map_option
              (\<lambda>r. if r = Acquired then Inr False
                   else if r = TimedOut then Inr True
                   else Inl ''sem_timedwait failed for a reason other than EINTR or ETIMEDOUT.'')
              (retryWait (sem_timedwait ts) 0)))"

definition windowsWait :: "bool" where
  "windowsWait = False"

definition windowsTimedWait :: "(int \<Rightarrow> bool) \<Rightarrow> int \<Rightarrow> bool" where
  "windowsTimedWait try_acquire_for timeoutNS = (\<not> try_acquire_for timeoutNS)"

section \<open>The threads of a host\<close>

definition thread_limit :: "thread_host \<Rightarrow> nat \<Rightarrow> nat" where
  "thread_limit h maxThreads =
     (case millicores h of Some m \<Rightarrow> min (max 1 (m div 1000)) maxThreads | None \<Rightarrow> maxThreads)"

lemma limitThreads_min: "limitThreads h maxThreads n = min n (thread_limit h maxThreads)"
  by (auto simp: limitThreads_def thread_limit_def Let_def split: option.splits)

text \<open>
  What is asked for, written from the rules of the comment in the source: the number the caller names, or
  else the performance cores where they are not all the physical ones, or else the physical cores with
  affinity and the logical ones without; and pinning is off where it is not asked for, not supported, or left
  to the scheduler of an Apple host with unequal cores.
\<close>

definition wanted_threads :: "thread_host \<Rightarrow> bool \<Rightarrow> nat \<Rightarrow> nat" where
  "wanted_threads h withAffinity numThreads =
     (if numThreads \<noteq> 0 then numThreads
      else if performanceCores h \<noteq> physicalCores h then performanceCores h
      else if withAffinity then physicalCores h else logicalCores h)"

definition pins_threads :: "thread_host \<Rightarrow> bool \<Rightarrow> nat \<Rightarrow> bool" where
  "pins_threads h withAffinity numThreads \<longleftrightarrow> withAffinity \<and> haveThreadAffinity h \<and>
     \<not> (apple h \<and> numThreads = 0 \<and> performanceCores h \<noteq> physicalCores h)"

lemma defaultThreads_split:
  "defaultThreads h withAffinity numThreads =
     (withAffinity \<and> \<not> (apple h \<and> numThreads = 0 \<and> performanceCores h \<noteq> physicalCores h), wanted_threads h withAffinity numThreads)"
  by (auto simp: defaultThreads_def wanted_threads_def)

lemma getThreadAffinityCpuIds_split:
  "getThreadAffinityCpuIds h withAffinity numThreads maxThreads =
     (let n = min (wanted_threads h withAffinity numThreads) (thread_limit h maxThreads) in
      if pins_threads h withAffinity numThreads then
        (case systemInfo h of Inl _ \<Rightarrow> Some (replicate n kNoAffinity) | Inr sockets \<Rightarrow> getPreferredCpuIDs sockets n)
      else Some (replicate n kNoAffinity))"
  by (auto simp: getThreadAffinityCpuIds_def defaultThreads_split pins_threads_def limitThreads_min Let_def)


definition four_core_host :: thread_host where
  "four_core_host =
     \<lparr>apple = False, performanceCores = 4, physicalCores = 4, logicalCores = 8, millicores = Some 2500,
      haveThreadAffinity = True, systemInfo = Inr [[[0, 4], [1, 5], [2, 6], [3, 7]]]\<rparr>"

lemma four_core_fields:
  "apple four_core_host = False" "performanceCores four_core_host = 4" "physicalCores four_core_host = 4"
  "logicalCores four_core_host = 8" "millicores four_core_host = Some 2500" "haveThreadAffinity four_core_host = True"
  "systemInfo four_core_host = Inr [[[0, 4], [1, 5], [2, 6], [3, 7]]]"
  by (simp_all add: four_core_host_def)


text \<open>
  A description of the processors without core numbers gives a topology without processors, and then the
  search for processors does not end.
\<close>

lemma thread_affinity_hangs:
  "getLinuxX86CPUSystemInfoImpl available ''processor : 0'' = Some (Inr []) \<and>
   (\<forall>h :: thread_host. systemInfo h = Inr [] \<and> haveThreadAffinity h \<and> 0 < maxThreads \<and> 0 < numThreads \<longrightarrow>
      getThreadAffinityCpuIds h True numThreads maxThreads = None)"
proof (intro conjI allI impI)
  show "getLinuxX86CPUSystemInfoImpl available ''processor : 0'' = Some (Inr [])"
    by (simp add: getLinuxX86CPUSystemInfoImpl_def cpuinfoLine_def split_nonempty_def split_at_def trim_by_def
        is_space_def is_newline_def getAsSigned_def parseDigits_def is_digit_def less_eq_char_def digit_value_def)
next
  fix h :: thread_host
  assume h: "systemInfo h = Inr [] \<and> haveThreadAffinity h \<and> 0 < maxThreads \<and> 0 < numThreads"
  have "0 < min numThreads (thread_limit h maxThreads)" using h by (auto simp: thread_limit_def split: option.splits)
  then show "getThreadAffinityCpuIds h True numThreads maxThreads = None"
    using h preferred_cpus_endless [of "[]"] by (simp add: getThreadAffinityCpuIds_def defaultThreads_def limitThreads_min Let_def)
qed

text \<open>Where the operation of the host does not run the work when it fails, the work is done once.\<close>

lemma work_runs_once:
  assumes "\<And>failed runs. run cpuID = (failed, runs) \<Longrightarrow> runs = (if failed then [] else [cpuID])"
  shows "length (runWithThreadAffinity run cpuID) = 1"
  using assms by (auto simp: runWithThreadAffinity_def split: prod.splits)

section \<open>Waiting\<close>

lemma retryWait_first:
  assumes "out (i + k) \<noteq> Interrupted" "\<forall>j < k. out (i + j) = Interrupted"
  shows "retryWait out i = Some (out (i + k))"
  using assms
proof (induction k arbitrary: i)
  case 0
  then show ?case by (subst retryWait.simps) simp
next
  case (Suc k)
  then have "out i = Interrupted" by (metis add_0_right zero_less_Suc)
  moreover have "retryWait out (Suc i) = Some (out (Suc i + k))"
    using Suc.prems by (intro Suc.IH) auto
  ultimately show ?case by (subst retryWait.simps) simp
qed

lemma retryWait_endless:
  assumes "\<forall>i. out i = Interrupted"
  shows "retryWait out i = None"
proof (cases "retryWait out i")
  case (Some r)
  have "out j = Interrupted \<longrightarrow> False" if "retryWait out j = Some r" "\<forall>i. out i = Interrupted" for j
    using that(2) by (rule_tac retryWait.raw_induct [where P = "\<lambda>out i r. \<not> (\<forall>i. out i = Interrupted)", OF _ that(1), THEN notE])
      (auto split: if_splits)
  then show ?thesis using Some assms by blast
qed

text \<open>
  The three waits of the POSIX arm and of the Windows arm answer alike: once a call is not interrupted,
  a wait reports success exactly when the semaphore was taken, and a wait with a timeout reports true
  exactly when the time runs out, however often a signal came before.
\<close>

theorem semaphore_arms_agree:
  assumes "out k \<noteq> Interrupted" "\<forall>j < k. out j = Interrupted" "out k = Acquired \<or> out k = TimedOut"
    and "int64_range (tv_nsec now + timeoutNS)"
  shows "posixTimedWait (\<lambda>_. out) (Some now) timeoutNS =
      Some (Inr (windowsTimedWait (\<lambda>_. out k = Acquired) timeoutNS)) \<and>
    (out k = Acquired \<longrightarrow> posixWait out = Some windowsWait)"
proof -
  have "retryWait out 0 = Some (out k)" using retryWait_first [of out 0 k] assms(1,2) by simp
  then show ?thesis using assms(3,4)
    by (auto simp: posixTimedWait_def posixWait_def deadline_def windowsWait_def windowsTimedWait_def)
qed

theorem semaphore_arms_agree_witness:
  "posixTimedWait (\<lambda>_ i. if i < 2 then Interrupted else TimedOut) (Some \<lparr>tv_sec = 7, tv_nsec = 5\<rparr>) 100 =
     Some (Inr (windowsTimedWait (\<lambda>_. False) 100))"
  using semaphore_arms_agree [of "\<lambda>i. if i < 2 then Interrupted else TimedOut" 2 "\<lparr>tv_sec = 7, tv_nsec = 5\<rparr>" 100]
  by (simp add: int64_range_def)

text \<open>
  The timeout is added to the nanoseconds of the deadline without carrying into the seconds: with the
  documented answer of the system to an invalid deadline, every wait of a second or more on a semaphore that
  is not available ends the process, whatever the clock shows.
\<close>

theorem timed_wait_second_fatal:
  assumes invalid: "\<forall>ts i. \<not> (0 \<le> tv_nsec ts \<and> tv_nsec ts < 1000000000) \<longrightarrow> sem_timedwait ts i = Invalid"
    and "0 \<le> tv_nsec now" "tv_nsec now < 1000000000" "1000000000 \<le> timeoutNS" "timeoutNS < 2 ^ 62"
  shows "posixTimedWait sem_timedwait (Some now) timeoutNS =
    Some (Inl ''sem_timedwait failed for a reason other than EINTR or ETIMEDOUT.'')"
proof -
  let ?ts = "now\<lparr>tv_nsec := tv_nsec now + timeoutNS\<rparr>"
  have "deadline now timeoutNS = Some ?ts" using assms(2-5) by (simp add: deadline_def int64_range_def)
  moreover have "sem_timedwait ?ts 0 = Invalid" using invalid assms(2,4) by simp
  then have "retryWait (sem_timedwait ?ts) 0 = Some Invalid" by (subst retryWait.simps) simp
  ultimately show ?thesis by (simp add: posixTimedWait_def)
qed

theorem timed_wait_second_fatal_witness:
  "posixTimedWait (\<lambda>ts i. if 0 \<le> tv_nsec ts \<and> tv_nsec ts < 1000000000 then TimedOut else Invalid)
     (Some \<lparr>tv_sec = 7, tv_nsec = 0\<rparr>) 1000000000 =
   Some (Inl ''sem_timedwait failed for a reason other than EINTR or ETIMEDOUT.'')"
  using timed_wait_second_fatal [of "\<lambda>ts i. if 0 \<le> tv_nsec ts \<and> tv_nsec ts < 1000000000 then TimedOut else Invalid"
      "\<lparr>tv_sec = 7, tv_nsec = 0\<rparr>" 1000000000] by simp

end
