(* ===== verification/File_Locking.thy ===== *)
theory File_Locking
  imports Cpu_Limits
begin

text \<open>
  File operations under a lock, the search for a directory, and temporary files
  (\<^verbatim>\<open>Support/lib/FileSystemExtras.cpp\<close>).  The lock manager of LLVM and the file system are parameters:
  every attempt to lock has an outcome, and files are a map from paths to contents.
\<close>

section \<open>Operations under a lock\<close>

datatype wait_result = Success | OwnerDied | Timeout

text \<open>An attempt that fails has the text of the error and the list of its error codes.\<close>

datatype lock_attempt = LockError string string | Owned | NotOwned wait_result

definition kLockMaxRetriesOnError :: nat where
  "kLockMaxRetriesOnError = 1000"

text \<open>
  The loop: attempt \<open>i\<close> with the number of errors so far.  The operation gets told whether the lock is
  owned while it runs; \<open>parentMsg\<close> is the description of the parent directory.
\<close>

partial_function (option) lockLoop ::
  "string \<Rightarrow> string \<Rightarrow> (nat \<Rightarrow> lock_attempt) \<Rightarrow> (bool \<Rightarrow> 'a error_or) \<Rightarrow> nat \<Rightarrow> nat \<Rightarrow> 'a error_or option" where
  "lockLoop filePath parentMsg attempt callable i retries =
     (case attempt i of
        LockError err ecMsg \<Rightarrow>
          if kLockMaxRetriesOnError < retries then
            Some (Inl (''unable to take lock file for '' @ [CHR 0x27] @ filePath @ [CHR 0x27] @ '': '' @ err @ '' '' @ ecMsg @ parentMsg))
          else lockLoop filePath parentMsg attempt callable (i + 1) (retries + 1)
      | Owned \<Rightarrow> Some (callable True)
      | NotOwned w \<Rightarrow>
          (case w of
             Success \<Rightarrow> Some (callable False)
           | OwnerDied \<Rightarrow> lockLoop filePath parentMsg attempt callable (i + 1) retries
           | Timeout \<Rightarrow> Some (Inl (''timed out waiting for lock file for '' @ [CHR 0x27] @ filePath @ [CHR 0x27]))))"

declare lockLoop.simps [code]

definition doLockedFileOperation ::
  "string \<Rightarrow> string \<Rightarrow> (nat \<Rightarrow> lock_attempt) \<Rightarrow> (bool \<Rightarrow> 'a error_or) \<Rightarrow> 'a error_or option" where
  "doLockedFileOperation filePath parentMsg attempt callable = lockLoop filePath parentMsg attempt callable 0 0"

section \<open>The operations\<close>

text \<open>
  Files as a map from paths to contents.  Writing replaces the file once the stream had no error; the null
  device and the standard output are not files and have no error.  Appending opens or creates.
\<close>

type_synonym file_map = "string \<rightharpoonup> string"

definition writeFile :: "string \<Rightarrow> string \<Rightarrow> string option \<Rightarrow> file_map \<Rightarrow> (string \<times> file_map) error_or" where
  "writeFile filePath content streamError fm =
     (if filePath = ''/dev/null'' \<or> filePath = ''-'' then Inr (filePath, fm)
      else case streamError of Some e \<Rightarrow> Inl e | None \<Rightarrow> Inr (filePath, fm(filePath \<mapsto> content)))"

definition appendFile :: "string \<Rightarrow> string \<Rightarrow> string option \<Rightarrow> string option \<Rightarrow> file_map \<Rightarrow> file_map error_or" where
  "appendFile filePath content openError streamError fm =
     (case openError of
        Some e \<Rightarrow> Inl e
      | None \<Rightarrow>
          (case streamError of
             Some e \<Rightarrow> Inl e
           | None \<Rightarrow> Inr (fm(filePath \<mapsto> the_default [] (fm filePath) @ content))))"

definition writeFileUnderLock ::
  "string \<Rightarrow> (nat \<Rightarrow> lock_attempt) \<Rightarrow> string \<Rightarrow> string \<Rightarrow> string option \<Rightarrow> file_map \<Rightarrow> (string \<times> file_map) error_or option" where
  "writeFileUnderLock parentMsg attempt filePath content streamError fm =
     doLockedFileOperation filePath parentMsg attempt (\<lambda>_. writeFile filePath content streamError fm)"

definition readFileUnderLock ::
  "string \<Rightarrow> (nat \<Rightarrow> lock_attempt) \<Rightarrow> string \<Rightarrow> (string \<Rightarrow> 'r) \<Rightarrow> 'r error_or option" where
  "readFileUnderLock parentMsg attempt filePath reader =
     doLockedFileOperation filePath parentMsg attempt (\<lambda>_. Inr (reader filePath))"

definition appendFileUnderLock ::
  "string \<Rightarrow> (nat \<Rightarrow> lock_attempt) \<Rightarrow> string \<Rightarrow> string \<Rightarrow> string option \<Rightarrow> string option \<Rightarrow> file_map \<Rightarrow> file_map error_or option" where
  "appendFileUnderLock parentMsg attempt filePath content openError streamError fm =
     doLockedFileOperation filePath parentMsg attempt (\<lambda>_. appendFile filePath content openError streamError fm)"

section \<open>A directory on a search path\<close>

fun findDir :: "(string \<Rightarrow> string \<Rightarrow> string) \<Rightarrow> (string \<Rightarrow> bool) \<Rightarrow> (string \<Rightarrow> bool) \<Rightarrow> string \<Rightarrow> string list \<Rightarrow> string option" where
  "findDir path_app exists is_directory subdirName [] = None"
| "findDir path_app exists is_directory subdirName (dir # dirs) =
     (if dir = [] then findDir path_app exists is_directory subdirName dirs
      else
        let dirPath = path_app dir subdirName in
        if exists dirPath \<and> is_directory dirPath then Some dirPath
        else findDir path_app exists is_directory subdirName dirs)"

definition findDirInEnvPath ::
  "(string \<Rightarrow> string \<Rightarrow> string) \<Rightarrow> (string \<Rightarrow> bool) \<Rightarrow> (string \<Rightarrow> bool) \<Rightarrow> (string \<Rightarrow> string option) \<Rightarrow>
   string \<Rightarrow> string \<Rightarrow> char \<Rightarrow> string option" where
  "findDirInEnvPath path_app exists is_directory env subdirName variable separator =
     (case env variable of
        None \<Rightarrow> None
      | Some path \<Rightarrow> findDir path_app exists is_directory subdirName (split_keep separator path))"

section \<open>Temporary files\<close>

text \<open>
  The host: what stands at each path (a directory or a file with its contents), the descriptors the C runtime
  has given out, and those of them whose file is open in the system.  On POSIX systems a descriptor is the
  file of the system itself; on Windows it stands for a handle, and closing the handle keeps the descriptor.
\<close>

datatype fs_entry = Directory | RegularFile string

record temp_host =
  onWindows :: bool
  entries :: "string \<rightharpoonup> fs_entry"
  openFds :: "int set"
  openFiles :: "int set"

record temp_file =
  fd :: int
  tempPath :: string
  keepFile :: bool

text \<open>
  What the creation calls: the directory for temporary files, creating directories, and creating a file of a
  fresh name from a model.
\<close>

record temp_calls =
  is_relative :: "string \<Rightarrow> bool"
  slash :: "string \<Rightarrow> string \<Rightarrow> string"
  parent_path :: "string \<Rightarrow> string"
  temp_directory_path :: "string error_or"
  create_directories :: "string \<Rightarrow> temp_host \<Rightarrow> temp_host error_or"
  createUniqueFile :: "string \<Rightarrow> temp_host \<Rightarrow> (int \<times> string) error_or"

definition TempFile_create :: "temp_calls \<Rightarrow> string \<Rightarrow> temp_host \<Rightarrow> (temp_file \<times> temp_host) error_or" where
  "TempFile_create calls model h =
     bind_err
       (if is_relative calls model then bind_err (temp_directory_path calls) (\<lambda>dir. Inr (slash calls dir model))
        else Inr model)
       (\<lambda>path.
          bind_err (create_directories calls (parent_path calls path) h) (\<lambda>h.
            bind_err (createUniqueFile calls path h) (\<lambda>(d, outFilePath).
              Inr (\<lparr>fd = d, tempPath = outFilePath, keepFile = False\<rparr>,
                   h\<lparr>entries := (entries h)(outFilePath \<mapsto> RegularFile []), openFds := insert d (openFds h),
                     openFiles := insert d (openFiles h)\<rparr>))))"

text \<open>
  Moving clears the descriptor of the source.  Its path is left in a valid but unspecified state by the C++
  standard and empty by the three standard libraries in use, which is what the destructor of the source
  relies on: the path it removes has to name no file.
\<close>

definition TempFile_move :: "temp_file \<Rightarrow> temp_file \<times> temp_file" where
  "TempFile_move other = (\<lparr>fd = fd other, tempPath = tempPath other, keepFile = keepFile other\<rparr>,
     other\<lparr>fd := -1, tempPath := []\<rparr>)"

text \<open>\<^verbatim>\<open>convertFDToNativeFile\<close> and \<^verbatim>\<open>closeFile\<close>: the file of the system is closed, not the descriptor that stands for it.\<close>

definition closeNativeFile :: "int \<Rightarrow> temp_host \<Rightarrow> temp_host" where
  "closeNativeFile d h =
     (if onWindows h then h\<lparr>openFiles := openFiles h - {d}\<rparr>
      else h\<lparr>openFds := openFds h - {d}, openFiles := openFiles h - {d}\<rparr>)"

definition TempFile_close :: "temp_file \<Rightarrow> temp_host \<Rightarrow> temp_file \<times> temp_host" where
  "TempFile_close t h = (if fd t \<noteq> -1 then (t\<lparr>fd := -1\<rparr>, closeNativeFile (fd t) h) else (t, h))"

lemma closeNativeFile_frame [simp]:
  "entries (closeNativeFile d h) = entries h" "onWindows (closeNativeFile d h) = onWindows h"
  by (simp_all add: closeNativeFile_def)

text \<open>Removing an entry; the empty path names none.\<close>

definition removeEntry :: "string \<Rightarrow> temp_host \<Rightarrow> temp_host" where
  "removeEntry p h = (if p = [] then h else h\<lparr>entries := (entries h)(p := None)\<rparr>)"

definition TempFile_remove :: "temp_file \<Rightarrow> temp_host \<Rightarrow> temp_host" where
  "TempFile_remove t h = (if \<not> keepFile t then removeEntry (tempPath t) h else h)"

definition TempFile_destroy :: "temp_file \<Rightarrow> temp_host \<Rightarrow> temp_host" where
  "TempFile_destroy t h = (case TempFile_close t h of (t, h) \<Rightarrow> TempFile_remove t h)"

definition TempFile_getSize :: "temp_file \<Rightarrow> temp_host \<Rightarrow> nat error_or" where
  "TempFile_getSize t h =
     (case entries h (tempPath t) of
        Some (RegularFile c) \<Rightarrow> Inr (length c)
      | _ \<Rightarrow> Inl ''No such file or directory'')"

definition writeTempFile :: "temp_calls \<Rightarrow> string \<Rightarrow> string \<Rightarrow> temp_host \<Rightarrow> (temp_file \<times> temp_host) error_or" where
  "writeTempFile calls model buffer h =
     bind_err (temp_directory_path calls) (\<lambda>dir.
       bind_err (TempFile_create calls (slash calls dir model) h) (\<lambda>(tmpFile, h).
         case TempFile_close tmpFile (h\<lparr>entries := (entries h)(tempPath tmpFile \<mapsto> RegularFile buffer)\<rparr>) of
           (tmpFile, h) \<Rightarrow>
             (case TempFile_move tmpFile of (result, rest) \<Rightarrow> Inr (result, TempFile_destroy rest h))))"

record temp_dir =
  dirPath :: string
  keepDir :: bool

text \<open>
  A directory takes the name of a temporary file that is created and removed; \<open>meanwhile\<close> is what other
  processes do between the two, and an existing directory is no error.
\<close>

definition TempDir_create ::
  "temp_calls \<Rightarrow> (temp_host \<Rightarrow> temp_host) \<Rightarrow> string \<Rightarrow> temp_host \<Rightarrow> (temp_dir \<times> temp_host) error_or" where
  "TempDir_create calls meanwhile model h =
     bind_err (TempFile_create calls model h) (\<lambda>(t, h).
       let dir = tempPath t; h = meanwhile (TempFile_destroy t h) in
       case entries h dir of
         None \<Rightarrow> Inr (\<lparr>dirPath = dir, keepDir = False\<rparr>, h\<lparr>entries := (entries h)(dir \<mapsto> Directory)\<rparr>)
       | Some Directory \<Rightarrow> Inr (\<lparr>dirPath = dir, keepDir = False\<rparr>, h)
       | Some (RegularFile _) \<Rightarrow> Inl ''File exists'')"

definition TempDir_move :: "temp_dir \<Rightarrow> temp_dir \<times> temp_dir" where
  "TempDir_move other = (\<lparr>dirPath = dirPath other, keepDir = False\<rparr>, other\<lparr>keepDir := True\<rparr>)"

text \<open>Removing the directory with everything in it.\<close>

definition TempDir_remove :: "temp_dir \<Rightarrow> temp_host \<Rightarrow> temp_host" where
  "TempDir_remove t h =
     (if \<not> keepDir t then
        h\<lparr>entries := (\<lambda>p. if p = dirPath t \<or> starts_with (dirPath t @ ''/'') p then None else entries h p)\<rparr>
      else h)"

section \<open>The lock loop ends\<close>

text \<open>How many of the attempts from \<open>i\<close> on find that the owner died.\<close>

definition deaths :: "(nat \<Rightarrow> lock_attempt) \<Rightarrow> nat \<Rightarrow> nat \<Rightarrow> nat" where
  "deaths attempt i n = length (filter (\<lambda>j. attempt j = NotOwned OwnerDied) [i..<i + n])"

definition settles :: "lock_attempt \<Rightarrow> bool" where
  "settles a \<longleftrightarrow> (case a of LockError _ _ \<Rightarrow> False | Owned \<Rightarrow> True | NotOwned w \<Rightarrow> w \<noteq> OwnerDied)"

lemma deaths_Suc: "deaths attempt i (Suc n) = (if attempt i = NotOwned OwnerDied then 1 else 0) + deaths attempt (Suc i) n"
  by (simp add: deaths_def upt_conv_Cons del: upt_Suc)

lemma lockLoop_returns:
  assumes "deaths attempt i n + (kLockMaxRetriesOnError + 2 - retries) \<le> n" "retries \<le> kLockMaxRetriesOnError + 1"
  shows "\<exists>r. lockLoop filePath parentMsg attempt callable i retries = Some r"
  using assms
proof (induction n arbitrary: i retries)
  case 0
  then show ?case by simp
next
  case (Suc n)
  show ?case
  proof (cases "attempt i")
    case (LockError e codes)
    show ?thesis
    proof (cases "kLockMaxRetriesOnError < retries")
      case False
      then have "\<exists>r. lockLoop filePath parentMsg attempt callable (Suc i) (retries + 1) = Some r"
        using Suc.prems LockError by (intro Suc.IH) (auto simp: deaths_Suc)
      then show ?thesis using False LockError by (subst lockLoop.simps) simp
    qed (use LockError in \<open>subst lockLoop.simps, simp\<close>)
  next
    case Owned
    then show ?thesis by (subst lockLoop.simps) simp
  next
    case (NotOwned w)
    show ?thesis
    proof (cases w)
      case OwnerDied
      then have "\<exists>r. lockLoop filePath parentMsg attempt callable (Suc i) retries = Some r"
        using Suc.prems NotOwned by (intro Suc.IH) (auto simp: deaths_Suc)
      then show ?thesis using OwnerDied NotOwned by (subst lockLoop.simps) simp
    qed (use NotOwned in \<open>subst lockLoop.simps, simp\<close>)+
  qed
qed

text \<open>Owners that die for ever keep it from ending.\<close>

lemma locked_operation_endless:
  assumes "\<forall>i. attempt i = NotOwned OwnerDied"
  shows "doLockedFileOperation f m attempt callable = None"
proof (cases "lockLoop f m attempt callable 0 0")
  case (Some r)
  have "\<not> (\<forall>i. attempt i = NotOwned OwnerDied)"
    by (rule lockLoop.raw_induct [where P = "\<lambda>f m attempt callable i retries r. \<not> (\<forall>i. attempt i = NotOwned OwnerDied)",
          OF _ Some]) (auto split: lock_attempt.splits wait_result.splits; metis lock_attempt.simps wait_result.simps)
  then show ?thesis using assms by simp
qed (simp add: doLockedFileOperation_def)

text \<open>
  What the loop answers: the first attempt that settles decides, unless the errors before it are too many.
\<close>

lemma lockLoop_settled:
  assumes "settles (attempt (i + k))" "\<forall>j < k. \<not> settles (attempt (i + j))"
    and "retries + length (filter (\<lambda>j. attempt j \<noteq> NotOwned OwnerDied) [i..<i + k]) \<le> kLockMaxRetriesOnError + 1"
  shows "lockLoop f m attempt callable i retries =
    Some (case attempt (i + k) of
      Owned \<Rightarrow> callable True
    | NotOwned w \<Rightarrow> if w = Success then callable False else Inl (''timed out waiting for lock file for '' @ [CHR 0x27] @ f @ [CHR 0x27]))"
  using assms
proof (induction k arbitrary: i retries)
  case 0
  then show ?case by (subst lockLoop.simps) (auto simp: settles_def split: lock_attempt.splits wait_result.splits)
next
  case (Suc k)
  have here: "\<not> settles (attempt i)" using Suc.prems(2) by (metis add_0_right zero_less_Suc)
  have rest: "settles (attempt (Suc i + k))" "\<forall>j < k. \<not> settles (attempt (Suc i + j))"
    using Suc.prems(1,2) by auto
  have "[i..<i + Suc k] = i # [Suc i..<Suc i + k]" by (simp add: upt_conv_Cons del: upt_Suc)
  then have le: "retries + length (filter (\<lambda>j. attempt j \<noteq> NotOwned OwnerDied) (i # [Suc i..<Suc i + k])) \<le> kLockMaxRetriesOnError + 1"
    using Suc.prems(3) by presburger
  show ?case
  proof (cases "attempt i")
    case (LockError e codes)
    then have "lockLoop f m attempt callable i retries = lockLoop f m attempt callable (Suc i) (retries + 1)"
      using le by (subst lockLoop.simps) simp
    then show ?thesis using Suc.IH [OF rest, of "retries + 1"] le LockError by simp
  next
    case (NotOwned w)
    then have w: "w = OwnerDied" using here by (simp add: settles_def)
    then have "lockLoop f m attempt callable i retries = lockLoop f m attempt callable (Suc i) retries"
      using NotOwned by (subst lockLoop.simps) simp
    then show ?thesis using Suc.IH [OF rest, of retries] le NotOwned w by simp
  qed (use here in \<open>simp add: settles_def\<close>)
qed

text \<open>Too many errors before that: the loop gives up with the one after \<open>kLockMaxRetriesOnError + 1\<close> others.\<close>

definition errors_before :: "(nat \<Rightarrow> lock_attempt) \<Rightarrow> nat \<Rightarrow> nat" where
  "errors_before attempt k = length (filter (\<lambda>j. \<exists>e c. attempt j = LockError e c) [0..<k])"

lemma lockLoop_gives_up:
  assumes "attempt (i + k) = LockError err ecMsg" "\<forall>j < k. \<not> settles (attempt (i + j))"
    and "retries + length (filter (\<lambda>j. attempt j \<noteq> NotOwned OwnerDied) [i..<i + k]) = kLockMaxRetriesOnError + 1"
  shows "lockLoop f m attempt callable i retries =
    Some (Inl (''unable to take lock file for '' @ [CHR 0x27] @ f @ [CHR 0x27] @ '': '' @ err @ '' '' @ ecMsg @ m))"
  using assms
proof (induction k arbitrary: i retries)
  case 0
  then show ?case by (subst lockLoop.simps) simp
next
  case (Suc k)
  have here: "\<not> settles (attempt i)" using Suc.prems(2) by (metis add_0_right zero_less_Suc)
  have rest: "attempt (Suc i + k) = LockError err ecMsg" "\<forall>j < k. \<not> settles (attempt (Suc i + j))"
    using Suc.prems(1,2) by auto
  have "[i..<i + Suc k] = i # [Suc i..<Suc i + k]" by (simp add: upt_conv_Cons del: upt_Suc)
  then have le: "retries + length (filter (\<lambda>j. attempt j \<noteq> NotOwned OwnerDied) (i # [Suc i..<Suc i + k])) = kLockMaxRetriesOnError + 1"
    using Suc.prems(3) by presburger
  show ?case
  proof (cases "attempt i")
    case (LockError e codes)
    then have "lockLoop f m attempt callable i retries = lockLoop f m attempt callable (Suc i) (retries + 1)"
      using le by (subst lockLoop.simps) simp
    then show ?thesis using Suc.IH [OF rest, of "retries + 1"] le LockError by simp
  next
    case (NotOwned w)
    then have w: "w = OwnerDied" using here by (simp add: settles_def)
    then have "lockLoop f m attempt callable i retries = lockLoop f m attempt callable (Suc i) retries"
      using NotOwned by (subst lockLoop.simps) simp
    then show ?thesis using Suc.IH [OF rest, of retries] le NotOwned w by simp
  qed (use here in \<open>simp add: settles_def\<close>)
qed

lemma errors_before_unsettled:
  assumes "\<forall>j < k. \<not> settles (attempt j)"
  shows "length (filter (\<lambda>j. attempt j \<noteq> NotOwned OwnerDied) [0..<k]) = errors_before attempt k"
proof -
  have "attempt j \<noteq> NotOwned OwnerDied \<longleftrightarrow> (\<exists>e c. attempt j = LockError e c)" if "j < k" for j
    using assms that by (cases "attempt j") (auto simp: settles_def)
  then have "filter (\<lambda>j. attempt j \<noteq> NotOwned OwnerDied) [0..<k] = filter (\<lambda>j. \<exists>e c. attempt j = LockError e c) [0..<k]"
    by (intro filter_cong) auto
  then show ?thesis by (simp add: errors_before_def)
qed

text \<open>
  C31. What an operation under a lock answers, for any sequence of attempts: when the first attempts are
  errors or found the owner dead and the next one is of another kind, with at most 1001 errors before it,
  that attempt decides: an owned lock runs the operation, a lock another process released runs it without
  owning the lock, and a wait of 90 seconds is the error.  At the 1002nd error it gives up with that error.
  An error is so retried 1001 times, one more than the constant of 1000 says; a dead owner is
  retried without limit and not counted.
\<close>

theorem locked_operation_exact:
  assumes "\<forall>j < k. (\<exists>e c. attempt j = LockError e c) \<or> attempt j = NotOwned OwnerDied"
  shows
    "errors_before attempt k \<le> 1001 \<Longrightarrow>
       (attempt k = Owned \<longrightarrow> doLockedFileOperation f m attempt callable = Some (callable True)) \<and>
       (attempt k = NotOwned Success \<longrightarrow> doLockedFileOperation f m attempt callable = Some (callable False)) \<and>
       (attempt k = NotOwned Timeout \<longrightarrow> doLockedFileOperation f m attempt callable =
          Some (Inl (''timed out waiting for lock file for '' @ [CHR 0x27] @ f @ [CHR 0x27]))) \<and>
       (errors_before attempt k = 1001 \<and> attempt k = LockError err ecMsg \<longrightarrow>
          doLockedFileOperation f m attempt callable =
            Some (Inl (''unable to take lock file for '' @ [CHR 0x27] @ f @ [CHR 0x27] @ '': '' @ err @ '' '' @ ecMsg @ m)))"
proof -
  assume le: "errors_before attempt k \<le> 1001"
  have uns: "\<forall>j < k. \<not> settles (attempt j)" using assms by (fastforce simp: settles_def)
  have eq: "length (filter (\<lambda>j. attempt j \<noteq> NotOwned OwnerDied) [0..<0 + k]) = errors_before attempt k"
    using errors_before_unsettled [OF uns] by simp
  have settled: "doLockedFileOperation f m attempt callable =
      Some (case attempt k of Owned \<Rightarrow> callable True
        | NotOwned w \<Rightarrow> if w = Success then callable False else Inl (''timed out waiting for lock file for '' @ [CHR 0x27] @ f @ [CHR 0x27]))"
    if "settles (attempt k)"
    using lockLoop_settled [of attempt 0 k 0] that uns eq le
    by (simp add: doLockedFileOperation_def kLockMaxRetriesOnError_def)
  have given_up: "doLockedFileOperation f m attempt callable =
      Some (Inl (''unable to take lock file for '' @ [CHR 0x27] @ f @ [CHR 0x27] @ '': '' @ err @ '' '' @ ecMsg @ m))"
    if "errors_before attempt k = 1001" "attempt k = LockError err ecMsg"
    using lockLoop_gives_up [of attempt 0 k err ecMsg 0] that uns eq
    by (simp add: doLockedFileOperation_def kLockMaxRetriesOnError_def)
  show ?thesis using settled given_up by (auto simp: settles_def)
qed

theorem locked_operation_exact_witness:
  "doLockedFileOperation ''f'' ''p'' (\<lambda>i. if i < 1001 then LockError ''busy'' ''11'' else Owned) (\<lambda>own. Inr own) = Some (Inr True) \<and>
   doLockedFileOperation ''f'' ''p'' (\<lambda>i. if i < 1001 then LockError ''busy'' ''11'' else LockError ''last'' ''12'') (\<lambda>own. Inr own) =
     Some (Inl (''unable to take lock file for '' @ [CHR 0x27] @ ''f'' @ [CHR 0x27] @ '': last 12p''))"
proof
  let ?a = "\<lambda>i :: nat. if i < 1001 then LockError ''busy'' ''11'' else Owned"
  have "filter (\<lambda>j. \<exists>e c. ?a j = LockError e c) [0..<1001] = [0..<1001]" by (rule filter_True) auto
  then have "errors_before ?a 1001 = 1001" by (simp add: errors_before_def)
  then show "doLockedFileOperation ''f'' ''p'' ?a (\<lambda>own. Inr own) = Some (Inr True)"
    using locked_operation_exact [of 1001 ?a "''f''" "''p''" "\<lambda>own. Inr own"] by auto
next
  let ?a = "\<lambda>i :: nat. if i < 1001 then LockError ''busy'' ''11'' else LockError ''last'' ''12''"
  have "filter (\<lambda>j. \<exists>e c. ?a j = LockError e c) [0..<1001] = [0..<1001]" by (rule filter_True) auto
  then have "errors_before ?a 1001 = 1001" by (simp add: errors_before_def)
  then show "doLockedFileOperation ''f'' ''p'' ?a (\<lambda>own. Inr own) =
     Some (Inl (''unable to take lock file for '' @ [CHR 0x27] @ ''f'' @ [CHR 0x27] @ '': last 12p''))"
    using locked_operation_exact [of 1001 ?a "''f''" "''p''" "\<lambda>own. Inr own" "''last''" "''12''"] by auto
qed

section \<open>A directory on a search path\<close>

text \<open>The first candidate that is a directory, of the parts of the variable that are not empty.\<close>

lemma findDir_find:
  "findDir path_app exists is_directory sub dirs =
     find (\<lambda>d. exists d \<and> is_directory d) (map (\<lambda>dir. path_app dir sub) (filter (\<lambda>dir. dir \<noteq> []) dirs))"
  by (induction dirs) (auto simp: Let_def)

section \<open>Temporary files are released\<close>

datatype temp_op = CloseOp | MoveOp

text \<open>Closing a handle, or moving it on and destroying the source.\<close>

fun runOps :: "temp_op list \<Rightarrow> temp_file \<Rightarrow> temp_host \<Rightarrow> temp_file \<times> temp_host" where
  "runOps [] t h = (t, h)"
| "runOps (CloseOp # ops) t h = (case TempFile_close t h of (t, h) \<Rightarrow> runOps ops t h)"
| "runOps (MoveOp # ops) t h = (case TempFile_move t of (t, old) \<Rightarrow> runOps ops t (TempFile_destroy old h))"

lemmas temp_defs = TempFile_close_def TempFile_move_def TempFile_destroy_def TempFile_remove_def removeEntry_def

lemma moved_from_destroy: "fst (TempFile_move t) = t \<and> TempFile_destroy (snd (TempFile_move t)) h = h"
  by (cases t) (simp add: temp_defs)

text \<open>Every step leaves the entry in place and the file open or closed for good.\<close>

definition created_host :: "int \<Rightarrow> string \<Rightarrow> temp_host \<Rightarrow> temp_host" where
  "created_host d out h =
     h\<lparr>entries := (entries h)(out \<mapsto> RegularFile []), openFds := insert d (openFds h), openFiles := insert d (openFiles h)\<rparr>"

definition temp_live :: "temp_host \<Rightarrow> int \<Rightarrow> string \<Rightarrow> temp_file \<Rightarrow> temp_host \<Rightarrow> bool" where
  "temp_live h1 d out t h \<longleftrightarrow> tempPath t = out \<and> \<not> keepFile t \<and>
     (fd t = d \<and> h = created_host d out h1 \<or> fd t = -1 \<and> h = closeNativeFile d (created_host d out h1))"

lemma runOps_live:
  assumes "d \<noteq> -1"
  shows "temp_live h1 d out t h \<Longrightarrow> temp_live h1 d out (fst (runOps ops t h)) (snd (runOps ops t h))"
proof (induction ops t h rule: runOps.induct)
  case (2 ops t h)
  obtain t' h' where c: "TempFile_close t h = (t', h')" by fastforce
  then have "temp_live h1 d out t' h'" using 2(2) assms by (auto simp: temp_live_def TempFile_close_def split: if_splits)
  then show ?case using 2 c by simp
next
  case (3 ops t h)
  obtain t' old where m: "TempFile_move t = (t', old)" by fastforce
  then show ?case using 3 moved_from_destroy [of t h] by simp
qed simp

text \<open>
  However a temporary file is closed and moved, destroying the last handle removes the file and closes it
  in the system; the descriptor is given back on POSIX systems and stays taken on Windows.
\<close>

lemma temp_file_released:
  assumes created: "TempFile_create calls model h = Inr (t, h')"
    and host: "create_directories calls (parent_path calls path) h = Inr h1"
      "createUniqueFile calls path h1 = Inr (d, out)"
      "path = (if is_relative calls model then slash calls (case temp_directory_path calls of Inr dir \<Rightarrow> dir) model else model)"
    and fresh: "d \<notin> openFds h1" "d \<notin> openFiles h1" "d \<noteq> -1" "entries h1 out = None" "out \<noteq> []"
  shows "TempFile_destroy (fst (runOps ops t h')) (snd (runOps ops t h')) =
    h1\<lparr>openFds := if onWindows h1 then insert d (openFds h1) else openFds h1\<rparr>"
proof -
  have "temp_live h1 d out t h'"
    using created host fresh by (auto simp: TempFile_create_def bind_err_eq_Inr_iff temp_live_def created_host_def split: if_splits)
  then have "temp_live h1 d out (fst (runOps ops t h')) (snd (runOps ops t h'))" using runOps_live fresh(3) by blast
  moreover have "TempFile_destroy t2 h2 = h1\<lparr>openFds := if onWindows h1 then insert d (openFds h1) else openFds h1\<rparr>"
    if "temp_live h1 d out t2 h2" for t2 h2
    using that fresh by (auto simp: temp_live_def temp_defs created_host_def closeNativeFile_def fun_upd_idem)
  ultimately show ?thesis by blast
qed

definition plain_calls :: temp_calls where
  "plain_calls = \<lparr>is_relative = (\<lambda>m. \<not> starts_with ''/'' m), slash = (\<lambda>a b. a @ ''/'' @ b), parent_path = (\<lambda>_. ''/tmp''),
     temp_directory_path = Inr ''/tmp'', create_directories = (\<lambda>p h. Inr h),
     createUniqueFile = (\<lambda>p h. Inr (3, p))\<rparr>"

definition empty_host :: temp_host where
  "empty_host = \<lparr>onWindows = False, entries = Map.empty, openFds = {}, openFiles = {}\<rparr>"

text \<open>A written temporary file holds the buffer and is closed.\<close>

lemma write_temp_file_contents:
  "writeTempFile calls model buffer h = Inr (t, h') \<Longrightarrow>
     entries h' (tempPath t) = Some (RegularFile buffer) \<and> TempFile_getSize t h' = Inr (length buffer) \<and> fd t = -1"
proof -
  assume "writeTempFile calls model buffer h = Inr (t, h')"
  then obtain t1 h1 where
    "t = fst (TempFile_move (fst (TempFile_close t1 (h1\<lparr>entries := (entries h1)(tempPath t1 \<mapsto> RegularFile buffer)\<rparr>))))"
    "h' = TempFile_destroy (snd (TempFile_move (fst (TempFile_close t1 (h1\<lparr>entries := (entries h1)(tempPath t1 \<mapsto> RegularFile buffer)\<rparr>)))))
        (snd (TempFile_close t1 (h1\<lparr>entries := (entries h1)(tempPath t1 \<mapsto> RegularFile buffer)\<rparr>)))"
    by (auto simp: writeTempFile_def bind_err_eq_Inr_iff case_prod_beta)
  then show ?thesis by (simp add: moved_from_destroy TempFile_close_def TempFile_getSize_def)
qed

text \<open>
  Between the removal of the temporary file and the creation of the directory another process can create a
  directory of that name: the creation reports success and the destructor removes what is not its own.
\<close>

lemma temp_dir_not_fresh:
  "\<exists>t h. TempDir_create plain_calls (\<lambda>h. h\<lparr>entries := (entries h)(''/tmp/x'' \<mapsto> Directory, ''/tmp/x/y'' \<mapsto> RegularFile ''data'')\<rparr>)
       ''x'' empty_host = Inr (t, h) \<and>
     entries h ''/tmp/x/y'' = Some (RegularFile ''data'') \<and> entries (TempDir_remove t h) ''/tmp/x/y'' = None"
  by (simp add: TempDir_create_def TempFile_create_def plain_calls_def empty_host_def starts_with_def temp_defs
      TempDir_remove_def Let_def)

end
