(* ===== verification/Closure_Lowering.thy ===== *)
theory Closure_Lowering
  imports Type_Conversion Text_Numbers
begin

text \<open>
  The lowering of runtime closures (\<^verbatim>\<open>Mojo/lib/KGENToLLVM/LowerKGENClosuresToLLVM.cpp\<close>): a closure
  becomes a pair of a wrapper function and a stack object with the captured values, and an indirect call
  unpacks the pair.  The symbol table, the packing of several results and the C ABI call helper belong to
  libraries and are parameters.  The emitted code has a semantics over objects with a lifetime.
\<close>

section \<open>Emitted code\<close>

type_synonym reg = nat

type_synonym fn_type = "ll_type list \<times> ll_type"

datatype cl_op =
    Undef ll_type
  | AddressOf string
  | InsertValue reg reg nat
  | ExtractValue reg nat
  | ConstOne
  | Alloca ll_type reg
  | LifetimeStart reg
  | LifetimeEnd reg
  | GEP ll_type reg nat
  | Load ll_type reg
  | Store ll_type reg reg
  | CallSymbol string "reg list"
  | CallPointer fn_type "reg list" bool
  | Return "reg list"
  | Other string "reg list"

type_synonym cl_inst = "reg option \<times> cl_op"

record wrapper_fn =
  wrapperName :: string
  wrapperType :: fn_type
  wrapperBody :: "cl_inst list"

text \<open>
  A closure creation: the callee symbol (none when it is nested), the callee's inputs and results, the
  captured values, and whether the closure type captures.
\<close>

record create_closure =
  closureCallee :: "string option"
  calleeInputs :: "kg_type list"
  calleeResults :: "kg_type list"
  closureCaptures :: "(reg \<times> kg_type) list"
  closureCapturing :: bool
  closureResult :: reg

fun convertAll :: "conv_env \<Rightarrow> kg_type list \<Rightarrow> ll_type list option" where
  "convertAll e [] = Some []"
| "convertAll e (t # ts) = do { u \<leftarrow> convertType e t; us \<leftarrow> convertAll e ts; Some (u # us) }"

section \<open>Types of a closure\<close>

record closure_types =
  boundArgTypes :: "ll_type list"
  liftedFunctionCaptureType :: ll_type
  unpackingFunctionAndCapturesType :: ll_type

definition createClosureTypes :: "conv_env \<Rightarrow> create_closure \<Rightarrow> closure_types option" where
  "createClosureTypes e op =
     do {
       bound \<leftarrow> convertAll e (map snd (closureCaptures op));
       Some \<lparr>boundArgTypes = bound, liftedFunctionCaptureType = LStruct bound,
             unpackingFunctionAndCapturesType = LStruct [LPtr 0, LPtr 0]\<rparr>
     }"

section \<open>The wrapper function\<close>

text \<open>
  The outer option is undefined behaviour: a result type that cannot be packed, or fewer inputs than
  captures.  The inner one is the null function of a failed conversion.
\<close>

definition generateWrapperFunction ::
  "conv_env \<Rightarrow> (kg_type list \<Rightarrow> ll_type option) \<Rightarrow> create_closure \<Rightarrow> nat \<Rightarrow> wrapper_fn option option" where
  "generateWrapperFunction e packFunctionResults op nameIndex =
     (case (if calleeResults op = [] then Some LVoid else packFunctionResults (calleeResults op)) of
        None \<Rightarrow> None
      | Some packedResTy \<Rightarrow>
          let captureCount = length (closureCaptures op) in
          if length (calleeInputs op) < captureCount then None
          else
            (case convertAll e (drop captureCount (calleeInputs op)) of
               None \<Rightarrow> Some None
             | Some ts \<Rightarrow>
                 Some (Some \<lparr>wrapperName = ''closure_wrapper_fn_'' @ natDigits nameIndex,
                   wrapperType = (LPtr 0 # ts, packedResTy), wrapperBody = []\<rparr>)))"

text \<open>The captured values, read from the object in argument 0.\<close>

fun loadCaptures :: "ll_type \<Rightarrow> ll_type list \<Rightarrow> nat \<Rightarrow> reg \<Rightarrow> cl_inst list \<times> reg list" where
  "loadCaptures env [] i n = ([], [])"
| "loadCaptures env (t # ts) i n =
     (case loadCaptures env ts (i + 1) (n + 2) of
        (is, vs) \<Rightarrow> ((Some n, GEP env 0 i) # (Some (n + 1), Load t n) # is, (n + 1) # vs))"

definition populateBodyOfWrapperFunction ::
  "(string \<Rightarrow> bool) \<Rightarrow> create_closure \<Rightarrow> closure_types \<Rightarrow> wrapper_fn \<Rightarrow> wrapper_fn error_or" where
  "populateBodyOfWrapperFunction isFunction op types w =
     (case closureCallee op of
        None \<Rightarrow> Inl ''cannot lower call to nested symbol to LLVM''
      | Some f \<Rightarrow>
          if \<not> isFunction f then Inl ''Callee does not reference llvm function''
          else
            let numArgs = length (fst (wrapperType w));
                numberDynamicArgs = length (calleeInputs op) - length (closureCaptures op);
                (loads, captured) = loadCaptures (liftedFunctionCaptureType types) (boundArgTypes types) 0 numArgs;
                r = numArgs + 2 * length captured;
                args = captured @ [1..<numberDynamicArgs + 1]
            in Inr (w\<lparr>wrapperBody :=
                 loads @
                 (if snd (wrapperType w) = LVoid then [(None, CallSymbol f args), (None, Return [])]
                  else [(Some r, CallSymbol f args), (None, Return [r])])\<rparr>))"

section \<open>The closure\<close>

fun storeCaptures :: "ll_type \<Rightarrow> reg \<Rightarrow> (reg \<times> ll_type) list \<Rightarrow> nat \<Rightarrow> reg \<Rightarrow> cl_inst list" where
  "storeCaptures env p [] i n = []"
| "storeCaptures env p ((v, t) # vs) i n =
     (Some n, GEP env p i) # (None, Store t v n) # storeCaptures env p vs (i + 1) (n + 1)"

text \<open>The code in place of the creation, and the register of the object; new registers count from \<open>n\<close>.\<close>

definition generateClosureStruct :: "create_closure \<Rightarrow> string \<Rightarrow> closure_types \<Rightarrow> reg \<Rightarrow> cl_inst list \<times> reg" where
  "generateClosureStruct op name types n =
     (let env = liftedFunctionCaptureType types in
      ([(Some n, Undef (unpackingFunctionAndCapturesType types)),
        (Some (n + 1), AddressOf name),
        (Some (n + 2), InsertValue n (n + 1) 0),
        (Some (n + 3), ConstOne),
        (Some (n + 4), Alloca env (n + 3)),
        (None, LifetimeStart (n + 4))] @
       storeCaptures env (n + 4) (zip (map fst (closureCaptures op)) (boundArgTypes types)) 0 (n + 5) @
       [(Some (closureResult op), InsertValue (n + 2) (n + 4) 1)],
       n + 4))"

text \<open>What lies before and after the creation in its block; the lifetime ends before the last operation.\<close>

definition replaceInBlock :: "cl_inst list \<Rightarrow> cl_inst list \<Rightarrow> reg \<Rightarrow> cl_inst list \<Rightarrow> cl_inst list" where
  "replaceInBlock before code envStruct after =
     (let ops = before @ code @ after in butlast ops @ [(None, LifetimeEnd envStruct), last ops])"

record lowering_state =
  symbols :: "string set"
  wrappers :: "string \<rightharpoonup> wrapper_fn"
  nameCounter :: nat

text \<open>
  A closure without captures is the address of the callee.  Otherwise the wrapper enters the symbol table,
  which gives it a name that is not taken; a null wrapper is undefined there.  An error fails the conversion
  of the whole module, so the symbol and the number a failed rewrite has used up are not part of its answer.
\<close>

definition CreateClosure_matchAndRewrite ::
  "conv_env \<Rightarrow> (kg_type list \<Rightarrow> ll_type option) \<Rightarrow> (string set \<Rightarrow> string \<Rightarrow> string) \<Rightarrow> (string \<Rightarrow> bool) \<Rightarrow>
   create_closure \<Rightarrow> reg \<Rightarrow> cl_inst list \<Rightarrow> cl_inst list \<Rightarrow> lowering_state \<Rightarrow>
   (cl_inst list \<times> lowering_state) error_or option" where
  "CreateClosure_matchAndRewrite e packFunctionResults uniquer isFunction op n before after st =
     (if \<not> closureCapturing op \<and> closureCaptures op = [] then
        (case closureCallee op of
           None \<Rightarrow> None
         | Some f \<Rightarrow> Some (Inr (before @ [(Some (closureResult op), AddressOf f)] @ after, st)))
      else
        (case generateWrapperFunction e packFunctionResults op (nameCounter st) of
           None \<Rightarrow> None
         | Some None \<Rightarrow> None
         | Some (Some w) \<Rightarrow>
             let name = uniquer (symbols st) (wrapperName w); w = w\<lparr>wrapperName := name\<rparr> in
             (case createClosureTypes e op of
                None \<Rightarrow> Some (Inl ''failed to convert kgen types to llvm closure types'')
              | Some types \<Rightarrow>
                  Some (bind_err (populateBodyOfWrapperFunction isFunction op types w) (\<lambda>w.
                    case generateClosureStruct op name types n of
                      (code, envStruct) \<Rightarrow>
                        Inr (replaceInBlock before code envStruct after,
                             \<lparr>symbols = insert name (symbols st), wrappers = (wrappers st)(name \<mapsto> w),
                              nameCounter = nameCounter st + 1\<rparr>))))))"

section \<open>Indirect calls\<close>

text \<open>What the callee's type is: a C function pointer, a capturing closure, or a plain function.\<close>

datatype callee_kind = CABIFnPtr | CapturingClosure | PlainFn

record call_indirect =
  callKind :: callee_kind
  calleeReg :: reg
  callArgs :: "(reg \<times> ll_type) list"
  closureInputs :: "kg_type list"
  callResults :: "(reg \<times> kg_type) list"
  tailKind :: bool

text \<open>
  The C ABI helper: the code before the call, the type and the operands of the call, whether the result
  comes through memory, and the code and register of the converted result.
\<close>

record cabi_prep =
  prepCode :: "cl_inst list"
  prepSignature :: fn_type
  prepArgs :: "reg list"
  prepUsesSRet :: bool
  prepExtract :: "reg option \<Rightarrow> cl_inst list"

type_synonym cabi_helper = "(reg \<times> ll_type) list \<Rightarrow> ll_type option \<Rightarrow> reg \<Rightarrow> cabi_prep"

definition unpackResults :: "(reg \<times> kg_type) list \<Rightarrow> reg \<Rightarrow> cl_inst list" where
  "unpackResults results r = map (\<lambda>(i, v, t). (Some v, ExtractValue r i)) (enumerate 0 results)"

text \<open>A call, its result in the register of the only result or in a new one to unpack.\<close>

definition callAndUnpack :: "call_indirect \<Rightarrow> reg \<Rightarrow> cl_op \<Rightarrow> cl_inst list" where
  "callAndUnpack op n call =
     (case callResults op of
        [] \<Rightarrow> [(None, call)]
      | [(v, t)] \<Rightarrow> [(Some v, call)]
      | results \<Rightarrow> (Some n, call) # unpackResults results n)"

definition CallIndirect_matchAndRewrite ::
  "conv_env \<Rightarrow> (kg_type list \<Rightarrow> ll_type option) \<Rightarrow> cabi_helper \<Rightarrow> call_indirect \<Rightarrow> reg \<Rightarrow> cl_inst list error_or" where
  "CallIndirect_matchAndRewrite e packFunctionResults cabi op n =
     (case (if callResults op = [] then Some LVoid else packFunctionResults (map snd (callResults op))) of
        None \<Rightarrow> Inl ''failed to convert call result type''
      | Some resultType \<Rightarrow>
          (case callKind op of
             CABIFnPtr \<Rightarrow>
               let origRetTy = (if callResults op = [] then None else Some resultType);
                   prep = cabi (callArgs op) origRetTy n;
                   call = CallPointer (prepSignature prep) (calleeReg op # prepArgs prep) (\<not> prepUsesSRet prep \<and> tailKind op)
               in Inr (prepCode prep @
                    (if callResults op = [] then [(None, call)]
                     else if prepUsesSRet prep then (None, call) # prepExtract prep None
                     else (Some n, call) # prepExtract prep (Some n)))
           | CapturingClosure \<Rightarrow>
               (case convertAll e (closureInputs op) of
                  None \<Rightarrow> Inl ''could not convert argument type''
                | Some ts \<Rightarrow>
                    Inr ([(Some n, ExtractValue (calleeReg op) 0), (Some (n + 1), ExtractValue (calleeReg op) 1)] @
                      callAndUnpack op (n + 2)
                        (CallPointer (LPtr 0 # ts, resultType) (n # (n + 1) # map fst (callArgs op)) (tailKind op))))
           | PlainFn \<Rightarrow>
               Inr (callAndUnpack op n
                 (CallPointer (map snd (callArgs op), resultType) (calleeReg op # map fst (callArgs op)) (tailKind op)))))"

section \<open>What the code does\<close>

text \<open>
  Values: scalars, function addresses, addresses inside an object, and structs with undefined members.  An
  object has a size, is alive or not, and holds values in its byte ranges; a store removes what it overlaps.
\<close>

datatype cval = Scalar "nat list" | FnAddr string | ObjAddr nat nat | Struct "cval option list"

record cobj =
  objSize :: nat
  objLive :: bool
  objCells :: "(nat \<times> nat \<times> cval) list"

type_synonym cheap = "nat \<rightharpoonup> cobj"

record cmachine =
  cregs :: "reg \<rightharpoonup> cval"
  cobjs :: cheap

definition overlaps :: "nat \<Rightarrow> nat \<Rightarrow> nat \<times> nat \<times> cval \<Rightarrow> bool" where
  "overlaps off n c \<longleftrightarrow> (case c of (off', n', _) \<Rightarrow> off < off' + n' \<and> off' < off + n)"

definition storeIn :: "nat \<Rightarrow> nat \<Rightarrow> cval \<Rightarrow> cobj \<Rightarrow> cobj option" where
  "storeIn off n v ob =
     (if objLive ob \<and> off + n \<le> objSize ob
      then Some (ob\<lparr>objCells := (off, n, v) # filter (\<lambda>c. \<not> overlaps off n c) (objCells ob)\<rparr>) else None)"

text \<open>A load of a range gives what was stored in exactly that range; an empty range holds the empty value.\<close>

definition loadFrom :: "nat \<Rightarrow> nat \<Rightarrow> cobj \<Rightarrow> cval option" where
  "loadFrom off n ob =
     (if objLive ob \<and> off + n \<le> objSize ob then
        (if n = 0 then Some (Scalar [])
         else map_option (\<lambda>(_, _, v). v) (find (\<lambda>(off', n', _). off' = off \<and> n' = n) (objCells ob)))
      else None)"

definition setR :: "reg \<Rightarrow> cval \<Rightarrow> cmachine \<Rightarrow> cmachine" where
  "setR r v m = m\<lparr>cregs := (cregs m)(r \<mapsto> v)\<rparr>"

definition setLive :: "bool \<Rightarrow> reg \<Rightarrow> cmachine \<Rightarrow> cmachine option" where
  "setLive l p m =
     (case cregs m p of
        Some (ObjAddr b off) \<Rightarrow>
          (case cobjs m b of
             Some ob \<Rightarrow> if off = 0 then Some (m\<lparr>cobjs := (cobjs m)(b \<mapsto> ob\<lparr>objLive := l\<rparr>)\<rparr>) else None
           | None \<Rightarrow> None)
      | _ \<Rightarrow> None)"

text \<open>Operations other than calls; a new object takes the name \<open>fresh\<close> of its heap.\<close>

fun stepOp :: "target_layout \<Rightarrow> (cheap \<Rightarrow> nat) \<Rightarrow> cl_inst \<Rightarrow> cmachine \<Rightarrow> cmachine option" where
  "stepOp dl fresh (Some r, Undef (LStruct ts)) m = Some (setR r (Struct (replicate (length ts) None)) m)"
| "stepOp dl fresh (Some r, AddressOf f) m = Some (setR r (FnAddr f) m)"
| "stepOp dl fresh (Some r, InsertValue s v i) m =
     (case (cregs m s, cregs m v) of
        (Some (Struct xs), Some x) \<Rightarrow> if i < length xs then Some (setR r (Struct (xs[i := Some x])) m) else None
      | _ \<Rightarrow> None)"
| "stepOp dl fresh (Some r, ExtractValue s i) m =
     (case cregs m s of
        Some (Struct xs) \<Rightarrow>
          if i < length xs then (case xs ! i of Some x \<Rightarrow> Some (setR r x m) | None \<Rightarrow> None) else None
      | _ \<Rightarrow> None)"
| "stepOp dl fresh (Some r, ConstOne) m = Some (setR r (Scalar [1]) m)"
| "stepOp dl fresh (Some r, Alloca t c) m =
     (case getTypeAllocSize dl t of
        Some n \<Rightarrow>
          Some (setR r (ObjAddr (fresh (cobjs m)) 0)
            (m\<lparr>cobjs := (cobjs m)(fresh (cobjs m) \<mapsto> \<lparr>objSize = n, objLive = False, objCells = []\<rparr>)\<rparr>))
      | None \<Rightarrow> None)"
| "stepOp dl fresh (None, LifetimeStart p) m = setLive True p m"
| "stepOp dl fresh (None, LifetimeEnd p) m = setLive False p m"
| "stepOp dl fresh (Some r, GEP (LStruct ts) p i) m =
     (case (cregs m p, fieldOffsets dl ts 0) of
        (Some (ObjAddr b off), Some os) \<Rightarrow> if i < length os then Some (setR r (ObjAddr b (off + os ! i)) m) else None
      | _ \<Rightarrow> None)"
| "stepOp dl fresh (Some r, Load t p) m =
     (case (cregs m p, getTypeStoreSize dl t) of
        (Some (ObjAddr b off), Some n) \<Rightarrow>
          (case cobjs m b of
             Some ob \<Rightarrow> (case loadFrom off n ob of Some v \<Rightarrow> Some (setR r v m) | None \<Rightarrow> None)
           | None \<Rightarrow> None)
      | _ \<Rightarrow> None)"
| "stepOp dl fresh (None, Store t v p) m =
     (case (cregs m v, cregs m p, getTypeStoreSize dl t) of
        (Some x, Some (ObjAddr b off), Some n) \<Rightarrow>
          (case cobjs m b of
             Some ob \<Rightarrow> (case storeIn off n x ob of Some ob' \<Rightarrow> Some (m\<lparr>cobjs := (cobjs m)(b \<mapsto> ob')\<rparr>) | None \<Rightarrow> None)
           | None \<Rightarrow> None)
      | _ \<Rightarrow> None)"
| "stepOp dl fresh _ m = None"

fun readRegs :: "cmachine \<Rightarrow> reg list \<Rightarrow> cval list option" where
  "readRegs m [] = Some []"
| "readRegs m (r # rs) = (case (cregs m r, readRegs m rs) of (Some v, Some vs) \<Rightarrow> Some (v # vs) | _ \<Rightarrow> None)"

text \<open>
  The functions of the program take their arguments and the heap and give their results, packed into at most
  one value, and the heap.
\<close>

type_synonym fn_sem = "string \<Rightarrow> cval list \<Rightarrow> cheap \<Rightarrow> (cval option \<times> cheap) option"

fun storeResult :: "reg option \<Rightarrow> cval option \<Rightarrow> cmachine \<Rightarrow> cmachine option" where
  "storeResult None v m = Some m"
| "storeResult (Some r) (Some v) m = Some (setR r v m)"
| "storeResult (Some r) None m = None"

text \<open>A body ends with its return.\<close>

fun runBody :: "target_layout \<Rightarrow> (cheap \<Rightarrow> nat) \<Rightarrow> fn_sem \<Rightarrow> cl_inst list \<Rightarrow> cmachine \<Rightarrow> (cval option \<times> cheap) option" where
  "runBody dl fresh fs [] m = None"
| "runBody dl fresh fs ((r, Return vs) # is) m =
     (case vs of
        [] \<Rightarrow> Some (None, cobjs m)
      | [v] \<Rightarrow> (case cregs m v of Some x \<Rightarrow> Some (Some x, cobjs m) | None \<Rightarrow> None)
      | _ \<Rightarrow> None)"
| "runBody dl fresh fs ((r, CallSymbol f vs) # is) m =
     do {
       args \<leftarrow> readRegs m vs;
       (res, h) \<leftarrow> fs f args (cobjs m);
       m' \<leftarrow> storeResult r res (m\<lparr>cobjs := h\<rparr>);
       runBody dl fresh fs is m'
     }"
| "runBody dl fresh fs (i # is) m = do { m' \<leftarrow> stepOp dl fresh i m; runBody dl fresh fs is m' }"

text \<open>A call through an address runs a wrapper, or the function itself.\<close>

definition argRegs :: "cval list \<Rightarrow> reg \<rightharpoonup> cval" where
  "argRegs args = (\<lambda>i. if i < length args then Some (args ! i) else None)"

definition callFn ::
  "target_layout \<Rightarrow> (cheap \<Rightarrow> nat) \<Rightarrow> fn_sem \<Rightarrow> (string \<rightharpoonup> wrapper_fn) \<Rightarrow> string \<Rightarrow> cval list \<Rightarrow> cheap \<Rightarrow> (cval option \<times> cheap) option" where
  "callFn dl fresh fs ws f args h =
     (case ws f of
        Some w \<Rightarrow> runBody dl fresh fs (wrapperBody w) \<lparr>cregs = argRegs args, cobjs = h\<rparr>
      | None \<Rightarrow> fs f args h)"

fun runCode ::
  "target_layout \<Rightarrow> (cheap \<Rightarrow> nat) \<Rightarrow> fn_sem \<Rightarrow> (string \<rightharpoonup> wrapper_fn) \<Rightarrow> cl_inst list \<Rightarrow> cmachine \<Rightarrow> cmachine option" where
  "runCode dl fresh fs ws [] m = Some m"
| "runCode dl fresh fs ws ((r, CallPointer ty (p # vs) tail) # is) m =
     do {
       args \<leftarrow> readRegs m vs;
       (case cregs m p of
          Some (FnAddr f) \<Rightarrow>
            do {
              (res, h) \<leftarrow> callFn dl fresh fs ws f args (cobjs m);
              m' \<leftarrow> storeResult r res (m\<lparr>cobjs := h\<rparr>);
              runCode dl fresh fs ws is m'
            }
        | _ \<Rightarrow> None)
     }"
| "runCode dl fresh fs ws (i # is) m = do { m' \<leftarrow> stepOp dl fresh i m; runCode dl fresh fs ws is m' }"

section \<open>Ranges of an object\<close>

lemma find_filter: "(\<And>x. x \<in> set xs \<Longrightarrow> P x \<Longrightarrow> Q x) \<Longrightarrow> find P (filter Q xs) = find P xs"
  by (induction xs) auto

lemma storeIn_live: "storeIn off n v ob = Some ob' \<Longrightarrow> objLive ob' = objLive ob \<and> objSize ob' = objSize ob"
  by (auto simp: storeIn_def split: if_splits)

lemma storeIn_same:
  assumes "storeIn off n v ob = Some ob'" "n = 0 \<Longrightarrow> v = Scalar []"
  shows "loadFrom off n ob' = Some v"
  using assms by (auto simp: storeIn_def loadFrom_def split: if_splits)

lemma storeIn_other:
  assumes "storeIn off n v ob = Some ob'" "off' + n' \<le> off \<or> off + n \<le> off'"
  shows "loadFrom off' n' ob' = loadFrom off' n' ob"
proof (cases "n' = 0")
  case True
  then show ?thesis using storeIn_live [OF assms(1)] by (simp add: loadFrom_def)
next
  case False
  have cells: "objCells ob' = (off, n, v) # filter (\<lambda>c. \<not> overlaps off n c) (objCells ob)"
    using assms(1) by (auto simp: storeIn_def split: if_splits)
  have ne: "\<not> (off = off' \<and> n = n')" using assms(2) False by auto
  have "find (\<lambda>(o', m', _). o' = off' \<and> m' = n') (filter (\<lambda>c. \<not> overlaps off n c) (objCells ob)) =
      find (\<lambda>(o', m', _). o' = off' \<and> m' = n') (objCells ob)"
    using assms(2) False by (intro find_filter) (auto simp: overlaps_def)
  then show ?thesis using storeIn_live [OF assms(1)] ne by (auto simp: loadFrom_def cells)
qed

text \<open>Where the members of a struct lie: in order, without overlap, inside the object.\<close>

definition placed :: "target_layout \<Rightarrow> ll_type list \<Rightarrow> nat list \<Rightarrow> (nat \<Rightarrow> nat) \<Rightarrow> nat \<Rightarrow> bool" where
  "placed dl ts os sz whole \<longleftrightarrow> fieldOffsets dl ts 0 = Some os \<and> length os = length ts \<and>
     (\<forall>i < length ts. getTypeStoreSize dl (ts ! i) = Some (sz i) \<and> os ! i + sz i \<le> whole) \<and>
     (\<forall>j i. j < i \<longrightarrow> i < length ts \<longrightarrow> os ! j + sz j \<le> os ! i)"

lemma store_le_alloc:
  assumes "data_layout dl" "getTypeStoreSize dl t = Some s" "getTypeAllocSize dl t = Some n"
  shows "s \<le> n"
proof -
  obtain b a where "getTypeSizeInBits dl t = Some b" "getTypeABIAlign dl t = Some a" "n = allocBytes dl (storeBytes dl b) a"
    using assms(3) by (auto simp: getTypeAllocSize_Some_iff)
  moreover have "0 < a" using data_layout.align_pos [OF assms(1)] calculation(2) by blast
  ultimately show ?thesis
    using assms(2) data_layout.alloc_law [OF assms(1)] alignTo_ge by (auto simp: getTypeStoreSize_def)
qed

lemma fieldOffsets_total: "list_all sized ts \<Longrightarrow> \<exists>os. fieldOffsets dl ts off = Some os"
proof (induction ts arbitrary: off)
  case (Cons t ts)
  obtain a n where "getTypeABIAlign dl t = Some a" "getTypeAllocSize dl t = Some n"
    using Cons.prems sized_align [of t dl] sized_alloc [of t dl] by auto
  moreover obtain os where "fieldOffsets dl ts (alignTo off a + n) = Some os" using Cons by fastforce
  ultimately show ?case by simp
qed simp

lemma struct_placed:
  assumes dl: "data_layout dl" and sz: "list_all sized ts" and n: "getTypeAllocSize dl (LStruct ts) = Some n"
  shows "\<exists>os sz. placed dl ts os sz n"
proof -
  obtain os where os: "fieldOffsets dl ts 0 = Some os" using fieldOffsets_total [OF sz] by blast
  obtain b a where b: "getTypeSizeInBits dl (LStruct ts) = Some b" and a: "getTypeABIAlign dl (LStruct ts) = Some a"
    and nb: "n = allocBytes dl (storeBytes dl b) a" using n by (auto simp: getTypeAllocSize_Some_iff)
  have "b div 8 \<le> storeBytes dl b" using data_layout.store_law [OF dl] by simp
  also have "\<dots> \<le> n" using nb data_layout.alloc_law [OF dl] data_layout.align_pos [OF dl a] alignTo_ge by simp
  finally have bn: "b div 8 \<le> n" .
  let ?s = "\<lambda>i. the (getTypeStoreSize dl (ts ! i))"
  have store: "getTypeStoreSize dl (ts ! i) = Some (?s i)" if "i < length ts" for i
    using sized_store [of "ts ! i" dl] sz that by (auto simp: list_all_length)
  have each: "\<exists>n'. ?s i \<le> n' \<and> os ! i + n' \<le> b div 8 \<and> (\<forall>j. i < j \<and> j < length ts \<longrightarrow> os ! i + n' \<le> os ! j)"
    if "i < length ts" for i
    using data_layout.struct_members_placed [OF dl b os that] store [OF that] store_le_alloc [OF dl store [OF that]] by blast
  obtain sz' st where e: "structExtent dl ts (0, 1) = Some (sz', st)" using b by auto
  have len: "length os = length ts" using data_layout.fieldOffsets_bounds [OF dl os e] by simp
  have "placed dl ts os ?s n"
    unfolding placed_def
  proof (intro conjI allI impI os len)
    fix i assume i: "i < length ts"
    show "getTypeStoreSize dl (ts ! i) = Some (?s i)" by (rule store [OF i])
    show "os ! i + ?s i \<le> n" using each [OF i] bn by fastforce
  next
    fix j i assume "j < i" "i < length ts"
    then show "os ! j + ?s j \<le> os ! i" using each [of j] by fastforce
  qed
  then show ?thesis by blast
qed

section \<open>The object of a closure holds the captured values\<close>

text \<open>A value fits its type: a type without bytes has one value only.\<close>

definition fits :: "target_layout \<Rightarrow> ll_type \<Rightarrow> cval \<Rightarrow> bool" where
  "fits dl t x \<longleftrightarrow> (getTypeStoreSize dl t = Some 0 \<longrightarrow> x = Scalar [])"

definition holds :: "nat list \<Rightarrow> (nat \<Rightarrow> nat) \<Rightarrow> cobj \<Rightarrow> nat \<Rightarrow> cval list \<Rightarrow> bool" where
  "holds os sz ob i xs \<longleftrightarrow> (\<forall>j < length xs. loadFrom (os ! (i + j)) (sz (i + j)) ob = Some (xs ! j))"

lemma readRegs_conv: "readRegs m rs = Some xs \<longleftrightarrow> map (cregs m) rs = map Some xs"
proof (induction rs arbitrary: xs)
  case (Cons r rs)
  then show ?case by (cases xs; cases "cregs m r"; cases "readRegs m rs") auto
qed auto

lemma readRegs_same: "(\<And>r. r \<in> set rs \<Longrightarrow> cregs m' r = cregs m r) \<Longrightarrow> readRegs m' rs = readRegs m rs"
  by (induction rs) auto

lemma run_storeCaptures:
  assumes pl: "placed dl ts os sz whole"
  shows "\<lbrakk>i + length vs = length ts; \<forall>j < length vs. snd (vs ! j) = ts ! (i + j); cregs m p = Some (ObjAddr b 0);
     cobjs m b = Some ob; objLive ob; objSize ob = whole; p < n; \<forall>(v, t) \<in> set vs. v < n;
     readRegs m (map fst vs) = Some xs; list_all2 (fits dl) (map snd vs) xs\<rbrakk> \<Longrightarrow>
   \<exists>m' ob'. (\<forall>rest. runCode dl fresh fs ws (storeCaptures (LStruct ts) p vs i n @ rest) m = runCode dl fresh fs ws rest m') \<and>
     cobjs m' = (cobjs m)(b \<mapsto> ob') \<and> objLive ob' \<and> objSize ob' = whole \<and> (\<forall>r < n. cregs m' r = cregs m r) \<and>
     holds os sz ob' i xs \<and> (\<forall>j < i. loadFrom (os ! j) (sz j) ob' = loadFrom (os ! j) (sz j) ob)"
proof (induction vs arbitrary: i n m ob xs)
  case Nil
  then show ?case by (intro exI [of _ m] exI [of _ ob]) (auto simp: holds_def)
next
  case (Cons vt vs)
  obtain v t where vt: "vt = (v, t)" by (cases vt)
  obtain x xs' where xs: "xs = x # xs'" "cregs m v = Some x" "readRegs m (map fst vs) = Some xs'"
    using Cons.prems(9) vt by (auto split: option.splits)
  have i: "i < length ts" "ts ! i = t" using Cons.prems(1,2) vt by auto
  have off: "fieldOffsets dl ts 0 = Some os" "i < length os" "getTypeStoreSize dl t = Some (sz i)" "os ! i + sz i \<le> whole"
    using pl i by (auto simp: placed_def)
  obtain ob1 where ob1: "storeIn (os ! i) (sz i) x ob = Some ob1" using off(4) Cons.prems(5,6) by (simp add: storeIn_def)
  let ?m0 = "setR n (ObjAddr b (os ! i)) m"
  let ?m1 = "?m0\<lparr>cobjs := (cobjs m)(b \<mapsto> ob1)\<rparr>"
  have vn: "v < n" "v \<noteq> n" using Cons.prems(8) vt by auto
  have step: "runCode dl fresh fs ws (storeCaptures (LStruct ts) p (vt # vs) i n @ rest) m =
      runCode dl fresh fs ws (storeCaptures (LStruct ts) p vs (i + 1) (n + 1) @ rest) ?m1" for rest
    using Cons.prems(3,4) off xs(2) vn ob1 vt by (simp add: setR_def)
  have regs1: "\<forall>r < n. cregs ?m1 r = cregs m r" by (simp add: setR_def)
  have "\<forall>r \<in> set (map fst vs). r < n" using Cons.prems(8) by fastforce
  then have rr: "readRegs ?m1 (map fst vs) = Some xs'"
    using xs(3) readRegs_same [of "map fst vs" ?m1 m] regs1 by metis
  have "\<exists>m' ob'. (\<forall>rest. runCode dl fresh fs ws (storeCaptures (LStruct ts) p vs (i + 1) (n + 1) @ rest) ?m1 = runCode dl fresh fs ws rest m') \<and>
     cobjs m' = (cobjs ?m1)(b \<mapsto> ob') \<and> objLive ob' \<and> objSize ob' = whole \<and> (\<forall>r < n + 1. cregs m' r = cregs ?m1 r) \<and>
     holds os sz ob' (i + 1) xs' \<and> (\<forall>j < i + 1. loadFrom (os ! j) (sz j) ob' = loadFrom (os ! j) (sz j) ob1)"
  proof (rule Cons.IH)
    show "\<forall>j < length vs. snd (vs ! j) = ts ! (i + 1 + j)" using Cons.prems(2) by fastforce
    show "list_all2 (fits dl) (map snd vs) xs'" using Cons.prems(10) xs by simp
    show "objLive ob1" "objSize ob1 = whole" using storeIn_live [OF ob1] Cons.prems(5,6) by auto
  qed (use Cons.prems rr in \<open>auto simp: setR_def\<close>)
  then obtain m' ob' where IH: "\<forall>rest. runCode dl fresh fs ws (storeCaptures (LStruct ts) p vs (i + 1) (n + 1) @ rest) ?m1 = runCode dl fresh fs ws rest m'"
      "cobjs m' = (cobjs ?m1)(b \<mapsto> ob')" "objLive ob'" "objSize ob' = whole" "\<forall>r < n + 1. cregs m' r = cregs ?m1 r"
      "holds os sz ob' (i + 1) xs'" "\<forall>j < i + 1. loadFrom (os ! j) (sz j) ob' = loadFrom (os ! j) (sz j) ob1"
    by blast
  have fit: "fits dl t x" using Cons.prems(10) xs vt by simp
  have here: "loadFrom (os ! i) (sz i) ob1 = Some x"
    using storeIn_same [OF ob1] fit off(3) by (auto simp: fits_def)
  have "holds os sz ob' i xs"
    unfolding holds_def
  proof (intro allI impI)
    fix j assume j: "j < length xs"
    show "loadFrom (os ! (i + j)) (sz (i + j)) ob' = Some (xs ! j)"
      using IH(6,7) here j xs(1) by (cases j) (auto simp: holds_def)
  qed
  moreover have "loadFrom (os ! j) (sz j) ob' = loadFrom (os ! j) (sz j) ob" if "j < i" for j
    using IH(7) storeIn_other [OF ob1, of "os ! j" "sz j"] pl that i(1) by (auto simp: placed_def)
  moreover have "cobjs m' = (cobjs m)(b \<mapsto> ob')" using IH(2) by simp
  moreover have "\<forall>r < n. cregs m' r = cregs m r" using IH(5) regs1 by simp
  ultimately show ?case using step IH(1,3,4) by (intro exI [of _ m'] exI [of _ ob']) simp
qed

text \<open>The wrapper reads them back.\<close>

lemma run_loadCaptures:
  assumes pl: "placed dl ts os sz whole"
  shows "\<lbrakk>i + length us = length ts; \<forall>j < length us. us ! j = ts ! (i + j); cregs m 0 = Some (ObjAddr b 0);
     cobjs m b = Some ob; holds os sz ob i xs; length xs = length us; 0 < n\<rbrakk> \<Longrightarrow>
   \<exists>m'. (\<forall>rest. runBody dl fresh fs (fst (loadCaptures (LStruct ts) us i n) @ rest) m = runBody dl fresh fs rest m') \<and>
     cobjs m' = cobjs m \<and> (\<forall>r < n. cregs m' r = cregs m r) \<and>
     readRegs m' (snd (loadCaptures (LStruct ts) us i n)) = Some xs"
proof (induction us arbitrary: i n m xs)
  case Nil
  then show ?case by (intro exI [of _ m]) simp
next
  case (Cons u us)
  obtain x xs' where xs: "xs = x # xs'" using Cons.prems(6) by (cases xs) auto
  have i: "i < length ts" "ts ! i = u" using Cons.prems(1,2) by auto
  have off: "fieldOffsets dl ts 0 = Some os" "i < length os" "getTypeStoreSize dl u = Some (sz i)"
    using pl i by (auto simp: placed_def)
  have ld: "loadFrom (os ! i) (sz i) ob = Some x" using Cons.prems(5) xs by (auto simp: holds_def)
  let ?m1 = "setR (n + 1) x (setR n (ObjAddr b (os ! i)) m)"
  obtain code vs where c: "loadCaptures (LStruct ts) us (i + 1) (n + 2) = (code, vs)" by fastforce
  have step: "runBody dl fresh fs (fst (loadCaptures (LStruct ts) (u # us) i n) @ rest) m = runBody dl fresh fs (code @ rest) ?m1" for rest
    using Cons.prems(3,4,7) off ld c by (simp add: setR_def)
  have h': "holds os sz ob (i + 1) xs'" using Cons.prems(5) xs by (fastforce simp: holds_def)
  have "\<exists>m'. (\<forall>rest. runBody dl fresh fs (fst (loadCaptures (LStruct ts) us (i + 1) (n + 2)) @ rest) ?m1 = runBody dl fresh fs rest m') \<and>
     cobjs m' = cobjs ?m1 \<and> (\<forall>r < n + 2. cregs m' r = cregs ?m1 r) \<and>
     readRegs m' (snd (loadCaptures (LStruct ts) us (i + 1) (n + 2))) = Some xs'"
  proof (rule Cons.IH)
    show "\<forall>j < length us. us ! j = ts ! (i + 1 + j)" using Cons.prems(2) by fastforce
  qed (use Cons.prems h' xs in \<open>auto simp: setR_def\<close>)
  then obtain m' where IH: "\<forall>rest. runBody dl fresh fs (code @ rest) ?m1 = runBody dl fresh fs rest m'"
     "cobjs m' = cobjs ?m1" "\<forall>r < n + 2. cregs m' r = cregs ?m1 r" "readRegs m' vs = Some xs'"
    using c by auto
  have "cregs m' (n + 1) = Some x" using IH(3) by (simp add: setR_def)
  moreover have "\<forall>r < n. cregs m' r = cregs m r" using IH(3) by (simp add: setR_def)
  moreover have "cobjs m' = cobjs m" using IH(2) by (simp add: setR_def)
  ultimately show ?case using step IH(1,4) c xs by (intro exI [of _ m']) simp
qed

lemma loadCaptures_length: "length (snd (loadCaptures env us i n)) = length us"
  by (induction us arbitrary: i n) (simp_all add: case_prod_beta)

lemma convertAll_length: "convertAll e ts = Some us \<Longrightarrow> length us = length ts"
  by (induction ts arbitrary: us) (auto split: bind_splits)

lemma readRegs_append: "readRegs m (rs @ ss) =
    (case (readRegs m rs, readRegs m ss) of (Some xs, Some ys) \<Rightarrow> Some (xs @ ys) | _ \<Rightarrow> None)"
  by (induction rs) (auto split: option.splits)

lemma readRegs_args:
  assumes "\<forall>r < Suc (length ys). cregs m r = argRegs (x # ys) r"
  shows "readRegs m [1..<length ys + 1] = Some ys"
proof -
  have "map (cregs m) [1..<length ys + 1] = map Some ys"
    using assms by (intro nth_equalityI) (auto simp: argRegs_def simp del: upt_Suc)
  then show ?thesis by (simp add: readRegs_conv)
qed

text \<open>Calling the wrapper with the object of a closure calls the callee with the captured values in front.\<close>

lemma callFn_wrapper:
  assumes pop: "populateBodyOfWrapperFunction isFunction op types w0 = Inr w"
    and f: "closureCallee op = Some f" and ws: "ws name = Some w"
    and types: "liftedFunctionCaptureType types = LStruct (boundArgTypes types)"
    and pl: "placed dl (boundArgTypes types) os sz whole"
    and h: "h b = Some ob" "holds os sz ob 0 xs" "length xs = length (boundArgTypes types)"
    and ys: "length ys = length (calleeInputs op) - length (closureCaptures op)"
      "length (fst (wrapperType w0)) = Suc (length ys)"
    and call: "fs f (xs @ ys) h = Some (res, h')" "snd (wrapperType w0) = LVoid \<longleftrightarrow> res = None"
  shows "callFn dl fresh fs ws name (ObjAddr b 0 # ys) h = Some (res, h')"
proof -
  let ?n = "Suc (length ys)" and ?ts = "boundArgTypes types"
  let ?m = "\<lparr>cregs = argRegs (ObjAddr b 0 # ys), cobjs = h\<rparr>"
  obtain loads captured where c: "loadCaptures (LStruct ?ts) ?ts 0 ?n = (loads, captured)" by fastforce
  let ?args = "captured @ [1..<length ys + 1]"
  have "\<exists>m'. (\<forall>rest. runBody dl fresh fs (fst (loadCaptures (LStruct ?ts) ?ts 0 ?n) @ rest) ?m = runBody dl fresh fs rest m') \<and>
     cobjs m' = cobjs ?m \<and> (\<forall>r < ?n. cregs m' r = cregs ?m r) \<and>
     readRegs m' (snd (loadCaptures (LStruct ?ts) ?ts 0 ?n)) = Some xs"
    by (rule run_loadCaptures [OF pl, where b = b and ob = ob]) (use h in \<open>auto simp: argRegs_def\<close>)
  then obtain m' where m': "\<forall>rest. runBody dl fresh fs (loads @ rest) ?m = runBody dl fresh fs rest m'"
      "cobjs m' = h" "\<forall>r < ?n. cregs m' r = argRegs (ObjAddr b 0 # ys) r" "readRegs m' captured = Some xs"
    using c by auto
  have args: "readRegs m' ?args = Some (xs @ ys)"
    using m'(4) readRegs_args [OF m'(3)] by (simp add: readRegs_append del: upt_Suc)
  have body: "wrapperBody w = loads @
      (if snd (wrapperType w0) = LVoid then [(None, CallSymbol f ?args), (None, Return [])]
       else [(Some (?n + 2 * length captured), CallSymbol f ?args), (None, Return [?n + 2 * length captured])])"
    using pop f ys c types
    by (auto simp: populateBodyOfWrapperFunction_def Let_def split: if_splits)
  show ?thesis
    using call args m'(1,2) body ws by (cases res) (auto simp: callFn_def setR_def simp del: upt_Suc)
qed

text \<open>The code of a creation makes the pair of the wrapper and an object that holds the captured values.\<close>

lemma run_generateClosureStruct:
  assumes dl: "data_layout dl" and sized: "list_all sized (boundArgTypes types)"
    and types: "liftedFunctionCaptureType types = LStruct (boundArgTypes types)"
      "unpackingFunctionAndCapturesType types = LStruct [LPtr 0, LPtr 0]"
      "length (boundArgTypes types) = length (closureCaptures op)"
    and caps: "readRegs m (map fst (closureCaptures op)) = Some xs" "list_all2 (fits dl) (boundArgTypes types) xs"
      "\<forall>(v, t) \<in> set (closureCaptures op). v < n"
  shows "\<exists>m1 ob os sz whole. runCode dl fresh fs ws (fst (generateClosureStruct op name types n)) m = Some m1 \<and>
    cregs m1 (closureResult op) = Some (Struct [Some (FnAddr name), Some (ObjAddr (fresh (cobjs m)) 0)]) \<and>
    cobjs m1 = (cobjs m)(fresh (cobjs m) \<mapsto> ob) \<and> objLive ob \<and> placed dl (boundArgTypes types) os sz whole \<and> holds os sz ob 0 xs"
proof -
  let ?ts = "boundArgTypes types" and ?b = "fresh (cobjs m)"
  have "sized (LStruct ?ts)" using sized by simp
  then obtain whole where whole: "getTypeAllocSize dl (LStruct ?ts) = Some whole" using sized_alloc by blast
  obtain os sz where pl: "placed dl ?ts os sz whole" using struct_placed [OF dl sized whole] by blast
  let ?vs = "zip (map fst (closureCaptures op)) ?ts"
  let ?ob = "\<lparr>objSize = whole, objLive = True, objCells = []\<rparr>"
  let ?pair = "Struct [Some (FnAddr name), None]"
  let ?m0 = "m\<lparr>cregs := (cregs m)(n \<mapsto> Struct [None, None], n + 1 \<mapsto> FnAddr name, n + 2 \<mapsto> ?pair, n + 3 \<mapsto> Scalar [1], n + 4 \<mapsto> ObjAddr ?b 0),
      cobjs := (cobjs m)(?b \<mapsto> ?ob)\<rparr>"
  let ?code = "storeCaptures (LStruct ?ts) (n + 4) ?vs 0 (n + 5)"
  let ?last = "[(Some (closureResult op), InsertValue (n + 2) (n + 4) 1)]"
  have first: "runCode dl fresh fs ws (fst (generateClosureStruct op name types n)) m = runCode dl fresh fs ws (?code @ ?last) ?m0"
    using whole types(1,2)
    by (simp add: generateClosureStruct_def Let_def setR_def setLive_def cmachine.defs)
  have vs: "map fst ?vs = map fst (closureCaptures op)" "map snd ?vs = ?ts" using types(3) by simp_all
  have less: "\<forall>r \<in> set (map fst (closureCaptures op)). r < n" using caps(3) by fastforce
  have rr: "readRegs ?m0 (map fst ?vs) = Some xs"
    using caps(1) vs(1) readRegs_same [of "map fst (closureCaptures op)" ?m0 m] less by fastforce
  have "\<exists>m' ob'. (\<forall>rest. runCode dl fresh fs ws (?code @ rest) ?m0 = runCode dl fresh fs ws rest m') \<and>
     cobjs m' = (cobjs ?m0)(?b \<mapsto> ob') \<and> objLive ob' \<and> objSize ob' = whole \<and> (\<forall>r < n + 5. cregs m' r = cregs ?m0 r) \<and>
     holds os sz ob' 0 xs \<and> (\<forall>j < 0. loadFrom (os ! j) (sz j) ob' = loadFrom (os ! j) (sz j) ?ob)"
  proof (rule run_storeCaptures [OF pl])
    show "\<forall>(v, t) \<in> set ?vs. v < n + 5" using less by (fastforce dest!: set_zip_leftD)
    show "list_all2 (fits dl) (map snd ?vs) xs" using caps(2) vs(2) by simp
    show "readRegs ?m0 (map fst ?vs) = Some xs" by (rule rr)
  qed (use types(3) in \<open>auto\<close>)
  then obtain m' ob' where m': "\<forall>rest. runCode dl fresh fs ws (?code @ rest) ?m0 = runCode dl fresh fs ws rest m'"
     "cobjs m' = (cobjs ?m0)(?b \<mapsto> ob')" "objLive ob'" "\<forall>r < n + 5. cregs m' r = cregs ?m0 r" "holds os sz ob' 0 xs"
    by blast
  have regs: "cregs m' (n + 2) = Some ?pair" "cregs m' (n + 4) = Some (ObjAddr ?b 0)" using m'(4) by simp_all
  let ?m1 = "setR (closureResult op) (Struct [Some (FnAddr name), Some (ObjAddr ?b 0)]) m'"
  have "runCode dl fresh fs ws ?last m' = Some ?m1" using regs by simp
  then have "runCode dl fresh fs ws (fst (generateClosureStruct op name types n)) m = Some ?m1" using first m'(1) by simp
  moreover have "cobjs ?m1 = (cobjs m)(?b \<mapsto> ob')" using m'(2) by (simp add: setR_def)
  ultimately show ?thesis using m'(3,5) pl by (intro exI [of _ ?m1] exI) (auto simp: setR_def)
qed

section \<open>Results of a call\<close>

text \<open>No value for no result, the value of one, a struct of several.\<close>

definition packs :: "nat \<Rightarrow> cval option \<Rightarrow> bool" where
  "packs n res \<longleftrightarrow>
     (if n = 0 then res = None else if n = 1 then res \<noteq> None
      else \<exists>zs. length zs = n \<and> res = Some (Struct (map Some zs)))"

definition delivered :: "(reg \<times> kg_type) list \<Rightarrow> cval option \<Rightarrow> cmachine \<Rightarrow> bool" where
  "delivered rs res m \<longleftrightarrow>
     (case rs of [] \<Rightarrow> True | [(v, t)] \<Rightarrow> cregs m v = res
      | _ \<Rightarrow> (\<exists>zs. res = Some (Struct (map Some zs)) \<and> map (\<lambda>(v, t). cregs m v) rs = map Some zs))"

lemma run_unpack:
  assumes "cregs m r = Some (Struct xs)" "\<forall>j < length rs. k + j < length xs \<and> xs ! (k + j) = Some (zs ! j)"
    "r \<notin> fst ` set rs" "distinct (map fst rs)" "length zs = length rs"
  shows "\<exists>m'. runCode dl fresh fs ws (map (\<lambda>(i, v, t). (Some v, ExtractValue r i)) (enumerate k rs)) m = Some m' \<and>
    cobjs m' = cobjs m \<and> map (\<lambda>(v, t). cregs m' v) rs = map Some zs \<and> (\<forall>q. q \<notin> fst ` set rs \<longrightarrow> cregs m' q = cregs m q)"
  using assms
proof (induction rs arbitrary: k m zs)
  case (Cons vt rs)
  obtain v t where vt: "vt = (v, t)" by (cases vt)
  obtain z zs' where zs: "zs = z # zs'" using Cons.prems(5) by (cases zs) auto
  let ?m1 = "setR v z m"
  have x: "k < length xs" "xs ! k = Some z" using Cons.prems(2) zs by fastforce+
  have "\<exists>m'. runCode dl fresh fs ws (map (\<lambda>(i, v, t). (Some v, ExtractValue r i)) (enumerate (Suc k) rs)) ?m1 = Some m' \<and>
    cobjs m' = cobjs ?m1 \<and> map (\<lambda>(v, t). cregs m' v) rs = map Some zs' \<and> (\<forall>q. q \<notin> fst ` set rs \<longrightarrow> cregs m' q = cregs ?m1 q)"
  proof (rule Cons.IH)
    show "\<forall>j < length rs. Suc k + j < length xs \<and> xs ! (Suc k + j) = Some (zs' ! j)"
      using Cons.prems(2) zs by fastforce
  qed (use Cons.prems vt zs in \<open>auto simp: setR_def\<close>)
  then obtain m' where m': "runCode dl fresh fs ws (map (\<lambda>(i, v, t). (Some v, ExtractValue r i)) (enumerate (Suc k) rs)) ?m1 = Some m'"
    "cobjs m' = cobjs ?m1" "map (\<lambda>(v, t). cregs m' v) rs = map Some zs'" "\<forall>q. q \<notin> fst ` set rs \<longrightarrow> cregs m' q = cregs ?m1 q"
    by blast
  have "cregs m' v = Some z" using m'(4) Cons.prems(4) vt by (auto simp: setR_def)
  then show ?case using m' Cons.prems(1) x vt zs by (intro exI [of _ m']) (auto simp: setR_def)
qed simp

text \<open>A call of a closure, from the pair and the arguments to the results.\<close>

lemma run_closure_call:
  assumes cc: "CallIndirect_matchAndRewrite e pack cabi call n = Inr code" and kind: "callKind call = CapturingClosure"
    and pair: "cregs m (calleeReg call) = Some (Struct [Some (FnAddr name), Some (ObjAddr b 0)])"
    and args: "readRegs m (map fst (callArgs call)) = Some ys" "\<forall>(v, t) \<in> set (callArgs call). v < n" "calleeReg call < n"
    and f: "callFn dl fresh fs ws name (ObjAddr b 0 # ys) (cobjs m) = Some (res, h')"
    and res: "packs (length (callResults call)) res" "distinct (map fst (callResults call))"
      "n + 2 \<notin> fst ` set (callResults call)"
  shows "\<exists>m'. runCode dl fresh fs ws code m = Some m' \<and> cobjs m' = h' \<and> delivered (callResults call) res m'"
proof -
  obtain ts resultType where code: "code = [(Some n, ExtractValue (calleeReg call) 0), (Some (n + 1), ExtractValue (calleeReg call) 1)] @
      callAndUnpack call (n + 2)
        (CallPointer (LPtr 0 # ts, resultType) (n # (n + 1) # map fst (callArgs call)) (tailKind call))"
    using cc kind by (auto simp: CallIndirect_matchAndRewrite_def split: option.splits if_splits)
  let ?m1 = "setR (n + 1) (ObjAddr b 0) (setR n (FnAddr name) m)"
  let ?call = "CallPointer (LPtr 0 # ts, resultType) (n # (n + 1) # map fst (callArgs call)) (tailKind call)"
  have less: "\<forall>r \<in> set (map fst (callArgs call)). r < n" using args(2) by fastforce
  have r1: "readRegs ?m1 (map fst (callArgs call)) = Some ys"
    using args(1) readRegs_same [of "map fst (callArgs call)" ?m1 m] less by (fastforce simp: setR_def)
  have o1: "cobjs ?m1 = cobjs m" by (simp add: setR_def)
  have first: "runCode dl fresh fs ws code m = runCode dl fresh fs ws (callAndUnpack call (n + 2) ?call) ?m1"
    using pair args(3) code by (simp add: setR_def)
  have step: "runCode dl fresh fs ws ((q, ?call) # rest) ?m1 =
      Option.bind (storeResult q res (?m1\<lparr>cobjs := h'\<rparr>)) (runCode dl fresh fs ws rest)" for q rest
    using r1 f o1 by (simp add: setR_def)
  show ?thesis
  proof (cases "callResults call")
    case Nil
    then show ?thesis using first step [of None "[]"] by (simp add: callAndUnpack_def delivered_def)
  next
    case (Cons vt rs)
    obtain v t where vt: "vt = (v, t)" by (cases vt)
    show ?thesis
    proof (cases rs)
      case Nil
      obtain x where x: "res = Some x" using res(1) Cons Nil by (auto simp: packs_def)
      have "callAndUnpack call (n + 2) ?call = [(Some v, ?call)]" using Cons Nil vt by (simp add: callAndUnpack_def)
      then have "runCode dl fresh fs ws code m = Some (setR v x (?m1\<lparr>cobjs := h'\<rparr>))" using first step [of "Some v" "[]"] x by simp
      then show ?thesis using Cons Nil vt x by (auto simp: delivered_def setR_def)
    next
      case (Cons wt rs')
      let ?rs = "callResults call"
      have many: "callAndUnpack call (n + 2) ?call = (Some (n + 2), ?call) # unpackResults ?rs (n + 2)"
        using \<open>callResults call = vt # rs\<close> Cons by (simp add: callAndUnpack_def split: prod.splits)
      obtain zs where zs: "length zs = length ?rs" "res = Some (Struct (map Some zs))"
        using res(1) \<open>callResults call = vt # rs\<close> Cons by (auto simp: packs_def)
      let ?m2 = "setR (n + 2) (Struct (map Some zs)) (?m1\<lparr>cobjs := h'\<rparr>)"
      have "\<exists>m'. runCode dl fresh fs ws (map (\<lambda>(i, v, t). (Some v, ExtractValue (n + 2) i)) (enumerate 0 ?rs)) ?m2 = Some m' \<and>
          cobjs m' = cobjs ?m2 \<and> map (\<lambda>(v, t). cregs m' v) ?rs = map Some zs \<and> (\<forall>q. q \<notin> fst ` set ?rs \<longrightarrow> cregs m' q = cregs ?m2 q)"
        by (rule run_unpack [where xs = "map Some zs"]) (use zs res in \<open>auto simp: setR_def\<close>)
      then obtain m' where m': "runCode dl fresh fs ws (unpackResults ?rs (n + 2)) ?m2 = Some m'" "cobjs m' = cobjs ?m2"
          "map (\<lambda>(v, t). cregs m' v) ?rs = map Some zs"
        unfolding unpackResults_def by blast
      have "runCode dl fresh fs ws code m = Some m'" using first many step [of "Some (n + 2)"] zs(2) m'(1) by simp
      moreover have "delivered ?rs res m'"
        using m'(3) zs(2) \<open>callResults call = vt # rs\<close> Cons by (auto simp: delivered_def split: prod.splits)
      ultimately show ?thesis using m'(2) by (auto simp: setR_def)
    qed
  qed
qed

section \<open>A lowered closure is called like its function\<close>

lemma create_inversion:
  assumes "CreateClosure_matchAndRewrite e pack uniquer isFunction op n before after st = Some (Inr (block, st'))"
    "closureCapturing op \<or> closureCaptures op \<noteq> []"
  obtains w0 types w f name where
    "generateWrapperFunction e pack op (nameCounter st) = Some (Some w0)" "createClosureTypes e op = Some types"
    "name = uniquer (symbols st) (wrapperName w0)" "closureCallee op = Some f"
    "populateBodyOfWrapperFunction isFunction op types (w0\<lparr>wrapperName := name\<rparr>) = Inr w"
    "block = replaceInBlock before (fst (generateClosureStruct op name types n)) (snd (generateClosureStruct op name types n)) after"
    "wrappers st' name = Some w" "symbols st' = insert name (symbols st)"
proof -
  have c: "\<not> (\<not> closureCapturing op \<and> closureCaptures op = [])" using assms(2) by blast
  obtain w0 where w0: "generateWrapperFunction e pack op (nameCounter st) = Some (Some w0)"
    using assms(1) c by (cases "generateWrapperFunction e pack op (nameCounter st)"; cases "the (generateWrapperFunction e pack op (nameCounter st))")
      (simp_all add: CreateClosure_matchAndRewrite_def)
  obtain types where types: "createClosureTypes e op = Some types"
    using assms(1) c w0 by (cases "createClosureTypes e op") (simp_all add: CreateClosure_matchAndRewrite_def Let_def)
  let ?name = "uniquer (symbols st) (wrapperName w0)"
  obtain w where w: "populateBodyOfWrapperFunction isFunction op types (w0\<lparr>wrapperName := ?name\<rparr>) = Inr w"
    using assms(1) c w0 types
    by (cases "populateBodyOfWrapperFunction isFunction op types (w0\<lparr>wrapperName := ?name\<rparr>)")
      (simp_all add: CreateClosure_matchAndRewrite_def Let_def)
  obtain f where f: "closureCallee op = Some f"
    using w by (cases "closureCallee op") (simp_all add: populateBodyOfWrapperFunction_def)
  have "block = replaceInBlock before (fst (generateClosureStruct op ?name types n)) (snd (generateClosureStruct op ?name types n)) after \<and>
      st' = \<lparr>symbols = insert ?name (symbols st), wrappers = (wrappers st)(?name \<mapsto> w), nameCounter = nameCounter st + 1\<rparr>"
    using assms(1) c w0 types w by (simp add: CreateClosure_matchAndRewrite_def Let_def case_prod_beta)
  then show thesis using that [OF w0 types refl f w] by simp
qed

lemma generateWrapper_facts:
  assumes "generateWrapperFunction e pack op k = Some (Some w)" "\<forall>ts. ts \<noteq> [] \<longrightarrow> pack ts \<noteq> Some LVoid"
  shows "length (fst (wrapperType w)) = Suc (length (calleeInputs op) - length (closureCaptures op))"
    "snd (wrapperType w) = LVoid \<longleftrightarrow> calleeResults op = []" "length (closureCaptures op) \<le> length (calleeInputs op)"
proof -
  obtain res ts where w: "w = \<lparr>wrapperName = ''closure_wrapper_fn_'' @ natDigits k, wrapperType = (LPtr 0 # ts, res), wrapperBody = []\<rparr>"
      and ts: "convertAll e (drop (length (closureCaptures op)) (calleeInputs op)) = Some ts"
      and res: "(if calleeResults op = [] then Some LVoid else pack (calleeResults op)) = Some res"
      and le: "length (closureCaptures op) \<le> length (calleeInputs op)"
    using assms(1) by (auto simp: generateWrapperFunction_def Let_def split: option.splits if_splits)
  show "length (fst (wrapperType w)) = Suc (length (calleeInputs op) - length (closureCaptures op))"
    using w convertAll_length [OF ts] by simp
  show "snd (wrapperType w) = LVoid \<longleftrightarrow> calleeResults op = []" using w res assms(2) by (auto split: if_splits)
  show "length (closureCaptures op) \<le> length (calleeInputs op)" by (rule le)
qed

lemma createClosureTypes_facts:
  assumes "createClosureTypes e op = Some types"
  shows "liftedFunctionCaptureType types = LStruct (boundArgTypes types)"
    "unpackingFunctionAndCapturesType types = LStruct [LPtr 0, LPtr 0]"
    "length (boundArgTypes types) = length (closureCaptures op)"
  using assms convertAll_length [of e "map snd (closureCaptures op)"]
  by (auto simp: createClosureTypes_def split: bind_splits)

text \<open>
  C13. The code of a lowered creation makes a closure, and as long as the object of the closure is as it was
  made, the code of a lowered call of it, with any arguments, calls the function that was closed over with
  the captured values in front of the arguments and delivers its results: the members of the object lie
  where the target's layout puts them and do not overlap.
\<close>

theorem closure_call_exact:
  assumes layout: "data_layout (ce_layout e)" and pack: "\<forall>ts. ts \<noteq> [] \<longrightarrow> pack ts \<noteq> Some LVoid"
    and rw: "CreateClosure_matchAndRewrite e pack uniquer isFunction op n before after st = Some (Inr (block, st'))"
      "closureCapturing op \<or> closureCaptures op \<noteq> []"
    and sized: "createClosureTypes e op = Some types" "list_all sized (boundArgTypes types)"
    and caps: "readRegs m (map fst (closureCaptures op)) = Some xs" "list_all2 (fits (ce_layout e)) (boundArgTypes types) xs"
      "\<forall>(v, t) \<in> set (closureCaptures op). v < n"
  shows "\<exists>code env m1 b f. block = replaceInBlock before code env after \<and> closureCallee op = Some f \<and>
    runCode (ce_layout e) fresh fs (wrappers st') code m = Some m1 \<and> b = fresh (cobjs m) \<and>
    (\<forall>call cabi n2 cc m2 ys res h'.
       CallIndirect_matchAndRewrite e pack cabi call n2 = Inr cc \<and> callKind call = CapturingClosure \<and>
       cregs m2 (calleeReg call) = cregs m1 (closureResult op) \<and> cobjs m2 b = cobjs m1 b \<and>
       readRegs m2 (map fst (callArgs call)) = Some ys \<and> length xs + length ys = length (calleeInputs op) \<and>
       (\<forall>(v, t) \<in> set (callArgs call). v < n2) \<and> calleeReg call < n2 \<and>
       distinct (map fst (callResults call)) \<and> n2 + 2 \<notin> fst ` set (callResults call) \<and>
       length (callResults call) = length (calleeResults op) \<and>
       fs f (xs @ ys) (cobjs m2) = Some (res, h') \<and> packs (length (calleeResults op)) res \<longrightarrow>
       (\<exists>m3. runCode (ce_layout e) fresh fs (wrappers st') cc m2 = Some m3 \<and> cobjs m3 = h' \<and> delivered (callResults call) res m3))"
proof -
  let ?dl = "ce_layout e" and ?b = "fresh (cobjs m)"
  obtain w0 types' w f name where w: "generateWrapperFunction e pack op (nameCounter st) = Some (Some w0)"
      "createClosureTypes e op = Some types'" "closureCallee op = Some f"
      "populateBodyOfWrapperFunction isFunction op types' (w0\<lparr>wrapperName := name\<rparr>) = Inr w"
      "block = replaceInBlock before (fst (generateClosureStruct op name types' n)) (snd (generateClosureStruct op name types' n)) after"
      "wrappers st' name = Some w"
    by (rule create_inversion [OF rw]) blast
  have same: "types' = types" using w(2) sized(1) by simp
  note ty = createClosureTypes_facts [OF sized(1)] and wf = generateWrapper_facts [OF w(1) pack]
  obtain m1 ob os sz whole where m1: "runCode ?dl fresh fs (wrappers st') (fst (generateClosureStruct op name types n)) m = Some m1"
      "cregs m1 (closureResult op) = Some (Struct [Some (FnAddr name), Some (ObjAddr ?b 0)])"
      "cobjs m1 = (cobjs m)(?b \<mapsto> ob)" "placed ?dl (boundArgTypes types) os sz whole" "holds os sz ob 0 xs"
    using run_generateClosureStruct [OF layout sized(2) ty caps, of fresh fs "wrappers st'" name] by blast
  have len: "length xs = length (boundArgTypes types)" using caps(2) by (simp add: list_all2_lengthD)
  have call: "\<exists>m3. runCode ?dl fresh fs (wrappers st') cc m2 = Some m3 \<and> cobjs m3 = h' \<and> delivered (callResults call) res m3"
    if a: "CallIndirect_matchAndRewrite e pack cabi call n2 = Inr cc" "callKind call = CapturingClosure"
       "cregs m2 (calleeReg call) = cregs m1 (closureResult op)" "cobjs m2 ?b = cobjs m1 ?b"
       "readRegs m2 (map fst (callArgs call)) = Some ys" "length xs + length ys = length (calleeInputs op)"
       "\<forall>(v, t) \<in> set (callArgs call). v < n2" "calleeReg call < n2"
       "distinct (map fst (callResults call))" "n2 + 2 \<notin> fst ` set (callResults call)"
       "length (callResults call) = length (calleeResults op)"
       "fs f (xs @ ys) (cobjs m2) = Some (res, h')" "packs (length (calleeResults op)) res"
    for call cabi n2 cc m2 ys res h'
  proof -
    have "callFn ?dl fresh fs (wrappers st') name (ObjAddr ?b 0 # ys) (cobjs m2) = Some (res, h')"
    proof (rule callFn_wrapper [OF w(4) w(3)])
      show "wrappers st' name = Some w" by (rule w(6))
      show "liftedFunctionCaptureType types' = LStruct (boundArgTypes types')" using ty same by simp
      show "placed ?dl (boundArgTypes types') os sz whole" using m1(4) same by simp
      show "cobjs m2 ?b = Some ob" using a(4) m1(3) by simp
      show "holds os sz ob 0 xs" by (rule m1(5))
      show "length xs = length (boundArgTypes types')" using len same by simp
      show "length ys = length (calleeInputs op) - length (closureCaptures op)" using a(6) len ty(3) by simp
      show "length (fst (wrapperType (w0\<lparr>wrapperName := name\<rparr>))) = Suc (length ys)" using wf(1) a(6) len ty(3) by simp
      show "fs f (xs @ ys) (cobjs m2) = Some (res, h')" by (rule a(12))
      show "snd (wrapperType (w0\<lparr>wrapperName := name\<rparr>)) = LVoid \<longleftrightarrow> res = None"
        using wf(2) a(13) by (auto simp: packs_def split: if_splits)
    qed
    then show ?thesis
      using run_closure_call [OF a(1,2) _ a(5,7,8) _ _ a(9,10)] a(3,11,13) m1(2) by simp
  qed
  show ?thesis
    using w(3,5) m1(1) call same
    by (intro exI [of _ "fst (generateClosureStruct op name types n)"] exI [of _ "snd (generateClosureStruct op name types n)"]
        exI [of _ m1] exI [of _ ?b] exI [of _ f]) blast
qed

text \<open>
  A type of an argument that cannot be converted leaves a null wrapper, which then enters the symbol table:
  the error for it is never reached.
\<close>

lemma wrapper_type_failure_undefined:
  assumes "convertAll e (drop (length (closureCaptures op)) (calleeInputs op)) = None"
    "closureCapturing op \<or> closureCaptures op \<noteq> []"
  shows "CreateClosure_matchAndRewrite e pack uniquer isFunction op n before after st = None"
  using assms by (auto simp: CreateClosure_matchAndRewrite_def generateWrapperFunction_def Let_def split: option.splits)

text \<open>The object of a closure is dead after the block that made it: the wrapper cannot read from it.\<close>

lemma closure_dead_after_block:
  assumes "objLive ob = False" "h b = Some ob" "fieldOffsets dl ts 0 = Some os" "0 < length os"
  shows "runBody dl fresh fs ((Some n, GEP (LStruct ts) 0 0) # (Some (n + 1), Load t n) # is)
    \<lparr>cregs = argRegs (ObjAddr b 0 # ys), cobjs = h\<rparr> = None"
  using assms by (auto simp: argRegs_def setR_def loadFrom_def split: option.splits)

definition sample_create :: create_closure where
  "sample_create = \<lparr>closureCallee = Some ''add'', calleeInputs = [KPtr 0, KPtr 0], calleeResults = [KPtr 0],
     closureCaptures = [(0, KPtr 0)], closureCapturing = True, closureResult = 1\<rparr>"

definition sample_call :: call_indirect where
  "sample_call = \<lparr>callKind = CapturingClosure, calleeReg = 1, callArgs = [(2, LPtr 0)], closureInputs = [KPtr 0],
     callResults = [(3, KPtr 0)], tailKind = False\<rparr>"

definition direct_cabi :: cabi_helper where
  "direct_cabi args ret n = \<lparr>prepCode = [], prepSignature = (map snd args, case ret of Some t \<Rightarrow> t | None \<Rightarrow> LVoid), prepArgs = map fst args,
     prepUsesSRet = False, prepExtract = (\<lambda>_. [])\<rparr>"

text \<open>A function that gives its first argument; the machine has a captured value and, later, an argument.\<close>

definition first_arg :: fn_sem where
  "first_arg f args h = Some (Some (hd args), h)"

definition sample_machine :: cmachine where
  "sample_machine = \<lparr>cregs = [0 \<mapsto> Scalar [7]], cobjs = Map.empty\<rparr>"

definition sample_state :: lowering_state where
  "sample_state = \<lparr>symbols = {''add''}, wrappers = Map.empty, nameCounter = 0\<rparr>"

definition sample_block :: "(cl_inst list \<times> lowering_state) error_or option" where
  "sample_block = CreateClosure_matchAndRewrite win64_env (\<lambda>_. Some (LPtr 0)) (\<lambda>s n. n) (\<lambda>f. f = ''add'') sample_create 10 []
     [(None, Return [])] sample_state"

theorem closure_call_exact_witness:
  "\<exists>block st' code env m1 cc m3. sample_block = Some (Inr (block, st')) \<and>
     block = replaceInBlock [] code env [(None, Return [])] \<and>
     runCode win64_layout (\<lambda>h. 0) first_arg (wrappers st') code sample_machine = Some m1 \<and>
     CallIndirect_matchAndRewrite win64_env (\<lambda>_. Some (LPtr 0)) direct_cabi sample_call 20 = Inr cc \<and>
     runCode win64_layout (\<lambda>h. 0) first_arg (wrappers st') cc (setR 2 (Scalar [9]) m1) = Some m3 \<and>
     cregs m3 3 = Some (Scalar [7])"
proof -
  have dl: "ce_layout win64_env = win64_layout" by (simp add: win64_env_def)
  have layout: "data_layout (ce_layout win64_env)" using win64.data_layout_axioms by (simp add: dl)
  obtain block st' where b: "sample_block = Some (Inr (block, st'))"
    by (simp add: sample_block_def CreateClosure_matchAndRewrite_def sample_create_def generateWrapperFunction_def
        createClosureTypes_def populateBodyOfWrapperFunction_def sample_state_def Let_def case_prod_beta)
  have ty: "createClosureTypes win64_env sample_create =
      Some \<lparr>boundArgTypes = [LPtr 0], liftedFunctionCaptureType = LStruct [LPtr 0], unpackingFunctionAndCapturesType = LStruct [LPtr 0, LPtr 0]\<rparr>"
    by (simp add: createClosureTypes_def sample_create_def)
  have fit: "fits win64_layout (LPtr 0) (Scalar [7])" by (simp add: fits_def eval_win64)
  obtain cc where cc: "CallIndirect_matchAndRewrite win64_env (\<lambda>_. Some (LPtr 0)) direct_cabi sample_call 20 = Inr cc"
    by (simp add: CallIndirect_matchAndRewrite_def sample_call_def)
  obtain code env m1 f where m1: "block = replaceInBlock [] code env [(None, Return [])]" "closureCallee sample_create = Some f"
      "runCode win64_layout (\<lambda>h. 0) first_arg (wrappers st') code sample_machine = Some m1"
      "(\<forall>call cabi n2 cc m2 ys res h'.
       CallIndirect_matchAndRewrite win64_env (\<lambda>_. Some (LPtr 0)) cabi call n2 = Inr cc \<and> callKind call = CapturingClosure \<and>
       cregs m2 (calleeReg call) = cregs m1 (closureResult sample_create) \<and> cobjs m2 0 = cobjs m1 0 \<and>
       readRegs m2 (map fst (callArgs call)) = Some ys \<and> length [Scalar [7]] + length ys = length (calleeInputs sample_create) \<and>
       (\<forall>(v, t) \<in> set (callArgs call). v < n2) \<and> calleeReg call < n2 \<and>
       distinct (map fst (callResults call)) \<and> n2 + 2 \<notin> fst ` set (callResults call) \<and>
       length (callResults call) = length (calleeResults sample_create) \<and>
       first_arg f ([Scalar [7]] @ ys) (cobjs m2) = Some (res, h') \<and> packs (length (calleeResults sample_create)) res \<longrightarrow>
       (\<exists>m3. runCode win64_layout (\<lambda>h. 0) first_arg (wrappers st') cc m2 = Some m3 \<and> cobjs m3 = h' \<and> delivered (callResults call) res m3))"
    using closure_call_exact [OF layout _ b [unfolded sample_block_def] _ ty, of sample_machine "[Scalar [7]]" "\<lambda>h. 0" first_arg] fit
    by (auto simp: sample_create_def sample_machine_def dl)
  have "\<exists>m3. runCode win64_layout (\<lambda>h. 0) first_arg (wrappers st') cc (setR 2 (Scalar [9]) m1) = Some m3 \<and>
      cobjs m3 = cobjs m1 \<and> delivered (callResults sample_call) (Some (Scalar [7])) m3"
    using cc by (intro m1(4) [rule_format, of direct_cabi sample_call 20 cc _ "[Scalar [9]]"])
      (simp add: sample_call_def sample_create_def setR_def first_arg_def packs_def)
  then obtain m3 where m3: "runCode win64_layout (\<lambda>h. 0) first_arg (wrappers st') cc (setR 2 (Scalar [9]) m1) = Some m3"
      "delivered (callResults sample_call) (Some (Scalar [7])) m3" by blast
  moreover have "cregs m3 3 = Some (Scalar [7])" using m3(2) by (simp add: delivered_def sample_call_def)
  ultimately show ?thesis using b m1(1,3) cc by blast
qed

end
