(* ===== verification/Compilation_Options.thy ===== *)
theory Compilation_Options
  imports Text_Numbers
begin

text \<open>
  The options of one compilation (\<^verbatim>\<open>Mojo/lib/ToolCommon/CompilationOptions/CompilationOptions.cpp\<close>):
  construction, the defines that the compiler adds, the text that goes into cache keys, and the default
  CPU.  Enumerations whose names are not part of the sources are numbers, and their printers are arguments.
\<close>

section \<open>The options\<close>

datatype DebugInfoLevel = kNoDebug | kSynthetic | kLineTablesOnly | kFullDebugInfo

datatype DebugAtLevel = kDebugAtLLVM | kDebugUnset

datatype EmissionKind = EmitNoDebug | EmitLineTablesOnly | EmitFull

datatype CodeGenOptLevel = OptNone | OptLess | OptDefault | OptAggressive

datatype sanitizer = kAddress | kThread | OtherSanitizer nat

record compilation_options =
  optimizationLevel :: nat
  debugLevel :: DebugInfoLevel
  debugAtLevel :: "DebugAtLevel option"
  sanitizers :: "sanitizer set"
  targetTriple :: string
  targetCpu :: string
  targetFeatures :: string
  targetAccelerator :: string
  debugInfoLanguage :: nat
  searchPaths :: string
  extraSearchPaths :: "string list"
  elaborationErrorLimit :: int
  elaborationErrorIncludePrelude :: bool
  elaborationErrorVerbose :: nat
  elaborationMaxDepth :: nat
  relocModel :: nat
  numThreads :: nat
  targetDataLayout :: string
  saveTempsPrefix :: string
  enableParallelLLC :: bool
  enableLLVMPerFunctionSplitting :: bool
  verboseOutput :: bool
  emissionOptions :: string
  emissionLinkOptions :: string
  cacheBaseExtra :: string

section \<open>Targets\<close>

text \<open>
  The parts of a parsed triple that are read, and the traits of a registered target.  Parsing triples, the
  registry and the facts about the host are arguments.
\<close>

datatype object_format = ELF | MachO | COFF | OtherFormat nat

record target_triple =
  trArch :: string
  trOS :: string
  trOSVersion :: string
  trFormat :: object_format
  trStr :: string

record target_traits =
  defaultCPU :: "target_triple \<Rightarrow> string"
  traitsGPU :: bool
  asmExtension :: string

record target_host =
  parseTriple :: "string \<Rightarrow> target_triple"
  traitsLookup :: "target_triple \<Rightarrow> target_traits error_or"
  getDefaultTargetTriple :: string
  getHostCPUName :: string

definition lookupTraits :: "target_host \<Rightarrow> target_triple \<Rightarrow> target_traits option" where
  "lookupTraits th t = (case traitsLookup th t of Inl e \<Rightarrow> None | Inr traits \<Rightarrow> Some traits)"

definition setDefaultCPU :: "target_host \<Rightarrow> compilation_options \<Rightarrow> compilation_options" where
  "setDefaultCPU th opts =
     (let t = parseTriple th (targetTriple opts);
          targetDefault = (case lookupTraits th t of Some traits \<Rightarrow> defaultCPU traits t | None \<Rightarrow> []);
          hostTriple = parseTriple th (getDefaultTargetTriple th) in
      if targetDefault \<noteq> [] then opts\<lparr>targetCpu := targetDefault\<rparr>
      else if trArch t \<noteq> trArch hostTriple \<or> trOS t \<noteq> trOS hostTriple then opts\<lparr>targetCpu := []\<rparr>
      else opts\<lparr>targetCpu := getHostCPUName th\<rparr>)"

text \<open>
  The constructor: the members that have no argument keep the defaults of the class, and a request for an
  accelerator that the installation lacks stops it.
\<close>

definition CompilationOptions ::
  "target_host \<Rightarrow> (string \<Rightarrow> unit error_or) \<Rightarrow> compilation_options \<Rightarrow> nat \<Rightarrow> DebugInfoLevel \<Rightarrow> DebugAtLevel option \<Rightarrow>
   sanitizer set \<Rightarrow> string \<Rightarrow> string \<Rightarrow> string \<Rightarrow> string \<Rightarrow> int \<Rightarrow> bool \<Rightarrow> nat \<Rightarrow> nat \<Rightarrow> nat \<Rightarrow> string \<Rightarrow> string list \<Rightarrow>
   compilation_options error_or" where
  "CompilationOptions th requireMaxForAcceleratorRequest defaults optLevel dbgLevel dbgAt sans triple cpu features
     accelerator errorLimit includePrelude errorVerbose maxDepth lang search extraSearch =
     (let opts = defaults\<lparr>optimizationLevel := optLevel, debugLevel := dbgLevel, debugAtLevel := dbgAt,
            sanitizers := sans, targetTriple := triple, targetCpu := cpu, targetFeatures := features,
            targetAccelerator := accelerator, debugInfoLanguage := lang, searchPaths := search,
            extraSearchPaths := extraSearch, elaborationErrorLimit := errorLimit,
            elaborationErrorIncludePrelude := includePrelude, elaborationErrorVerbose := errorVerbose,
            elaborationMaxDepth := maxDepth\<rparr> in
      bind_err (requireMaxForAcceleratorRequest (targetAccelerator opts)) (\<lambda>_.
        Inr (if targetCpu opts = [] then setDefaultCPU th opts else opts)))"

definition isGPUTriple :: "target_host \<Rightarrow> target_triple \<Rightarrow> bool" where
  "isGPUTriple th t = (case lookupTraits th t of Some traits \<Rightarrow> traitsGPU traits | None \<Rightarrow> False)"

definition isMetalTriple :: "target_triple \<Rightarrow> bool" where
  "isMetalTriple t = starts_with ''air64-'' (trStr t)"

definition overrideExportedTriple :: "target_host \<Rightarrow> target_triple \<Rightarrow> bool" where
  "overrideExportedTriple th t = isGPUTriple th t"

definition overrideExported :: "target_host \<Rightarrow> compilation_options \<Rightarrow> bool" where
  "overrideExported th opts = overrideExportedTriple th (parseTriple th (targetTriple opts))"

section \<open>Levels and defines\<close>

text \<open>The levels LLVM knows are zero to three.\<close>

definition getLevel :: "nat \<Rightarrow> CodeGenOptLevel option" where
  "getLevel n = (if n = 0 then Some OptNone else if n = 1 then Some OptLess else if n = 2 then Some OptDefault
     else if n = 3 then Some OptAggressive else None)"

definition getCodeGenOptLevel :: "compilation_options \<Rightarrow> CodeGenOptLevel" where
  "getCodeGenOptLevel opts = (case getLevel (optimizationLevel opts) of Some l \<Rightarrow> l | None \<Rightarrow> OptAggressive)"

definition getDIEmissionKind :: "compilation_options \<Rightarrow> EmissionKind" where
  "getDIEmissionKind opts =
     (case debugLevel opts of
        kNoDebug \<Rightarrow> EmitNoDebug
      | kSynthetic \<Rightarrow> EmitLineTablesOnly
      | kLineTablesOnly \<Rightarrow> EmitLineTablesOnly
      | kFullDebugInfo \<Rightarrow> EmitFull)"

definition getDebugLevelString :: "compilation_options \<Rightarrow> string" where
  "getDebugLevelString opts =
     (case debugLevel opts of kFullDebugInfo \<Rightarrow> ''full'' | kLineTablesOnly \<Rightarrow> ''line-tables'' | _ \<Rightarrow> [])"

definition definesWithDefaults :: "compilation_options \<Rightarrow> string list \<Rightarrow> string list" where
  "definesWithDefaults opts defines =
     (case debugLevel opts of
        kFullDebugInfo \<Rightarrow> [''__DEBUG_LEVEL=full'']
      | kLineTablesOnly \<Rightarrow> [''__DEBUG_LEVEL=line-tables'']
      | _ \<Rightarrow> []) @
     [''__OPTIMIZATION_LEVEL='' @ natDigits (optimizationLevel opts),
      ''__SANITIZE_ADDRESS='' @ (if kAddress \<in> sanitizers opts then ''1'' else ''0'')] @ defines"

definition parseDefinesWithDefaults ::
  "(string list \<Rightarrow> 'env error_or) \<Rightarrow> compilation_options \<Rightarrow> string list \<Rightarrow> 'env error_or" where
  "parseDefinesWithDefaults parseDefines opts defines = parseDefines (definesWithDefaults opts defines)"

section \<open>The text of the options\<close>

text \<open>How the enumerations and the sanitizers are printed.\<close>

record printers =
  printSanitizers :: "sanitizer set \<Rightarrow> string"
  stringifyRelocationModel :: "nat \<Rightarrow> string"
  streamRelocModel :: "nat \<Rightarrow> string"
  printLanguage :: "nat \<Rightarrow> string"

definition printOptions :: "printers \<Rightarrow> compilation_options \<Rightarrow> string" where
  "printOptions pr opts =
     ''CompilationOptions { optimizationLevel: '' @ natDigits (optimizationLevel opts) @
     (if debugLevel opts \<noteq> kNoDebug then
        '', debugLevel: '' @
        (if debugLevel opts = kLineTablesOnly then ''line-tables''
         else if debugLevel opts = kSynthetic then ''synthetic'' else ''full'')
      else []) @
     (case debugAtLevel opts of
        Some l \<Rightarrow> '', debugAtLevel: '' @ (case l of kDebugAtLLVM \<Rightarrow> ''llvm'' | kDebugUnset \<Rightarrow> [])
      | None \<Rightarrow> []) @
     (if sanitizers opts \<noteq> {} then '', sanitizers:'' @ printSanitizers pr (sanitizers opts) else []) @
     '', relocModel: '' @ stringifyRelocationModel pr (relocModel opts) @
     (if targetAccelerator opts \<noteq> [] then '', targetAccelerator: '' @ targetAccelerator opts else []) @
     '', debugInfoLang: '' @ printLanguage pr (debugInfoLanguage opts) @
     (if numThreads opts \<noteq> 0 then '', numThreads: '' @ natDigits (numThreads opts) else []) @ '' }''"

section \<open>What the text of the options tells\<close>

lemma digits_then_separated:
  assumes "natDigits m @ c # r = natDigits n @ c' # r'" "\<not> is_digit c" "\<not> is_digit c'"
  shows "m = n \<and> c # r = c' # r'"
proof -
  have t: "takeWhile is_digit (natDigits k @ d # x) = natDigits k" if "\<not> is_digit d" for k d x
    using natDigits_digits [of k] that by (simp add: list_all_iff takeWhile_append2)
  have "natDigits m = natDigits n" using t [OF assms(2), of m r] t [OF assms(3), of n r'] assms(1) by simp
  then have "m = n" using parse_natDigits [of m] parse_natDigits [of n] by (metis option.inject)
  then show ?thesis using assms(1) by (metis same_append_eq)
qed

text \<open>Texts that agree come from the same level of optimization, and the target leaves no trace in a text.\<close>

lemma printOptions_level:
  assumes "printOptions pr a @ x = printOptions pr' b @ y"
  shows "optimizationLevel a = optimizationLevel b"
proof -
  have "\<exists>r. printOptions q o1 = ''CompilationOptions { optimizationLevel: '' @ natDigits (optimizationLevel o1) @ CHR '','' # r" for q o1
    by (cases "debugAtLevel o1") (simp_all add: printOptions_def)
  then obtain r r' where
      "printOptions pr a = ''CompilationOptions { optimizationLevel: '' @ natDigits (optimizationLevel a) @ CHR '','' # r"
      "printOptions pr' b = ''CompilationOptions { optimizationLevel: '' @ natDigits (optimizationLevel b) @ CHR '','' # r'"
    by metis
  then have "natDigits (optimizationLevel a) @ CHR '','' # (r @ x) = natDigits (optimizationLevel b) @ CHR '','' # (r' @ y)"
    using assms by simp
  then show ?thesis
    by (rule digits_then_separated [THEN conjunct1]) (simp_all add: is_digit_def less_eq_char_def)
qed

lemma printOptions_ignores_target:
  "printOptions pr (opts\<lparr>targetTriple := t, targetCpu := c, targetFeatures := f\<rparr>) = printOptions pr opts"
  by (simp add: printOptions_def)

section \<open>Building for another machine\<close>

text \<open>The target of a triple is the host itself.\<close>

definition native_target :: "target_host \<Rightarrow> string \<Rightarrow> bool" where
  "native_target th triple \<longleftrightarrow>
     trArch (parseTriple th triple) = trArch (parseTriple th (getDefaultTargetTriple th)) \<and>
     trOS (parseTriple th triple) = trOS (parseTriple th (getDefaultTargetTriple th))"

text \<open>
  C12. The options for a target with another architecture or another system than the host do not depend on
  the host: two machines that know the same targets build the same options from the same arguments, so
  no CPU of a build machine gets into a program that is built for somebody else.
\<close>

theorem cross_options_host_independent:
  assumes "\<not> native_target th triple" "\<not> native_target th' triple"
    and "parseTriple th' = parseTriple th" "traitsLookup th' = traitsLookup th"
  shows "CompilationOptions th' req defaults level dbg dbgAt sans triple cpu features acc limit prelude verbose depth lang search extra =
    CompilationOptions th req defaults level dbg dbgAt sans triple cpu features acc limit prelude verbose depth lang search extra"
  using assms
  by (auto simp: CompilationOptions_def setDefaultCPU_def lookupTraits_def native_target_def Let_def bind_err_def
      split: sum.splits)

definition two_part_triple :: "string \<Rightarrow> target_triple" where
  "two_part_triple s = \<lparr>trArch = takeWhile (\<lambda>c. c \<noteq> CHR ''-'') s, trOS = drop 1 (dropWhile (\<lambda>c. c \<noteq> CHR ''-'') s),
     trOSVersion = [], trFormat = ELF, trStr = s\<rparr>"

definition linux_host :: "string \<Rightarrow> target_host" where
  "linux_host cpu = \<lparr>parseTriple = two_part_triple, traitsLookup = (\<lambda>_. Inl ''no target''),
     getDefaultTargetTriple = ''x86_64-linux'', getHostCPUName = cpu\<rparr>"

definition plain_compilation :: compilation_options where
  "plain_compilation = \<lparr>optimizationLevel = 3, debugLevel = kNoDebug, debugAtLevel = None, sanitizers = {},
     targetTriple = ''x86_64-linux'', targetCpu = [], targetFeatures = [], targetAccelerator = [], debugInfoLanguage = 0,
     searchPaths = [], extraSearchPaths = [], elaborationErrorLimit = 20, elaborationErrorIncludePrelude = False,
     elaborationErrorVerbose = 0, elaborationMaxDepth = 10, relocModel = 0, numThreads = 0, targetDataLayout = [],
     saveTempsPrefix = [], enableParallelLLC = True, enableLLVMPerFunctionSplitting = True, verboseOutput = False,
     emissionOptions = [], emissionLinkOptions = [], cacheBaseExtra = []\<rparr>"

theorem cross_options_host_independent_witness:
  "CompilationOptions (linux_host ''raptorlake'') (\<lambda>_. Inr ()) plain_compilation 3 kNoDebug None {} ''x86_64-windows'' [] [] [] 0 False 0 0 0 [] [] =
     CompilationOptions (linux_host ''znver4'') (\<lambda>_. Inr ()) plain_compilation 3 kNoDebug None {} ''x86_64-windows'' [] [] [] 0 False 0 0 0 [] []"
  by (rule cross_options_host_independent) (simp_all add: native_target_def linux_host_def two_part_triple_def)

text \<open>On the host itself the CPU is the host's.\<close>

lemma native_options_take_host_cpu:
  "map_sum id targetCpu (CompilationOptions (linux_host ''znver4'') (\<lambda>_. Inr ()) plain_compilation 3 kNoDebug None {} ''x86_64-linux'' [] [] [] 0 False 0 0 0 [] []) =
     Inr ''znver4''"
  by (simp add: CompilationOptions_def setDefaultCPU_def lookupTraits_def linux_host_def two_part_triple_def bind_err_def)

end
