(* ===== verification/Object_Modules.thy ===== *)
theory Object_Modules
  imports Compilation_Options
begin

text \<open>
  What the object compiler does to LLVM modules itself
  (\<^verbatim>\<open>Mojo/lib/Compiler/ObjectCompiler/ObjectCompiler.cpp\<close>): attributes of sanitizers, symbols for COFF
  exports, the order of functions, the number of an offload kernel, and linking bitcode libraries.
  LLVM's loader and linker and the hooks of the target backend are arguments.
\<close>

section \<open>Modules\<close>

datatype linkage = ExternalLinkage | AvailableExternallyLinkage | InternalLinkage | PrivateLinkage
  | AppendingLinkage | OtherLinkage nat

datatype visibility = DefaultVisibility | HiddenVisibility | ProtectedVisibility

datatype dll_storage = DefaultStorage | DLLImportStorage | DLLExportStorage

datatype fn_attr = EnumAttr string | StringAttr string string

text \<open>A function, variable, alias or resolver of a module; the empty name is no name.\<close>

record global_value =
  gvName :: string
  isFunction :: bool
  isDeclaration :: bool
  isIntrinsic :: bool
  gvLinkage :: linkage
  gvVisibility :: visibility
  gvDLLStorage :: dll_storage
  fnAttrs :: "fn_attr list"

text \<open>A module, with the functions of it that another part of the program generates code for.\<close>

record llvm_module =
  moduleName :: string
  moduleTriple :: string
  moduleLayout :: string
  globalValues :: "global_value list"
  duplicatedFns :: "string set"

definition moduleFunctions :: "llvm_module \<Rightarrow> global_value list" where
  "moduleFunctions m = filter isFunction (globalValues m)"

definition definedFns :: "llvm_module \<Rightarrow> string list" where
  "definedFns m = map gvName (filter (\<lambda>g. \<not> isDeclaration g) (moduleFunctions m))"

definition isDeclarationForLinker :: "global_value \<Rightarrow> bool" where
  "isDeclarationForLinker g \<longleftrightarrow> gvLinkage g = AvailableExternallyLinkage \<or> isDeclaration g"

definition hasLocalLinkage :: "global_value \<Rightarrow> bool" where
  "hasLocalLinkage g \<longleftrightarrow> gvLinkage g = InternalLinkage \<or> gvLinkage g = PrivateLinkage"

section \<open>Attributes, exports and order\<close>

definition addFnAttr :: "string \<Rightarrow> global_value \<Rightarrow> global_value" where
  "addFnAttr a g = (if EnumAttr a \<in> set (fnAttrs g) then g else g\<lparr>fnAttrs := fnAttrs g @ [EnumAttr a]\<rparr>)"

definition attachInstrumentationAttributes :: "compilation_options \<Rightarrow> llvm_module \<Rightarrow> llvm_module" where
  "attachInstrumentationAttributes opts m =
     (if sanitizers opts = {} then m
      else m\<lparr>globalValues := map (\<lambda>f.
        if \<not> isFunction f \<or> isDeclaration f then f
        else
          let f = (if kAddress \<in> sanitizers opts then addFnAttr ''sanitize_address'' f else f) in
          if kThread \<in> sanitizers opts then addFnAttr ''sanitize_thread'' f else f) (globalValues m)\<rparr>)"

definition markForExport :: "global_value \<Rightarrow> global_value" where
  "markForExport g =
     (if isDeclarationForLinker g \<or> hasLocalLinkage g \<or> gvLinkage g = AppendingLinkage then g
      else if gvVisibility g \<noteq> DefaultVisibility then g
      else if gvDLLStorage g = DLLImportStorage then g
      else g\<lparr>gvDLLStorage := DLLExportStorage\<rparr>)"

definition markDefinitionsForCOFFExport :: "llvm_module \<Rightarrow> llvm_module" where
  "markDefinitionsForCOFFExport m = m\<lparr>globalValues := map markForExport (globalValues m)\<rparr>"

text \<open>The position of each defined function; a name that is there already keeps its position.\<close>

fun fnOrderingFrom :: "nat \<Rightarrow> string list \<Rightarrow> (string \<rightharpoonup> nat) \<Rightarrow> (string \<rightharpoonup> nat)" where
  "fnOrderingFrom idx [] result = result"
| "fnOrderingFrom idx (f # fs) result =
     fnOrderingFrom (idx + 1) fs (if result f = None then result(f \<mapsto> idx) else result)"

definition computeFnOrdering :: "llvm_module \<Rightarrow> (string \<rightharpoonup> nat)" where
  "computeFnOrdering m = fnOrderingFrom 0 (definedFns m) Map.empty"

section \<open>The number of a kernel\<close>

definition kernelIdKey :: string where
  "kernelIdKey = ''kgen.offload.kernelid''"

fun kernelIdOf :: "(string \<Rightarrow> nat option) \<Rightarrow> fn_attr list \<Rightarrow> nat option" where
  "kernelIdOf to_integer [] = None"
| "kernelIdOf to_integer (EnumAttr a # as) = kernelIdOf to_integer as"
| "kernelIdOf to_integer (StringAttr k v # as) =
     (if k = kernelIdKey then (case to_integer v of Some n \<Rightarrow> Some n | None \<Rightarrow> kernelIdOf to_integer as)
      else kernelIdOf to_integer as)"

definition removeKernelId :: "global_value \<Rightarrow> global_value" where
  "removeKernelId g =
     g\<lparr>fnAttrs := filter (\<lambda>a. case a of EnumAttr _ \<Rightarrow> True | StringAttr k v \<Rightarrow> k \<noteq> kernelIdKey) (fnAttrs g)\<rparr>"

fun findKernel :: "(string \<Rightarrow> nat option) \<Rightarrow> global_value list \<Rightarrow> (nat \<times> string \<times> global_value list) option" where
  "findKernel to_integer [] = None"
| "findKernel to_integer (f # fs) =
     (case (if \<not> isFunction f \<or> isDeclaration f then None else kernelIdOf to_integer (fnAttrs f)) of
        Some kernelId \<Rightarrow> Some (kernelId, gvName f, removeKernelId f # fs)
      | None \<Rightarrow> map_option (\<lambda>(kernelId, entry, fs). (kernelId, entry, f # fs)) (findKernel to_integer fs))"

definition getKernelIDFromLLVMModule ::
  "(string \<Rightarrow> nat option) \<Rightarrow> llvm_module \<Rightarrow> (nat \<times> string \<times> llvm_module) error_or" where
  "getKernelIDFromLLVMModule to_integer m =
     (case findKernel to_integer (globalValues m) of
        Some (kernelId, entry, gs) \<Rightarrow> Inr (kernelId, entry, m\<lparr>globalValues := gs\<rparr>)
      | None \<Rightarrow> Inl ''Can't find kgen.offload.kernelid from the llvm split.'')"

section \<open>Bitcode libraries\<close>

text \<open>A library is a file, a resource of a package, or an attribute of another kind, which is passed over.\<close>

datatype library_attr = FileLibrary string | ResourceLibrary nat | OtherAttr nat

text \<open>
  The backend's own libraries and its policy, loading, and linking one module into another: the linker gives
  the linked module and the names of the values it brought in, or fails.
\<close>

record link_calls =
  linkRuntimeLibraries :: "compilation_options \<Rightarrow> llvm_module \<Rightarrow> llvm_module error_or"
  onlyLinkExternFunctions :: "compilation_options \<Rightarrow> bool"
  is_regular_file :: "string \<Rightarrow> bool"
  getLazyIRFileModule :: "string \<Rightarrow> llvm_module error_or"
  getBlob :: "nat \<Rightarrow> string option"
  getOwningLazyBitcodeModule :: "string \<Rightarrow> llvm_module error_or"
  linkInModule :: "bool \<Rightarrow> llvm_module \<Rightarrow> llvm_module \<Rightarrow> (llvm_module \<times> string set) option"
  internalizeModule :: "(global_value \<Rightarrow> bool) \<Rightarrow> llvm_module \<Rightarrow> llvm_module"

definition loadBitcodeFile :: "link_calls \<Rightarrow> string \<Rightarrow> llvm_module error_or" where
  "loadBitcodeFile lc path =
     (if \<not> is_regular_file lc path then
        Inl (''Bitcode file path: '' @ path @ '' does not exist or is not a file.'')
      else case getLazyIRFileModule lc path of
        Inl message \<Rightarrow> Inl (''Failed loading bitcode file from '' @ path @ '', error: '' @ message)
      | Inr library \<Rightarrow> Inr library)"

definition loadBitcodeFromResource :: "link_calls \<Rightarrow> nat \<Rightarrow> llvm_module error_or" where
  "loadBitcodeFromResource lc attr =
     (case getBlob lc attr of
        None \<Rightarrow> Inl ''Failed to get bitcode blob from resource attribute''
      | Some bitcodeData \<Rightarrow>
          (case getOwningLazyBitcodeModule lc bitcodeData of
             Inl e \<Rightarrow> Inl (''Failed to parse bitcode from package: '' @ e)
           | Inr m \<Rightarrow> Inr m))"

definition hasExternFunctions :: "llvm_module \<Rightarrow> bool" where
  "hasExternFunctions m \<longleftrightarrow>
     list_ex (\<lambda>f. isDeclaration f \<and> (gvLinkage f = ExternalLinkage \<or> gvVisibility f = HiddenVisibility) \<and>
       \<not> isIntrinsic f) (moduleFunctions m)"

text \<open>A value keeps its linkage unless it has a name and came in with the library.\<close>

definition mustPreserve :: "string set \<Rightarrow> global_value \<Rightarrow> bool" where
  "mustPreserve gvs g \<longleftrightarrow> gvName g = [] \<or> gvName g \<notin> gvs"

definition linkModule :: "link_calls \<Rightarrow> bool \<Rightarrow> llvm_module \<Rightarrow> llvm_module \<Rightarrow> llvm_module error_or" where
  "linkModule lc onlyLinkExtern libModule m =
     (if moduleTriple libModule \<noteq> moduleTriple m then Inr m
      else case linkInModule lc onlyLinkExtern m libModule of
        None \<Rightarrow> Inl ''Unrecoverable failure during bitcode linking.''
      | Some (m, gvs) \<Rightarrow> Inr (internalizeModule lc (mustPreserve gvs) m))"

definition linkLibrary :: "link_calls \<Rightarrow> bool \<Rightarrow> library_attr \<Rightarrow> llvm_module \<Rightarrow> llvm_module error_or" where
  "linkLibrary lc onlyLinkExtern library m =
     (case library of
        FileLibrary path \<Rightarrow> bind_err (loadBitcodeFile lc path) (\<lambda>l. linkModule lc onlyLinkExtern l m)
      | ResourceLibrary attr \<Rightarrow> bind_err (loadBitcodeFromResource lc attr) (\<lambda>l. linkModule lc onlyLinkExtern l m)
      | OtherAttr _ \<Rightarrow> Inr m)"

definition markUsed :: "bool \<times> library_attr \<Rightarrow> bool \<times> library_attr" where
  "markUsed entry = (case entry of (used, OtherAttr a) \<Rightarrow> (used, OtherAttr a) | (used, library) \<Rightarrow> (True, library))"

fun linkLibraries ::
  "link_calls \<Rightarrow> bool \<Rightarrow> (bool \<times> library_attr) list \<Rightarrow> llvm_module \<Rightarrow>
   unit error_or \<times> llvm_module \<times> (bool \<times> library_attr) list" where
  "linkLibraries lc onlyLinkExtern [] m = (Inr (), m, [])"
| "linkLibraries lc onlyLinkExtern ((used, library) # libs) m =
     (case linkLibrary lc onlyLinkExtern library m of
        Inl e \<Rightarrow> (Inl e, m, (used, library) # libs)
      | Inr m \<Rightarrow>
          (case linkLibraries lc onlyLinkExtern libs m of
             (r, m, libs) \<Rightarrow> (r, m, markUsed (used, library) # libs)))"

definition linkBitcodeLibraries ::
  "link_calls \<Rightarrow> compilation_options \<Rightarrow> (bool \<times> library_attr) list \<Rightarrow> llvm_module \<Rightarrow>
   unit error_or \<times> llvm_module \<times> (bool \<times> library_attr) list" where
  "linkBitcodeLibraries lc opts bitcodeLibs m =
     (case linkRuntimeLibraries lc opts m of
        Inl e \<Rightarrow> (Inl e, m, bitcodeLibs)
      | Inr m \<Rightarrow>
          if bitcodeLibs = [] then (Inr (), m, bitcodeLibs)
          else if \<not> hasExternFunctions m \<and> onlyLinkExternFunctions lc opts then (Inr (), m, bitcodeLibs)
          else linkLibraries lc (onlyLinkExternFunctions lc opts) bitcodeLibs m)"

section \<open>Exports\<close>

text \<open>
  The symbols an ELF or Mach-O image would publish: definitions that are visible from outside, other than the
  appending ones; and the symbols that ask for an export.
\<close>

definition publishes :: "global_value \<Rightarrow> bool" where
  "publishes g \<longleftrightarrow> \<not> isDeclarationForLinker g \<and> \<not> hasLocalLinkage g \<and> gvLinkage g \<noteq> AppendingLinkage \<and>
     gvVisibility g = DefaultVisibility"

definition exports :: "llvm_module \<Rightarrow> string list" where
  "exports m = map gvName (filter (\<lambda>g. gvDLLStorage g = DLLExportStorage) (globalValues m))"

lemma markForExport_export:
  "gvDLLStorage (markForExport g) = DLLExportStorage \<longleftrightarrow>
     gvDLLStorage g = DLLExportStorage \<or> publishes g \<and> gvDLLStorage g \<noteq> DLLImportStorage"
  by (auto simp: markForExport_def publishes_def)

lemma markForExport_rest: "(markForExport g)\<lparr>gvDLLStorage := s\<rparr> = g\<lparr>gvDLLStorage := s\<rparr>"
  by (simp add: markForExport_def)

lemma gvName_markForExport [simp]: "gvName (markForExport g) = gvName g"
  by (simp add: markForExport_def)

lemma exports_marked:
  assumes "exports m = []"
  shows "exports (markDefinitionsForCOFFExport m) =
    map gvName (filter (\<lambda>g. publishes g \<and> gvDLLStorage g \<noteq> DLLImportStorage) (globalValues m))"
proof -
  have "\<forall>g \<in> set (globalValues m). gvDLLStorage g \<noteq> DLLExportStorage"
    using assms by (simp add: exports_def filter_empty_conv)
  then have "filter (\<lambda>g. gvDLLStorage (markForExport g) = DLLExportStorage) (globalValues m) =
      filter (\<lambda>g. publishes g \<and> gvDLLStorage g \<noteq> DLLImportStorage) (globalValues m)"
    by (intro filter_cong) (simp_all add: markForExport_export)
  then show ?thesis by (simp add: exports_def markDefinitionsForCOFFExport_def filter_map comp_def)
qed

section \<open>The order of functions\<close>

lemma fnOrderingFrom_answer:
  "distinct fs \<Longrightarrow> fnOrderingFrom idx fs res f =
     (if res f \<noteq> None then res f else if f \<in> set fs then Some (idx + length (takeWhile (\<lambda>g. g \<noteq> f) fs)) else None)"
  by (induction fs arbitrary: idx res) auto

lemma computeFnOrdering_sorts:
  assumes "distinct (definedFns m)" "i < length (definedFns m)"
  shows "computeFnOrdering m (definedFns m ! i) = Some i"
proof -
  have "takeWhile (\<lambda>g. g \<noteq> definedFns m ! i) (definedFns m) = take i (definedFns m)"
    using assms by (intro takeWhile_eq_take_P_nth) (auto simp: nth_eq_iff_index_eq)
  then show ?thesis using assms by (simp add: computeFnOrdering_def fnOrderingFrom_answer)
qed

section \<open>Kernels that differ only in their number\<close>

definition withKernelId :: "string \<Rightarrow> global_value \<Rightarrow> global_value" where
  "withKernelId v g = g\<lparr>fnAttrs := StringAttr kernelIdKey v # fnAttrs g\<rparr>"

lemma removeKernelId_with [simp]: "removeKernelId (withKernelId v g) = removeKernelId g"
  by (simp add: removeKernelId_def withKernelId_def)

lemma findKernel_skips:
  assumes "findKernel ti pre = None"
  shows "findKernel ti (pre @ fs) = map_option (\<lambda>(k, e, gs). (k, e, pre @ gs)) (findKernel ti fs)"
  using assms
proof (induction pre)
  case Nil
  then show ?case by (cases "findKernel ti fs") auto
next
  case (Cons f pre)
  then have "findKernel ti pre = None" "(if \<not> isFunction f \<or> isDeclaration f then None else kernelIdOf ti (fnAttrs f)) = None"
    by (auto split: option.splits if_splits)
  then show ?case using Cons.IH by (cases "findKernel ti fs") auto
qed

text \<open>The number leaves no trace in the module, so two kernels with equal code have equal modules.\<close>

lemma kernel_id_leaves_no_trace:
  assumes "to_integer v = Some n" "isFunction g" "\<not> isDeclaration g" "findKernel to_integer pre = None"
    and "globalValues m = pre @ withKernelId v g # post"
  shows "getKernelIDFromLLVMModule to_integer m =
    Inr (n, gvName g, m\<lparr>globalValues := pre @ removeKernelId g # post\<rparr>)"
proof -
  have w: "isFunction (withKernelId v g)" "\<not> isDeclaration (withKernelId v g)"
      "fnAttrs (withKernelId v g) = StringAttr kernelIdKey v # fnAttrs g" "gvName (withKernelId v g) = gvName g"
    using assms by (simp_all add: withKernelId_def)
  show ?thesis
    using assms w by (simp add: getKernelIDFromLLVMModule_def findKernel_skips)
qed

section \<open>Linking libraries\<close>

text \<open>Linking a list of libraries, one after the other, without the book-keeping.\<close>

fun linkAll :: "link_calls \<Rightarrow> bool \<Rightarrow> library_attr list \<Rightarrow> llvm_module \<Rightarrow> llvm_module error_or" where
  "linkAll lc only [] m = Inr m"
| "linkAll lc only (l # ls) m = bind_err (linkLibrary lc only l m) (linkAll lc only ls)"

lemma linkLibraries_prefix:
  "\<exists>k \<le> length libs. \<exists>m'.
     linkAll lc only (map snd (take k libs)) m = Inr m' \<and>
     fst (snd (linkLibraries lc only libs m)) = m' \<and>
     snd (snd (linkLibraries lc only libs m)) = map markUsed (take k libs) @ drop k libs \<and>
     fst (linkLibraries lc only libs m) =
       (if k = length libs then Inr () else map_sum id (\<lambda>_. ()) (linkLibrary lc only (snd (libs ! k)) m')) \<and>
     (k < length libs \<longrightarrow> (\<exists>e. linkLibrary lc only (snd (libs ! k)) m' = Inl e))"
proof (induction libs arbitrary: m)
  case Nil
  then show ?case by simp
next
  case (Cons l libs)
  obtain used library where l: "l = (used, library)" by (cases l)
  show ?case
  proof (cases "linkLibrary lc only library m")
    case (Inl e)
    then show ?thesis using l by (intro exI [of _ 0]) simp
  next
    case (Inr m1)
    from Cons.IH [of m1] obtain k m' where k: "k \<le> length libs" "linkAll lc only (map snd (take k libs)) m1 = Inr m'"
        "fst (snd (linkLibraries lc only libs m1)) = m'"
        "snd (snd (linkLibraries lc only libs m1)) = map markUsed (take k libs) @ drop k libs"
        "fst (linkLibraries lc only libs m1) =
          (if k = length libs then Inr () else map_sum id (\<lambda>_. ()) (linkLibrary lc only (snd (libs ! k)) m'))"
        "k < length libs \<longrightarrow> (\<exists>e. linkLibrary lc only (snd (libs ! k)) m' = Inl e)"
      by blast
    then show ?thesis using l Inr
      by (cases "linkLibraries lc only libs m1") (intro exI [of _ "Suc k"], simp add: bind_err_def)
  qed
qed

end
