(* ===== verification/Object_Pipeline.thy ===== *)
theory Object_Pipeline
  imports Object_Modules
begin

text \<open>
  From a module of the compiler to an archive
  (\<^verbatim>\<open>Mojo/lib/Compiler/ObjectCompiler/ObjectCompiler.cpp\<close>): lowering, optimizing and generating code for
  the splits of a module on a work queue, linking the results, and the cached transformation around it all.
  The passes, the translations, the splitting, the linker of machine code, the cache and the hooks of the
  target backend are arguments.  Tasks of the work queue take turns in any order; assertions are not
  checked.
\<close>

section \<open>The services\<close>

datatype split_strategy = SplitNone | SplitPerFunction | SplitPerExported

record target_machine =
  machineLayout :: string
  asmVerbose :: bool
  preserveAsmComments :: bool

record 'op backend =
  backendName :: string
  isCodegenInterprocedural :: bool
  requiresOriginalFunctionOrder :: bool
  isOffload :: bool
  splitStrategy :: "compilation_options \<Rightarrow> split_strategy"
  adjustOptionsForTargetMachine :: "compilation_options \<Rightarrow> string \<Rightarrow> compilation_options"
  prepareModuleForLowering :: "compilation_options \<Rightarrow> 'op \<Rightarrow> 'op"
  appendLinkArgs :: "compilation_options \<Rightarrow> string list"
  finalizeModuleForTarget :: "target_machine \<Rightarrow> string \<Rightarrow> llvm_module \<Rightarrow> llvm_module"
  attachCodegenAttributes :: "string \<Rightarrow> llvm_module \<Rightarrow> llvm_module"
  backendEmitBitcode :: "llvm_module \<Rightarrow> string"

record mc_info =
  mcBitcode :: string
  mcModule :: llvm_module
  fnNameToFnPtr :: "string set"
  mcMachine :: target_machine
  mcContextMachine :: target_machine
  mcSplitIdx :: "nat option"

record symbol_info =
  symbolLinkageTypes :: "string \<rightharpoonup> linkage"
  mcInfos :: "mc_info list"

text \<open>
  What the compiler calls: the queue's parallelism, the target registries, the passes (each may fail), the
  two translations, splitting into functions or exported functions (with the linkage that the former
  records), bitcode, and the linker of machine code.
\<close>

record 'op toolchain =
  parallelismLevel :: nat
  targetHost :: target_host
  linkCalls :: link_calls
  printersOf :: printers
  production :: bool
  backendLookup :: "target_triple \<Rightarrow> 'op backend error_or"
  defaultCreateTargetMachine :: "compilation_options \<Rightarrow> bool \<Rightarrow> target_machine error_or"
  writeTempModule :: "string \<Rightarrow> string \<Rightarrow> bool"
  writeBytesToTempWithHash :: "string \<Rightarrow> string \<Rightarrow> string \<Rightarrow> bool"
  lowerToLLVMPipeline :: "compilation_options \<Rightarrow> 'op \<Rightarrow> 'op option"
  moduleFile :: "'op \<Rightarrow> string option"
  pathFilename :: "string \<Rightarrow> string"
  mlirToLLVMIR :: "string \<Rightarrow> 'op \<Rightarrow> llvm_module option"
  nullModuleError :: string
  parseAAPipeline :: bool
  optimizationPipeline :: "compilation_options \<Rightarrow> target_machine \<Rightarrow> llvm_module \<Rightarrow> llvm_module"
  verifyModule :: "llvm_module \<Rightarrow> bool"
  addPassesToEmitMC :: "compilation_options \<Rightarrow> target_machine \<Rightarrow> nat \<Rightarrow> bool"
  addPassesToEmitFile :: "compilation_options \<Rightarrow> target_machine \<Rightarrow> bool \<Rightarrow> bool"
  codegenPasses :: "compilation_options \<Rightarrow> target_machine \<Rightarrow> llvm_module \<Rightarrow> llvm_module"
  printMachineCode :: "compilation_options \<Rightarrow> target_machine \<Rightarrow> bool \<Rightarrow> llvm_module \<Rightarrow> string"
  splitPerFunction :: "nat \<Rightarrow> nat \<Rightarrow> llvm_module \<Rightarrow> (llvm_module \<times> nat option \<times> nat) list"
  splitLinkage :: "llvm_module \<Rightarrow> (string \<rightharpoonup> linkage)"
  splitPerExported :: "llvm_module \<Rightarrow> (llvm_module \<times> nat option \<times> nat) list"
  writeBitcode :: "llvm_module \<Rightarrow> string"
  parseBitcode :: "string \<Rightarrow> llvm_module option"
  linkAndPrint :: "target_machine \<Rightarrow> symbol_info list \<Rightarrow> (string \<rightharpoonup> linkage) \<Rightarrow> (string \<rightharpoonup> nat) \<Rightarrow> string \<Rightarrow> bool \<Rightarrow> string error_or"
  cachedBuffer :: "string \<Rightarrow> 'op \<Rightarrow> string option"

text \<open>The compiler object, without the caches and references that do not change.\<close>

record 'op object_compiler =
  compOptions :: compilation_options
  compBackend :: "'op backend"
  isJIT :: bool
  compLinker :: string
  sharedObjectLinkArgs :: "string list"
  bitcodeLibs :: "(bool \<times> library_attr) list"
  seenCodeGenFns :: "string set"

definition natOpt :: "string \<Rightarrow> nat option \<Rightarrow> string" where
  "natOpt sep n = (case n of Some i \<Rightarrow> sep @ natDigits i | None \<Rightarrow> [])"

text \<open>The values of a list of results, or the first diagnostic among them.\<close>

fun allValues :: "'a error_or list \<Rightarrow> 'a list error_or" where
  "allValues [] = Inr []"
| "allValues (r # rs) = bind_err r (\<lambda>v. bind_err (allValues rs) (\<lambda>vs. Inr (v # vs)))"

lemma allValues_map [simp]: "allValues (map Inr vs) = Inr vs"
  by (induction vs) (simp_all add: bind_err_def)

lemma allValues_Inr: "allValues rs = Inr vs \<longleftrightarrow> rs = map Inr vs"
proof
  show "allValues rs = Inr vs \<Longrightarrow> rs = map Inr vs"
    by (induction rs arbitrary: vs) (auto simp: bind_err_def split: sum.splits)
qed simp

section \<open>Passes\<close>

definition runLLVMOptPasses :: "'op toolchain \<Rightarrow> compilation_options \<Rightarrow> target_machine \<Rightarrow> llvm_module \<Rightarrow> llvm_module option" where
  "runLLVMOptPasses tc opts tm m =
     (if \<not> parseAAPipeline tc then None else Some (optimizationPipeline tc opts tm m))"

text \<open>
  Generating code: up to machine functions when \<open>stopBeforeAsmPrint\<close> (with the context of the shared machine,
  if there is one), or printed as an object or assembly.  The module after the passes, the machine of the
  context, and the bytes.
\<close>

definition runLlcPasses ::
  "'op toolchain \<Rightarrow> compilation_options \<Rightarrow> target_machine \<Rightarrow> bool \<Rightarrow> bool \<Rightarrow> nat \<Rightarrow> target_machine option \<Rightarrow> llvm_module \<Rightarrow>
   (llvm_module \<times> target_machine \<times> string) option" where
  "runLlcPasses tc opts tm objectFile stopBeforeAsmPrint numFunctionsBase sharedTargetMachine m =
     (if \<not> production tc \<and> \<not> verifyModule tc m then None
      else if stopBeforeAsmPrint then
        (if \<not> addPassesToEmitMC tc opts tm numFunctionsBase then None
         else Some (codegenPasses tc opts tm m, (case sharedTargetMachine of Some s \<Rightarrow> s | None \<Rightarrow> tm), []))
      else if \<not> addPassesToEmitFile tc opts tm objectFile then None
      else Some (codegenPasses tc opts tm m, tm, printMachineCode tc opts tm objectFile (codegenPasses tc opts tm m)))"

definition createTargetMachine :: "'op toolchain \<Rightarrow> compilation_options \<Rightarrow> bool \<Rightarrow> target_machine error_or" where
  "createTargetMachine tc opts jit =
     bind_err (backendLookup tc (parseTriple (targetHost tc) (targetTriple opts))) (\<lambda>backend.
       defaultCreateTargetMachine tc (adjustOptionsForTargetMachine backend opts (targetTriple opts)) jit)"

definition optimizeLLVMModule ::
  "'op toolchain \<Rightarrow> compilation_options \<Rightarrow> target_machine \<Rightarrow> nat option \<Rightarrow> llvm_module \<Rightarrow> llvm_module option" where
  "optimizeLLVMModule tc opts tm moduleIdx m =
     (let m = m\<lparr>moduleLayout := (if targetDataLayout opts = [] then machineLayout tm else targetDataLayout opts)\<rparr>;
          prefix = saveTempsPrefix opts @ (if saveTempsPrefix opts \<noteq> [] then natOpt ''.'' moduleIdx else []) in
      if \<not> writeTempModule tc prefix ''.pre-opt'' then None
      else do {
        m \<leftarrow> runLLVMOptPasses tc opts tm m;
        if \<not> writeTempModule tc prefix ''.post-opt'' then None else Some m
      })"

section \<open>Code for one module\<close>

text \<open>
  With per-function code generation the module goes through bitcode, behind the text of the options, into
  a context of its own.
\<close>

definition reloadModule :: "'op toolchain \<Rightarrow> compilation_options \<Rightarrow> llvm_module \<Rightarrow> llvm_module option" where
  "reloadModule tc opts m =
     (let keyText = ''compileOptimizedLLVMModuleToObject('' @ printOptions (printersOf tc) opts @ '')'';
          keyBuf = keyText @ writeBitcode tc m in
      parseBitcode tc (drop (length keyText) keyBuf))"

definition compileOptimizedLLVMModuleToObject ::
  "'op toolchain \<Rightarrow> 'op object_compiler \<Rightarrow> target_machine \<Rightarrow> bool \<Rightarrow> nat option \<Rightarrow> nat option \<Rightarrow> nat \<Rightarrow> llvm_module \<Rightarrow>
   mc_info error_or" where
  "compileOptimizedLLVMModuleToObject tc c shared isParLLC moduleIdx splitIdx numFunctionBase m =
     (let opts = compOptions c in
      if isCodegenInterprocedural (compBackend c) \<and> isParLLC then
        Inl ''cannot do per function codegen for an inter-procedural backend.''
      else case (if isParLLC then reloadModule tc opts m else Some m) of
        None \<Rightarrow> Inl ''failed to load LLVM IR bitcode''
      | Some m \<Rightarrow>
          (case createTargetMachine tc opts (isJIT c) of
             Inl e \<Rightarrow> Inl ''failed to create TargetMachine''
           | Inr tm \<Rightarrow>
               (let tm = tm\<lparr>asmVerbose := verboseOutput opts, preserveAsmComments := verboseOutput opts\<rparr>;
                    prefix = saveTempsPrefix opts @
                      (if saveTempsPrefix opts \<noteq> [] then natOpt ''_'' moduleIdx @ natOpt ''__'' splitIdx else []) in
                if \<not> writeTempModule tc prefix ''.pre-llc'' then Inl ''failed save pre-llc llvm IR''
                else case runLlcPasses tc opts tm True True numFunctionBase (Some shared) m of
                  None \<Rightarrow> Inl ''llc failed to codegen LLVM IR to object code''
                | Some (m, ctx, _) \<Rightarrow>
                    if saveTempsPrefix opts \<noteq> [] \<and> \<not> writeTempModule tc prefix ''.post-llc'' then
                      Inl ''failed save post-llc llvm IR''
                    else Inr \<lparr>mcBitcode = writeBitcode tc m, mcModule = m,
                      fnNameToFnPtr = set (map gvName (moduleFunctions m)), mcMachine = tm,
                      mcContextMachine = ctx, mcSplitIdx = splitIdx\<rparr>)))"

definition compileOptimizedLLVMToObjects ::
  "'op toolchain \<Rightarrow> 'op object_compiler \<Rightarrow> target_machine \<Rightarrow> bool \<Rightarrow> nat option \<Rightarrow> nat \<Rightarrow> llvm_module \<Rightarrow>
   (string \<rightharpoonup> linkage) \<times> mc_info error_or list" where
  "compileOptimizedLLVMToObjects tc c shared isParLLC moduleIdx numFunctionBase m =
     (if \<not> isParLLC then
        (Map.empty, [compileOptimizedLLVMModuleToObject tc c shared isParLLC moduleIdx None numFunctionBase m])
      else if \<not> writeTempModule tc (saveTempsPrefix (compOptions c)) ''.pre-llc-split'' then
        (Map.empty, [Inl ''writing module to file before llc split failed''])
      else
        (splitLinkage tc m,
         map (\<lambda>(part, idx, numFunctions).
             compileOptimizedLLVMModuleToObject tc c shared isParLLC moduleIdx idx numFunctions part)
           (splitPerFunction tc (case moduleIdx of Some i \<Rightarrow> i | None \<Rightarrow> 0) numFunctionBase m)))"

section \<open>Tasks\<close>

text \<open>
  A split of the module that is waiting for the queue, and how far it got: optimized, past the lock that
  guards the set of functions with code, finished with a value or a diagnostic, or stuck in reading a value
  that holds a diagnostic.
\<close>

record split_task =
  taskModule :: llvm_module
  taskParLLC :: bool
  taskIdx :: "nat option"
  taskBase :: nat

datatype task_state = Launched | Optimized llvm_module | Deduped llvm_module | Finished "symbol_info error_or" | ReadsError

text \<open>
  The queue at one moment: the functions that have code, how far each task is, and, in the order in which
  they took the lock, the tasks with their modules.
\<close>

record pool =
  seenFns :: "string set"
  taskStates :: "task_state list"
  lockLog :: "(nat \<times> llvm_module) list"

definition dedupFunctions :: "string set \<Rightarrow> llvm_module \<Rightarrow> string set \<times> llvm_module" where
  "dedupFunctions seen m =
     foldl (\<lambda>(seen, m) f. if f \<in> seen then (seen, m\<lparr>duplicatedFns := insert f (duplicatedFns m)\<rparr>) else (insert f seen, m))
       (seen, m) (definedFns m)"

definition collectMCInfos :: "(string \<rightharpoonup> linkage) \<times> mc_info error_or list \<Rightarrow> task_state" where
  "collectMCInfos compiled =
     (case compiled of
        (link, infos) \<Rightarrow>
          (case allValues infos of
             Inl e \<Rightarrow> ReadsError
           | Inr infos \<Rightarrow> Finished (Inr \<lparr>symbolLinkageTypes = link, mcInfos = infos\<rparr>)))"

definition optimizeTask :: "'op toolchain \<Rightarrow> 'op object_compiler \<Rightarrow> split_task \<Rightarrow> llvm_module error_or" where
  "optimizeTask tc c task =
     bind_err (createTargetMachine tc (compOptions c) (isJIT c)) (\<lambda>tm.
       case optimizeLLVMModule tc (compOptions c) tm (taskIdx task) (taskModule task) of
         None \<Rightarrow> Inl ''failed to optimize LLVM IR.''
       | Some m \<Rightarrow> Inr m)"

text \<open>One turn of a task of \<^verbatim>\<open>lowerLLVMModuleToObjects\<close>.\<close>

definition lowerLLVMModuleToObjects ::
  "'op toolchain \<Rightarrow> 'op object_compiler \<Rightarrow> target_machine \<Rightarrow> split_task list \<Rightarrow> nat \<Rightarrow> pool \<Rightarrow> pool" where
  "lowerLLVMModuleToObjects tc c shared tasks i p =
     (if length tasks \<le> i \<or> length (taskStates p) \<le> i then p
      else
        let task = tasks ! i; to = (\<lambda>s. p\<lparr>taskStates := (taskStates p)[i := s]\<rparr>) in
        case taskStates p ! i of
          Launched \<Rightarrow> (case optimizeTask tc c task of Inl e \<Rightarrow> to (Finished (Inl e)) | Inr m \<Rightarrow> to (Optimized m))
        | Optimized m \<Rightarrow>
            (case dedupFunctions (seenFns p) m of
               (seen, m) \<Rightarrow> (to (Deduped m))\<lparr>seenFns := seen, lockLog := lockLog p @ [(i, m)]\<rparr>)
        | Deduped m \<Rightarrow>
            to (collectMCInfos (compileOptimizedLLVMToObjects tc c shared (taskParLLC task) (taskIdx task) (taskBase task) m))
        | Finished r \<Rightarrow> p
        | ReadsError \<Rightarrow> p)"

text \<open>The tasks that a module is divided into, with the linkage that splitting into functions records.\<close>

definition emitArchiveParallelCompilation ::
  "'op toolchain \<Rightarrow> 'op object_compiler \<Rightarrow> llvm_module \<Rightarrow> split_task list \<times> (string \<rightharpoonup> linkage)" where
  "emitArchiveParallelCompilation tc c m =
     (let noSplitting = parallelismLevel tc < 2;
          parLLC = (2 \<le> parallelismLevel tc \<and> enableParallelLLC (compOptions c) \<and> \<not> isCodegenInterprocedural (compBackend c));
          strategy = splitStrategy (compBackend c) (compOptions c);
          handleSplit = (\<lambda>(part, idx, base).
            \<lparr>taskModule = part, taskParLLC = (strategy \<noteq> SplitPerFunction \<and> parLLC), taskIdx = idx, taskBase = base\<rparr>) in
      if noSplitting \<or> strategy = SplitNone then
        ([\<lparr>taskModule = m, taskParLLC = parLLC, taskIdx = None, taskBase = 0\<rparr>], Map.empty)
      else if strategy = SplitPerFunction then (map handleSplit (splitPerFunction tc 0 0 m), splitLinkage tc m)
      else (map handleSplit (splitPerExported tc m), Map.empty))"

definition launch :: "string set \<Rightarrow> split_task list \<Rightarrow> pool" where
  "launch seen tasks = \<lparr>seenFns = seen, taskStates = map (\<lambda>_. Launched) tasks, lockLog = []\<rparr>"

text \<open>The queue after a sequence of turns.\<close>

definition runQueue ::
  "'op toolchain \<Rightarrow> 'op object_compiler \<Rightarrow> target_machine \<Rightarrow> split_task list \<Rightarrow> nat list \<Rightarrow> pool \<Rightarrow> pool" where
  "runQueue tc c shared tasks turns p = fold (lowerLLVMModuleToObjects tc c shared tasks) turns p"

section \<open>Claiming functions\<close>

text \<open>
  What the lock promises to the tasks: claiming a module takes its functions, and the module owns those that
  nobody took before.
\<close>

locale deduplication =
  fixes claim :: "'s \<Rightarrow> 'm \<Rightarrow> 's \<times> 'm"
    and taken :: "'s \<Rightarrow> 'f set"
    and offers :: "'m \<Rightarrow> 'f set"
    and owns :: "'m \<Rightarrow> 'f set"
    and fresh :: "'m \<Rightarrow> bool"
  assumes claim_taken: "fresh m \<Longrightarrow> taken (fst (claim s m)) = taken s \<union> offers m"
    and claim_owns: "fresh m \<Longrightarrow> owns (snd (claim s m)) = offers m - taken s"

text \<open>Modules that are claimed one after the other.\<close>

fun claimAll :: "('s \<Rightarrow> 'm \<Rightarrow> 's \<times> 'm) \<Rightarrow> 's \<Rightarrow> 'm list \<Rightarrow> 's \<times> 'm list" where
  "claimAll claim s [] = (s, [])"
| "claimAll claim s (m # ms) =
     (case claim s m of (s, m) \<Rightarrow> case claimAll claim s ms of (s, ms) \<Rightarrow> (s, m # ms))"

lemma claimAll_append:
  "claimAll claim s (ms @ [m]) =
     (fst (claim (fst (claimAll claim s ms)) m), snd (claimAll claim s ms) @ [snd (claim (fst (claimAll claim s ms)) m)])"
  by (induction ms arbitrary: s) (auto split: prod.splits)

lemma length_claimAll [simp]: "length (snd (claimAll claim s ms)) = length ms"
  by (induction ms arbitrary: s) (simp_all add: case_prod_beta)

context deduplication
begin

lemma claimed_taken: "list_all fresh ms \<Longrightarrow> taken (fst (claimAll claim s ms)) = taken s \<union> \<Union> (offers ` set ms)"
proof (induction ms arbitrary: s)
  case (Cons m ms)
  then show ?case using claim_taken [of m s] by (auto split: prod.splits) (metis fst_conv Un_iff UN_iff)+
qed simp

lemma claimed_not_taken:
  "list_all fresh ms \<Longrightarrow> f \<in> taken s \<Longrightarrow> i < length ms \<Longrightarrow> f \<notin> owns (snd (claimAll claim s ms) ! i)"
proof (induction ms arbitrary: s i)
  case (Cons m ms)
  obtain s' m' where c: "claim s m = (s', m')" by (cases "claim s m")
  have "f \<in> taken s'" "f \<notin> owns m'" using Cons.prems claim_taken [of m s] claim_owns [of m s] c by auto
  then show ?case using Cons.prems Cons.IH [of s' "i - 1"] c by (cases i) (auto split: prod.splits)
qed simp

lemma claimed_once:
  assumes "list_all fresh ms" "f \<in> \<Union> (offers ` set ms)" "f \<notin> taken s"
  shows "\<exists>!i. i < length ms \<and> f \<in> owns (snd (claimAll claim s ms) ! i)"
  using assms
proof (induction ms arbitrary: s)
  case (Cons m ms)
  obtain s' m' where c: "claim s m = (s', m')" by (cases "claim s m")
  have law: "taken s' = taken s \<union> offers m" "owns m' = offers m - taken s"
    using Cons.prems claim_taken [of m s] claim_owns [of m s] c by auto
  let ?rest = "snd (claimAll claim s' ms)"
  have all: "snd (claimAll claim s (m # ms)) = m' # ?rest" using c by (auto split: prod.splits)
  show ?case
  proof (cases "f \<in> offers m")
    case True
    have "f \<notin> owns (?rest ! i)" if "i < length ms" for i
      by (rule claimed_not_taken) (use True law Cons.prems that in auto)
    then have "i < length (m # ms) \<and> f \<in> owns ((m' # ?rest) ! i) \<longleftrightarrow> i = 0" for i
      using True law Cons.prems by (cases i) auto
    then show ?thesis unfolding all by simp
  next
    case False
    then have "\<exists>!i. i < length ms \<and> f \<in> owns (?rest ! i)" using Cons.prems law by (intro Cons.IH) auto
    then obtain k where k: "\<And>i. i < length ms \<and> f \<in> owns (?rest ! i) \<longleftrightarrow> i = k" by metis
    have "i < length (m # ms) \<and> f \<in> owns ((m' # ?rest) ! i) \<longleftrightarrow> i = Suc k" for i
      using False law k [of "i - 1"] by (cases i) auto
    then show ?thesis unfolding all by simp
  qed
qed simp

end

definition ownFns :: "llvm_module \<Rightarrow> string set" where
  "ownFns m = set (definedFns m) - duplicatedFns m"

definition freshModule :: "llvm_module \<Rightarrow> bool" where
  "freshModule m \<longleftrightarrow> distinct (definedFns m) \<and> duplicatedFns m = {}"

lemma definedFns_duplicated [simp]: "definedFns (m\<lparr>duplicatedFns := d\<rparr>) = definedFns m"
  by (simp add: definedFns_def moduleFunctions_def)

lemma dedup_fold:
  "distinct fs \<Longrightarrow>
   foldl (\<lambda>(seen, m) f. if f \<in> seen then (seen, m\<lparr>duplicatedFns := insert f (duplicatedFns m)\<rparr>) else (insert f seen, m))
     (seen, m) fs = (seen \<union> set fs, m\<lparr>duplicatedFns := duplicatedFns m \<union> seen \<inter> set fs\<rparr>)"
proof (induction fs arbitrary: seen m)
  case (Cons f fs)
  then show ?case by (auto intro!: arg_cong [where f = "\<lambda>d. m\<lparr>duplicatedFns := d\<rparr>"])
qed simp

lemma dedupFunctions_fresh:
  "freshModule m \<Longrightarrow> dedupFunctions seen m = (seen \<union> set (definedFns m), m\<lparr>duplicatedFns := seen \<inter> set (definedFns m)\<rparr>)"
  by (simp add: dedupFunctions_def dedup_fold freshModule_def)

interpretation dedup: deduplication dedupFunctions "\<lambda>s. s" "\<lambda>m. set (definedFns m)" ownFns freshModule
  by unfold_locales (auto simp: dedupFunctions_fresh ownFns_def)

section \<open>The queue\<close>

text \<open>Passes give modules whose functions have different names and that nobody claimed.\<close>

definition keeps_modules_fresh :: "'op toolchain \<Rightarrow> bool" where
  "keeps_modules_fresh tc \<longleftrightarrow> (\<forall>opts tm m. freshModule (optimizationPipeline tc opts tm m))"

lemma optimizeTask_fresh: "keeps_modules_fresh tc \<Longrightarrow> optimizeTask tc c task = Inr m \<Longrightarrow> freshModule m"
  by (auto simp: optimizeTask_def bind_err_def optimizeLLVMModule_def runLLVMOptPasses_def Let_def
      keeps_modules_fresh_def split: sum.splits option.splits if_splits)

text \<open>What a state says of a task: whether it took the lock, and what it was optimized to.\<close>

fun stateAgrees :: "llvm_module error_or \<Rightarrow> bool \<Rightarrow> task_state \<Rightarrow> bool" where
  "stateAgrees opt logged Launched = (\<not> logged)"
| "stateAgrees opt logged (Optimized m) = (\<not> logged \<and> opt = Inr m)"
| "stateAgrees opt logged (Deduped m) = logged"
| "stateAgrees opt logged (Finished (Inr r)) = logged"
| "stateAgrees opt logged (Finished (Inl e)) = (\<not> logged)"
| "stateAgrees opt logged ReadsError = logged"

definition queue_inv :: "'op toolchain \<Rightarrow> 'op object_compiler \<Rightarrow> string set \<Rightarrow> split_task list \<Rightarrow> pool \<Rightarrow> bool" where
  "queue_inv tc c seen tasks p \<longleftrightarrow>
     length (taskStates p) = length tasks \<and> distinct (map fst (lockLog p)) \<and>
     list_all (\<lambda>i. i < length tasks) (map fst (lockLog p)) \<and>
     (\<forall>i < length tasks. stateAgrees (optimizeTask tc c (tasks ! i)) (i \<in> set (map fst (lockLog p))) (taskStates p ! i)) \<and>
     (\<exists>ms. map (\<lambda>i. optimizeTask tc c (tasks ! i)) (map fst (lockLog p)) = map Inr ms \<and>
       claimAll dedupFunctions seen ms = (seenFns p, map snd (lockLog p)))"

lemma queue_inv_launch: "queue_inv tc c seen tasks (launch seen tasks)"
  by (simp add: queue_inv_def launch_def)

lemma queue_inv_to:
  assumes "queue_inv tc c seen tasks p" "i < length tasks"
    and "stateAgrees (optimizeTask tc c (tasks ! i)) (i \<in> set (map fst (lockLog p))) s"
  shows "queue_inv tc c seen tasks (p\<lparr>taskStates := (taskStates p)[i := s]\<rparr>)"
  using assms by (simp add: queue_inv_def nth_list_update)

lemma queue_inv_lock:
  assumes inv: "queue_inv tc c seen tasks p" and i: "i < length tasks" and st: "taskStates p ! i = Optimized m"
    and d: "dedupFunctions (seenFns p) m = (seen', m')"
  shows "queue_inv tc c seen tasks
    (p\<lparr>taskStates := (taskStates p)[i := Deduped m'], seenFns := seen', lockLog := lockLog p @ [(i, m')]\<rparr>)"
proof -
  have st': "stateAgrees (optimizeTask tc c (tasks ! i)) (i \<in> set (map fst (lockLog p))) (Optimized m)"
    using inv i st unfolding queue_inv_def by metis
  then have new: "i \<notin> set (map fst (lockLog p))" "optimizeTask tc c (tasks ! i) = Inr m" by simp_all
  obtain ms where ms: "map (\<lambda>i. optimizeTask tc c (tasks ! i)) (map fst (lockLog p)) = map Inr ms"
      "claimAll dedupFunctions seen ms = (seenFns p, map snd (lockLog p))"
    using inv unfolding queue_inv_def by metis
  have "map (\<lambda>i. optimizeTask tc c (tasks ! i)) (map fst (lockLog p @ [(i, m')])) = map Inr (ms @ [m])"
      "claimAll dedupFunctions seen (ms @ [m]) = (seen', map snd (lockLog p @ [(i, m')]))"
    using ms new d by (simp_all add: claimAll_append)
  then have "\<exists>ms. map (\<lambda>i. optimizeTask tc c (tasks ! i)) (map fst (lockLog p @ [(i, m')])) = map Inr ms \<and>
      claimAll dedupFunctions seen ms = (seen', map snd (lockLog p @ [(i, m')]))"
    by blast
  moreover have "stateAgrees (optimizeTask tc c (tasks ! j)) (j \<in> set (map fst (lockLog p @ [(i, m')])))
      ((taskStates p)[i := Deduped m'] ! j)" if "j < length tasks" for j
    using inv i that unfolding queue_inv_def by (cases "j = i") auto
  ultimately show ?thesis using inv i new unfolding queue_inv_def by simp
qed

lemma queue_inv_turn:
  assumes inv: "queue_inv tc c seen tasks p"
  shows "queue_inv tc c seen tasks (lowerLLVMModuleToObjects tc c shared tasks i p)"
proof (cases "i < length tasks")
  case True
  have len: "length (taskStates p) = length tasks"
    and agr: "stateAgrees (optimizeTask tc c (tasks ! i)) (i \<in> set (map fst (lockLog p))) (taskStates p ! i)"
    using inv True unfolding queue_inv_def by metis+
  show ?thesis
  proof (cases "taskStates p ! i")
    case Launched
    then show ?thesis using True len agr inv
      by (cases "optimizeTask tc c (tasks ! i)")
        (simp_all add: lowerLLVMModuleToObjects_def Let_def queue_inv_to)
  next
    case (Optimized m)
    then show ?thesis using True len inv queue_inv_lock [OF inv True Optimized]
      by (cases "dedupFunctions (seenFns p) m") (simp add: lowerLLVMModuleToObjects_def Let_def)
  next
    case (Deduped m)
    then have "i \<in> set (map fst (lockLog p))" using agr by simp
    then have "stateAgrees (optimizeTask tc c (tasks ! i)) (i \<in> set (map fst (lockLog p))) (collectMCInfos r)" for r
      by (simp add: collectMCInfos_def split: prod.splits sum.splits)
    then show ?thesis using True len inv Deduped queue_inv_to [OF inv True]
      by (simp add: lowerLLVMModuleToObjects_def Let_def)
  qed (use True len inv in \<open>simp_all add: lowerLLVMModuleToObjects_def Let_def\<close>)
qed (use inv in \<open>simp add: lowerLLVMModuleToObjects_def\<close>)

lemma queue_inv_run: "queue_inv tc c seen tasks p \<Longrightarrow> queue_inv tc c seen tasks (runQueue tc c shared tasks turns p)"
  unfolding runQueue_def by (induction turns arbitrary: p) (simp_all add: queue_inv_turn)

text \<open>The number of turns that a task still needs.\<close>

fun turnsLeft :: "task_state \<Rightarrow> nat" where
  "turnsLeft Launched = 3"
| "turnsLeft (Optimized m) = 2"
| "turnsLeft (Deduped m) = 1"
| "turnsLeft s = 0"

lemma turnsLeft_turn:
  assumes "i < length tasks" "length (taskStates p) = length tasks"
  shows "turnsLeft (taskStates (lowerLLVMModuleToObjects tc c shared tasks j p) ! i) \<le>
    turnsLeft (taskStates p ! i) - (if j = i then 1 else 0)"
  using assms
  by (cases "taskStates p ! j")
    (auto simp: lowerLLVMModuleToObjects_def Let_def nth_list_update collectMCInfos_def split: sum.splits prod.splits)

lemma length_turn: "length (taskStates (lowerLLVMModuleToObjects tc c shared tasks j p)) = length (taskStates p)"
  by (auto simp: lowerLLVMModuleToObjects_def Let_def split: task_state.splits sum.splits prod.splits)

lemma turnsLeft_run:
  assumes "i < length tasks" "length (taskStates p) = length tasks"
  shows "turnsLeft (taskStates (runQueue tc c shared tasks turns p) ! i) \<le> turnsLeft (taskStates p ! i) - count_list turns i"
  unfolding runQueue_def using assms
proof (induction turns arbitrary: p)
  case (Cons j turns)
  let ?p = "lowerLLVMModuleToObjects tc c shared tasks j p"
  have "turnsLeft (taskStates (fold (lowerLLVMModuleToObjects tc c shared tasks) turns ?p) ! i) \<le>
      turnsLeft (taskStates ?p ! i) - count_list turns i"
    by (rule Cons.IH) (use Cons.prems in \<open>simp_all add: length_turn\<close>)
  with turnsLeft_turn [OF Cons.prems, of tc c shared j] show ?case by auto
qed simp

lemma queue_owner_unique:
  assumes fresh: "keeps_modules_fresh tc" and inv: "queue_inv tc c {} tasks p"
    and i: "i \<in> set (map fst (lockLog p))" "optimizeTask tc c (tasks ! i) = Inr m" and f: "f \<in> set (definedFns m)"
  shows "\<exists>!j. \<exists>m'. (j, m') \<in> set (lockLog p) \<and> f \<in> ownFns m'"
proof -
  let ?log = "lockLog p"
  obtain ms where ms: "map (\<lambda>i. optimizeTask tc c (tasks ! i)) (map fst ?log) = map Inr ms"
      "claimAll dedupFunctions {} ms = (seenFns p, map snd ?log)"
    using inv unfolding queue_inv_def by metis
  have len: "length ms = length ?log" using ms(1) by (metis length_map)
  have opt: "optimizeTask tc c (tasks ! fst (?log ! k)) = Inr (ms ! k)" if "k < length ?log" for k
    using arg_cong [OF ms(1), of "\<lambda>xs. xs ! k"] that len by simp
  obtain k where k: "k < length ?log" "fst (?log ! k) = i" 
    using i(1) in_set_conv_nth [of i "map fst ?log"] by auto
  then have "ms ! k = m" using opt [OF k(1)] i(2) by simp
  then have m: "m \<in> set ms" using k len by auto
  have "list_all freshModule ms"
    using opt optimizeTask_fresh [OF fresh] len by (auto simp: list_all_length)
  then have "\<exists>!k. k < length ms \<and> f \<in> ownFns (snd (claimAll dedupFunctions {} ms) ! k)"
    using m f by (intro dedup.claimed_once) auto
  then have "\<exists>!k. k < length ?log \<and> f \<in> ownFns (map snd ?log ! k)" using ms(2) len by simp
  then obtain k where "\<And>j. j < length ?log \<and> f \<in> ownFns (map snd ?log ! j) \<longleftrightarrow> j = k" by metis
  then have k: "j < length ?log \<and> f \<in> ownFns (snd (?log ! j)) \<longleftrightarrow> j = k" for j by (metis nth_map)
  show ?thesis
  proof (rule ex1I [of _ "fst (?log ! k)"])
    show "\<exists>m'. (fst (?log ! k), m') \<in> set ?log \<and> f \<in> ownFns m'" using k [of k] by (metis nth_mem prod.collapse)
  next
    fix j assume "\<exists>m'. (j, m') \<in> set ?log \<and> f \<in> ownFns m'"
    then obtain l where "l < length ?log" "fst (?log ! l) = j" "f \<in> ownFns (snd (?log ! l))"
      by (metis in_set_conv_nth fst_conv snd_conv)
    then show "j = fst (?log ! k)" using k [of l] by simp
  qed
qed

end
