(* ===== verification/Object_Archive.thy ===== *)
theory Object_Archive
  imports Object_Pipeline
begin

text \<open>
  Archives, assembly and LLVM text of a whole module
  (\<^verbatim>\<open>Mojo/lib/Compiler/ObjectCompiler/ObjectCompiler.cpp\<close>): lowering, linking the results of the tasks,
  saving temporaries, and the cached transformation.  Each emission records when the module of the
  compiler is read and when it is erased.
\<close>

section \<open>Lowering\<close>

definition translateModuleToLLVMIR :: "'op toolchain \<Rightarrow> compilation_options \<Rightarrow> 'op \<Rightarrow> llvm_module option" where
  "translateModuleToLLVMIR tc opts op =
     (let name = (case moduleFile tc op of Some f \<Rightarrow> pathFilename tc f | None \<Rightarrow> ''LLVMDialectModule'') in
      map_option (attachInstrumentationAttributes opts) (mlirToLLVMIR tc name op))"

text \<open>The module comes back as the passes left it.\<close>

definition lowerAllFuncsToLLVM ::
  "'op toolchain \<Rightarrow> 'op object_compiler \<Rightarrow> bool \<Rightarrow> 'op \<Rightarrow> llvm_module error_or \<times> 'op" where
  "lowerAllFuncsToLLVM tc c forSharedObject op =
     (let opts = compOptions c; prefix = saveTempsPrefix opts;
          op = prepareModuleForLowering (compBackend c) opts op in
      if \<not> writeTempModule tc prefix ''.pre-llvm-dialect'' then
        (Inl ''writing module to file before converting to LLVM Dialect failed'', op)
      else case lowerToLLVMPipeline tc opts op of
        None \<Rightarrow> (Inl ''run LowerToLLVMPipeline failed'', op)
      | Some op \<Rightarrow>
          if \<not> writeTempModule tc prefix ''.pre-llvm-ir'' then
            (Inl ''writing module to file before converting to LLVM IR failed'', op)
          else case translateModuleToLLVMIR tc opts op of
            None \<Rightarrow> (Inl ''translate module to LLVMIR failed'', op)
          | Some m \<Rightarrow>
              (Inr (if forSharedObject \<and> trFormat (parseTriple (targetHost tc) (targetTriple opts)) = COFF
                    then markDefinitionsForCOFFExport m else m), op))"

section \<open>Waiting for the tasks\<close>

text \<open>
  A call that waits for tasks returns, is still waiting, or is undefined because a task reads a diagnostic as
  a value.
\<close>

datatype 'a reply = Returns "'a error_or" | StillWaiting | ReadsDiagnostic

fun allFinished :: "task_state list \<Rightarrow> symbol_info error_or list option" where
  "allFinished [] = Some []"
| "allFinished (Finished r # states) = map_option ((#) r) (allFinished states)"
| "allFinished (_ # states) = None"

fun readsError :: "task_state \<Rightarrow> bool" where
  "readsError ReadsError = True"
| "readsError _ = False"

definition awaitTasks :: "pool \<Rightarrow> symbol_info error_or list reply" where
  "awaitTasks p =
     (if list_ex readsError (taskStates p) then ReadsDiagnostic
      else case allFinished (taskStates p) of Some results \<Rightarrow> Returns (Inr results) | None \<Rightarrow> StillWaiting)"

definition emitArchiveMCLinking ::
  "'op toolchain \<Rightarrow> 'op object_compiler \<Rightarrow> symbol_info error_or list \<Rightarrow> string \<Rightarrow> bool \<Rightarrow> (string \<rightharpoonup> linkage) \<Rightarrow>
   (string \<rightharpoonup> nat) \<Rightarrow> string error_or" where
  "emitArchiveMCLinking tc c results name asm link fnOrder =
     bind_err (allValues results) (\<lambda>infos.
       case createTargetMachine tc (compOptions c) (isJIT c) of
         Inl e \<Rightarrow> Inl ''failed to create TargetMachine''
       | Inr tm \<Rightarrow> linkAndPrint tc tm infos link fnOrder name asm)"

section \<open>Archives\<close>

datatype op_event = UseModule | EraseModule

text \<open>
  Temporaries: the lowered module is translated, compiled and linked once more, this time as assembly.
\<close>

definition emitArchiveSaveTemps ::
  "'op toolchain \<Rightarrow> 'op object_compiler \<Rightarrow> nat list \<Rightarrow> 'op \<Rightarrow> string \<Rightarrow> unit reply \<times> 'op object_compiler" where
  "emitArchiveSaveTemps tc c turns op name =
     (case translateModuleToLLVMIR tc (compOptions c) op of
        None \<Rightarrow> (Returns (Inl (''failed to lower module to LLVM IR for archive compilation, '' @ nullModuleError tc)), c)
      | Some m \<Rightarrow>
          (case createTargetMachine tc (compOptions c) (isJIT c) of
             Inl e \<Rightarrow> (Returns (Inl e), c)
           | Inr tm \<Rightarrow>
               (let (tasks, link) = emitArchiveParallelCompilation tc c m;
                    p = runQueue tc c tm tasks turns (launch (seenCodeGenFns c) tasks);
                    c = c\<lparr>seenCodeGenFns := seenFns p\<rparr> in
                case awaitTasks p of
                  StillWaiting \<Rightarrow> (StillWaiting, c)
                | ReadsDiagnostic \<Rightarrow> (ReadsDiagnostic, c)
                | Returns (Inl e) \<Rightarrow> (Returns (Inl e), c)
                | Returns (Inr results) \<Rightarrow>
                    (case emitArchiveMCLinking tc c results name True link Map.empty of
                       Inl e \<Rightarrow> (Returns (Inl e), c)
                     | Inr linkedObj \<Rightarrow>
                         if \<not> writeBytesToTempWithHash tc (saveTempsPrefix (compOptions c)) ''.s'' linkedObj then
                           (Returns (Inl ''failed to save asm to saveTempsPrefix''), c)
                         else (Returns (Inr ()), c)))))"

text \<open>What follows the tasks of an archive.\<close>

definition finishArchive ::
  "'op toolchain \<Rightarrow> 'op object_compiler \<Rightarrow> bool \<Rightarrow> nat list \<Rightarrow> 'op \<Rightarrow> string \<Rightarrow> symbol_info error_or list \<Rightarrow> (string \<rightharpoonup> linkage) \<Rightarrow>
   (string \<rightharpoonup> nat) \<Rightarrow> string reply \<times> op_event list \<times> 'op object_compiler" where
  "finishArchive tc c asm turns op name results link fnOrder =
     (let opts = compOptions c in
      case emitArchiveMCLinking tc c results name asm link fnOrder of
        Inl e \<Rightarrow> (Returns (Inl e), [], c)
      | Inr linkedObj \<Rightarrow>
          if asm then
            (case traitsLookup (targetHost tc) (parseTriple (targetHost tc) (targetTriple opts)) of
               Inl e \<Rightarrow> (Returns (Inl e), [], c)
             | Inr traits \<Rightarrow>
                 if \<not> writeBytesToTempWithHash tc (saveTempsPrefix opts) (asmExtension traits) linkedObj then
                   (Returns (Inl ''failed to save asm to saveTempsPrefix''), [], c)
                 else (Returns (Inr linkedObj), [], c))
          else if saveTempsPrefix opts \<noteq> [] then
            (case emitArchiveSaveTemps tc (c\<lparr>seenCodeGenFns := {}\<rparr>) turns op name of
               (Returns (Inl e), c) \<Rightarrow> (Returns (Inl e), [UseModule, EraseModule], c)
             | (Returns (Inr _), c) \<Rightarrow> (Returns (Inr linkedObj), [UseModule, EraseModule], c)
             | (StillWaiting, c) \<Rightarrow> (StillWaiting, [UseModule], c)
             | (ReadsDiagnostic, c) \<Rightarrow> (ReadsDiagnostic, [UseModule], c))
          else (Returns (Inr linkedObj), [], c))"

text \<open>The module is released before code generation, unless temporaries are made from it later.\<close>

definition releaseEarly :: "compilation_options \<Rightarrow> bool \<Rightarrow> op_event list" where
  "releaseEarly opts asm = (if saveTempsPrefix opts = [] \<or> asm then [UseModule, EraseModule] else [UseModule])"

definition compileArchive ::
  "'op toolchain \<Rightarrow> 'op object_compiler \<Rightarrow> target_machine \<Rightarrow> bool \<Rightarrow> nat list \<Rightarrow> nat list \<Rightarrow> 'op \<Rightarrow> llvm_module \<Rightarrow>
   string reply \<times> op_event list \<times> 'op object_compiler" where
  "compileArchive tc c tm asm turns turns' op m =
     (let fnOrder = (if requiresOriginalFunctionOrder (compBackend c) then computeFnOrdering m else Map.empty);
          (tasks, link) = emitArchiveParallelCompilation tc c m;
          p = runQueue tc c tm tasks turns (launch (seenCodeGenFns c) tasks);
          c = c\<lparr>seenCodeGenFns := seenFns p\<rparr> in
      case awaitTasks p of
        StillWaiting \<Rightarrow> (StillWaiting, releaseEarly (compOptions c) asm, c)
      | ReadsDiagnostic \<Rightarrow> (ReadsDiagnostic, releaseEarly (compOptions c) asm, c)
      | Returns (Inl e) \<Rightarrow> (Returns (Inl e), releaseEarly (compOptions c) asm, c)
      | Returns (Inr results) \<Rightarrow>
          (case finishArchive tc c asm turns' op (moduleName m) results link fnOrder of
             (r, evs, c) \<Rightarrow> (r, releaseEarly (compOptions c) asm @ evs, c)))"

definition runTransformation ::
  "'op toolchain \<Rightarrow> 'op object_compiler \<Rightarrow> target_machine \<Rightarrow> bool \<Rightarrow> bool \<Rightarrow> nat list \<Rightarrow> nat list \<Rightarrow> 'op \<Rightarrow>
   string reply \<times> op_event list \<times> 'op object_compiler" where
  "runTransformation tc c tm asm forSharedObject turns turns' op =
     (case lowerAllFuncsToLLVM tc c forSharedObject op of
        (Inl e, op) \<Rightarrow>
          (Returns (Inl (''failed to lower module to LLVM IR for archive compilation, '' @ e)), [UseModule, EraseModule], c)
      | (Inr m, op) \<Rightarrow>
          (case linkBitcodeLibraries (linkCalls tc) (compOptions c) (bitcodeLibs c) m of
             (Inl e, m, libs) \<Rightarrow> (Returns (Inl ''failed to link bitcode libraries''), [UseModule], c\<lparr>bitcodeLibs := libs\<rparr>)
           | (Inr _, m, libs) \<Rightarrow> compileArchive tc (c\<lparr>bitcodeLibs := libs\<rparr>) tm asm turns turns' op m))"

definition bit01 :: "bool \<Rightarrow> string" where
  "bit01 b = (if b then ''1'' else ''0'')"

definition archiveKey :: "printers \<Rightarrow> compilation_options \<Rightarrow> bool \<Rightarrow> bool \<Rightarrow> bool \<Rightarrow> string" where
  "archiveKey pr opts jit asm forSharedObject =
     ''emitArchive('' @ printOptions pr opts @ '', isJIT='' @ bit01 jit @
     '', enableLLVMPerFunctionSplitting='' @ bit01 (enableLLVMPerFunctionSplitting opts) @
     '', emitAssembly='' @ bit01 asm @ '', relocModel='' @ streamRelocModel pr (relocModel opts) @
     '', verboseOutput='' @ bit01 (verboseOutput opts) @ '', forSharedObject='' @ bit01 forSharedObject @ '')''"

text \<open>
  The module belongs to the call: a failure before the transformation destroys it with its owner, a hit in
  the cache erases it.
\<close>

definition emitArchive ::
  "'op toolchain \<Rightarrow> 'op object_compiler \<Rightarrow> bool \<Rightarrow> bool \<Rightarrow> nat list \<Rightarrow> nat list \<Rightarrow> 'op \<Rightarrow>
   string reply \<times> op_event list \<times> 'op object_compiler" where
  "emitArchive tc c asm forSharedObject turns turns' op =
     (case createTargetMachine tc (compOptions c) (isJIT c) of
        Inl e \<Rightarrow> (Returns (Inl e), [EraseModule], c)
      | Inr tm \<Rightarrow>
          (case cachedBuffer tc (archiveKey (printersOf tc) (compOptions c) (isJIT c) asm forSharedObject) op of
             Some buf \<Rightarrow> (Returns (Inr buf), [EraseModule], c)
           | None \<Rightarrow> runTransformation tc c tm asm forSharedObject turns turns' op))"

section \<open>Text of a module\<close>

definition lowerAllFuncsToLLVMAndOptimize ::
  "'op toolchain \<Rightarrow> 'op object_compiler \<Rightarrow> 'op \<Rightarrow> llvm_module error_or \<times> 'op object_compiler" where
  "lowerAllFuncsToLLVMAndOptimize tc c op =
     (case lowerAllFuncsToLLVM tc c False op of
        (Inl e, _) \<Rightarrow> (Inl e, c)
      | (Inr m, _) \<Rightarrow>
          (case linkBitcodeLibraries (linkCalls tc) (compOptions c) (bitcodeLibs c) m of
             (Inl e, m, libs) \<Rightarrow> (Inl ''failed to link bitcode libraries'', c\<lparr>bitcodeLibs := libs\<rparr>)
           | (Inr _, m, libs) \<Rightarrow>
               (let c = c\<lparr>bitcodeLibs := libs\<rparr> in
                case createTargetMachine tc (compOptions c) False of
                  Inl e \<Rightarrow> (Inl e, c)
                | Inr tm \<Rightarrow>
                    (case runLLVMOptPasses tc (compOptions c) tm m of
                       None \<Rightarrow> (Inl ''failed to run LLVM opt passes'', c)
                     | Some m \<Rightarrow> (Inr m, c)))))"

definition emitLLVMIR ::
  "'op toolchain \<Rightarrow> (llvm_module \<Rightarrow> string) \<Rightarrow> 'op object_compiler \<Rightarrow> 'op \<Rightarrow> string error_or \<times> 'op object_compiler" where
  "emitLLVMIR tc printModule c op =
     (case lowerAllFuncsToLLVMAndOptimize tc c op of (r, c) \<Rightarrow> (map_sum id printModule r, c))"

definition emitAssembly ::
  "'op toolchain \<Rightarrow> 'op object_compiler \<Rightarrow> nat list \<Rightarrow> nat list \<Rightarrow> 'op \<Rightarrow> string reply \<times> op_event list \<times> 'op object_compiler" where
  "emitAssembly tc c turns turns' op =
     (case emitArchive tc c True False turns turns' op of
        (Returns (Inl e), evs, c) \<Rightarrow> (Returns (Inl (''failed to lower LLVM IR to assembly:'' @ e)), evs, c)
      | (r, evs, c) \<Rightarrow> (r, evs, c))"

definition emitBitcode :: "'op toolchain \<Rightarrow> llvm_module \<Rightarrow> string error_or" where
  "emitBitcode tc m =
     bind_err (backendLookup tc (parseTriple (targetHost tc) (moduleTriple m))) (\<lambda>backend.
       Inr (backendEmitBitcode backend m))"

section \<open>A toolchain\<close>

text \<open>Functions with code and nothing else; one split per function list.\<close>

definition defined_function :: "string \<Rightarrow> global_value" where
  "defined_function n = \<lparr>gvName = n, isFunction = True, isDeclaration = False, isIntrinsic = False,
     gvLinkage = ExternalLinkage, gvVisibility = DefaultVisibility, gvDLLStorage = DefaultStorage, fnAttrs = []\<rparr>"

definition small_module :: "string list \<Rightarrow> llvm_module" where
  "small_module fs = \<lparr>moduleName = ''m'', moduleTriple = ''x86_64-linux'', moduleLayout = [],
     globalValues = map defined_function fs, duplicatedFns = {}\<rparr>"

definition sample_calls :: link_calls where
  "sample_calls = \<lparr>linkRuntimeLibraries = (\<lambda>_ m. Inr m), onlyLinkExternFunctions = (\<lambda>_. True),
     is_regular_file = (\<lambda>_. False), getLazyIRFileModule = (\<lambda>_. Inl []), getBlob = (\<lambda>_. None),
     getOwningLazyBitcodeModule = (\<lambda>_. Inl []), linkInModule = (\<lambda>_ _ _. None), internalizeModule = (\<lambda>_ m. m)\<rparr>"

definition sample_machine :: target_machine where
  "sample_machine = \<lparr>machineLayout = ''e'', asmVerbose = False, preserveAsmComments = False\<rparr>"

definition sample_backend :: "unit backend" where
  "sample_backend = \<lparr>backendName = ''x86'', isCodegenInterprocedural = False, requiresOriginalFunctionOrder = False,
     isOffload = False, splitStrategy = (\<lambda>_. SplitPerExported), adjustOptionsForTargetMachine = (\<lambda>opts _. opts),
     prepareModuleForLowering = (\<lambda>_ op. op), appendLinkArgs = (\<lambda>_. []), finalizeModuleForTarget = (\<lambda>_ _ m. m),
     attachCodegenAttributes = (\<lambda>_ m. m), backendEmitBitcode = (\<lambda>m. [])\<rparr>"

definition sample_toolchain :: "unit toolchain" where
  "sample_toolchain = \<lparr>parallelismLevel = 2, targetHost = linux_host ''znver4'', linkCalls = sample_calls,
     printersOf = \<lparr>printSanitizers = (\<lambda>_. []), stringifyRelocationModel = (\<lambda>_. ''pic''), streamRelocModel = (\<lambda>_. ''pic''),
       printLanguage = (\<lambda>_. ''mojo'')\<rparr>,
     production = False, backendLookup = (\<lambda>_. Inr sample_backend), defaultCreateTargetMachine = (\<lambda>_ _. Inr sample_machine),
     writeTempModule = (\<lambda>_ _. True), writeBytesToTempWithHash = (\<lambda>_ _ _. True), lowerToLLVMPipeline = (\<lambda>_ op. Some op),
     moduleFile = (\<lambda>_. None), pathFilename = (\<lambda>p. p), mlirToLLVMIR = (\<lambda>n op. Some (small_module [''f'', ''g'', ''h''])),
     nullModuleError = [], parseAAPipeline = True,
     optimizationPipeline = (\<lambda>_ _ m. if freshModule m then m else small_module []),
     verifyModule = (\<lambda>m. True), addPassesToEmitMC = (\<lambda>_ _ _. True), addPassesToEmitFile = (\<lambda>_ _ _. True),
     codegenPasses = (\<lambda>_ _ m. m), printMachineCode = (\<lambda>_ _ _ m. concat (definedFns m)),
     splitPerFunction = (\<lambda>_ base m. [(m, Some 0, base)]), splitLinkage = (\<lambda>m. Map.empty),
     splitPerExported = (\<lambda>m. [(small_module [''f'', ''g''], Some 0, 0), (small_module [''g'', ''h''], Some 1, 2)]),
     writeBitcode = (\<lambda>m. concat (definedFns m)), parseBitcode = (\<lambda>s. Some (small_module [s])),
     linkAndPrint = (\<lambda>tm infos link ord name asm. Inr (concat (map (\<lambda>i. concat (map mcBitcode (mcInfos i))) infos))),
     cachedBuffer = (\<lambda>_ _. None)\<rparr>"

definition sample_object_compiler :: "unit object_compiler" where
  "sample_object_compiler = \<lparr>compOptions = plain_compilation\<lparr>enableParallelLLC := False\<rparr>, compBackend = sample_backend,
     isJIT = False, compLinker = ''lld'', sharedObjectLinkArgs = [], bitcodeLibs = [], seenCodeGenFns = {}\<rparr>"

definition sample_tasks :: "split_task list" where
  "sample_tasks = fst (emitArchiveParallelCompilation sample_toolchain sample_object_compiler (small_module []))"

definition sample_pool :: pool where
  "sample_pool = runQueue sample_toolchain sample_object_compiler sample_machine sample_tasks [1, 0, 1, 0, 0, 1] (launch {} sample_tasks)"

lemma sample_fresh: "keeps_modules_fresh sample_toolchain"
  by (simp add: keeps_modules_fresh_def sample_toolchain_def small_module_def freshModule_def definedFns_def moduleFunctions_def)

lemma sample_pool_returns:
  "(case awaitTasks sample_pool of Returns (Inr rs) \<Rightarrow> (case allValues rs of Inr _ \<Rightarrow> True | Inl _ \<Rightarrow> False) | _ \<Rightarrow> False)"
  by code_simp

lemma sample_module_one: "map_sum id definedFns (optimizeTask sample_toolchain sample_object_compiler (sample_tasks ! 1)) = Inr [''g'', ''h'']"
  by code_simp

lemma sample_two_tasks: "length sample_tasks = 2"
  by (simp add: sample_tasks_def sample_toolchain_def sample_object_compiler_def emitArchiveParallelCompilation_def
      sample_backend_def plain_compilation_def)

lemma sample_archive: "fst (emitArchive sample_toolchain sample_object_compiler False False [1, 0, 1, 0, 0, 1] [] ()) = Returns (Inr ''fggh'')"
  by code_simp

section \<open>Each function gets code once\<close>

lemma allFinished_Some: "allFinished states = Some results \<longleftrightarrow> states = map Finished results"
  by (induction states arbitrary: results rule: allFinished.induct) auto

lemma awaitTasks_returns:
  assumes "awaitTasks p = Returns (Inr results)" "allValues results = Inr infos" "i < length (taskStates p)"
  shows "\<exists>r. taskStates p ! i = Finished (Inr r)"
  using assms by (auto simp: awaitTasks_def allFinished_Some allValues_Inr split: if_splits option.splits)

text \<open>
  Whatever order the splits of a module take their turns in, for a compiler whose set of functions with code is
  empty: when they have all finished, every function that any split defines after optimization is new to
  exactly one split, and a duplicate in the others.  What generating code does with the duplicates is part
  of the backend.
\<close>

theorem function_code_once:
  assumes "keeps_modules_fresh tc" "p = runQueue tc c shared tasks turns (launch {} tasks)"
    and "awaitTasks p = Returns (Inr results)" "allValues results = Inr infos"
    and "i < length tasks" "optimizeTask tc c (tasks ! i) = Inr m" "f \<in> set (definedFns m)"
  shows "\<exists>!j. \<exists>m'. (j, m') \<in> set (lockLog p) \<and> f \<in> ownFns m'"
proof (rule queue_owner_unique [OF assms(1) _ _ assms(6,7)])
  show inv: "queue_inv tc c {} tasks p" using assms(2) by (simp add: queue_inv_run queue_inv_launch)
  then have "length (taskStates p) = length tasks"
      "stateAgrees (optimizeTask tc c (tasks ! i)) (i \<in> set (map fst (lockLog p))) (taskStates p ! i)"
    using assms(5) unfolding queue_inv_def by metis+
  then show "i \<in> set (map fst (lockLog p))"
    using awaitTasks_returns [OF assms(3,4), of i] assms(5) by auto
qed

theorem function_code_once_witness:
  "\<exists>!j. \<exists>m'. (j, m') \<in> set (lockLog sample_pool) \<and> ''g'' \<in> ownFns m'"
proof -
  obtain rs infos where "awaitTasks sample_pool = Returns (Inr rs)" "allValues rs = Inr infos"
    using sample_pool_returns by (auto split: reply.splits sum.splits)
  moreover obtain m where "optimizeTask sample_toolchain sample_object_compiler (sample_tasks ! 1) = Inr m" "definedFns m = [''g'', ''h'']"
    using sample_module_one by (cases "optimizeTask sample_toolchain sample_object_compiler (sample_tasks ! 1)") auto
  ultimately show ?thesis
    by (intro function_code_once [OF sample_fresh sample_pool_def, of _ _ 1 m]) (simp_all add: sample_two_tasks)
qed

section \<open>Emission ends\<close>

text \<open>Every task below \<open>n\<close> gets its three turns.\<close>

definition serves :: "nat list \<Rightarrow> nat \<Rightarrow> bool" where
  "serves turns n \<longleftrightarrow> list_all (\<lambda>i. 3 \<le> count_list turns i) [0..<n]"

lemma serves_mono: "serves turns n \<Longrightarrow> k \<le> n \<Longrightarrow> serves turns k"
  by (simp add: serves_def list_all_iff)

lemma served_tasks_finish:
  assumes "serves turns (length tasks)"
  shows "awaitTasks (runQueue tc c shared tasks turns (launch seen tasks)) \<noteq> StillWaiting"
proof -
  let ?p = "runQueue tc c shared tasks turns (launch seen tasks)"
  have len: "length (taskStates ?p) = length tasks"
    using queue_inv_run [OF queue_inv_launch] unfolding queue_inv_def by blast
  have zero: "turnsLeft (taskStates ?p ! i) = 0" if "i < length tasks" for i
    using turnsLeft_run [of i tasks "launch seen tasks" tc c shared turns] assms that
    by (auto simp: launch_def serves_def list_all_iff)
  have "readsError s \<or> (\<exists>r. s = Finished r)" if "s \<in> set (taskStates ?p)" for s
    using zero that len by (cases s) (auto simp: in_set_conv_nth, (metis turnsLeft.simps zero_neq_numeral zero_neq_one)+)
  then have "list_ex readsError (taskStates ?p) \<or> (\<exists>rs. taskStates ?p = map Finished rs)"
    unfolding list_ex_iff using ex_map_conv [of "taskStates ?p" Finished] by metis
  then show ?thesis by (auto simp: awaitTasks_def split: option.splits) (metis allFinished_Some option.distinct(1))
qed

lemma parallelCompilation_options:
  "emitArchiveParallelCompilation tc (c\<lparr>bitcodeLibs := l, seenCodeGenFns := s\<rparr>) m = emitArchiveParallelCompilation tc c m"
  "emitArchiveParallelCompilation tc (c\<lparr>bitcodeLibs := l\<rparr>) m = emitArchiveParallelCompilation tc c m"
  "emitArchiveParallelCompilation tc (c\<lparr>seenCodeGenFns := s\<rparr>) m = emitArchiveParallelCompilation tc c m"
  by (simp_all add: emitArchiveParallelCompilation_def)

lemma saveTemps_returns:
  assumes "\<And>m. length (fst (emitArchiveParallelCompilation tc c m)) \<le> n" "serves turns n"
  shows "fst (emitArchiveSaveTemps tc c turns op name) \<noteq> StillWaiting"
proof -
  have "awaitTasks (runQueue tc c tm tasks turns (launch s tasks)) \<noteq> StillWaiting"
    if "emitArchiveParallelCompilation tc c m = (tasks, link)" for m tasks link tm s
    using served_tasks_finish serves_mono [OF assms(2)] assms(1) [of m] that by (metis fst_conv)
  then show ?thesis
    by (auto simp: emitArchiveSaveTemps_def Let_def split: option.splits sum.splits prod.splits reply.splits)
qed

lemma finishArchive_returns:
  assumes "\<And>m. length (fst (emitArchiveParallelCompilation tc c m)) \<le> n" "serves turns n"
  shows "fst (finishArchive tc c asm turns op name results link fnOrder) \<noteq> StillWaiting"
proof -
  have "fst (emitArchiveSaveTemps tc (c\<lparr>seenCodeGenFns := {}\<rparr>) turns op name) \<noteq> StillWaiting"
    by (rule saveTemps_returns [where n = n]) (simp_all add: parallelCompilation_options assms)
  then show ?thesis
    by (auto simp: finishArchive_def Let_def split: sum.splits prod.splits reply.splits)
qed

lemma compileArchive_returns:
  assumes "\<And>m. length (fst (emitArchiveParallelCompilation tc c m)) \<le> n" "serves turns n" "serves turns' n"
  shows "fst (compileArchive tc c tm asm turns turns' op m) \<noteq> StillWaiting"
proof -
  obtain tasks link where par: "emitArchiveParallelCompilation tc c m = (tasks, link)"
    by (cases "emitArchiveParallelCompilation tc c m")
  let ?p = "runQueue tc c tm tasks turns (launch (seenCodeGenFns c) tasks)"
  have "awaitTasks ?p \<noteq> StillWaiting"
    using served_tasks_finish serves_mono [OF assms(2)] assms(1) [of m] par by (metis fst_conv)
  moreover have "fst (finishArchive tc (c\<lparr>seenCodeGenFns := s\<rparr>) asm turns' op name results link' fnOrder) \<noteq> StillWaiting"
    for s name results link' fnOrder
    by (rule finishArchive_returns [where n = n]) (simp_all add: parallelCompilation_options assms)
  ultimately show ?thesis unfolding compileArchive_def par
    by (simp add: Let_def case_prod_beta split: reply.split sum.split)
qed

text \<open>
  Emitting an archive ends whatever the tools answer: once each split had three turns (and three more in
  the second round, when temporaries are saved), the call has returned or reads a diagnostic; it never
  waits for ever.
\<close>

theorem archive_emission_ends:
  assumes "\<And>m. length (fst (emitArchiveParallelCompilation tc c m)) \<le> n" "serves turns n" "serves turns' n"
  shows "fst (emitArchive tc c asm forSharedObject turns turns' op) \<noteq> StillWaiting"
proof -
  have "fst (compileArchive tc (c\<lparr>bitcodeLibs := l\<rparr>) tm asm turns turns' op m) \<noteq> StillWaiting" for l tm op m
    by (rule compileArchive_returns [where n = n]) (simp_all add: parallelCompilation_options assms)
  then have "fst (runTransformation tc c tm asm forSharedObject turns turns' op) \<noteq> StillWaiting" for tm
    by (simp add: runTransformation_def split: sum.splits prod.splits)
  then show ?thesis by (simp add: emitArchive_def split: sum.splits option.splits)
qed

theorem archive_emission_ends_witness:
  "fst (emitArchive sample_toolchain sample_object_compiler True False [1, 0, 1, 0, 0, 1] [0, 0, 0, 1, 1, 1] ()) \<noteq> StillWaiting"
proof (rule archive_emission_ends)
  show "length (fst (emitArchiveParallelCompilation sample_toolchain sample_object_compiler m)) \<le> 2" for m
    by (simp add: sample_toolchain_def sample_object_compiler_def emitArchiveParallelCompilation_def
        sample_backend_def plain_compilation_def)
  show "serves [1, 0, 1, 0, 0, 1] 2" "serves [0, 0, 0, 1, 1, 1] 2" by (simp_all add: serves_def upt_rec)
qed

section \<open>Diagnostics of code generation\<close>

lemma never_finishes_turn:
  assumes "optimizeTask tc c (tasks ! i) = Inr m" "i < length tasks" "length (taskStates p) = length tasks"
    and "\<And>m'. \<exists>e. allValues (snd (compileOptimizedLLVMToObjects tc c shared (taskParLLC (tasks ! i)) (taskIdx (tasks ! i)) (taskBase (tasks ! i)) m')) = Inl e"
    and "\<nexists>r. taskStates p ! i = Finished r"
  shows "\<nexists>r. taskStates (lowerLLVMModuleToObjects tc c shared tasks j p) ! i = Finished r"
proof -
  have "\<nexists>r. collectMCInfos (compileOptimizedLLVMToObjects tc c shared (taskParLLC (tasks ! i)) (taskIdx (tasks ! i)) (taskBase (tasks ! i)) m') = Finished r" for m'
    using assms(4) [of m'] by (auto simp: collectMCInfos_def split: prod.splits sum.splits)
  then show ?thesis using assms(1,2,3,5)
    by (cases "taskStates p ! j")
      (auto simp: lowerLLVMModuleToObjects_def Let_def nth_list_update split: sum.splits prod.splits)
qed

lemma never_finishes_run:
  assumes "optimizeTask tc c (tasks ! i) = Inr m" "i < length tasks" "length (taskStates p) = length tasks"
    and "\<And>m'. \<exists>e. allValues (snd (compileOptimizedLLVMToObjects tc c shared (taskParLLC (tasks ! i)) (taskIdx (tasks ! i)) (taskBase (tasks ! i)) m')) = Inl e"
    and "\<nexists>r. taskStates p ! i = Finished r"
  shows "\<nexists>r. taskStates (runQueue tc c shared tasks turns p) ! i = Finished r"
  using assms unfolding runQueue_def
proof (induction turns arbitrary: p)
  case (Cons j turns)
  then show ?case
    using never_finishes_turn [OF Cons.prems, of j] Cons.IH [of "lowerLLVMModuleToObjects tc c shared tasks j p"]
    by (simp add: length_turn)
qed simp

text \<open>
  A failure to generate code is not reported: when a split is optimized but its code generation gives a
  diagnostic, the task that collects the results reads the diagnostic as if it were a value.
\<close>

theorem codegen_diagnostic_read_as_value:
  assumes "optimizeTask tc c (tasks ! i) = Inr m" "i < length tasks" "serves turns (length tasks)"
    and "\<And>m'. \<exists>e. allValues (snd (compileOptimizedLLVMToObjects tc c shared (taskParLLC (tasks ! i)) (taskIdx (tasks ! i)) (taskBase (tasks ! i)) m')) = Inl e"
  shows "awaitTasks (runQueue tc c shared tasks turns (launch seen tasks)) = ReadsDiagnostic"
proof -
  let ?p = "runQueue tc c shared tasks turns (launch seen tasks)"
  have "length (taskStates ?p) = length tasks"
    using queue_inv_run [OF queue_inv_launch] unfolding queue_inv_def by blast
  moreover have "\<nexists>r. taskStates ?p ! i = Finished r"
    by (rule never_finishes_run [OF assms(1,2) _ assms(4)]) (simp_all add: launch_def assms(2))
  ultimately have "allFinished (taskStates ?p) \<noteq> Some rs" for rs
    using assms(2) by (auto simp: allFinished_Some)
  then show ?thesis using served_tasks_finish [OF assms(3), of tc c shared seen]
    by (auto simp: awaitTasks_def split: if_splits option.splits)
qed

definition failing_toolchain :: "unit toolchain" where
  "failing_toolchain = sample_toolchain\<lparr>addPassesToEmitMC := (\<lambda>_ _ _. False)\<rparr>"

lemma failing_codegen:
  "allValues (snd (compileOptimizedLLVMToObjects failing_toolchain sample_object_compiler tm False idx base m)) =
     Inl ''llc failed to codegen LLVM IR to object code''"
  by (simp add: compileOptimizedLLVMToObjects_def compileOptimizedLLVMModuleToObject_def failing_toolchain_def
      sample_toolchain_def createTargetMachine_def runLlcPasses_def sample_object_compiler_def plain_compilation_def
      sample_backend_def bind_err_def Let_def)

lemma sample_tasks_serial: "list_all (\<lambda>t. \<not> taskParLLC t) sample_tasks"
  by (simp add: sample_tasks_def sample_toolchain_def sample_object_compiler_def emitArchiveParallelCompilation_def
      sample_backend_def plain_compilation_def)

theorem codegen_diagnostic_read_as_value_witness:
  "awaitTasks (runQueue failing_toolchain sample_object_compiler sample_machine sample_tasks [1, 0, 1, 0, 0, 1] (launch {} sample_tasks)) =
     ReadsDiagnostic"
proof -
  obtain m where m: "optimizeTask failing_toolchain sample_object_compiler (sample_tasks ! 1) = Inr m"
    by (simp add: optimizeTask_def failing_toolchain_def sample_toolchain_def createTargetMachine_def bind_err_def
        optimizeLLVMModule_def runLLVMOptPasses_def Let_def)
  have "\<not> taskParLLC (sample_tasks ! 1)" using sample_tasks_serial sample_two_tasks by (simp add: list_all_length)
  then show ?thesis
    by (intro codegen_diagnostic_read_as_value [OF m]) (simp_all add: failing_codegen sample_two_tasks serves_def upt_rec)
qed

section \<open>The module is erased once\<close>

text \<open>Nothing reads or erases the module after it was erased.\<close>

fun erased_last :: "op_event list \<Rightarrow> bool" where
  "erased_last [] = True"
| "erased_last (UseModule # evs) = erased_last evs"
| "erased_last (EraseModule # evs) = (evs = [])"

lemma finishArchive_events:
  assumes "finishArchive tc c asm turns op name results link fnOrder = (r, evs, c')"
  shows "evs = [] \<and> (asm \<or> saveTempsPrefix (compOptions c) = [] \<or> (\<nexists>b. r = Returns (Inr b))) \<or>
    \<not> asm \<and> saveTempsPrefix (compOptions c) \<noteq> [] \<and>
      (evs = [UseModule, EraseModule] \<or> evs = [UseModule] \<and> (\<nexists>b. r = Returns (Inr b)))"
  using assms
  by (auto simp: finishArchive_def Let_def split: sum.splits if_splits prod.splits reply.splits)

lemma finishArchive_options: "compOptions (snd (snd (finishArchive tc c asm turns op name results link fnOrder))) = compOptions c"
  by (auto simp: finishArchive_def emitArchiveSaveTemps_def Let_def split: sum.splits if_splits prod.splits reply.splits option.splits)

lemma compileArchive_events:
  assumes "compileArchive tc c tm asm turns turns' op m = (r, evs, c')"
  shows "erased_last evs \<and> (r \<in> Returns ` range Inr \<longrightarrow> EraseModule \<in> set evs)"
proof -
  obtain tasks link where par: "emitArchiveParallelCompilation tc c m = (tasks, link)"
    by (cases "emitArchiveParallelCompilation tc c m")
  let ?p = "runQueue tc c tm tasks turns (launch (seenCodeGenFns c) tasks)"
  let ?c = "c\<lparr>seenCodeGenFns := seenFns ?p\<rparr>"
  show ?thesis
  proof (cases "\<exists>results. awaitTasks ?p = Returns (Inr results)")
    case True
    then obtain results where res: "awaitTasks ?p = Returns (Inr results)" by blast
    let ?finish = "finishArchive tc ?c asm turns' op (moduleName m) results link
      (if requiresOriginalFunctionOrder (compBackend c) then computeFnOrdering m else Map.empty)"
    obtain r1 evs1 c1 where fin: "?finish = (r1, evs1, c1)" by (cases ?finish)
    have opts: "compOptions c1 = compOptions c" 
      using arg_cong [OF fin, of "\<lambda>x. compOptions (snd (snd x))"] by (simp add: finishArchive_options)
    have "r = r1" "evs = releaseEarly (compOptions c1) asm @ evs1"
      using assms res fin unfolding compileArchive_def par by (auto simp: Let_def)
    with finishArchive_events [OF fin] opts show ?thesis by (auto simp: releaseEarly_def)
  next
    case False
    then have "evs = releaseEarly (compOptions c) asm \<and> r \<notin> Returns ` range Inr"
      using assms unfolding compileArchive_def par
      by (cases "awaitTasks ?p") (auto simp: Let_def split: sum.splits)
    then show ?thesis by (auto simp: releaseEarly_def)
  qed
qed

text \<open>
  C9. The module of the compiler is never read and never erased once it has been erased, on any path through
  the emission of an archive, and an emission that succeeds has erased it.
\<close>

theorem archive_module_lifetime:
  assumes "emitArchive tc c asm forSharedObject turns turns' op = (r, evs, c')"
  shows "erased_last evs \<and> (r \<in> Returns ` range Inr \<longrightarrow> EraseModule \<in> set evs)"
proof -
  have run: "erased_last evs \<and> (r \<in> Returns ` range Inr \<longrightarrow> EraseModule \<in> set evs)"
    if "runTransformation tc c tm asm forSharedObject turns turns' op = (r, evs, c')" for tm
    using that by (auto simp: runTransformation_def split: sum.splits prod.splits dest: compileArchive_events)
  from assms consider "evs = [EraseModule]"
    | tm where "runTransformation tc c tm asm forSharedObject turns turns' op = (r, evs, c')"
    by (auto simp: emitArchive_def split: sum.splits option.splits)
  then show ?thesis by cases (simp, rule run)
qed

theorem archive_module_lifetime_witness:
  "erased_last (fst (snd (emitArchive sample_toolchain sample_object_compiler False False [1, 0, 1, 0, 0, 1] [] ()))) \<and>
   EraseModule \<in> set (fst (snd (emitArchive sample_toolchain sample_object_compiler False False [1, 0, 1, 0, 0, 1] [] ())))"
proof -
  obtain r evs c' where e: "emitArchive sample_toolchain sample_object_compiler False False [1, 0, 1, 0, 0, 1] [] () = (r, evs, c')"
    by (cases "emitArchive sample_toolchain sample_object_compiler False False [1, 0, 1, 0, 0, 1] [] ()")
  then have "r \<in> Returns ` range Inr" using sample_archive by auto
  then show ?thesis using archive_module_lifetime [OF e] e by simp
qed

text \<open>When the libraries cannot be linked, the module is never erased.\<close>

definition unlinkable_toolchain :: "unit toolchain" where
  "unlinkable_toolchain = sample_toolchain\<lparr>linkCalls := sample_calls\<lparr>linkRuntimeLibraries := (\<lambda>_ _. Inl ''no library'')\<rparr>\<rparr>"

lemma link_failure_leaks_module:
  "fst (emitArchive unlinkable_toolchain sample_object_compiler False False turns turns' ()) =
     Returns (Inl ''failed to link bitcode libraries'') \<and>
   fst (snd (emitArchive unlinkable_toolchain sample_object_compiler False False turns turns' ())) = [UseModule]"
  by (simp add: emitArchive_def unlinkable_toolchain_def sample_toolchain_def createTargetMachine_def bind_err_def
      runTransformation_def lowerAllFuncsToLLVM_def translateModuleToLLVMIR_def linkBitcodeLibraries_def Let_def)

section \<open>Keys of the cache\<close>

lemma last_field:
  assumes "x @ CHR '','' # r = y @ CHR '','' # s" "CHR '','' \<notin> set r" "CHR '','' \<notin> set s"
  shows "x = y \<and> r = s"
proof -
  have "takeWhile (\<lambda>c. c \<noteq> CHR '','') (rev (z @ CHR '','' # t)) = rev t" if "CHR '','' \<notin> set t" for z t :: string
    using that by (simp add: takeWhile_append2 takeWhile_tail) (metis (mono_tags, lifting) append.right_neutral set_rev takeWhile.simps(2) takeWhile_append2)
  then have "r = s" using assms by (metis rev_is_rev_conv)
  then show ?thesis using assms by simp
qed

text \<open>
  The key of an archive in the cache tells archives apart: equal keys have the same level of
  optimization, the same answer about running at once, splitting, assembly, verbose output and whether the
  object goes into a shared library, so none of these stands in for another.
\<close>

theorem archive_key_separates:
  assumes "\<And>n. CHR '','' \<notin> set (streamRelocModel pr n)"
    and "archiveKey pr a jit asm forSharedObject = archiveKey pr b jit' asm' forSharedObject'"
  shows "optimizationLevel a = optimizationLevel b \<and> jit = jit' \<and>
    enableLLVMPerFunctionSplitting a = enableLLVMPerFunctionSplitting b \<and> asm = asm' \<and>
    verboseOutput a = verboseOutput b \<and> forSharedObject = forSharedObject' \<and>
    printOptions pr a = printOptions pr b"
proof -
  let ?head = "\<lambda>o1 j s as. ''emitArchive('' @ printOptions pr o1 @ '', isJIT='' @ bit01 j @
     '', enableLLVMPerFunctionSplitting='' @ bit01 s @ '', emitAssembly='' @ bit01 as"
  have tail: "(x @ '', verboseOutput='' @ bit01 v @ '', forSharedObject='' @ bit01 f @ '')'') =
      (y @ '', verboseOutput='' @ bit01 v' @ '', forSharedObject='' @ bit01 f' @ '')'') \<longleftrightarrow> x = y \<and> v = v' \<and> f = f'" for x y v v' f f'
    by (auto simp: bit01_def)
  have reloc: "?head a jit (enableLLVMPerFunctionSplitting a) asm @ CHR '','' # '' relocModel='' @ streamRelocModel pr (relocModel a) =
      ?head b jit' (enableLLVMPerFunctionSplitting b) asm' @ CHR '','' # '' relocModel='' @ streamRelocModel pr (relocModel b)"
    and vf: "verboseOutput a = verboseOutput b" "forSharedObject = forSharedObject'"
    using assms(2) tail [of "?head a jit (enableLLVMPerFunctionSplitting a) asm @ '', relocModel='' @ streamRelocModel pr (relocModel a)"
        "verboseOutput a" forSharedObject "?head b jit' (enableLLVMPerFunctionSplitting b) asm' @ '', relocModel='' @ streamRelocModel pr (relocModel b)"]
    unfolding archiveKey_def by auto
  have "?head a jit (enableLLVMPerFunctionSplitting a) asm = ?head b jit' (enableLLVMPerFunctionSplitting b) asm'"
    by (rule last_field [OF reloc, THEN conjunct1]) (use assms(1) in auto)
  then have "printOptions pr a = printOptions pr b \<and> jit = jit' \<and>
      enableLLVMPerFunctionSplitting a = enableLLVMPerFunctionSplitting b \<and> asm = asm'"
    by (auto simp: bit01_def split: if_splits)
  then show ?thesis using vf printOptions_level [of pr a "[]" pr b "[]"] by simp
qed

theorem archive_key_separates_witness:
  "archiveKey (printersOf sample_toolchain) plain_compilation False False True \<noteq>
     archiveKey (printersOf sample_toolchain) plain_compilation False False False"
  using archive_key_separates [of "printersOf sample_toolchain" plain_compilation False False True plain_compilation False False False]
  by (auto simp: sample_toolchain_def)

section \<open>What an image exports\<close>

text \<open>
  Lowering a module for a shared library on a COFF target marks for export exactly the definitions that
  the other formats publish, except those that come from another image; an object for an executable and
  an object of another format get no mark.
\<close>

theorem shared_library_exports:
  assumes "lowerAllFuncsToLLVM tc c forSharedObject op = (Inr m, op')"
    and "translateModuleToLLVMIR tc (compOptions c) op' = Some m'" "exports m' = []"
  shows "exports m =
    (if forSharedObject \<and> trFormat (parseTriple (targetHost tc) (targetTriple (compOptions c))) = COFF
     then map gvName (filter (\<lambda>g. publishes g \<and> gvDLLStorage g \<noteq> DLLImportStorage) (globalValues m')) else [])"
  using assms exports_marked [OF assms(3)]
  by (auto simp: lowerAllFuncsToLLVM_def Let_def split: if_splits option.splits)

definition coff_toolchain :: "unit toolchain" where
  "coff_toolchain = sample_toolchain\<lparr>targetHost := (linux_host [])\<lparr>parseTriple := (\<lambda>s. (two_part_triple s)\<lparr>trFormat := COFF\<rparr>)\<rparr>,
     mlirToLLVMIR := (\<lambda>n op. Some ((small_module [''f''])\<lparr>globalValues :=
       [defined_function ''f'', (defined_function ''local'')\<lparr>gvLinkage := InternalLinkage\<rparr>, (defined_function ''puts'')\<lparr>isDeclaration := True\<rparr>]\<rparr>))\<rparr>"

theorem shared_library_exports_witness:
  "map_sum id exports (fst (lowerAllFuncsToLLVM coff_toolchain sample_object_compiler True ())) = Inr [''f'']"
proof -
  obtain m where m: "lowerAllFuncsToLLVM coff_toolchain sample_object_compiler True () = (Inr m, ())"
    by (simp add: lowerAllFuncsToLLVM_def coff_toolchain_def sample_toolchain_def translateModuleToLLVMIR_def Let_def)
  let ?m = "(small_module [''f''])\<lparr>globalValues :=
     [defined_function ''f'', (defined_function ''local'')\<lparr>gvLinkage := InternalLinkage\<rparr>, (defined_function ''puts'')\<lparr>isDeclaration := True\<rparr>]\<rparr>"
  have t: "translateModuleToLLVMIR coff_toolchain (compOptions sample_object_compiler) () = Some ?m"
    by (simp add: translateModuleToLLVMIR_def coff_toolchain_def sample_toolchain_def attachInstrumentationAttributes_def
        sample_object_compiler_def plain_compilation_def)
  have "exports m = [''f'']"
    by (subst shared_library_exports [OF m t])
      (simp_all add: exports_def defined_function_def coff_toolchain_def publishes_def isDeclarationForLinker_def
        hasLocalLinkage_def linux_host_def)
  then show ?thesis using m by simp
qed

end
