(* ===== verification/Object_Offload.thy ===== *)
theory Object_Offload
  imports Object_Archive
begin

text \<open>
  Offload kernels (\<^verbatim>\<open>Mojo/lib/Compiler/ObjectCompiler/ObjectCompiler.cpp\<close>): a bundle of kernels is split, each
  kernel is emitted in the kinds that its number asks for, and the results are collected by number.  The
  text of kinds and modules, the cache and what the backend does with code generation and linking are
  arguments.
\<close>

section \<open>One kind of one kernel\<close>

datatype EmitAs = EmitASM | EmitLLVM | EmitLLVM_BITCODE | EmitLLVM_OPT | EmitLLVM_OPT_BITCODE | EmitOBJECT

record 'op offload_calls =
  showEmitAs :: "EmitAs \<Rightarrow> string"
  printIR :: "llvm_module \<Rightarrow> string"
  printMLIR :: "'op \<Rightarrow> string"
  kernelCache :: "string \<Rightarrow> string option"
  parseKernelId :: "string \<Rightarrow> nat option"
  linkObject :: "string \<Rightarrow> string \<Rightarrow> string error_or"
  hookEmitAssembly :: "nat \<Rightarrow> (bool \<Rightarrow> llvm_module \<Rightarrow> string error_or) \<Rightarrow> (string \<Rightarrow> string \<Rightarrow> string error_or) \<Rightarrow> llvm_module \<Rightarrow> string error_or"
  hookEmitObject :: "nat \<Rightarrow> (bool \<Rightarrow> llvm_module \<Rightarrow> string error_or) \<Rightarrow> (string \<Rightarrow> string \<Rightarrow> string error_or) \<Rightarrow> llvm_module \<Rightarrow> string error_or"

definition kernelKey ::
  "(EmitAs \<Rightarrow> string) \<Rightarrow> printers \<Rightarrow> compilation_options \<Rightarrow> bool \<Rightarrow> EmitAs \<Rightarrow> string list \<Rightarrow> string" where
  "kernelKey showKind pr opts jit kind linkArgs =
     ''compileLLVMModuleToObject('' @ printOptions pr opts @ '')'' @ '' emitAs = '' @ showKind kind @ '' isJIT = '' @ bit01 jit @
     (if emissionOptions opts \<noteq> [] then '' emissionOptions = '' @ emissionOptions opts else []) @
     (if emissionLinkOptions opts \<noteq> [] then '' emissionLinkOptions = '' @ emissionLinkOptions opts else []) @
     concat (map (\<lambda>arg. '' sharedObjectLinkArg = '' @ arg) linkArgs)"

text \<open>The code generation that the backend's hooks may call.\<close>

definition runLlc :: "'op toolchain \<Rightarrow> 'op object_compiler \<Rightarrow> target_machine \<Rightarrow> bool \<Rightarrow> llvm_module \<Rightarrow> string error_or" where
  "runLlc tc c tm createObjectFile m =
     (case runLlcPasses tc (compOptions c) tm createObjectFile False 0 None m of
        None \<Rightarrow> Inl (if createObjectFile then ''llc failed to codegen LLVM IR to object code''
                  else ''llc failed to codegen LLVM IR to assembly'')
      | Some (_, _, out) \<Rightarrow> Inr out)"

definition emitKernel ::
  "'op offload_calls \<Rightarrow> 'op toolchain \<Rightarrow> 'op object_compiler \<Rightarrow> nat \<Rightarrow> EmitAs \<Rightarrow> llvm_module \<Rightarrow> string error_or" where
  "emitKernel oc tc c moduleIdx kind m =
     (if kind = EmitLLVM then Inr (printIR oc m)
      else if kind = EmitLLVM_BITCODE then emitBitcode tc m
      else
        let triple = moduleTriple m;
            adjusted = adjustOptionsForTargetMachine (compBackend c) (compOptions c) triple;
            m = m\<lparr>moduleTriple := targetTriple adjusted\<rparr> in
        bind_err (defaultCreateTargetMachine tc adjusted (isJIT c)) (\<lambda>tm.
          case optimizeLLVMModule tc (compOptions c) tm (Some moduleIdx) (finalizeModuleForTarget (compBackend c) tm triple m) of
            None \<Rightarrow> Inl ''failed to optimize LLVM IR.''
          | Some m \<Rightarrow>
              if kind = EmitLLVM_OPT then Inr (printIR oc m)
              else if kind = EmitLLVM_OPT_BITCODE then emitBitcode tc m
              else if kind = EmitASM then hookEmitAssembly oc moduleIdx (runLlc tc c tm) (linkObject oc) m
              else hookEmitObject oc moduleIdx (runLlc tc c tm) (linkObject oc) m))"

text \<open>
  With more than one emission of a kernel each of them works on a copy that goes through the bitcode behind
  the key.
\<close>

definition lowerKernelAs ::
  "'op offload_calls \<Rightarrow> 'op toolchain \<Rightarrow> 'op object_compiler \<Rightarrow> nat \<Rightarrow> bool \<Rightarrow> llvm_module \<Rightarrow> EmitAs \<Rightarrow> string error_or" where
  "lowerKernelAs oc tc c moduleIdx shouldDeserialize m kind =
     (let keyText = kernelKey (showEmitAs oc) (printersOf tc) (compOptions c) (isJIT c) kind (sharedObjectLinkArgs c);
          keyBuf = keyText @ writeBitcode tc m in
      case kernelCache oc keyBuf of
        Some buf \<Rightarrow> Inr buf
      | None \<Rightarrow>
          if shouldDeserialize then
            (case parseBitcode tc (drop (length keyText) keyBuf) of
               None \<Rightarrow> Inl ''failed to load LLVM IR bitcode''
             | Some m \<Rightarrow> emitKernel oc tc c moduleIdx kind m)
          else emitKernel oc tc c moduleIdx kind m)"

section \<open>One kernel\<close>

text \<open>
  The two values that the task of a kernel sets; \<open>None\<close> is a value that the task never sets.
\<close>

record kernel_cells =
  resultBufs :: "(EmitAs \<rightharpoonup> string) error_or option"
  resultKernelId :: "nat error_or option"

definition shouldRunExtraAsm :: "compilation_options \<Rightarrow> EmitAs list \<Rightarrow> bool" where
  "shouldRunExtraAsm opts kinds \<longleftrightarrow> saveTempsPrefix opts \<noteq> [] \<and> EmitOBJECT \<in> set kinds \<and> EmitASM \<notin> set kinds"

definition kernelBuffers :: "EmitAs list \<Rightarrow> string error_or list \<Rightarrow> (EmitAs \<rightharpoonup> string) error_or" where
  "kernelBuffers kinds results = map_sum id (\<lambda>bufs. map_of (zip kinds bufs)) (allValues results)"

definition lowerKernel ::
  "'op offload_calls \<Rightarrow> 'op toolchain \<Rightarrow> 'op object_compiler \<Rightarrow> (nat \<Rightarrow> EmitAs list) \<Rightarrow> llvm_module \<Rightarrow>
   kernel_cells \<times> (bool \<times> library_attr) list" where
  "lowerKernel oc tc c kernelEmissionKinds m =
     (case getKernelIDFromLLVMModule (parseKernelId oc) m of
        Inl e \<Rightarrow> (\<lparr>resultBufs = Some (Inl ''Can't find kernelId''), resultKernelId = Some (Inl e)\<rparr>, bitcodeLibs c)
      | Inr (kernelId, kernelEntry, m) \<Rightarrow>
          (case linkBitcodeLibraries (linkCalls tc) (compOptions c) (bitcodeLibs c) m of
             (Inl e, _, libs) \<Rightarrow>
               (\<lparr>resultBufs = Some (Inl ''failed to link bitcode libraries''), resultKernelId = None\<rparr>, libs)
           | (Inr _, m, libs) \<Rightarrow>
               (let m = attachCodegenAttributes (compBackend c) kernelEntry m;
                    kinds = kernelEmissionKinds kernelId;
                    extraAsm = shouldRunExtraAsm (compOptions c) kinds;
                    shouldDeserialize = (1 < length kinds \<or> extraAsm);
                    emissions = kinds @ (if extraAsm then [EmitASM] else []);
                    emissionResults = map (lowerKernelAs oc tc c kernelId shouldDeserialize m) emissions;
                    counted = (if extraAsm then butlast emissionResults else emissionResults) in
                (\<lparr>resultBufs = Some (kernelBuffers kinds counted), resultKernelId = Some (Inr kernelId)\<rparr>, libs))))"

section \<open>A bundle of kernels\<close>

fun lowerKernels ::
  "'op offload_calls \<Rightarrow> 'op toolchain \<Rightarrow> 'op object_compiler \<Rightarrow> (nat \<Rightarrow> EmitAs list) \<Rightarrow> llvm_module list \<Rightarrow>
   kernel_cells list \<times> 'op object_compiler" where
  "lowerKernels oc tc c kinds [] = ([], c)"
| "lowerKernels oc tc c kinds (m # ms) =
     (case lowerKernel oc tc c kinds m of
        (cells, libs) \<Rightarrow>
          (case lowerKernels oc tc (c\<lparr>bitcodeLibs := libs\<rparr>) kinds ms of (rest, c) \<Rightarrow> (cells # rest, c)))"

text \<open>Both values of every kernel, once all are set.\<close>

fun allSet :: "kernel_cells list \<Rightarrow> ((EmitAs \<rightharpoonup> string) error_or \<times> nat error_or) list option" where
  "allSet [] = Some []"
| "allSet (k # ks) =
     (case (resultBufs k, resultKernelId k) of
        (Some bufs, Some kernelId) \<Rightarrow> map_option ((#) (bufs, kernelId)) (allSet ks)
      | _ \<Rightarrow> None)"

fun collectKernels ::
  "bool \<Rightarrow> ((EmitAs \<rightharpoonup> string) error_or \<times> nat error_or) list \<Rightarrow> (nat \<rightharpoonup> (EmitAs \<rightharpoonup> string)) \<Rightarrow>
   (nat \<rightharpoonup> (EmitAs \<rightharpoonup> string)) error_or" where
  "collectKernels offload [] results = Inr results"
| "collectKernels offload ((bufs, kernelId) # rest) results =
     (case kernelId of
        Inl e \<Rightarrow> if offload then Inl e else collectKernels offload rest results
      | Inr i \<Rightarrow>
          (case bufs of
             Inl e \<Rightarrow> Inl e
           | Inr b \<Rightarrow> collectKernels offload rest (if results i = None then results(i \<mapsto> b) else results)))"

definition emitOffloadKernels ::
  "'op offload_calls \<Rightarrow> 'op toolchain \<Rightarrow> 'op object_compiler \<Rightarrow> (nat \<Rightarrow> EmitAs list) \<Rightarrow> 'op \<Rightarrow>
   (nat \<rightharpoonup> (EmitAs \<rightharpoonup> string)) reply \<times> 'op object_compiler" where
  "emitOffloadKernels oc tc c kernelEmissionKinds op =
     (if saveTempsPrefix (compOptions c) \<noteq> [] \<and>
         \<not> writeBytesToTempWithHash tc (saveTempsPrefix (compOptions c)) ''.mlir'' (printMLIR oc op) then
        (Returns (Inl ''failed to save mlir to saveTempPrefix''), c)
      else case lowerAllFuncsToLLVM tc c False op of
        (Inl e, _) \<Rightarrow> (Returns (Inl (''failed to lower module to LLVM IR for archive compilation, '' @ e)), c)
      | (Inr m, _) \<Rightarrow>
          (case lowerKernels oc tc c kernelEmissionKinds (map fst (splitPerExported tc m)) of
             (cells, c) \<Rightarrow>
               (case allSet cells of
                  None \<Rightarrow> (StillWaiting, c)
                | Some values \<Rightarrow> (Returns (collectKernels (isOffload (compBackend c)) values Map.empty), c))))"

section \<open>Tasks of kernels do not disturb each other\<close>

text \<open>Marks of use do not change what is linked, and marking keeps the libraries.\<close>

lemma snd_markUsed [simp]: "snd (markUsed e) = snd e"
  by (auto simp: markUsed_def split: prod.splits library_attr.splits)

lemma linkLibraries_marks:
  "map snd libs = map snd libs' \<Longrightarrow>
   fst (linkLibraries lc only libs m) = fst (linkLibraries lc only libs' m) \<and>
   fst (snd (linkLibraries lc only libs m)) = fst (snd (linkLibraries lc only libs' m)) \<and>
   map snd (snd (snd (linkLibraries lc only libs m))) = map snd libs"
proof (induction libs arbitrary: libs' m)
  case (Cons l libs)
  then obtain l' ls' where libs': "libs' = l' # ls'" "snd l = snd l'" "map snd libs = map snd ls'" by (cases libs') auto
  then show ?case
    using Cons.IH [of ls'] by (cases l; cases l') (auto split: sum.splits prod.splits, (metis fst_conv snd_conv)+)
qed simp

lemma linkBitcodeLibraries_marks:
  assumes "map snd libs = map snd libs'"
  shows "fst (linkBitcodeLibraries lc opts libs m) = fst (linkBitcodeLibraries lc opts libs' m) \<and>
   fst (snd (linkBitcodeLibraries lc opts libs m)) = fst (snd (linkBitcodeLibraries lc opts libs' m)) \<and>
   map snd (snd (snd (linkBitcodeLibraries lc opts libs m))) = map snd libs"
  using assms linkLibraries_marks [OF assms]
  by (auto simp: linkBitcodeLibraries_def split: sum.splits)

lemma runLlc_libs [simp]: "runLlc tc (c\<lparr>bitcodeLibs := l\<rparr>) tm = runLlc tc c tm"
  by (simp add: fun_eq_iff runLlc_def)

lemma emitKernel_libs [simp]: "emitKernel oc tc (c\<lparr>bitcodeLibs := l\<rparr>) i kind m = emitKernel oc tc c i kind m"
  unfolding emitKernel_def Let_def by (simp cong: option.case_cong if_cong)

lemma lowerKernelAs_libs [simp]: "lowerKernelAs oc tc (c\<lparr>bitcodeLibs := l\<rparr>) i d m = lowerKernelAs oc tc c i d m"
  unfolding lowerKernelAs_def fun_eq_iff Let_def by (simp cong: option.case_cong)

lemma lowerKernel_libs:
  assumes "map snd l = map snd (bitcodeLibs c)"
  shows "fst (lowerKernel oc tc (c\<lparr>bitcodeLibs := l\<rparr>) kinds m) = fst (lowerKernel oc tc c kinds m)"
    and "map snd (snd (lowerKernel oc tc (c\<lparr>bitcodeLibs := l\<rparr>) kinds m)) = map snd (bitcodeLibs c)"
proof -
  have same: "linkBitcodeLibraries lc opts l m = (r, m1, l1) \<Longrightarrow> linkBitcodeLibraries lc opts (bitcodeLibs c) m = (r', m1', l1') \<Longrightarrow>
      r = r' \<and> m1 = m1'" for lc opts m r m1 l1 r' m1' l1'
    using linkBitcodeLibraries_marks [OF assms, of lc opts m] by simp
  then show "fst (lowerKernel oc tc (c\<lparr>bitcodeLibs := l\<rparr>) kinds m) = fst (lowerKernel oc tc c kinds m)"
    unfolding lowerKernel_def by (auto simp: Let_def split: sum.splits prod.splits) blast+
  have "map snd (snd (snd (linkBitcodeLibraries lc opts l m))) = map snd (bitcodeLibs c)" for lc opts m
    using linkBitcodeLibraries_marks [OF assms, of lc opts m] assms by simp
  then show "map snd (snd (lowerKernel oc tc (c\<lparr>bitcodeLibs := l\<rparr>) kinds m)) = map snd (bitcodeLibs c)"
    using assms unfolding lowerKernel_def by (auto simp: Let_def split: sum.splits prod.splits) (metis snd_conv)+
qed

lemma lowerKernels_each:
  "map snd l = map snd (bitcodeLibs c) \<Longrightarrow>
   fst (lowerKernels oc tc (c\<lparr>bitcodeLibs := l\<rparr>) kinds ms) = map (\<lambda>m. fst (lowerKernel oc tc c kinds m)) ms"
proof (induction ms arbitrary: l)
  case (Cons m ms)
  obtain cells libs where k: "lowerKernel oc tc (c\<lparr>bitcodeLibs := l\<rparr>) kinds m = (cells, libs)"
    by (cases "lowerKernel oc tc (c\<lparr>bitcodeLibs := l\<rparr>) kinds m")
  then have "cells = fst (lowerKernel oc tc c kinds m)" "map snd libs = map snd (bitcodeLibs c)"
    using lowerKernel_libs [OF Cons.prems, of oc tc kinds m] by simp_all
  then show ?case using k Cons.IH [of libs] by (simp split: prod.splits) (metis fst_conv)
qed simp

lemma lowerKernels_cells: "fst (lowerKernels oc tc c kinds ms) = map (\<lambda>m. fst (lowerKernel oc tc c kinds m)) ms"
  using lowerKernels_each [of "bitcodeLibs c" c oc tc kinds ms] by simp

lemma lowerKernels_backend: "compBackend (snd (lowerKernels oc tc c kinds ms)) = compBackend c"
  by (induction ms arbitrary: c) (simp_all add: case_prod_beta)

lemma emitOffloadKernels_reply:
  assumes "lowerAllFuncsToLLVM tc c False op = (Inr m, op')"
    and "saveTempsPrefix (compOptions c) = [] \<or> writeBytesToTempWithHash tc (saveTempsPrefix (compOptions c)) ''.mlir'' (printMLIR oc op)"
  shows "fst (emitOffloadKernels oc tc c kinds op) =
    (case allSet (map (\<lambda>m. fst (lowerKernel oc tc c kinds m)) (map fst (splitPerExported tc m))) of
       None \<Rightarrow> StillWaiting
     | Some vals \<Rightarrow> Returns (collectKernels (isOffload (compBackend c)) vals Map.empty))"
proof -
  let ?parts = "map fst (splitPerExported tc m)"
  obtain cells c' where k: "lowerKernels oc tc c kinds ?parts = (cells, c')" by (cases "lowerKernels oc tc c kinds ?parts")
  then have "cells = map (\<lambda>m. fst (lowerKernel oc tc c kinds m)) ?parts" "compBackend c' = compBackend c"
    using lowerKernels_cells [of oc tc c kinds ?parts] lowerKernels_backend [of oc tc c kinds ?parts] by simp_all
  then show ?thesis using assms k by (auto simp: emitOffloadKernels_def split: option.split)
qed

section \<open>A failed link is waited for\<close>

lemma allSet_None: "k \<in> set ks \<Longrightarrow> resultKernelId k = None \<Longrightarrow> allSet ks = None"
  by (induction ks) (auto split: option.splits)

text \<open>
  C40. When the libraries of a kernel cannot be linked, the emission of its bundle never returns: the task
  reports the failure for the buffers and leaves the number of the kernel without a value, and the
  caller waits for both.
\<close>

theorem offload_link_failure_hangs:
  assumes "lowerAllFuncsToLLVM tc c False op = (Inr m, op')"
    and "saveTempsPrefix (compOptions c) = [] \<or> writeBytesToTempWithHash tc (saveTempsPrefix (compOptions c)) ''.mlir'' (printMLIR oc op)"
    and "part \<in> set (map fst (splitPerExported tc m))"
    and "getKernelIDFromLLVMModule (parseKernelId oc) part = Inr (i, entry, part')"
    and "linkBitcodeLibraries (linkCalls tc) (compOptions c) (bitcodeLibs c) part' = (Inl e, part'', libs)"
  shows "fst (emitOffloadKernels oc tc c kinds op) = StillWaiting"
proof -
  have "resultKernelId (fst (lowerKernel oc tc c kinds part)) = None"
    using assms(4,5) by (simp add: lowerKernel_def)
  then have "allSet (map (\<lambda>m. fst (lowerKernel oc tc c kinds m)) (map fst (splitPerExported tc m))) = None"
    using assms(3) by (intro allSet_None [of "fst (lowerKernel oc tc c kinds part)"]) auto
  then show ?thesis using emitOffloadKernels_reply [OF assms(1,2), of kinds] by simp
qed

section \<open>Every kernel in every kind\<close>

lemma kernelBuffers_exact:
  assumes "kernelBuffers kinds (map f kinds) = Inr bufs"
  shows "bufs kind = Some b \<longleftrightarrow> kind \<in> set kinds \<and> f kind = Inr b"
proof -
  obtain vs where vs: "map f kinds = map Inr vs" "bufs = map_of (zip kinds vs)"
    using assms by (cases "allValues (map f kinds)") (auto simp: kernelBuffers_def allValues_Inr)
  have "vs = map (\<lambda>k. projr (f k)) kinds" using arg_cong [OF vs(1), of "map projr"] by (simp add: comp_def)
  then have b: "bufs = (\<lambda>k. if k \<in> set kinds then Some (projr (f k)) else None)"
    unfolding vs(2) by (metis map_of_zip_map)
  have "f kind \<in> range Inr" if "kind \<in> set kinds"
    using arg_cong [OF vs(1), of set] that by auto
  then show ?thesis unfolding b by auto
qed

lemma allSet_Some: "allSet ks = Some vals \<Longrightarrow> ks = map (\<lambda>(b, i). \<lparr>resultBufs = Some b, resultKernelId = Some i\<rparr>) vals"
proof (induction ks arbitrary: vals)
  case (Cons k ks)
  then show ?case by (cases k) (auto split: option.splits)
qed simp

lemma collectKernels_keeps:
  "collectKernels True vals results = Inr res \<Longrightarrow> results i = Some b \<Longrightarrow> res i = Some b"
proof (induction vals arbitrary: results)
  case (Cons v vals)
  then show ?case by (cases v) (fastforce split: sum.splits if_splits)
qed simp

lemma collectKernels_all:
  assumes "collectKernels True vals results = Inr res" "distinct (map snd vals)"
    and "\<And>i. Inr i \<in> set (map snd vals) \<Longrightarrow> results i = None" "(b, k) \<in> set vals"
  shows "\<exists>i bufs. k = Inr i \<and> b = Inr bufs \<and> res i = Some bufs"
  using assms
proof (induction vals arbitrary: results)
  case (Cons v vals)
  obtain i bufs where v: "v = (Inr bufs, Inr i)" using Cons.prems(1) by (cases v) (auto split: sum.splits)
  have none: "results i = None" using Cons.prems(3) [of i] v by simp
  then have go: "collectKernels True vals (results(i \<mapsto> bufs)) = Inr res" using Cons.prems(1) v by simp
  show ?case
  proof (cases "(b, k) = v")
    case True
    then show ?thesis using v collectKernels_keeps [OF go, of i bufs] by simp
  next
    case False
    then show ?thesis using Cons.prems v by (intro Cons.IH [OF go]) auto
  qed
qed simp

text \<open>
  C10. An emission of a bundle that succeeds is complete and exact: for every kernel of the bundle, the result
  holds, under the kernel's number, exactly the kinds that were asked for, each with the bytes that
  emitting that kernel on its own in that kind gives.
\<close>

theorem offload_kernels_exact:
  assumes emitted: "fst (emitOffloadKernels oc tc c kinds op) = Returns (Inr res)"
    and low: "lowerAllFuncsToLLVM tc c False op = (Inr m, op')"
    and off: "isOffload (compBackend c)"
    and part: "part \<in> set (map fst (splitPerExported tc m))"
      "getKernelIDFromLLVMModule (parseKernelId oc) part = Inr (i, entry, part')"
    and numbers: "distinct (map (\<lambda>p. map_sum id fst (getKernelIDFromLLVMModule (parseKernelId oc) p)) (map fst (splitPerExported tc m)))"
  shows "\<exists>linked libs bufs.
    linkBitcodeLibraries (linkCalls tc) (compOptions c) (bitcodeLibs c) part' = (Inr (), linked, libs) \<and> res i = Some bufs \<and>
    (\<forall>kind b. bufs kind = Some b \<longleftrightarrow> kind \<in> set (kinds i) \<and>
       lowerKernelAs oc tc c i (1 < length (kinds i) \<or> shouldRunExtraAsm (compOptions c) (kinds i))
         (attachCodegenAttributes (compBackend c) entry linked) kind = Inr b)"
proof -
  let ?parts = "map fst (splitPerExported tc m)" and ?cells = "\<lambda>p. fst (lowerKernel oc tc c kinds p)"
  have ok: "saveTempsPrefix (compOptions c) = [] \<or> writeBytesToTempWithHash tc (saveTempsPrefix (compOptions c)) ''.mlir'' (printMLIR oc op)"
    using emitted by (auto simp: emitOffloadKernels_def split: if_splits)
  obtain vals where vals: "allSet (map ?cells ?parts) = Some vals" "collectKernels True vals Map.empty = Inr res"
    using emitted emitOffloadKernels_reply [OF low ok, of kinds] off by (auto split: option.splits)
  have cells: "map ?cells ?parts = map (\<lambda>(b, i). \<lparr>resultBufs = Some b, resultKernelId = Some i\<rparr>) vals"
    by (rule allSet_Some [OF vals(1)])
  have ids: "resultKernelId (?cells p) = Some (map_sum id fst (getKernelIDFromLLVMModule (parseKernelId oc) p))"
    if "resultKernelId (?cells p) \<noteq> None" for p
    using that by (auto simp: lowerKernel_def Let_def split: sum.splits prod.splits)
  have eq: "map (\<lambda>p. resultKernelId (?cells p)) ?parts = map (\<lambda>v. Some (snd v)) vals"
    using arg_cong [OF cells, of "map resultKernelId"] by (simp add: case_prod_beta comp_def)
  have "resultKernelId (?cells p) \<in> (\<lambda>v. Some (snd v)) ` set vals" if "p \<in> set ?parts" for p
    using that arg_cong [OF eq, of set] by (metis (no_types, lifting) image_eqI set_map)
  then have "resultKernelId (?cells p) \<noteq> None" if "p \<in> set ?parts" for p using that by fastforce
  then have nums: "map (\<lambda>p. resultKernelId (?cells p)) ?parts =
      map (\<lambda>p. Some (map_sum id fst (getKernelIDFromLLVMModule (parseKernelId oc) p))) ?parts"
    using ids by (intro map_cong refl) blast
  have "map Some (map (\<lambda>p. map_sum id fst (getKernelIDFromLLVMModule (parseKernelId oc) p)) ?parts) = map Some (map snd vals)"
    using trans [OF sym [OF nums] eq] by (simp add: comp_def)
  then have dist: "distinct (map snd vals)" using numbers by (metis inj_map_eq_map inj_Some)
  have "?cells part \<in> (\<lambda>(b, i). \<lparr>resultBufs = Some b, resultKernelId = Some i\<rparr>) ` set vals"
    using part(1) arg_cong [OF cells, of set] by (metis image_eqI set_map)
  then obtain b k where bk: "(b, k) \<in> set vals" "?cells part = \<lparr>resultBufs = Some b, resultKernelId = Some k\<rparr>" by auto
  obtain j bufs where j: "k = Inr j" "b = Inr bufs" "res j = Some bufs"
    using collectKernels_all [OF vals(2) dist _ bk(1)] by auto
  obtain r linked libs where l: "linkBitcodeLibraries (linkCalls tc) (compOptions c) (bitcodeLibs c) part' = (r, linked, libs)"
    by (cases "linkBitcodeLibraries (linkCalls tc) (compOptions c) (bitcodeLibs c) part'")
  have r: "r = Inr ()" using bk(2) part(2) l by (cases r) (auto simp: lowerKernel_def)
  let ?f = "lowerKernelAs oc tc c i (1 < length (kinds i) \<or> shouldRunExtraAsm (compOptions c) (kinds i))
      (attachCodegenAttributes (compBackend c) entry linked)"
  have "j = i" "kernelBuffers (kinds i) (map ?f (kinds i)) = Inr bufs"
    using bk(2) part(2) l r j by (auto simp: lowerKernel_def Let_def split: if_splits)
  then show ?thesis using l r j(3) kernelBuffers_exact [of "kinds i" ?f bufs] by blast
qed

section \<open>Two kernels\<close>

definition kernel_module :: "string \<Rightarrow> llvm_module" where
  "kernel_module n = (small_module [])\<lparr>globalValues := [withKernelId n (defined_function ''k'')]\<rparr>"

definition kernel_toolchain :: "unit toolchain" where
  "kernel_toolchain = sample_toolchain\<lparr>splitPerExported := (\<lambda>m. [(kernel_module ''7'', Some 0, 0), (kernel_module ''9'', Some 1, 1)])\<rparr>"

definition kernel_compiler :: "unit object_compiler" where
  "kernel_compiler = sample_object_compiler\<lparr>compBackend := sample_backend\<lparr>isOffload := True\<rparr>\<rparr>"

definition sample_offload :: "unit offload_calls" where
  "sample_offload = \<lparr>showEmitAs = (\<lambda>_. ''kind''), printIR = (\<lambda>m. ''define '' @ concat (definedFns m)), printMLIR = (\<lambda>_. []),
     kernelCache = (\<lambda>_. None), parseKernelId = getAsUnsigned 64, linkObject = (\<lambda>obj name. Inr obj),
     hookEmitAssembly = (\<lambda>i llc link m. llc False m), hookEmitObject = (\<lambda>i llc link m. llc True m)\<rparr>"

definition sample_kinds :: "nat \<Rightarrow> EmitAs list" where
  "sample_kinds i = (if i = 7 then [EmitLLVM, EmitOBJECT] else [EmitLLVM])"

definition kernel_source :: llvm_module where
  "kernel_source = small_module [''f'', ''g'', ''h'']"

lemma kernel_lowering: "lowerAllFuncsToLLVM kernel_toolchain kernel_compiler False () = (Inr kernel_source, ())"
  by (simp add: lowerAllFuncsToLLVM_def kernel_toolchain_def sample_toolchain_def translateModuleToLLVMIR_def
      kernel_compiler_def sample_object_compiler_def plain_compilation_def attachInstrumentationAttributes_def
      kernel_source_def Let_def)

lemma kernel_numbers:
  "getKernelIDFromLLVMModule (parseKernelId sample_offload) (kernel_module ''7'') = Inr (7, ''k'', small_module [''k''])"
  "getKernelIDFromLLVMModule (parseKernelId sample_offload) (kernel_module ''9'') = Inr (9, ''k'', small_module [''k''])"
  by (simp_all add: getKernelIDFromLLVMModule_def kernel_module_def small_module_def withKernelId_def defined_function_def
      sample_offload_def getAsUnsigned_def parseDigits_def is_digit_def digit_value_def less_eq_char_def removeKernelId_def)

lemmas kernel_eval = lowerKernelAs_def emitKernel_def kernel_toolchain_def sample_toolchain_def kernel_compiler_def
  sample_object_compiler_def sample_backend_def plain_compilation_def sample_offload_def emitBitcode_def bind_err_def
  optimizeLLVMModule_def runLLVMOptPasses_def runLlc_def runLlcPasses_def Let_def

lemma kernel_each: "lowerKernelAs sample_offload kernel_toolchain kernel_compiler i d m kind \<in> range Inr"
  by (cases kind) (simp_all add: kernel_eval)

lemma kernel_text:
  "lowerKernelAs sample_offload kernel_toolchain kernel_compiler 7 True (small_module [''k'']) EmitLLVM = Inr ''define k''"
  by (simp add: kernel_eval small_module_def definedFns_def moduleFunctions_def defined_function_def)

lemma allValues_ok: "set rs \<subseteq> range Inr \<Longrightarrow> \<exists>vs. allValues rs = Inr vs"
  by (induction rs) (auto simp: bind_err_def split: sum.splits)

lemma kernel_link:
  "linkBitcodeLibraries (linkCalls kernel_toolchain) (compOptions kernel_compiler) (bitcodeLibs kernel_compiler) m = (Inr (), m, [])"
  by (simp add: linkBitcodeLibraries_def kernel_toolchain_def sample_toolchain_def sample_calls_def kernel_compiler_def
      sample_object_compiler_def)

lemma kernel_cells:
  assumes "getKernelIDFromLLVMModule (parseKernelId sample_offload) p = Inr (i, e, p')"
  shows "\<exists>bufs. fst (lowerKernel sample_offload kernel_toolchain kernel_compiler sample_kinds p) =
    \<lparr>resultBufs = Some (Inr bufs), resultKernelId = Some (Inr i)\<rparr>"
proof -
  have "\<not> shouldRunExtraAsm (compOptions kernel_compiler) kinds" for kinds
    by (simp add: shouldRunExtraAsm_def kernel_compiler_def sample_object_compiler_def plain_compilation_def)
  moreover have "\<exists>vs. allValues (map (lowerKernelAs sample_offload kernel_toolchain kernel_compiler i d m) kinds) = Inr vs" for d m kinds
    by (rule allValues_ok) (use kernel_each in auto)
  ultimately show ?thesis
    unfolding lowerKernel_def assms by (simp add: kernel_link kernelBuffers_def Let_def) (metis map_sum.simps(2))
qed

lemma kernel_emission: "\<exists>res. fst (emitOffloadKernels sample_offload kernel_toolchain kernel_compiler sample_kinds ()) = Returns (Inr res)"
proof -
  have parts: "map fst (splitPerExported kernel_toolchain kernel_source) = [kernel_module ''7'', kernel_module ''9'']"
      "isOffload (compBackend kernel_compiler) = True" "saveTempsPrefix (compOptions kernel_compiler) = []"
    by (simp_all add: kernel_toolchain_def kernel_compiler_def sample_object_compiler_def plain_compilation_def)
  have "fst (emitOffloadKernels sample_offload kernel_toolchain kernel_compiler sample_kinds ()) =
    (case allSet (map (\<lambda>m. fst (lowerKernel sample_offload kernel_toolchain kernel_compiler sample_kinds m)) [kernel_module ''7'', kernel_module ''9'']) of
       None \<Rightarrow> StillWaiting | Some vals \<Rightarrow> Returns (collectKernels True vals Map.empty))"
    using emitOffloadKernels_reply [OF kernel_lowering disjI1 [OF parts(3)], of sample_offload sample_kinds] by (simp only: parts)
  then show ?thesis using kernel_cells [OF kernel_numbers(1)] kernel_cells [OF kernel_numbers(2)] by auto
qed

theorem offload_kernels_exact_witness:
  "\<exists>res bufs. fst (emitOffloadKernels sample_offload kernel_toolchain kernel_compiler sample_kinds ()) = Returns (Inr res) \<and>
     res 7 = Some bufs \<and> bufs EmitLLVM = Some ''define k'' \<and> bufs EmitASM = None"
proof -
  obtain res where res: "fst (emitOffloadKernels sample_offload kernel_toolchain kernel_compiler sample_kinds ()) = Returns (Inr res)"
    using kernel_emission by blast
  have parts: "map fst (splitPerExported kernel_toolchain kernel_source) = [kernel_module ''7'', kernel_module ''9'']"
    by (simp add: kernel_toolchain_def)
  have kinds: "sample_kinds 7 = [EmitLLVM, EmitOBJECT]" "attachCodegenAttributes (compBackend kernel_compiler) ''k'' m = m" for m
    by (simp_all add: sample_kinds_def kernel_compiler_def sample_backend_def)
  from offload_kernels_exact [OF res kernel_lowering _ _ kernel_numbers(1)] obtain bufs where
      "res 7 = Some bufs" "\<And>kind b. bufs kind = Some b \<longleftrightarrow> kind \<in> {EmitLLVM, EmitOBJECT} \<and>
        lowerKernelAs sample_offload kernel_toolchain kernel_compiler 7 True (small_module [''k'']) kind = Inr b"
    unfolding parts kernel_link kinds by (auto simp: kernel_numbers kernel_compiler_def)
  then show ?thesis using res kernel_text by (metis EmitAs.distinct(1,9) insertE insertI1 not_Some_eq singletonD)
qed

definition unlinkable_kernels :: "unit toolchain" where
  "unlinkable_kernels = kernel_toolchain\<lparr>linkCalls := sample_calls\<lparr>linkRuntimeLibraries := (\<lambda>_ _. Inl ''no library'')\<rparr>\<rparr>"

theorem offload_link_failure_hangs_witness:
  "fst (emitOffloadKernels sample_offload unlinkable_kernels kernel_compiler sample_kinds ()) = StillWaiting"
proof (rule offload_link_failure_hangs)
  show "lowerAllFuncsToLLVM unlinkable_kernels kernel_compiler False () = (Inr kernel_source, ())"
    by (simp add: lowerAllFuncsToLLVM_def unlinkable_kernels_def kernel_toolchain_def sample_toolchain_def
        translateModuleToLLVMIR_def kernel_compiler_def sample_object_compiler_def plain_compilation_def
        attachInstrumentationAttributes_def kernel_source_def Let_def)
  show "getKernelIDFromLLVMModule (parseKernelId sample_offload) (kernel_module ''7'') = Inr (7, ''k'', small_module [''k''])"
    by (rule kernel_numbers)
  show "linkBitcodeLibraries (linkCalls unlinkable_kernels) (compOptions kernel_compiler) (bitcodeLibs kernel_compiler) (small_module [''k'']) =
      (Inl ''no library'', small_module [''k''], bitcodeLibs kernel_compiler)"
    by (simp add: linkBitcodeLibraries_def unlinkable_kernels_def)
qed (simp_all add: unlinkable_kernels_def kernel_toolchain_def kernel_compiler_def sample_object_compiler_def plain_compilation_def)

section \<open>Link arguments in the key\<close>

definition linkArgsText :: "string list \<Rightarrow> string" where
  "linkArgsText args = concat (map (\<lambda>arg. '' sharedObjectLinkArg = '' @ arg) args)"

lemma first_field:
  assumes "x @ c # r = y @ c # s" "c \<notin> set x" "c \<notin> set y"
  shows "x = y \<and> r = s"
proof -
  have "takeWhile (\<lambda>d. d \<noteq> c) (z @ c # t) = z" if "c \<notin> set z" for z t
    using that by (induction z) auto
  then have "x = y" using assms by metis
  then show ?thesis using assms by simp
qed

lemma linkArgsText_split:
  assumes "CHR ''='' \<notin> set a" "CHR ''='' \<notin> set b" "a @ linkArgsText as = b @ linkArgsText bs"
    "list_all (\<lambda>s. CHR ''='' \<notin> set s) as" "list_all (\<lambda>s. CHR ''='' \<notin> set s) bs"
  shows "a = b \<and> as = bs"
  using assms
proof (induction as arbitrary: a b bs)
  case Nil
  then show ?case by (cases bs) (auto simp: linkArgsText_def)
next
  case (Cons x as)
  have "CHR ''='' \<in> set (a @ linkArgsText (x # as))" by (simp add: linkArgsText_def)
  then have "bs \<noteq> []" using Cons.prems(2,3) by (metis append.right_neutral concat.simps(1) linkArgsText_def list.map(1))
  then obtain y bs' where bs: "bs = y # bs'" by (cases bs) simp_all
  have split: "(a @ '' sharedObjectLinkArg '') @ CHR ''='' # ('' '' @ x @ linkArgsText as) =
      (b @ '' sharedObjectLinkArg '') @ CHR ''='' # ('' '' @ y @ linkArgsText bs')"
    using Cons.prems(3) bs by (simp add: linkArgsText_def)
  have "a @ '' sharedObjectLinkArg '' = b @ '' sharedObjectLinkArg ''" "x @ linkArgsText as = y @ linkArgsText bs'"
    using first_field [OF split] Cons.prems(1,2) by simp_all
  then have "a = b" "x = y \<and> as = bs'" using Cons.IH [of x y bs'] Cons.prems(4,5) bs by simp_all
  then show ?case using bs by simp
qed

text \<open>
  For one module and one kind, a change of the link arguments changes the key, as long as no argument contains
  an equals sign; with one, two link lines can share a key.
\<close>

lemma kernel_key_link_args:
  assumes "kernelKey sh pr opts jit kind as @ bitcode = kernelKey sh pr opts jit kind bs @ bitcode"
    and "list_all (\<lambda>s. CHR ''='' \<notin> set s) as" "list_all (\<lambda>s. CHR ''='' \<notin> set s) bs"
  shows "as = bs"
proof -
  have "[] @ linkArgsText as = [] @ linkArgsText bs" using assms(1) by (simp add: kernelKey_def linkArgsText_def)
  then show ?thesis using linkArgsText_split [of "[]" "[]" as bs] assms(2,3) by simp
qed

lemma kernel_key_collision:
  "kernelKey sh pr opts jit kind [''a.lib'', ''b.lib''] = kernelKey sh pr opts jit kind [''a.lib sharedObjectLinkArg = b.lib'']"
  by (simp add: kernelKey_def)

end
