(* ===== verification/Object_Sharing.thy ===== *)
theory Object_Sharing
  imports Object_Offload File_Locking Mojo_Build Mojo_Config
begin

text \<open>
  Creating the object compiler and linking shared objects
  (\<^verbatim>\<open>Mojo/lib/Compiler/ObjectCompiler/ObjectCompiler.cpp\<close>): the settings are read once, objects and the
  linker's messages go through temporary files, and the linked image is read back.  Running the linker,
  the file system and the backend are arguments.
\<close>

section \<open>Creation\<close>

definition linkerFileName :: "object_format \<Rightarrow> string" where
  "linkerFileName fmt = (case fmt of MachO \<Rightarrow> ''ld64.lld'' | COFF \<Rightarrow> ''lld-link'' | _ \<Rightarrow> ''ld.lld'')"

record 'op create_env =
  joinPath :: "string \<Rightarrow> string \<Rightarrow> string"
  getLocalDefaultBackendChain :: "string \<Rightarrow> unit error_or"
  mojoEnv :: mojo_env
  configOr :: "kv_map error_or"
  findProgramByName :: "string \<Rightarrow> string option"
  fileExists :: "string \<Rightarrow> bool"
  createHost :: target_host
  lookupBackend :: "target_triple \<Rightarrow> 'op backend error_or"

definition cachePath :: "'op create_env \<Rightarrow> string \<Rightarrow> compilation_options \<Rightarrow> string" where
  "cachePath ce basePath opts =
     (let p = (if cacheBaseExtra opts \<noteq> [] then joinPath ce basePath (cacheBaseExtra opts) else basePath) in
      joinPath ce p ''transform'')"

text \<open>The arguments of the configuration go first, then the runtime's import library, if it is there.\<close>

definition readLinkArgs :: "'op create_env \<Rightarrow> object_format \<Rightarrow> kv_map \<Rightarrow> string list" where
  "readLinkArgs ce fmt kv =
     (case appendSharedObjectLinkArgs (mojoEnv ce) [] kv of
        (args, kv) \<Rightarrow>
          if fmt = COFF then
            let importLib = fst (getCompilerRTImportLibraryPath (mojoEnv ce) kv) in
            if importLib \<noteq> [] \<and> fileExists ce importLib then args @ [importLib] else args
          else args)"

definition ObjectCompiler_create ::
  "'op create_env \<Rightarrow> string \<Rightarrow> compilation_options \<Rightarrow> bool \<Rightarrow> 'op object_compiler error_or" where
  "ObjectCompiler_create ce basePath opts jit =
     bind_err (getLocalDefaultBackendChain ce (cachePath ce basePath opts)) (\<lambda>_.
       case configOr ce of
         Inl e \<Rightarrow> Inl (''failed to parse '' @ quote @ ''modular.cfg'' @ quote @ '': '' @ e)
       | Inr kv \<Rightarrow>
           (let t = parseTriple (createHost ce) (targetTriple opts);
                (lldPath, kv) = getLLDPath (mojoEnv ce) kv in
            case (if lldPath = [] then findProgramByName ce (linkerFileName (trFormat t)) else Some lldPath) of
              None \<Rightarrow> Inl ''unable to find linker for linking''
            | Some linker \<Rightarrow>
                bind_err (lookupBackend ce t) (\<lambda>backend.
                  Inr \<lparr>compOptions = opts, compBackend = backend, isJIT = jit, compLinker = linker,
                    sharedObjectLinkArgs = readLinkArgs ce (trFormat t) kv, bitcodeLibs = [], seenCodeGenFns = {}\<rparr>)))"

section \<open>The link line\<close>

definition linkerFlavor :: "object_format \<Rightarrow> string" where
  "linkerFlavor fmt = (if fmt = MachO then ''darwin'' else if fmt = COFF then ''link'' else ''gnu'')"

definition archName :: "string \<Rightarrow> string" where
  "archName a = (if a = ''aarch64'' then ''arm64'' else if a = ''x86_64'' then ''x86_64'' else ''unknown'')"

definition optionalArg :: "string \<Rightarrow> string list" where
  "optionalArg a = (if a \<noteq> [] then [a] else [])"

definition sharedLinkLine ::
  "'op backend \<Rightarrow> compilation_options \<Rightarrow> target_triple \<Rightarrow> string \<Rightarrow> string list \<Rightarrow> string \<Rightarrow> string \<Rightarrow> string list" where
  "sharedLinkLine backend opts t linker extraLinkArgs objFilePath sharedObjPath =
     (if trFormat t = COFF then
        [linker, ''-flavor'', linkerFlavor (trFormat t)] @ appendLinkArgs backend opts @
        [''/DLL'', ''/NOENTRY'', ''/ALTERNATENAME:_fltused=__ImageBase''] @ optionalArg (emissionLinkOptions opts) @
        extraLinkArgs @ [objFilePath, ''/out:'' @ sharedObjPath]
      else if trFormat t = MachO then
        [linker, ''-flavor'', linkerFlavor (trFormat t), ''-platform_version'', ''macos'', trOSVersion t, trOSVersion t,
         ''-arch'', archName (trArch t), ''-undefined'', ''dynamic_lookup'', ''-dylib''] @
        optionalArg (emissionLinkOptions opts) @ extraLinkArgs @ [objFilePath, ''-o'', sharedObjPath]
      else
        [linker, ''-flavor'', linkerFlavor (trFormat t)] @ appendLinkArgs backend opts @ [''-shared''] @
        optionalArg (emissionLinkOptions opts) @ extraLinkArgs @ [objFilePath, ''-o'', sharedObjPath])"

section \<open>Linking\<close>

text \<open>
  Running a program with its error stream in a file: the exit code, the message and the host afterwards.
\<close>

record link_env =
  linkTemps :: temp_calls
  linkSeparator :: "char \<Rightarrow> bool"
  executeAndWait :: "string \<Rightarrow> string list \<Rightarrow> string option \<Rightarrow> temp_host \<Rightarrow> int \<times> string \<times> temp_host"

definition regularFile :: "temp_host \<Rightarrow> string \<Rightarrow> string option" where
  "regularFile h p = (case entries h p of Some (RegularFile c) \<Rightarrow> Some c | _ \<Rightarrow> None)"

text \<open>
  The message of a failed link; \<open>None\<close> is reading the error file of the linker when it is gone.
\<close>

definition linkerMessage :: "string \<Rightarrow> string \<Rightarrow> temp_file option \<Rightarrow> temp_host \<Rightarrow> string option" where
  "linkerMessage name errorMsg linkerErrorFile h =
     (let msg = (if errorMsg \<noteq> [] then '': '' @ errorMsg else []);
          errorPrefix = ''failed to generate '' @ name @ '' shared object binary'' in
      case linkerErrorFile of
        None \<Rightarrow> Some (errorPrefix @ msg)
      | Some f \<Rightarrow>
          map_option (\<lambda>linkerOutput. if linkerOutput \<noteq> [] then errorPrefix @ msg @ '':'' @ [CHR 0x0A] @ linkerOutput else errorPrefix @ msg)
            (regularFile h (tempPath f)))"

definition sharedObjectPath :: "link_env \<Rightarrow> object_format \<Rightarrow> string \<Rightarrow> string" where
  "sharedObjectPath le fmt objFilePath =
     (let sharedObjName = path_stem (linkSeparator le) objFilePath @ (if fmt = COFF then ''.dll'' else ''.so'') in
      case temp_directory_path (linkTemps le) of
        Inl e \<Rightarrow> sharedObjName
      | Inr dir \<Rightarrow> slash (linkTemps le) dir sharedObjName)"

definition destroyOptional :: "temp_file option \<Rightarrow> temp_host \<Rightarrow> temp_host" where
  "destroyOptional f h = (case f of Some f \<Rightarrow> TempFile_destroy f h | None \<Rightarrow> h)"

definition readSharedObject ::
  "'op toolchain \<Rightarrow> link_env \<Rightarrow> compilation_options \<Rightarrow> object_format \<Rightarrow> string \<Rightarrow> temp_host \<Rightarrow> string error_or" where
  "readSharedObject tc le opts fmt sharedObjPath h =
     (case regularFile h sharedObjPath of
        None \<Rightarrow> Inl ''failed to open shared object binary''
      | Some bytes \<Rightarrow>
          if \<not> writeBytesToTempWithHash tc (saveTempsPrefix opts)
               (''.'' @ path_stem (linkSeparator le) sharedObjPath @ (if fmt = COFF then ''.dll'' else ''.so'')) bytes then
            Inl ''failed to write shared object binary to saveTemps''
          else Inr bytes)"

definition createSharedObject ::
  "'op toolchain \<Rightarrow> link_env \<Rightarrow> 'op object_compiler \<Rightarrow> string \<Rightarrow> string \<Rightarrow> temp_host \<Rightarrow> string error_or option \<times> temp_host" where
  "createSharedObject tc le c name buf h =
     (let opts = compOptions c; t = parseTriple (targetHost tc) (targetTriple opts); fmt = trFormat t;
          objName = name @ ''-%%%%%%%'' @ (if fmt = COFF then ''.obj'' else ''.o'') in
      case writeTempFile (linkTemps le) objName buf h of
        Inl e \<Rightarrow> (Some (Inl ''failed to write object binary into a file''), h)
      | Inr (objFile, h) \<Rightarrow>
          (let sharedObjPath = sharedObjectPath le fmt (tempPath objFile);
               lldArgs = sharedLinkLine (compBackend c) opts t (compLinker c) (sharedObjectLinkArgs c) (tempPath objFile) sharedObjPath;
               (linkerErrorFile, h) = (case TempFile_create (linkTemps le) ''linker-error-%%%%%%.log'' h of
                   Inl e \<Rightarrow> (None, h) | Inr (f, h) \<Rightarrow> (Some f, h));
               (linkExitCode, errorMsg, h) = executeAndWait le (hd lldArgs) lldArgs (map_option tempPath linkerErrorFile) h;
               result = (if linkExitCode \<noteq> 0
                   then map_option Inl (linkerMessage (backendName (compBackend c)) errorMsg linkerErrorFile h)
                   else Some (readSharedObject tc le opts fmt sharedObjPath h)) in
           (result, TempFile_destroy objFile (destroyOptional linkerErrorFile h))))"

section \<open>Emission\<close>

text \<open>
  Emitting a shared object: an archive marked for export, linked.  The outer \<open>None\<close> of the result is again a
  read of a message that is gone.
\<close>

definition emitSharedObject ::
  "'op toolchain \<Rightarrow> link_env \<Rightarrow> 'op object_compiler \<Rightarrow> nat list \<Rightarrow> nat list \<Rightarrow> 'op \<Rightarrow> temp_host \<Rightarrow>
   string reply option \<times> 'op object_compiler \<times> temp_host" where
  "emitSharedObject tc le c turns turns' op h =
     (let t = parseTriple (targetHost tc) (targetTriple (compOptions c));
          name = (case moduleFile tc op of Some f \<Rightarrow> pathFilename tc f | None \<Rightarrow> ''mojo-object'') in
      if trFormat t \<notin> {ELF, MachO, COFF} then
        (Some (Returns (Inl ''cannot create shared object binary from target triple that is not ELF, MachO or COFF'')), c, h)
      else case Object_Archive.emitArchive tc c False True turns turns' op of
        (Returns (Inr buf), _, c) \<Rightarrow>
          (case createSharedObject tc le c name buf h of (r, h) \<Rightarrow> (map_option Returns r, c, h))
      | (Returns (Inl e), _, c) \<Rightarrow> (Some (Returns (Inl ''failed to lower LLVM IR to object binary'')), c, h)
      | (StillWaiting, _, c) \<Rightarrow> (Some StillWaiting, c, h)
      | (ReadsDiagnostic, _, c) \<Rightarrow> (Some ReadsDiagnostic, c, h))"

section \<open>The linker is the configured one\<close>

lemma path_lookup_nonempty: "fst (path_lookup look put key root rel s) \<noteq> []"
  by (auto simp: path_lookup_def Let_def split: prod.splits)

lemma getLLDPath_nonempty: "fst (getLLDPath c kv) \<noteq> []"
  by (simp add: getLLDPath_def mojoPath_def getPath_lookup path_lookup_nonempty)

text \<open>
  The search for a linker among the programs is never made: without a setting the path is the default one
  below the package root, which is not empty.
\<close>

lemma linker_never_searched:
  "ObjectCompiler_create (ce\<lparr>findProgramByName := search\<rparr>) basePath opts jit = ObjectCompiler_create ce basePath opts jit"
proof -
  have "readLinkArgs (ce\<lparr>findProgramByName := search\<rparr>) = readLinkArgs ce" "cachePath (ce\<lparr>findProgramByName := search\<rparr>) = cachePath ce"
    by (simp_all add: readLinkArgs_def cachePath_def fun_eq_iff split: prod.splits)
  then show ?thesis
    using getLLDPath_nonempty [of "mojoEnv ce"]
    by (auto simp: ObjectCompiler_create_def Let_def bind_err_def split: sum.splits prod.splits) (metis fst_conv)+
qed

section \<open>What the linker writes is what is emitted\<close>

text \<open>
  How the linkers read their output from the command line: the COFF flavour takes the last \<open>/out:\<close> option, the
  others the argument that follows the last \<open>-o\<close>.
\<close>

fun beforeLastO :: "string list \<Rightarrow> string option" where
  "beforeLastO (p # a # args) = (if a = ''-o'' then Some p else beforeLastO (a # args))"
| "beforeLastO args = None"

definition outputOf :: "object_format \<Rightarrow> string list \<Rightarrow> string option" where
  "outputOf fmt args =
     (if fmt = COFF then map_option (drop 5) (find (starts_with ''/out:'') (rev args)) else beforeLastO (rev args))"

lemma outputOf_link_line: "outputOf (trFormat t) (sharedLinkLine backend opts t linker extra obj p) = Some p"
  by (simp add: sharedLinkLine_def outputOf_def starts_with_def)

lemma hd_link_line: "hd (sharedLinkLine backend opts t linker extra obj p) = linker"
  by (simp add: sharedLinkLine_def)

lemma regularFile_destroy: "p \<noteq> tempPath f \<Longrightarrow> regularFile (TempFile_destroy f h) p = regularFile h p"
  by (auto simp: regularFile_def TempFile_destroy_def TempFile_close_def TempFile_remove_def removeEntry_def split: prod.splits)

lemma writeTempFile_handle:
  assumes "writeTempFile calls model buffer h = Inr (t, h')"
  shows "\<not> keepFile t"
  using assms
  by (auto simp: writeTempFile_def TempFile_create_def bind_err_eq_Inr_iff case_prod_beta TempFile_close_def TempFile_move_def
      split: if_splits)

lemma destroy_removes: "\<not> keepFile f \<Longrightarrow> tempPath f \<noteq> [] \<Longrightarrow> entries (TempFile_destroy f h) (tempPath f) = None"
  by (auto simp: TempFile_destroy_def TempFile_close_def TempFile_remove_def removeEntry_def)

text \<open>
  C11. Linking a shared object gives exactly the bytes that the linker leaves at the output its own command
  line names, in each of the three flavours; the linker runs while the temporary object holds the
  archive, and the temporary object is gone afterwards, while the linked image stays behind.
\<close>

theorem shared_object_exact:
  assumes t: "t = parseTriple (targetHost tc) (targetTriple (compOptions c))"
    and obj: "writeTempFile (linkTemps le) (name @ ''-%%%%%%%'' @ (if trFormat t = COFF then ''.obj'' else ''.o'')) buf h = Inr (objFile, h1)"
    and log: "TempFile_create (linkTemps le) ''linker-error-%%%%%%.log'' h1 = Inr (logFile, h2)"
    and line: "line = sharedLinkLine (compBackend c) (compOptions c) t (compLinker c) (sharedObjectLinkArgs c) (tempPath objFile)
        (sharedObjectPath le (trFormat t) (tempPath objFile))"
    and run: "executeAndWait le (compLinker c) line (Some (tempPath logFile)) h2 = (0, msg, h3)"
    and image: "outputOf (trFormat t) line = Some p" "regularFile h3 p = Some bytes"
    and save: "\<And>suffix. writeBytesToTempWithHash tc (saveTempsPrefix (compOptions c)) suffix bytes"
    and paths: "p \<notin> {tempPath objFile, tempPath logFile}" "tempPath objFile \<noteq> []"
  shows "regularFile h1 (tempPath objFile) = Some buf \<and>
    fst (createSharedObject tc le c name buf h) = Some (Inr bytes) \<and>
    entries (snd (createSharedObject tc le c name buf h)) (tempPath objFile) = None \<and>
    regularFile (snd (createSharedObject tc le c name buf h)) p = Some bytes"
proof -
  have p: "p = sharedObjectPath le (trFormat t) (tempPath objFile)" using image(1) line by (simp add: outputOf_link_line)
  have "createSharedObject tc le c name buf h = (Some (Inr bytes), TempFile_destroy objFile (TempFile_destroy logFile h3))"
    using obj log run image(2) save t line p
    by (simp add: createSharedObject_def hd_link_line readSharedObject_def destroyOptional_def Let_def)
  moreover have "regularFile h1 (tempPath objFile) = Some buf"
    using write_temp_file_contents [OF obj] by (simp add: regularFile_def)
  ultimately show ?thesis
    using regularFile_destroy paths image(2) destroy_removes writeTempFile_handle [OF obj] by simp
qed

text \<open>A linker that puts its inputs together behind a mark.\<close>

definition joining_linker :: "object_format \<Rightarrow> link_env" where
  "joining_linker fmt = \<lparr>linkTemps = plain_calls, linkSeparator = posix_separator,
     executeAndWait = (\<lambda>prog args err h.
       (0, [], case outputOf fmt args of
          Some p \<Rightarrow> h\<lparr>entries := (entries h)(p \<mapsto> RegularFile (''IMG'' @ concat (map (\<lambda>a. the_default [] (regularFile h a)) args)))\<rparr>
        | None \<Rightarrow> h))\<rparr>"

theorem shared_object_exact_witness:
  "fst (createSharedObject sample_toolchain (joining_linker ELF) sample_object_compiler ''m'' ''code'' empty_host) = Some (Inr ''IMGcode'') \<and>
   regularFile (snd (createSharedObject sample_toolchain (joining_linker ELF) sample_object_compiler ''m'' ''code'' empty_host)) ''/tmp/m-%%%%%%%.so'' =
     Some ''IMGcode''"
proof -
  let ?obj = "\<lparr>fd = -1, tempPath = ''/tmp/m-%%%%%%%.o'', keepFile = False\<rparr>"
  let ?log = "\<lparr>fd = 3, tempPath = ''/tmp/linker-error-%%%%%%.log'', keepFile = False\<rparr>"
  let ?h1 = "\<lparr>onWindows = False, entries = [''/tmp/m-%%%%%%%.o'' \<mapsto> RegularFile ''code''], openFds = {}, openFiles = {}\<rparr>"
  let ?h2 = "\<lparr>onWindows = False, entries = [''/tmp/m-%%%%%%%.o'' \<mapsto> RegularFile ''code'', ''/tmp/linker-error-%%%%%%.log'' \<mapsto> RegularFile []], openFds = {3}, openFiles = {3}\<rparr>"
  have t: "trFormat (parseTriple (targetHost sample_toolchain) (targetTriple (compOptions sample_object_compiler))) = ELF"
    by (simp add: sample_toolchain_def linux_host_def two_part_triple_def)
  have temps: "linkTemps (joining_linker ELF) = plain_calls" "linkSeparator (joining_linker ELF) = posix_separator"
    by (simp_all add: joining_linker_def)
  have obj: "writeTempFile plain_calls ''m-%%%%%%%.o'' ''code'' empty_host = Inr (?obj, ?h1)"
    by (simp add: writeTempFile_def TempFile_create_def plain_calls_def empty_host_def bind_err_def starts_with_def
        TempFile_close_def closeNativeFile_def TempFile_move_def TempFile_destroy_def TempFile_remove_def removeEntry_def)
  have log: "TempFile_create plain_calls ''linker-error-%%%%%%.log'' ?h1 = Inr (?log, ?h2)"
    by (simp add: TempFile_create_def plain_calls_def bind_err_def starts_with_def)
  have path: "sharedObjectPath (joining_linker ELF) ELF ''/tmp/m-%%%%%%%.o'' = ''/tmp/m-%%%%%%%.so''"
    by (simp add: sharedObjectPath_def temps plain_calls_def path_stem_def path_filename_def posix_separator_def rsplit_first_def)
  let ?line = "[''lld'', ''-flavor'', ''gnu'', ''-shared'', ''/tmp/m-%%%%%%%.o'', ''-o'', ''/tmp/m-%%%%%%%.so'']"
  let ?h3 = "?h2\<lparr>entries := (entries ?h2)(''/tmp/m-%%%%%%%.so'' \<mapsto> RegularFile ''IMGcode'')\<rparr>"
  have run: "executeAndWait (joining_linker ELF) ''lld'' ?line (Some ''/tmp/linker-error-%%%%%%.log'') ?h2 = (0, [], ?h3)"
    by (simp add: joining_linker_def outputOf_def regularFile_def)
  have line: "?line = sharedLinkLine sample_backend (compOptions sample_object_compiler) (parseTriple (targetHost sample_toolchain)
      (targetTriple (compOptions sample_object_compiler))) ''lld'' [] ''/tmp/m-%%%%%%%.o'' ''/tmp/m-%%%%%%%.so''"
    unfolding sharedLinkLine_def t
    by (simp add: linkerFlavor_def sample_backend_def optionalArg_def sample_object_compiler_def plain_compilation_def)
  have c: "compBackend sample_object_compiler = sample_backend" "compLinker sample_object_compiler = ''lld''"
      "sharedObjectLinkArgs sample_object_compiler = []" "writeBytesToTempWithHash sample_toolchain x y z" for x y z
    by (simp_all add: sample_object_compiler_def sample_toolchain_def)
  have "regularFile ?h1 (tempPath ?obj) = Some ''code'' \<and>
    fst (createSharedObject sample_toolchain (joining_linker ELF) sample_object_compiler ''m'' ''code'' empty_host) = Some (Inr ''IMGcode'') \<and>
    entries (snd (createSharedObject sample_toolchain (joining_linker ELF) sample_object_compiler ''m'' ''code'' empty_host)) (tempPath ?obj) = None \<and>
    regularFile (snd (createSharedObject sample_toolchain (joining_linker ELF) sample_object_compiler ''m'' ''code'' empty_host)) ''/tmp/m-%%%%%%%.so'' =
      Some ''IMGcode''"
    by (rule shared_object_exact [OF refl, where logFile = ?log and ?h2.0 = ?h2 and line = ?line and msg = "[]" and ?h3.0 = ?h3])
      (simp_all add: t temps c obj log run line [symmetric] path, simp_all add: outputOf_def regularFile_def)
  then show ?thesis by blast
qed

end
