(* ===== verification/Rpc_Client.thy ===== *)
theory Rpc_Client
  imports Mojo_Config Text_Numbers
begin

text \<open>
  The client of the debug server of an editor (\<^verbatim>\<open>Mojo/tools/mojo/Debug/RPCClient.cpp\<close>): requests and responses
  as JSON between separators, connections to several windows, the choice of one, and the configurations
  that are sent.  Sockets, the JSON library and the console are arguments; the additional log is not
  modelled.
\<close>

section \<open>Values and messages\<close>

text \<open>
  Values of the JSON library; of a number with a fraction or an exponent only the integer it equals matters,
  if there is one.
\<close>

datatype json = JNull | JBool bool | JInt int | JDouble "int option" | JString string | JArray "json list" | JObject "(string \<times> json) list"

definition protocolSeparator :: string where
  "protocolSeparator = [CHR 0x0A] @ ''----'' @ [CHR 0x0A]"

record response_debug =
  respKind :: string
  respSuccess :: bool
  respMessage :: "string option"

record response_connect = response_debug +
  respPid :: int
  lastTimeSeenActiveInSecs :: int
  respName :: string

fun jsonField :: "json \<Rightarrow> string \<Rightarrow> json option" where
  "jsonField (JObject fs) k = map_of fs k"
| "jsonField _ k = None"

fun asBool :: "json \<Rightarrow> bool option" where
  "asBool (JBool b) = Some b"
| "asBool _ = None"

fun asString :: "json \<Rightarrow> string option" where
  "asString (JString s) = Some s"
| "asString _ = None"

text \<open>Numbers are 64-bit.\<close>

fun asInt64 :: "json \<Rightarrow> int option" where
  "asInt64 (JInt i) = (if - (2 ^ 63) \<le> i \<and> i < 2 ^ 63 then Some i else None)"
| "asInt64 (JDouble n) = n"
| "asInt64 _ = None"

text \<open>A field that may be missing or null.\<close>

definition optionalString :: "json \<Rightarrow> string \<Rightarrow> string option option" where
  "optionalString v k =
     (case jsonField v k of
        None \<Rightarrow> Some None
      | Some JNull \<Rightarrow> Some None
      | Some (JString s) \<Rightarrow> Some (Some s)
      | Some _ \<Rightarrow> None)"

definition fromJSON_debug :: "json \<Rightarrow> response_debug option" where
  "fromJSON_debug v =
     do {
       success \<leftarrow> jsonField v ''success'' \<bind> asBool;
       kind \<leftarrow> jsonField v ''kind'' \<bind> asString;
       message \<leftarrow> optionalString v ''message'';
       Some \<lparr>respKind = kind, respSuccess = success, respMessage = message\<rparr>
     }"

definition fromJSON_connect :: "json \<Rightarrow> response_connect option" where
  "fromJSON_connect v =
     do {
       success \<leftarrow> jsonField v ''success'' \<bind> asBool;
       kind \<leftarrow> jsonField v ''kind'' \<bind> asString;
       pid \<leftarrow> jsonField v ''pid'' \<bind> asInt64;
       message \<leftarrow> optionalString v ''message'';
       lastSeen \<leftarrow> jsonField v ''lastTimeSeenActiveInSecs'' \<bind> asInt64;
       name \<leftarrow> jsonField v ''name'' \<bind> asString;
       Some \<lparr>respKind = kind, respSuccess = success, respMessage = message, respPid = pid,
         lastTimeSeenActiveInSecs = lastSeen, respName = name\<rparr>
     }"

definition toJSON_request :: json where
  "toJSON_request = JObject [(''kind'', JString ''connect'')]"

section \<open>One request\<close>

text \<open>
  Receiving: the answers of the socket, one after the other; no bytes at all end the response.
\<close>

partial_function (option) receiveLoop :: "(nat \<Rightarrow> string error_or) \<Rightarrow> nat \<Rightarrow> string \<Rightarrow> string error_or option" where
  "receiveLoop recv i rawResponse =
     (case recv i of
        Inl e \<Rightarrow> Some (Inl (''can't receive response from the RPC debug server: '' @ e))
      | Inr buff \<Rightarrow>
          if buff = [] then Some (Inr rawResponse)
          else if ends_with protocolSeparator (rawResponse @ buff) then Some (Inr (rawResponse @ buff))
          else receiveLoop recv (i + 1) (rawResponse @ buff))"

declare receiveLoop.simps [code]

definition dropSuffix :: "string \<Rightarrow> string \<Rightarrow> string option" where
  "dropSuffix p s = (if ends_with p s then Some (take (length s - length p) s) else None)"

definition readResponse :: "(string \<Rightarrow> 'r option) \<Rightarrow> ('r \<Rightarrow> bool) \<Rightarrow> ('r \<Rightarrow> string option) \<Rightarrow> string \<Rightarrow> 'r error_or" where
  "readResponse parse success message rawResponse =
     (case dropSuffix protocolSeparator rawResponse of
        None \<Rightarrow> Inl (''response from the RPC server doesn't follow the expected protocol: '' @ rawResponse)
      | Some response \<Rightarrow>
          (case parse response of
             None \<Rightarrow> Inl (''invalid RPC server response: '' @ response)
           | Some r \<Rightarrow>
               if success r then Inr r
               else (case message r of
                 Some m \<Rightarrow> Inl (''RPC Server response:'' @ [CHR 0x0A] @ m)
               | None \<Rightarrow> Inl (''couldn't get a valid response from the RPC server, see '' @
                   ''https://mojolang.org/docs/tools/debugging for possible fixes''))))"

text \<open>
  Sending, which fails or says how many bytes went out, then receiving what the server answers to those
  bytes.  A short count is not looked at.  \<open>None\<close> is a server that keeps sending without an end.
\<close>

definition doSendRequest ::
  "(string \<Rightarrow> 'r option) \<Rightarrow> ('r \<Rightarrow> bool) \<Rightarrow> ('r \<Rightarrow> string option) \<Rightarrow> (string \<Rightarrow> nat error_or) \<Rightarrow> (string \<Rightarrow> nat \<Rightarrow> string error_or) \<Rightarrow>
   string \<Rightarrow> 'r error_or option" where
  "doSendRequest parse success message sendTo recvFrom payloadStr =
     (case sendTo payloadStr of
        Inl e \<Rightarrow> Some (Inl (''can't send data to the RPC debug server: '' @ e))
      | Inr sentBytes \<Rightarrow>
          map_option (\<lambda>raw. bind_err raw (readResponse parse success message)) (receiveLoop (recvFrom (take sentBytes payloadStr)) 0 []))"

section \<open>Connections\<close>

record connection =
  sockfd :: int
  connPort :: int
  serverInfo :: response_connect

text \<open>The order in which windows are displayed; the difference is a signed 64-bit number.\<close>

definition connLess :: "connection \<Rightarrow> connection \<Rightarrow> bool" where
  "connLess a b =
     (let diff = signed_take_bit 63 (lastTimeSeenActiveInSecs (serverInfo a) - lastTimeSeenActiveInSecs (serverInfo b)) in
      if diff \<noteq> 0 then diff < 0
      else if respName (serverInfo a) \<noteq> respName (serverInfo b) then
        length (respName (serverInfo a)) > length (respName (serverInfo b))
      else connPort a < connPort b)"

text \<open>
  The host: the descriptor of a new socket for a port (negative when there is none) with the text of the
  error, connecting it, the two directions of a port, whether an answer came within five seconds, and the
  JSON library.  \<open>unsignedSockets\<close> is the Windows arm, where a descriptor is never below zero and so the
  first test never fires.
\<close>

record rpc_host =
  unsignedSockets :: bool
  openSocket :: "int \<Rightarrow> int \<times> string"
  connectSocket :: "int \<Rightarrow> int \<Rightarrow> string option"
  sendOn :: "int \<Rightarrow> string \<Rightarrow> nat error_or"
  receiveOn :: "int \<Rightarrow> string \<Rightarrow> nat \<Rightarrow> string error_or"
  answersInTime :: "int \<Rightarrow> bool"
  parseJSON :: "string \<Rightarrow> json option"
  formatJSON :: "json \<Rightarrow> string"

definition withSocket :: "int \<Rightarrow> int set \<Rightarrow> int set" where
  "withSocket sock socks = (if sock < 0 then socks else insert sock socks)"

definition connectRequest :: "rpc_host \<Rightarrow> string" where
  "connectRequest rh = formatJSON rh toJSON_request @ protocolSeparator"

text \<open>The request that asks a server for its description.\<close>

definition serverDescription :: "rpc_host \<Rightarrow> int \<Rightarrow> response_connect error_or option" where
  "serverDescription rh port =
     doSendRequest (\<lambda>s. parseJSON rh s \<bind> fromJSON_connect) respSuccess respMessage (sendOn rh port) (receiveOn rh port)
       (connectRequest rh)"

text \<open>A connection or an error, with the sockets that stay open; a timeout does not wait for the thread.\<close>

definition tryToConnectToServer :: "rpc_host \<Rightarrow> int \<Rightarrow> int set \<Rightarrow> (connection error_or \<times> int set) option" where
  "tryToConnectToServer rh port socks =
     (case openSocket rh port of
        (sock, err) \<Rightarrow>
          if \<not> unsignedSockets rh \<and> sock < 0 then
            Some (Inl (''can't open socket to communicate with the RPC debug server with port '' @ intString port @ '': '' @ err), socks)
          else
            (case connectSocket rh sock port of
               Some e \<Rightarrow> Some (Inl (''can't connect to the RPC server with port '' @ intString port @ '': '' @ e @
                 ''. See https://mojolang.org/docs/tools/debugging for possible fixes.''), withSocket sock socks)
             | None \<Rightarrow>
                 if \<not> answersInTime rh port then
                   Some (Inl ''timeout when waiting for the `connect` response'', withSocket sock socks)
                 else
                   map_option (\<lambda>response. case response of
                       Inl e \<Rightarrow> (Inl e, withSocket sock socks)
                     | Inr info \<Rightarrow> (Inr \<lparr>sockfd = sock, connPort = port, serverInfo = info\<rparr>, withSocket sock socks))
                     (serverDescription rh port)))"

text \<open>
  The set of connections: an element goes in unless an equivalent one is there; destroying a connection
  closes its socket.  The elements are scanned in order, which is what a search tree answers as long as
  the comparison is a strict weak order on them.
\<close>

fun insertConnection :: "connection \<Rightarrow> connection list \<Rightarrow> connection list \<times> bool" where
  "insertConnection c [] = ([c], True)"
| "insertConnection c (d # ds) =
     (if connLess c d then (c # d # ds, True)
      else if connLess d c then (case insertConnection c ds of (ds, new) \<Rightarrow> (d # ds, new))
      else (d # ds, False))"

fun collectConnections :: "rpc_host \<Rightarrow> int list \<Rightarrow> connection list \<Rightarrow> int set \<Rightarrow> (connection list \<times> int set) option" where
  "collectConnections rh [] conns socks = Some (conns, socks)"
| "collectConnections rh (port # ports) conns socks =
     do {
       (r, socks) \<leftarrow> tryToConnectToServer rh port socks;
       (case r of
          Inl e \<Rightarrow> collectConnections rh ports conns socks
        | Inr c \<Rightarrow>
            (case insertConnection c conns of
               (conns, new) \<Rightarrow> collectConnections rh ports conns (if new then socks else socks - {sockfd c})))
     }"

section \<open>The choice of a window\<close>

definition describeWindow :: "nat \<Rightarrow> connection \<Rightarrow> string" where
  "describeWindow idx conn =
     (let index = natDigits idx in
      index @ '': '' @ respName (serverInfo conn) @ [CHR 0x0A] @ replicate (length index) CHR '' '' @
      ''  Last activity identified '' @ intString (lastTimeSeenActiveInSecs (serverInfo conn)) @ '' seconds ago, pid='' @
      intString (respPid (serverInfo conn)) @ '', port='' @ intString (connPort conn) @ [CHR 0x0A])"

text \<open>\<^verbatim>\<open>StringRef::consumeInteger\<close> with base ten for a 64-bit number: the digits in front, the rest is left.\<close>

definition consumeInteger :: "string \<Rightarrow> int option" where
  "consumeInteger s =
     (case s of
        c # r \<Rightarrow> if c = CHR ''-'' then getAsSigned 64 (c # takeWhile is_digit r) else getAsSigned 64 (takeWhile is_digit s)
      | [] \<Rightarrow> None)"

definition chooseIndex :: "nat \<Rightarrow> string \<Rightarrow> int error_or" where
  "chooseIndex n rawInput =
     (if n = 1 then Inr 0
      else
        let input = trim_by is_space rawInput in
        if input = [] then Inr 0
        else case consumeInteger input of None \<Rightarrow> Inl ''invalid input'' | Some i \<Rightarrow> Inr i)"

text \<open>
  What a call did: nothing more to say, an error, an iterator that left the set (undefined), or an exception
  that nothing catches.
\<close>

datatype rpc_result = RpcDone | RpcError string | IteratorOutOfRange | RpcThrew

definition sendDebugRequest :: "rpc_host \<Rightarrow> string \<Rightarrow> connection \<Rightarrow> rpc_result option" where
  "sendDebugRequest rh requestStr c =
     map_option (\<lambda>response. case response of Inl e \<Rightarrow> RpcError e | Inr _ \<Rightarrow> RpcDone)
       (doSendRequest (\<lambda>s. parseJSON rh s \<bind> fromJSON_debug) respSuccess respMessage (sendOn rh (connPort c)) (receiveOn rh (connPort c)) requestStr)"

definition windowListing :: "connection list \<Rightarrow> string" where
  "windowListing conns =
     ''Active VS Code windows:'' @ [CHR 0x0A] @ concat (map (\<lambda>(idx, conn). describeWindow idx conn) (enumerate 0 conns)) @
     (if length conns = 1 then [CHR 0x0A] @ ''Only one VS Code window was found. The debug session will '' @
        ''be launched in this window automatically.'' @ [CHR 0x0A, CHR 0x0A]
      else [CHR 0x0A] @ ''Multiple VS Code windows found. Press <enter> to select '' @
        ''the window with index 0 or provide the index of the window to use:'' @ [CHR 0x0A])"

text \<open>The output and the result.\<close>

definition selectAndSend :: "rpc_host \<Rightarrow> string \<Rightarrow> string \<Rightarrow> connection list \<Rightarrow> (string \<times> rpc_result) option" where
  "selectAndSend rh requestStr rawInput conns =
     (if conns = [] then
        Some ([], RpcError (''couldn't connect to any VSCode windows. You might need to '' @ ''restart the IDE or file a bug.''))
      else
        map_option (Pair (windowListing conns))
          (case chooseIndex (length conns) rawInput of
             Inl e \<Rightarrow> Some (RpcError e)
           | Inr index \<Rightarrow>
               if index < 0 \<or> int (length conns) \<le> index then Some IteratorOutOfRange
               else sendDebugRequest rh requestStr (conns ! nat index)))"

definition debugRequest :: "rpc_host \<Rightarrow> (string \<times> json) list \<Rightarrow> string" where
  "debugRequest rh debugConfiguration =
     formatJSON rh (JObject [(''kind'', JString ''debug''), (''debugConfiguration'', JObject debugConfiguration)]) @ protocolSeparator"

text \<open>The whole call: the output, the result, and the sockets that are open after the connections are destroyed.\<close>

definition invokeRPC ::
  "rpc_host \<Rightarrow> unit error_or \<Rightarrow> bool \<Rightarrow> int list \<Rightarrow> string \<Rightarrow> (string \<times> json) list \<Rightarrow> (string \<times> rpc_result \<times> int set) option" where
  "invokeRPC rh logFile dryRun ports rawInput debugConfiguration =
     (let requestStr = debugRequest rh debugConfiguration in
      if dryRun then Some (''payload: '' @ requestStr @ [CHR 0x0A], RpcDone, {})
      else case logFile of
        Inl e \<Rightarrow> Some ([], RpcError (''could not create file for additional logs: '' @ e), {})
      | Inr _ \<Rightarrow>
          do {
            (conns, socks) \<leftarrow> collectConnections rh ports [] {};
            (out, r) \<leftarrow> selectAndSend rh requestStr rawInput conns;
            Some (out, r, socks - sockfd ` set conns)
          })"

section \<open>Debug configurations\<close>

text \<open>An object keeps the value of a key that is there already.\<close>

definition insertField :: "string \<times> json \<Rightarrow> (string \<times> json) list \<Rightarrow> (string \<times> json) list" where
  "insertField f fs = (if map_of fs (fst f) = None then fs @ [f] else fs)"

record debug_env =
  modularHome :: "string error_or"
  debugConfig :: "kv_map error_or"
  debugMojoEnv :: mojo_env
  currentPath :: "string error_or"
  absolutePath :: "string \<Rightarrow> string error_or"
  environment :: "string list"

text \<open>
  The current directory is asked for without an error code here, so a failure is an exception, \<open>None\<close>; below
  it is asked for again with one.
\<close>

definition createBasicDebugConfiguration ::
  "debug_env \<Rightarrow> bool \<Rightarrow> string list \<Rightarrow> (string \<times> json) list error_or option" where
  "createBasicDebugConfiguration de useCudaGdb initCommands =
     (case modularHome de of
        Inl e \<Rightarrow> Some (Inl e)
      | Inr home \<Rightarrow>
          (case debugConfig de of
             Inl e \<Rightarrow> Some (Inl (''failed to parse '' @ [CHR 0x27] @ ''modular.cfg'' @ [CHR 0x27] @ '': '' @ e))
           | Inr kv \<Rightarrow>
               (case currentPath de of
                  Inl e \<Rightarrow> None
                | Inr cwd \<Rightarrow>
                    (let payload = [(''modularHomePath'', JString home),
                       (''modularConfigMojoSection'', JString (configSection (debugMojoEnv de))),
                       (''mojoDriverPath'', JString (fst (getDriverPath (debugMojoEnv de) kv))),
                       (''debuggerRoot'', JString cwd),
                       (''type'', JString (if useCudaGdb then ''mojo-cuda-gdb'' else ''mojo-lldb''))] in
                     Some (Inr (if initCommands \<noteq> [] then insertField (''initCommands'', JArray (map JString initCommands)) payload
                       else payload))))))"

definition insertOptional :: "string \<Rightarrow> string option \<Rightarrow> (string \<times> json) list \<Rightarrow> (string \<times> json) list" where
  "insertOptional k v fs = (case v of Some s \<Rightarrow> insertField (k, JString s) fs | None \<Rightarrow> fs)"

definition attachConfiguration ::
  "debug_env \<Rightarrow> bool \<Rightarrow> bool \<Rightarrow> string option \<Rightarrow> string option \<Rightarrow> string list \<Rightarrow> (string \<times> json) list error_or option" where
  "attachConfiguration de useCudaGdb breakOnLaunch pid processName initCommands =
     map_option (\<lambda>basic. bind_err basic (\<lambda>payload.
       let payload = insertField (''request'', JString ''attach'') payload;
           payload = insertOptional ''pid'' pid payload;
           payload = insertOptional ''program'' processName payload in
       Inr (if breakOnLaunch then insertField (''breakOnLaunch'', JBool True) payload else payload)))
       (createBasicDebugConfiguration de useCudaGdb initCommands)"

definition launchConfiguration ::
  "debug_env \<Rightarrow> bool \<Rightarrow> bool \<Rightarrow> string \<Rightarrow> string list \<Rightarrow> string \<Rightarrow> bool \<Rightarrow> string list \<Rightarrow> (string \<times> json) list error_or option" where
  "launchConfiguration de useCudaGdb breakOnLaunch target runArgs rpcTerminal stopOnEntry initCommands =
     map_option (\<lambda>basic. bind_err basic (\<lambda>payload.
       case absolutePath de target of
         Inl e \<Rightarrow> Inl (''failed to get absolute path to the target '' @ [CHR 0x27] @ target @ [CHR 0x27] @ '': '' @ e)
       | Inr fullTarget \<Rightarrow>
           (case currentPath de of
              Inl e \<Rightarrow> Inl (''failed to get the current working path: '' @ e)
            | Inr cwd \<Rightarrow>
                (let payload = (if useCudaGdb then
                       let payload = insertField (''name'', JString ''Mojo debug with cuda-gdb'') payload in
                       if breakOnLaunch then insertField (''breakOnLaunch'', JBool True) payload else payload
                     else payload);
                     payload = insertField (''program'', JString fullTarget) payload;
                     payload = insertField (''request'', JString ''launch'') payload;
                     payload = insertField (''cwd'', JString cwd) payload;
                     payload = insertField (''debuggerRoot'', JString cwd) payload;
                     payload = insertField ((if useCudaGdb then ''stopAtEntry'' else ''stopOnEntry''), JBool stopOnEntry) payload;
                     payload = insertField (''env'', JArray (map JString (environment de))) payload;
                     payload = insertField (''args'', JArray (map JString runArgs)) payload in
                 Inr (insertField (''runInTerminal'', JBool (rpcTerminal = ''dedicated'')) payload)))))
       (createBasicDebugConfiguration de useCudaGdb initCommands)"

definition invokeAttachRPC ::
  "debug_env \<Rightarrow> rpc_host \<Rightarrow> unit error_or \<Rightarrow> bool \<Rightarrow> bool \<Rightarrow> bool \<Rightarrow> int list \<Rightarrow> string \<Rightarrow> string option \<Rightarrow> string option \<Rightarrow> string list \<Rightarrow>
   (string \<times> rpc_result \<times> int set) option" where
  "invokeAttachRPC de rh logFile dryRun useCudaGdb breakOnLaunch rpcPorts rawInput pid processName initCommands =
     (case attachConfiguration de useCudaGdb breakOnLaunch pid processName initCommands of
        None \<Rightarrow> Some ([], RpcThrew, {})
      | Some (Inl e) \<Rightarrow> Some ([], RpcError e, {})
      | Some (Inr payload) \<Rightarrow> invokeRPC rh logFile dryRun rpcPorts rawInput payload)"

definition invokeLaunchRPC ::
  "debug_env \<Rightarrow> rpc_host \<Rightarrow> unit error_or \<Rightarrow> bool \<Rightarrow> bool \<Rightarrow> bool \<Rightarrow> int list \<Rightarrow> string \<Rightarrow> string \<Rightarrow> string list \<Rightarrow> string \<Rightarrow> bool \<Rightarrow>
   string list \<Rightarrow> (string \<times> rpc_result \<times> int set) option" where
  "invokeLaunchRPC de rh logFile dryRun useCudaGdb breakOnLaunch rpcPorts rawInput target runArgs rpcTerminal stopOnEntry initCommands =
     (case launchConfiguration de useCudaGdb breakOnLaunch target runArgs rpcTerminal stopOnEntry initCommands of
        None \<Rightarrow> Some ([], RpcThrew, {})
      | Some (Inl e) \<Rightarrow> Some ([], RpcError e, {})
      | Some (Inr payload) \<Rightarrow> invokeRPC rh logFile dryRun rpcPorts rawInput payload)"

section \<open>Framing\<close>

text \<open>
  A response is read whole, however the network cuts it, as long as the separator first ends at its end.
\<close>

lemma receiveLoop_framed:
  assumes "\<forall>c\<in>set cs. c \<noteq> []" and "cs \<noteq> []" and "acc @ concat cs = raw"
    and "ends_with protocolSeparator raw" and "\<forall>k < length raw. \<not> ends_with protocolSeparator (take k raw)"
    and "\<forall>j < length cs. recv (i + j) = Inr (cs ! j)"
  shows "receiveLoop recv i acc = Some (Inr raw)"
  using assms
proof (induction cs arbitrary: acc i)
  case Nil
  then show ?case by simp
next
  case (Cons c cs)
  have first: "recv i = Inr c"
    using Cons.prems(6)[rule_format, of 0] by simp
  show ?case
  proof (cases "cs = []")
    case True
    then show ?thesis
      using Cons.prems first by (simp add: receiveLoop.simps[of recv i])
  next
    case False
    then obtain d ds where cs: "cs = d # ds" "d \<noteq> []"
      using Cons.prems(1) by (cases cs) auto
    have "acc @ c = take (length (acc @ c)) raw" "length (acc @ c) < length raw"
      using Cons.prems(3) cs by auto
    then have "\<not> ends_with protocolSeparator (acc @ c)"
      using Cons.prems(5) by metis
    moreover have "receiveLoop recv (Suc i) (acc @ c) = Some (Inr raw)"
    proof (rule Cons.IH)
      show "\<forall>j < length cs. recv (Suc i + j) = Inr (cs ! j)"
        using Cons.prems(6) by (auto simp: nth_Cons dest: spec[where x = "Suc _"])
    qed (use Cons.prems False in simp_all)
    ultimately show ?thesis
      using Cons.prems(1) first by (simp add: receiveLoop.simps[of recv i])
  qed
qed

lemma ends_with_append [simp]: "ends_with p (s @ p)"
  by (simp add: ends_with_def)

lemma dropSuffix_append [simp]: "dropSuffix p (s @ p) = Some s"
  by (simp add: dropSuffix_def)

text \<open>
  C26. A successful response reaches the caller however the network cuts it into pieces: if the server answers
  the request with a message followed by the separator, in pieces none of which is empty, and no shorter part
  of the answer ends in the separator, then the request ends, with exactly the response the message parses to.
\<close>

theorem response_framing:
  assumes "sendTo payload = Inr (length payload)"
    and "cs \<noteq> []" and "\<forall>c\<in>set cs. c \<noteq> []" and "concat cs = msg @ protocolSeparator"
    and "\<forall>k < length (msg @ protocolSeparator). \<not> ends_with protocolSeparator (take k (msg @ protocolSeparator))"
    and "\<forall>j < length cs. recvFrom payload j = Inr (cs ! j)"
    and "parse msg = Some r" and "success r"
  shows "doSendRequest parse success message sendTo recvFrom payload = Some (Inr r)"
proof -
  have "receiveLoop (recvFrom payload) 0 [] = Some (Inr (msg @ protocolSeparator))"
    by (rule receiveLoop_framed[where cs = cs]) (use assms in simp_all)
  then show ?thesis
    using assms by (simp add: doSendRequest_def readResponse_def bind_err_def)
qed

theorem response_framing_witness:
  "doSendRequest (\<lambda>s. if s = ''ok'' then Some True else None) (\<lambda>b. b) (\<lambda>_. None) (\<lambda>s. Inr (length s))
     (\<lambda>_ i. Inr ([''o'', ''k'' @ take 3 protocolSeparator, drop 3 protocolSeparator] ! i)) ''ask'' = Some (Inr True)"
proof (rule response_framing[where msg = "''ok''" and cs = "[''o'', ''k'' @ take 3 protocolSeparator, drop 3 protocolSeparator]"])
  show "\<forall>k < length (''ok'' @ protocolSeparator). \<not> ends_with protocolSeparator (take k (''ok'' @ protocolSeparator))"
    by code_simp
qed (simp_all add: protocolSeparator_def)

section \<open>Windows\<close>

abbreviation lastSeen :: "connection \<Rightarrow> int" where
  "lastSeen c \<equiv> lastTimeSeenActiveInSecs (serverInfo c)"

definition seenInRange :: "connection \<Rightarrow> bool" where
  "seenInRange c = (0 \<le> lastSeen c \<and> lastSeen c < 2 ^ 63)"

lemma connLess_times:
  assumes "seenInRange a" and "seenInRange b" and "lastSeen a \<noteq> lastSeen b"
  shows "connLess a b \<longleftrightarrow> lastSeen a < lastSeen b"
proof -
  have "signed_take_bit 63 (lastSeen a - lastSeen b) = lastSeen a - lastSeen b"
    by (rule signed_take_bit_int_eq_self) (use assms in \<open>auto simp: seenInRange_def\<close>)
  then show ?thesis
    using assms(3) by (simp add: connLess_def)
qed

lemma insertConnection_sorted:
  assumes "\<forall>d\<in>set (c # ds). seenInRange d" and "lastSeen c \<notin> lastSeen ` set ds"
    and "sorted_wrt (\<lambda>a b. lastSeen a < lastSeen b) ds"
  shows "\<exists>es. insertConnection c ds = (es, True) \<and> set es = insert c (set ds) \<and> sorted_wrt (\<lambda>a b. lastSeen a < lastSeen b) es"
  using assms
proof (induction ds)
  case Nil
  then show ?case by simp
next
  case (Cons d ds)
  have less: "connLess c d \<longleftrightarrow> lastSeen c < lastSeen d" "connLess d c \<longleftrightarrow> lastSeen d < lastSeen c"
    using Cons.prems connLess_times[of c d] connLess_times[of d c] by auto
  show ?case
  proof (cases "lastSeen c < lastSeen d")
    case True
    then show ?thesis
      using Cons.prems less by (fastforce)
  next
    case False
    moreover have "lastSeen c \<noteq> lastSeen d"
      using Cons.prems by auto
    ultimately have "\<not> connLess c d" "connLess d c" "lastSeen d < lastSeen c"
      using less by auto
    moreover obtain es where "insertConnection c ds = (es, True)" "set es = insert c (set ds)"
        "sorted_wrt (\<lambda>a b. lastSeen a < lastSeen b) es"
      using Cons by auto
    ultimately show ?thesis
      using Cons.prems by auto
  qed
qed


text \<open>A server that answers, and the connection to it.\<close>

definition reachable_server :: "rpc_host \<Rightarrow> int \<Rightarrow> connection \<Rightarrow> bool" where
  "reachable_server rh port c =
     (fst (openSocket rh port) = sockfd c \<and> 0 \<le> sockfd c \<and> connectSocket rh (sockfd c) port = None \<and> answersInTime rh port \<and>
      connPort c = port \<and> serverDescription rh port = Some (Inr (serverInfo c)))"

lemma tryToConnect_reachable:
  "reachable_server rh port c \<Longrightarrow> tryToConnectToServer rh port socks = Some (Inr c, insert (sockfd c) socks)"
  by (cases "openSocket rh port") (simp add: reachable_server_def tryToConnectToServer_def withSocket_def)

lemma tryToConnect_refused:
  assumes "openSocket rh port = (sock, err)" and "0 \<le> sock" and "connectSocket rh sock port = Some e"
  shows "\<exists>m. tryToConnectToServer rh port socks = Some (Inl m, insert sock socks)"
  using assms by (simp add: tryToConnectToServer_def withSocket_def)

lemma collect_reachable:
  assumes "\<forall>p\<in>set ports. reachable_server rh p (conn p) \<and> seenInRange (conn p)"
    and "\<forall>c\<in>set conns. seenInRange c" and "sorted_wrt (\<lambda>a b. lastSeen a < lastSeen b) conns"
    and "distinct (map (lastSeen \<circ> conn) ports)" and "lastSeen ` conn ` set ports \<inter> lastSeen ` set conns = {}"
  shows "\<exists>es. collectConnections rh ports conns socks = Some (es, socks \<union> sockfd ` conn ` set ports) \<and>
    set es = conn ` set ports \<union> set conns \<and> sorted_wrt (\<lambda>a b. lastSeen a < lastSeen b) es"
  using assms
proof (induction ports arbitrary: conns socks)
  case Nil
  then show ?case by simp
next
  case (Cons p ports)
  obtain ds where ds: "insertConnection (conn p) conns = (ds, True)" "set ds = insert (conn p) (set conns)"
      "sorted_wrt (\<lambda>a b. lastSeen a < lastSeen b) ds"
    using insertConnection_sorted[of "conn p" conns] Cons.prems by auto
  have "\<exists>es. collectConnections rh ports ds (insert (sockfd (conn p)) socks) =
      Some (es, insert (sockfd (conn p)) socks \<union> sockfd ` conn ` set ports) \<and>
      set es = conn ` set ports \<union> set ds \<and> sorted_wrt (\<lambda>a b. lastSeen a < lastSeen b) es"
    by (rule Cons.IH) (use Cons.prems ds in auto)
  then show ?case
    using Cons.prems(1) ds tryToConnect_reachable[of rh p "conn p" socks] by simp
qed

text \<open>
  Windows that answer and were active at different times are all offered, each once and the most recently
  active one first, and pressing return sends the request to that one; no socket is left open.
\<close>

theorem recent_window_chosen:
  assumes "ports \<noteq> []" and "\<forall>p\<in>set ports. reachable_server rh p (conn p) \<and> seenInRange (conn p)"
    and "distinct (map (lastSeen \<circ> conn) ports)"
    and "\<forall>p\<in>set ports. sendDebugRequest rh (debugRequest rh cfg) (conn p) \<noteq> None"
  shows "\<exists>conns. set conns = conn ` set ports \<and> sorted_wrt (\<lambda>a b. lastSeen a < lastSeen b) conns \<and>
    invokeRPC rh (Inr ()) False ports [] cfg =
      Some (windowListing conns, the (sendDebugRequest rh (debugRequest rh cfg) (hd conns)), {})"
proof -
  obtain conns where conns: "collectConnections rh ports [] {} = Some (conns, sockfd ` conn ` set ports)"
      "set conns = conn ` set ports" "sorted_wrt (\<lambda>a b. lastSeen a < lastSeen b) conns"
    using collect_reachable[of ports rh conn "[]" "{}"] assms by auto
  have nonempty: "conns \<noteq> []"
    using assms(1) conns(2) by auto
  then have "hd conns \<in> conn ` set ports"
    using conns(2) hd_in_set by blast
  then obtain r where r: "sendDebugRequest rh (debugRequest rh cfg) (hd conns) = Some r"
    using assms(4) by fastforce
  have "chooseIndex (length conns) [] = Inr 0"
    by (simp add: chooseIndex_def trim_by_def)
  with r have "invokeRPC rh (Inr ()) False ports [] cfg = Some (windowListing conns, r, {})"
    using conns nonempty by (simp add: invokeRPC_def selectAndSend_def hd_conv_nth)
  then show ?thesis
    using conns r by (intro exI[of _ conns]) simp
qed

section \<open>Faults\<close>

definition window :: "int \<Rightarrow> int \<Rightarrow> string \<Rightarrow> connection" where
  "window sock port name =
     \<lparr>sockfd = sock, connPort = port,
      serverInfo = \<lparr>respKind = ''connect'', respSuccess = True, respMessage = None, respPid = port, lastTimeSeenActiveInSecs = 5,
        respName = name\<rparr>\<rparr>"

text \<open>
  Two windows that were active at the same second and have different names of one length are equivalent in the
  order of the set, so the second one is not offered and its connection is closed; and the comparison is not a
  strict weak order, since with a third window the equivalence is not transitive.
\<close>

theorem window_lost:
  "insertConnection (window 4 2 ''docs'') [window 3 1 ''main''] = ([window 3 1 ''main''], False) \<and>
   \<not> connLess (window 3 1 ''main'') (window 4 2 ''docs'') \<and> \<not> connLess (window 4 2 ''docs'') (window 3 1 ''main'') \<and>
   \<not> connLess (window 4 2 ''docs'') (window 5 3 ''main'') \<and> \<not> connLess (window 5 3 ''main'') (window 4 2 ''docs'') \<and>
   connLess (window 3 1 ''main'') (window 5 3 ''main'')"
  by (simp add: window_def connLess_def)

text \<open>
  The index that is typed is not compared with the number of windows: with two of them, two or a negative number
  moves the iterator out of the set.
\<close>

theorem typed_index_unchecked:
  "selectAndSend rh req ''2'' [a, b] = Some (windowListing [a, b], IteratorOutOfRange) \<and>
   selectAndSend rh req ''-1'' [a, b] = Some (windowListing [a, b], IteratorOutOfRange)"
proof -
  have "chooseIndex 2 ''2'' = Inr 2" "chooseIndex 2 ''-1'' = Inr (-1)"
    by (simp_all add: chooseIndex_def consumeInteger_def getAsSigned_def parseDigits_def is_digit_def digit_value_def trim_by_def is_space_def
      is_newline_def less_eq_char_def)
  then show ?thesis
    by (simp add: selectAndSend_def numeral_2_eq_2)
qed

lemma collect_refused:
  assumes "\<forall>p\<in>set ports. 0 \<le> fst (openSocket rh p) \<and> connectSocket rh (fst (openSocket rh p)) p \<noteq> None"
  shows "collectConnections rh ports conns socks = Some (conns, socks \<union> (fst \<circ> openSocket rh) ` set ports)"
  using assms
proof (induction ports arbitrary: socks)
  case Nil
  then show ?case by simp
next
  case (Cons p ports)
  obtain sock err e where "openSocket rh p = (sock, err)" "0 \<le> sock" "connectSocket rh sock p = Some e"
    using Cons.prems by (cases "openSocket rh p") auto
  then obtain m where "tryToConnectToServer rh p socks = Some (Inl m, insert sock socks)"
    using tryToConnect_refused by blast
  then show ?case
    using Cons \<open>openSocket rh p = (sock, err)\<close> by simp
qed

text \<open>
  A connection object closes its socket, but it is made only for a server that answered: when the connections are
  refused, the call ends with every socket it opened still open.
\<close>

theorem refused_sockets_leak:
  assumes "\<forall>p\<in>set ports. 0 \<le> fst (openSocket rh p) \<and> connectSocket rh (fst (openSocket rh p)) p \<noteq> None"
  shows "\<exists>m. invokeRPC rh (Inr ()) False ports rawInput cfg = Some ([], RpcError m, (fst \<circ> openSocket rh) ` set ports)"
  by (simp add: invokeRPC_def collect_refused[OF assms] selectAndSend_def)

section \<open>Configurations\<close>

lemma insertField_distinct: "distinct (map fst fs) \<Longrightarrow> distinct (map fst (insertField f fs))"
  by (auto simp: insertField_def map_of_eq_None_iff)

lemma insertField_other: "k \<noteq> fst f \<Longrightarrow> map_of (insertField f fs) k = map_of fs k"
  by (cases f) (auto simp: insertField_def map_add_def split: option.splits)

lemma insertField_same: "map_of fs k = None \<Longrightarrow> map_of (insertField (k, v) fs) k = Some v"
  by (simp add: insertField_def map_add_def)

lemmas insertField_simps = insertField_distinct insertField_other insertField_same

lemma basic_payload:
  assumes "createBasicDebugConfiguration de cuda initCommands = Some (Inr payload)"
  shows "distinct (map fst payload) \<and>
    fst ` set payload \<subseteq> {''modularHomePath'', ''modularConfigMojoSection'', ''mojoDriverPath'', ''debuggerRoot'', ''type'', ''initCommands''}"
  using assms
  by (auto simp: createBasicDebugConfiguration_def insertField_def Let_def split: sum.splits if_splits)

text \<open>
  A launch configuration is an object with distinct keys that asks for the launch of the absolute path of the
  target, with the arguments and the environment as given, in a terminal of its own only when that is asked
  for, and it carries the stop flag under the name the chosen debugger understands and not under the other.
\<close>

theorem launch_configuration_exact:
  assumes "launchConfiguration de cuda brk target runArgs rpcTerminal stopOnEntry initCommands = Some (Inr payload)"
  shows "distinct (map fst payload) \<and> map_of payload ''request'' = Some (JString ''launch'') \<and>
    (\<exists>p. absolutePath de target = Inr p \<and> map_of payload ''program'' = Some (JString p)) \<and>
    map_of payload ''args'' = Some (JArray (map JString runArgs)) \<and>
    map_of payload ''env'' = Some (JArray (map JString (environment de))) \<and>
    map_of payload ''runInTerminal'' = Some (JBool (rpcTerminal = ''dedicated'')) \<and>
    map_of payload (if cuda then ''stopAtEntry'' else ''stopOnEntry'') = Some (JBool stopOnEntry) \<and>
    map_of payload (if cuda then ''stopOnEntry'' else ''stopAtEntry'') = None"
proof -
  obtain basic p cwd where basic: "createBasicDebugConfiguration de cuda initCommands = Some (Inr basic)"
      "absolutePath de target = Inr p" "currentPath de = Inr cwd"
    using assms
    by (cases "createBasicDebugConfiguration de cuda initCommands"; cases "the (createBasicDebugConfiguration de cuda initCommands)";
        cases "absolutePath de target"; cases "currentPath de") (simp_all add: launchConfiguration_def bind_err_def)
  have unset: "map_of basic k = None"
    if "k \<notin> {''modularHomePath'', ''modularConfigMojoSection'', ''mojoDriverPath'', ''debuggerRoot'', ''type'', ''initCommands''}" for k
    using basic_payload[OF basic(1)] that by (auto simp: map_of_eq_None_iff)
  have "distinct (map fst basic)"
    using basic_payload[OF basic(1)] by simp
  then show ?thesis
    using assms basic
    by (cases cuda; cases brk)
      (clarsimp simp: launchConfiguration_def bind_err_def Let_def, simp add: insertField_simps unset)+
qed

end
