(* ===== verification/Execution_Engine.thy ===== *)
theory Execution_Engine
  imports Mojo_Config Compilation_Options
begin

text \<open>
  The execution engine behind \<^verbatim>\<open>mojo run\<close> (\<^verbatim>\<open>Mojo/lib/ExecutionEngine/ExecutionEngine.cpp\<close>): how the session is
  set up, where a symbol of a program is looked for on each platform, and the removal of unwind tables.  ORC,
  JITLink and the libraries of the host are arguments; how ORC answers a lookup is a hypothesis
  (\<open>first_match\<close>) of the lemmas that need it.
\<close>

section \<open>The session\<close>

definition platformStdlibName :: string where
  "platformStdlibName = ''$platform-stdlib''"

definition compilerRTlibName :: string where
  "compilerRTlibName = ''$compilerrt-lib''"

definition mlirclibName :: string where
  "mlirclibName = ''$mlirc-lib''"

text \<open>A generator answers for the symbols of a library; a dylib has symbols of its own and asks its generators for others.\<close>

type_synonym generator = "string \<Rightarrow> nat option"

record jit_dylib =
  absoluteDefs :: "(string \<times> nat) list"
  dylibGenerators :: "generator list"
  dylibLinkOrder :: "string list"

datatype link_plugin = COFFUnwindSectionRemovalPlugin | GDBJITDebugInfoRegistrationPlugin | ELFDebugObjectPlugin |
  DebugInfoPreservationPlugin | PerfSupportPlugin

text \<open>
  \<open>sessionFormat\<close> is the object format of the triple of the session; a layer is represented by the error it holds.
\<close>

record jit_engine =
  sessionFormat :: object_format
  jitDylibs :: "(string \<times> jit_dylib) list"
  linkPlugins :: "link_plugin list"
  engineSearchOrder :: "string list"
  knownDylibs :: "string set"
  engineLayers :: "string option list"

text \<open>A new dylib links against itself first.\<close>

definition createBareJITDylib :: "string \<Rightarrow> jit_engine \<Rightarrow> jit_engine" where
  "createBareJITDylib name ee =
     ee\<lparr>jitDylibs := jitDylibs ee @ [(name, \<lparr>absoluteDefs = [], dylibGenerators = [], dylibLinkOrder = [name]\<rparr>)]\<rparr>"

definition updateDylib :: "string \<Rightarrow> (jit_dylib \<Rightarrow> jit_dylib) \<Rightarrow> jit_engine \<Rightarrow> jit_engine" where
  "updateDylib name f ee = ee\<lparr>jitDylibs := map (\<lambda>(n, d). if n = name then (n, f d) else (n, d)) (jitDylibs ee)\<rparr>"

definition addGenerator :: "string \<Rightarrow> generator \<Rightarrow> jit_engine \<Rightarrow> jit_engine" where
  "addGenerator name g = updateDylib name (\<lambda>d. d\<lparr>dylibGenerators := dylibGenerators d @ [g]\<rparr>)"

definition addToLinkOrder :: "string \<Rightarrow> string \<Rightarrow> jit_engine \<Rightarrow> jit_engine" where
  "addToLinkOrder name target = updateDylib name (\<lambda>d. d\<lparr>dylibLinkOrder := dylibLinkOrder d @ [target]\<rparr>)"

definition defineSymbols :: "string \<Rightarrow> (string \<times> nat) list \<Rightarrow> jit_engine \<Rightarrow> jit_engine" where
  "defineSymbols name defs = updateDylib name (\<lambda>d. d\<lparr>absoluteDefs := absoluteDefs d @ defs\<rparr>)"

definition addPlugin :: "link_plugin \<Rightarrow> jit_engine \<Rightarrow> jit_engine" where
  "addPlugin p ee = ee\<lparr>linkPlugins := linkPlugins ee @ [p]\<rparr>"

section \<open>The host\<close>

record engine_options =
  epcFormat :: "object_format option"
  libraryPaths :: "string list"
  crossCompiling :: bool
  registerDebugPlugins :: bool
  registerPerfPlugins :: bool

text \<open>
  What the engine asks of ORC and of the machine: making the memory mapper for a slab size, the page size, the
  manager of dylibs, opening a library, the symbols of the running process as ORC sees it and as the process
  sees itself, the addresses of the functions of the C library the program was linked with, defining
  symbols, and the plugins of LLVM.
\<close>

record jit_host =
  machineFormat :: object_format
  builtForWindows :: bool
  createMapper :: "nat \<Rightarrow> unit error_or"
  pageSize :: "nat error_or"
  createDylibMgr :: "unit error_or"
  openMojoConfig :: "kv_map error_or"
  engineMojoEnv :: mojo_env
  libraryExists :: "string \<Rightarrow> bool"
  loadLibrary :: "string \<Rightarrow> generator error_or"
  targetProcess :: "generator error_or"
  currentProcess :: "generator error_or"
  ownFunction :: "string \<Rightarrow> nat"
  defineStatus :: "unit error_or"
  gdbPlugin :: "unit error_or"
  elfDebugPlugin :: "unit error_or"
  debugInfoPlugin :: "unit error_or"

text \<open>The engine, an error, or the end of the process where success is asserted.\<close>

datatype 'a engine_result = Engine 'a | EngineError string | CantFail string

fun bind_engine :: "'a engine_result \<Rightarrow> ('a \<Rightarrow> 'b engine_result) \<Rightarrow> 'b engine_result" where
  "bind_engine (Engine a) f = f a"
| "bind_engine (EngineError e) f = EngineError e"
| "bind_engine (CantFail e) f = CantFail e"

fun errorOr :: "'a error_or \<Rightarrow> 'a engine_result" where
  "errorOr (Inl e) = EngineError e"
| "errorOr (Inr a) = Engine a"

fun cantFail :: "'a error_or \<Rightarrow> 'a engine_result" where
  "cantFail (Inl e) = CantFail e"
| "cantFail (Inr a) = Engine a"

section \<open>The libraries of the platform\<close>

definition stdioNames :: "string list" where
  "stdioNames = [''printf'', ''vprintf'', ''fprintf'', ''vfprintf'', ''sprintf'', ''vsprintf'', ''snprintf'', ''vsnprintf'',
     ''scanf'', ''fscanf'', ''sscanf'', ''_snprintf'', ''_vsnprintf'', ''swprintf'', ''vswprintf'']"

definition systemLibraries :: "string list" where
  "systemLibraries = [''ucrtbase.dll'', ''kernel32.dll'', ''ntdll.dll'']"

fun addSystemLibraries :: "jit_host \<Rightarrow> string list \<Rightarrow> jit_engine \<Rightarrow> jit_engine engine_result" where
  "addSystemLibraries h [] ee = Engine ee"
| "addSystemLibraries h (library # ls) ee =
     (case loadLibrary h library of
        Inl e \<Rightarrow> EngineError (''error '' @ [CHR 0x27] @ e @ [CHR 0x27] @ '' while loading '' @ library)
      | Inr g \<Rightarrow> addSystemLibraries h ls (addGenerator platformStdlibName g ee))"

definition defineStdio :: "jit_host \<Rightarrow> jit_engine \<Rightarrow> jit_engine engine_result" where
  "defineStdio h ee =
     bind_engine (errorOr (defineStatus h)) (\<lambda>_.
       Engine (defineSymbols platformStdlibName (map (\<lambda>n. (n, ownFunction h n)) stdioNames) ee))"

definition setupPlatform :: "jit_host \<Rightarrow> jit_engine \<Rightarrow> jit_engine engine_result" where
  "setupPlatform h ee =
     bind_engine (errorOr (targetProcess h)) (\<lambda>g.
       let ee = addGenerator platformStdlibName g ee in
       if sessionFormat ee = COFF then
         bind_engine (addSystemLibraries h systemLibraries ee) (\<lambda>ee.
           if builtForWindows h then defineStdio h ee else Engine ee)
       else Engine ee)"

section \<open>The runtime of the compiler\<close>

definition mlirSymbols :: "generator \<Rightarrow> generator" where
  "mlirSymbols g name = (if starts_with ''mlir'' name \<or> starts_with ''_mlir'' name then g name else None)"

definition sanitizerSymbols :: "generator \<Rightarrow> generator" where
  "sanitizerSymbols g name = (if list_ex (\<lambda>p. starts_with p name) [''__asan'', ''__tsan''] then g name else None)"

fun addRuntimeLibraries :: "jit_host \<Rightarrow> string list \<Rightarrow> jit_engine \<Rightarrow> jit_engine engine_result" where
  "addRuntimeLibraries h [] ee = Engine ee"
| "addRuntimeLibraries h (libPath # ps) ee =
     (case loadLibrary h libPath of
        Inl e \<Rightarrow> EngineError (''error '' @ [CHR 0x27] @ e @ [CHR 0x27] @ '' while loading compiler runtime library from '' @
          [CHR 0x27] @ libPath @ [CHR 0x27])
      | Inr g \<Rightarrow> addRuntimeLibraries h ps (addGenerator compilerRTlibName g ee))"

definition initializeCompilerRT :: "jit_host \<Rightarrow> kv_map \<Rightarrow> engine_options \<Rightarrow> jit_engine \<Rightarrow> jit_engine engine_result" where
  "initializeCompilerRT h cfg opts ee =
     bind_engine (cantFail (targetProcess h)) (\<lambda>g.
       let ee = addGenerator mlirclibName (mlirSymbols g) (createBareJITDylib mlirclibName ee);
           compilerRTPath = fst (getCompilerRTPath (engineMojoEnv h) cfg) in
       if \<not> libraryExists h compilerRTPath then EngineError (''unable to locate compiler_rt '' @ compilerRTPath)
       else
         bind_engine (addRuntimeLibraries h (libraryPaths opts @ [compilerRTPath]) (createBareJITDylib compilerRTlibName ee)) (\<lambda>ee.
           bind_engine (cantFail (currentProcess h)) (\<lambda>g.
             Engine (addGenerator compilerRTlibName (sanitizerSymbols g) ee))))"

section \<open>Unwind tables\<close>

type_synonym 'c link_graph = "(string \<times> 'c) list"

fun removeSection :: "string \<Rightarrow> 'c link_graph \<Rightarrow> 'c link_graph" where
  "removeSection name [] = []"
| "removeSection name (s # ss) = (if fst s = name then ss else s # removeSection name ss)"

definition removeUnwindSections :: "'c link_graph \<Rightarrow> 'c link_graph error_or" where
  "removeUnwindSections g = Inr (fold removeSection [''.pdata'', ''.xdata''] g)"

definition modifyPassConfig ::
  "object_format \<Rightarrow> ('c link_graph \<Rightarrow> 'c link_graph error_or) list \<Rightarrow> ('c link_graph \<Rightarrow> 'c link_graph error_or) list" where
  "modifyPassConfig fmt passes = (if fmt \<noteq> COFF then passes else removeUnwindSections # passes)"

section \<open>Making an engine\<close>

text \<open>A library goes in front of the search order and gets the runtime behind itself in its link order.\<close>

definition enterSearchOrder :: "string \<Rightarrow> jit_engine \<Rightarrow> jit_engine" where
  "enterSearchOrder name ee =
     (let ee = ee\<lparr>knownDylibs := insert name (knownDylibs ee)\<rparr>;
          ee = (if name \<noteq> platformStdlibName then
                  let ee = addToLinkOrder name mlirclibName (addToLinkOrder name compilerRTlibName ee) in
                  if sessionFormat ee = COFF then addToLinkOrder name platformStdlibName ee else ee
                else ee) in
      ee\<lparr>engineSearchOrder := name # engineSearchOrder ee\<rparr>)"

text \<open>The name has to be new, which is asserted.\<close>

definition addToSearchOrder :: "string \<Rightarrow> jit_engine \<Rightarrow> jit_engine engine_result" where
  "addToSearchOrder name ee =
     (if name \<in> knownDylibs ee then CantFail ''must have uniquely-named dylibs'' else Engine (enterSearchOrder name ee))"

lemma addToSearchOrder_Engine: "addToSearchOrder name ee = Engine ee' \<longleftrightarrow> name \<notin> knownDylibs ee \<and> ee' = enterSearchOrder name ee"
  by (auto simp: addToSearchOrder_def)

definition registerDebug :: "jit_host \<Rightarrow> engine_options \<Rightarrow> jit_engine \<Rightarrow> jit_engine engine_result" where
  "registerDebug h opts ee =
     (if \<not> registerDebugPlugins opts then Engine ee
      else if machineFormat h = MachO then
        bind_engine (errorOr (gdbPlugin h)) (\<lambda>_. Engine (addPlugin GDBJITDebugInfoRegistrationPlugin ee))
      else if machineFormat h = ELF then
        bind_engine (errorOr (elfDebugPlugin h)) (\<lambda>_. Engine (addPlugin ELFDebugObjectPlugin ee))
      else Engine ee)"

definition registerPerf :: "jit_host \<Rightarrow> engine_options \<Rightarrow> jit_engine \<Rightarrow> jit_engine engine_result" where
  "registerPerf h opts ee =
     (if \<not> registerPerfPlugins opts then Engine ee
      else bind_engine (errorOr (debugInfoPlugin h)) (\<lambda>_.
        Engine (addPlugin PerfSupportPlugin (addPlugin DebugInfoPreservationPlugin ee))))"

definition slabSize :: nat where
  "slabSize = 64 * 1024 * 1024"

definition newEngine :: "object_format \<Rightarrow> jit_engine" where
  "newEngine fmt = \<lparr>sessionFormat = fmt, jitDylibs = [], linkPlugins = [], engineSearchOrder = [], knownDylibs = {}, engineLayers = []\<rparr>"

text \<open>
  The session has the triple of the process control: the one that was passed, or that of the target machine.
\<close>

definition makeSession :: "jit_host \<Rightarrow> engine_options \<Rightarrow> jit_engine engine_result" where
  "makeSession h opts =
     bind_engine (errorOr (createMapper h slabSize)) (\<lambda>_.
       case epcFormat opts of
         Some fmt \<Rightarrow> Engine (newEngine fmt)
       | None \<Rightarrow> bind_engine (errorOr (pageSize h)) (\<lambda>_. Engine (newEngine (machineFormat h))))"

definition createEngine :: "jit_host \<Rightarrow> engine_options \<Rightarrow> jit_engine engine_result" where
  "createEngine h opts =
     bind_engine (makeSession h opts) (\<lambda>ee.
     bind_engine (errorOr (createDylibMgr h)) (\<lambda>_.
     bind_engine (errorOr (openMojoConfig h)) (\<lambda>cfg.
       let ee = (if machineFormat h = COFF then addPlugin COFFUnwindSectionRemovalPlugin ee else ee);
           ee = createBareJITDylib platformStdlibName ee in
       bind_engine (if crossCompiling opts then Engine ee else setupPlatform h ee) (\<lambda>ee.
       bind_engine (registerDebug h opts ee) (\<lambda>ee.
       bind_engine (registerPerf h opts ee) (\<lambda>ee.
       bind_engine (addToSearchOrder platformStdlibName ee) (\<lambda>ee.
         initializeCompilerRT h cfg opts ee)))))))"

definition createWithStandardLayers :: "jit_host \<Rightarrow> engine_options \<Rightarrow> jit_engine engine_result" where
  "createWithStandardLayers h opts =
     bind_engine (createEngine h opts) (\<lambda>ee. Engine (ee\<lparr>engineLayers := engineLayers ee @ [None]\<rparr>))"

section \<open>Looking up and running\<close>

text \<open>\<open>orc\<close> is the lookup of ORC, \<open>mangle\<close> the mangler of LLVM for the data layout.\<close>

type_synonym orc_lookup = "jit_engine \<Rightarrow> string list \<Rightarrow> string \<Rightarrow> nat error_or"

definition layerError :: "jit_engine \<Rightarrow> string option" where
  "layerError ee = (case find (\<lambda>l. l \<noteq> None) (engineLayers ee) of Some e \<Rightarrow> e | None \<Rightarrow> None)"

text \<open>An error, with the error of the first layer that holds one, which is taken from it.\<close>

fun takeLayerError :: "string option list \<Rightarrow> string option list" where
  "takeLayerError [] = []"
| "takeLayerError (l # ls) = (if l = None then l # takeLayerError ls else None # ls)"

definition lookupWithSearchOrder ::
  "orc_lookup \<Rightarrow> (string \<Rightarrow> string) \<Rightarrow> jit_engine \<Rightarrow> string list \<Rightarrow> string \<Rightarrow> nat error_or \<times> jit_engine" where
  "lookupWithSearchOrder orc mangle ee order symbol =
     (case orc ee order (mangle symbol) of
        Inr a \<Rightarrow> (Inr a, ee)
      | Inl e \<Rightarrow>
          (case layerError ee of
             None \<Rightarrow> (Inl e, ee)
           | Some l \<Rightarrow> (Inl (e @ '' (from the layer: '' @ l @ '')''), ee\<lparr>engineLayers := takeLayerError (engineLayers ee)\<rparr>)))"

definition lookupSymbol :: "orc_lookup \<Rightarrow> (string \<Rightarrow> string) \<Rightarrow> jit_engine \<Rightarrow> string \<Rightarrow> nat error_or \<times> jit_engine" where
  "lookupSymbol orc mangle ee symbol = lookupWithSearchOrder orc mangle ee (engineSearchOrder ee) symbol"

definition lookupInLibrary :: "orc_lookup \<Rightarrow> (string \<Rightarrow> string) \<Rightarrow> jit_engine \<Rightarrow> string \<Rightarrow> string \<Rightarrow> nat error_or \<times> jit_engine" where
  "lookupInLibrary orc mangle ee library symbol =
     (case map_of (jitDylibs ee) library of
        None \<Rightarrow> (Inl (''could not find JITDylib with name: '' @ library), ee)
      | Some _ \<Rightarrow> lookupWithSearchOrder orc mangle ee [library] symbol)"

text \<open>The name of the library is an argument that is not looked at.\<close>

definition runProgram ::
  "orc_lookup \<Rightarrow> (string \<Rightarrow> string) \<Rightarrow> jit_engine \<Rightarrow> string \<Rightarrow> string \<Rightarrow> (nat \<Rightarrow> unit error_or) \<Rightarrow> unit error_or \<times> jit_engine" where
  "runProgram orc mangle ee library entryPoint runFn =
     (case lookupSymbol orc mangle ee entryPoint of
        (Inl e, ee) \<Rightarrow> (Inl e, ee)
      | (Inr a, ee) \<Rightarrow> (runFn a, ee))"

datatype engine_event = InvokeShutdown nat | EndSession | ReportedError string | FatalEngineError string

text \<open>Destruction; \<open>platform\<close> says whether an ORC platform was set up and \<open>ended\<close> what ending the session answers.\<close>

definition destroyEngine :: "orc_lookup \<Rightarrow> (string \<Rightarrow> string) \<Rightarrow> bool \<Rightarrow> unit error_or \<Rightarrow> jit_engine \<Rightarrow> engine_event list" where
  "destroyEngine orc mangle platform ended ee =
     (let endEvents = EndSession # (case ended of Inl e \<Rightarrow> [ReportedError e] | Inr _ \<Rightarrow> []) in
      if platform \<and> sessionFormat ee = ELF then
        (case fst (lookupSymbol orc mangle ee ''__orc_rt_elfnix_platform_shutdown'') of
           Inl e \<Rightarrow> [FatalEngineError (''failed to find ELF/COFF platform shutdown function: '' @ e)]
         | Inr a \<Rightarrow> InvokeShutdown a # endEvents)
      else endEvents)"

section \<open>What the dylibs hold\<close>

definition dylibOf :: "jit_engine \<Rightarrow> string \<Rightarrow> jit_dylib option" where
  "dylibOf ee name = map_of (jitDylibs ee) name"

lemma dylibOf_update [simp]:
  "dylibOf (updateDylib n f ee) m = (if m = n then map_option f (dylibOf ee m) else dylibOf ee m)"
proof -
  have "map_of (map (\<lambda>(k, d). if k = n then (k, f d) else (k, d)) ds) m =
      (if m = n then map_option f (map_of ds m) else map_of ds m)" for ds
    by (induction ds) auto
  then show ?thesis
    by (simp add: dylibOf_def updateDylib_def)
qed

lemma dylibOf_create [simp]:
  "dylibOf (createBareJITDylib n ee) m =
     (case dylibOf ee m of Some d \<Rightarrow> Some d
      | None \<Rightarrow> if m = n then Some \<lparr>absoluteDefs = [], dylibGenerators = [], dylibLinkOrder = [n]\<rparr> else None)"
  by (simp add: dylibOf_def createBareJITDylib_def map_add_def split: option.split)

lemma dylibOf_others [simp]:
  "dylibOf (addPlugin p ee) m = dylibOf ee m"
  "dylibOf (ee\<lparr>knownDylibs := ks\<rparr>) m = dylibOf ee m"
  "dylibOf (ee\<lparr>engineSearchOrder := order\<rparr>) m = dylibOf ee m"
  "dylibOf (newEngine fmt) m = None"
  by (simp_all add: dylibOf_def addPlugin_def newEngine_def)

lemma sessionFormat_keeps [simp]:
  "sessionFormat (updateDylib n f ee) = sessionFormat ee"
  "sessionFormat (createBareJITDylib n ee) = sessionFormat ee"
  "sessionFormat (addPlugin p ee) = sessionFormat ee"
  by (simp_all add: updateDylib_def createBareJITDylib_def addPlugin_def)

lemma searchOrder_keeps [simp]:
  "engineSearchOrder (updateDylib n f ee) = engineSearchOrder ee"
  "engineSearchOrder (createBareJITDylib n ee) = engineSearchOrder ee"
  "engineSearchOrder (addPlugin p ee) = engineSearchOrder ee"
  by (simp_all add: updateDylib_def createBareJITDylib_def addPlugin_def)

lemmas dylib_ops = addGenerator_def addToLinkOrder_def defineSymbols_def

lemma bind_engine_Engine: "bind_engine r f = Engine b \<longleftrightarrow> (\<exists>a. r = Engine a \<and> f a = Engine b)"
  by (cases r) auto

lemma errorOr_Engine: "errorOr r = Engine a \<longleftrightarrow> r = Inr a"
  by (cases r) auto

lemma cantFail_Engine: "cantFail r = Engine a \<longleftrightarrow> r = Inr a"
  by (cases r) auto

lemmas engine_success = bind_engine_Engine errorOr_Engine cantFail_Engine

text \<open>The symbols of a library that was opened.\<close>

definition libraryOf :: "jit_host \<Rightarrow> string \<Rightarrow> generator" where
  "libraryOf h path = (case loadLibrary h path of Inl _ \<Rightarrow> Map.empty | Inr g \<Rightarrow> g)"

abbreviation withGenerators :: "generator list \<Rightarrow> jit_dylib \<Rightarrow> jit_dylib" where
  "withGenerators gs \<equiv> (\<lambda>d. d\<lparr>dylibGenerators := dylibGenerators d @ gs\<rparr>)"

lemma addSystemLibraries_dylibs:
  "addSystemLibraries h ls ee = Engine ee' \<Longrightarrow>
     sessionFormat ee' = sessionFormat ee \<and> engineSearchOrder ee' = engineSearchOrder ee \<and>
     dylibOf ee' m = (if m = platformStdlibName then map_option (withGenerators (map (libraryOf h) ls)) (dylibOf ee m) else dylibOf ee m)"
  by (induction ls arbitrary: ee)
    (auto simp: libraryOf_def dylib_ops option.map_comp comp_def option.map_ident split: sum.splits)

lemma addRuntimeLibraries_dylibs:
  "addRuntimeLibraries h ls ee = Engine ee' \<Longrightarrow>
     sessionFormat ee' = sessionFormat ee \<and> engineSearchOrder ee' = engineSearchOrder ee \<and>
     dylibOf ee' m = (if m = compilerRTlibName then map_option (withGenerators (map (libraryOf h) ls)) (dylibOf ee m) else dylibOf ee m)"
  by (induction ls arbitrary: ee)
    (auto simp: libraryOf_def dylib_ops option.map_comp comp_def option.map_ident split: sum.splits)

lemma setupPlatform_dylibs:
  assumes "setupPlatform h ee = Engine ee'"
  shows "\<exists>proc. targetProcess h = Inr proc \<and> sessionFormat ee' = sessionFormat ee \<and> engineSearchOrder ee' = engineSearchOrder ee \<and>
    dylibOf ee' m = (if m = platformStdlibName then
      map_option (\<lambda>d. d\<lparr>dylibGenerators := dylibGenerators d @ proc # (if sessionFormat ee = COFF then map (libraryOf h) systemLibraries else []),
        absoluteDefs := absoluteDefs d @ (if sessionFormat ee = COFF \<and> builtForWindows h then map (\<lambda>n. (n, ownFunction h n)) stdioNames else [])\<rparr>)
        (dylibOf ee m) else dylibOf ee m)"
proof -
  obtain proc where proc: "targetProcess h = Inr proc"
    using assms by (auto simp: setupPlatform_def engine_success)
  let ?ee = "addGenerator platformStdlibName proc ee"
  show ?thesis
  proof (cases "sessionFormat ee = COFF")
    case False
    then show ?thesis
      using assms proc by (auto simp: setupPlatform_def dylib_ops)
  next
    case True
    then obtain ee1 where ee1: "addSystemLibraries h systemLibraries ?ee = Engine ee1"
        "(if builtForWindows h then defineStdio h ee1 else Engine ee1) = Engine ee'"
      using assms proc by (auto simp: setupPlatform_def bind_engine_Engine Let_def addGenerator_def)
    then show ?thesis
      using addSystemLibraries_dylibs[OF ee1(1), of m] proc True
      by (cases "builtForWindows h") (auto simp: defineStdio_def engine_success dylib_ops option.map_comp comp_def)
  qed
qed

lemma debug_perf_dylibs:
  assumes "registerDebug h opts ee = Engine ee1" and "registerPerf h opts ee1 = Engine ee2"
  shows "dylibOf ee2 m = dylibOf ee m \<and> sessionFormat ee2 = sessionFormat ee \<and> engineSearchOrder ee2 = engineSearchOrder ee"
  using assms by (auto simp: registerDebug_def registerPerf_def engine_success split: if_splits)

lemma engine_names [simp]:
  "platformStdlibName \<noteq> compilerRTlibName" "platformStdlibName \<noteq> mlirclibName" "compilerRTlibName \<noteq> mlirclibName"
  "compilerRTlibName \<noteq> platformStdlibName" "mlirclibName \<noteq> platformStdlibName" "mlirclibName \<noteq> compilerRTlibName"
  by (simp_all add: platformStdlibName_def compilerRTlibName_def mlirclibName_def)

lemma initializeCompilerRT_dylibs:
  assumes "initializeCompilerRT h cfg opts ee = Engine ee'"
    and "dylibOf ee compilerRTlibName = None" and "dylibOf ee mlirclibName = None"
  shows "\<exists>proc self. targetProcess h = Inr proc \<and> currentProcess h = Inr self \<and>
    sessionFormat ee' = sessionFormat ee \<and> engineSearchOrder ee' = engineSearchOrder ee \<and>
    dylibOf ee' m =
      (if m = compilerRTlibName then
         Some \<lparr>absoluteDefs = [], dylibGenerators = map (libraryOf h) (libraryPaths opts @ [fst (getCompilerRTPath (engineMojoEnv h) cfg)]) @
           [sanitizerSymbols self], dylibLinkOrder = [m]\<rparr>
       else if m = mlirclibName then Some \<lparr>absoluteDefs = [], dylibGenerators = [mlirSymbols proc], dylibLinkOrder = [m]\<rparr>
       else dylibOf ee m)"
proof -
  let ?crt = "fst (getCompilerRTPath (engineMojoEnv h) cfg)"
  obtain proc self ee1 where e: "targetProcess h = Inr proc" "currentProcess h = Inr self"
      "addRuntimeLibraries h (libraryPaths opts @ [?crt])
        (createBareJITDylib compilerRTlibName (addGenerator mlirclibName (mlirSymbols proc) (createBareJITDylib mlirclibName ee))) = Engine ee1"
      "ee' = addGenerator compilerRTlibName (sanitizerSymbols self) ee1"
    using assms(1) by (auto simp: initializeCompilerRT_def engine_success Let_def split: if_splits)
  show ?thesis
    using addRuntimeLibraries_dylibs[OF e(3), of m] e assms(2,3) by (auto simp: dylib_ops split: option.split)
qed

text \<open>An engine for programs of the machine it runs on.\<close>

lemma created_engine:
  assumes "createEngine h opts = Engine ee" and "\<not> crossCompiling opts"
  shows "\<exists>proc self cfg. targetProcess h = Inr proc \<and> currentProcess h = Inr self \<and> openMojoConfig h = Inr cfg \<and>
    engineSearchOrder ee = [platformStdlibName] \<and>
    dylibOf ee m =
      (if m = platformStdlibName then
         Some \<lparr>absoluteDefs = (if sessionFormat ee = COFF \<and> builtForWindows h then map (\<lambda>n. (n, ownFunction h n)) stdioNames else []),
           dylibGenerators = proc # (if sessionFormat ee = COFF then map (libraryOf h) systemLibraries else []), dylibLinkOrder = [m]\<rparr>
       else if m = compilerRTlibName then
         Some \<lparr>absoluteDefs = [], dylibGenerators = map (libraryOf h) (libraryPaths opts @ [fst (getCompilerRTPath (engineMojoEnv h) cfg)]) @
           [sanitizerSymbols self], dylibLinkOrder = [m]\<rparr>
       else if m = mlirclibName then Some \<lparr>absoluteDefs = [], dylibGenerators = [mlirSymbols proc], dylibLinkOrder = [m]\<rparr>
       else None)"
proof -
  define ee0 where "ee0 = newEngine (case epcFormat opts of Some fmt \<Rightarrow> fmt | None \<Rightarrow> machineFormat h)"
  have made: "ee' = ee0" if "makeSession h opts = Engine ee'" for ee'
    using that by (auto simp: makeSession_def engine_success ee0_def split: option.splits)
  define ee1 where "ee1 = createBareJITDylib platformStdlibName
    (if machineFormat h = COFF then addPlugin COFFUnwindSectionRemovalPlugin ee0 else ee0)"
  obtain cfg ee2 ee3 ee4 where e: "openMojoConfig h = Inr cfg" "setupPlatform h ee1 = Engine ee2" "registerDebug h opts ee2 = Engine ee3"
      "registerPerf h opts ee3 = Engine ee4" "initializeCompilerRT h cfg opts (enterSearchOrder platformStdlibName ee4) = Engine ee"
    using assms by (auto simp: createEngine_def engine_success ee1_def Let_def addToSearchOrder_Engine dest!: made)
  have ee1: "dylibOf ee1 k = (if k = platformStdlibName then Some \<lparr>absoluteDefs = [], dylibGenerators = [], dylibLinkOrder = [k]\<rparr> else None)"
      "engineSearchOrder ee1 = []" for k
    by (auto simp: ee1_def ee0_def newEngine_def dylibOf_def createBareJITDylib_def addPlugin_def)
  have keeps: "dylibOf (enterSearchOrder platformStdlibName ee4) k = dylibOf ee2 k"
      "sessionFormat (enterSearchOrder platformStdlibName ee4) = sessionFormat ee2"
      "engineSearchOrder (enterSearchOrder platformStdlibName ee4) = platformStdlibName # engineSearchOrder ee2" for k
    using debug_perf_dylibs[OF e(3,4)] by (simp_all add: enterSearchOrder_def)
  have "dylibOf ee2 compilerRTlibName = None" "dylibOf ee2 mlirclibName = None"
    using setupPlatform_dylibs[OF e(2), of compilerRTlibName] setupPlatform_dylibs[OF e(2), of mlirclibName] ee1 by auto
  then obtain proc self where rt: "targetProcess h = Inr proc" "currentProcess h = Inr self" "sessionFormat ee = sessionFormat ee2"
      "engineSearchOrder ee = platformStdlibName # engineSearchOrder ee2"
      "dylibOf ee m =
        (if m = compilerRTlibName then
           Some \<lparr>absoluteDefs = [], dylibGenerators = map (libraryOf h) (libraryPaths opts @ [fst (getCompilerRTPath (engineMojoEnv h) cfg)]) @
             [sanitizerSymbols self], dylibLinkOrder = [m]\<rparr>
         else if m = mlirclibName then Some \<lparr>absoluteDefs = [], dylibGenerators = [mlirSymbols proc], dylibLinkOrder = [m]\<rparr>
         else dylibOf ee2 m)"
    using initializeCompilerRT_dylibs[OF e(5), of m] unfolding keeps by metis
  show ?thesis
    using setupPlatform_dylibs[OF e(2), of m] rt e(1)
    by (intro exI[of _ proc] exI[of _ self] exI[of _ cfg]) (auto simp: ee1)
qed

section \<open>Where a symbol is found\<close>

text \<open>
  How ORC answers: a dylib is asked for its own symbols first and then its generators in the order they were
  added; dylibs are asked in the order of the lookup; the first answer counts.
\<close>

fun firstSome :: "'a option list \<Rightarrow> 'a option" where
  "firstSome [] = None"
| "firstSome (None # xs) = firstSome xs"
| "firstSome (Some x # xs) = Some x"

lemma firstSome_append: "firstSome (xs @ ys) = (case firstSome xs of Some x \<Rightarrow> Some x | None \<Rightarrow> firstSome ys)"
  by (induction xs rule: firstSome.induct) auto

lemma firstSome_Cons: "firstSome (x # xs) = (case x of None \<Rightarrow> firstSome xs | Some a \<Rightarrow> Some a)"
  by (cases x) auto

lemma firstSome_single [simp]: "firstSome [x] = x"
  by (simp add: firstSome_Cons split: option.split)

definition dylibAnswer :: "jit_dylib option \<Rightarrow> string \<Rightarrow> nat option" where
  "dylibAnswer d n =
     (case d of None \<Rightarrow> None
      | Some d \<Rightarrow> firstSome (map_of (absoluteDefs d) n # map (\<lambda>g. g n) (dylibGenerators d)))"

definition first_match :: "orc_lookup \<Rightarrow> bool" where
  "first_match orc \<longleftrightarrow>
     (\<forall>ee order n. case firstSome (map (\<lambda>name. dylibAnswer (dylibOf ee name) n) order) of
        Some a \<Rightarrow> orc ee order n = Inr a
      | None \<Rightarrow> isl (orc ee order n))"

lemma first_matchD:
  fixes ee order n
  shows "first_match orc \<Longrightarrow>
     (case firstSome (map (\<lambda>name. dylibAnswer (dylibOf ee name) n) order) of
        Some a \<Rightarrow> orc ee order n = Inr a
      | None \<Rightarrow> isl (orc ee order n))"
  by (simp add: first_match_def)

text \<open>
  For the lemmas on lookups, a library that was made, given symbols and put in the search order by the operations
  above, which is what the layers that load programs are left to do; they are not part of the repository.
\<close>

definition addProgram :: "string \<Rightarrow> (string \<times> nat) list \<Rightarrow> jit_engine \<Rightarrow> jit_engine" where
  "addProgram name defs ee = enterSearchOrder name (defineSymbols name defs (createBareJITDylib name ee))"

definition linkOrderOf :: "jit_engine \<Rightarrow> string \<Rightarrow> string list" where
  "linkOrderOf ee name = (case dylibOf ee name of Some d \<Rightarrow> dylibLinkOrder d | None \<Rightarrow> [])"

definition runtimeOrder :: "jit_host \<Rightarrow> engine_options \<Rightarrow> string \<Rightarrow> nat option list" where
  "runtimeOrder h opts n =
     (case (openMojoConfig h, currentProcess h, targetProcess h) of
        (Inr cfg, Inr self, Inr proc) \<Rightarrow>
          map (\<lambda>p. libraryOf h p n) (libraryPaths opts @ [fst (getCompilerRTPath (engineMojoEnv h) cfg)]) @
          [sanitizerSymbols self n, mlirSymbols proc n]
      | _ \<Rightarrow> [])"

definition platformOrder :: "jit_host \<Rightarrow> string \<Rightarrow> nat option list" where
  "platformOrder h n =
     (case targetProcess h of
        Inr proc \<Rightarrow> [if builtForWindows h \<and> n \<in> set stdioNames then Some (ownFunction h n) else None, proc n] @
          map (\<lambda>l. libraryOf h l n) systemLibraries
      | Inl _ \<Rightarrow> [])"

definition referenceOrder :: "jit_host \<Rightarrow> engine_options \<Rightarrow> bool \<Rightarrow> (string \<times> nat) list \<Rightarrow> string \<Rightarrow> nat option list" where
  "referenceOrder h opts coff defs n = map_of defs n # runtimeOrder h opts n @ (if coff then platformOrder h n else [])"

definition reservedNames :: "string set" where
  "reservedNames = {platformStdlibName, compilerRTlibName, mlirclibName}"

lemma addProgram_dylibs:
  assumes "dylibOf ee name = None" and "name \<notin> reservedNames"
  shows "dylibOf (addProgram name defs ee) m =
    (if m = name then
       Some \<lparr>absoluteDefs = defs, dylibGenerators = [],
         dylibLinkOrder = [name, compilerRTlibName, mlirclibName] @ (if sessionFormat ee = COFF then [platformStdlibName] else [])\<rparr>
     else dylibOf ee m)"
  using assms by (simp add: addProgram_def enterSearchOrder_def dylib_ops Let_def reservedNames_def split: option.split)

lemma addProgram_keeps [simp]:
  "sessionFormat (addProgram name defs ee) = sessionFormat ee"
  "engineSearchOrder (addProgram name defs ee) = name # engineSearchOrder ee"
  by (simp_all add: addProgram_def enterSearchOrder_def dylib_ops Let_def)

lemma own_stdio: "map_of (map (\<lambda>n. (n, f n)) ns) n = (if n \<in> set ns then Some (f n) else None)"
  by (induction ns) auto

lemma reference_answers:
  assumes made: "createEngine h opts = Engine ee" "\<not> crossCompiling opts" and name: "name \<notin> reservedNames"
  shows "firstSome (map (\<lambda>m. dylibAnswer (dylibOf (addProgram name defs ee) m) n) (linkOrderOf (addProgram name defs ee) name)) =
    firstSome (referenceOrder h opts (sessionFormat ee = COFF) defs n)"
proof -
  obtain proc self cfg where host: "targetProcess h = Inr proc" "currentProcess h = Inr self" "openMojoConfig h = Inr cfg"
    using created_engine[OF made] by blast
  have fresh: "dylibOf ee name = None"
    using created_engine[OF made, of name] name by (auto simp: reservedNames_def)
  have own: "dylibAnswer (dylibOf (addProgram name defs ee) name) n = map_of defs n"
    by (cases "map_of defs n") (simp_all add: addProgram_dylibs[OF fresh name] dylibAnswer_def)
  have runtime: "firstSome (dylibAnswer (dylibOf (addProgram name defs ee) compilerRTlibName) n #
      dylibAnswer (dylibOf (addProgram name defs ee) mlirclibName) n # xs) = firstSome (runtimeOrder h opts n @ xs)" for xs
    using created_engine[OF made, of compilerRTlibName] created_engine[OF made, of mlirclibName] host name
    by (auto simp: addProgram_dylibs[OF fresh name] dylibAnswer_def runtimeOrder_def reservedNames_def firstSome_append firstSome_Cons comp_def
        split: option.split)
  have platform: "dylibAnswer (dylibOf (addProgram name defs ee) platformStdlibName) n = firstSome (platformOrder h n)"
    if "sessionFormat ee = COFF"
    using created_engine[OF made, of platformStdlibName] host name that
    by (auto simp: addProgram_dylibs[OF fresh name] dylibAnswer_def platformOrder_def reservedNames_def own_stdio comp_def)
  show ?thesis
  proof (cases "sessionFormat ee = COFF")
    case True
    then have order: "linkOrderOf (addProgram name defs ee) name = [name, compilerRTlibName, mlirclibName, platformStdlibName]"
      by (simp add: linkOrderOf_def addProgram_dylibs[OF fresh name])
    show ?thesis
      using runtime[of "[firstSome (platformOrder h n)]"] True
      by (cases "map_of defs n") (simp_all add: order own platform referenceOrder_def firstSome_append split: option.split)
  next
    case False
    then have order: "linkOrderOf (addProgram name defs ee) name = [name, compilerRTlibName, mlirclibName]"
      by (simp add: linkOrderOf_def addProgram_dylibs[OF fresh name])
    show ?thesis
      using runtime[of "[]"] False by (cases "map_of defs n") (simp_all add: order own referenceOrder_def)
  qed
qed

text \<open>
  A reference of a program that runs in the engine is answered by the program itself, then by the libraries it
  was given and the compiler runtime in that order, the sanitizers and the MLIR functions of the process; on
  Windows, where loading a library does not bring the C library along, then by the own printf family, the
  process and the three system libraries; and it fails only when none of them has it.
\<close>

theorem reference_resolution:
  assumes "createEngine h opts = Engine ee" and "\<not> crossCompiling opts" and "name \<notin> reservedNames" and "first_match orc"
  shows "case firstSome (referenceOrder h opts (sessionFormat ee = COFF) defs n) of
      Some a \<Rightarrow> orc (addProgram name defs ee) (linkOrderOf (addProgram name defs ee) name) n = Inr a
    | None \<Rightarrow> isl (orc (addProgram name defs ee) (linkOrderOf (addProgram name defs ee) name) n)"
  using first_matchD[OF assms(4), of "addProgram name defs ee" "linkOrderOf (addProgram name defs ee) name" n]
    reference_answers[OF assms(1-3), of defs n] by simp

definition sampleHost :: jit_host where
  "sampleHost =
     \<lparr>machineFormat = COFF, builtForWindows = True, createMapper = (\<lambda>_. Inr ()), pageSize = Inr 4096, createDylibMgr = Inr (),
      openMojoConfig = Inr Map.empty, engineMojoEnv = sample_mojo, libraryExists = (\<lambda>_. True),
      loadLibrary = (\<lambda>_. Inr (\<lambda>n. if n = ''memcpy'' then Some 90 else None)),
      targetProcess = Inr (\<lambda>n. if n = ''printf'' then Some 5 else None), currentProcess = Inr Map.empty, ownFunction = (\<lambda>_. 7),
      defineStatus = Inr (), gdbPlugin = Inr (), elfDebugPlugin = Inr (), debugInfoPlugin = Inr ()\<rparr>"

definition sampleOptions :: engine_options where
  "sampleOptions = \<lparr>epcFormat = None, libraryPaths = [], crossCompiling = False, registerDebugPlugins = True, registerPerfPlugins = False\<rparr>"

definition sampleEngine :: jit_engine where
  "sampleEngine = (case createEngine sampleHost sampleOptions of Engine ee \<Rightarrow> ee | _ \<Rightarrow> newEngine COFF)"

definition sampleOrc :: orc_lookup where
  "sampleOrc ee order n =
     (case firstSome (map (\<lambda>name. dylibAnswer (dylibOf ee name) n) order) of Some a \<Rightarrow> Inr a | None \<Rightarrow> Inl ''symbols not found'')"

lemma sampleOrc_first_match: "first_match sampleOrc"
  by (simp add: first_match_def sampleOrc_def split: option.split)

lemma sampleEngine_created: "createEngine sampleHost sampleOptions = Engine sampleEngine"
  by (simp add: sampleEngine_def createEngine_def makeSession_def setupPlatform_def defineStdio_def registerDebug_def registerPerf_def
      initializeCompilerRT_def addToSearchOrder_def sampleHost_def sampleOptions_def newEngine_def Let_def systemLibraries_def
      addGenerator_def updateDylib_def createBareJITDylib_def addPlugin_def defineSymbols_def)

lemma sampleEngine_format: "sessionFormat sampleEngine = COFF"
  by (simp add: sampleEngine_def createEngine_def makeSession_def setupPlatform_def defineStdio_def registerDebug_def registerPerf_def
      initializeCompilerRT_def sampleHost_def sampleOptions_def newEngine_def Let_def systemLibraries_def addGenerator_def
      addToSearchOrder_def enterSearchOrder_def defineSymbols_def)

theorem reference_resolution_witness:
  "sampleOrc (addProgram ''exec'' [(''main'', 1)] sampleEngine) (linkOrderOf (addProgram ''exec'' [(''main'', 1)] sampleEngine) ''exec'')
     ''printf'' = Inr 7"
proof -
  have "firstSome (referenceOrder sampleHost sampleOptions (sessionFormat sampleEngine = COFF) [(''main'', 1)] ''printf'') = Some 7"
    by (simp add: sampleEngine_format referenceOrder_def runtimeOrder_def platformOrder_def sampleHost_def sampleOptions_def
        libraryOf_def sanitizerSymbols_def mlirSymbols_def starts_with_def stdioNames_def)
  then show ?thesis
    using reference_resolution[OF sampleEngine_created _ _ sampleOrc_first_match, of "''exec''" "[(''main'', 1)]" "''printf''"]
    by (simp add: sampleOptions_def reservedNames_def platformStdlibName_def compilerRTlibName_def mlirclibName_def)
qed

text \<open>
  The process is asked before the libraries that are named outright, so for a function both have, such as
  \<^verbatim>\<open>memcpy\<close>, the answer is still the one of the modules that are loaded, in whatever order they come.
\<close>

theorem process_before_ucrtbase:
  assumes "createEngine h opts = Engine ee" and "\<not> crossCompiling opts" and "sessionFormat ee = COFF" and "name \<notin> reservedNames"
    and "first_match orc" and "targetProcess h = Inr proc" and "proc ''memcpy'' = Some a" and "libraryOf h ''ucrtbase.dll'' ''memcpy'' = Some b"
    and "map_of defs ''memcpy'' = None" and "firstSome (runtimeOrder h opts ''memcpy'') = None"
  shows "orc (addProgram name defs ee) (linkOrderOf (addProgram name defs ee) name) ''memcpy'' = Inr a"
proof -
  have "firstSome (referenceOrder h opts (sessionFormat ee = COFF) defs ''memcpy'') = Some a"
    using assms by (simp add: referenceOrder_def platformOrder_def firstSome_append stdioNames_def)
  then show ?thesis
    using first_matchD[OF assms(5), of "addProgram name defs ee" "linkOrderOf (addProgram name defs ee) name" "''memcpy''"]
      reference_answers[OF assms(1,2,4), of defs "''memcpy''"] by simp
qed

text \<open>
  The programs that were added are searched from the newest to the oldest and the platform last, and whatever
  a program links against is a dylib of the session.
\<close>

theorem search_order_newest_first:
  assumes "createEngine h opts = Engine ee" and "\<not> crossCompiling opts"
    and "distinct (map fst ps)" and "fst ` set ps \<inter> reservedNames = {}"
  shows "engineSearchOrder (fold (\<lambda>(name, defs). addProgram name defs) ps ee) = rev (map fst ps) @ [platformStdlibName] \<and>
    (\<forall>p\<in>set ps. list_all (\<lambda>m. dylibOf (fold (\<lambda>(name, defs). addProgram name defs) ps ee) m \<noteq> None)
      (linkOrderOf (fold (\<lambda>(name, defs). addProgram name defs) ps ee) (fst p)))"
proof -
  let ?add = "\<lambda>ps. fold (\<lambda>(name, defs). addProgram name defs) ps ee"
  have "dylibOf (?add ps) m =
      (case map_of ps m of
         Some defs \<Rightarrow> Some \<lparr>absoluteDefs = defs, dylibGenerators = [],
           dylibLinkOrder = [m, compilerRTlibName, mlirclibName] @ (if sessionFormat ee = COFF then [platformStdlibName] else [])\<rparr>
       | None \<Rightarrow> dylibOf ee m) \<and> sessionFormat (?add ps) = sessionFormat ee \<and>
      engineSearchOrder (?add ps) = rev (map fst ps) @ engineSearchOrder ee" for m
    using assms(3,4)
  proof (induction ps arbitrary: m rule: rev_induct)
    case Nil
    then show ?case by simp
  next
    case (snoc p ps)
    obtain name defs where p: "p = (name, defs)"
      by (cases p)
    have new: "map_of ps name = None" "name \<notin> reservedNames"
      using snoc.prems p by (auto simp: map_of_eq_None_iff)
    then have "dylibOf (?add ps) name = None"
      using snoc created_engine[OF assms(1,2), of name] by (auto simp: reservedNames_def)
    then show ?case
      using snoc new p addProgram_dylibs[of "?add ps" name defs m] by (auto simp: map_add_def split: option.splits)
  qed
  note all = this
  have std: "dylibOf ee m \<noteq> None" if "m \<in> reservedNames" for m
    using created_engine[OF assms(1,2), of m] that by (auto simp: reservedNames_def)
  have std': "dylibOf (?add ps) m \<noteq> None" if "m \<in> reservedNames" for m
    using all[of m] std[OF that] assms(4) that by (auto split: option.split)
  have "list_all (\<lambda>m. dylibOf (?add ps) m \<noteq> None) (linkOrderOf (?add ps) (fst p))" if p: "p \<in> set ps" for p
  proof -
    obtain defs where "map_of ps (fst p) = Some defs"
      using weak_map_of_SomeI[of "fst p" "snd p" ps] p by auto
    then show ?thesis
      using all[of "fst p"] std' by (simp add: linkOrderOf_def reservedNames_def)
  qed
  then show ?thesis
    using all created_engine[OF assms(1,2)] by auto
qed

section \<open>Unwind tables are gone\<close>

lemma removeSection_absent: "name \<notin> fst ` set g \<Longrightarrow> removeSection name g = g \<and> filter (\<lambda>s. fst s \<noteq> name) g = g"
  by (induction g) auto

lemma removeSection_filter: "distinct (map fst g) \<Longrightarrow> removeSection name g = filter (\<lambda>s. fst s \<noteq> name) g"
  by (induction g) (auto simp: removeSection_absent)

text \<open>
  In an object for Windows the unwind tables are removed, and nothing else, before any other pass of the
  linker sees it; objects in other formats are linked as they are.
\<close>

theorem unwind_tables_removed:
  assumes "distinct (map fst g)"
  shows "modifyPassConfig COFF passes = removeUnwindSections # passes \<and>
    removeUnwindSections g = Inr (filter (\<lambda>s. fst s \<noteq> ''.pdata'' \<and> fst s \<noteq> ''.xdata'') g) \<and>
    modifyPassConfig ELF passes = passes \<and> modifyPassConfig MachO passes = passes"
  using assms by (simp add: modifyPassConfig_def removeUnwindSections_def removeSection_filter distinct_map_filter conj_commute)

end
