(* ===== verification/Precompile.thy ===== *)
theory Precompile
  imports Mojo_Build Config_File "HOL-Library.Word"
begin

text \<open>
  \<^verbatim>\<open>mojo precompile\<close> (\<^verbatim>\<open>Mojo/tools/mojo/Precompile/mojo-precompile.cpp\<close>): the arguments and the name of the package, the
  copy of the parsed package into the module that is written, the renaming of the package, and the command
  with its output file.  The parser, the checks, the attribute walk of MLIR and the file system are arguments.
\<close>

section \<open>Operations and attributes\<close>

datatype lit_kind = PackageKind | FileModuleKind | StructDeclKind | UnresolvedImportKind | ImportKind | FnKind | TraitDeclKind | OtherKind nat

text \<open>
  What the packaging reads of an operation: its symbol, the documentation of a declaration with its location,
  the key of a thunk, whether a trait was made for a closure, the recorded dependencies and libraries of a
  package; the rest is one further value.
\<close>

record 'v lit_attrs =
  symName :: string
  docString :: "(string \<times> nat option) option"
  thunkKey :: bool
  closureSignature :: bool
  packageDependencies :: "string list option"
  bitcodeModules :: "(string \<times> string) list option"
  restAttrs :: 'v

datatype 'v lit_op = LitOp (opKind: lit_kind) (opAttrs: "'v lit_attrs") (opBody: "'v lit_op list")

section \<open>The copy of the package\<close>

text \<open>
  The operations that were built so far, as the body of the new module, and the block where the builder
  inserts: the way to it from the module, a list of positions.  Every insertion is at the end of its block.
\<close>

type_synonym block_path = "nat list"

fun insertOp :: "block_path \<Rightarrow> 'v lit_op \<Rightarrow> 'v lit_op list \<Rightarrow> 'v lit_op list" where
  "insertOp [] x ops = ops @ [x]"
| "insertOp (i # p) x ops =
     (if i < length ops then ops[i := LitOp (opKind (ops ! i)) (opAttrs (ops ! i)) (insertOp p x (opBody (ops ! i)))] else ops)"

fun blockAt :: "block_path \<Rightarrow> 'v lit_op list \<Rightarrow> 'v lit_op list" where
  "blockAt [] ops = ops"
| "blockAt (i # p) ops = (if i < length ops then blockAt p (opBody (ops ! i)) else [])"

text \<open>Work is an operation with the kind of its parent, or an insertion point to go back to.\<close>

datatype 'v work = VisitOp bool "'v lit_op" | RestorePoint block_path

record 'v package_builder =
  builtOps :: "'v lit_op list"
  insertPoint :: block_path
  worklist :: "'v work list"

definition cloneWithoutRegions :: "'v lit_op \<Rightarrow> 'v package_builder \<Rightarrow> 'v package_builder" where
  "cloneWithoutRegions op b =
     b\<lparr>worklist := RestorePoint (insertPoint b) # worklist b,
       builtOps := insertOp (insertPoint b) (LitOp (opKind op) (opAttrs op) []) (builtOps b),
       insertPoint := insertPoint b @ [length (blockAt (insertPoint b) (builtOps b))]\<rparr>"

definition cloneOp :: "'v lit_op \<Rightarrow> 'v package_builder \<Rightarrow> 'v package_builder" where
  "cloneOp op b = b\<lparr>builtOps := insertOp (insertPoint b) op (builtOps b)\<rparr>"

text \<open>Through a second stack, so that the first of the operations is on top.\<close>

definition pushOpsOntoWorklist :: "bool \<Rightarrow> 'v lit_op list \<Rightarrow> 'v package_builder \<Rightarrow> 'v package_builder" where
  "pushOpsOntoWorklist inPackage ops b =
     (let tmp = fold (\<lambda>op tmp. op # tmp) ops [] in
      b\<lparr>worklist := fold (\<lambda>op work. VisitOp inPackage op # work) tmp (worklist b)\<rparr>)"

definition isContainer :: "lit_kind \<Rightarrow> bool" where
  "isContainer k \<longleftrightarrow> k \<in> {PackageKind, FileModuleKind, StructDeclKind}"

definition isImport :: "lit_kind \<Rightarrow> bool" where
  "isImport k \<longleftrightarrow> k \<in> {UnresolvedImportKind, ImportKind}"

definition visitOp :: "bool \<Rightarrow> 'v lit_op \<Rightarrow> 'v package_builder \<Rightarrow> 'v package_builder" where
  "visitOp inPackage op b =
     (if isContainer (opKind op) then
        pushOpsOntoWorklist (opKind op = PackageKind) (opBody op) (cloneWithoutRegions op b)
      else if isImport (opKind op) then (if inPackage then b else cloneOp op b)
      else cloneOp op b)"

fun workWeight :: "'v work \<Rightarrow> nat" where
  "workWeight (VisitOp _ op) = 2 * size op + 1"
| "workWeight (RestorePoint _) = 1"

lemma workWeight_visits: "sum_list (map (workWeight \<circ> VisitOp p) ops) \<le> 2 * size_list size ops"
  by (induction ops) auto

lemma fold_Cons_rev: "fold (\<lambda>x xs. f x # xs) xs ys = map f (rev xs) @ ys"
  by (induction xs arbitrary: ys) simp_all

lemma pushOps_worklist [simp]:
  "worklist (pushOpsOntoWorklist p ops b) = map (VisitOp p) ops @ worklist b"
  "builtOps (pushOpsOntoWorklist p ops b) = builtOps b" "insertPoint (pushOpsOntoWorklist p ops b) = insertPoint b"
proof -
  have "fold (\<lambda>op tmp. op # tmp) ops [] = rev ops"
    using fold_Cons_rev[of "\<lambda>x. x" ops "[]"] by simp
  then show "worklist (pushOpsOntoWorklist p ops b) = map (VisitOp p) ops @ worklist b"
    by (simp add: pushOpsOntoWorklist_def fold_Cons_rev)
qed (simp_all add: pushOpsOntoWorklist_def Let_def)

function processWorklist :: "'v package_builder \<Rightarrow> 'v package_builder" where
  "processWorklist b =
     (case worklist b of
        [] \<Rightarrow> b
      | RestorePoint p # work \<Rightarrow> processWorklist (b\<lparr>worklist := work, insertPoint := p\<rparr>)
      | VisitOp inPackage op # work \<Rightarrow> processWorklist (visitOp inPackage op (b\<lparr>worklist := work\<rparr>)))"
  by pat_completeness auto

termination processWorklist
proof (relation "measure (\<lambda>b. sum_list (map workWeight (worklist b)))")
  fix b :: "'v package_builder" and w work inPackage op
  assume w: "worklist b = w # work" "w = VisitOp inPackage op"
  show "(visitOp inPackage op (b\<lparr>worklist := work\<rparr>), b) \<in> measure (\<lambda>b. sum_list (map workWeight (worklist b)))"
    using w workWeight_visits[of "opKind op = PackageKind" "opBody op"]
    by (cases op) (simp add: visitOp_def cloneWithoutRegions_def cloneOp_def comp_def)
qed auto

declare processWorklist.simps [simp del]

text \<open>\<open>thePackage\<close> is the first operation of the new module; its documentation loses the locations.\<close>

definition stripDocLocation :: "'v lit_attrs \<Rightarrow> 'v lit_attrs" where
  "stripDocLocation a =
     (case docString a of
        Some (text, Some _) \<Rightarrow> a\<lparr>docString := Some (text, None)\<rparr>
      | _ \<Rightarrow> a)"

fun walkDocs :: "'v lit_op \<Rightarrow> 'v lit_op" where
  "walkDocs (LitOp k a body) = LitOp k (stripDocLocation a) (map walkDocs body)"

text \<open>
  The functions at the top level of the module.  The code asserts that each is a thunk, and goes on with all
  of them where assertions are off.
\<close>

definition topFunctionsAssertion :: "'v lit_op list \<Rightarrow> bool" where
  "topFunctionsAssertion theModule \<longleftrightarrow> list_all (\<lambda>op. opKind op = FnKind \<longrightarrow> thunkKey (opAttrs op)) theModule"

definition topFunctions :: "'v lit_op list \<Rightarrow> 'v lit_op list" where
  "topFunctions theModule = filter (\<lambda>op. opKind op = FnKind) theModule"

definition closureTraits :: "'v lit_op list \<Rightarrow> 'v lit_op list" where
  "closureTraits theModule = filter (\<lambda>op. opKind op = TraitDeclKind \<and> closureSignature (opAttrs op)) theModule"

definition startPackage :: "'v lit_op list \<Rightarrow> 'v lit_op \<Rightarrow> 'v package_builder" where
  "startPackage theModule parsedPackageOp =
     (let b = \<lparr>builtOps = [], insertPoint = [], worklist = []\<rparr>;
          b = fold (\<lambda>func. pushOpsOntoWorklist False [func]) (topFunctions theModule) b;
          b = fold (\<lambda>trait. pushOpsOntoWorklist False [trait]) (closureTraits theModule) b in
      pushOpsOntoWorklist True (opBody parsedPackageOp) (cloneWithoutRegions parsedPackageOp b))"

definition buildPackageModule :: "'v lit_op list \<Rightarrow> 'v lit_op \<Rightarrow> 'v lit_op list" where
  "buildPackageModule theModule parsedPackageOp =
     (let ops = builtOps (processWorklist (startPackage theModule parsedPackageOp)) in
      ops[0 := walkDocs (ops ! 0)])"

section \<open>Arguments\<close>

record precompile_args =
  packageName :: string
  sourceName :: string
  packageInput :: string
  packageOutput :: string
  packageDebugLevel :: string
  packageOptLevel :: nat

text \<open>
  The file system and the parser of compilation options: whether a path is the source of a package, the
  canonical form of a path, the two questions about an output path, and whether the common options are
  right.
\<close>

record precompile_env =
  pathSeparator :: "char \<Rightarrow> bool"
  pathPreferred :: char
  isMojoSourcePackagePath :: "string \<Rightarrow> bool"
  weaklyCanonical :: "string \<Rightarrow> string error_or"
  pathExists :: "string \<Rightarrow> bool error_or"
  pathIsDirectory :: "string \<Rightarrow> bool error_or"
  parseCompilationOptions :: "unit error_or"

definition path_extension :: "(char \<Rightarrow> bool) \<Rightarrow> string \<Rightarrow> string" where
  "path_extension isSep s = drop (length (path_stem isSep s)) (path_filename isSep s)"

definition isExistingDirectory :: "precompile_env \<Rightarrow> string \<Rightarrow> bool error_or" where
  "isExistingDirectory e path =
     (case pathExists e path of
        Inl m \<Rightarrow> Inl (''could not determine if output path '' @ quote @ path @ quote @ '' exists: '' @ m)
      | Inr present \<Rightarrow>
          if \<not> present then Inr False
          else case pathIsDirectory e path of
            Inl m \<Rightarrow> Inl (''could not determine if output path '' @ quote @ path @ quote @ '' is a directory: '' @ m)
          | Inr dir \<Rightarrow> Inr dir)"

text \<open>The output path and the name of the package.\<close>

definition packageOutputOf :: "precompile_env \<Rightarrow> string \<Rightarrow> string option \<Rightarrow> (string \<times> string) error_or" where
  "packageOutputOf e inputDirName outputArg =
     (case outputArg of
        None \<Rightarrow> Inr (inputDirName @ ''.mojoc'', inputDirName)
      | Some outputPath \<Rightarrow>
          if outputPath = ''-'' then Inr (outputPath, inputDirName)
          else
            bind_err (isExistingDirectory e outputPath) (\<lambda>dir.
              let outputPath = (if dir then path_append (pathSeparator e) (pathPreferred e) outputPath (inputDirName @ ''.mojoc'') else outputPath) in
              if path_extension (pathSeparator e) outputPath \<noteq> ''.mojoc'' then
                Inl (''output path must have a '' @ quote @ ''.mojoc'' @ quote @ '' extension'')
              else Inr (outputPath, path_stem (pathSeparator e) outputPath)))"

definition parsePrecompileArgs :: "precompile_env \<Rightarrow> string list \<Rightarrow> string option \<Rightarrow> precompile_args error_or" where
  "parsePrecompileArgs e inputs outputArg =
     (case inputs of
        [] \<Rightarrow> Inl ''no input directory provided''
      | [inputPath] \<Rightarrow>
          if \<not> isMojoSourcePackagePath e inputPath then
            Inl (quote @ inputPath @ quote @ '' does not correspond to a Mojo package'')
          else
            (case weaklyCanonical e inputPath of
               Inl m \<Rightarrow> Inl (''cannot canonicalize input path '' @ quote @ inputPath @ quote @ '': '' @ m)
             | Inr canonicalInput \<Rightarrow>
                 (let inputDirName = path_filename (pathSeparator e) canonicalInput in
                  bind_err (packageOutputOf e inputDirName outputArg) (\<lambda>(outputPath, name).
                    bind_err (parseCompilationOptions e) (\<lambda>_.
                      Inr \<lparr>packageName = name, sourceName = inputDirName, packageInput = inputPath, packageOutput = outputPath,
                        packageDebugLevel = ''full'', packageOptLevel = 0\<rparr>))))
      | _ \<Rightarrow> Inl ''too many inputs, expected exactly one'')"

section \<open>Renaming\<close>

text \<open>The loop of \<open>rewriteNameText\<close>: what was rewritten, what is left.  A token is never empty.\<close>

function rewriteLoop :: "string \<Rightarrow> string \<Rightarrow> string \<Rightarrow> string \<Rightarrow> string" where
  "rewriteLoop sourceToken newToken rewritten text =
     (case find_sub sourceToken text of
        None \<Rightarrow> rewritten @ text
      | Some pos \<Rightarrow>
          if sourceToken = [] then rewritten @ text
          else
            let prefix = take pos text in
            rewriteLoop sourceToken newToken (rewritten @ prefix @ (if ends_with ''::'' prefix then sourceToken else newToken))
              (drop (pos + length sourceToken) text))"
  by pat_completeness auto
termination rewriteLoop
proof (relation "measure (\<lambda>(_, _, _, rest). length rest)")
  fix sourceToken newToken rewritten rest :: string and pos prefix
  assume "find_sub sourceToken rest = Some pos" and "sourceToken \<noteq> []"
  then have "0 < length sourceToken" "pos + length sourceToken \<le> length rest"
    using find_sub_Some by auto
  then have "length rest - (pos + length sourceToken) < length rest"
    by linarith
  then show "((sourceToken, newToken, rewritten @ prefix @ (if ends_with ''::'' prefix then sourceToken else newToken),
      drop (pos + length sourceToken) rest), (sourceToken, newToken, rewritten, rest)) \<in> measure (\<lambda>(_, _, _, rest). length rest)"
    by simp
qed simp

declare rewriteLoop.simps [simp del]

definition tokenOf :: "string \<Rightarrow> string" where
  "tokenOf name = ''@'' @ name @ ''::''"

definition rewriteNameText :: "string \<Rightarrow> string \<Rightarrow> string \<Rightarrow> string" where
  "rewriteNameText source name text =
     (if find_sub (tokenOf source) text = None then text else rewriteLoop (tokenOf source) (tokenOf name) [] text)"

datatype source_kind = PackageSource | OtherSource nat

text \<open>The attributes that name the package; of a source name the parts that are not rewritten are one value.\<close>

datatype package_attr =
    SymbolRefAttr string "string list"
  | SourceNameAttr string "string list" bool source_kind nat
  | ImportPathAttr nat "string list"

datatype walk_outcome = SkipWalk | AdvanceWalk

text \<open>The three replacements; the flag of a source name says whether it has a parent.\<close>

fun replacePackage :: "string \<Rightarrow> string \<Rightarrow> package_attr \<Rightarrow> package_attr \<times> walk_outcome" where
  "replacePackage source name (SymbolRefAttr root nested) =
     (if root \<noteq> source then (SymbolRefAttr root nested, SkipWalk) else (SymbolRefAttr name nested, SkipWalk))"
| "replacePackage source name (SourceNameAttr n paramValues hasParent kind rest) =
     (let isPackageRoot = (kind = PackageSource \<and> \<not> hasParent \<and> n = source);
          n' = (if isPackageRoot then name else rewriteNameText source name n);
          paramValues' = map (rewriteNameText source name) paramValues in
      if n' = n \<and> paramValues' = paramValues then (SourceNameAttr n paramValues hasParent kind rest, AdvanceWalk)
      else (SourceNameAttr n' paramValues' hasParent kind rest, AdvanceWalk))"
| "replacePackage source name (ImportPathAttr level components) =
     (if level \<noteq> 0 \<or> components = [] \<or> hd components \<noteq> source then (ImportPathAttr level components, AdvanceWalk)
      else (ImportPathAttr 0 (name # tl components), AdvanceWalk))"

section \<open>Building the package\<close>

fun lowerHexDigits :: "nat \<Rightarrow> nat \<Rightarrow> string" where
  "lowerHexDigits 0 n = []"
| "lowerHexDigits (Suc w) n = lowerHexDigits w (n div 16) @ [''0123456789abcdef'' ! (n mod 16)]"

text \<open>A library becomes a resource whose name is the 64-bit hash of its bytes.\<close>

definition writeLLVMBitcodeToDenseAttr :: "(string \<Rightarrow> 64 word) \<Rightarrow> (string \<Rightarrow> string option) \<Rightarrow> string \<Rightarrow> (string \<times> string) option" where
  "writeLLVMBitcodeToDenseAttr xxh3 readFile bitcodeFile =
     map_option (\<lambda>data. (''llvm_bitcode_'' @ lowerHexDigits 16 (unat (xxh3 data)), data)) (readFile bitcodeFile)"

fun loadBitcodeLibs :: "(string \<Rightarrow> (string \<times> string) option) \<Rightarrow> string list \<Rightarrow> (string \<times> string) list error_or" where
  "loadBitcodeLibs load [] = Inr []"
| "loadBitcodeLibs load (f # fs) =
     (case load f of
        None \<Rightarrow> Inl (''failed to load bitcode library: '' @ f)
      | Some attr \<Rightarrow> bind_err (loadBitcodeLibs load fs) (\<lambda>attrs. Inr (attr # attrs)))"

text \<open>The packages of the module besides the one at \<open>pkg\<close>.\<close>

definition linkDependencies :: "precompile_args \<Rightarrow> 'v lit_op list \<Rightarrow> nat \<Rightarrow> string list" where
  "linkDependencies a theModule pkg =
     map (\<lambda>(i, op). symName (opAttrs op))
       (filter (\<lambda>(i, op). opKind op = PackageKind \<and> \<not> (i = pkg \<or> symName (opAttrs op) = sourceName a \<or> symName (opAttrs op) = packageName a))
         (enumerate 0 theModule))"

fun mapAttrs :: "('v lit_attrs \<Rightarrow> 'v lit_attrs) \<Rightarrow> 'v lit_op \<Rightarrow> 'v lit_op" where
  "mapAttrs f (LitOp k a body) = LitOp k (f a) body"

definition recordDependencies :: "precompile_args \<Rightarrow> 'v lit_op list \<Rightarrow> nat \<Rightarrow> 'v lit_op list" where
  "recordDependencies a theModule pkg =
     (let dependencies = linkDependencies a theModule pkg in
      if dependencies \<noteq> [] then
        theModule[pkg := mapAttrs (\<lambda>attrs. attrs\<lparr>packageDependencies := Some dependencies\<rparr>) (theModule ! pkg)]
      else theModule)"

text \<open>
  \<open>replaceElements\<close> is the walk of MLIR over the operations, their attributes, locations and types, with the
  replacements above.
\<close>

type_synonym 'v element_walk = "(package_attr \<Rightarrow> package_attr \<times> walk_outcome) \<Rightarrow> 'v lit_op list \<Rightarrow> 'v lit_op list"

definition renamePackage :: "'v element_walk \<Rightarrow> precompile_args \<Rightarrow> 'v lit_op list \<Rightarrow> 'v lit_op list" where
  "renamePackage replaceElements a ops =
     (if packageName a = sourceName a then ops
      else
        let ops = replaceElements (replacePackage (sourceName a) (packageName a)) ops in
        ops[0 := mapAttrs (\<lambda>attrs. attrs\<lparr>symName := packageName a\<rparr>) (ops ! 0)])"

definition buildPackage ::
  "'v element_walk \<Rightarrow> (string \<Rightarrow> (string \<times> string) option) \<Rightarrow> ('v lit_op list \<Rightarrow> bool) \<Rightarrow> precompile_args \<Rightarrow> string list \<Rightarrow>
   'v lit_op list \<Rightarrow> nat \<Rightarrow> 'v lit_op list error_or" where
  "buildPackage replaceElements load checks a bitcodeLibs theModule pkg =
     (let theModule = recordDependencies a theModule pkg;
          packageModule = renamePackage replaceElements a (buildPackageModule theModule (theModule ! pkg)) in
      bind_err
        (if bitcodeLibs \<noteq> [] then
           bind_err (loadBitcodeLibs load bitcodeLibs) (\<lambda>attrs.
             Inr (packageModule[0 := mapAttrs (\<lambda>a. a\<lparr>bitcodeModules := Some attrs\<rparr>) (packageModule ! 0)]))
         else Inr packageModule)
        (\<lambda>packageModule. if \<not> checks theModule then Inl ''errors occurred during compilation'' else Inr packageModule))"

section \<open>The command\<close>

text \<open>What the command line asks for, and the stages.\<close>

record precompile_flags =
  precompileHelp :: bool
  precompileHelpHidden :: bool
  precompileInputs :: "string list"
  precompileOutput :: "string option"
  precompileBitcode :: "string list option"

record 'v precompile_stages =
  diagnosticFormat :: int
  unknownArguments :: int
  precompileContext :: "unit error_or"
  openOutput :: "string \<Rightarrow> string option"
  importPackage :: "string \<Rightarrow> string \<Rightarrow> ('v lit_op list \<times> nat) option error_or"
  packageWalk :: "'v element_walk"
  loadLibraryAttr :: "string \<Rightarrow> (string \<times> string) option"
  checkPipeline :: "'v lit_op list \<Rightarrow> bool"
  writeBytecode :: "'v lit_op list \<Rightarrow> string option"
  precompileWerror :: bool

text \<open>
  How the command ended: before the output was opened, after it was opened and removed again, or with the
  output kept.
\<close>

datatype precompile_result = PrecompileStopped stop | OutputRemoved string "string option" | OutputKept string string int

definition precompile :: "precompile_env \<Rightarrow> 'v precompile_stages \<Rightarrow> precompile_flags \<Rightarrow> precompile_result" where
  "precompile e stg f =
     (if precompileHelp f then PrecompileStopped HelpPrinted
      else if precompileHelpHidden f then PrecompileStopped HiddenHelpPrinted
      else if diagnosticFormat stg \<noteq> 0 then PrecompileStopped (ExitWith (diagnosticFormat stg))
      else if unknownArguments stg \<noteq> 0 then PrecompileStopped (ExitWith (unknownArguments stg))
      else
     (case parsePrecompileArgs e (precompileInputs f) (precompileOutput f) of
        Inl m \<Rightarrow> PrecompileStopped (Reported m)
      | Inr a \<Rightarrow>
     (case precompileContext stg of
        Inl m \<Rightarrow> PrecompileStopped (Reported m)
      | Inr _ \<Rightarrow>
     (case openOutput stg (packageOutput a) of
        Some m \<Rightarrow> PrecompileStopped (Reported m)
      | None \<Rightarrow>
     (case importPackage stg (packageInput a) (sourceName a) of
        Inl m \<Rightarrow> OutputRemoved (packageOutput a) (Some m)
      | Inr None \<Rightarrow> OutputRemoved (packageOutput a) None
      | Inr (Some (theModule, pkg)) \<Rightarrow>
     (case buildPackage (packageWalk stg) (loadLibraryAttr stg) (checkPipeline stg) a
         (case precompileBitcode f of Some bs \<Rightarrow> bs | None \<Rightarrow> []) theModule pkg of
        Inl m \<Rightarrow> OutputRemoved (packageOutput a) (Some m)
      | Inr packageModule \<Rightarrow>
     (case writeBytecode stg packageModule of
        None \<Rightarrow> OutputRemoved (packageOutput a) (Some ''failed to write package bytecode to a file'')
      | Some bytes \<Rightarrow> OutputKept (packageOutput a) bytes (if precompileWerror stg then EXIT_FAILURE else EXIT_SUCCESS))))))))"

section \<open>The copy is the recursive one\<close>

text \<open>
  The reference: containers are copied with the copies of their operations, imports right below a package are
  left out, everything else is copied whole.
\<close>

fun packaged :: "bool \<Rightarrow> 'v lit_op \<Rightarrow> 'v lit_op list" where
  "packaged inPackage (LitOp k a body) =
     (if isContainer k then [LitOp k a (concat (map (packaged (k = PackageKind)) body))]
      else if isImport k \<and> inPackage then []
      else [LitOp k a body])"

fun validPath :: "block_path \<Rightarrow> 'v lit_op list \<Rightarrow> bool" where
  "validPath [] ops = True"
| "validPath (i # p) ops = (i < length ops \<and> validPath p (opBody (ops ! i)))"

lemma validPath_insert: "validPath p ops \<Longrightarrow> validPath p (insertOp p x ops)"
  by (induction p x ops rule: insertOp.induct) auto

lemma validPath_inserts: "validPath p ops \<Longrightarrow> validPath p (fold (insertOp p) xs ops)"
  by (induction xs arbitrary: ops) (simp_all add: validPath_insert)

lemma validPath_new: "validPath p ops \<Longrightarrow> validPath (p @ [length (blockAt p ops)]) (insertOp p x ops)"
  by (induction p x ops rule: insertOp.induct) auto

lemma insert_below_new:
  "validPath p ops \<Longrightarrow>
     insertOp (p @ [length (blockAt p ops)]) y (insertOp p (LitOp k a xs) ops) = insertOp p (LitOp k a (xs @ [y])) ops"
  by (induction p "LitOp k a xs" ops rule: insertOp.induct) auto

lemma inserts_below_new:
  "validPath p ops \<Longrightarrow>
     fold (insertOp (p @ [length (blockAt p ops)])) ys (insertOp p (LitOp k a xs) ops) = insertOp p (LitOp k a (xs @ ys)) ops"
  by (induction ys arbitrary: xs) (simp_all add: insert_below_new)

text \<open>The loop on the visits on top of the work.\<close>

abbreviation builderAt :: "'v lit_op list \<Rightarrow> block_path \<Rightarrow> 'v work list \<Rightarrow> 'v package_builder" where
  "builderAt ops p work \<equiv> \<lparr>builtOps = ops, insertPoint = p, worklist = work\<rparr>"

definition copiedBy :: "bool \<Rightarrow> 'v lit_op list \<Rightarrow> bool" where
  "copiedBy inPackage xs \<longleftrightarrow>
     (\<forall>ops p work. validPath p ops \<longrightarrow>
        processWorklist (builderAt ops p (map (VisitOp inPackage) xs @ work)) =
        processWorklist (builderAt (fold (insertOp p) (concat (map (packaged inPackage) xs)) ops) p work))"

lemma copiedBy_list: "\<forall>x\<in>set xs. copiedBy inPackage [x] \<Longrightarrow> copiedBy inPackage xs"
proof (induction xs)
  case Nil
  then show ?case by (simp add: copiedBy_def)
next
  case (Cons x xs)
  then show ?case
    by (simp add: copiedBy_def validPath_inserts)
qed

lemma pushOps_builder:
  "pushOpsOntoWorklist inPackage xs (builderAt ops p work) = builderAt ops p (map (VisitOp inPackage) xs @ work)"
  by (rule package_builder.equality) simp_all

lemma copied_container:
  assumes "isContainer k" and "copiedBy (k = PackageKind) body"
  shows "copiedBy inPackage [LitOp k a body]"
  unfolding copiedBy_def
proof (intro allI impI)
  fix ops :: "'a lit_op list" and p work
  assume valid: "validPath p ops"
  let ?p = "p @ [length (blockAt p ops)]" and ?new = "insertOp p (LitOp k a []) ops"
  have "processWorklist (builderAt ops p (VisitOp inPackage (LitOp k a body) # work)) =
      processWorklist (builderAt ?new ?p (map (VisitOp (k = PackageKind)) body @ RestorePoint p # work))"
    using assms(1) by (simp add: processWorklist.simps[of "builderAt ops p (VisitOp inPackage (LitOp k a body) # work)"] visitOp_def
        cloneWithoutRegions_def pushOps_builder)
  also have "\<dots> = processWorklist (builderAt (insertOp p (LitOp k a (concat (map (packaged (k = PackageKind)) body))) ops) ?p (RestorePoint p # work))"
    using assms(2) valid inserts_below_new[of p ops _ k a "[]"] by (simp add: copiedBy_def validPath_new)
  also have "\<dots> = processWorklist (builderAt (insertOp p (LitOp k a (concat (map (packaged (k = PackageKind)) body))) ops) p work)"
    by (simp add: processWorklist.simps[of "builderAt _ _ (RestorePoint p # work)"])
  finally show "processWorklist (builderAt ops p (map (VisitOp inPackage) [LitOp k a body] @ work)) =
      processWorklist (builderAt (fold (insertOp p) (concat (map (packaged inPackage) [LitOp k a body])) ops) p work)"
    using assms(1) by simp
qed

lemma copied_op: "copiedBy inPackage [op]"
proof (induction op arbitrary: inPackage)
  case (LitOp k a body)
  show ?case
  proof (cases "isContainer k")
    case True
    then show ?thesis
      using LitOp by (intro copied_container copiedBy_list) auto
  next
    case False
    then show ?thesis
      by (auto simp: copiedBy_def processWorklist.simps[of "builderAt _ _ (VisitOp _ _ # _)"] visitOp_def cloneOp_def)
  qed
qed

lemma process_visits:
  assumes "validPath p ops"
  shows "processWorklist (builderAt ops p (map (VisitOp inPackage) xs @ work)) =
     processWorklist (builderAt (fold (insertOp p) (concat (map (packaged inPackage) xs)) ops) p work)"
proof -
  have "copiedBy inPackage xs"
    by (rule copiedBy_list) (simp add: copied_op)
  then show ?thesis
    using assms unfolding copiedBy_def by blast
qed

lemma concat_map_singletons: "\<forall>x\<in>set xs. f x = [x] \<Longrightarrow> concat (map f xs) = xs"
  by (induction xs) auto

lemma inserts_top: "fold (insertOp []) xs ops = ops @ xs"
  by (induction xs arbitrary: ops) simp_all

lemma push_singles: "worklist (fold (\<lambda>x. pushOpsOntoWorklist False [x]) xs b) = map (VisitOp False) (rev xs) @ worklist b \<and>
  builtOps (fold (\<lambda>x. pushOpsOntoWorklist False [x]) xs b) = builtOps b \<and> insertPoint (fold (\<lambda>x. pushOpsOntoWorklist False [x]) xs b) = insertPoint b"
  by (induction xs arbitrary: b) simp_all

lemma startPackage_eq:
  "startPackage theModule (LitOp k a body) =
     builderAt [LitOp k a []] [0] (map (VisitOp True) body @ RestorePoint [] #
       map (VisitOp False) (rev (closureTraits theModule) @ rev (topFunctions theModule)))"
  by (rule package_builder.equality) (simp_all add: startPackage_def Let_def cloneWithoutRegions_def push_singles)

lemma packaged_plain: "\<not> isContainer (opKind op) \<Longrightarrow> \<not> isImport (opKind op) \<Longrightarrow> packaged inPackage op = [op]"
  by (cases op) auto

text \<open>
  C28. The loop over the worklist, with its insertion points, always ends and builds the recursive copy: the package
  with every nested package, module and struct in the original order, without the imports that stand right below
  a package and with everything else unchanged, its documentation without locations; behind it the closure
  traits and the thunks.
\<close>

theorem package_copy_exact:
  "buildPackageModule theModule (LitOp PackageKind a body) =
     walkDocs (LitOp PackageKind a (concat (map (packaged True) body))) # rev (closureTraits theModule) @ rev (topFunctions theModule)"
proof -
  let ?rest = "rev (closureTraits theModule) @ rev (topFunctions theModule)"
    and ?pkg = "LitOp PackageKind a (concat (map (packaged True) body))"
  have "\<forall>op\<in>set ?rest. packaged False op = [op]"
    by (intro ballI packaged_plain) (auto simp: closureTraits_def topFunctions_def isContainer_def isImport_def)
  then have rest: "concat (map (packaged False) ?rest) = ?rest"
    by (rule concat_map_singletons)
  have "processWorklist (startPackage theModule (LitOp PackageKind a body)) =
      processWorklist (builderAt [?pkg] [0] (RestorePoint [] # map (VisitOp False) ?rest))"
    using process_visits[of "[0]" "[LitOp PackageKind a []]" True body] inserts_below_new[of "[]" "[]" _ PackageKind a "[]"]
    by (simp add: startPackage_eq)
  also have "\<dots> = processWorklist (builderAt [?pkg] [] (map (VisitOp False) ?rest @ []))"
    by (simp add: processWorklist.simps[of "builderAt _ _ (RestorePoint [] # _)"])
  also have "\<dots> = builderAt (?pkg # ?rest) [] []"
    by (subst process_visits) (simp_all add: rest inserts_top processWorklist.simps[of "builderAt _ _ []"] del: map_append)
  finally show ?thesis
    by (simp add: buildPackageModule_def)
qed

section \<open>Renaming text\<close>

text \<open>
  The reference: an occurrence of the token is rewritten unless two colons stand in front of it; \<open>before\<close> is the
  text in front.
\<close>

function rewriteRoots :: "string \<Rightarrow> string \<Rightarrow> string \<Rightarrow> string \<Rightarrow> string" where
  "rewriteRoots tok new before [] = []"
| "rewriteRoots tok new before (c # cs) =
     (if tok \<noteq> [] \<and> starts_with tok (c # cs) then
        (if ends_with ''::'' before then tok else new) @ rewriteRoots tok new (before @ tok) (drop (length tok) (c # cs))
      else c # rewriteRoots tok new (before @ [c]) cs)"
  by pat_completeness auto
termination rewriteRoots
proof (relation "measure (\<lambda>(_, _, _, s). length s)")
  fix tok new before :: string and c cs
  assume "tok \<noteq> [] \<and> starts_with tok (c # cs)"
  then show "((tok, new, before @ tok, drop (length tok) (c # cs)), (tok, new, before, c # cs)) \<in> measure (\<lambda>(_, _, _, s). length s)"
    by (cases tok) auto
qed auto

lemma rewriteRoots_none: "find_sub tok s = None \<Longrightarrow> rewriteRoots tok new before s = s"
  by (induction s arbitrary: before) (auto split: if_splits)

lemma rewriteRoots_some:
  "find_sub tok s = Some pos \<Longrightarrow> tok \<noteq> [] \<Longrightarrow>
     rewriteRoots tok new before s = take pos s @ (if ends_with ''::'' (before @ take pos s) then tok else new) @
       rewriteRoots tok new (before @ take pos s @ tok) (drop (pos + length tok) s)"
proof (induction s arbitrary: before pos)
  case Nil
  then show ?case by (simp split: if_splits)
next
  case (Cons c cs)
  show ?case
  proof (cases "starts_with tok (c # cs)")
    case True
    then show ?thesis
      using Cons.prems by simp
  next
    case False
    then obtain j where "find_sub tok cs = Some j" "pos = Suc j"
      using Cons.prems by auto
    then show ?thesis
      using False Cons by simp
  qed
qed

lemma find_sub_infix: "find_sub s (pre @ s @ suf) \<noteq> None"
proof (induction pre)
  case Nil
  show ?case
  proof (cases "s @ suf")
    case (Cons c cs)
    then have "starts_with s (c # cs)"
      by (auto simp: starts_with_iff simp flip: Cons)
    then show ?thesis
      by (simp add: Cons)
  qed simp
qed auto

text \<open>Two occurrences of the token with nothing or one colon between them.\<close>

definition adjacentTokens :: "string \<Rightarrow> string \<Rightarrow> bool" where
  "adjacentTokens tok s \<longleftrightarrow> find_sub (tok @ tok) s \<noteq> None \<or> find_sub (tok @ '':'' @ tok) s \<noteq> None"

lemma nested_by_prefix:
  assumes "before = [] \<or> (\<exists>b. before = b @ tok)" and "ends_with ''::'' tok" and "\<not> adjacentTokens tok (before @ front @ tok @ suf)"
  shows "ends_with ''::'' (before @ front) = ends_with ''::'' front"
proof (cases "before = []")
  case False
  then obtain b t where before: "before = b @ tok" "tok = t @ ''::''"
    using assms(1,2) by (auto simp: ends_with_iff)
  have "front \<noteq> []"
    using assms(3) find_sub_infix[of "tok @ tok" b suf] before by (auto simp: adjacentTokens_def)
  moreover have "front \<noteq> '':''"
    using assms(3) find_sub_infix[of "tok @ '':'' @ tok" b suf] before by (auto simp: adjacentTokens_def)
  ultimately show ?thesis
    by (cases front rule: rev_cases; cases "butlast front" rule: rev_cases) (auto simp: ends_with_def before)
qed simp

lemma rewriteLoop_roots:
  assumes "ends_with ''::'' tok" and "before = [] \<or> (\<exists>b. before = b @ tok)" and "\<not> adjacentTokens tok (before @ s)"
  shows "rewriteLoop tok new acc s = acc @ rewriteRoots tok new before s"
  using assms(2,3)
proof (induction "length s" arbitrary: s acc before rule: less_induct)
  case less
  have tok: "tok \<noteq> []"
    using assms(1) by (auto simp: ends_with_def)
  show ?case
  proof (cases "find_sub tok s")
    case None
    then show ?thesis
      by (simp add: rewriteLoop.simps[of tok new acc s] rewriteRoots_none)
  next
    case (Some pos)
    have split: "s = take pos s @ tok @ drop (pos + length tok) s" and len: "pos + length tok \<le> length s"
      using find_sub_Some[OF Some] by (metis append_take_drop_id drop_drop add.commute) (use find_sub_Some[OF Some] in simp)
    have nested: "ends_with ''::'' (before @ take pos s) = ends_with ''::'' (take pos s)"
      using less.prems split by (intro nested_by_prefix[OF _ assms(1), where suf = "drop (pos + length tok) s"]) simp_all
    have "length (drop (pos + length tok) s) < length s"
      using len tok by (cases tok) auto
    moreover have "\<not> adjacentTokens tok ((before @ take pos s @ tok) @ drop (pos + length tok) s)"
      using less.prems(2) split by simp
    moreover have "\<exists>b. before @ take pos s @ tok = b @ tok"
      by (rule exI[of _ "before @ take pos s"]) simp
    ultimately have "rewriteLoop tok new acc' (drop (pos + length tok) s) =
        acc' @ rewriteRoots tok new (before @ take pos s @ tok) (drop (pos + length tok) s)" for acc'
      by (intro less.hyps) blast+
    then show ?thesis
      using Some tok nested by (simp add: rewriteLoop.simps[of tok new acc s] rewriteRoots_some Let_def)
  qed
qed



text \<open>
  A module that has the name of its package is renamed with it: the text behind a token that was just rewritten
  starts afresh, so the colons in front of the next one are not seen.
\<close>

theorem nested_module_renamed:
  "rewriteNameText ''ab'' ''x'' ''@ab::@ab::@f'' = ''@x::@x::@f'' \<and>
   rewriteRoots (tokenOf ''ab'') (tokenOf ''x'') [] ''@ab::@ab::@f'' = ''@x::@ab::@f''"
  by (simp add: rewriteNameText_def rewriteLoop.simps tokenOf_def starts_with_def ends_with_def)

section \<open>The name of the package\<close>

lemma path_filename_clean: "list_all (\<lambda>c. \<not> isSep c) (path_filename isSep s)"
  using set_takeWhileD by (fastforce simp: path_filename_def list_all_iff)

lemma stem_prefix: "\<exists>ext. path_filename isSep s = path_stem isSep s @ ext"
proof -
  have "\<exists>ext. f = rsplit_first c f @ ext" for c and f :: string
  proof (cases "c \<in> set f")
    case True
    then obtain r where "rev f = takeWhile (\<lambda>x. x \<noteq> c) (rev f) @ c # r"
      by (metis (mono_tags, lifting) dropWhile_eq_Cons_conv dropWhile_eq_Nil_conv set_rev takeWhile_dropWhile_id neq_Nil_conv)
    then have "f = rev r @ c # rev (takeWhile (\<lambda>x. x \<noteq> c) (rev f))" and "dropWhile (\<lambda>x. x \<noteq> c) (rev f) = c # r"
      by (metis append_assoc append_Cons append_Nil rev_append rev_rev_ident rev.simps(2), metis append_same_eq same_append_eq takeWhile_dropWhile_id)
    then show ?thesis
      using True by (auto simp: rsplit_first_def)
  qed (simp add: rsplit_first_def)
  then show ?thesis
    by (simp add: path_stem_def Let_def)
qed

lemma filename_by_extension: "path_filename isSep s = path_stem isSep s @ path_extension isSep s"
  using stem_prefix[of isSep s] by (auto simp: path_extension_def)

text \<open>
  A package is written under its own name: the file is named after the package, wherever it goes, unless it is
  written to the standard output; so an import by the name of the file finds the symbols of the package.
\<close>

theorem package_named_after_file:
  assumes "parsePrecompileArgs e inputs outputArg = Inr a" and "pathSeparator e \<in> {posix_separator, windows_separator}"
  shows "packageOutput a = ''-'' \<or> path_filename (pathSeparator e) (packageOutput a) = packageName a @ ''.mojoc''"
proof -
  obtain canonical where out: "packageOutputOf e (path_filename (pathSeparator e) canonical) outputArg = Inr (packageOutput a, packageName a)"
    using assms(1) by (auto simp: parsePrecompileArgs_def bind_err_def Let_def split: list.splits if_splits sum.splits)
  have "path_filename (pathSeparator e) (path_filename (pathSeparator e) canonical @ ''.mojoc'') =
      path_filename (pathSeparator e) canonical @ ''.mojoc''"
    by (rule path_filename_plain) (use path_filename_clean[of "pathSeparator e" canonical] assms(2) in
        \<open>auto simp: posix_separator_def windows_separator_def\<close>)
  moreover have "packageOutput a = ''-'' \<or> outputArg = None \<or> path_stem (pathSeparator e) (packageOutput a) = packageName a \<and>
      path_extension (pathSeparator e) (packageOutput a) = ''.mojoc''"
    using out by (auto simp: packageOutputOf_def bind_err_def Let_def split: option.splits if_splits sum.splits)
  ultimately show ?thesis
    using out filename_by_extension[of "pathSeparator e" "packageOutput a"] by (auto simp: packageOutputOf_def split: option.splits)
qed

text \<open>
  A run that only applies fixes reports success and leaves no package, also not the one that was there: the
  output is opened, and so emptied, before the sources are read.
\<close>

theorem fixit_removes_output:
  assumes "parsePrecompileArgs e (precompileInputs f) (precompileOutput f) = Inr a" and "\<not> precompileHelp f" and "\<not> precompileHelpHidden f"
    and "diagnosticFormat stg = 0" and "unknownArguments stg = 0" and "precompileContext stg = Inr ()"
    and "openOutput stg (packageOutput a) = None" and "importPackage stg (packageInput a) (sourceName a) = Inr None"
  shows "precompile e stg f = OutputRemoved (packageOutput a) None"
  using assms by (simp add: precompile_def)

end
