(* ===== verification/Mojo_Run.thy ===== *)
theory Mojo_Run
  imports Execution_Engine Xlinker_Resolution Mojo_Build Text_Numbers
begin

text \<open>
  \<^verbatim>\<open>mojo run\<close> (\<^verbatim>\<open>Mojo/tools/mojo/Run/mojo-run.cpp\<close>): the arguments before and behind the program, the libraries the
  program is loaded with, its compilation and the call of its \<^verbatim>\<open>main\<close>.  The option parser, the stages of the compiler
  and the crash recovery are arguments; the execution engine and the resolution of linker options are those of
  the other theories.
\<close>

section \<open>Arguments\<close>

datatype run_option = InputOption | HelpOption | HelpHiddenOption | XlinkerOption | OtherRunOption nat

text \<open>An option with its place on the command line, and what the common part of argument parsing answers.\<close>

record run_arg =
  runOption :: run_option
  runIndex :: nat
  runValue :: string

record run_parse =
  runExit :: "int option"
  runArgs :: "run_arg list"
  runNoDebug :: bool

definition hasRunArg :: "run_option \<Rightarrow> run_arg list \<Rightarrow> bool" where
  "hasRunArg opt args = list_ex (\<lambda>a. runOption a = opt) args"

definition inputArgs :: "run_arg list \<Rightarrow> run_arg list" where
  "inputArgs args = filter (\<lambda>a. runOption a = InputOption) args"

text \<open>Help counts only in front of the input.\<close>

definition parseRunArgs :: "(string list \<Rightarrow> run_arg list) \<Rightarrow> (string list \<Rightarrow> run_parse error_or) \<Rightarrow> string list \<Rightarrow> stop + run_parse" where
  "parseRunArgs parseOptions parseCommonArgs arguments =
     (let allArgs = parseOptions arguments;
          argsBeforeInput = (case inputArgs allArgs of [] \<Rightarrow> allArgs | a # _ \<Rightarrow> parseOptions (take (runIndex a + 1) arguments)) in
      if hasRunArg HelpOption argsBeforeInput then Inl HelpPrinted
      else if hasRunArg HelpHiddenOption argsBeforeInput then Inl HiddenHelpPrinted
      else case parseCommonArgs arguments of
        Inl e \<Rightarrow> Inl (Reported e)
      | Inr r \<Rightarrow> (case runExit r of Some c \<Rightarrow> Inl (ExitWith c) | None \<Rightarrow> Inr r))"

section \<open>Execution\<close>

datatype program_run = ProgramCrashed | ProgramReturned int

record run_stages =
  runContext :: "unit error_or"
  runTiming :: "unit error_or"
  runParser :: "bool error_or"
  kgenPipeline :: "unit error_or"
  exportedSymbols :: "string list"
  runObjectCompiler :: "unit error_or"
  emittedArchive :: "(string \<times> nat) list error_or"
  initEngine :: "engine_options \<Rightarrow> jit_engine engine_result"
  addArchive :: "(string \<times> nat) list \<Rightarrow> jit_engine \<Rightarrow> jit_engine error_or"
  runLookup :: orc_lookup
  runMangle :: "string \<Rightarrow> string"
  callMain :: "nat \<Rightarrow> string list \<Rightarrow> program_run"
  runWerror :: bool

definition executeMain :: "run_stages \<Rightarrow> jit_engine \<Rightarrow> string list \<Rightarrow> unit error_or" where
  "executeMain stg ee arguments =
     (let runFn = (\<lambda>a. case callMain stg a arguments of
              ProgramReturned r \<Rightarrow> if r \<noteq> 0 then Inl (''execution exited with a non-zero result: '' @ intString r) else Inr ()
            | ProgramCrashed \<Rightarrow> Inr ());
          crashed = (case fst (lookupSymbol (runLookup stg) (runMangle stg) ee ''main'') of
              Inr a \<Rightarrow> callMain stg a arguments = ProgramCrashed
            | Inl _ \<Rightarrow> False) in
      if crashed then
        Inl (''execution crashed'' @ [CHR 0x0A] @ ''To get a symbolicated stack trace, '' @
          ''compile your program using `mojo build` with debug info '' @
          ''enabled (e.g., `-debug-level=line-tables`) and execute it '' @ ''separately.'')
      else fst (runProgram (runLookup stg) (runMangle stg) ee ''exec'' ''main'' runFn))"

datatype run_result = RunStopped stop | RunFixit | RunError string | RunAborted string | RunExit int

text \<open>The other options of the engine keep their defaults.\<close>

definition executeModule :: "run_stages \<Rightarrow> bool \<Rightarrow> string list \<Rightarrow> string list \<Rightarrow> run_result" where
  "executeModule stg withoutDebug arguments additionalLibraries =
     (case kgenPipeline stg of
        Inl e \<Rightarrow> RunError e
      | Inr _ \<Rightarrow>
     (if ''main'' \<notin> set (exportedSymbols stg) then RunError ''module does not define a `main` function''
      else
     (case runObjectCompiler stg of
        Inl e \<Rightarrow> RunError e
      | Inr _ \<Rightarrow>
     (case emittedArchive stg of
        Inl e \<Rightarrow> RunError e
      | Inr archive \<Rightarrow>
     (case initEngine stg \<lparr>epcFormat = None, libraryPaths = additionalLibraries, crossCompiling = False,
         registerDebugPlugins = \<not> withoutDebug, registerPerfPlugins = False\<rparr> of
        EngineError e \<Rightarrow> RunError e
      | CantFail e \<Rightarrow> RunAborted e
      | Engine ee \<Rightarrow>
     (case addArchive stg archive ee of
        Inl e \<Rightarrow> RunError e
      | Inr ee \<Rightarrow>
     (case lookupSymbol (runLookup stg) (runMangle stg) ee ''main'' of
        (Inl e, ee) \<Rightarrow> RunError e
      | (Inr _, ee) \<Rightarrow>
     (case executeMain stg ee arguments of
        Inl e \<Rightarrow> RunError e
      | Inr _ \<Rightarrow> RunExit EXIT_SUCCESS))))))))"

section \<open>The command\<close>

text \<open>
  The options of the linker: those of the configuration, without the tokens that only speak to the clang driver,
  then those of the command line.
\<close>

definition runLinkerArgs :: "mojo_env \<Rightarrow> (string \<Rightarrow> string) \<Rightarrow> kv_map error_or \<Rightarrow> run_arg list \<Rightarrow> string list" where
  "runLinkerArgs c hostNamer configOr args =
     (case configOr of
        Inl _ \<Rightarrow> []
      | Inr kv \<Rightarrow> filter (\<lambda>arg. arg \<noteq> ''-Xlinker'') (fst (appendSharedLibraryLinkArgs c hostNamer [] kv))) @
     map runValue (filter (\<lambda>a. runOption a = XlinkerOption) args)"

definition mojoRun ::
  "(string list \<Rightarrow> run_arg list) \<Rightarrow> (string list \<Rightarrow> run_parse error_or) \<Rightarrow> mojo_env \<Rightarrow> (string \<Rightarrow> string) \<Rightarrow> kv_map error_or \<Rightarrow> xl_env \<Rightarrow>
   run_stages \<Rightarrow> string list \<Rightarrow> run_result" where
  "mojoRun parseOptions parseCommonArgs c hostNamer configOr xl stg arguments =
     (case parseRunArgs parseOptions parseCommonArgs arguments of
        Inl s \<Rightarrow> RunStopped s
      | Inr r \<Rightarrow>
     (case runContext stg of
        Inl e \<Rightarrow> RunError e
      | Inr _ \<Rightarrow>
     (case runTiming stg of
        Inl e \<Rightarrow> RunError e
      | Inr _ \<Rightarrow>
     (case runParser stg of
        Inl e \<Rightarrow> RunError e
      | Inr False \<Rightarrow> RunFixit
      | Inr True \<Rightarrow>
     (let additionalLibraries = fst (resolveXlinkerLibraries xl (runLinkerArgs c hostNamer configOr (runArgs r)));
          result = executeModule stg (runNoDebug r) (drop (runIndex (last (inputArgs (runArgs r)))) arguments) additionalLibraries in
      if result \<noteq> RunExit EXIT_SUCCESS then result
      else RunExit (if runWerror stg then EXIT_FAILURE else EXIT_SUCCESS))))))"

section \<open>Success means that the program succeeded\<close>

lemma executeMain_success:
  assumes "executeMain stg ee arguments = Inr ()"
  shows "\<exists>a. fst (lookupSymbol (runLookup stg) (runMangle stg) ee ''main'') = Inr a \<and> callMain stg a arguments = ProgramReturned 0"
  using assms
  by (cases "lookupSymbol (runLookup stg) (runMangle stg) ee ''main''")
    (auto simp: executeMain_def runProgram_def Let_def split: sum.splits program_run.splits if_splits)

lemma executeModule_success:
  assumes "executeModule stg withoutDebug arguments libs = RunExit EXIT_SUCCESS"
  shows "\<exists>a. callMain stg a arguments = ProgramReturned 0"
  using assms
  by (auto simp: executeModule_def split: sum.splits if_splits engine_result.splits prod.splits dest!: executeMain_success)

text \<open>
  A run that reports success called the \<^verbatim>\<open>main\<close> of the program with the input and all arguments behind it, exactly as
  they were given, and it returned zero, and no warning was made an error.
\<close>

theorem run_success_sound:
  assumes "mojoRun parseOptions parseCommonArgs c hostNamer configOr xl stg arguments = RunExit EXIT_SUCCESS"
    and "parseCommonArgs arguments = Inr r" and "inputArgs (parseOptions arguments) = i # rest"
    and "inputArgs (runArgs r) = [i]"
  shows "(\<exists>a. callMain stg a (drop (runIndex i) arguments) = ProgramReturned 0) \<and> \<not> runWerror stg \<and>
    \<not> hasRunArg HelpOption (parseOptions (take (runIndex i + 1) arguments))"
proof -
  have "parseRunArgs parseOptions parseCommonArgs arguments = Inr r \<and> \<not> hasRunArg HelpOption (parseOptions (take (runIndex i + 1) arguments))"
    using assms by (auto simp: mojoRun_def parseRunArgs_def Let_def split: option.splits if_splits sum.splits)
  then have "executeModule stg (runNoDebug r) (drop (runIndex i) arguments)
      (fst (resolveXlinkerLibraries xl (runLinkerArgs c hostNamer configOr (runArgs r)))) = RunExit EXIT_SUCCESS \<and> \<not> runWerror stg"
    using assms(1,4) by (auto simp: mojoRun_def Let_def EXIT_SUCCESS_def EXIT_FAILURE_def split: sum.splits bool.splits if_splits)
  then show ?thesis
    using executeModule_success \<open>parseRunArgs parseOptions parseCommonArgs arguments = Inr r \<and> _\<close> by blast
qed

end
