(* ===== verification/Parser_Driver.thy ===== *)
theory Parser_Driver
  imports Mojo_Prelude
begin

text \<open>
  The entry points of the parser for tools (\<^verbatim>\<open>Mojo/lib/MojoTooling/ParserDriver.cpp\<close>): how a path becomes a module or a
  package, and in which order declarations are resolved for an editor.  The parser itself, its declarations and
  the file system are arguments.
\<close>

section \<open>From a path to a declaration\<close>

record parse_fs =
  parentPath :: "string \<Rightarrow> string"
  fileNameOf :: "string \<Rightarrow> string"
  stemOf :: "string \<Rightarrow> string"
  extensionOf :: "string \<Rightarrow> string"
  isSourcePackage :: "string \<Rightarrow> bool"
  isBinaryPackage :: "string \<Rightarrow> bool"
  isDirectoryPath :: "string \<Rightarrow> bool"
  addIncludeFile :: "string \<Rightarrow> bool"

text \<open>What the parser is asked for.\<close>

datatype decl_request =
    CreateModule string string
  | CreatePackage string string
  | CreateBinaryPackage string string
  | ImportNested string string "string list"

definition getNameForSourcePackage :: "parse_fs \<Rightarrow> string \<Rightarrow> string" where
  "getNameForSourcePackage fs path =
     (let name = fileNameOf fs path in
      if name = ''src'' then fileNameOf fs (parentPath fs path) else name)"

definition nestedName :: "parse_fs \<Rightarrow> string \<Rightarrow> string" where
  "nestedName fs path = (if isDirectoryPath fs path then fileNameOf fs path else stemOf fs path)"

text \<open>Upwards to the outermost package; \<open>None\<close> is a search that does not end.\<close>

partial_function (option) outermostPackage :: "parse_fs \<Rightarrow> string \<Rightarrow> string list \<Rightarrow> (string \<times> string list) option" where
  "outermostPackage fs path packageNames =
     (if isSourcePackage fs (parentPath fs path) then
        outermostPackage fs (parentPath fs path) (packageNames @ [nestedName fs path])
      else Some (path, packageNames))"

definition buildNestedModuleDecl :: "parse_fs \<Rightarrow> string \<Rightarrow> decl_request option" where
  "buildNestedModuleDecl fs path =
     map_option (\<lambda>(outer, packageNames). ImportNested outer (getNameForSourcePackage fs outer) (rev packageNames))
       (outermostPackage fs path [])"

definition buildModuleDecl :: "parse_fs \<Rightarrow> string \<Rightarrow> decl_request option" where
  "buildModuleDecl fs path =
     (if isSourcePackage fs (parentPath fs path) then buildNestedModuleDecl fs path
      else Some (CreateModule (stemOf fs path) path))"

text \<open>The inner \<open>None\<close> is no declaration.\<close>

definition buildPackageDecl :: "parse_fs \<Rightarrow> string \<Rightarrow> decl_request option option" where
  "buildPackageDecl fs path =
     (if isBinaryPackage fs path then Some (Some (CreateBinaryPackage path (stemOf fs path)))
      else if \<not> isSourcePackage fs path then Some None
      else if isSourcePackage fs (parentPath fs path) then map_option Some (buildNestedModuleDecl fs path)
      else Some (Some (CreatePackage path (getNameForSourcePackage fs path))))"

definition buildModuleOrPackageDecl :: "parse_fs \<Rightarrow> string \<Rightarrow> decl_request option option" where
  "buildModuleOrPackageDecl fs path =
     (if extensionOf fs path = ''.mojo'' then
        if \<not> addIncludeFile fs path then Some None
        else map_option Some (buildModuleDecl fs path)
      else buildPackageDecl fs path)"

definition parsePackage :: "parse_fs \<Rightarrow> string \<Rightarrow> decl_request option option" where
  "parsePackage fs path =
     (if \<not> (isSourcePackage fs path \<or> isBinaryPackage fs path) then Some None
      else buildModuleOrPackageDecl fs path)"

section \<open>Worklists of declarations\<close>

text \<open>
  The queue is taken from at its end and filled at its front; here the end is the head.  \<open>scope\<close> are the
  declarations that a declaration has in scope once its body was resolved, \<open>parentDecl\<close> where one was declared; the
  result lists the declarations that were resolved.
\<close>

definition childDecls :: "('d \<Rightarrow> 'd list) \<Rightarrow> ('d \<Rightarrow> 'd option) \<Rightarrow> 'd \<Rightarrow> 'd list" where
  "childDecls scope parentDecl d = filter (\<lambda>c. parentDecl c = Some d) (scope d)"

partial_function (option) declLoop :: "('d \<Rightarrow> bool) \<Rightarrow> ('d \<Rightarrow> 'd list) \<Rightarrow> 'd list \<Rightarrow> 'd list \<Rightarrow> 'd list option" where
  "declLoop enter kids work resolved =
     (case work of
        [] \<Rightarrow> Some resolved
      | d # work \<Rightarrow>
          if \<not> enter d then declLoop enter kids work resolved
          else declLoop enter kids (work @ kids d) (resolved @ [d]))"

declare declLoop.simps [code]

definition resolveForLSP :: "('d \<Rightarrow> 'd list) \<Rightarrow> ('d \<Rightarrow> 'd option) \<Rightarrow> 'd \<Rightarrow> 'd list option" where
  "resolveForLSP scope parentDecl decl = declLoop (\<lambda>_. True) (childDecls scope parentDecl) [decl] []"

text \<open>Only what belongs to the module or package itself; \<open>nearest\<close> is the nearest declaration of its kind.\<close>

definition parseIsolated :: "('d \<Rightarrow> 'd list) \<Rightarrow> ('d \<Rightarrow> 'd option) \<Rightarrow> ('d \<Rightarrow> 'd option) \<Rightarrow> 'd \<Rightarrow> 'd list option" where
  "parseIsolated scope parentDecl nearest moduleDecl =
     declLoop (\<lambda>d. nearest d = Some moduleDecl) (childDecls scope parentDecl) [moduleDecl] []"

section \<open>Signatures\<close>

text \<open>
  The list of declarations grows while they are resolved; the state \<open>s\<close> of the resolver holds it.
\<close>

record ('d, 's) resolver =
  parsedDeclList :: "'s \<Rightarrow> 'd list"
  unparsedImport :: "'s \<Rightarrow> 'd \<Rightarrow> bool"
  loadedFromBytecode :: "'d \<Rightarrow> bool"
  isFnDecl :: "'d \<Rightarrow> bool"
  resolveSignature :: "'d \<Rightarrow> 's \<Rightarrow> 's"
  resolveBody :: "'d \<Rightarrow> 's \<Rightarrow> 's"

definition signatureStep :: "('d, 's) resolver \<Rightarrow> 'd \<Rightarrow> 's \<Rightarrow> 's" where
  "signatureStep r d s =
     (if unparsedImport r s d then s
      else if loadedFromBytecode r d then (if isFnDecl r d then resolveSignature r d s else resolveBody r d s)
      else resolveSignature r d s)"

partial_function (option) signatureLoop :: "('d, 's) resolver \<Rightarrow> nat \<Rightarrow> 's \<Rightarrow> 's option" where
  "signatureLoop r i s =
     (if i = length (parsedDeclList r s) then Some s
      else signatureLoop r (i + 1) (signatureStep r (parsedDeclList r s ! i) s))"

declare signatureLoop.simps [code]

definition resolveSignaturesForLSP :: "('d, 's) resolver \<Rightarrow> 's \<Rightarrow> 's option" where
  "resolveSignaturesForLSP r s = signatureLoop r 0 s"

section \<open>The outermost package\<close>

text \<open>
  The search for the outermost package ends there when there is one, and the import it makes names the file by
  the packages from the outside to the inside.
\<close>

theorem nested_import_exact:
  assumes "\<forall>k \<le> n. isSourcePackage fs (((parentPath fs) ^^ Suc k) path)"
    and "\<not> isSourcePackage fs (((parentPath fs) ^^ Suc (Suc n)) path)"
  shows "buildModuleDecl fs path =
    Some (ImportNested (((parentPath fs) ^^ Suc n) path) (getNameForSourcePackage fs (((parentPath fs) ^^ Suc n) path))
      (map (\<lambda>k. nestedName fs (((parentPath fs) ^^ k) path)) (rev [0..<Suc n])))"
proof -
  let ?up = "\<lambda>k. ((parentPath fs) ^^ k) path"
  have step: "outermostPackage fs (?up k) names = outermostPackage fs (?up (Suc k)) (names @ [nestedName fs (?up k)])" if "k \<le> n" for k names
    using assms(1) that by (subst outermostPackage.simps) simp
  have "outermostPackage fs path [] = outermostPackage fs (?up k) (map (\<lambda>k. nestedName fs (?up k)) [0..<k])" if "k \<le> Suc n" for k
    using that
  proof (induction k)
    case (Suc k)
    then show ?case
      using step[of k "map (\<lambda>k. nestedName fs (?up k)) [0..<k]"] by simp
  qed simp
  moreover have "outermostPackage fs (?up (Suc n)) names = Some (?up (Suc n), names)" for names
    using assms(2) by (subst outermostPackage.simps) simp
  ultimately have "outermostPackage fs path [] = Some (?up (Suc n), map (\<lambda>k. nestedName fs (?up k)) [0..<Suc n])"
    by (metis order_refl)
  moreover have "isSourcePackage fs (parentPath fs path)"
    using assms(1)[rule_format, of 0] by simp
  ultimately show ?thesis
    by (simp add: buildModuleDecl_def buildNestedModuleDecl_def rev_map)
qed

text \<open>
  The root of a file system is its own parent, so when it is the directory of a package the search never ends.
\<close>

theorem root_package_endless:
  assumes "parentPath fs root = root" and "isSourcePackage fs root"
  shows "buildModuleDecl fs root = None"
proof -
  have ends: "\<not> (parentPath fs p = p \<and> isSourcePackage fs p)" if "outermostPackage fs p names = Some r" for p names r
    by (rule outermostPackage.raw_induct[where P = "\<lambda>fs p names r. \<not> (parentPath fs p = p \<and> isSourcePackage fs p)", OF _ that])
      (auto split: if_splits)
  have "outermostPackage fs root [] = None"
    using ends[of root "[]"] assms by (cases "outermostPackage fs root []") auto
  then show ?thesis
    using assms by (simp add: buildModuleDecl_def buildNestedModuleDecl_def)
qed


section \<open>The order of resolution\<close>

text \<open>The declarations of one level below the other.\<close>

fun declLevel :: "('d \<Rightarrow> bool) \<Rightarrow> ('d \<Rightarrow> 'd list) \<Rightarrow> 'd list \<Rightarrow> nat \<Rightarrow> 'd list" where
  "declLevel enter kids ds 0 = filter enter ds"
| "declLevel enter kids ds (Suc n) = filter enter (concat (map kids (declLevel enter kids ds n)))"

lemma declLoop_level:
  "declLoop enter kids (xs @ ys) resolved = declLoop enter kids (ys @ concat (map kids (filter enter xs))) (resolved @ filter enter xs)"
proof (induction xs arbitrary: ys resolved)
  case (Cons x xs)
  show ?case
    using Cons.IH[of ys resolved] Cons.IH[of "ys @ kids x" "resolved @ [x]"] by (subst declLoop.simps) simp
qed simp

lemma declLoop_levels:
  "declLevel enter kids ds n = [] \<Longrightarrow>
     declLoop enter kids ds resolved = Some (resolved @ concat (map (declLevel enter kids ds) [0..<n]))"
proof -
  assume empty: "declLevel enter kids ds n = []"
  have steps: "declLoop enter kids ds resolved =
      declLoop enter kids (concat (map kids (declLevel enter kids ds k))) (resolved @ concat (map (declLevel enter kids ds) [0..<Suc k]))" for k
  proof (induction k)
    case 0
    then show ?case
      using declLoop_level[of enter kids ds "[]" resolved] by simp
  next
    case (Suc k)
    then show ?case
      using declLoop_level[of enter kids "concat (map kids (declLevel enter kids ds k))" "[]"] by simp
  qed
  show ?thesis
    using steps[of n] empty by (simp add: declLoop.simps[of enter kids "[]"])
qed

text \<open>
  For an editor the declarations below a module are resolved level by level, a declaration before the ones it
  contains and each of a level in the order of its scope, and this ends when they are nested finitely deep.
\<close>

theorem lsp_level_order:
  assumes "declLevel (\<lambda>_. True) (childDecls scope parentDecl) [decl] n = []"
  shows "resolveForLSP scope parentDecl decl = Some (concat (map (declLevel (\<lambda>_. True) (childDecls scope parentDecl) [decl]) [0..<n]))"
  using declLoop_levels[OF assms, of "[]"] by (simp add: resolveForLSP_def)

theorem isolated_level_order:
  assumes "declLevel (\<lambda>d. nearest d = Some decl) (childDecls scope parentDecl) [decl] n = []"
  shows "parseIsolated scope parentDecl nearest decl =
    Some (concat (map (declLevel (\<lambda>d. nearest d = Some decl) (childDecls scope parentDecl) [decl]) [0..<n]))"
  using declLoop_levels[OF assms, of "[]"] by (simp add: parseIsolated_def)

section \<open>Signatures are all resolved\<close>

definition appendsOnly :: "('d, 's) resolver \<Rightarrow> nat \<Rightarrow> bool" where
  "appendsOnly r bound \<longleftrightarrow>
     (\<forall>d s. \<exists>new. parsedDeclList r (signatureStep r d s) = parsedDeclList r s @ new \<and>
        (length (parsedDeclList r s) \<le> bound \<longrightarrow> length (parsedDeclList r s @ new) \<le> bound))"

lemma appendsOnly_grows:
  assumes "appendsOnly r bound"
  shows "length (parsedDeclList r s) \<le> length (parsedDeclList r (signatureStep r d s)) \<and>
    (length (parsedDeclList r s) \<le> bound \<longrightarrow> length (parsedDeclList r (signatureStep r d s)) \<le> bound)"
proof -
  obtain new where "parsedDeclList r (signatureStep r d s) = parsedDeclList r s @ new"
      "length (parsedDeclList r s) \<le> bound \<longrightarrow> length (parsedDeclList r s @ new) \<le> bound"
    using assms unfolding appendsOnly_def by blast
  then show ?thesis
    by simp
qed

text \<open>The state after \<open>n\<close> steps from place \<open>i\<close> of the list.\<close>

fun signatureTrace :: "('d, 's) resolver \<Rightarrow> nat \<Rightarrow> nat \<Rightarrow> 's \<Rightarrow> 's" where
  "signatureTrace r i 0 s = s"
| "signatureTrace r i (Suc n) s = signatureTrace r (i + 1) n (signatureStep r (parsedDeclList r s ! i) s)"

text \<open>
  When resolving only appends to the list of declarations and there are at most \<open>bound\<close> of them, the loop over the growing
  list ends, and it has taken a step for every declaration of the final list, also for those it found on the way.
\<close>

theorem signatures_all_resolved:
  assumes "appendsOnly r bound" and "length (parsedDeclList r s) \<le> bound"
  shows "\<exists>n. resolveSignaturesForLSP r s = Some (signatureTrace r 0 n s) \<and> length (parsedDeclList r (signatureTrace r 0 n s)) = n"
proof -
  have "\<exists>n. signatureLoop r i s = Some (signatureTrace r i n s) \<and> length (parsedDeclList r (signatureTrace r i n s)) = i + n"
    if "i \<le> length (parsedDeclList r s)" "length (parsedDeclList r s) \<le> bound" for i s
    using that
  proof (induction "bound - i" arbitrary: i s rule: less_induct)
    case less
    show ?case
    proof (cases "i = length (parsedDeclList r s)")
      case True
      then have "signatureLoop r i s = Some s"
        by (subst signatureLoop.simps) simp
      then show ?thesis
        using True by (intro exI[of _ 0]) simp
    next
      case False
      let ?s = "signatureStep r (parsedDeclList r s ! i) s"
      have "length (parsedDeclList r s) \<le> length (parsedDeclList r ?s)" "length (parsedDeclList r ?s) \<le> bound"
        using appendsOnly_grows[OF assms(1), of s "parsedDeclList r s ! i"] less.prems(2) by auto
      moreover have "bound - (i + 1) < bound - i" "i + 1 \<le> length (parsedDeclList r s)"
        using less.prems False by auto
      ultimately obtain n where "signatureLoop r (i + 1) ?s = Some (signatureTrace r (i + 1) n ?s)"
          "length (parsedDeclList r (signatureTrace r (i + 1) n ?s)) = i + 1 + n"
        using less.hyps[of "i + 1" ?s] by (meson order_trans)
      then show ?thesis
        using False by (intro exI[of _ "Suc n"]) (simp add: signatureLoop.simps[of r i s])
    qed
  qed
  from this[of 0 s] show ?thesis
    using assms(2) by (simp add: resolveSignaturesForLSP_def)
qed

end
