(* ===== verification/Mojo_Driver.thy ===== *)
theory Mojo_Driver
  imports Mojo_Build Config_File
begin

text \<open>
  The entry point of the tool (\<^verbatim>\<open>Mojo/tools/mojo/mojo.cpp\<close>): what the first argument means, the version, and the
  cache that can be shown and removed.  The option parser, the configuration, the console and the file system are
  arguments; the set-up of signal handlers and crash messages is not modelled.
\<close>

section \<open>The first argument\<close>

datatype driver_option = VersionOption | VerboseOption | PrintCacheLocationOption | ClearCacheOption | DriverHelpOption | DriverHelpHiddenOption
  | DriverInput string | AnotherOption

record downstream_build =
  downstreamId :: string
  downstreamNumber :: string
  upstreamCommit :: string

record driver_env =
  versionString :: string
  versionRevision :: string
  downstream :: "downstream_build option"
  subcommands :: "string list"
  parseOneArg :: "string list \<Rightarrow> driver_option \<times> nat"
  openConfigError :: "string option"
  cacheFolder :: "string error_or"
  joinCachePath :: "string \<Rightarrow> string"
  cacheExists :: "string \<Rightarrow> bool"
  readLine :: "string option"
  removeTree :: "string \<Rightarrow> string option"

text \<open>
  How the driver ends: with an exit code, its output and the directory it removed, with the help, with an error, or in
  a command with its arguments.
\<close>

datatype driver_result =
    DriverExit int string string "string option"
  | DriverHelp bool
  | DriverError
  | RunCommand string "string list"

definition versionText :: "driver_env \<Rightarrow> string list \<Rightarrow> string" where
  "versionText e arguments =
     (case downstream e of
        None \<Rightarrow> ''Mojo '' @ versionString e @ '' ('' @ versionRevision e @ '')'' @ [CHR 0x0A]
      | Some d \<Rightarrow>
          ''Mojo '' @ versionString e @ '' ('' @ versionRevision e @ '', '' @ downstreamId d @ '' build '' @ downstreamNumber d @ '')'' @ [CHR 0x0A] @
          ''unofficial build, not a Modular release, report problems to '' @ downstreamId d @ [CHR 0x0A] @
          (if ''--verbose'' \<in> set arguments then ''built from upstream commit '' @ upstreamCommit d @ [CHR 0x0A] else []))"

section \<open>The cache\<close>

definition cachePathOf :: "driver_env \<Rightarrow> string error_or" where
  "cachePathOf e =
     (case openConfigError e of
        Some m \<Rightarrow> Inl (''error: failed to open Modular configuration: '' @ m @ [CHR 0x0A])
      | None \<Rightarrow>
          (case cacheFolder e of
             Inl m \<Rightarrow> Inl (''error: failed to resolve cache folder: '' @ m @ [CHR 0x0A])
           | Inr folder \<Rightarrow> Inr (joinCachePath e folder)))"

definition printCacheLocation :: "driver_env \<Rightarrow> driver_result" where
  "printCacheLocation e =
     (case cachePathOf e of
        Inl m \<Rightarrow> DriverExit 1 [] m None
      | Inr p \<Rightarrow> DriverExit 0 (p @ [CHR 0x0A]) [] None)"

text \<open>Whether the prompt is skipped, or the first argument that is not understood.\<close>

fun parseForce :: "string list \<Rightarrow> string + bool" where
  "parseForce [] = Inr False"
| "parseForce (a # xs) =
     (if a = ''-f'' \<or> a = ''--force'' then (case parseForce xs of Inl m \<Rightarrow> Inl m | Inr _ \<Rightarrow> Inr True)
      else Inl a)"

definition confirmed :: "string \<Rightarrow> bool" where
  "confirmed response = (map to_lower_char (trim_by is_space response) \<in> {''y'', ''yes''})"

definition removeCache :: "driver_env \<Rightarrow> string \<Rightarrow> string \<Rightarrow> driver_result" where
  "removeCache e out path =
     (case removeTree e path of
        Some m \<Rightarrow> DriverExit 1 out (''error: failed to remove '' @ path @ '': '' @ m @ [CHR 0x0A]) (Some path)
      | None \<Rightarrow> DriverExit 0 (out @ ''Removed '' @ path @ [CHR 0x0A]) [] (Some path))"

definition clearCache :: "driver_env \<Rightarrow> string list \<Rightarrow> driver_result" where
  "clearCache e rest =
     (case parseForce rest of
        Inl a \<Rightarrow> DriverExit 1 [] (''error: unexpected argument '' @ quote @ a @ quote @ '' for --clear-cache; expected '' @ quote @ ''-f'' @ quote @
          '' or '' @ quote @ ''--force'' @ quote @ ''.'' @ [CHR 0x0A]) None
      | Inr force \<Rightarrow>
     (case cachePathOf e of
        Inl m \<Rightarrow> DriverExit 1 [] m None
      | Inr path \<Rightarrow>
          if \<not> cacheExists e path then
            DriverExit 0 (''Mojo cache at '' @ path @ '' does not exist; nothing to do.'' @ [CHR 0x0A]) [] None
          else if force then removeCache e [] path
          else
            let prompt = ''This will remove the Mojo compile cache at:'' @ [CHR 0x0A] @ ''  '' @ path @ [CHR 0x0A] @ ''Proceed? [y/N] '' in
            (case readLine e of
               None \<Rightarrow> DriverExit 1 prompt (''error: failed to read confirmation; aborting.'' @ [CHR 0x0A]) None
             | Some response \<Rightarrow>
                 if \<not> confirmed response then DriverExit 0 (prompt @ ''Aborted.'' @ [CHR 0x0A]) [] None
                 else removeCache e prompt path)))"

section \<open>Dispatch\<close>

definition mojoMain :: "driver_env \<Rightarrow> string list \<Rightarrow> driver_result" where
  "mojoMain e arguments =
     (if arguments = [] then RunCommand ''repl'' arguments
      else
        case parseOneArg e arguments of
          (VersionOption, index) \<Rightarrow> DriverExit 0 (versionText e arguments) [] None
        | (VerboseOption, index) \<Rightarrow> DriverExit 1 [] (''error: --verbose is only meaningful after --version'' @ [CHR 0x0A]) None
        | (PrintCacheLocationOption, index) \<Rightarrow> printCacheLocation e
        | (ClearCacheOption, index) \<Rightarrow> clearCache e (drop index arguments)
        | (DriverHelpOption, index) \<Rightarrow> DriverHelp False
        | (DriverHelpHiddenOption, index) \<Rightarrow> DriverHelp True
        | (DriverInput arg, index) \<Rightarrow>
            if arg \<in> set (subcommands e) then RunCommand arg (drop index arguments)
            else if ends_with ''.mojo'' arg then RunCommand ''run'' arguments
            else DriverError
        | (AnotherOption, index) \<Rightarrow> RunCommand ''run'' arguments)"

section \<open>Nothing is removed by accident\<close>

lemma removeCache_result:
  "removeCache e out path = DriverExit code out' err gone \<Longrightarrow> gone = Some path \<and> (code = 0 \<longleftrightarrow> removeTree e path = None)"
  by (auto simp: removeCache_def split: option.splits)

lemma clearCache_removes:
  assumes "clearCache e rest = DriverExit code out err (Some path)"
  shows "\<exists>force. parseForce rest = Inr force \<and> (force \<or> (\<exists>response. readLine e = Some response \<and> confirmed response)) \<and>
    cachePathOf e = Inr path \<and> cacheExists e path \<and> (code = 0 \<longleftrightarrow> removeTree e path = None)"
proof -
  obtain force p where p: "parseForce rest = Inr force" "cachePathOf e = Inr p"
    using assms by (cases "parseForce rest"; cases "cachePathOf e") (simp_all add: clearCache_def)
  then have found: "cacheExists e p"
    using assms by (cases "cacheExists e p") (simp_all add: clearCache_def)
  show ?thesis
  proof (cases force)
    case True
    then show ?thesis
      using assms p found removeCache_result[of e "[]" p] by (intro exI[of _ True]) (simp add: clearCache_def)
  next
    case False
    then obtain response where "readLine e = Some response" "confirmed response"
      using assms p found by (cases "readLine e"; cases "confirmed (the (readLine e))") (simp_all add: clearCache_def Let_def)
    then show ?thesis
      using assms p found False removeCache_result by (fastforce simp: clearCache_def Let_def)
  qed
qed

text \<open>
  A directory is removed only when the first argument asks for it, everything behind it is understood, and either the
  prompt was skipped or answered with yes; and what is removed is the cache of the configuration, nothing else.
\<close>

theorem cache_removed_on_request:
  assumes "mojoMain e arguments = DriverExit code out err (Some path)"
  shows "(\<exists>index force. parseOneArg e arguments = (ClearCacheOption, index) \<and> parseForce (drop index arguments) = Inr force \<and>
      (force \<or> (\<exists>response. readLine e = Some response \<and> confirmed response))) \<and>
    cachePathOf e = Inr path \<and> cacheExists e path \<and> (code = 0 \<longleftrightarrow> removeTree e path = None)"
proof -
  obtain index where index: "parseOneArg e arguments = (ClearCacheOption, index)" "clearCache e (drop index arguments) = DriverExit code out err (Some path)"
    using assms by (auto simp: mojoMain_def printCacheLocation_def split: if_splits prod.splits driver_option.splits sum.splits)
  then show ?thesis
    using clearCache_removes[OF index(2)] by blast
qed

lemma parseForce_exact:
  "parseForce xs =
     (if set xs \<subseteq> {''-f'', ''--force''} then Inr (xs \<noteq> []) else Inl (hd (dropWhile (\<lambda>x. x \<in> {''-f'', ''--force''}) xs)))"
  by (induction xs) simp_all

text \<open>A program is run with its arguments whole, and a command gets what stands behind its name.\<close>

theorem program_name_runs:
  assumes "parseOneArg e (file # args) = (DriverInput file, 1)" and "file \<notin> set (subcommands e)" and "ends_with ''.mojo'' file"
  shows "mojoMain e (file # args) = RunCommand ''run'' (file # args)"
  using assms by (simp add: mojoMain_def)

end
