(* ===== verification/Python_Library.thy ===== *)
theory Python_Library
  imports Config_File
begin

text \<open>
  How a program finds the library of CPython (\<^verbatim>\<open>Mojo/lib/CompilerRT/Python.cpp\<close>).  The environment, the search on the path,
  the file system and what an interpreter prints for the script are arguments.
\<close>

section \<open>The search\<close>

record python_env =
  pyWindows :: bool
  pyGetEnv :: "string \<Rightarrow> string option"
  pyRegularFile :: "string \<Rightarrow> bool"
  pyFindProgram :: "string \<Rightarrow> string option"
  pyScriptOutput :: "string \<Rightarrow> string option"
  pySetEnv :: "string \<Rightarrow> string \<Rightarrow> bool"

text \<open>What the script printed, without white space; \<open>None\<close> when there is no file for the output.\<close>

definition findLibPython :: "python_env \<Rightarrow> string \<Rightarrow> string option" where
  "findLibPython e pythonBin = map_option (filter (\<lambda>c. \<not> is_space c)) (pyScriptOutput e pythonBin)"

definition pythonProgramNames :: "python_env \<Rightarrow> string list" where
  "pythonProgramNames e = (if pyWindows e then [''python'', ''python3''] else [''python3'', ''python''])"

definition isUsableLibPython :: "python_env \<Rightarrow> string option \<Rightarrow> bool" where
  "isUsableLibPython e libpython =
     (case libpython of None \<Rightarrow> False | Some l \<Rightarrow> if pyWindows e then l \<noteq> [] else True)"

fun tryPrograms :: "python_env \<Rightarrow> string list \<Rightarrow> string \<Rightarrow> string option \<Rightarrow> string \<times> string option" where
  "tryPrograms e [] pythonBin libpython = (pythonBin, libpython)"
| "tryPrograms e (name # names) pythonBin libpython =
     (case pyFindProgram e name of
        None \<Rightarrow> tryPrograms e names pythonBin libpython
      | Some found \<Rightarrow>
          if libpython \<noteq> None then (found, libpython)
          else if isUsableLibPython e (findLibPython e found) then (found, findLibPython e found)
          else tryPrograms e names found libpython)"

text \<open>The message, empty for success, and the variables that were set.\<close>

definition finishPython :: "python_env \<Rightarrow> (string \<times> string) list \<Rightarrow> string option \<Rightarrow> string \<times> (string \<times> string) list" where
  "finishPython e vars libpython =
     (case libpython of
        None \<Rightarrow> (''found no suitable Python library to link to'', vars)
      | Some l \<Rightarrow>
          if \<not> isUsableLibPython e libpython \<or> (l \<noteq> [] \<and> \<not> pyRegularFile e l) then
            (''found no suitable Python library to link to'', vars)
          else if \<not> pySetEnv e ''MOJO_PYTHON_LIBRARY'' l then (''cannot set `MOJO_PYTHON_LIBRARY`'', vars)
          else ([], vars @ [(''MOJO_PYTHON_LIBRARY'', l)]))"

definition setPythonPath :: "python_env \<Rightarrow> string \<times> (string \<times> string) list" where
  "setPythonPath e =
     (let pythonBin = (case pyGetEnv e ''MOJO_PYTHON'' of Some v \<Rightarrow> v | None \<Rightarrow> []);
          libpython = pyGetEnv e ''MOJO_PYTHON_LIBRARY'' in
      if pythonBin \<noteq> [] \<and> \<not> pyRegularFile e pythonBin then (''`MOJO_PYTHON` is not set to a file path.'', [])
      else
        (case (if pythonBin \<noteq> [] then (pythonBin, if libpython = None then findLibPython e pythonBin else libpython)
               else tryPrograms e (pythonProgramNames e) pythonBin libpython) of
           (pythonBin, libpython) \<Rightarrow>
             if pythonBin \<noteq> [] then
               if \<not> pySetEnv e ''PYTHONEXECUTABLE'' pythonBin then (''cannot set `PYTHONEXECUTABLE` to'', [])
               else finishPython e [(''PYTHONEXECUTABLE'', pythonBin)] libpython
             else finishPython e [] libpython))"

section \<open>The first interpreter that leads to a library\<close>

lemma tryPrograms_first:
  assumes "pyFindProgram e name = Some found" and "isUsableLibPython e (findLibPython e found)"
    and "\<forall>n\<in>set before. case pyFindProgram e n of None \<Rightarrow> True | Some p \<Rightarrow> \<not> isUsableLibPython e (findLibPython e p)"
  shows "tryPrograms e (before @ name # names) pythonBin None = (found, findLibPython e found)"
  using assms(3)
proof (induction before arbitrary: pythonBin)
  case Nil
  then show ?case
    using assms(1,2) by simp
next
  case (Cons n before)
  then show ?case
    by (cases "pyFindProgram e n") simp_all
qed

text \<open>
  On Windows a program called python that is not an interpreter, such as the stub of the store, is passed over: when it
  prints nothing and \<^verbatim>\<open>python3\<close> prints the path of a file, that file is the library and \<^verbatim>\<open>python3\<close> the executable.
\<close>

theorem store_stub_skipped:
  assumes "pyWindows e" and "pyGetEnv e ''MOJO_PYTHON'' = None" and "pyGetEnv e ''MOJO_PYTHON_LIBRARY'' = None"
    and "pyFindProgram e ''python'' = Some stub" and "pyScriptOutput e stub = Some []"
    and "pyFindProgram e ''python3'' = Some py" and "py \<noteq> []" and "pyScriptOutput e py = Some (lib @ [CHR 0x0D, CHR 0x0A])"
    and "lib \<noteq> []" and "list_all (\<lambda>c. \<not> is_space c) lib" and "pyRegularFile e lib" and "\<And>k v. pySetEnv e k v"
  shows "setPythonPath e = ([], [(''PYTHONEXECUTABLE'', py), (''MOJO_PYTHON_LIBRARY'', lib)])"
proof -
  have lib: "findLibPython e py = Some lib"
    using assms(8,10) by (simp add: findLibPython_def is_space_def is_newline_def list_all_iff filter_id_conv)
  moreover have stub: "findLibPython e stub = Some []"
    using assms(5) by (simp add: findLibPython_def)
  ultimately have "tryPrograms e [''python'', ''python3''] [] None = (py, Some lib)"
    using tryPrograms_first[of e "''python3''" py "[''python'']" "[]" "[]"] assms by (simp add: isUsableLibPython_def)
  then show ?thesis
    using assms by (simp add: setPythonPath_def pythonProgramNames_def finishPython_def isUsableLibPython_def)
qed

text \<open>
  White space is removed everywhere and not only at the end, so a library below a directory with a space in its name is not
  found although the interpreter names it and the file is there.
\<close>

theorem library_below_space_lost:
  assumes "pyWindows e" and "pyGetEnv e ''MOJO_PYTHON'' = None" and "pyGetEnv e ''MOJO_PYTHON_LIBRARY'' = None"
    and "pyFindProgram e ''python'' = Some py" and "py \<noteq> []" and "pyFindProgram e ''python3'' = None" and "\<And>k v. pySetEnv e k v"
    and "pyScriptOutput e py = Some (''C:/Program Files/Python314/python314.dll'' @ [CHR 0x0D, CHR 0x0A])"
    and "pyRegularFile e = (\<lambda>f. f = ''C:/Program Files/Python314/python314.dll'')"
  shows "setPythonPath e = (''found no suitable Python library to link to'', [(''PYTHONEXECUTABLE'', py)])"
proof -
  have "findLibPython e py = Some ''C:/ProgramFiles/Python314/python314.dll''"
    using assms(8) by (simp add: findLibPython_def is_space_def is_newline_def)
  then show ?thesis
    using assms by (simp add: setPythonPath_def pythonProgramNames_def finishPython_def isUsableLibPython_def)
qed

end
