(* ===== verification/Binary_Id.thy ===== *)
theory Binary_Id
  imports Mojo_Prelude "HOL-Library.Word"
begin

unbundle bit_operations_syntax

text \<open>
  The identity of the running binary, on which caches depend (\<^verbatim>\<open>Support/lib/BinaryID.cpp\<close>): the build id note of an ELF image,
  the CodeView entry of a Windows image with its fallback, and the suffix for another toolchain.  The image in memory
  and the hash are arguments; the Apple arm is not modelled.
\<close>

section \<open>Printing\<close>

definition lowerHexDigit :: "nat \<Rightarrow> char" where
  "lowerHexDigit d = ''0123456789abcdef'' ! d"

function hexDigitsOf :: "nat \<Rightarrow> string" where
  "hexDigitsOf n = (if n < 16 then [lowerHexDigit n] else hexDigitsOf (n div 16) @ [lowerHexDigit (n mod 16)])"
  by pat_completeness auto
termination hexDigitsOf
  by (relation "measure (\<lambda>n. n)") auto

declare hexDigitsOf.simps [simp del]

text \<open>The formats \<^verbatim>\<open>%x\<close>, \<^verbatim>\<open>%02x\<close> and \<^verbatim>\<open>%08x\<close>.\<close>

definition formatHex :: "nat \<Rightarrow> nat \<Rightarrow> string" where
  "formatHex width n = replicate (width - length (hexDigitsOf n)) CHR ''0'' @ hexDigitsOf n"

definition formatBytes :: "8 word list \<Rightarrow> string" where
  "formatBytes bs = concat (map (\<lambda>b. formatHex 2 (unat b)) bs)"

definition toolchainPostfix :: "(string \<Rightarrow> 8 word list) \<Rightarrow> string option \<Rightarrow> string" where
  "toolchainPostfix xxh128 compilerPath = (case compilerPath of Some p \<Rightarrow> ''-'' @ formatBytes (xxh128 p) | None \<Rightarrow> [])"

section \<open>ELF\<close>

definition RoundUpTo :: "64 word \<Rightarrow> 64 word \<Rightarrow> 64 word" where
  "RoundUpTo n boundary = (n + boundary - 1) AND (NOT (boundary - 1))"

definition read32 :: "(nat \<Rightarrow> 8 word) \<Rightarrow> nat \<Rightarrow> nat" where
  "read32 mem a = unat (mem a) + 256 * (unat (mem (a + 1)) + 256 * (unat (mem (a + 2)) + 256 * unat (mem (a + 3))))"

definition readBytes :: "(nat \<Rightarrow> 8 word) \<Rightarrow> nat \<Rightarrow> nat \<Rightarrow> 8 word list" where
  "readBytes mem a n = map mem [a..<a + n]"

text \<open>A note is three words, its name and its description, each padded to a multiple of four.\<close>

function noteLoop :: "(nat \<Rightarrow> 8 word) \<Rightarrow> nat \<Rightarrow> nat \<Rightarrow> string option" where
  "noteLoop mem note notesEnd =
     (if note < notesEnd then
        let payload = 12 + unat (RoundUpTo (word_of_nat (read32 mem note)) 4);
            descsz = read32 mem (note + 4) in
        if read32 mem (note + 8) = 3 then Some (formatBytes (readBytes mem (note + payload) descsz))
        else noteLoop mem (note + payload + unat (RoundUpTo (word_of_nat descsz) 4)) notesEnd
      else None)"
  by pat_completeness auto
termination noteLoop
  by (relation "measure (\<lambda>(_, note, notesEnd). notesEnd - note)") auto

declare noteLoop.simps [simp del]

datatype segment_type = PhdrSegment | NoteSegment | OtherSegment nat

record program_header =
  segmentType :: segment_type
  segmentVaddr :: int
  segmentMemsz :: nat

definition imageBase :: "int \<Rightarrow> program_header list \<Rightarrow> int" where
  "imageBase programHeader phs = fold (\<lambda>ph base. if segmentType ph = PhdrSegment then programHeader - segmentVaddr ph else base) phs 0"

fun findBuildId :: "(nat \<Rightarrow> 8 word) \<Rightarrow> int \<Rightarrow> program_header list \<Rightarrow> string option" where
  "findBuildId mem base [] = None"
| "findBuildId mem base (ph # phs) =
     (if segmentType ph \<noteq> NoteSegment then findBuildId mem base phs
      else
        let note = nat (base + segmentVaddr ph) in
        (case noteLoop mem note (note + segmentMemsz ph) of
           Some s \<Rightarrow> Some s
         | None \<Rightarrow> findBuildId mem base phs))"

text \<open>\<open>None\<close> is an image without a note, which the program takes to be impossible.\<close>

definition elfBinaryID :: "string \<Rightarrow> (nat \<Rightarrow> 8 word) \<Rightarrow> int \<Rightarrow> program_header list \<Rightarrow> string option" where
  "elfBinaryID postfix mem programHeader phs = map_option (\<lambda>s. s @ postfix) (findBuildId mem (imageBase programHeader phs) phs)"

section \<open>Windows\<close>

record debug_entry =
  isCodeView :: bool
  rsdsSignature :: nat
  rsdsGuid :: "8 word list"
  rsdsAge :: nat

record pe_image =
  debugAddress :: nat
  debugDirSize :: nat
  debugEntries :: "nat \<Rightarrow> debug_entry"
  timeDateStamp :: nat
  sizeOfImage :: nat

definition kRSDS :: nat where
  "kRSDS = 0x53445352"

definition sizeofDebugDirectory :: nat where
  "sizeofDebugDirectory = 28"

definition codeViewId :: "debug_entry \<Rightarrow> string" where
  "codeViewId d = formatBytes (rsdsGuid d) @ formatHex 0 (rsdsAge d)"

definition windowsBinaryID :: "string \<Rightarrow> pe_image \<Rightarrow> string" where
  "windowsBinaryID postfix img =
     (case (if debugAddress img \<noteq> 0 then
              find (\<lambda>d. isCodeView d \<and> rsdsSignature d = kRSDS) (map (debugEntries img) [0..<debugDirSize img div sizeofDebugDirectory])
            else None) of
        Some d \<Rightarrow> codeViewId d @ postfix
      | None \<Rightarrow> formatHex 8 (timeDateStamp img) @ formatHex 8 (sizeOfImage img) @ postfix)"

section \<open>Hexadecimal text\<close>

text \<open>The number that hexadecimal text stands for.\<close>

definition hexDigitValue :: "char \<Rightarrow> nat" where
  "hexDigitValue c = the (map_of (zip ''0123456789abcdef'' [0..<16]) c)"

definition hexValue :: "string \<Rightarrow> nat" where
  "hexValue s = foldl (\<lambda>n c. n * 16 + hexDigitValue c) 0 s"

lemma hexDigitValue_digit: "d < 16 \<Longrightarrow> hexDigitValue (lowerHexDigit d) = d"
proof -
  have "list_all (\<lambda>d. hexDigitValue (lowerHexDigit d) = d) [0..<16]"
    by code_simp
  then show "d < 16 \<Longrightarrow> hexDigitValue (lowerHexDigit d) = d"
    by (simp add: list_all_iff)
qed

lemma hexValue_digits: "hexValue (hexDigitsOf n) = n"
  by (induction n rule: hexDigitsOf.induct)
    (subst hexDigitsOf.simps, simp add: hexValue_def hexDigitValue_digit)

lemma hexValue_formatHex: "hexValue (formatHex w n) = n"
proof -
  have zero: "hexDigitValue CHR ''0'' = 0"
    by code_simp
  have "foldl (\<lambda>n c. n * 16 + hexDigitValue c) 0 (replicate k CHR ''0'') = 0" for k
    by (induction k) (simp_all add: zero)
  then show ?thesis
    using hexValue_digits[of n] by (simp add: formatHex_def hexValue_def)
qed

lemma formatHex_byte: "length (formatHex 2 (unat (b :: 8 word))) = 2"
proof -
  have "unat b < 256"
    using unsigned_less[of b, where ?'a = nat] by simp
  then have "length (hexDigitsOf (unat b)) \<le> 2"
    by (simp add: hexDigitsOf.simps[of "unat b"] hexDigitsOf.simps[of "unat b div 16"] less_mult_imp_div_less)
  then show ?thesis
    by (simp add: formatHex_def)
qed

lemma formatBytes_inj: "length as = length bs \<Longrightarrow> formatBytes as @ x = formatBytes bs @ y \<Longrightarrow> as = bs \<and> x = y"
proof (induction as bs rule: list_induct2)
  case Nil
  then show ?case
    by (simp add: formatBytes_def)
next
  case (Cons a as b bs)
  then have "formatHex 2 (unat a) = formatHex 2 (unat b) \<and> formatBytes as @ x = formatBytes bs @ y"
    by (simp add: formatBytes_def formatHex_byte append_eq_append_conv)
  then show ?case
    using Cons.IH hexValue_formatHex by (metis unsigned_word_eqI)
qed

text \<open>
  Two Windows images with debug information have the same identity only if they have the same GUID and age, so a cache is never
  shared between two links.
\<close>

theorem codeview_identity_exact:
  assumes "length (rsdsGuid a) = 16" and "length (rsdsGuid b) = 16" and "codeViewId a @ postfix = codeViewId b @ postfix"
  shows "rsdsGuid a = rsdsGuid b \<and> rsdsAge a = rsdsAge b"
  using formatBytes_inj[of "rsdsGuid a" "rsdsGuid b" "formatHex 0 (rsdsAge a)" "formatHex 0 (rsdsAge b)"] assms
  by (simp add: codeViewId_def) (metis hexValue_formatHex)

section \<open>Notes\<close>

lemma RoundUpTo_4:
  assumes "n < 2 ^ 32"
  shows "unat (RoundUpTo (word_of_nat n) 4) = (n + 3) div 4 * 4"
proof -
  define w :: "64 word" where "w = word_of_nat (n + 3)"
  have shift: "Suc (Suc (k - 2)) = k" if "2 \<le> k" for k :: nat
    using that by arith
  have "unat w = n + 3"
    using assms by (simp only: w_def unsigned_of_nat) (simp add: take_bit_nat_eq_self)
  moreover have "RoundUpTo (word_of_nat n) 4 = w AND NOT (mask 2)"
    by (simp add: RoundUpTo_def w_def mask_eq_exp_minus_1 add.commute)
  moreover have "w AND NOT (mask 2) = push_bit 2 (drop_bit 2 w)"
    by (rule bit_eqI) (auto simp: bit_simps not_less shift)
  moreover have "unat (push_bit 2 (drop_bit 2 w)) = take_bit 64 (push_bit 2 (drop_bit 2 (take_bit 64 (unat w))))"
    by (simp only: unsigned_push_bit_eq unsigned_drop_bit_eq) simp
  ultimately show ?thesis
    using assms by (simp add: take_bit_nat_eq_self drop_bit_eq_div push_bit_eq_mult)
qed

definition le32 :: "nat \<Rightarrow> 8 word list" where
  "le32 n = map word_of_nat [n, n div 256, n div 65536, n div 16777216]"

definition padded :: "8 word list \<Rightarrow> 8 word list" where
  "padded bs = bs @ replicate ((length bs + 3) div 4 * 4 - length bs) 0"

fun encodeNote :: "nat \<times> 8 word list \<times> 8 word list \<Rightarrow> 8 word list" where
  "encodeNote (t, name, desc) = le32 (length name) @ le32 (length desc) @ le32 t @ padded name @ padded desc"

definition memoryHolds :: "(nat \<Rightarrow> 8 word) \<Rightarrow> nat \<Rightarrow> 8 word list \<Rightarrow> bool" where
  "memoryHolds mem a bs \<longleftrightarrow> readBytes mem a (length bs) = bs"

lemma readBytes_append: "readBytes mem a (m + n) = readBytes mem a m @ readBytes mem (a + m) n"
proof -
  have "[a..<a + (m + n)] = [a..<a + m] @ [a + m..<a + m + n]"
    using upt_add_eq_append[of a "a + m" n] by (simp add: add.assoc)
  then show ?thesis
    by (simp add: readBytes_def)
qed

lemma length_readBytes [simp]: "length (readBytes mem a n) = n"
  by (simp add: readBytes_def)

lemma memoryHolds_append: "memoryHolds mem a (xs @ ys) \<longleftrightarrow> memoryHolds mem a xs \<and> memoryHolds mem (a + length xs) ys"
  by (simp add: memoryHolds_def readBytes_append append_eq_append_conv)

lemma length_encode [simp]: "length (le32 n) = 4" "length (padded bs) = (length bs + 3) div 4 * 4"
proof -
  have "length bs \<le> (length bs + 3) div 4 * 4"
    by presburger
  then show "length (padded bs) = (length bs + 3) div 4 * 4"
    by (simp add: padded_def)
qed (simp add: le32_def)

lemma read32_le32:
  assumes "memoryHolds mem a (le32 n)" and "n < 2 ^ 32"
  shows "read32 mem a = n"
proof -
  have "[a..<a + 4] = [a, a + 1, a + 2, a + 3]"
    by (simp add: upt_rec numeral_eq_Suc)
  then have "mem a = word_of_nat n" "mem (a + 1) = word_of_nat (n div 256)" "mem (a + 2) = word_of_nat (n div 65536)"
      "mem (a + 3) = word_of_nat (n div 16777216)"
    using assms(1) by (simp_all add: memoryHolds_def readBytes_def le32_def numeral_3_eq_3)
  then have "read32 mem a = n mod 256 + 256 * (n div 256 mod 256 + 256 * (n div 65536 mod 256 + 256 * (n div 16777216 mod 256)))"
    by (simp add: read32_def unsigned_of_nat take_bit_eq_mod)
  also have "\<dots> = n"
    using assms(2) by (simp add: div_mult2_eq[of n 256 256, simplified] div_mult2_eq[of n 65536 256, simplified] mod_less_eq_dividend)
  finally show ?thesis .
qed

lemma noteLoop_step:
  assumes "memoryHolds mem a (encodeNote (t, name, desc))" and "a < stop" and "length name < 2 ^ 32" and "length desc < 2 ^ 32" and "t < 2 ^ 32"
  shows "noteLoop mem a stop = (if t = 3 then Some (formatBytes desc) else noteLoop mem (a + length (encodeNote (t, name, desc))) stop)"
proof -
  let ?n = "(length name + 3) div 4 * 4" and ?d = "(length desc + 3) div 4 * 4"
  have parts: "memoryHolds mem a (le32 (length name))" "memoryHolds mem (a + 4) (le32 (length desc))" "memoryHolds mem (a + 8) (le32 t)"
      "memoryHolds mem (a + 12 + ?n) (padded desc)"
    using assms(1) by (simp_all add: memoryHolds_append add.assoc)
  then have "memoryHolds mem (a + 12 + ?n) desc"
    by (simp add: padded_def memoryHolds_append)
  then have "readBytes mem (a + (12 + ?n)) (length desc) = desc"
    by (simp add: memoryHolds_def add.assoc)
  then show ?thesis
    using read32_le32[OF parts(1)] read32_le32[OF parts(2)] read32_le32[OF parts(3)] assms RoundUpTo_4[of "length name"] RoundUpTo_4[of "length desc"]
    by (subst noteLoop.simps) (simp add: add.assoc)
qed

text \<open>
  In a segment of notes the first one with the type of a build id is found, whatever notes stand in front of it, and its
  description is printed byte for byte; the name of the note is not looked at.
\<close>

theorem build_id_found:
  assumes "memoryHolds mem a (concat (map encodeNote before) @ encodeNote (3, name, desc))"
    and "a + length (concat (map encodeNote before) @ encodeNote (3, name, desc)) \<le> stop"
    and "\<forall>(t, n, d)\<in>set before. t \<noteq> 3 \<and> t < 2 ^ 32 \<and> length n < 2 ^ 32 \<and> length d < 2 ^ 32"
    and "length name < 2 ^ 32" and "length desc < 2 ^ 32"
  shows "noteLoop mem a stop = Some (formatBytes desc)"
  using assms(1-3)
proof (induction before arbitrary: a)
  case Nil
  then show ?case
    using noteLoop_step[of mem a 3 name desc stop] assms(4,5) by simp
next
  case (Cons x before)
  obtain t n d where x: "x = (t, n, d)"
    by (cases x)
  have "memoryHolds mem a (encodeNote (t, n, d))"
    "memoryHolds mem (a + length (encodeNote (t, n, d))) (concat (map encodeNote before) @ encodeNote (3, name, desc))"
    using Cons.prems(1) unfolding x by (simp_all only: list.map concat.simps append_assoc memoryHolds_append[of mem a "encodeNote (t, n, d)"])
  moreover have "a < stop" "a + length (encodeNote (t, n, d)) + length (concat (map encodeNote before) @ encodeNote (3, name, desc)) \<le> stop"
    using Cons.prems(2) x by simp_all
  ultimately show ?case
    using noteLoop_step[of mem a t n d stop] Cons.IH[of "a + length (encodeNote (t, n, d))"] Cons.prems(3) x by simp
qed

end
