(* ===== verification/Spec2Isabelle.thy ===== *)
theory Spec2Isabelle
  imports Struct_Lowering Union_Lowering Variant_Packing Cabi_Rewrite Param_Conversion Mojo_Build
    Xlinker_Resolution Mojo_Config Pop_Memory Cpu_Cache Thread_Support File_Locking
    Closure_Lowering Object_Sharing Rpc_Client Execution_Engine Precompile Mojo_Run
    Parser_Driver Mojo_Driver Python_Library Binary_Id
begin

text \<open>
  A verification of the C++ code that the Windows port of Mojo adds to or replaces in the compiler, its tools and its
  runtime support (the files below \<^verbatim>\<open>src/overlay\<close>).

  \<^bold>\<open>The program.\<close>  A Mojo program goes through these parts.  A tool reads its configuration
  (\<^verbatim>\<open>Support/lib/Configuration.cpp\<close>, \<^verbatim>\<open>Mojo/lib/Support/Configuration.cpp\<close>) and its options
  (\<^verbatim>\<open>CompilationOptions.cpp\<close>), and its driver (\<^verbatim>\<open>mojo.cpp\<close>) starts a command.  The parser, which is not part of the sources,
  makes a module (\<^verbatim>\<open>ParserDriver.cpp\<close>); the folders and interpreters of the POP dialect (\<^verbatim>\<open>POPOpsFolders.cpp\<close>) evaluate what is
  constant; the lowering to LLVM converts types, constants, interpreter memory, closures and function signatures
  (\<^verbatim>\<open>Mojo/lib/KGENToLLVM\<close>); the object compiler (\<^verbatim>\<open>ObjectCompiler.cpp\<close>) turns the module into archives, kernels and shared
  objects on several threads; \<^verbatim>\<open>mojo build\<close> links them, \<^verbatim>\<open>mojo run\<close> hands them to the execution engine (\<^verbatim>\<open>ExecutionEngine.cpp\<close>),
  \<^verbatim>\<open>mojo precompile\<close> writes packages, and \<^verbatim>\<open>mojo debug\<close> asks an editor to start a session (\<^verbatim>\<open>RPCClient.cpp\<close>).  Below them are the
  helpers for files, locks, threads and hardware (\<^verbatim>\<open>Support/lib\<close>, \<^verbatim>\<open>AsyncRT/lib\<close>).

  \<^bold>\<open>How it is modelled.\<close>  A C++ function is a HOL function with the name of the source, a struct a record, an enumeration a
  datatype.  A function that reports an error returns \<open>error_or\<close>, with the message in \<open>Inl\<close>; where the code asserts, aborts,
  throws or leaves an array, there is a value for it.  State is passed and returned.  Machine integers are words, or
  numbers with the width written out.  LLVM, MLIR, ORC, the JSON library and the operating system are arguments, collected in
  records; what a proof needs of them is a named hypothesis, and its witness gives a concrete instance.

  \<^bold>\<open>Shared vocabulary.\<close>  \<open>Mojo_Prelude\<close> has results, rounding up, strings and data types, with the collections of
  simplification rules; \<open>Text_Numbers\<close> prints and parses decimal numbers.

  \<^bold>\<open>Types and constants\<close> (\<^verbatim>\<open>LLVMLoweringUtils.cpp\<close>).
  \<^item> \<open>LLVM_Layout\<close>: the size and alignment queries of \<^verbatim>\<open>LLVMDataLayout\<close>.  The locale \<open>data_layout\<close> states what LLVM documents about a
  target, and is interpreted on the layout of 64-bit Windows.
  \<^item> \<open>Type_Conversion\<close>, \<open>Struct_Lowering\<close>, \<open>Union_Lowering\<close>: \<^verbatim>\<open>POPToLLVMTypeConverter\<close>.  Every field of a lowered struct is where
  KGEN computes it to be, found through the field index cache, when LLVM lays it out with its own sizes and alignments, as long as
  these give every element the size it has in KGEN (a vector of booleans breaks this); a lowered union is its payload rounded up and holds
  every member, and its size assertion holds exactly when nothing is rounded (locale \<open>byte_layout\<close>, which extends \<open>data_layout\<close>).
  \<^item> \<open>Variant_Packing\<close>: \<^verbatim>\<open>VariantHelper\<close>.  The bits of every leaf of a constant union can be read back from its storage.
  \<^item> \<open>Interp_Memory\<close>, \<open>Blob_Stores\<close>: \<^verbatim>\<open>InterpreterMemoryConverter\<close>.  Exactly the reachable blobs are materialized, this ends also for cyclic
  memory, and the stores rebuild every blob byte for byte.
  \<^item> \<open>Param_Conversion\<close>: \<^verbatim>\<open>convertParameterToLLVM\<close> and its helpers.  A constant has the type of its attribute.

  \<^bold>\<open>Calling conventions and closures.\<close>
  \<^item> \<open>Cabi_Lowering\<close> (\<^verbatim>\<open>CABILowering.cpp\<close>, \<^verbatim>\<open>CABIWin64.cpp\<close>): a Win64 signature is classified by the documented rule.
  \<^item> \<open>Cabi_Rewrite\<close> (\<^verbatim>\<open>LowerKGENToLLVMRewriteCABIFns.cpp\<close>): the rewrite succeeds on every well-formed definition, the emitted code gives
  the body the arguments of the caller and the caller the result.
  \<^item> \<open>Closure_Lowering\<close> (\<^verbatim>\<open>LowerKGENClosuresToLLVM.cpp\<close>): a lowered call of a lowered closure calls its function with the captured values.

  \<^bold>\<open>The POP dialect\<close> (\<^verbatim>\<open>POPOpsFolders.cpp\<close>).  \<open>Pop_Values\<close> gives values and operations a meaning.  \<open>Pop_Arith\<close>, \<open>Pop_Casts\<close>, \<open>Pop_Vectors\<close>
  and \<open>Pop_Memory\<close> hold the folders, canonicalizations and interpreters; whatever a folder returns has the value of the operation, the
  rewrites keep the value (for chains of casts this is proved between integers of fixed width), the interpreters compute it, bit casts
  can be undone, and a folded load gives what the memory holds.

  \<^bold>\<open>The object compiler\<close> (\<^verbatim>\<open>ObjectCompiler.cpp\<close>).  \<open>Compilation_Options\<close> has the options and their text.  \<open>Object_Modules\<close> has what is done to LLVM
  modules, \<open>Object_Pipeline\<close> the passes and the tasks of the splits with the set of claimed functions (locale \<open>deduplication\<close>,
  interpreted on \<open>dedupFunctions\<close>), \<open>Object_Archive\<close> archives and their cache keys, \<open>Object_Offload\<close> kernels, \<open>Object_Sharing\<close> creation and
  shared objects.  Tasks take turns in any order, given as a list of task numbers: no function is claimed by two splits,
  the module is not used after it was erased, a bundle holds every kernel in every kind, a shared object is what the linker wrote.

  \<^bold>\<open>Configuration.\<close>  \<open>Config_File\<close> and \<open>Config_Paths\<close> (\<^verbatim>\<open>Support/lib/Configuration.cpp\<close>), \<open>Bazel_Runfiles\<close> (\<^verbatim>\<open>BazelRunfiles.cpp\<close>) and \<open>Mojo_Config\<close>
  (\<^verbatim>\<open>Mojo/lib/Support/Configuration.cpp\<close>): a printed file parses to its settings, the file is read once by each shared library of a
  process, each of which has its own function-local statics beside the overrides they share, lookups follow their precedence, and getters do not disturb each other (locale \<open>settings\<close>, interpreted on the configuration).

  \<^bold>\<open>Commands.\<close>
  \<^item> \<open>Mojo_Driver\<close> (\<^verbatim>\<open>mojo.cpp\<close>): nothing but the cache is removed, and only on request.
  \<^item> \<open>Mojo_Build\<close>, \<open>Windows_Manifest\<close> (\<^verbatim>\<open>mojo-build.cpp\<close>): success means that the compiled archive was linked; a reader of resources finds the manifest.
  \<^item> \<open>Mojo_Run\<close>, \<open>Xlinker_Resolution\<close> (\<^verbatim>\<open>mojo-run.cpp\<close>, \<^verbatim>\<open>XlinkerResolution.cpp\<close>): success means that \<^verbatim>\<open>main\<close> was called with the
  arguments behind the program and returned zero; every library that is loaded exists.
  \<^item> \<open>Execution_Engine\<close>: the order in which the references of a program are resolved on each platform, under the hypothesis
  \<open>first_match\<close> on ORC; the search order of programs; the removal of unwind tables.
  \<^item> \<open>Precompile\<close> (\<^verbatim>\<open>mojo-precompile.cpp\<close>): the loop over a worklist with insertion points builds the recursive copy of a package; names and renaming.
  \<^item> \<open>Rpc_Client\<close>: a response is read whole however it is cut; all windows of different times are offered, the most recent first.
  \<^item> \<open>Parser_Driver\<close>: how a path becomes an import; declarations are resolved level by level.

  \<^bold>\<open>Host support.\<close>  \<open>Cpu_Topology\<close>, \<open>Cpu_Limits\<close>, \<open>Numa_Topology\<close> (\<^verbatim>\<open>HWInfo.cpp\<close>), \<open>Cpu_Cache\<close> (\<^verbatim>\<open>CPUCache.cpp\<close>), \<open>Thread_Support\<close> (\<^verbatim>\<open>ThreadAffinity.cpp\<close>,
  \<^verbatim>\<open>Semaphore.cpp\<close>), \<open>File_Locking\<close> (\<^verbatim>\<open>FileSystemExtras.cpp\<close>), \<open>Python_Library\<close> (\<^verbatim>\<open>Python.cpp\<close>), \<open>Binary_Id\<close> (\<^verbatim>\<open>BinaryID.cpp\<close>): texts of the kernel
  are read back exactly, limits do not overflow, threads get distinct processors, what a locked operation answers is told for every sequence of
  attempts, temporary files are released except for the descriptor on Windows, the build id is found behind any other notes.

  \<^bold>\<open>This theory\<close> composes parts: from the configuration to the linker command of \<^verbatim>\<open>mojo build\<close>, and from the configuration to
  the libraries that \<^verbatim>\<open>mojo run\<close> loads.

  \<^bold>\<open>Loops.\<close>  A loop that the source bounds is a recursive function with a termination proof.  A loop that may run for ever is a
  \<open>partial_function\<close> into \<open>option\<close>, where \<open>None\<close> is not returning: the lock loop, waiting for a semaphore, the search for preferred
  processors, repeating array elements, splitting a text at a separator, receiving a response, and the loops of the parser driver.  That they return
  is proved under the condition that makes them return (for the lock that at last an attempt is neither an error nor finds the owner dead,
  or that there are 1002 errors; for a response that the separator comes); where they do not, that is proved too.  For the tasks of the object compiler the list
  of turns is the only bound.  The nested tasks of one split are one turn each, and waiting for them is not a state of its own.

  \<^bold>\<open>Defects.\<close>  Where the code does not do what it says, a theorem states what it does, for example for two windows of one age
  (\<open>Rpc_Client\<close>), a module with the name of its package (\<open>Precompile\<close>), a library below a directory with a space (\<open>Python_Library\<close>), or
  kernels whose libraries cannot be linked (\<open>Object_Offload\<close>).

  \<^bold>\<open>Not modelled.\<close>  Passes, code generation and the parser, which are not in the sources; floating point arithmetic beyond
  what the folders need; the arms for Apple systems; logs, time traces, telemetry, crash reporting and signal handlers
  (\<^verbatim>\<open>TelemetryContext.cpp\<close>, \<^verbatim>\<open>CrashReporting.cpp\<close>, \<^verbatim>\<open>DevelopmentSignalHandler.cpp\<close>), which only call the network, the operating system or a
  library; the entry points of the compiler runtime that hand their arguments to the C library (\<^verbatim>\<open>System.cpp\<close>); small wrappers of system
  calls (\<^verbatim>\<open>Debugger.cpp\<close>, \<^verbatim>\<open>Random.cpp\<close>, \<^verbatim>\<open>NixlPluginDir.cpp\<close>, \<^verbatim>\<open>Version.cpp\<close>); tests, benchmarks and build files.
\<close>

section \<open>From the configuration to the linker command\<close>

text \<open>
  The settings that the link step of \<^verbatim>\<open>mojo build\<close> reads, taken from the configuration of the tool
  (\<^verbatim>\<open>Mojo/lib/Support/Configuration.cpp\<close>).  The getters do not disturb each other's answers, so each
  field is read from the same configuration.
\<close>

definition build_settings :: "mojo_env \<Rightarrow> kv_map \<Rightarrow> mojo_config" where
  "build_settings c kv = \<lparr>linkerDriver = fst (getLinkerDriver c kv), lldPath = fst (getLLDPath c kv),
     compilerRTPath = fst (getCompilerRTPath c kv),
     compilerRTImportLibraryPath = fst (getCompilerRTImportLibraryPath c kv),
     systemLibraryArgs = fst (appendSystemLibraryLinkArgs c [] kv),
     sharedLibraryArgs = (\<lambda>name. fst (appendSharedLibraryLinkArgs c name [] kv))\<rparr>"

lemma mojoValue_keeps_path:
  assumes "configEnv c = toolEnv ov env rf"
  shows "fst (mojoPath c n rel (snd (mojoValue c m kv))) = fst (mojoPath c n rel kv)"
proof -
  have "snd (mojoValue c m kv) = snd (maybeGetValue (toolEnv ov env rf) (configSection c @ m) kv)"
    by (simp add: mojoValue_def getValue_def assms split: prod.splits option.splits)
  then show ?thesis
    by (simp add: mojoPath_def getPath_lookup assms cfg.path_answer cfg.look_keeps Let_def)
qed

lemma mojoPath_keeps_path:
  assumes "configEnv c = toolEnv ov env rf" "lower (configSection c @ m) \<noteq> lower (configSection c @ n)"
    and "lower (configSection c @ m) \<noteq> lower (fst (split_at CHR ''.'' (configSection c @ n)) @ ''.package_root'')"
  shows "fst (mojoPath c n rel (snd (mojoPath c m rel' kv))) = fst (mojoPath c n rel kv)"
  using assms by (simp add: mojoPath_def getPath_lookup cfg.path_other lower_lower)

lemma lower_section_differ:
  "lower m \<noteq> lower n \<Longrightarrow> lower (sec @ m) \<noteq> lower (sec @ n)"
  by (simp add: lower_append)

lemma lower_ends_differ:
  assumes "last (lower m) \<noteq> last (lower n)" "m \<noteq> []" "n \<noteq> []"
  shows "lower (x @ m) \<noteq> lower (y @ n)"
proof
  assume "lower (x @ m) = lower (y @ n)"
  then have "last (lower x @ lower m) = last (lower y @ lower n)" by (simp add: lower_append)
  moreover have "lower m \<noteq> []" "lower n \<noteq> []" using assms(2,3) by (simp_all add: lower_def)
  ultimately show False using assms(1) by simp
qed

text \<open>
  C39. What \<^verbatim>\<open>mojo build\<close> takes from an installation that does not set its shared libraries: for a
  Windows target no rpath argument survives and the only library left is the runtime bindings, when
  they are installed, under the name they have on the target; for another target the rpath of the
  installation comes first.  The name on Windows is that of the DLL and not of its import library.
\<close>
theorem shared_library_args_from_config:
  fixes c :: mojo_env and kv :: kv_map and t :: link_triple
  defines "bindings \<equiv> fst (mojoPath c ''.shared_libs_artmb''
      (''lib/'' @ getSharedLibraryFileName t ''AsyncRTMojoBindings'') kv)"
  assumes env: "configEnv c = toolEnv ov env rf" and unset: "fst (mojoValue c ''.shared_libs'' kv) = []"
  shows "dropRpaths (isOSWindows t) (sharedLibraryArgs (build_settings c kv) (getSharedLibraryFileName t)) =
      (if isOSWindows t then []
       else [''-Xlinker'', ''-rpath'', ''-Xlinker'', fst (mojoPath c ''.shared_libs_lib'' ''lib'' kv)]) @
      (if installedFile c bindings then [bindings] else []) \<and>
    (\<not> isOSWindows t \<or> bindings = fst (mojoPath c ''.shared_libs_artmb'' ''lib/AsyncRTMojoBindings.dll'' kv))"
proof -
  let ?k1 = "snd (mojoValue c ''.shared_libs'' kv)"
  let ?k2 = "snd (mojoPath c ''.shared_libs_lib'' ''lib'' ?k1)"
  let ?rel = "''lib/'' @ getSharedLibraryFileName t ''AsyncRTMojoBindings''"
  have d1: "lower (configSection c @ ''.shared_libs_lib'') \<noteq> lower (configSection c @ ''.shared_libs_artmb'')"
    by (rule lower_section_differ) (simp add: lower_eval)
  have d2: "lower (configSection c @ ''.shared_libs_lib'') \<noteq> lower (x @ ''.package_root'')" for x
    by (rule lower_ends_differ) (simp_all add: lower_eval)
  have b: "fst (mojoPath c ''.shared_libs_artmb'' ?rel ?k2) = bindings"
    unfolding bindings_def by (simp only: mojoPath_keeps_path [OF env d1 d2] mojoValue_keeps_path [OF env])
  have l: "fst (mojoPath c ''.shared_libs_lib'' ''lib'' ?k1) = fst (mojoPath c ''.shared_libs_lib'' ''lib'' kv)"
    by (rule mojoValue_keeps_path [OF env])
  obtain k1 lib k2 p k3 where k: "mojoValue c ''.shared_libs'' kv = ([], k1)"
    "mojoPath c ''.shared_libs_lib'' ''lib'' k1 = (lib, k2)" "mojoPath c ''.shared_libs_artmb'' ?rel k2 = (p, k3)"
    using unset by (metis prod.collapse)
  have "sharedLibraryArgs (build_settings c kv) (getSharedLibraryFileName t) =
      [''-Xlinker'', ''-rpath'', ''-Xlinker'', fst (mojoPath c ''.shared_libs_lib'' ''lib'' kv)] @
      (if installedFile c bindings then [bindings] else [])"
    using k b l by (simp add: build_settings_def appendSharedLibraryLinkArgs_def)
  moreover have "dropRpaths False xs = xs" for xs by (rule dropRpaths_False)
  ultimately show ?thesis
    by (auto simp: bindings_def getSharedLibraryFileName_def numeral_3_eq_3)
qed

theorem shared_library_args_from_config_witness:
  "dropRpaths True (sharedLibraryArgs (build_settings sample_mojo Map.empty) (getSharedLibraryFileName windows_link_triple)) =
     [fst (mojoPath sample_mojo ''.shared_libs_artmb'' ''lib/AsyncRTMojoBindings.dll'' Map.empty)]"
proof -
  have e: "configEnv sample_mojo = toolEnv Map.empty (\<lambda>_. None)
      \<lparr>rlocation = None, rfExists = (\<lambda>_. False), sharedLibraryName = id, hostWindows = True, hostAArch64 = False\<rparr>"
    by (simp add: sample_mojo_def)
  have u: "fst (mojoValue sample_mojo ''.shared_libs'' Map.empty) = []"
    by (simp add: mojoValue_def getValue_def maybeGetValue_def sample_mojo_def toolEnv_def findConfigWithRunfiles_def
        kRunfileMappings_def plain_file_def shared_lib_def lower_eval)
  from shared_library_args_from_config [OF e u, of windows_link_triple] show ?thesis
    by (simp add: windows_link_triple_def) (simp add: sample_mojo_def getSharedLibraryFileName_def)
qed

section \<open>From the configuration to the libraries of a run\<close>

lemma directLibrary_libraries: "set (libraries st) \<subseteq> set (libraries (directLibrary e arg st))"
  by (auto simp: directLibrary_def add_keeps)

lemma xlinkerArg_libraries: "set (libraries st) \<subseteq> set (libraries (snd (xlinkerArg e arg rest st)))"
  unfolding xlinkerArg_def
  by (simp only: snd_conv value_keeps add_keeps directLibrary_libraries order_refl simp_thms split: option.split if_split)

lemma xlinkerArgs_libraries: "set (libraries st) \<subseteq> set (libraries (xlinkerArgs e args st))"
proof (induction e args st rule: xlinkerArgs.induct)
  case (2 e arg rest st)
  then show ?case
    using xlinkerArg_libraries[of st e arg rest] by auto
qed simp

lemma resolveDeferred_libraries: "set (libraries st) \<subseteq> set (libraries (resolveDeferred e ls st))"
proof (induction ls arbitrary: st)
  case (Cons l ls)
  have "set (libraries st) \<subseteq> set (libraries (case findLibraryByName e l (searchDirs st) of
      Some p \<Rightarrow> st\<lparr>libraries := libraries st @ [p]\<rparr> | None \<Rightarrow> warn w st))" for w
    by (auto simp: add_keeps split: option.split)
  then show ?case
    unfolding resolveDeferred.simps by (rule order_trans[OF _ Cons.IH])
qed simp

text \<open>
  The runtime bindings that an installation has are loaded into a program that \<^verbatim>\<open>mojo run\<close> executes, in front of the
  compiler runtime, whatever linker options the user adds: the path the configuration gives for them passes the
  translation from linker options to libraries.
\<close>
theorem run_loads_bindings:
  fixes c :: mojo_env and kv :: kv_map and hostNamer :: "string \<Rightarrow> string"
  defines "bindings \<equiv> fst (mojoPath c ''.shared_libs_artmb'' (''lib/'' @ hostNamer ''AsyncRTMojoBindings'') kv)"
  assumes env: "configEnv c = toolEnv ov env rf" and unset: "fst (mojoValue c ''.shared_libs'' kv) = []"
    and lib: "fst (mojoPath c ''.shared_libs_lib'' ''lib'' kv) \<noteq> ''-Xlinker''"
    and installed: "installedFile c bindings" "fileExists xl bindings" "hasSharedLibraryExtension xl bindings" "\<not> starts_with ''-'' bindings"
  shows "bindings \<in> set (fst (resolveXlinkerLibraries xl (runLinkerArgs c hostNamer (Inr kv) args)))"
proof -
  let ?rel = "''lib/'' @ hostNamer ''AsyncRTMojoBindings''"
  let ?lib = "fst (mojoPath c ''.shared_libs_lib'' ''lib'' kv)"
  have d1: "lower (configSection c @ ''.shared_libs_lib'') \<noteq> lower (configSection c @ ''.shared_libs_artmb'')"
    by (rule lower_section_differ) (simp add: lower_eval)
  have d2: "lower (configSection c @ ''.shared_libs_lib'') \<noteq> lower (x @ ''.package_root'')" for x
    by (rule lower_ends_differ) (simp_all add: lower_eval)
  obtain k1 l k2 p k3 where k: "mojoValue c ''.shared_libs'' kv = ([], k1)"
    "mojoPath c ''.shared_libs_lib'' ''lib'' k1 = (l, k2)" "mojoPath c ''.shared_libs_artmb'' ?rel k2 = (p, k3)"
    using unset by (metis prod.collapse)
  have "l = ?lib" "p = bindings"
    using mojoValue_keeps_path[OF env, of "''.shared_libs_lib''" "''lib''" "''.shared_libs''" kv]
      mojoPath_keeps_path[OF env d1 d2, of ?rel "''lib''" k1] mojoValue_keeps_path[OF env, of "''.shared_libs_artmb''" ?rel "''.shared_libs''" kv] k
    by (simp_all add: bindings_def)
  moreover have "bindings \<noteq> ''-Xlinker''"
    using installed(4) by (auto simp: starts_with_def)
  ultimately obtain user where args: "runLinkerArgs c hostNamer (Inr kv) args = ''-rpath'' # ?lib # bindings # user"
    using k lib installed(1) by (simp add: runLinkerArgs_def appendSharedLibraryLinkArgs_def)
  have option: "consume_front q bindings = None" if "starts_with ''-'' q" for q
    using that installed(4) by (auto simp: consume_front_def starts_with_iff)
  have "xlinkerArg xl bindings user st = (user, st\<lparr>libraries := libraries st @ [bindings]\<rparr>)" for st
    using installed(2-4) option by (auto simp: xlinkerArg_def directLibrary_def starts_with_def)
  moreover have "xlinkerArg xl ''-rpath'' (?lib # bindings # user) st = (bindings # user, addDir ?lib st)" for st
    by (simp add: xlinkerArg_def consume_front_def starts_with_def valueOrNext_def)
  ultimately have "xlinkerArgs xl (''-rpath'' # ?lib # bindings # user) st =
      xlinkerArgs xl user (addDir ?lib st\<lparr>libraries := libraries (addDir ?lib st) @ [bindings]\<rparr>)" for st
    by simp
  then have "bindings \<in> set (libraries (xlinkerArgs xl (''-rpath'' # ?lib # bindings # user) st))" for st
    using xlinkerArgs_libraries[of "addDir ?lib st\<lparr>libraries := libraries (addDir ?lib st) @ [bindings]\<rparr>" xl user] by auto
  then show ?thesis
    using resolveDeferred_libraries by (fastforce simp: resolveXlinkerLibraries_def args Let_def)
qed

end
